(* ===== verification/Prelude.thy ===== *)
theory Prelude
  imports Complex_Main "HOL-Library.Word" "HOL-Library.Monad_Syntax"
begin

section \<open>Prelude: doubles, joint vectors and publication buffers\<close>

text \<open>
  What every component of the driver shares: the values of the C++ type \<open>double\<close>
  (exact reals with the two infinities and NaN, and the IEEE comparison rules that the code's
  guards rely on; rounding, overflow and the sign of zero are not modelled), the library
  functions on them the code uses (\<open>std::clamp\<close>, \<open>std::min\<close>, \<open>std::max\<close>,
  \<open>std::isfinite\<close>, \<open>std::abs\<close>), the fixed-size vectors of Eigen, and the two-slot
  buffer through which a non-real-time thread publishes a value to the real-time loop.
\<close>

named_theorems dbl_simps \<open>evaluation of double operations on constructors\<close>
named_theorems vec_simps \<open>componentwise reading of joint vectors\<close>

subsection \<open>Doubles\<close>

datatype dbl = Fin real | PInf | NInf | NaN

definition isfinite :: "dbl \<Rightarrow> bool" where
  "isfinite x = (case x of Fin _ \<Rightarrow> True | _ \<Rightarrow> False)"

instantiation dbl :: "{plus, uminus, minus, times, inverse, abs, ord}"
begin

fun plus_dbl :: "dbl \<Rightarrow> dbl \<Rightarrow> dbl" where
  "plus_dbl NaN y = NaN"
| "plus_dbl x NaN = NaN"
| "plus_dbl (Fin a) (Fin b) = Fin (a + b)"
| "plus_dbl PInf NInf = NaN"
| "plus_dbl NInf PInf = NaN"
| "plus_dbl PInf y = PInf"
| "plus_dbl NInf y = NInf"
| "plus_dbl (Fin a) y = y"

fun uminus_dbl :: "dbl \<Rightarrow> dbl" where
  "uminus_dbl (Fin a) = Fin (- a)"
| "uminus_dbl PInf = NInf"
| "uminus_dbl NInf = PInf"
| "uminus_dbl NaN = NaN"

definition minus_dbl :: "dbl \<Rightarrow> dbl \<Rightarrow> dbl" where
  "minus_dbl x y = x + (- y)"

fun times_dbl :: "dbl \<Rightarrow> dbl \<Rightarrow> dbl" where
  "times_dbl NaN y = NaN"
| "times_dbl x NaN = NaN"
| "times_dbl (Fin a) (Fin b) = Fin (a * b)"
| "times_dbl (Fin a) y = (if a = 0 then NaN else if 0 < a then y else - y)"
| "times_dbl x (Fin b) = (if b = 0 then NaN else if 0 < b then x else - x)"
| "times_dbl PInf y = y"
| "times_dbl NInf y = - y"

fun inverse_dbl :: "dbl \<Rightarrow> dbl" where
  "inverse_dbl (Fin a) = (if a = 0 then PInf else Fin (inverse a))"
| "inverse_dbl PInf = Fin 0"
| "inverse_dbl NInf = Fin 0"
| "inverse_dbl NaN = NaN"

definition divide_dbl :: "dbl \<Rightarrow> dbl \<Rightarrow> dbl" where
  "divide_dbl x y = x * inverse y"

fun abs_dbl :: "dbl \<Rightarrow> dbl" where
  "abs_dbl (Fin a) = Fin (abs a)"
| "abs_dbl PInf = PInf"
| "abs_dbl NInf = PInf"
| "abs_dbl NaN = NaN"

fun less_dbl :: "dbl \<Rightarrow> dbl \<Rightarrow> bool" where
  "less_dbl NaN y = False"
| "less_dbl x NaN = False"
| "less_dbl (Fin a) (Fin b) = (a < b)"
| "less_dbl PInf y = False"
| "less_dbl x NInf = False"
| "less_dbl x y = True"

definition less_eq_dbl :: "dbl \<Rightarrow> dbl \<Rightarrow> bool" where
  "less_eq_dbl x y = (x < y \<or> (x = y \<and> x \<noteq> NaN))"

instance ..

end

text \<open>
  With exact reals the only divisions by zero are by positive zero: \<open>inverse_dbl (Fin 0)\<close> is
  \<open>PInf\<close>, so \<open>x / 0\<close> is an infinity of the sign of \<open>x\<close> and \<open>0 / 0\<close> is NaN.
\<close>

text \<open>The real number a finite double stands for.\<close>

definition dval :: "dbl \<Rightarrow> real" where
  "dval x = (case x of Fin a \<Rightarrow> a | _ \<Rightarrow> 0)"

lemma dval_Fin [simp]: "dval (Fin a) = a"
  by (simp add: dval_def)

text \<open>The C++ operator \<open>==\<close>: NaN is not equal to itself.\<close>

definition deq :: "dbl \<Rightarrow> dbl \<Rightarrow> bool" where
  "deq x y = (x = y \<and> x \<noteq> NaN)"

lemma isfinite_simps [simp]:
  "isfinite (Fin a)" "\<not> isfinite PInf" "\<not> isfinite NInf" "\<not> isfinite NaN"
  by (simp_all add: isfinite_def)

lemma isfinite_iff: "isfinite x \<longleftrightarrow> (\<exists>a. x = Fin a)"
  by (cases x) simp_all

lemma isfiniteE [elim]: "isfinite x \<Longrightarrow> (\<And>a. x = Fin a \<Longrightarrow> P) \<Longrightarrow> P"
  by (cases x) simp_all

lemma dbl_minus_simps [simp]:
  "Fin a - Fin b = Fin (a - b)" "PInf - Fin b = PInf" "NInf - Fin b = NInf"
  "NaN - x = NaN" "x - NaN = NaN" "Fin a - PInf = NInf" "Fin a - NInf = PInf"
  "PInf - PInf = NaN" "NInf - NInf = NaN" "PInf - NInf = PInf" "NInf - PInf = NInf"
  by (cases x; simp add: minus_dbl_def)+

lemma dbl_plus_NaN [simp]: "x + NaN = NaN"
  by (cases x) simp_all

lemma dbl_times_NaN [simp]: "x * NaN = (NaN :: dbl)"
  by (cases x) simp_all

lemma dbl_divide_Fin [simp]: "b \<noteq> 0 \<Longrightarrow> Fin a / Fin b = Fin (a / b)"
  by (simp add: divide_dbl_def divide_inverse)

lemma dbl_divide_NaN [simp]: "NaN / x = (NaN :: dbl)" "x / NaN = (NaN :: dbl)"
  by (simp_all add: divide_dbl_def)

lemma dbl_less_NaN [simp]: "\<not> x < NaN" "\<not> NaN < x" "\<not> x \<le> NaN" "\<not> NaN \<le> (x :: dbl)"
  by (cases x; simp add: less_eq_dbl_def)+

lemma dbl_le_simps [simp]:
  "(Fin a \<le> Fin b) = (a \<le> b)" "Fin a \<le> PInf" "NInf \<le> Fin a" "\<not> PInf \<le> Fin a"
  "\<not> Fin a \<le> NInf" "PInf \<le> PInf" "NInf \<le> NInf" "NInf \<le> PInf" "\<not> PInf \<le> NInf"
  by (auto simp: less_eq_dbl_def)

lemma dbl_less_irrefl [simp]: "\<not> x < (x :: dbl)"
  by (cases x) simp_all

lemma dbl_less_trans: "x < y \<Longrightarrow> y < z \<Longrightarrow> x < (z :: dbl)"
  by (cases x; cases y; cases z) auto

lemma dbl_not_less_le: "x \<noteq> NaN \<Longrightarrow> y \<noteq> NaN \<Longrightarrow> \<not> x < y \<Longrightarrow> y \<le> (x :: dbl)"
  by (cases x; cases y) auto

lemma dbl_less_imp_le: "x < y \<Longrightarrow> x \<le> (y :: dbl)"
  by (simp add: less_eq_dbl_def)

lemma dbl_le_trans: "x \<le> y \<Longrightarrow> y \<le> z \<Longrightarrow> x \<le> (z :: dbl)"
  by (cases x; cases y; cases z) auto

lemma dbl_between_finite: "Fin a \<le> x \<Longrightarrow> x \<le> Fin b \<Longrightarrow> isfinite x"
  by (cases x) auto

lemma deq_simps [simp]: "deq (Fin a) (Fin b) = (a = b)" "\<not> deq NaN x" "\<not> deq x NaN"
  by (auto simp: deq_def)

text \<open>\<open>std::clamp\<close>, \<open>std::min\<close> and \<open>std::max\<close>, by the comparisons they make:
  a NaN value passes through \<open>sclamp\<close>.\<close>

definition sclamp :: "dbl \<Rightarrow> dbl \<Rightarrow> dbl \<Rightarrow> dbl" where
  "sclamp v lo hi = (if v < lo then lo else if hi < v then hi else v)"

definition smin :: "dbl \<Rightarrow> dbl \<Rightarrow> dbl" where
  "smin a b = (if b < a then b else a)"

definition smax :: "dbl \<Rightarrow> dbl \<Rightarrow> dbl" where
  "smax a b = (if a < b then b else a)"

definition dsqrt :: "dbl \<Rightarrow> dbl" where
  "dsqrt x = (case x of Fin a \<Rightarrow> if a < 0 then NaN else Fin (sqrt a)
                      | PInf \<Rightarrow> PInf | _ \<Rightarrow> NaN)"

lemma sclamp_Fin [simp]:
  "sclamp (Fin v) (Fin lo) (Fin hi) = Fin (if v < lo then lo else if hi < v then hi else v)"
  by (simp add: sclamp_def)

lemma sclamp_NaN [simp]: "sclamp NaN lo hi = NaN"
  by (simp add: sclamp_def)

lemma sclamp_bounds:
  assumes "x \<noteq> NaN" and "lo \<le> hi"
  shows "lo \<le> sclamp x lo hi \<and> sclamp x lo hi \<le> hi"
  using assms
  by (cases x; cases lo; cases hi) (auto simp: sclamp_def)

lemma sclamp_finite:
  "isfinite lo \<Longrightarrow> isfinite hi \<Longrightarrow> x \<noteq> NaN \<Longrightarrow> isfinite (sclamp x lo hi)"
  by (cases x) (auto simp: sclamp_def)

lemma sclamp_id: "lo \<le> x \<Longrightarrow> x \<le> hi \<Longrightarrow> sclamp x lo hi = x"
  by (cases x; cases lo; cases hi) (auto simp: sclamp_def)

lemma smin_Fin [simp]: "smin (Fin a) (Fin b) = Fin (min a b)"
  by (simp add: smin_def min_def)

lemma smax_Fin [simp]: "smax (Fin a) (Fin b) = Fin (max a b)"
  by (auto simp: smax_def max_def)

subsection \<open>Fixed-size vectors\<close>

datatype 'a vec7 = V7 'a 'a 'a 'a 'a 'a 'a

type_synonym jointvec = "dbl vec7"
type_synonym jointmat = "dbl vec7 vec7"

datatype 'a vec6 = V6 'a 'a 'a 'a 'a 'a

type_synonym vector6 = "dbl vec6"
type_synonym jacobian6 = "dbl vec7 vec6"

abbreviation kNumJoints :: nat where
  "kNumJoints \<equiv> 7"

definition vnth :: "'a vec7 \<Rightarrow> nat \<Rightarrow> 'a" where
  "vnth v i = (case v of V7 a b c d e f g \<Rightarrow>
     if i = 0 then a else if i = 1 then b else if i = 2 then c else if i = 3 then d
     else if i = 4 then e else if i = 5 then f else g)"

text \<open>\<open>vgen f\<close> is the loop \<open>for (i = 0; i < kNumJoints; ++i) out[i] = f(i)\<close>; \<open>vgenM\<close>
  is the same loop with a body that may not return (\<open>None\<close>).\<close>

definition vgen :: "(nat \<Rightarrow> 'a) \<Rightarrow> 'a vec7" where
  "vgen f = V7 (f 0) (f 1) (f 2) (f 3) (f 4) (f 5) (f 6)"

definition vgenM :: "(nat \<Rightarrow> 'a option) \<Rightarrow> 'a vec7 option" where
  "vgenM f = do { a \<leftarrow> f 0; b \<leftarrow> f 1; c \<leftarrow> f 2; d \<leftarrow> f 3; e \<leftarrow> f 4; g \<leftarrow> f 5; h \<leftarrow> f 6;
                  Some (V7 a b c d e g h) }"

definition vconst :: "'a \<Rightarrow> 'a vec7" where
  "vconst c = V7 c c c c c c c"

definition vupd :: "'a vec7 \<Rightarrow> nat \<Rightarrow> 'a \<Rightarrow> 'a vec7" where
  "vupd v i x = vgen (\<lambda>j. if j = i then x else vnth v j)"

definition vsum :: "jointvec \<Rightarrow> dbl" where
  "vsum v = (case v of V7 a b c d e f g \<Rightarrow> a + b + c + d + e + f + g)"

abbreviation vzero :: jointvec where
  "vzero \<equiv> vconst (Fin 0)"

definition vnth6 :: "'a vec6 \<Rightarrow> nat \<Rightarrow> 'a" where
  "vnth6 v i = (case v of V6 a b c d e f \<Rightarrow>
     if i = 0 then a else if i = 1 then b else if i = 2 then c else if i = 3 then d
     else if i = 4 then e else f)"

definition vgen6 :: "(nat \<Rightarrow> 'a) \<Rightarrow> 'a vec6" where
  "vgen6 f = V6 (f 0) (f 1) (f 2) (f 3) (f 4) (f 5)"

definition vconst6 :: "'a \<Rightarrow> 'a vec6" where
  "vconst6 c = V6 c c c c c c"

lemma less_7_cases:
  fixes i :: nat
  assumes "i < 7"
  obtains "i = 0" | "i = 1" | "i = 2" | "i = 3" | "i = 4" | "i = 5" | "i = 6"
  using assms by linarith

lemma all_less_7: "(\<forall>i < (7::nat). P i) \<longleftrightarrow> P 0 \<and> P 1 \<and> P 2 \<and> P 3 \<and> P 4 \<and> P 5 \<and> P 6"
proof
  assume "P 0 \<and> P 1 \<and> P 2 \<and> P 3 \<and> P 4 \<and> P 5 \<and> P 6"
  then show "\<forall>i < (7::nat). P i" by (metis less_7_cases)
qed auto

lemma vnth_V7 [simp, vec_simps]:
  "vnth (V7 a b c d e f g) 0 = a" "vnth (V7 a b c d e f g) (Suc 0) = b"
  "vnth (V7 a b c d e f g) 1 = b"
  "vnth (V7 a b c d e f g) 2 = c" "vnth (V7 a b c d e f g) 3 = d"
  "vnth (V7 a b c d e f g) 4 = e" "vnth (V7 a b c d e f g) 5 = f"
  "vnth (V7 a b c d e f g) 6 = g"
  by (simp_all add: vnth_def)

lemma vnth_vgen [simp, vec_simps]: "i < 7 \<Longrightarrow> vnth (vgen f) i = f i"
  by (erule less_7_cases) (simp_all add: vgen_def)

lemma vnth_vconst [simp, vec_simps]: "vnth (vconst c) i = c"
  by (simp add: vconst_def vnth_def)

lemma vec7_eq_iff: "v = w \<longleftrightarrow> (\<forall>i < 7. vnth v i = vnth w i)"
  by (cases v; cases w) (simp add: all_less_7)

lemma vec7_eqI: "(\<And>i. i < 7 \<Longrightarrow> vnth v i = vnth w i) \<Longrightarrow> v = w"
  by (simp add: vec7_eq_iff)

lemma vgen_eq_iff: "v = vgen f \<longleftrightarrow> (\<forall>i < 7. vnth v i = f i)"
  by (auto simp: vec7_eq_iff)

lemma vgen_vnth [simp]: "vgen (vnth v) = v"
  by (rule vec7_eqI) simp

lemma vnth_vupd [simp, vec_simps]:
  "j < 7 \<Longrightarrow> vnth (vupd v i x) j = (if j = i then x else vnth v j)"
  by (simp add: vupd_def)

lemma vgenM_Some_iff: "vgenM f = Some v \<longleftrightarrow> (\<forall>i < 7. f i = Some (vnth v i))"
  by (cases v) (auto simp: vgenM_def all_less_7 bind_eq_Some_conv)

lemma vgenM_SomeI:
  assumes "\<And>i. i < 7 \<Longrightarrow> \<exists>y. f i = Some y"
  shows "\<exists>v. vgenM f = Some v"
proof -
  have "vgenM f = Some (vgen (\<lambda>i. the (f i)))"
    using assms by (fastforce simp: vgenM_Some_iff)
  then show ?thesis ..
qed

lemma vgenM_total: "(\<And>i. i < 7 \<Longrightarrow> f i = Some (g i)) \<Longrightarrow> vgenM f = Some (vgen g)"
  by (simp add: vgenM_Some_iff)

lemma vgenM_None:
  assumes "i < 7" and "f i = None"
  shows "vgenM f = None"
  using assms by (cases "vgenM f") (auto simp: vgenM_Some_iff)

text \<open>Finite vectors: \<open>allFinite()\<close> of Eigen.\<close>

definition vfinite :: "jointvec \<Rightarrow> bool" where
  "vfinite v = list_all (\<lambda>i. isfinite (vnth v i)) [0..<7]"

lemma vfinite_iff: "vfinite v \<longleftrightarrow> (\<forall>i < 7. isfinite (vnth v i))"
  by (auto simp: vfinite_def list_all_iff)

lemma vfiniteD: "vfinite v \<Longrightarrow> i < 7 \<Longrightarrow> isfinite (vnth v i)"
  by (simp add: vfinite_iff)

lemma vfinite_vconst [simp]: "vfinite (vconst c) = isfinite c"
  using vfinite_iff [of "vconst c", unfolded all_less_7] by simp

text \<open>Componentwise arithmetic of Eigen.\<close>

instantiation vec7 :: (plus) plus
begin
definition plus_vec7 :: "'a vec7 \<Rightarrow> 'a vec7 \<Rightarrow> 'a vec7" where
  "plus_vec7 v w = vgen (\<lambda>i. vnth v i + vnth w i)"
instance ..
end

instantiation vec7 :: (minus) minus
begin
definition minus_vec7 :: "'a vec7 \<Rightarrow> 'a vec7 \<Rightarrow> 'a vec7" where
  "minus_vec7 v w = vgen (\<lambda>i. vnth v i - vnth w i)"
instance ..
end

definition vscale :: "dbl \<Rightarrow> jointvec \<Rightarrow> jointvec" where
  "vscale c v = vgen (\<lambda>i. c * vnth v i)"

definition vdivs :: "jointvec \<Rightarrow> dbl \<Rightarrow> jointvec" where
  "vdivs v c = vgen (\<lambda>i. vnth v i / c)"

lemma vnth_arith [simp, vec_simps]:
  "i < 7 \<Longrightarrow> vnth (v + w) i = vnth v i + vnth w i"
  "i < 7 \<Longrightarrow> vnth (v' - w') i = vnth v' i - vnth w' i"
  "i < 7 \<Longrightarrow> vnth (vscale c u) i = c * vnth u i"
  "i < 7 \<Longrightarrow> vnth (vdivs u c) i = vnth u i / c"
  by (simp_all add: plus_vec7_def minus_vec7_def vscale_def vdivs_def)

text \<open>Matrix times vector, for the 7x7 mass and Coriolis matrices (row by row).\<close>

definition mat_vec :: "jointmat \<Rightarrow> jointvec \<Rightarrow> jointvec" where
  "mat_vec M v = vgen (\<lambda>i. vsum (vgen (\<lambda>j. vnth (vnth M i) j * vnth v j)))"

definition mat_tr :: "jointmat \<Rightarrow> jointmat" where
  "mat_tr M = vgen (\<lambda>i. vgen (\<lambda>j. vnth (vnth M j) i))"

subsection \<open>A value published by one writer\<close>

text \<open>
  The interface between the non-real-time setters and the real-time loop: the reader gets the
  value of the last publication. The code implements it by two slots and an atomic index.
\<close>

locale latest_value =
  fixes publish :: "'s \<Rightarrow> 'a \<Rightarrow> 's" and current :: "'s \<Rightarrow> 'a"
  assumes current_publish: "current (publish s x) = x"
begin

lemma current_fold_publish: "xs \<noteq> [] \<Longrightarrow> current (foldl publish s xs) = last xs"
  by (induction xs rule: rev_induct) (simp_all add: current_publish)

lemma current_overwritten: "current (publish (publish s x) y) = y"
  by (rule current_publish)

end

record 'a dbuf =
  db_slot0 :: 'a
  db_slot1 :: 'a
  db_active :: nat

definition dbuf_init :: "'a \<Rightarrow> 'a dbuf" where
  "dbuf_init x = \<lparr>db_slot0 = x, db_slot1 = x, db_active = 0\<rparr>"

definition dbuf_slot :: "'a dbuf \<Rightarrow> nat \<Rightarrow> 'a" where
  "dbuf_slot d i = (if i = 0 then db_slot0 d else db_slot1 d)"

text \<open>First the store into the inactive slot, then the flip of the index.\<close>

definition dbuf_fill :: "'a dbuf \<Rightarrow> 'a \<Rightarrow> 'a dbuf" where
  "dbuf_fill d x = (if 1 - db_active d = 0 then d\<lparr>db_slot0 := x\<rparr> else d\<lparr>db_slot1 := x\<rparr>)"

definition dbuf_flip :: "'a dbuf \<Rightarrow> 'a dbuf" where
  "dbuf_flip d = d\<lparr>db_active := 1 - db_active d\<rparr>"

definition dbuf_publish :: "'a dbuf \<Rightarrow> 'a \<Rightarrow> 'a dbuf" where
  "dbuf_publish d x = dbuf_flip (dbuf_fill d x)"

definition dbuf_read :: "'a dbuf \<Rightarrow> 'a" where
  "dbuf_read d = dbuf_slot d (db_active d)"

lemma dbuf_read_publish [simp]: "dbuf_read (dbuf_publish d x) = x"
  by (simp add: dbuf_read_def dbuf_publish_def dbuf_flip_def dbuf_fill_def dbuf_slot_def)

lemma dbuf_read_init [simp]: "dbuf_read (dbuf_init x) = x"
  by (simp add: dbuf_read_def dbuf_init_def dbuf_slot_def)

text \<open>While the writer fills its slot the reader still sees the value published before.\<close>

lemma dbuf_read_fill [simp]: "db_active d \<le> 1 \<Longrightarrow> dbuf_read (dbuf_fill d x) = dbuf_read d"
  by (simp add: dbuf_read_def dbuf_fill_def dbuf_slot_def)

interpretation dbuf: latest_value dbuf_publish dbuf_read
  by unfold_locales simp

end
