(* ===== verification/Joint_Types.thy ===== *)
theory Joint_Types
  imports Prelude
begin

section \<open>Joint types, units, gripper types and command targets\<close>

text \<open>
  The plain value types of \<open>joint_types.h\<close>, \<open>gripper_types.h\<close>, \<open>cartesian_types.h\<close>,
  \<open>joint_target_sink.h\<close> and \<open>transport.h\<close>, and the angle arithmetic of \<open>units.h\<close>. The two
  loops of \<open>wrap_to_pi\<close> are \<open>partial_function (option)\<close>: \<open>None\<close> is a call that never returns.
  The constant M\_PI of the C library is the rational value of that double.
\<close>

subsection \<open>Units\<close>

definition pi_r :: real where
  "pi_r = 884279719003555 / 281474976710656"

definition M_PI :: dbl where
  "M_PI = Fin pi_r"

lemma pi_r_pos [simp]: "0 < pi_r" "0 \<le> pi_r" "\<not> pi_r < 0"
  by (simp_all add: pi_r_def)

definition kDeg2Rad :: dbl where
  "kDeg2Rad = M_PI / Fin 180"

definition kRad2Deg :: dbl where
  "kRad2Deg = Fin 180 / M_PI"

definition deg_to_rad :: "jointvec \<Rightarrow> jointvec" where
  "deg_to_rad d = vscale kDeg2Rad d"

definition rad_to_deg :: "jointvec \<Rightarrow> jointvec" where
  "rad_to_deg r = vscale kRad2Deg r"

partial_function (option) wrap_down :: "dbl \<Rightarrow> dbl option" where
  "wrap_down a = (if M_PI < a then wrap_down (a - Fin 2 * M_PI) else Some a)"

partial_function (option) wrap_up :: "dbl \<Rightarrow> dbl option" where
  "wrap_up a = (if a \<le> - M_PI then wrap_up (a + Fin 2 * M_PI) else Some a)"

definition wrap_to_pi :: "dbl \<Rightarrow> dbl option" where
  "wrap_to_pi a = do { b \<leftarrow> wrap_down a; wrap_up b }"

text \<open>Where a joint is continuous the code folds a difference, elsewhere it keeps it.\<close>

definition wrap_if :: "bool \<Rightarrow> dbl \<Rightarrow> dbl option" where
  "wrap_if cont a = (if cont then wrap_to_pi a else Some a)"

subsubsection \<open>The wrapped value\<close>

definition in_pi :: "real \<Rightarrow> bool" where
  "in_pi x = (- pi_r < x \<and> x \<le> pi_r)"

lemma wrap_down_stop: "x \<le> pi_r \<Longrightarrow> wrap_down (Fin x) = Some (Fin x)"
  by (subst wrap_down.simps) (simp add: M_PI_def)

lemma wrap_up_stop: "- pi_r < x \<Longrightarrow> wrap_up (Fin x) = Some (Fin x)"
  by (subst wrap_up.simps) (simp add: M_PI_def)

lemma wrap_down_step: "pi_r < x \<Longrightarrow> wrap_down (Fin x) = wrap_down (Fin (x - 2 * pi_r))"
  by (subst wrap_down.simps) (simp add: M_PI_def)

lemma wrap_up_step: "x \<le> - pi_r \<Longrightarrow> wrap_up (Fin x) = wrap_up (Fin (x + 2 * pi_r))"
  by (subst wrap_up.simps) (simp add: M_PI_def)

lemma wrap_down_steps:
  assumes "x \<le> pi_r + 2 * real n * pi_r"
  shows "\<exists>k \<le> n. wrap_down (Fin x) = Some (Fin (x - 2 * real k * pi_r)) \<and>
           x - 2 * real k * pi_r \<le> pi_r \<and> (0 < k \<longrightarrow> - pi_r < x - 2 * real k * pi_r)"
  using assms
proof (induction n arbitrary: x)
  case 0
  then show ?case by (simp add: wrap_down_stop)
next
  case (Suc n)
  show ?case
  proof (cases "pi_r < x")
    case False
    then show ?thesis by (intro exI [of _ 0]) (simp add: wrap_down_stop)
  next
    case True
    have "x - 2 * pi_r \<le> pi_r + 2 * real n * pi_r"
      using Suc.prems by (simp add: algebra_simps)
    from Suc.IH [OF this] obtain k where k: "k \<le> n"
      "wrap_down (Fin (x - 2 * pi_r)) = Some (Fin (x - 2 * pi_r - 2 * real k * pi_r))"
      "x - 2 * pi_r - 2 * real k * pi_r \<le> pi_r"
      "0 < k \<longrightarrow> - pi_r < x - 2 * pi_r - 2 * real k * pi_r" by blast
    from True k(4) have "- pi_r < x - 2 * pi_r - 2 * real k * pi_r"
      by (cases k) auto
    with k True show ?thesis
      by (intro exI [of _ "Suc k"]) (simp add: wrap_down_step algebra_simps)
  qed
qed

lemma wrap_up_steps:
  assumes "- pi_r - 2 * real n * pi_r < x"
  shows "\<exists>k \<le> n. wrap_up (Fin x) = Some (Fin (x + 2 * real k * pi_r)) \<and>
           - pi_r < x + 2 * real k * pi_r \<and> (0 < k \<longrightarrow> x + 2 * real k * pi_r \<le> pi_r)"
  using assms
proof (induction n arbitrary: x)
  case 0
  then show ?case by (simp add: wrap_up_stop)
next
  case (Suc n)
  show ?case
  proof (cases "x \<le> - pi_r")
    case False
    then show ?thesis by (intro exI [of _ 0]) (simp add: wrap_up_stop)
  next
    case True
    have "- pi_r - 2 * real n * pi_r < x + 2 * pi_r"
      using Suc.prems by (simp add: algebra_simps)
    from Suc.IH [OF this] obtain k where k: "k \<le> n"
      "wrap_up (Fin (x + 2 * pi_r)) = Some (Fin (x + 2 * pi_r + 2 * real k * pi_r))"
      "- pi_r < x + 2 * pi_r + 2 * real k * pi_r"
      "0 < k \<longrightarrow> x + 2 * pi_r + 2 * real k * pi_r \<le> pi_r" by blast
    from True k(4) have "x + 2 * pi_r + 2 * real k * pi_r \<le> pi_r"
      by (cases k) auto
    with k True show ?thesis
      by (intro exI [of _ "Suc k"]) (simp add: wrap_up_step algebra_simps)
  qed
qed

lemma turns_cover: "\<exists>n. (x::real) \<le> pi_r + 2 * real n * pi_r"
proof -
  obtain n where "x / (2 * pi_r) < real n" using reals_Archimedean2 by blast
  then have "x < 2 * real n * pi_r" by (simp add: field_simps)
  then have "x \<le> pi_r + 2 * real n * pi_r" using pi_r_pos by linarith
  then show ?thesis ..
qed

text \<open>A finite angle is folded into the half-open interval by whole turns.\<close>

lemma wrap_to_pi_Fin:
  "\<exists>k::int. wrap_to_pi (Fin x) = Some (Fin (x + 2 * of_int k * pi_r)) \<and>
     in_pi (x + 2 * of_int k * pi_r)"
proof -
  obtain n where "x \<le> pi_r + 2 * real n * pi_r" using turns_cover by blast
  then obtain k where k: "wrap_down (Fin x) = Some (Fin (x - 2 * real k * pi_r))"
    "x - 2 * real k * pi_r \<le> pi_r" "0 < k \<longrightarrow> - pi_r < x - 2 * real k * pi_r"
    using wrap_down_steps by blast
  let ?y = "x - 2 * real k * pi_r"
  obtain m where "- ?y \<le> pi_r + 2 * real m * pi_r" using turns_cover by blast
  moreover have "2 * real (Suc m) * pi_r = 2 * real m * pi_r + 2 * pi_r"
    by (simp add: algebra_simps)
  ultimately have "- pi_r - 2 * real (Suc m) * pi_r < ?y"
    using pi_r_pos(1) by linarith
  then obtain j where j: "wrap_up (Fin ?y) = Some (Fin (?y + 2 * real j * pi_r))"
    "- pi_r < ?y + 2 * real j * pi_r" "0 < j \<longrightarrow> ?y + 2 * real j * pi_r \<le> pi_r"
    using wrap_up_steps by blast
  have up: "?y + 2 * real j * pi_r \<le> pi_r" using j(3) k(2) by (cases j) auto
  have eq: "?y + 2 * real j * pi_r = x + 2 * of_int (int j - int k) * pi_r"
    by (simp add: algebra_simps)
  show ?thesis
    by (rule exI [of _ "int j - int k"])
      (use k(1) j(1,2) up eq in \<open>simp add: wrap_to_pi_def in_pi_def\<close>)
qed

lemma wrap_to_pi_in_range: "wrap_to_pi (Fin x) = Some y \<Longrightarrow> \<exists>r. y = Fin r \<and> in_pi r"
  using wrap_to_pi_Fin [of x] by auto

lemma wrap_to_pi_id [simp]: "in_pi x \<Longrightarrow> wrap_to_pi (Fin x) = Some (Fin x)"
  by (simp add: wrap_to_pi_def in_pi_def wrap_down_stop wrap_up_stop)

lemma wrap_to_pi_NaN [simp]: "wrap_to_pi NaN = Some NaN"
  by (simp add: wrap_to_pi_def wrap_down.simps [of NaN] wrap_up.simps [of NaN])

text \<open>The loops never leave an infinity: subtracting a turn gives the infinity back.\<close>

lemma wrap_down_PInf: "wrap_down PInf = None"
proof (cases "wrap_down PInf")
  case (Some r)
  have "PInf \<noteq> PInf"
  proof (rule wrap_down.raw_induct [where P = "\<lambda>a r. a \<noteq> PInf", OF _ Some])
    fix f a r
    assume IH: "\<And>a r. f a = Some r \<Longrightarrow> a \<noteq> PInf"
      and eq: "(if M_PI < a then f (a - Fin 2 * M_PI) else Some a) = Some r"
    show "a \<noteq> PInf"
      using IH [of PInf r] eq by (cases "a = PInf") (simp_all add: M_PI_def)
  qed
  then show ?thesis by simp
qed

lemma wrap_up_NInf: "wrap_up NInf = None"
proof (cases "wrap_up NInf")
  case (Some r)
  have "NInf \<noteq> NInf"
  proof (rule wrap_up.raw_induct [where P = "\<lambda>a r. a \<noteq> NInf", OF _ Some])
    fix f a r
    assume IH: "\<And>a r. f a = Some r \<Longrightarrow> a \<noteq> NInf"
      and eq: "(if a \<le> - M_PI then f (a + Fin 2 * M_PI) else Some a) = Some r"
    show "a \<noteq> NInf"
      using IH [of NInf r] eq by (cases "a = NInf") (simp_all add: M_PI_def)
  qed
  then show ?thesis by simp
qed

lemma wrap_to_pi_inf [simp]: "wrap_to_pi PInf = None" "wrap_to_pi NInf = None"
  by (simp_all add: wrap_to_pi_def wrap_down_PInf wrap_down.simps [of NInf] wrap_up_NInf M_PI_def)

lemma wrap_if_simps [simp]: "wrap_if False a = Some a" "wrap_if True a = wrap_to_pi a"
  by (simp_all add: wrap_if_def)

lemma wrap_if_finite: "isfinite a \<Longrightarrow> \<exists>r. wrap_if c a = Some (Fin r)"
  using wrap_to_pi_Fin by (cases c) (fastforce simp: isfinite_iff)+

lemma wrap_if_SomeD: "wrap_if c a = Some b \<Longrightarrow> isfinite a \<Longrightarrow> isfinite b"
  using wrap_if_finite [of a c] by auto

lemma wrap_to_pi_None_iff: "wrap_to_pi a = None \<longleftrightarrow> a = PInf \<or> a = NInf"
proof (cases a)
  case (Fin x)
  then show ?thesis using wrap_to_pi_Fin [of x] by auto
qed simp_all

text \<open>Two angles within a distance of each other, up to whole turns.\<close>

definition near_mod_turn :: "real \<Rightarrow> real \<Rightarrow> real \<Rightarrow> bool" where
  "near_mod_turn L x y = (\<exists>k::int. \<bar>x - y + 2 * of_int k * pi_r\<bar> \<le> L)"

lemma near_mod_turnI: "\<bar>x - y\<bar> \<le> L \<Longrightarrow> near_mod_turn L x y"
  unfolding near_mod_turn_def by (rule exI [of _ 0]) simp

lemma near_mod_turn_wrap:
  assumes "\<bar>c\<bar> \<le> L" and "wrap_to_pi (Fin (y + c)) = Some (Fin x)"
  shows "near_mod_turn L x y"
proof -
  obtain k :: int where "x = y + c + 2 * of_int k * pi_r"
    using wrap_to_pi_Fin [of "y + c"] assms(2) by auto
  then show ?thesis
    using assms(1) by (auto simp: near_mod_turn_def intro!: exI [of _ "- k"])
qed

subsection \<open>Gripper, feedback and command\<close>

record gripper_command =
  gc_position :: dbl
  gc_speed :: dbl
  gc_force :: dbl
  gc_active :: bool

record gripper_feedback =
  gf_position :: dbl
  gf_effort :: dbl
  gf_current :: dbl
  gf_present :: bool

definition gripper_command0 :: gripper_command where
  "gripper_command0 = \<lparr>gc_position = Fin 0, gc_speed = Fin 1, gc_force = Fin (1/2), gc_active = False\<rparr>"

definition gripper_feedback0 :: gripper_feedback where
  "gripper_feedback0 = \<lparr>gf_position = Fin 0, gf_effort = Fin 0, gf_current = Fin 0, gf_present = False\<rparr>"

datatype actuator_mode = AmPosition | AmVelocity | AmTorque | AmCurrent

type_synonym actuator_modes = "actuator_mode vec7"

record joint_feedback =
  fb_q :: jointvec
  fb_qd :: jointvec
  fb_tau :: jointvec
  fb_current :: jointvec
  fb_frame_id :: "64 word"
  fb_fault :: bool
  fb_low_level :: bool
  fb_gripper :: gripper_feedback

record joint_command =
  jc_mode :: actuator_mode
  jc_position :: jointvec
  jc_velocity :: jointvec
  jc_torque :: jointvec
  jc_gripper :: gripper_command

definition joint_feedback0 :: joint_feedback where
  "joint_feedback0 = \<lparr>fb_q = vzero, fb_qd = vzero, fb_tau = vzero, fb_current = vzero,
     fb_frame_id = 0, fb_fault = False, fb_low_level = True, fb_gripper = gripper_feedback0\<rparr>"

definition joint_command0 :: joint_command where
  "joint_command0 = \<lparr>jc_mode = AmTorque, jc_position = vzero, jc_velocity = vzero,
     jc_torque = vzero, jc_gripper = gripper_command0\<rparr>"

subsection \<open>Poses and joint targets\<close>

record pose =
  ps_p :: "dbl \<times> dbl \<times> dbl"
  ps_R :: "dbl \<times> dbl \<times> dbl \<times> dbl"

definition pose0 :: pose where
  "pose0 = \<lparr>ps_p = (Fin 0, Fin 0, Fin 0), ps_R = (Fin 1, Fin 0, Fin 0, Fin 0)\<rparr>"

record joint_target =
  jt_q :: jointvec
  jt_qd :: jointvec
  jt_qdd :: jointvec
  jt_has_velocity :: bool
  jt_has_acceleration :: bool

definition joint_target0 :: joint_target where
  "joint_target0 = \<lparr>jt_q = vzero, jt_qd = vzero, jt_qdd = vzero,
     jt_has_velocity = False, jt_has_acceleration = False\<rparr>"

text \<open>The position-only convenience \<open>JointTargetSink::set_target(JointVec)\<close>: the target it sends.\<close>

definition position_target :: "jointvec \<Rightarrow> joint_target" where
  "position_target q_d = joint_target0\<lparr>jt_q := q_d\<rparr>"

subsection \<open>The rigid-body model (Pinocchio) as a parameter\<close>

text \<open>
  \<open>Dynamics\<close> is a wrapper over Pinocchio on the URDF, neither of which is in the repository:
  the control laws take its functions as parameters.
\<close>

record dynamics =
  dyn_gravity :: "jointvec \<Rightarrow> jointvec"
  dyn_mass_matrix :: "jointvec \<Rightarrow> jointmat"
  dyn_coriolis :: "jointvec \<Rightarrow> jointvec \<Rightarrow> jointmat"
  dyn_fk :: "jointvec \<Rightarrow> pose"
  dyn_jacobian :: "jointvec \<Rightarrow> jacobian6"
  dyn_q_lower :: jointvec
  dyn_q_upper :: jointvec
  dyn_v_max :: jointvec

text \<open>A concrete model, for evaluation: no gravity, no inertia, every joint continuous.\<close>

definition zero_dynamics :: dynamics where
  "zero_dynamics = \<lparr>dyn_gravity = (\<lambda>q. vzero), dyn_mass_matrix = (\<lambda>q. vconst vzero),
     dyn_coriolis = (\<lambda>q qd. vconst vzero), dyn_fk = (\<lambda>q. pose0), dyn_jacobian = (\<lambda>q. vconst6 vzero),
     dyn_q_lower = vconst NInf, dyn_q_upper = vconst PInf, dyn_v_max = vconst (Fin 1)\<rparr>"

text \<open>A joint is continuous when both its URDF limits are infinite.\<close>

definition continuous_joints :: "jointvec \<Rightarrow> jointvec \<Rightarrow> bool vec7" where
  "continuous_joints lower upper =
     vgen (\<lambda>i. \<not> isfinite (vnth lower i) \<and> \<not> isfinite (vnth upper i))"

definition modes_fill :: "actuator_mode \<Rightarrow> actuator_modes" where
  "modes_fill m = vconst m"

end
