(* ===== verification/Velocity_Reference.thy ===== *)
theory Velocity_Reference
  imports Joint_Types
begin

section \<open>From a velocity command to a position reference\<close>

text \<open>
  \<open>velocity_reference.h\<close> and \<open>velocity_reference.cpp\<close>: the cap on a joint-velocity command, the
  integrate-and-leash step shared by \<open>JointVelocityMode\<close> and the Supervisor's compliant streams,
  and the damped-least-squares resolution of a twist. Eigen's LDLT decomposition is a parameter.
\<close>

definition kVelocityRefMaxLead :: dbl where
  "kVelocityRefMaxLead = Fin (1 / 10)"

subsection \<open>Integrate and leash\<close>

definition leash_joint ::
  "bool \<Rightarrow> dbl \<Rightarrow> dbl \<Rightarrow> dbl \<Rightarrow> dbl \<Rightarrow> dbl \<Rightarrow> dbl \<Rightarrow> dbl \<Rightarrow> dbl option" where
  "leash_joint cont q_lower q_upper max_lead dt_s q_meas qd q_ref =
     do { let r = q_ref + qd * dt_s;
          lead \<leftarrow> wrap_if cont (r - q_meas);
          let r2 = q_meas + sclamp lead (- max_lead) max_lead;
          if cont then wrap_to_pi r2 else Some (sclamp r2 q_lower q_upper) }"

definition integrate_leashed_reference ::
  "jointvec \<Rightarrow> jointvec \<Rightarrow> dbl \<Rightarrow> jointvec \<Rightarrow> dbl \<Rightarrow> bool vec7 \<Rightarrow> jointvec \<Rightarrow> jointvec \<Rightarrow> jointvec option" where
  "integrate_leashed_reference q_ref qd dt_s q_meas max_lead contin q_lower q_upper =
     vgenM (\<lambda>i. leash_joint (vnth contin i) (vnth q_lower i) (vnth q_upper i) max_lead dt_s
                  (vnth q_meas i) (vnth qd i) (vnth q_ref i))"

lemma clamp_sym_abs: "0 \<le> L \<Longrightarrow> \<bar>if v < - L then - L else if L < v then L else v\<bar> \<le> (L::real)"
  by auto

lemma leash_joint_cont:
  assumes "0 \<le> L"
  shows "\<exists>x. leash_joint True lo hi (Fin L) (Fin dt) (Fin qm) (Fin v) (Fin r) = Some (Fin x) \<and>
           in_pi x \<and> near_mod_turn L x qm"
proof -
  obtain l where l: "wrap_to_pi (Fin (r + v * dt - qm)) = Some (Fin l)"
    using wrap_to_pi_Fin by blast
  let ?c = "if l < - L then - L else if L < l then L else l"
  obtain x where x: "wrap_to_pi (Fin (qm + ?c)) = Some (Fin x)" "in_pi x"
    using wrap_to_pi_Fin [of "qm + ?c"] by auto
  have "near_mod_turn L x qm"
    using clamp_sym_abs [OF assms] x(1) by (rule near_mod_turn_wrap)
  with l x show ?thesis by (simp add: leash_joint_def Let_def)
qed

lemma leash_joint_bounded:
  assumes "0 \<le> L" and "lo \<le> hi"
  shows "\<exists>x. leash_joint False (Fin lo) (Fin hi) (Fin L) (Fin dt) (Fin qm) (Fin v) (Fin r)
             = Some (Fin x) \<and> lo \<le> x \<and> x \<le> hi \<and> (lo \<le> qm \<and> qm \<le> hi \<longrightarrow> \<bar>x - qm\<bar> \<le> L)"
  using assms by (simp add: leash_joint_def Let_def) auto

text \<open>A NaN reference stays NaN whatever is commanded afterwards.\<close>

lemma leash_joint_NaN_ref: "leash_joint c lo hi L dt qm v NaN = Some NaN"
  by (cases c) (simp_all add: leash_joint_def Let_def)

text \<open>An infinite difference on a continuous joint is a loop without end.\<close>

lemma leash_joint_inf:
  assumes "r + v * dt - qm = PInf \<or> r + v * dt - qm = NInf"
  shows "leash_joint True lo hi L dt qm v r = None"
  using assms by (auto simp: leash_joint_def Let_def)

lemma integrate_leashed_nth:
  "integrate_leashed_reference q_ref qd dt qm L c lo hi = Some q \<Longrightarrow> i < 7 \<Longrightarrow>
   leash_joint (vnth c i) (vnth lo i) (vnth hi i) L dt (vnth qm i) (vnth qd i) (vnth q_ref i)
     = Some (vnth q i)"
  by (simp add: integrate_leashed_reference_def vgenM_Some_iff)

subsection \<open>The velocity cap\<close>

definition limit_scale_step :: "jointvec \<Rightarrow> jointvec \<Rightarrow> nat \<Rightarrow> dbl \<Rightarrow> dbl" where
  "limit_scale_step v_max qd i s =
     (let a = abs (vnth qd i)
      in if vnth v_max i < a \<and> Fin 0 < a then smin s (vnth v_max i / a) else s)"

definition limit_scale :: "jointvec \<Rightarrow> jointvec \<Rightarrow> dbl" where
  "limit_scale v_max qd = fold (limit_scale_step v_max qd) [0..<kNumJoints] (Fin 1)"

definition limit_joint_velocity :: "jointvec \<Rightarrow> jointvec \<Rightarrow> jointvec" where
  "limit_joint_velocity v_max qd =
     (let qd' = vscale (limit_scale v_max qd) qd
      in vgen (\<lambda>i. sclamp (vnth qd' i) (- vnth v_max i) (vnth v_max i)))"

text \<open>
  The uniform scale: between 0 and 1, and small enough for every joint looked at, whatever
  joints come after.
\<close>

lemma limit_scale_fold:
  assumes "\<forall>i \<in> set is. \<exists>m v. vnth v_max i = Fin m \<and> 0 \<le> m \<and> vnth qd i = Fin v"
    and "0 \<le> s" and "s \<le> 1"
  shows "\<exists>t. fold (limit_scale_step v_max qd) is (Fin s) = Fin t \<and> 0 \<le> t \<and> t \<le> s \<and>
           (\<forall>i \<in> set is. \<forall>m v. vnth v_max i = Fin m \<longrightarrow> vnth qd i = Fin v \<longrightarrow> t * \<bar>v\<bar> \<le> m)"
  using assms
proof (induction "is" arbitrary: s)
  case Nil
  then show ?case by simp
next
  case (Cons i "is")
  obtain m v where mv: "vnth v_max i = Fin m" "0 \<le> m" "vnth qd i = Fin v"
    using Cons.prems(1) by auto
  define s' where "s' = (if m < \<bar>v\<bar> \<and> 0 < \<bar>v\<bar> then min s (m / \<bar>v\<bar>) else s)"
  have st: "limit_scale_step v_max qd i (Fin s) = Fin s'"
    using mv by (simp add: limit_scale_step_def s'_def Let_def)
  have s': "0 \<le> s'" "s' \<le> s" "s' \<le> 1" "s' * \<bar>v\<bar> \<le> m"
    using Cons.prems(2,3) mv(2) mult_right_mono [of s 1 "\<bar>v\<bar>"] mult_right_mono [of s' "m / \<bar>v\<bar>" "\<bar>v\<bar>"]
    by (auto simp: s'_def min_def field_simps split: if_splits)
  obtain t where t: "fold (limit_scale_step v_max qd) is (Fin s') = Fin t" "0 \<le> t" "t \<le> s'"
    "\<forall>i \<in> set is. \<forall>m v. vnth v_max i = Fin m \<longrightarrow> vnth qd i = Fin v \<longrightarrow> t * \<bar>v\<bar> \<le> m"
    using Cons.IH [of s'] Cons.prems(1) s' by auto
  have "t * \<bar>v\<bar> \<le> m"
    using mult_right_mono [OF t(3), of "\<bar>v\<bar>"] s'(4) by simp
  with t st s' mv show ?case by (intro exI [of _ t]) auto
qed

lemma limit_joint_velocity_scales:
  assumes "vfinite qd" and "\<forall>i < 7. \<exists>m. vnth v_max i = Fin m \<and> 0 \<le> m"
  shows "\<exists>t. 0 \<le> t \<and> t \<le> 1 \<and> limit_joint_velocity v_max qd = vscale (Fin t) qd \<and>
           (\<forall>i < 7. \<forall>m v. vnth v_max i = Fin m \<longrightarrow> vnth qd i = Fin v \<longrightarrow> \<bar>t * v\<bar> \<le> m)"
proof -
  have "\<forall>i \<in> set [0..<7]. \<exists>m v. vnth v_max i = Fin m \<and> 0 \<le> m \<and> vnth qd i = Fin v"
    using assms by (fastforce simp: vfinite_iff isfinite_iff)
  from limit_scale_fold [OF this, of 1] obtain t where t: "limit_scale v_max qd = Fin t" "0 \<le> t" "t \<le> 1"
    "\<forall>i < 7. \<forall>m v. vnth v_max i = Fin m \<longrightarrow> vnth qd i = Fin v \<longrightarrow> t * \<bar>v\<bar> \<le> m"
    by (auto simp: limit_scale_def)
  have bnd: "\<forall>i < 7. \<forall>m v. vnth v_max i = Fin m \<longrightarrow> vnth qd i = Fin v \<longrightarrow> \<bar>t * v\<bar> \<le> m"
    using t(2,4) by (simp add: abs_mult)
  have "limit_joint_velocity v_max qd = vscale (Fin t) qd"
  proof (rule vec7_eqI)
    fix i :: nat assume i: "i < 7"
    obtain m v where mv: "vnth v_max i = Fin m" "vnth qd i = Fin v"
      using assms i by (metis vfiniteD isfinite_iff)
    then have "\<bar>t * v\<bar> \<le> m" using bnd i by blast
    then have "\<not> m < t * v" "\<not> t * v < - m" by linarith+
    then show "vnth (limit_joint_velocity v_max qd) i = vnth (vscale (Fin t) qd) i"
      using i mv t(1) by (simp add: limit_joint_velocity_def Let_def)
  qed
  with t(2,3) bnd show ?thesis by blast
qed

lemma limit_scale_within:
  assumes "\<forall>i < 7. \<not> vnth v_max i < abs (vnth qd i)"
  shows "limit_scale v_max qd = Fin 1"
proof -
  have "fold (limit_scale_step v_max qd) is (Fin 1) = Fin 1" if "set is \<subseteq> {..<7}" for "is"
    using that assms by (induction "is") (simp_all add: limit_scale_step_def Let_def)
  from this [of "[0..<7]"] show ?thesis by (simp add: limit_scale_def subset_iff)
qed

text \<open>
  The seeding common to the modes' parameters: non-finite entries take the URDF's value, and where a
  speed is capped (position and velocity mode) set entries are clamped into [0, URDF].
\<close>

definition seed_vec :: "jointvec \<Rightarrow> jointvec \<Rightarrow> jointvec" where
  "seed_vec urdf v = vgen (\<lambda>i. if isfinite (vnth v i) then vnth v i else vnth urdf i)"

definition seed_speed :: "jointvec \<Rightarrow> jointvec \<Rightarrow> jointvec" where
  "seed_speed v_max v = vgen (\<lambda>i. sclamp (if isfinite (vnth v i) then vnth v i else vnth v_max i) (Fin 0) (vnth v_max i))"

lemma seed_speed_within:
  assumes "\<forall>i < 7. \<exists>m. vnth v_max i = Fin m \<and> 0 \<le> m" and "i < 7"
  shows "\<exists>s m. vnth (seed_speed v_max v) i = Fin s \<and> vnth v_max i = Fin m \<and> 0 \<le> s \<and> s \<le> m"
proof -
  obtain m where m: "vnth v_max i = Fin m" "0 \<le> m" using assms by blast
  then show ?thesis using assms(2) by (cases "vnth v i") (auto simp: seed_speed_def)
qed

subsection \<open>Twist to joint velocity\<close>

record twist_dls_params =
  td_dls_damping :: dbl
  td_w_threshold :: dbl
  td_dls_damping_max :: dbl
  td_posture_gain :: dbl
  td_q_rest :: jointvec

definition q_rest_home :: jointvec where
  "q_rest_home = V7 (Fin 0) (Fin (26/100)) (Fin (314/100)) (Fin (-227/100)) (Fin 0) (Fin (96/100)) (Fin (157/100))"

definition twist_dls_params0 :: twist_dls_params where
  "twist_dls_params0 = \<lparr>td_dls_damping = Fin (1/1000), td_w_threshold = Fin (33/10000),
     td_dls_damping_max = Fin (1/10), td_posture_gain = Fin (15/100), td_q_rest = q_rest_home\<rparr>"

type_synonym mat66 = "dbl vec6 vec6"

text \<open>
  Eigen as a parameter: LDLT of a 6x6 matrix (the product of \<open>vectorD()\<close>, and \<open>solve\<close>), the
  quaternion product and inverse, and \<open>angle() * axis()\<close> of the \<open>AngleAxis\<close> of the
  normalized quaternion.
\<close>

record eigen =
  ei_vectorD_prod :: "mat66 \<Rightarrow> dbl"
  ei_ldlt_solve :: "mat66 \<Rightarrow> vector6 \<Rightarrow> vector6"
  ei_quat_mul :: "dbl \<times> dbl \<times> dbl \<times> dbl \<Rightarrow> dbl \<times> dbl \<times> dbl \<times> dbl \<Rightarrow> dbl \<times> dbl \<times> dbl \<times> dbl"
  ei_quat_inverse :: "dbl \<times> dbl \<times> dbl \<times> dbl \<Rightarrow> dbl \<times> dbl \<times> dbl \<times> dbl"
  ei_rotvec :: "dbl \<times> dbl \<times> dbl \<times> dbl \<Rightarrow> dbl \<times> dbl \<times> dbl"

definition dot7 :: "jointvec \<Rightarrow> jointvec \<Rightarrow> dbl" where
  "dot7 v w = vsum (vgen (\<lambda>k. vnth v k * vnth w k))"

definition jac_vec :: "jacobian6 \<Rightarrow> jointvec \<Rightarrow> vector6" where
  "jac_vec J v = vgen6 (\<lambda>r. dot7 (vnth6 J r) v)"

definition jac_tr_vec :: "jacobian6 \<Rightarrow> vector6 \<Rightarrow> jointvec" where
  "jac_tr_vec J y = vgen (\<lambda>c. (case y of V6 a b d e f g \<Rightarrow>
     vnth (vnth6 J 0) c * a + vnth (vnth6 J 1) c * b + vnth (vnth6 J 2) c * d +
     vnth (vnth6 J 3) c * e + vnth (vnth6 J 4) c * f + vnth (vnth6 J 5) c * g))"

definition jac_jac_tr :: "jacobian6 \<Rightarrow> mat66" where
  "jac_jac_tr J = vgen6 (\<lambda>r. vgen6 (\<lambda>s. dot7 (vnth6 J r) (vnth6 J s)))"

definition add_diag :: "mat66 \<Rightarrow> dbl \<Rightarrow> mat66" where
  "add_diag A x = vgen6 (\<lambda>r. vgen6 (\<lambda>s. vnth6 (vnth6 A r) s + (if r = s then x else Fin 0)))"

text \<open>\<open>dls_lambda\<close>: the damping rises as the manipulability falls below its threshold.\<close>

definition dls_lambda :: "twist_dls_params \<Rightarrow> dbl \<Rightarrow> dbl" where
  "dls_lambda p w_last =
     (if Fin 0 < td_w_threshold p \<and> w_last < td_w_threshold p
      then (let r = Fin 1 - w_last / td_w_threshold p
            in td_dls_damping p + (td_dls_damping_max p - td_dls_damping p) * r * r)
      else td_dls_damping p)"

text \<open>The result and the manipulability \<open>w_last_\<close> the solver remembers.\<close>

definition twist_dls_solve ::
  "eigen \<Rightarrow> jacobian6 \<Rightarrow> jointvec \<Rightarrow> vector6 \<Rightarrow> twist_dls_params \<Rightarrow> bool vec7 \<Rightarrow> (jointvec \<times> dbl) option" where
  "twist_dls_solve L J q V p contin =
     (let A = jac_jac_tr J;
          w2 = ei_vectorD_prod L A;
          w_last = (if Fin 0 < w2 then dsqrt w2 else Fin 0);
          lambda = dls_lambda p w_last;
          A' = add_diag A (lambda * lambda);
          task = jac_tr_vec J (ei_ldlt_solve L A' V)
      in if deq (td_posture_gain p) (Fin 0) then Some (task, w_last)
         else do {
           bias \<leftarrow> vgenM (\<lambda>i. do { d \<leftarrow> wrap_if (vnth contin i) (vnth (td_q_rest p) i - vnth q i);
                                   Some (td_posture_gain p * d) });
           let y = ei_ldlt_solve L A' (jac_vec J bias);
           Some (task + (bias - jac_tr_vec J y), w_last) })"

lemma dls_lambda_bounds:
  assumes "td_dls_damping p = Fin d" and "td_dls_damping_max p = Fin D" and "0 \<le> d" and "d \<le> D"
    and "td_w_threshold p = Fin t" and "0 \<le> w"
  shows "\<exists>l. dls_lambda p (Fin w) = Fin l \<and> d \<le> l \<and> l \<le> D"
proof (cases "0 < t \<and> w < t")
  case True
  define r where "r = 1 - w / t"
  have r: "0 \<le> r" "r \<le> 1" using True assms(6) by (auto simp: r_def field_simps)
  then have rr: "0 \<le> r * r" "r * r \<le> 1" by (auto intro: mult_le_one)
  have "0 \<le> (D - d) * (r * r)" "(D - d) * (r * r) \<le> D - d"
    using assms(4) rr by (auto intro: mult_left_le)
  then show ?thesis using True assms by (auto simp: dls_lambda_def Let_def r_def mult.assoc)
next
  case False
  then show ?thesis using assms by (auto simp: dls_lambda_def)
qed

end
