(* ===== verification/Diff_Ik.thy ===== *)
theory Diff_Ik
  imports Velocity_Reference
begin

section \<open>Pose errors and the in-loop inverse kinematics\<close>

text \<open>
  \<open>cartesian.h\<close> and \<open>cartesian.cpp\<close> (\<open>pose_error\<close>, \<open>damped_jjt\<close>, the wrench estimate) and
  \<open>DiffIkSolver\<close> (\<open>diff_ik.h\<close>, \<open>diff_ik.cpp\<close>). Eigen's LDLT and quaternion functions are
  the parameter \<open>eigen\<close>, forward kinematics and Jacobian the parameter \<open>dynamics\<close>.
\<close>

subsection \<open>Vectors of six and their halves\<close>

definition add3 :: "dbl \<times> dbl \<times> dbl \<Rightarrow> dbl \<times> dbl \<times> dbl \<Rightarrow> dbl \<times> dbl \<times> dbl" where
  "add3 v w = (case v of (a, b, c) \<Rightarrow> case w of (x, y, z) \<Rightarrow> (a + x, b + y, c + z))"

definition sub3 :: "dbl \<times> dbl \<times> dbl \<Rightarrow> dbl \<times> dbl \<times> dbl \<Rightarrow> dbl \<times> dbl \<times> dbl" where
  "sub3 v w = (case v of (a, b, c) \<Rightarrow> case w of (x, y, z) \<Rightarrow> (a - x, b - y, c - z))"

definition scale3 :: "dbl \<Rightarrow> dbl \<times> dbl \<times> dbl \<Rightarrow> dbl \<times> dbl \<times> dbl" where
  "scale3 s v = (case v of (a, b, c) \<Rightarrow> (a * s, b * s, c * s))"

definition norm3 :: "dbl \<times> dbl \<times> dbl \<Rightarrow> dbl" where
  "norm3 v = (case v of (a, b, c) \<Rightarrow> dsqrt (a * a + b * b + c * c))"

definition head3 :: "vector6 \<Rightarrow> dbl \<times> dbl \<times> dbl" where
  "head3 v = (case v of V6 a b c d e f \<Rightarrow> (a, b, c))"

definition tail3 :: "vector6 \<Rightarrow> dbl \<times> dbl \<times> dbl" where
  "tail3 v = (case v of V6 a b c d e f \<Rightarrow> (d, e, f))"

definition join33 :: "dbl \<times> dbl \<times> dbl \<Rightarrow> dbl \<times> dbl \<times> dbl \<Rightarrow> vector6" where
  "join33 v w = (case v of (a, b, c) \<Rightarrow> case w of (d, e, f) \<Rightarrow> V6 a b c d e f)"

lemma head_tail_join [simp]: "head3 (join33 v w) = v" "tail3 (join33 v w) = w"
  by (simp_all add: head3_def tail3_def join33_def split: prod.splits)

definition quat_neg :: "dbl \<times> dbl \<times> dbl \<times> dbl \<Rightarrow> dbl \<times> dbl \<times> dbl \<times> dbl" where
  "quat_neg q = (case q of (w, x, y, z) \<Rightarrow> (w * Fin (- 1), x * Fin (- 1), y * Fin (- 1), z * Fin (- 1)))"

text \<open>Quaternions are \<open>(w, x, y, z)\<close>; the sign flip takes the shortest geodesic.\<close>

definition pose_error :: "eigen \<Rightarrow> pose \<Rightarrow> pose \<Rightarrow> vector6" where
  "pose_error L desired current =
     (let qe = ei_quat_mul L (ps_R desired) (ei_quat_inverse L (ps_R current));
          qe' = (if fst qe < Fin 0 then quat_neg qe else qe)
      in join33 (sub3 (ps_p desired) (ps_p current)) (ei_rotvec L qe'))"

definition damped_jjt :: "jacobian6 \<Rightarrow> dbl \<Rightarrow> mat66" where
  "damped_jjt J damping = add_diag (jac_jac_tr J) (damping * damping)"

definition ee_wrench_from_residual :: "eigen \<Rightarrow> jacobian6 \<Rightarrow> jointvec \<Rightarrow> dbl \<Rightarrow> vector6" where
  "ee_wrench_from_residual L J tau_ext damping =
     ei_ldlt_solve L (damped_jjt J damping) (jac_vec J tau_ext)"

subsection \<open>Parameters and secondary objectives\<close>

record diff_ik_params =
  ik_max_iters :: int
  ik_pos_tol :: dbl
  ik_rot_tol :: dbl
  ik_damping :: dbl
  ik_max_pos_err :: dbl
  ik_max_rot_err :: dbl
  ik_max_joint_step :: dbl
  ik_min_step :: dbl
  ik_posture_gain :: dbl
  ik_q_rest :: jointvec
  ik_limit_gain :: dbl
  ik_limit_margin :: dbl
  ik_limit_clamp_margin :: dbl
  ik_q_lower :: jointvec
  ik_q_upper :: jointvec

definition diff_ik_params0 :: diff_ik_params where
  "diff_ik_params0 = \<lparr>ik_max_iters = 4, ik_pos_tol = Fin (1/10000), ik_rot_tol = Fin (1/1000),
     ik_damping = Fin (1/1000), ik_max_pos_err = Fin (5/100), ik_max_rot_err = Fin (20/100),
     ik_max_joint_step = Fin (5/100), ik_min_step = Fin (1/10000000), ik_posture_gain = Fin (15/100),
     ik_q_rest = q_rest_home, ik_limit_gain = Fin (1/2), ik_limit_margin = Fin (25/100),
     ik_limit_clamp_margin = Fin (2/100), ik_q_lower = vconst NInf, ik_q_upper = vconst PInf\<rparr>"

record ik_result =
  ir_pos_err :: dbl
  ir_rot_err :: dbl
  ir_iters :: int
  ir_converged :: bool

definition ik_result0 :: ik_result where
  "ik_result0 = \<lparr>ir_pos_err = Fin 0, ir_rot_err = Fin 0, ir_iters = 0, ir_converged = False\<rparr>"

definition limit_gradient :: "dbl \<Rightarrow> dbl \<Rightarrow> dbl \<Rightarrow> dbl \<Rightarrow> dbl" where
  "limit_gradient q lo hi margin =
     (if margin \<le> Fin 0 then Fin 0
      else if isfinite lo \<and> q < lo + margin then (lo + margin - q) / margin
      else if isfinite hi \<and> hi - margin < q then (hi - margin - q) / margin
      else Fin 0)"

text \<open>\<open>std::remainder\<close>: the nearest multiple is taken off, the even one of two equally near.\<close>

definition round_half_even :: "real \<Rightarrow> int" where
  "round_half_even x =
     (let f = \<lfloor>x\<rfloor>; r = x - of_int f
      in if r < 1/2 then f else if 1/2 < r then f + 1 else if even f then f else f + 1)"

definition remainder2 :: "dbl \<Rightarrow> dbl \<Rightarrow> dbl" where
  "remainder2 x y = (case (x, y) of
       (Fin a, Fin b) \<Rightarrow> if b = 0 then NaN else Fin (a - of_int (round_half_even (a / b)) * b)
     | (Fin a, PInf) \<Rightarrow> Fin a
     | (Fin a, NInf) \<Rightarrow> Fin a
     | _ \<Rightarrow> NaN)"

definition posture_error :: "dbl \<Rightarrow> dbl \<Rightarrow> bool \<Rightarrow> dbl" where
  "posture_error q_rest q cont = (let d = q_rest - q in if cont then remainder2 d (Fin 2 * M_PI) else d)"

lemma round_half_even_near: "\<bar>x - of_int (round_half_even x)\<bar> \<le> 1 / 2"
proof -
  have "of_int \<lfloor>x\<rfloor> \<le> x" "x < of_int \<lfloor>x\<rfloor> + 1" by linarith+
  then show ?thesis by (simp add: round_half_even_def Let_def abs_le_iff)
qed

lemma posture_error_cont:
  "\<exists>k::int. posture_error (Fin r) (Fin q) True = Fin (r - q - 2 * of_int k * pi_r) \<and>
     \<bar>r - q - 2 * of_int k * pi_r\<bar> \<le> pi_r"
proof -
  let ?k = "round_half_even ((r - q) / (2 * pi_r))"
  have nz: "2 * pi_r \<noteq> 0" "0 < 2 * pi_r" using pi_r_pos by linarith+
  have "\<bar>(r - q) / (2 * pi_r) - of_int ?k\<bar> * (2 * pi_r) \<le> 1 / 2 * (2 * pi_r)"
    using round_half_even_near nz(2) by (intro mult_right_mono) auto
  moreover have "\<bar>(r - q) / (2 * pi_r) - of_int ?k\<bar> * (2 * pi_r)
      = \<bar>((r - q) / (2 * pi_r) - of_int ?k) * (2 * pi_r)\<bar>"
    using nz(2) by (simp add: abs_mult)
  moreover have "((r - q) / (2 * pi_r) - of_int ?k) * (2 * pi_r) = r - q - 2 * of_int ?k * pi_r"
    using nz(1) by (simp add: field_simps)
  ultimately have "\<bar>r - q - 2 * of_int ?k * pi_r\<bar> \<le> pi_r" by simp
  moreover have "posture_error (Fin r) (Fin q) True = Fin (r - q - 2 * of_int ?k * pi_r)"
    using nz(1) by (simp add: posture_error_def remainder2_def M_PI_def Let_def)
  ultimately show ?thesis by blast
qed

text \<open>The gradient pushes away from a stop: it is between -1 and 1 inside the limits.\<close>

lemma limit_gradient_bounds:
  assumes "lo \<le> q" and "q \<le> hi" and "0 < m"
  shows "isfinite (limit_gradient (Fin q) (Fin lo) (Fin hi) (Fin m)) \<and>
    \<bar>dval (limit_gradient (Fin q) (Fin lo) (Fin hi) (Fin m))\<bar> \<le> 1"
  using assms by (auto simp: limit_gradient_def field_simps abs_le_iff)

subsection \<open>The solver\<close>

text \<open>\<open>lpNorm<Infinity>\<close>: the largest absolute component.\<close>

definition inf_norm :: "jointvec \<Rightarrow> dbl" where
  "inf_norm v = fold (\<lambda>i m. smax m (abs (vnth v i))) [1..<kNumJoints] (abs (vnth v 0))"

text \<open>The measurement of an iteration: the task errors at \<open>q\<close>, and whether they are in tolerance.\<close>

definition ik_measure :: "eigen \<Rightarrow> dynamics \<Rightarrow> diff_ik_params \<Rightarrow> pose \<Rightarrow> jointvec \<Rightarrow> int \<Rightarrow> ik_result" where
  "ik_measure L dyn p target q k =
     (let e = pose_error L target (dyn_fk dyn q);
          pe = norm3 (head3 e); re = norm3 (tail3 e)
      in \<lparr>ir_pos_err = pe, ir_rot_err = re, ir_iters = k,
          ir_converged = (pe < ik_pos_tol p \<and> re < ik_rot_tol p)\<rparr>)"

definition ik_bounded_error :: "eigen \<Rightarrow> dynamics \<Rightarrow> diff_ik_params \<Rightarrow> pose \<Rightarrow> jointvec \<Rightarrow> vector6" where
  "ik_bounded_error L dyn p target q =
     (let e = pose_error L target (dyn_fk dyn q);
          pe = norm3 (head3 e); re = norm3 (tail3 e);
          h = (if ik_max_pos_err p < pe then scale3 (ik_max_pos_err p / pe) (head3 e) else head3 e);
          t = (if ik_max_rot_err p < re then scale3 (ik_max_rot_err p / re) (tail3 e) else tail3 e)
      in join33 h t)"

definition ik_secondary :: "diff_ik_params \<Rightarrow> jointvec \<Rightarrow> jointvec" where
  "ik_secondary p q = vgen (\<lambda>i.
     (let cont = (\<not> isfinite (vnth (ik_q_lower p) i) \<and> \<not> isfinite (vnth (ik_q_upper p) i))
      in ik_posture_gain p * posture_error (vnth (ik_q_rest p) i) (vnth q i) cont +
         ik_limit_gain p * limit_gradient (vnth q i) (vnth (ik_q_lower p) i) (vnth (ik_q_upper p) i) (ik_limit_margin p)))"

text \<open>
  The step: the task step plus the projected secondary objectives. \<open>A_ldlt.solve(J)\<close> is the
  matrix of the columns' solutions.
\<close>

definition jac_col :: "jacobian6 \<Rightarrow> nat \<Rightarrow> vector6" where
  "jac_col J c = vgen6 (\<lambda>r. vnth (vnth6 J r) c)"

definition ldlt_solve_jac :: "eigen \<Rightarrow> mat66 \<Rightarrow> jacobian6 \<Rightarrow> jacobian6" where
  "ldlt_solve_jac L A J = vgen6 (\<lambda>r. vgen (\<lambda>c. vnth6 (ei_ldlt_solve L A (jac_col J c)) r))"

definition ik_step :: "eigen \<Rightarrow> dynamics \<Rightarrow> diff_ik_params \<Rightarrow> pose \<Rightarrow> jointvec \<Rightarrow> jointvec" where
  "ik_step L dyn p target q =
     (let e = ik_bounded_error L dyn p target q;
          J = dyn_jacobian dyn q;
          A = damped_jjt J (ik_damping p);
          dq = jac_tr_vec J (ei_ldlt_solve L A e);
          q0 = ik_secondary p q;
          AinvJ = ldlt_solve_jac L A J
      in dq + (q0 - jac_tr_vec J (jac_vec AinvJ q0)))"

definition ik_apply_joint :: "diff_ik_params \<Rightarrow> nat \<Rightarrow> dbl \<Rightarrow> dbl \<Rightarrow> dbl" where
  "ik_apply_joint p i q dq =
     (let q1 = q + sclamp dq (- ik_max_joint_step p) (ik_max_joint_step p);
          lo = vnth (ik_q_lower p) i + ik_limit_clamp_margin p;
          hi = vnth (ik_q_upper p) i - ik_limit_clamp_margin p;
          q2 = (if isfinite lo \<and> q1 < lo then lo else q1)
      in if isfinite hi \<and> hi < q2 then hi else q2)"

definition ik_apply :: "diff_ik_params \<Rightarrow> jointvec \<Rightarrow> jointvec \<Rightarrow> jointvec" where
  "ik_apply p dq q = vgen (\<lambda>i. ik_apply_joint p i (vnth q i) (vnth dq i))"

function ik_loop :: "eigen \<Rightarrow> dynamics \<Rightarrow> diff_ik_params \<Rightarrow> pose \<Rightarrow> int \<Rightarrow> ik_result \<Rightarrow> jointvec \<Rightarrow> ik_result \<times> jointvec" where
  "ik_loop L dyn p target k r q =
     (if ik_max_iters p < k then (r, q)
      else (let r1 = ik_measure L dyn p target q k;
                secondary = (\<not> deq (ik_posture_gain p) (Fin 0) \<or> \<not> deq (ik_limit_gain p) (Fin 0))
            in if k = ik_max_iters p \<or> (ir_converged r1 \<and> \<not> secondary) then (r1, q)
               else (let dq = ik_step L dyn p target q
                     in if inf_norm dq < ik_min_step p then (r1, q)
                        else ik_loop L dyn p target (k + 1) r1 (ik_apply p dq q))))"
  by pat_completeness auto
termination
  by (relation "measure (\<lambda>(L, dyn, p, target, k, r, q). nat (ik_max_iters p + 1 - k))") auto

definition ik_solve :: "eigen \<Rightarrow> dynamics \<Rightarrow> diff_ik_params \<Rightarrow> pose \<Rightarrow> jointvec \<Rightarrow> ik_result \<times> jointvec" where
  "ik_solve L dyn p target q = ik_loop L dyn p target 0 ik_result0 q"

declare ik_loop.simps [simp del]

lemma ik_loop_result:
  assumes "k \<le> ik_max_iters p"
  shows "\<exists>j. k \<le> j \<and> j \<le> ik_max_iters p \<and>
    fst (ik_loop L dyn p target k r q) = ik_measure L dyn p target (snd (ik_loop L dyn p target k r q)) j"
  using assms
proof (induction L dyn p target k r q rule: ik_loop.induct)
  case (1 L dyn p target k r q)
  let ?r1 = "ik_measure L dyn p target q k"
  let ?stop = "k = ik_max_iters p \<or> ir_converged ?r1 \<and>
    \<not> (\<not> deq (ik_posture_gain p) (Fin 0) \<or> \<not> deq (ik_limit_gain p) (Fin 0)) \<or>
    inf_norm (ik_step L dyn p target q) < ik_min_step p"
  show ?case
  proof (cases ?stop)
    case True
    then have "ik_loop L dyn p target k r q = (?r1, q)"
      using "1.prems" by (subst ik_loop.simps) (auto simp: Let_def)
    then show ?thesis using "1.prems" by auto
  next
    case False
    then have eq: "ik_loop L dyn p target k r q =
        ik_loop L dyn p target (k + 1) ?r1 (ik_apply p (ik_step L dyn p target q) q)"
      using "1.prems" by (subst ik_loop.simps) (auto simp: Let_def)
    obtain j where "k + 1 \<le> j \<and> j \<le> ik_max_iters p \<and>
      fst (ik_loop L dyn p target (k + 1) ?r1 (ik_apply p (ik_step L dyn p target q) q)) =
      ik_measure L dyn p target (snd (ik_loop L dyn p target (k + 1) ?r1 (ik_apply p (ik_step L dyn p target q) q))) j"
      using "1.IH" False "1.prems" by (fastforce simp: Let_def)
    then show ?thesis unfolding eq by (intro exI [of _ j]) auto
  qed
qed

text \<open>The software limits less the clamp margin, on one joint.\<close>

definition ik_inside :: "diff_ik_params \<Rightarrow> nat \<Rightarrow> dbl \<Rightarrow> bool" where
  "ik_inside p i x =
     (let lo = vnth (ik_q_lower p) i + ik_limit_clamp_margin p; hi = vnth (ik_q_upper p) i - ik_limit_clamp_margin p
      in (isfinite lo \<longrightarrow> lo \<le> x) \<and> (isfinite hi \<longrightarrow> x \<le> hi))"

lemma ik_apply_joint_bound:
  assumes x: "ik_inside p i (Fin x)" and S: "ik_max_joint_step p = Fin S" "0 \<le> S"
  shows "ik_apply_joint p i (Fin x) dq = NaN \<or>
    (\<exists>y. ik_apply_joint p i (Fin x) dq = Fin y \<and> \<bar>y - x\<bar> \<le> S \<and> ik_inside p i (Fin y))"
proof (cases "dq = NaN")
  case True
  then show ?thesis by (simp add: ik_apply_joint_def Let_def)
next
  case False
  define lo where "lo = vnth (ik_q_lower p) i + ik_limit_clamp_margin p"
  define hi where "hi = vnth (ik_q_upper p) i - ik_limit_clamp_margin p"
  obtain d where d: "sclamp dq (- Fin S) (Fin S) = Fin d" "- S \<le> d" "d \<le> S"
    using sclamp_bounds [OF False, of "Fin (- S)" "Fin S"] sclamp_finite [of "Fin (- S)" "Fin S" dq] False S(2)
    by (auto simp: isfinite_iff)
  have "ik_apply_joint p i (Fin x) dq = (let q1 = Fin (x + d); q2 = (if isfinite lo \<and> q1 < lo then lo else q1)
      in if isfinite hi \<and> hi < q2 then hi else q2)"
    by (simp only: ik_apply_joint_def Let_def S(1) d(1) plus_dbl.simps lo_def hi_def)
  moreover have "ik_inside p i z \<longleftrightarrow> (isfinite lo \<longrightarrow> lo \<le> z) \<and> (isfinite hi \<longrightarrow> z \<le> hi)" for z
    by (simp add: ik_inside_def lo_def hi_def Let_def)
  ultimately show ?thesis
    using x d(2,3) by (cases lo; cases hi) (auto simp: Let_def abs_le_iff)
qed

lemma ik_apply_joint_NaN [simp]: "ik_apply_joint p i NaN dq = NaN"
  by (simp add: ik_apply_joint_def Let_def)

lemma ik_loop_NaN:
  assumes "i < 7" and "vnth q i = NaN"
  shows "vnth (snd (ik_loop L dyn p target k r q)) i = NaN"
  using assms
proof (induction L dyn p target k r q rule: ik_loop.induct)
  case (1 L dyn p target k r q)
  show ?case
    by (subst ik_loop.simps) (use 1 in \<open>auto simp: Let_def ik_apply_def\<close>)
qed

lemma ik_loop_moved:
  assumes S: "ik_max_joint_step p = Fin S" "0 \<le> S" and i: "i < 7"
    and x: "vnth q i = Fin x" "ik_inside p i (Fin x)"
  shows "vnth (snd (ik_loop L dyn p target k r q)) i = NaN \<or>
    (\<exists>y. vnth (snd (ik_loop L dyn p target k r q)) i = Fin y \<and> ik_inside p i (Fin y) \<and>
       \<bar>y - x\<bar> \<le> S * of_int (max 0 (ik_max_iters p - k)))"
  using assms
proof (induction L dyn p target k r q arbitrary: x rule: ik_loop.induct)
  case (1 L dyn p target k r q)
  let ?r1 = "ik_measure L dyn p target q k" and ?dq = "ik_step L dyn p target q"
  have nn: "0 \<le> S * of_int (max 0 (ik_max_iters p - k))" using 1 by simp
  let ?stop = "ik_max_iters p < k \<or> k = ik_max_iters p \<or> ir_converged ?r1 \<and>
    \<not> (\<not> deq (ik_posture_gain p) (Fin 0) \<or> \<not> deq (ik_limit_gain p) (Fin 0)) \<or>
    inf_norm ?dq < ik_min_step p"
  show ?case
  proof (cases ?stop)
    case True
    then have "snd (ik_loop L dyn p target k r q) = q"
      by (subst ik_loop.simps) (auto simp: Let_def)
    then show ?thesis using "1.prems" nn by auto
  next
    case False
    let ?q' = "ik_apply p ?dq q"
    have eq: "ik_loop L dyn p target k r q = ik_loop L dyn p target (k + 1) ?r1 ?q'"
      using False by (subst ik_loop.simps) (auto simp: Let_def)
    have nth: "vnth ?q' i = ik_apply_joint p i (Fin x) (vnth ?dq i)"
      using "1.prems" by (simp add: ik_apply_def)
    from ik_apply_joint_bound [OF "1.prems"(5,1,2)] consider "vnth ?q' i = NaN"
      | y where "vnth ?q' i = Fin y" "\<bar>y - x\<bar> \<le> S" "ik_inside p i (Fin y)"
      unfolding nth by metis
    then show ?thesis
    proof cases
      case 1
      then show ?thesis using ik_loop_NaN "1.prems"(3) by (simp add: eq)
    next
      case 2
      have m: "S * of_int (max 0 (ik_max_iters p - k)) = S + S * of_int (max 0 (ik_max_iters p - (k + 1)))"
        using False by (simp add: algebra_simps max_def)
      from "1.IH" [OF _ refl refl _ refl _ "1.prems"(1,2,3) 2(1,3)] False
      show ?thesis unfolding eq m using 2(2) by (fastforce simp: Let_def)
    qed
  qed
qed

text \<open>Concrete instances of the two parameters, for evaluation.\<close>

definition demo_eigen :: eigen where
  "demo_eigen = \<lparr>ei_vectorD_prod = (\<lambda>A. vnth6 (vnth6 A 0) 0), ei_ldlt_solve = (\<lambda>A v. v),
     ei_quat_mul = (\<lambda>a b. a), ei_quat_inverse = (\<lambda>a. a), ei_rotvec = (\<lambda>q. case q of (w, x, y, z) \<Rightarrow> (x, y, z))\<rparr>"

definition demo_dynamics :: dynamics where
  "demo_dynamics = \<lparr>dyn_gravity = (\<lambda>q. vzero), dyn_mass_matrix = (\<lambda>q. vconst vzero),
     dyn_coriolis = (\<lambda>q qd. vconst vzero), dyn_fk = (\<lambda>q. pose0\<lparr>ps_p := (vnth q 0, vnth q 1, vnth q 2)\<rparr>),
     dyn_jacobian = (\<lambda>q. V6 (vupd vzero 0 (Fin 1)) (vupd vzero 1 (Fin 1)) (vupd vzero 2 (Fin 1)) vzero vzero vzero),
     dyn_q_lower = V7 NInf (Fin (-2)) NInf (Fin (-2)) NInf (Fin (-2)) NInf,
     dyn_q_upper = V7 PInf (Fin 2) PInf (Fin 2) PInf (Fin 2) PInf,
     dyn_v_max = vconst (Fin (6/5))\<rparr>"

text \<open>
  The report of an inverse-kinematics solve is about the joint angles it returns: for a
  non-negative iteration cap, the position and rotation errors are those of the returned
  configuration, \<open>converged\<close> says that these are within tolerance, and no more than the cap
  iterations were made, whichever of the three exits of the loop was taken.
\<close>

theorem ik_solve_reports_result:
  assumes "0 \<le> ik_max_iters p"
  shows "\<exists>j. 0 \<le> j \<and> j \<le> ik_max_iters p \<and>
    fst (ik_solve L dyn p target q) = ik_measure L dyn p target (snd (ik_solve L dyn p target q)) j"
  unfolding ik_solve_def by (rule ik_loop_result [OF assms])

text \<open>
  A solve moves each joint boundedly: starting inside the clamped limits, a returned joint
  angle is within max\_iters steps of max\_joint\_step of its start and still inside the
  limits, however far or unreachable the target is and whatever Eigen and the model return; the
  one other outcome is NaN, when a step was NaN.
\<close>

theorem ik_solve_bounded:
  assumes "ik_max_joint_step p = Fin S" and "0 \<le> S" and "i < 7" and "0 \<le> ik_max_iters p"
    and "vnth q i = Fin x" and "ik_inside p i (Fin x)"
  shows "vnth (snd (ik_solve L dyn p target q)) i = NaN \<or>
    (\<exists>y. vnth (snd (ik_solve L dyn p target q)) i = Fin y \<and> ik_inside p i (Fin y) \<and>
       \<bar>y - x\<bar> \<le> S * of_int (ik_max_iters p))"
  unfolding ik_solve_def
  using ik_loop_moved [OF assms(1,2,3,5,6), of L dyn target 0 ik_result0] assms(4) by (simp add: max_def)

theorem ik_solve_bounded_witness:
  "vnth (snd (ik_solve demo_eigen demo_dynamics diff_ik_params0 pose0 vzero)) 3 = NaN \<or>
    (\<exists>y. vnth (snd (ik_solve demo_eigen demo_dynamics diff_ik_params0 pose0 vzero)) 3 = Fin y \<and> \<bar>y\<bar> \<le> 1 / 5)"
  using ik_solve_bounded [of diff_ik_params0 "5/100" 3 vzero 0 demo_eigen demo_dynamics pose0]
  by (auto simp: diff_ik_params0_def ik_inside_def)

end
