(* ===== verification/Watchdog.thy ===== *)
theory Watchdog
  imports Joint_Types
begin

section \<open>The staleness watchdog\<close>

text \<open>
  \<open>CommandWatchdog\<close> (\<open>command_watchdog.h\<close>): a 64-bit counter the writer bumps with every
  command, and the real-time side that sees whether it moved and sums the elapsed time while it
  does not. The lemmas give what every control mode relies on: a bumped command is fresh on
  exactly one tick, a reset discards a command sent before it, and without commands the stream
  is stale from the first tick on which the summed time reaches the timeout.
\<close>

record watchdog =
  wd_count :: "64 word"
  wd_timeout_s :: dbl
  wd_last_seen :: "64 word"
  wd_stale_s :: dbl
  wd_fresh :: bool

definition watchdog0 :: watchdog where
  "watchdog0 = \<lparr>wd_count = 0, wd_timeout_s = Fin 0, wd_last_seen = 0, wd_stale_s = Fin 0, wd_fresh = False\<rparr>"

definition wd_arm :: "watchdog \<Rightarrow> dbl \<Rightarrow> watchdog" where
  "wd_arm w t = w\<lparr>wd_timeout_s := t\<rparr>"

definition wd_bump :: "watchdog \<Rightarrow> watchdog" where
  "wd_bump w = w\<lparr>wd_count := wd_count w + 1\<rparr>"

definition wd_reset :: "watchdog \<Rightarrow> watchdog" where
  "wd_reset w = w\<lparr>wd_last_seen := wd_count w, wd_stale_s := Fin 0, wd_fresh := False\<rparr>"

definition wd_tick :: "watchdog \<Rightarrow> dbl \<Rightarrow> bool \<times> watchdog" where
  "wd_tick w dt_s =
     (let c = wd_count w;
          w1 = w\<lparr>wd_fresh := (c \<noteq> wd_last_seen w)\<rparr>;
          w2 = (if wd_fresh w1 then w1\<lparr>wd_last_seen := c, wd_stale_s := Fin 0\<rparr>
                else w1\<lparr>wd_stale_s := wd_stale_s w1 + dt_s\<rparr>);
          t = wd_timeout_s w2
      in (Fin 0 < t \<and> t \<le> wd_stale_s w2, w2))"

definition wd_stale_for :: "watchdog \<Rightarrow> dbl" where
  "wd_stale_for w = wd_stale_s w"

definition wd_armed :: "watchdog \<Rightarrow> bool" where
  "wd_armed w = (Fin 0 < wd_timeout_s w)"

lemmas wd_defs = wd_arm_def wd_bump_def wd_reset_def wd_tick_def Let_def

lemma wd_tick_fresh: "wd_fresh (snd (wd_tick w dt)) \<longleftrightarrow> wd_count w \<noteq> wd_last_seen w"
  by (simp add: wd_defs)

lemma wd_tick_frame [simp]:
  "wd_count (snd (wd_tick w dt)) = wd_count w"
  "wd_timeout_s (snd (wd_tick w dt)) = wd_timeout_s w"
  "wd_last_seen (snd (wd_tick w dt)) = wd_count w"
  by (auto simp: wd_defs)

lemma wd_bump_frame [simp]:
  "wd_timeout_s (wd_bump w) = wd_timeout_s w" "wd_last_seen (wd_bump w) = wd_last_seen w"
  "wd_stale_s (wd_bump w) = wd_stale_s w"
  by (simp_all add: wd_bump_def)

text \<open>A tick that sees a new command is never stale: its elapsed time is zero.\<close>

lemma wd_fresh_not_stale:
  "wd_fresh (snd (wd_tick w dt)) \<Longrightarrow> \<not> fst (wd_tick w dt)"
  by (cases "wd_timeout_s w") (auto simp: wd_defs split: if_splits)

lemma wd_disarmed_never_stale: "\<not> wd_armed w \<Longrightarrow> \<not> fst (wd_tick w dt)"
  by (simp add: wd_armed_def wd_defs)

text \<open>\<open>ticks w dts\<close>: the loop's ticks with no command in between, and whether the last was stale.\<close>

fun wd_ticks :: "watchdog \<Rightarrow> dbl list \<Rightarrow> bool \<times> watchdog" where
  "wd_ticks w [] = (False, w)"
| "wd_ticks w [dt] = wd_tick w dt"
| "wd_ticks w (dt # dts) = wd_ticks (snd (wd_tick w dt)) dts"

lemma wd_ticks_quiet_stale_s:
  assumes "wd_count w = wd_last_seen w" and "wd_stale_s w = Fin s" and "dts \<noteq> []"
  shows "wd_stale_s (snd (wd_ticks w (map Fin dts))) = Fin (s + sum_list dts) \<and>
         fst (wd_ticks w (map Fin dts)) =
           (Fin 0 < wd_timeout_s w \<and> wd_timeout_s w \<le> Fin (s + sum_list dts))"
  using assms
proof (induction dts arbitrary: w s)
  case Nil
  then show ?case by simp
next
  case (Cons d dts)
  show ?case
  proof (cases dts)
    case Nil
    with Cons.prems show ?thesis by (simp add: wd_tick_def Let_def)
  next
    case (Cons d' ds)
    let ?w = "snd (wd_tick w (Fin d))"
    have "wd_count ?w = wd_last_seen ?w" by simp
    moreover have "wd_stale_s ?w = Fin (s + d)"
      using Cons.prems by (simp add: wd_tick_def Let_def)
    ultimately show ?thesis
      using Cons.IH [of ?w "s + d"] Cons by (simp add: add.assoc)
  qed
qed

text \<open>
  What the modes use: after a reset, a quiet stream is stale exactly when the summed cycle times
  reach an armed timeout.
\<close>

lemma wd_quiet_stale_iff:
  assumes "dts \<noteq> []"
  shows "fst (wd_ticks (wd_reset w) (map Fin dts)) \<longleftrightarrow>
           wd_armed w \<and> wd_timeout_s w \<le> Fin (sum_list dts)"
  using wd_ticks_quiet_stale_s [of "wd_reset w" 0 dts] assms
  by (simp add: wd_reset_def wd_armed_def)

text \<open>
  Between two looks of the real-time side the writer may publish any number of commands below
  a full turn of the counter; the next tick is then fresh exactly when there was one.
\<close>

lemma wd_bumps_count: "wd_count ((wd_bump ^^ n) w) = wd_count w + of_nat n \<and>
    wd_last_seen ((wd_bump ^^ n) w) = wd_last_seen w"
  by (induction n) (simp_all add: wd_bump_def)

lemma wd_bumps_fresh:
  assumes "wd_count w = wd_last_seen w" and "n < 2 ^ 64"
  shows "wd_fresh (snd (wd_tick ((wd_bump ^^ n) w) dt)) \<longleftrightarrow> 0 < n"
proof -
  have "(of_nat n :: 64 word) = 0 \<longleftrightarrow> n = 0"
    using assms(2) by (simp add: word_of_nat_eq_0_iff dvd_eq_mod_eq_0)
  then show ?thesis
    using assms(1) by (simp add: wd_tick_fresh wd_bumps_count)
qed

end
