(* ===== verification/Torque_Mode.thy ===== *)
theory Torque_Mode
  imports Watchdog
begin

section \<open>The joint-torque mode\<close>

text \<open>
  \<open>JointTorqueMode\<close> (\<open>joint_torque_mode.h\<close> and \<open>.cpp\<close>): gravity compensation with a streamed
  feedforward torque that is held while it is fresh and ramped to zero once it is stale.
\<close>

record torque_params =
  tp_scale :: dbl
  tp_damping :: dbl
  tp_torque_limit :: jointvec
  tp_cmd_timeout_s :: dbl
  tp_cmd_decay_s :: dbl

definition default_torque_limit :: jointvec where
  "default_torque_limit = V7 (Fin 39) (Fin 39) (Fin 39) (Fin 39) (Fin 9) (Fin 9) (Fin 9)"

definition torque_params0 :: torque_params where
  "torque_params0 = \<lparr>tp_scale = Fin 1, tp_damping = Fin 0, tp_torque_limit = default_torque_limit,
     tp_cmd_timeout_s = Fin (1/10), tp_cmd_decay_s = Fin (5/100)\<rparr>"

record torque_mode =
  tm_dyn :: dynamics
  tm_p :: torque_params
  tm_buf :: "jointvec dbuf"
  tm_wd :: watchdog
  tm_target :: jointvec
  tm_applied :: jointvec

definition tm_init :: "dynamics \<Rightarrow> torque_params \<Rightarrow> torque_mode" where
  "tm_init dyn p = \<lparr>tm_dyn = dyn, tm_p = p, tm_buf = dbuf_init vzero,
     tm_wd = wd_arm watchdog0 (tp_cmd_timeout_s p), tm_target = vzero, tm_applied = vzero\<rparr>"

definition tm_required_modes :: actuator_modes where
  "tm_required_modes = modes_fill AmTorque"

definition tm_set_torque :: "torque_mode \<Rightarrow> jointvec \<Rightarrow> torque_mode" where
  "tm_set_torque m tau = m\<lparr>tm_buf := dbuf_publish (tm_buf m) tau, tm_wd := wd_bump (tm_wd m)\<rparr>"

definition tm_set_command_timeout :: "torque_mode \<Rightarrow> dbl \<Rightarrow> torque_mode" where
  "tm_set_command_timeout m s =
     m\<lparr>tm_wd := wd_arm (tm_wd m) (if Fin 0 \<le> s then s else tp_cmd_timeout_s (tm_p m))\<rparr>"

definition tm_on_enter :: "torque_mode \<Rightarrow> torque_mode" where
  "tm_on_enter m = m\<lparr>tm_target := vzero, tm_applied := vzero, tm_wd := wd_reset (tm_wd m)\<rparr>"

definition decay_joint :: "dbl \<Rightarrow> dbl \<Rightarrow> dbl \<Rightarrow> dbl" where
  "decay_joint fr target applied =
     (let step = fr * abs target
      in if step < applied then applied - step
         else if applied < - step then applied + step
         else Fin 0)"

definition tm_apply :: "torque_params \<Rightarrow> bool \<Rightarrow> dbl \<Rightarrow> jointvec \<Rightarrow> jointvec \<Rightarrow> jointvec" where
  "tm_apply p stale dt_s target applied =
     (if stale then
        (if Fin 0 < tp_cmd_decay_s p
         then (let fr = dt_s / tp_cmd_decay_s p
               in vgen (\<lambda>i. decay_joint fr (vnth target i) (vnth applied i)))
         else vzero)
      else target)"

definition clamp_torque :: "jointvec \<Rightarrow> jointvec \<Rightarrow> jointvec" where
  "clamp_torque limit tau = vgen (\<lambda>i. sclamp (vnth tau i) (- vnth limit i) (vnth limit i))"

definition tm_compute :: "torque_mode \<Rightarrow> joint_feedback \<Rightarrow> dbl \<Rightarrow> joint_command \<Rightarrow> torque_mode \<times> joint_command" where
  "tm_compute m fb dt_s out =
     (let (stale, wd) = wd_tick (tm_wd m) dt_s;
          target = (if wd_fresh wd then dbuf_read (tm_buf m) else tm_target m);
          applied = tm_apply (tm_p m) stale dt_s target (tm_applied m);
          g = dyn_gravity (tm_dyn m) (fb_q fb);
          tau = (vscale (tp_scale (tm_p m)) g - vscale (tp_damping (tm_p m)) (fb_qd fb)) + applied
      in (m\<lparr>tm_wd := wd, tm_target := target, tm_applied := applied\<rparr>,
          out\<lparr>jc_mode := AmTorque, jc_torque := clamp_torque (tp_torque_limit (tm_p m)) tau, jc_position := fb_q fb\<rparr>))"

subsection \<open>Bounds and decay\<close>

lemma clamp_torque_bounded:
  assumes "i < 7" and "vnth limit i = Fin l" and "0 \<le> l" and "vnth tau i \<noteq> NaN"
  shows "\<exists>t. vnth (clamp_torque limit tau) i = Fin t \<and> \<bar>t\<bar> \<le> l"
  using assms by (cases "vnth tau i") (auto simp: clamp_torque_def sclamp_def abs_le_iff)

lemma clamp_torque_NaN: "i < 7 \<Longrightarrow> vnth tau i = NaN \<Longrightarrow> vnth (clamp_torque limit tau) i = NaN"
  by (simp add: clamp_torque_def)

text \<open>The closed form of the ramp: the held target shrinks linearly, keeps its sign, and ends at zero.\<close>

definition ramped :: "real \<Rightarrow> real \<Rightarrow> real" where
  "ramped t s = (if s < 1 then t * (1 - s) else 0)"

lemma decay_joint_ramped:
  assumes "0 \<le> f" and "0 \<le> s"
  shows "decay_joint (Fin f) (Fin t) (Fin (ramped t s)) = Fin (ramped t (s + f))"
proof -
  have nn: "0 \<le> f * \<bar>t\<bar>" using assms by simp
  show ?thesis
  proof (cases "s < 1")
    case False
    moreover have "\<not> f * \<bar>t\<bar> < 0" using nn by linarith
    ultimately show ?thesis using assms by (simp add: decay_joint_def ramped_def Let_def)
  next
    case s1: True
  consider (pos) "0 < t" | (neg) "t < 0" | (zero) "t = 0" by linarith
  then show ?thesis
  proof cases
    case pos
    have "t * f < t * (1 - s) \<longleftrightarrow> f < 1 - s" using pos by simp
    then have c: "f * \<bar>t\<bar> < t * (1 - s) \<longleftrightarrow> s + f < 1" using pos by (simp add: mult.commute) linarith
    have d: "\<not> t * (1 - s) < - (f * \<bar>t\<bar>)"
      using mult_nonneg_nonneg [of t "1 - s"] nn pos s1 by linarith
    show ?thesis
      using c d assms pos s1 by (auto simp: decay_joint_def ramped_def Let_def right_diff_distrib distrib_left mult.commute)
  next
    case neg
    have "t * (1 - s) < t * f \<longleftrightarrow> f < 1 - s" using neg by simp
    then have c: "t * (1 - s) < - (f * \<bar>t\<bar>) \<longleftrightarrow> s + f < 1" using neg by (simp add: mult.commute) linarith
    have d: "\<not> f * \<bar>t\<bar> < t * (1 - s)"
      using mult_nonpos_nonneg [of t "1 - s"] nn neg s1 by linarith
    show ?thesis
      using c d assms neg s1 by (auto simp: decay_joint_def ramped_def Let_def right_diff_distrib distrib_left mult.commute)
  next
    case zero
    then show ?thesis by (simp add: decay_joint_def ramped_def)
  qed
  qed
qed

text \<open>A run of cycles with no command in between.\<close>

fun tm_cycles :: "torque_mode \<Rightarrow> joint_feedback \<Rightarrow> dbl list \<Rightarrow> torque_mode" where
  "tm_cycles m fb [] = m"
| "tm_cycles m fb (dt # dts) = tm_cycles (fst (tm_compute m fb dt joint_command0)) fb dts"

text \<open>
  A quiet mode whose stream has been silent for \<open>st\<close> and whose feedforward has been ramped for \<open>s\<close>.
\<close>

definition tm_ramping :: "real \<Rightarrow> real \<Rightarrow> (nat \<Rightarrow> real) \<Rightarrow> real \<Rightarrow> real \<Rightarrow> torque_mode \<Rightarrow> bool" where
  "tm_ramping D T \<tau> s st m \<longleftrightarrow> tp_cmd_decay_s (tm_p m) = Fin D \<and>
     wd_timeout_s (tm_wd m) = Fin T \<and> wd_count (tm_wd m) = wd_last_seen (tm_wd m) \<and>
     wd_stale_s (tm_wd m) = Fin st \<and>
     (\<forall>i < 7. vnth (tm_target m) i = Fin (\<tau> i) \<and> vnth (tm_applied m) i = Fin (ramped (\<tau> i) (s / D)))"

lemma tm_ramping_cycle:
  assumes r: "tm_ramping D T \<tau> s st m" and "0 < D" and "0 < T" and "0 \<le> dt" and "0 \<le> s" and st: "T \<le> st + dt"
  shows "tm_ramping D T \<tau> (s + dt) (st + dt) (fst (tm_compute m fb (Fin dt) out))"
proof -
  have w: "fst (wd_tick (tm_wd m) (Fin dt))" "\<not> wd_fresh (snd (wd_tick (tm_wd m) (Fin dt)))"
    "wd_stale_s (snd (wd_tick (tm_wd m) (Fin dt))) = Fin (st + dt)"
    using r st assms by (auto simp: tm_ramping_def wd_tick_def Let_def)
  let ?m' = "fst (tm_compute m fb (Fin dt) out)"
  have m': "tm_target ?m' = tm_target m" "tm_p ?m' = tm_p m" "tm_wd ?m' = snd (wd_tick (tm_wd m) (Fin dt))"
    "tm_applied ?m' = tm_apply (tm_p m) True (Fin dt) (tm_target m) (tm_applied m)"
    using w by (simp_all add: tm_compute_def Let_def split: prod.splits) auto
  have "vnth (tm_applied ?m') i = Fin (ramped (\<tau> i) ((s + dt) / D))" if i: "i < 7" for i
  proof -
    have "vnth (tm_applied ?m') i = decay_joint (Fin (dt / D)) (Fin (\<tau> i)) (Fin (ramped (\<tau> i) (s / D)))"
      using r i assms m'(4) by (simp add: tm_ramping_def tm_apply_def Let_def)
    also have "\<dots> = Fin (ramped (\<tau> i) (s / D + dt / D))"
      using assms by (intro decay_joint_ramped) auto
    finally show ?thesis by (simp add: add_divide_distrib)
  qed
  then show ?thesis using r m' w(3) assms by (auto simp: tm_ramping_def)
qed

lemma tm_ramping_cycles:
  assumes "tm_ramping D T \<tau> s st m" and "0 < D" and "0 < T" and "0 \<le> s" and "\<forall>dt \<in> set dts. 0 \<le> dt"
    and "dts \<noteq> [] \<longrightarrow> T \<le> st + hd dts"
  shows "tm_ramping D T \<tau> (s + sum_list dts) (st + sum_list dts) (tm_cycles m fb (map Fin dts))"
  using assms
proof (induction dts arbitrary: m s st)
  case (Cons dt dts)
  have "tm_ramping D T \<tau> (s + dt) (st + dt) (fst (tm_compute m fb (Fin dt) joint_command0))"
    using tm_ramping_cycle [OF Cons.prems(1)] Cons.prems by simp
  moreover have "dts \<noteq> [] \<longrightarrow> T \<le> st + dt + hd dts" using Cons.prems(5,6) by (cases dts) auto
  ultimately have "tm_ramping D T \<tau> (s + dt + sum_list dts) (st + dt + sum_list dts)
      (tm_cycles (fst (tm_compute m fb (Fin dt) joint_command0)) fb (map Fin dts))"
    using Cons.IH [of "s + dt" "st + dt"] Cons.prems by simp
  then show ?case by (simp add: add.assoc)
qed simp

text \<open>
  The staleness ramp of the torque mode: from the first stale cycle on, after quiet
  cycles of total length s the applied feedforward of every joint is its held torque times
  (1 - s / cmd\_decay\_s) -- sign kept, never growing -- and exactly zero from s = cmd\_decay\_s on.
\<close>

theorem tm_stale_ramp:
  assumes hold: "tm_ramping D T \<tau> 0 st m" and first: "T \<le> st + dt" and "0 < D" and "0 < T"
    and "\<forall>d \<in> set (dt # dts). 0 \<le> d" and "i < 7"
  shows "vnth (tm_applied (tm_cycles m fb (map Fin (dt # dts)))) i =
           Fin (if sum_list (dt # dts) < D then \<tau> i * (1 - sum_list (dt # dts) / D) else 0)"
proof -
  have "tm_ramping D T \<tau> (0 + sum_list (dt # dts)) (st + sum_list (dt # dts)) (tm_cycles m fb (map Fin (dt # dts)))"
    by (rule tm_ramping_cycles) (use assms in auto)
  then show ?thesis using assms(3,6) by (simp add: tm_ramping_def ramped_def)
qed

text \<open>A torque of 4 on every joint, adopted by one cycle.\<close>

definition demo_torque_mode :: torque_mode where
  "demo_torque_mode = fst (tm_compute (tm_set_torque (tm_on_enter (tm_init zero_dynamics torque_params0)) (vconst (Fin 4)))
     joint_feedback0 (Fin (1/1000)) joint_command0)"

theorem tm_stale_ramp_witness:
  "vnth (tm_applied (tm_cycles demo_torque_mode joint_feedback0 [Fin (1/10 * 4/10), Fin (1/10 * 4/10)])) 2 = Fin 4 \<and>
   vnth (tm_applied (tm_cycles (tm_set_command_timeout demo_torque_mode (Fin (1/100))) joint_feedback0 [Fin (1/50), Fin (1/200)])) 2 = Fin 2"
proof -
  have "tm_ramping (5/100) (1/100) (\<lambda>_. 4) 0 0 (tm_set_command_timeout demo_torque_mode (Fin (1/100)))"
    by (simp add: tm_ramping_def demo_torque_mode_def tm_set_command_timeout_def tm_compute_def tm_set_torque_def
        tm_on_enter_def tm_init_def torque_params0_def wd_defs watchdog0_def tm_apply_def ramped_def)
  from tm_stale_ramp [OF this, of "1/50" "[1/200]" 2 joint_feedback0]
  have "vnth (tm_applied (tm_cycles (tm_set_command_timeout demo_torque_mode (Fin (1/100))) joint_feedback0 [Fin (1/50), Fin (1/200)])) 2 = Fin 2"
    by simp
  moreover have "vnth (tm_applied (tm_cycles demo_torque_mode joint_feedback0 [Fin (1/10 * 4/10), Fin (1/10 * 4/10)])) 2 = Fin 4"
    by (simp add: demo_torque_mode_def tm_compute_def tm_set_torque_def
        tm_on_enter_def tm_init_def torque_params0_def wd_defs watchdog0_def tm_apply_def)
  ultimately show ?thesis by blast
qed

text \<open>A NaN in a torque setpoint reaches the actuators: \<open>std::clamp\<close> lets it through.\<close>

lemma tm_NaN_torque_commanded:
  assumes "i < 7" and "vnth tau i = NaN" and "wd_last_seen (tm_wd m) = wd_count (tm_wd m)"
  shows "vnth (jc_torque (snd (tm_compute (tm_set_torque m tau) fb dt out))) i = NaN"
proof -
  let ?m = "tm_set_torque m tau"
  have f: "wd_fresh (snd (wd_tick (tm_wd ?m) dt))"
    using assms(3) by (simp add: wd_tick_fresh tm_set_torque_def wd_bump_def)
  then have "\<not> fst (wd_tick (tm_wd ?m) dt)" by (rule wd_fresh_not_stale)
  with f assms(1,2) show ?thesis
    by (cases "wd_tick (tm_wd ?m) dt")
      (simp add: tm_compute_def tm_apply_def clamp_torque_NaN tm_set_torque_def)
qed

end
