(* ===== verification/Impedance_Mode.thy ===== *)
theory Impedance_Mode
  imports Diff_Ik Torque_Mode
begin

section \<open>The joint-impedance mode\<close>

text \<open>
  \<open>JointImpedanceMode\<close> (\<open>joint_impedance_mode.h\<close> and \<open>.cpp\<close>): a rate-limited joint reference,
  a leashed spring and an inertia-scaled damper around it, full gravity compensation, and feedforward
  from a trajectory's profile. Mass matrix, gravity and kinematics are the parameter \<open>dynamics\<close>.
\<close>

record impedance_params =
  ip_Kq :: jointvec
  ip_zeta :: dbl
  ip_torque_limit :: jointvec
  ip_max_tracking_error :: dbl
  ip_max_ref_speed :: jointvec
  ip_gain_ramp_s :: dbl
  ip_cmd_timeout_s :: dbl
  ip_ik :: diff_ik_params

definition impedance_params0 :: impedance_params where
  "impedance_params0 = \<lparr>ip_Kq = V7 (Fin 80) (Fin 80) (Fin 80) (Fin 80) (Fin 30) (Fin 30) (Fin 30),
     ip_zeta = Fin (1/2), ip_torque_limit = default_torque_limit, ip_max_tracking_error = Fin (35/100),
     ip_max_ref_speed = vconst PInf, ip_gain_ramp_s = Fin (1/10), ip_cmd_timeout_s = Fin 0, ip_ik = diff_ik_params0\<rparr>"

text \<open>Only non-finite entries are seeded: a finite reference speed is kept as it is.\<close>

definition seed_impedance_limits :: "dynamics \<Rightarrow> impedance_params \<Rightarrow> impedance_params" where
  "seed_impedance_limits dyn p =
     p\<lparr>ip_ik := (ip_ik p)\<lparr>ik_q_lower := seed_vec (dyn_q_lower dyn) (ik_q_lower (ip_ik p)),
                         ik_q_upper := seed_vec (dyn_q_upper dyn) (ik_q_upper (ip_ik p))\<rparr>,
       ip_max_ref_speed := seed_vec (dyn_v_max dyn) (ip_max_ref_speed p)\<rparr>"

datatype im_source = IsEntryHold | IsPose | IsJoint

record impedance_mode =
  im_dyn :: dynamics
  im_gains :: "impedance_params dbuf"
  im_ext_pose :: "pose dbuf"
  im_ext_joint :: "joint_target dbuf"
  im_source :: im_source
  im_wd :: watchdog
  im_speed_scale :: dbl
  im_frozen :: bool
  im_q_d :: jointvec
  im_solver_params :: diff_ik_params
  im_last_ik :: ik_result
  im_ramp_elapsed :: dbl
  im_Dq_last :: jointvec
  im_qd_ref :: jointvec

definition im_continuous :: "impedance_mode \<Rightarrow> bool vec7" where
  "im_continuous m = continuous_joints (dyn_q_lower (im_dyn m)) (dyn_q_upper (im_dyn m))"

definition im_init :: "dynamics \<Rightarrow> impedance_params \<Rightarrow> impedance_mode" where
  "im_init dyn p =
     (let sp = seed_impedance_limits dyn p
      in \<lparr>im_dyn = dyn, im_gains = dbuf_init sp, im_ext_pose = dbuf_init pose0, im_ext_joint = dbuf_init joint_target0,
          im_source = IsEntryHold, im_wd = wd_arm watchdog0 (ip_cmd_timeout_s sp), im_speed_scale = Fin 1,
          im_frozen = False, im_q_d = vzero, im_solver_params = ip_ik sp, im_last_ik = ik_result0,
          im_ramp_elapsed = Fin 0, im_Dq_last = vzero, im_qd_ref = vzero\<rparr>)"

definition im_required_modes :: actuator_modes where
  "im_required_modes = modes_fill AmTorque"

definition im_get_params :: "impedance_mode \<Rightarrow> impedance_params" where
  "im_get_params m = dbuf_read (im_gains m)"

definition im_set_gains :: "impedance_mode \<Rightarrow> impedance_params \<Rightarrow> impedance_mode" where
  "im_set_gains m p = m\<lparr>im_gains := dbuf_publish (im_gains m) (seed_impedance_limits (im_dyn m) p)\<rparr>"

definition im_set_pose_target :: "impedance_mode \<Rightarrow> pose \<Rightarrow> impedance_mode" where
  "im_set_pose_target m x_d =
     m\<lparr>im_ext_pose := dbuf_publish (im_ext_pose m) x_d, im_source := IsPose, im_wd := wd_bump (im_wd m)\<rparr>"

definition im_set_joint_target :: "impedance_mode \<Rightarrow> joint_target \<Rightarrow> impedance_mode" where
  "im_set_joint_target m t =
     m\<lparr>im_ext_joint := dbuf_publish (im_ext_joint m) t, im_source := IsJoint, im_wd := wd_bump (im_wd m)\<rparr>"

definition im_set_command_timeout :: "impedance_mode \<Rightarrow> dbl \<Rightarrow> impedance_mode" where
  "im_set_command_timeout m s =
     m\<lparr>im_wd := wd_arm (im_wd m) (if Fin 0 \<le> s then s else ip_cmd_timeout_s (im_get_params m))\<rparr>"

definition im_set_speed_scale :: "impedance_mode \<Rightarrow> dbl \<Rightarrow> impedance_mode" where
  "im_set_speed_scale m s = m\<lparr>im_speed_scale := s\<rparr>"

definition im_on_enter :: "impedance_mode \<Rightarrow> joint_feedback \<Rightarrow> impedance_mode" where
  "im_on_enter m fb =
     m\<lparr>im_q_d := fb_q fb, im_source := IsEntryHold, im_ramp_elapsed := Fin 0, im_last_ik := ik_result0,
       im_wd := wd_reset (im_wd m), im_frozen := False\<rparr>"

subsection \<open>The control law\<close>

text \<open>The staleness latch: release on a fresh command, then freeze at the measurement when stale.\<close>

definition im_freeze :: "bool \<Rightarrow> bool \<Rightarrow> joint_feedback \<Rightarrow> impedance_mode \<Rightarrow> impedance_mode" where
  "im_freeze stale fresh fb m =
     (let m1 = (if fresh then m\<lparr>im_frozen := False\<rparr> else m)
      in if stale then m1\<lparr>im_frozen := True, im_q_d := fb_q fb, im_last_ik := ik_result0\<rparr> else m1)"

text \<open>The target: the reference before rate limiting and the feedforward taken from a profile.\<close>

definition im_resolve :: "eigen \<Rightarrow> impedance_params \<Rightarrow> impedance_mode \<Rightarrow> impedance_mode \<times> jointvec option \<times> jointvec option" where
  "im_resolve L p m =
     (if im_frozen m then (m, None, None)
      else (case im_source m of
          IsJoint \<Rightarrow> (let t = dbuf_read (im_ext_joint m)
                     in (m\<lparr>im_q_d := jt_q t, im_last_ik := ik_result0\<rparr>,
                         (if jt_has_velocity t then Some (jt_qd t) else None),
                         (if jt_has_velocity t \<and> jt_has_acceleration t then Some (jt_qdd t) else None)))
        | IsPose \<Rightarrow> (let (r, q) = ik_solve L (im_dyn m) (ip_ik p) (dbuf_read (im_ext_pose m)) (im_q_d m)
                    in (m\<lparr>im_solver_params := ip_ik p, im_last_ik := r, im_q_d := q\<rparr>, None, None))
        | IsEntryHold \<Rightarrow> (m\<lparr>im_last_ik := ik_result0\<rparr>, None, None)))"

definition im_rate_limit :: "impedance_params \<Rightarrow> bool vec7 \<Rightarrow> dbl \<Rightarrow> dbl \<Rightarrow> jointvec \<Rightarrow> jointvec \<Rightarrow> jointvec option" where
  "im_rate_limit p contin speed dt_s q_prev q_d = vgenM (\<lambda>i.
     (let max_step = speed * vnth (ip_max_ref_speed p) i * dt_s
      in do { step \<leftarrow> wrap_if (vnth contin i) (vnth q_d i - vnth q_prev i);
              Some (vnth q_prev i + sclamp step (- max_step) max_step) }))"

definition im_ref_velocity :: "impedance_params \<Rightarrow> dbl \<Rightarrow> jointvec option \<Rightarrow> jointvec" where
  "im_ref_velocity p speed ff = (case ff of
       None \<Rightarrow> vzero
     | Some qd \<Rightarrow> vgen (\<lambda>i. sclamp (vnth qd i) (- speed * vnth (ip_max_ref_speed p) i) (speed * vnth (ip_max_ref_speed p) i)))"

text \<open>The damping of joint \<open>i\<close>, and its spring-damper torque for a folded error.\<close>

definition im_damping :: "impedance_params \<Rightarrow> jointmat \<Rightarrow> nat \<Rightarrow> dbl" where
  "im_damping p M i = Fin 2 * ip_zeta p * dsqrt (smax (Fin 0) (vnth (ip_Kq p) i * vnth (vnth M i) i))"

definition im_spring :: "impedance_params \<Rightarrow> jointmat \<Rightarrow> joint_feedback \<Rightarrow> jointvec \<Rightarrow> nat \<Rightarrow> dbl \<Rightarrow> dbl" where
  "im_spring p M fb qd_ref i err =
     vnth (ip_Kq p) i * sclamp err (- ip_max_tracking_error p) (ip_max_tracking_error p)
       - im_damping p M i * (vnth (fb_qd fb) i - vnth qd_ref i)"

definition im_ramp :: "impedance_params \<Rightarrow> dbl \<Rightarrow> dbl" where
  "im_ramp p elapsed = (if ip_gain_ramp_s p \<le> Fin 0 then Fin 1 else smin (Fin 1) (elapsed / ip_gain_ramp_s p))"

definition im_compute :: "eigen \<Rightarrow> impedance_mode \<Rightarrow> joint_feedback \<Rightarrow> dbl \<Rightarrow> joint_command \<Rightarrow> (impedance_mode \<times> joint_command) option" where
  "im_compute L m fb dt_s out =
     (let p = im_get_params m;
          speed = im_speed_scale m;
          (stale, wd) = wd_tick (im_wd m) dt_s;
          m1 = im_freeze stale (wd_fresh wd) fb (m\<lparr>im_wd := wd\<rparr>);
          q_prev = im_q_d m1;
          (m2, ff_velocity, ff_acceleration) = im_resolve L p m1
      in do {
        q_lim \<leftarrow> im_rate_limit p (im_continuous m2) speed dt_s q_prev (im_q_d m2);
        let qd_ref = im_ref_velocity p speed ff_velocity;
        q_d \<leftarrow> vgenM (\<lambda>i. wrap_if (vnth (im_continuous m2) i) (vnth q_lim i));
        let g = dyn_gravity (im_dyn m2) (fb_q fb);
        let M = dyn_mass_matrix (im_dyn m2) (fb_q fb);
        err \<leftarrow> vgenM (\<lambda>i. wrap_if (vnth (im_continuous m2) i) (vnth q_d i - vnth (fb_q fb) i));
        let tau0 = vgen (\<lambda>i. im_spring p M fb qd_ref i (vnth err i));
        let tau1 = (case ff_acceleration of None \<Rightarrow> tau0 | Some qdd \<Rightarrow> tau0 + mat_vec M qdd);
        let tau = clamp_torque (ip_torque_limit p) (g + vscale (im_ramp p (im_ramp_elapsed m2)) tau1);
        Some (m2\<lparr>im_q_d := q_d, im_qd_ref := qd_ref, im_Dq_last := vgen (im_damping p M),
                 im_ramp_elapsed := im_ramp_elapsed m2 + dt_s\<rparr>,
              out\<lparr>jc_mode := AmTorque, jc_torque := tau, jc_position := fb_q fb\<rparr>) })"

subsection \<open>Holding still\<close>

text \<open>A cycle that holds: frozen by staleness, or waiting for its first target.\<close>

definition im_holding :: "impedance_mode \<Rightarrow> joint_feedback \<Rightarrow> dbl \<Rightarrow> bool" where
  "im_holding m fb dt_s \<longleftrightarrow>
     (let (stale, wd) = wd_tick (im_wd m) dt_s; m1 = im_freeze stale (wd_fresh wd) fb m
      in (im_frozen m1 \<or> im_source m1 = IsEntryHold) \<and> im_q_d m1 = fb_q fb)"

lemma im_rate_limit_hold:
  assumes "vfinite q" and "\<forall>i < 7. \<exists>s. vnth (ip_max_ref_speed p) i = Fin s \<and> 0 \<le> s" and "0 \<le> sp" and "0 \<le> dt"
  shows "im_rate_limit p c (Fin sp) (Fin dt) q q = Some q"
  unfolding im_rate_limit_def vgenM_Some_iff
proof (intro allI impI)
  fix i :: nat assume i: "i < 7"
  obtain x s where x: "vnth q i = Fin x" "vnth (ip_max_ref_speed p) i = Fin s" "0 \<le> s"
    using assms(1,2) i by (meson isfinite_iff vfiniteD)
  have nn: "0 \<le> sp * s * dt" using assms x by simp
  have w: "wrap_if (vnth c i) (Fin 0) = Some (Fin 0)" by (cases "vnth c i"; simp add: in_pi_def)
  have "sclamp (Fin 0) (Fin (- (sp * s * dt))) (Fin (sp * s * dt)) = Fin 0"
    by (rule sclamp_id) (use nn in simp_all)
  then show "(let max_step = Fin sp * vnth (ip_max_ref_speed p) i * Fin dt
         in do { step \<leftarrow> wrap_if (vnth c i) (vnth q i - vnth q i);
                 Some (vnth q i + sclamp step (- max_step) max_step) }) = Some (vnth q i)"
    using x w by (simp add: Let_def)
qed

lemma clamp_torque_id:
  assumes "\<And>i. i < 7 \<Longrightarrow> \<exists>t l. vnth tau i = Fin t \<and> vnth limit i = Fin l \<and> \<bar>t\<bar> \<le> l"
  shows "clamp_torque limit tau = tau"
proof (rule vec7_eqI)
  fix i :: nat assume i: "i < 7"
  obtain t l where t: "vnth tau i = Fin t" "vnth limit i = Fin l" "\<bar>t\<bar> \<le> l" using assms [OF i] by blast
  have "sclamp (Fin t) (Fin (- l)) (Fin l) = Fin t" by (rule sclamp_id) (use t in \<open>auto simp: abs_le_iff\<close>)
  then show "vnth (clamp_torque limit tau) i = vnth tau i" using t i by (simp add: clamp_torque_def)
qed

text \<open>What the law needs of its parameters and of the model at a configuration.\<close>

definition gains_ok :: "impedance_params \<Rightarrow> bool" where
  "gains_ok p \<longleftrightarrow> isfinite (ip_zeta p) \<and> isfinite (ip_gain_ramp_s p) \<and> vfinite (ip_Kq p) \<and>
     (\<exists>e. ip_max_tracking_error p = Fin e \<and> 0 \<le> e) \<and>
     (\<forall>i < 7. (\<exists>s. vnth (ip_max_ref_speed p) i = Fin s \<and> 0 \<le> s) \<and> (\<exists>l. vnth (ip_torque_limit p) i = Fin l \<and> 0 \<le> l))"

definition model_finite_at :: "dynamics \<Rightarrow> jointvec \<Rightarrow> bool" where
  "model_finite_at dyn q \<longleftrightarrow> vfinite (dyn_gravity dyn q) \<and> (\<forall>i < 7. vfinite (vnth (dyn_mass_matrix dyn q) i))"

lemma dsqrt_smax_finite: "isfinite x \<Longrightarrow> isfinite (dsqrt (smax (Fin 0) x))"
  by (auto simp: isfinite_iff dsqrt_def max_def)

lemma isfinite_arith [simp]:
  "isfinite a \<Longrightarrow> isfinite b \<Longrightarrow> isfinite (a * b)" "isfinite a \<Longrightarrow> isfinite b \<Longrightarrow> isfinite (a + b)"
  "isfinite a \<Longrightarrow> isfinite b \<Longrightarrow> isfinite (a - b)" "isfinite a \<Longrightarrow> isfinite (- a)"
  by (auto simp: isfinite_iff)

lemma im_damping_finite:
  assumes "gains_ok p" and "\<forall>i < 7. vfinite (vnth M i)" and "i < 7"
  shows "isfinite (im_damping p M i)"
  using assms by (simp add: im_damping_def gains_ok_def dsqrt_smax_finite vfiniteD)

lemma im_spring_finite:
  assumes p: "gains_ok p" and M: "\<forall>i < 7. vfinite (vnth M i)" and i: "i < 7" and "vfinite (fb_qd fb)"
    and "vfinite v" and "isfinite e"
  shows "isfinite (im_spring p M fb v i e)"
proof -
  have e: "e \<noteq> NaN" using assms(6) by auto
  have "isfinite (sclamp e (- ip_max_tracking_error p) (ip_max_tracking_error p))"
    using p e by (intro sclamp_finite) (auto simp: gains_ok_def)
  then show ?thesis
    using im_damping_finite [OF p M i] p assms(4,5) i by (simp add: im_spring_def gains_ok_def vfiniteD)
qed

lemma im_ramp_finite: "gains_ok p \<Longrightarrow> isfinite x \<Longrightarrow> isfinite (im_ramp p x)"
  by (auto simp: gains_ok_def im_ramp_def isfinite_iff)

lemma im_resolve_hold:
  assumes "im_frozen m \<or> im_source m = IsEntryHold"
  shows "\<exists>m2. im_resolve L p m = (m2, None, None) \<and> im_q_d m2 = im_q_d m \<and> im_dyn m2 = im_dyn m \<and>
    im_ramp_elapsed m2 = im_ramp_elapsed m"
  using assms by (auto simp: im_resolve_def)

lemma im_freeze_frame [simp]:
  "im_dyn (im_freeze s f fb m) = im_dyn m" "im_ramp_elapsed (im_freeze s f fb m) = im_ramp_elapsed m"
  "im_source (im_freeze s f fb m) = im_source m"
  "im_wd (im_freeze s f fb m) = im_wd m"
  by (simp_all add: im_freeze_def Let_def)

lemma im_freeze_wd [simp]:
  "im_q_d (im_freeze s f fb (m\<lparr>im_wd := w\<rparr>)) = im_q_d (im_freeze s f fb m)"
  "im_frozen (im_freeze s f fb (m\<lparr>im_wd := w\<rparr>)) = im_frozen (im_freeze s f fb m)"
  by (simp_all add: im_freeze_def Let_def)

lemma im_spring_rest:
  assumes p: "gains_ok p" and "\<forall>i < 7. vfinite (vnth M i)" and i: "i < 7" and "fb_qd fb = vzero"
  shows "im_spring p M fb vzero i (Fin 0) = Fin 0"
proof -
  obtain k d e where f: "vnth (ip_Kq p) i = Fin k" "im_damping p M i = Fin d" "ip_max_tracking_error p = Fin e" "0 \<le> e"
    using im_damping_finite [OF assms(1-3)] p i unfolding gains_ok_def by (meson isfinite_iff vfiniteD)
  then show ?thesis using assms(4) by (simp add: im_spring_def)
qed

lemma im_hold_gravity:
  assumes hold: "im_holding m fb (Fin dt)" and p: "gains_ok (im_get_params m)" and sp: "im_speed_scale m = Fin sp" "0 \<le> sp"
    and dt: "0 \<le> dt" and q: "vfinite (fb_q fb)" and rest: "fb_qd fb = vzero"
    and c: "\<And>i. i < 7 \<Longrightarrow> vnth (im_continuous m) i \<Longrightarrow> in_pi (dval (vnth (fb_q fb) i))"
    and M: "model_finite_at (im_dyn m) (fb_q fb)" and el: "isfinite (im_ramp_elapsed m)"
    and g: "\<And>i. i < 7 \<Longrightarrow> \<exists>t l. vnth (dyn_gravity (im_dyn m) (fb_q fb)) i = Fin t \<and>
      vnth (ip_torque_limit (im_get_params m)) i = Fin l \<and> \<bar>t\<bar> \<le> l"
  shows "\<exists>m'. im_compute L m fb (Fin dt) out = Some (m', out\<lparr>jc_mode := AmTorque,
      jc_torque := dyn_gravity (im_dyn m) (fb_q fb), jc_position := fb_q fb\<rparr>) \<and> im_q_d m' = fb_q fb"
proof -
  obtain stale wd where w: "wd_tick (im_wd m) (Fin dt) = (stale, wd)" by fastforce
  let ?m1 = "im_freeze stale (wd_fresh wd) fb (m\<lparr>im_wd := wd\<rparr>)" and ?p = "im_get_params m"
  have h: "im_frozen ?m1 \<or> im_source ?m1 = IsEntryHold" "im_q_d ?m1 = fb_q fb"
    using hold w by (simp_all add: im_holding_def Let_def)
  obtain m2 where m2: "im_resolve L ?p ?m1 = (m2, None, None)" "im_q_d m2 = fb_q fb" "im_dyn m2 = im_dyn m"
    "im_ramp_elapsed m2 = im_ramp_elapsed m"
    using im_resolve_hold [OF h(1)] h(2) by fastforce
  have cont: "im_continuous m2 = im_continuous m" by (simp add: im_continuous_def m2(3))
  have lim: "im_rate_limit ?p (im_continuous m) (Fin sp) (Fin dt) (fb_q fb) (fb_q fb) = Some (fb_q fb)"
    using p sp(2) dt q by (intro im_rate_limit_hold) (auto simp: gains_ok_def)
  have wr: "vgenM (\<lambda>i. wrap_if (vnth (im_continuous m) i) (vnth (fb_q fb) i)) = Some (fb_q fb)"
    unfolding vgenM_Some_iff
  proof (intro allI impI)
    fix i :: nat assume i: "i < 7"
    obtain x where "vnth (fb_q fb) i = Fin x" using vfiniteD [OF q i] by blast
    then show "wrap_if (vnth (im_continuous m) i) (vnth (fb_q fb) i) = Some (vnth (fb_q fb) i)"
      using c [OF i] by (cases "vnth (im_continuous m) i") simp_all
  qed
  have er: "vgenM (\<lambda>i. wrap_if (vnth (im_continuous m) i) (vnth (fb_q fb) i - vnth (fb_q fb) i)) = Some vzero"
    unfolding vgenM_Some_iff
  proof (intro allI impI)
    fix i :: nat assume i: "i < 7"
    obtain x where "vnth (fb_q fb) i = Fin x" using vfiniteD [OF q i] by blast
    then show "wrap_if (vnth (im_continuous m) i) (vnth (fb_q fb) i - vnth (fb_q fb) i) = Some (vnth vzero i)"
      by (cases "vnth (im_continuous m) i") (simp_all add: in_pi_def)
  qed
  let ?g = "dyn_gravity (im_dyn m) (fb_q fb)" and ?M = "dyn_mass_matrix (im_dyn m) (fb_q fb)"
  obtain r where r: "im_ramp ?p (im_ramp_elapsed m) = Fin r" using im_ramp_finite [OF p el] by blast
  have "?g + vscale (Fin r) (vgen (\<lambda>i. im_spring ?p ?M fb vzero i (Fin 0))) = ?g"
  proof (rule vec7_eqI)
    fix i :: nat assume i: "i < 7"
    have "im_spring ?p ?M fb vzero i (Fin 0) = Fin 0"
      using im_spring_rest [OF p _ i rest, of ?M] M by (simp add: model_finite_at_def)
    then show "vnth (?g + vscale (Fin r) (vgen (\<lambda>i. im_spring ?p ?M fb vzero i (Fin 0)))) i = vnth ?g i"
      using i g [OF i] by auto
  qed
  then have tau: "clamp_torque (ip_torque_limit ?p) (?g + vscale (Fin r) (vgen (\<lambda>i. im_spring ?p ?M fb vzero i (Fin 0)))) = ?g"
    using clamp_torque_id [of ?g "ip_torque_limit ?p"] g by simp
  show ?thesis
    using m2 lim wr er r tau sp(1) h(2)
    by (simp add: im_compute_def w cont im_ref_velocity_def)
qed

text \<open>
  An impedance cycle that holds -- frozen by a stale stream, or entered and still waiting
  for its first target -- commands, for an arm at rest, exactly the gravity torque of the measured
  configuration, provided that torque is within the limits: the spring neither pushes nor sags,
  whatever target, gains or ramp state there is.
\<close>

theorem im_hold_is_gravity:
  assumes hold: "im_holding m fb (Fin dt)" and p: "gains_ok (im_get_params m)" and sp: "im_speed_scale m = Fin sp" "0 \<le> sp"
    and dt: "0 \<le> dt" and q: "vfinite (fb_q fb)" and rest: "fb_qd fb = vzero"
    and c: "\<And>i. i < 7 \<Longrightarrow> vnth (im_continuous m) i \<Longrightarrow> in_pi (dval (vnth (fb_q fb) i))"
    and M: "model_finite_at (im_dyn m) (fb_q fb)" and el: "isfinite (im_ramp_elapsed m)"
    and g: "\<And>i. i < 7 \<Longrightarrow> \<exists>t l. vnth (dyn_gravity (im_dyn m) (fb_q fb)) i = Fin t \<and>
      vnth (ip_torque_limit (im_get_params m)) i = Fin l \<and> \<bar>t\<bar> \<le> l"
  shows "\<exists>m'. im_compute L m fb (Fin dt) out = Some (m', out\<lparr>jc_mode := AmTorque,
      jc_torque := dyn_gravity (im_dyn m) (fb_q fb), jc_position := fb_q fb\<rparr>) \<and> im_q_d m' = fb_q fb"
  by (rule im_hold_gravity [OF assms])

text \<open>The hypotheses are met by an arm that has just entered the mode.\<close>

definition demo_impedance_mode :: impedance_mode where
  "demo_impedance_mode = im_on_enter (im_init demo_dynamics impedance_params0) joint_feedback0"

lemma demo_impedance_simps:
  "im_get_params demo_impedance_mode = seed_impedance_limits demo_dynamics impedance_params0"
  "im_speed_scale demo_impedance_mode = Fin 1" "im_dyn demo_impedance_mode = demo_dynamics"
  "im_q_d demo_impedance_mode = vzero" "im_ramp_elapsed demo_impedance_mode = Fin 0"
  "im_source demo_impedance_mode = IsEntryHold" "im_frozen demo_impedance_mode = False"
  "im_wd demo_impedance_mode = wd_reset (wd_arm watchdog0 (Fin 0))"
  by (simp_all add: demo_impedance_mode_def im_on_enter_def im_init_def Let_def im_get_params_def
      joint_feedback0_def seed_impedance_limits_def impedance_params0_def)

lemma demo_gains_ok: "gains_ok (seed_impedance_limits demo_dynamics impedance_params0)"
proof -
  have "\<exists>l. vnth default_torque_limit i = Fin l \<and> 0 \<le> l" if "i < 7" for i
    using that by (elim less_7_cases) (simp_all add: default_torque_limit_def)
  moreover have "vfinite (ip_Kq impedance_params0)"
    by (auto simp: vfinite_iff impedance_params0_def elim!: less_7_cases)
  moreover have "\<exists>s. Fin (6/5) = Fin s \<and> (0::real) \<le> s" by (rule exI [of _ "6/5"]) simp
  ultimately show ?thesis
    by (simp add: gains_ok_def seed_impedance_limits_def impedance_params0_def seed_vec_def demo_dynamics_def)
      (rule exI [of _ "35/100"], simp)
qed

lemma demo_model_finite: "model_finite_at demo_dynamics q"
  by (simp add: model_finite_at_def demo_dynamics_def)

theorem im_hold_is_gravity_witness:
  "\<exists>m'. im_compute demo_eigen demo_impedance_mode joint_feedback0 (Fin (1/1000)) joint_command0 =
     Some (m', joint_command0\<lparr>jc_mode := AmTorque, jc_torque := vzero, jc_position := vzero\<rparr>)"
proof -
  have h: "im_holding demo_impedance_mode joint_feedback0 (Fin (1/1000))"
    by (simp add: im_holding_def demo_impedance_simps im_freeze_def wd_defs watchdog0_def joint_feedback0_def)
  have p: "gains_ok (im_get_params demo_impedance_mode)" by (simp add: demo_impedance_simps demo_gains_ok)
  have f: "vfinite (fb_q joint_feedback0)" "fb_qd joint_feedback0 = vzero" "fb_q joint_feedback0 = vzero"
    by (simp_all add: joint_feedback0_def)
  have M: "model_finite_at (im_dyn demo_impedance_mode) (fb_q joint_feedback0)"
    by (simp add: demo_impedance_simps demo_model_finite)
  have el: "isfinite (im_ramp_elapsed demo_impedance_mode)" by (simp add: demo_impedance_simps)
  have g0: "dyn_gravity (im_dyn demo_impedance_mode) vzero = vzero" by (simp add: demo_impedance_simps demo_dynamics_def)
  have l: "\<exists>l. vnth (ip_torque_limit (im_get_params demo_impedance_mode)) i = Fin l \<and> 0 \<le> l" if "i < 7" for i
    using p that by (simp add: gains_ok_def)
  show ?thesis
    using im_hold_is_gravity [OF h p demo_impedance_simps(2) _ _ f(1,2) _ M el, of demo_eigen joint_command0] f(3) g0 l
    by (auto simp: in_pi_def)
qed

subsection \<open>Bounded torque\<close>

lemma vsum_finite: "vfinite v \<Longrightarrow> isfinite (vsum v)"
  by (cases v) (auto simp: vsum_def vfinite_iff all_less_7)

lemma mat_vec_finite:
  assumes "\<forall>i < 7. vfinite (vnth M i)" and "vfinite v" and "i < 7"
  shows "isfinite (vnth (mat_vec M v) i)"
proof -
  have "vfinite (vgen (\<lambda>j. vnth (vnth M i) j * vnth v j))"
    using assms by (simp add: vfinite_iff)
  then show ?thesis using assms(3) by (simp add: mat_vec_def vsum_finite)
qed

lemma wrap_vec_finite:
  assumes "\<And>i. i < 7 \<Longrightarrow> isfinite (f i)"
  shows "\<exists>v. vgenM (\<lambda>i. wrap_if (vnth c i) (f i)) = Some v \<and> vfinite v"
proof -
  have "\<exists>y. wrap_if (vnth c i) (f i) = Some y" if "i < 7" for i
    using wrap_if_finite [OF assms [OF that]] by blast
  then obtain v where v: "vgenM (\<lambda>i. wrap_if (vnth c i) (f i)) = Some v"
    using vgenM_SomeI [of "\<lambda>i. wrap_if (vnth c i) (f i)"] by blast
  then have "vfinite v" using assms by (auto simp: vgenM_Some_iff vfinite_iff dest: wrap_if_SomeD)
  with v show ?thesis by blast
qed

lemma sclamp_sym_finite: "isfinite x \<Longrightarrow> isfinite a \<Longrightarrow> isfinite (sclamp x (- a) a)"
  by (intro sclamp_finite) auto

lemma im_rate_limit_finite:
  assumes p: "gains_ok p" and "vfinite a" and "vfinite b"
  shows "\<exists>v. im_rate_limit p c (Fin sp) (Fin dt) a b = Some v \<and> vfinite v"
proof -
  let ?ms = "\<lambda>i. Fin sp * vnth (ip_max_ref_speed p) i * Fin dt"
  let ?f = "\<lambda>i. do { step \<leftarrow> wrap_if (vnth c i) (vnth b i - vnth a i); Some (vnth a i + sclamp step (- ?ms i) (?ms i)) }"
  have one: "\<exists>y. ?f i = Some y \<and> isfinite y" if i: "i < 7" for i
  proof -
    obtain s where "vnth (ip_max_ref_speed p) i = Fin s" using p i by (auto simp: gains_ok_def)
    moreover obtain x where "wrap_if (vnth c i) (vnth b i - vnth a i) = Some (Fin x)"
      using wrap_if_finite [of "vnth b i - vnth a i"] assms(2,3) i by (meson isfinite_arith(3) vfiniteD)
    ultimately show ?thesis using vfiniteD [OF assms(2) i] sclamp_sym_finite [of "Fin x" "?ms i"] by simp
  qed
  then obtain v where v: "vgenM ?f = Some v" using vgenM_SomeI [of ?f] by blast
  then have "vfinite v" using one by (fastforce simp: vgenM_Some_iff vfinite_iff)
  with v show ?thesis by (simp add: im_rate_limit_def Let_def)
qed

lemma im_ref_velocity_finite:
  assumes p: "gains_ok p" and "\<And>v. ff = Some v \<Longrightarrow> vfinite v"
  shows "vfinite (im_ref_velocity p (Fin sp) ff)"
proof (cases ff)
  case (Some v)
  have "isfinite (vnth (im_ref_velocity p (Fin sp) ff) i)" if i: "i < 7" for i
  proof -
    obtain s where "vnth (ip_max_ref_speed p) i = Fin s" using p i by (auto simp: gains_ok_def)
    then show ?thesis using vfiniteD [OF assms(2) [OF Some] i] Some i by (auto simp: im_ref_velocity_def isfinite_iff)
  qed
  then show ?thesis by (simp add: vfinite_iff)
qed (simp add: im_ref_velocity_def)

text \<open>The target a cycle may resolve to: a published joint target, finite with its profile.\<close>

definition target_finite :: "joint_target \<Rightarrow> bool" where
  "target_finite t \<longleftrightarrow> vfinite (jt_q t) \<and> vfinite (jt_qd t) \<and> vfinite (jt_qdd t)"

lemma im_resolve_finite:
  assumes "im_source m \<noteq> IsPose" and "target_finite (dbuf_read (im_ext_joint m))" and "vfinite (im_q_d m)"
  shows "\<exists>m2 fv fa. im_resolve L p m = (m2, fv, fa) \<and> vfinite (im_q_d m2) \<and> im_dyn m2 = im_dyn m \<and>
    im_ramp_elapsed m2 = im_ramp_elapsed m \<and> (\<forall>v. fv = Some v \<longrightarrow> vfinite v) \<and> (\<forall>v. fa = Some v \<longrightarrow> vfinite v)"
  using assms by (cases "im_source m") (auto simp: im_resolve_def target_finite_def Let_def)

text \<open>
  Claim C36. An impedance cycle on a joint target is bounded: with a finite target (its profile
  included), state, feedback and model, \<open>compute\<close> returns, leaves a finite reference for the next
  cycle, and every joint's torque -- gravity, spring, damper and inertial feedforward together -- is
  finite and within its torque limit.
\<close>

theorem im_compute_bounded:
  assumes src: "im_source m \<noteq> IsPose" and t: "target_finite (dbuf_read (im_ext_joint m))"
    and p: "gains_ok (im_get_params m)" and sp: "im_speed_scale m = Fin sp" and qd: "vfinite (im_q_d m)"
    and fb: "vfinite (fb_q fb)" "vfinite (fb_qd fb)"
    and M: "model_finite_at (im_dyn m) (fb_q fb)" and el: "isfinite (im_ramp_elapsed m)"
  shows "\<exists>m' out'. im_compute L m fb (Fin dt) out = Some (m', out') \<and> jc_mode out' = AmTorque \<and>
    jc_position out' = fb_q fb \<and> vfinite (im_q_d m') \<and> isfinite (im_ramp_elapsed m') \<and>
    (\<forall>i < 7. \<exists>u l. vnth (jc_torque out') i = Fin u \<and> vnth (ip_torque_limit (im_get_params m)) i = Fin l \<and> \<bar>u\<bar> \<le> l)"
proof -
  obtain stale wd where w: "wd_tick (im_wd m) (Fin dt) = (stale, wd)" by fastforce
  let ?m1 = "im_freeze stale (wd_fresh wd) fb (m\<lparr>im_wd := wd\<rparr>)" and ?p = "im_get_params m"
  have q1: "vfinite (im_q_d ?m1)" "im_ext_joint ?m1 = im_ext_joint m"
    using qd fb by (simp_all add: im_freeze_def Let_def)
  obtain m2 fv fa where m2: "im_resolve L ?p ?m1 = (m2, fv, fa)" "vfinite (im_q_d m2)" "im_dyn m2 = im_dyn m"
    "im_ramp_elapsed m2 = im_ramp_elapsed m" "\<forall>v. fv = Some v \<longrightarrow> vfinite v" "\<forall>v. fa = Some v \<longrightarrow> vfinite v"
    using im_resolve_finite [of ?m1 L ?p] src t q1 by auto
  have cont: "im_continuous m2 = im_continuous m" by (simp add: im_continuous_def m2(3))
  obtain ql where ql: "im_rate_limit ?p (im_continuous m) (Fin sp) (Fin dt) (im_q_d ?m1) (im_q_d m2) = Some ql" "vfinite ql"
    using im_rate_limit_finite [OF p q1(1) m2(2)] by blast
  obtain q' where q': "vgenM (\<lambda>i. wrap_if (vnth (im_continuous m) i) (vnth ql i)) = Some q'" "vfinite q'"
    using wrap_vec_finite [of "vnth ql" "im_continuous m"] vfiniteD [OF ql(2)] by blast
  obtain er where er: "vgenM (\<lambda>i. wrap_if (vnth (im_continuous m) i) (vnth q' i - vnth (fb_q fb) i)) = Some er" "vfinite er"
    using wrap_vec_finite [of "\<lambda>i. vnth q' i - vnth (fb_q fb) i" "im_continuous m"] vfiniteD [OF q'(2)] vfiniteD [OF fb(1)] by auto
  define v where "v = im_ref_velocity ?p (Fin sp) fv"
  have v: "vfinite v" using im_ref_velocity_finite [OF p] m2(5) by (simp add: v_def)
  let ?g = "dyn_gravity (im_dyn m) (fb_q fb)" and ?M = "dyn_mass_matrix (im_dyn m) (fb_q fb)"
  have MM: "vfinite ?g" "\<forall>i < 7. vfinite (vnth ?M i)" using M by (simp_all add: model_finite_at_def)
  define t0 where "t0 = vgen (\<lambda>i. im_spring ?p ?M fb v i (vnth er i))"
  have t0: "vfinite t0"
    using im_spring_finite [OF p MM(2) _ fb(2) v] er(2) by (auto simp: t0_def vfinite_iff)
  define t1 where "t1 = (case fa of None \<Rightarrow> t0 | Some a \<Rightarrow> t0 + mat_vec ?M a)"
  have t1: "vfinite t1"
    using t0 m2(6) mat_vec_finite [OF MM(2)] by (auto simp: t1_def vfinite_iff split: option.splits)
  have tot: "vfinite (?g + vscale (im_ramp ?p (im_ramp_elapsed m)) t1)"
    using MM(1) t1 im_ramp_finite [OF p el] by (auto simp: vfinite_iff)
  let ?tau = "clamp_torque (ip_torque_limit ?p) (?g + vscale (im_ramp ?p (im_ramp_elapsed m)) t1)"
  have bound: "\<exists>u l. vnth ?tau i = Fin u \<and> vnth (ip_torque_limit ?p) i = Fin l \<and> \<bar>u\<bar> \<le> l" if i: "i < 7" for i
  proof -
    obtain l where l: "vnth (ip_torque_limit ?p) i = Fin l" "0 \<le> l" using p i by (auto simp: gains_ok_def)
    show ?thesis using clamp_torque_bounded [OF i l] vfiniteD [OF tot i] l(1) by fastforce
  qed
  have "im_compute L m fb (Fin dt) out = Some (m2\<lparr>im_q_d := q', im_qd_ref := v, im_Dq_last := vgen (im_damping ?p ?M),
      im_ramp_elapsed := im_ramp_elapsed m + Fin dt\<rparr>, out\<lparr>jc_mode := AmTorque, jc_torque := ?tau, jc_position := fb_q fb\<rparr>)"
    using m2 ql(1) q'(1) er(1) sp by (cases fa) (simp_all add: im_compute_def w cont Let_def v_def t0_def t1_def)
  then show ?thesis using bound q'(2) el by simp
qed

theorem im_compute_bounded_witness:
  "\<exists>m' out'. im_compute demo_eigen (im_set_joint_target demo_impedance_mode (position_target (vconst (Fin 40))))
       joint_feedback0 (Fin (1/1000)) joint_command0 = Some (m', out') \<and> vfinite (im_q_d m')"
proof -
  let ?m = "im_set_joint_target demo_impedance_mode (position_target (vconst (Fin 40)))"
  have m: "im_source ?m \<noteq> IsPose" "target_finite (dbuf_read (im_ext_joint ?m))" "gains_ok (im_get_params ?m)"
    "im_speed_scale ?m = Fin 1" "vfinite (im_q_d ?m)" "model_finite_at (im_dyn ?m) q" "isfinite (im_ramp_elapsed ?m)" for q
    using demo_gains_ok demo_impedance_simps(1)
    by (simp_all add: im_set_joint_target_def im_get_params_def demo_impedance_simps demo_model_finite
        target_finite_def position_target_def joint_target0_def)
  have f: "vfinite (fb_q joint_feedback0)" "vfinite (fb_qd joint_feedback0)" by (simp_all add: joint_feedback0_def)
  from im_compute_bounded [OF m(1-5) f m(6,7), of demo_eigen "1/1000" joint_command0] show ?thesis by blast
qed

end
