(* ===== verification/Cartesian_Mode.thy ===== *)
theory Cartesian_Mode
  imports Impedance_Mode
begin

section \<open>Cartesian impedance mode\<close>

text \<open>
  \<open>CartesianImpedanceMode\<close> (\<open>cartesian_impedance_mode.h\<close>, \<open>.cpp\<close>): a task-space spring with a
  null-space posture term and an optional climb of the manipulability. Gains and the external target
  are two-slot buffers. Eigen's determinant is a further parameter. \<open>None\<close>: folding a posture
  difference does not return.
\<close>

subsection \<open>State\<close>

record cart_params =
  cp_Kx :: vector6
  cp_Dx :: vector6
  cp_nullspace_kp :: dbl
  cp_nullspace_kd :: dbl
  cp_nullspace_on :: bool
  cp_use_fixed_rest :: bool
  cp_nullspace_q_rest :: jointvec
  cp_manip_on :: bool
  cp_manip_gain :: dbl
  cp_manip_fd_step :: dbl
  cp_pinv_damping :: dbl
  cp_torque_limit :: dbl
  cp_gain_ramp_s :: dbl

definition cart_params0 :: cart_params where
  "cart_params0 = \<lparr>cp_Kx = V6 (Fin 300) (Fin 300) (Fin 300) (Fin 30) (Fin 30) (Fin 30),
     cp_Dx = V6 (Fin 35) (Fin 35) (Fin 35) (Fin 5) (Fin 5) (Fin 5), cp_nullspace_kp = Fin 0, cp_nullspace_kd = Fin 8,
     cp_nullspace_on = True, cp_use_fixed_rest = False,
     cp_nullspace_q_rest = V7 (Fin 0) (Fin (26/100)) (Fin (314/100)) (Fin (-227/100)) (Fin 0) (Fin (96/100)) (Fin (157/100)),
     cp_manip_on = False, cp_manip_gain = Fin 0, cp_manip_fd_step = Fin (1/10000), cp_pinv_damping = Fin (1/1000),
     cp_torque_limit = Fin 39, cp_gain_ramp_s = Fin (1/10)\<rparr>"

record cart_mode =
  ca_dyn :: dynamics
  ca_gains :: "cart_params dbuf"
  ca_ext_target :: "pose dbuf"
  ca_has_ext :: bool
  ca_entry_pose :: pose
  ca_q_rest :: jointvec
  ca_continuous :: "bool vec7"
  ca_ramp_elapsed :: dbl

definition ca_init :: "dynamics \<Rightarrow> cart_params \<Rightarrow> cart_mode" where
  "ca_init dyn p = \<lparr>ca_dyn = dyn, ca_gains = dbuf_init p, ca_ext_target = dbuf_init pose0, ca_has_ext = False,
     ca_entry_pose = pose0, ca_q_rest = vzero,
     ca_continuous = continuous_joints (dyn_q_lower dyn) (dyn_q_upper dyn), ca_ramp_elapsed = Fin 0\<rparr>"

definition ca_required_modes :: actuator_modes where
  "ca_required_modes = modes_fill AmTorque"

definition ca_params :: "cart_mode \<Rightarrow> cart_params" where
  "ca_params m = dbuf_read (ca_gains m)"

definition ca_set_gains :: "cart_params \<Rightarrow> cart_mode \<Rightarrow> cart_mode" where
  "ca_set_gains p m = m\<lparr>ca_gains := dbuf_publish (ca_gains m) p\<rparr>"

definition ca_set_target :: "pose \<Rightarrow> cart_mode \<Rightarrow> cart_mode" where
  "ca_set_target x m = m\<lparr>ca_ext_target := dbuf_publish (ca_ext_target m) x, ca_has_ext := True\<rparr>"

definition ca_on_enter :: "joint_feedback \<Rightarrow> cart_mode \<Rightarrow> cart_mode" where
  "ca_on_enter fb m =
     (let p = ca_params m
      in m\<lparr>ca_entry_pose := dyn_fk (ca_dyn m) (fb_q fb),
           ca_q_rest := (if cp_use_fixed_rest p then cp_nullspace_q_rest p else fb_q fb),
           ca_has_ext := False, ca_ramp_elapsed := Fin 0\<rparr>)"

subsection \<open>The cycle\<close>

definition ca_target :: "cart_mode \<Rightarrow> pose" where
  "ca_target m = (if ca_has_ext m then dbuf_read (ca_ext_target m) else ca_entry_pose m)"

text \<open>\<open>Kx * e - Dx * xd\<close>, component by component.\<close>

definition ca_wrench :: "eigen \<Rightarrow> cart_mode \<Rightarrow> joint_feedback \<Rightarrow> vector6" where
  "ca_wrench L m fb =
     (let p = ca_params m; dyn = ca_dyn m;
          xd = jac_vec (dyn_jacobian dyn (fb_q fb)) (fb_qd fb);
          e = pose_error L (ca_target m) (dyn_fk dyn (fb_q fb))
      in vgen6 (\<lambda>r. vnth6 (cp_Kx p) r * vnth6 e r - vnth6 (cp_Dx p) r * vnth6 xd r))"

text \<open>The projector \<open>I - J^T (J J^T + damping^2 I)^-1 J\<close>.\<close>

definition ca_projector :: "eigen \<Rightarrow> jacobian6 \<Rightarrow> dbl \<Rightarrow> jointmat" where
  "ca_projector L J damping =
     (let P = ldlt_solve_jac L (damped_jjt J damping) J
      in vgen (\<lambda>i. vgen (\<lambda>j. (if i = j then Fin 1 else Fin 0) - vnth (jac_tr_vec J (jac_col P j)) i)))"

definition ca_manipulability :: "(mat66 \<Rightarrow> dbl) \<Rightarrow> jacobian6 \<Rightarrow> dbl" where
  "ca_manipulability det J = dsqrt (smax (Fin 0) (det (jac_jac_tr J)))"

definition ca_manip_torque :: "(mat66 \<Rightarrow> dbl) \<Rightarrow> cart_mode \<Rightarrow> joint_feedback \<Rightarrow> nat \<Rightarrow> dbl" where
  "ca_manip_torque det m fb i =
     (let p = ca_params m; dyn = ca_dyn m;
          w0 = ca_manipulability det (dyn_jacobian dyn (fb_q fb));
          qp = vupd (fb_q fb) i (vnth (fb_q fb) i + cp_manip_fd_step p);
          wi = ca_manipulability det (dyn_jacobian dyn qp)
      in cp_manip_gain p * (wi - w0) * (Fin 1 / cp_manip_fd_step p))"

definition ca_posture_torque :: "(mat66 \<Rightarrow> dbl) \<Rightarrow> cart_mode \<Rightarrow> joint_feedback \<Rightarrow> jointvec option" where
  "ca_posture_torque det m fb =
     (let p = ca_params m in do {
        dq \<leftarrow> vgenM (\<lambda>i. wrap_if (vnth (ca_continuous m) i) (vnth (ca_q_rest m) i - vnth (fb_q fb) i));
        let tau0 = vscale (cp_nullspace_kp p) dq - vscale (cp_nullspace_kd p) (fb_qd fb);
        Some (if cp_manip_on p then vgen (\<lambda>i. vnth tau0 i + ca_manip_torque det m fb i) else tau0) })"

text \<open>\<open>tau_active\<close>: the task torque and the projected posture torque.\<close>

definition ca_active :: "eigen \<Rightarrow> (mat66 \<Rightarrow> dbl) \<Rightarrow> cart_mode \<Rightarrow> joint_feedback \<Rightarrow> jointvec option" where
  "ca_active L det m fb =
     (let p = ca_params m; J = dyn_jacobian (ca_dyn m) (fb_q fb);
          task = jac_tr_vec J (ca_wrench L m fb)
      in if cp_nullspace_on p
         then do { tau0 \<leftarrow> ca_posture_torque det m fb; Some (task + mat_vec (ca_projector L J (cp_pinv_damping p)) tau0) }
         else Some task)"

definition ca_ramp :: "cart_params \<Rightarrow> dbl \<Rightarrow> dbl" where
  "ca_ramp p elapsed = (if cp_gain_ramp_s p \<le> Fin 0 then Fin 1 else smin (Fin 1) (elapsed / cp_gain_ramp_s p))"

definition ca_compute :: "eigen \<Rightarrow> (mat66 \<Rightarrow> dbl) \<Rightarrow> cart_mode \<Rightarrow> joint_feedback \<Rightarrow> dbl \<Rightarrow> joint_command
    \<Rightarrow> (cart_mode \<times> joint_command) option" where
  "ca_compute L det m fb dt_s out =
     (let p = ca_params m; limit = cp_torque_limit p in do {
        active \<leftarrow> ca_active L det m fb;
        let tau = dyn_gravity (ca_dyn m) (fb_q fb) + vscale (ca_ramp p (ca_ramp_elapsed m)) active;
        Some (m\<lparr>ca_ramp_elapsed := ca_ramp_elapsed m + dt_s\<rparr>,
              out\<lparr>jc_mode := AmTorque, jc_torque := vgen (\<lambda>i. sclamp (vnth tau i) (- limit) limit),
                  jc_position := fb_q fb\<rparr>) })"

subsection \<open>Gravity first\<close>

text \<open>What other threads may do to the mode between its entry and its first cycle.\<close>

datatype cart_write = CwTarget pose | CwGains cart_params

definition ca_write :: "cart_write \<Rightarrow> cart_mode \<Rightarrow> cart_mode" where
  "ca_write w = (case w of CwTarget x \<Rightarrow> ca_set_target x | CwGains p \<Rightarrow> ca_set_gains p)"

lemma ca_write_keeps [simp]:
  "ca_ramp_elapsed (ca_write w m) = ca_ramp_elapsed m" "ca_dyn (ca_write w m) = ca_dyn m"
  "ca_continuous (ca_write w m) = ca_continuous m"
  by (simp_all add: ca_write_def ca_set_target_def ca_set_gains_def split: cart_write.split)

lemma ca_writes_keep [simp]:
  "ca_ramp_elapsed (fold ca_write ws m) = ca_ramp_elapsed m" "ca_dyn (fold ca_write ws m) = ca_dyn m"
  by (induction ws arbitrary: m) simp_all

lemma ca_on_enter_simps [simp]: "ca_ramp_elapsed (ca_on_enter fb m) = Fin 0" "ca_dyn (ca_on_enter fb m) = ca_dyn m"
  by (simp_all add: ca_on_enter_def Let_def)

text \<open>
  Claim C13. No kick on entry. Between \<open>on_enter\<close> and the first cycle any targets and gains may arrive,
  however far the target. If the gains ramp in, and the impedance torque the law computes from them
  (\<open>ca_active\<close>) exists, the first command is, joint by joint, exactly the gravity torque of the measured
  configuration where that impedance torque is finite, and not a number where it is not (a target or a
  gain that is not finite): so it is the gravity torque of the whole arm as soon as the impedance torque
  is finite. Gravity itself is assumed within the torque limit.
\<close>

theorem cart_starts_at_gravity:
  assumes m: "m = fold ca_write ws (ca_on_enter fb0 m0)" and active: "ca_active L det m fb = Some active"
    and ramp: "cp_gain_ramp_s (ca_params m) = Fin r" "0 < r" and limit: "cp_torque_limit (ca_params m) = Fin l"
    and gravity: "\<And>i. i < 7 \<Longrightarrow> \<exists>g. vnth (dyn_gravity (ca_dyn m0) (fb_q fb)) i = Fin g \<and> \<bar>g\<bar> \<le> l"
  shows "\<exists>m' t. ca_compute L det m fb dt out = Some (m', out\<lparr>jc_mode := AmTorque, jc_torque := t, jc_position := fb_q fb\<rparr>) \<and>
    (\<forall>i < 7. vnth t i = (if isfinite (vnth active i) then vnth (dyn_gravity (ca_dyn m0) (fb_q fb)) i else NaN)) \<and>
    (vfinite active \<longrightarrow> t = dyn_gravity (ca_dyn m0) (fb_q fb))"
proof -
  have e: "ca_ramp_elapsed m = Fin 0" "ca_dyn m = ca_dyn m0" by (simp_all add: m)
  have z: "ca_ramp (ca_params m) (Fin 0) = Fin 0" using ramp by (simp add: ca_ramp_def)
  let ?g = "dyn_gravity (ca_dyn m0) (fb_q fb)"
  let ?t = "vgen (\<lambda>i. sclamp (vnth (?g + vscale (Fin 0) active) i) (- Fin l) (Fin l))"
  have t: "vnth ?t i = (if isfinite (vnth active i) then vnth ?g i else NaN)" if i: "i < 7" for i
  proof -
    obtain g where g: "vnth ?g i = Fin g" "\<bar>g\<bar> \<le> l" using gravity [OF i] by blast
    then show ?thesis using i by (cases "vnth active i") auto
  qed
  then have "vfinite active \<longrightarrow> ?t = ?g" by (auto intro!: vec7_eqI simp: vfiniteD)
  moreover have "\<exists>m'. ca_compute L det m fb dt out = Some (m', out\<lparr>jc_mode := AmTorque, jc_torque := ?t, jc_position := fb_q fb\<rparr>)"
    by (simp add: ca_compute_def active(1) e z limit Let_def)
  ultimately show ?thesis using t by blast
qed

lemma smin_one_finite: "0 \<le> x \<Longrightarrow> 0 < r \<Longrightarrow> \<exists>t. smin (Fin 1) (Fin x / Fin r) = Fin t \<and> 0 \<le> t \<and> t \<le> 1"
  by (simp add: min_def)

lemma cart_torque_bounded:
  assumes "ca_active L det m fb = Some active" "vfinite active" "vfinite (dyn_gravity (ca_dyn m) (fb_q fb))"
    and "cp_torque_limit (ca_params m) = Fin l" "0 \<le> l" and "cp_gain_ramp_s (ca_params m) = Fin r"
    and "ca_ramp_elapsed m = Fin x" "0 \<le> x"
  shows "\<exists>m' out'. ca_compute L det m fb dt out = Some (m', out') \<and> jc_mode out' = AmTorque \<and> jc_position out' = fb_q fb \<and>
    (\<forall>i < 7. \<exists>t. vnth (jc_torque out') i = Fin t \<and> \<bar>t\<bar> \<le> l)"
proof -
  have "\<exists>t. ca_ramp (ca_params m) (Fin x) = Fin t"
    using assms(6,8) smin_one_finite [of x r] by (auto simp: ca_ramp_def)
  then obtain t where t: "ca_ramp (ca_params m) (Fin x) = Fin t" ..
  have "\<exists>u. vnth (vgen (\<lambda>i. sclamp (vnth (dyn_gravity (ca_dyn m) (fb_q fb) + vscale (Fin t) active) i) (- Fin l) (Fin l))) i = Fin u \<and> \<bar>u\<bar> \<le> l"
    if i: "i < 7" for i
  proof -
    obtain a g where "vnth active i = Fin a" "vnth (dyn_gravity (ca_dyn m) (fb_q fb)) i = Fin g"
      using vfiniteD [OF assms(2) i] vfiniteD [OF assms(3) i] by (auto simp: isfinite_iff)
    then show ?thesis using i assms(5) by auto
  qed
  then show ?thesis by (simp add: ca_compute_def assms(1,4,7) t Let_def)
qed

text \<open>
  A target that is not a number is commanded: nothing between the socket and the clamp stops it.
\<close>

lemma cart_NaN_commanded:
  assumes "ca_active L det m fb = Some active" and "vnth active i = NaN" and "i < 7"
  shows "\<exists>m' out'. ca_compute L det m fb dt out = Some (m', out') \<and> vnth (jc_torque out') i = NaN"
  using assms by (auto simp: ca_compute_def Let_def)

subsection \<open>Applied\<close>

definition demo_cart :: cart_mode where
  "demo_cart = ca_init demo_dynamics (cart_params0\<lparr>cp_nullspace_on := False\<rparr>)"

lemma demo_cart_dyn [simp]: "ca_dyn demo_cart = demo_dynamics"
  by (simp add: demo_cart_def ca_init_def)

theorem cart_starts_at_gravity_witness:
  "\<exists>m'. ca_compute demo_eigen (\<lambda>_. Fin 1) (ca_set_target (pose0\<lparr>ps_p := (Fin 9, Fin 9, Fin 9)\<rparr>) (ca_on_enter joint_feedback0 demo_cart))
     joint_feedback0 (Fin (1/1000)) joint_command0 = Some (m', joint_command0\<lparr>jc_mode := AmTorque, jc_torque := vzero, jc_position := vzero\<rparr>)"
proof -
  let ?w = "[CwTarget (pose0\<lparr>ps_p := (Fin 9, Fin 9, Fin 9)\<rparr>)]"
  let ?m = "fold ca_write ?w (ca_on_enter joint_feedback0 demo_cart)"
  have p: "ca_params ?m = cart_params0\<lparr>cp_nullspace_on := False\<rparr>"
    by (simp add: ca_write_def ca_set_target_def ca_on_enter_def demo_cart_def ca_init_def ca_params_def Let_def)
  have d: "ca_dyn ?m = demo_dynamics" by simp
  have q: "fb_q joint_feedback0 = vzero" "fb_qd joint_feedback0 = vzero" by (simp_all add: joint_feedback0_def)
  have t: "ca_target ?m = pose0\<lparr>ps_p := (Fin 9, Fin 9, Fin 9)\<rparr>"
    by (simp add: ca_target_def ca_write_def ca_set_target_def)
  have e: "pose_error demo_eigen (pose0\<lparr>ps_p := (Fin 9, Fin 9, Fin 9)\<rparr>) (dyn_fk demo_dynamics vzero) =
      V6 (Fin 9) (Fin 9) (Fin 9) (Fin 0) (Fin 0) (Fin 0)"
    by (simp add: pose_error_def demo_eigen_def demo_dynamics_def pose0_def join33_def sub3_def)
  have xd: "jac_vec (dyn_jacobian demo_dynamics vzero) vzero = V6 (Fin 0) (Fin 0) (Fin 0) (Fin 0) (Fin 0) (Fin 0)"
    by (simp add: jac_vec_def vgen6_def dot7_def demo_dynamics_def vsum_def vgen_def vnth6_def vupd_def vconst_def)
  have w: "ca_wrench demo_eigen ?m joint_feedback0 = V6 (Fin 2700) (Fin 2700) (Fin 2700) (Fin 0) (Fin 0) (Fin 0)"
    unfolding ca_wrench_def Let_def p d q t e xd by (simp add: vgen6_def vnth6_def cart_params0_def)
  have "vfinite (jac_tr_vec (dyn_jacobian demo_dynamics (fb_q joint_feedback0)) (ca_wrench demo_eigen ?m joint_feedback0))"
    unfolding w by (auto simp: vfinite_iff all_less_7 jac_tr_vec_def demo_dynamics_def vnth6_def)
  then obtain a where a: "ca_active demo_eigen (\<lambda>_. Fin 1) ?m joint_feedback0 = Some a" "vfinite a"
    unfolding ca_active_def Let_def p d by simp
  have "\<exists>g. vnth (dyn_gravity (ca_dyn demo_cart) (fb_q joint_feedback0)) i = Fin g \<and> \<bar>g\<bar> \<le> 39" for i
    by (simp add: demo_cart_def ca_init_def demo_dynamics_def)
  then show ?thesis
    using cart_starts_at_gravity [OF refl a(1), of "1/10" 39 "Fin (1/1000)" joint_command0] a(2) p
    by (auto simp add: cart_params0_def ca_write_def demo_cart_def ca_init_def demo_dynamics_def joint_feedback0_def)
qed

end
