(* ===== verification/Position_Mode.thy ===== *)
theory Position_Mode
  imports Diff_Ik Watchdog
begin

section \<open>The joint-position mode\<close>

text \<open>
  \<open>JointPositionMode\<close> (\<open>joint_position_mode.h\<close> and \<open>.cpp\<close>): parameters and their seeding from
  the URDF, the target setters, \<open>on_enter\<close> and the control law \<open>compute\<close>. The mode's members are
  a record; the setters' double buffers are the \<open>dbuf\<close> of the prelude. \<open>compute\<close> is an option:
  \<open>None\<close> is a cycle that never returns (an infinite angle on a continuous joint).
\<close>

subsection \<open>Parameters\<close>

record position_params =
  pp_max_ref_speed :: jointvec
  pp_max_following_error :: dbl
  pp_q_lower :: jointvec
  pp_q_upper :: jointvec
  pp_cmd_timeout_s :: dbl
  pp_ik_fault_s :: dbl
  pp_ik :: diff_ik_params

definition position_params0 :: position_params where
  "position_params0 = \<lparr>pp_max_ref_speed = vconst (Fin (1/2)), pp_max_following_error = Fin (35/100),
     pp_q_lower = vconst NInf, pp_q_upper = vconst PInf, pp_cmd_timeout_s = Fin 0,
     pp_ik_fault_s = Fin (1/10), pp_ik = diff_ik_params0\<rparr>"

text \<open>Non-finite entries take the URDF's value; a speed is clamped into [0, URDF].\<close>

definition seed_position_limits :: "dynamics \<Rightarrow> position_params \<Rightarrow> position_params" where
  "seed_position_limits dyn p =
     p\<lparr>pp_q_lower := seed_vec (dyn_q_lower dyn) (pp_q_lower p),
       pp_q_upper := seed_vec (dyn_q_upper dyn) (pp_q_upper p),
       pp_max_ref_speed := seed_speed (dyn_v_max dyn) (pp_max_ref_speed p),
       pp_ik := (pp_ik p)\<lparr>ik_q_lower := seed_vec (dyn_q_lower dyn) (ik_q_lower (pp_ik p)),
                         ik_q_upper := seed_vec (dyn_q_upper dyn) (ik_q_upper (pp_ik p))\<rparr>\<rparr>"

subsection \<open>The mode's state\<close>

datatype pm_source = PsEntry | PsPose | PsJoint

record position_mode =
  pm_dyn :: dynamics
  pm_params :: "position_params dbuf"
  pm_entry_q :: jointvec
  pm_ext_target :: "jointvec dbuf"
  pm_pose_target :: "pose dbuf"
  pm_source :: pm_source
  pm_wd :: watchdog
  pm_speed_scale :: dbl
  pm_q_ref :: jointvec
  pm_solver_params :: diff_ik_params
  pm_last_ik :: ik_result
  pm_ik_bad_s :: dbl
  pm_ik_faulted :: bool
  pm_ik_q :: jointvec
  pm_last_source :: pm_source

definition pm_continuous :: "position_mode \<Rightarrow> bool vec7" where
  "pm_continuous m = continuous_joints (dyn_q_lower (pm_dyn m)) (dyn_q_upper (pm_dyn m))"

definition pm_init :: "dynamics \<Rightarrow> position_params \<Rightarrow> position_mode" where
  "pm_init dyn p =
     (let sp = seed_position_limits dyn p
      in \<lparr>pm_dyn = dyn, pm_params = dbuf_init sp, pm_entry_q = vzero, pm_ext_target = dbuf_init vzero,
          pm_pose_target = dbuf_init pose0, pm_source = PsEntry,
          pm_wd = wd_arm watchdog0 (pp_cmd_timeout_s sp), pm_speed_scale = Fin 1, pm_q_ref = vzero,
          pm_solver_params = pp_ik sp, pm_last_ik = ik_result0, pm_ik_bad_s = Fin 0,
          pm_ik_faulted = False, pm_ik_q = vzero, pm_last_source = PsEntry\<rparr>)"

definition pm_required_modes :: actuator_modes where
  "pm_required_modes = modes_fill AmPosition"

definition pm_get_params :: "position_mode \<Rightarrow> position_params" where
  "pm_get_params m = dbuf_read (pm_params m)"

definition pm_set_params :: "position_mode \<Rightarrow> position_params \<Rightarrow> position_mode" where
  "pm_set_params m p = m\<lparr>pm_params := dbuf_publish (pm_params m) (seed_position_limits (pm_dyn m) p)\<rparr>"

definition pm_set_joint_target :: "position_mode \<Rightarrow> joint_target \<Rightarrow> position_mode" where
  "pm_set_joint_target m t =
     m\<lparr>pm_ext_target := dbuf_publish (pm_ext_target m) (jt_q t), pm_source := PsJoint, pm_wd := wd_bump (pm_wd m)\<rparr>"

definition pm_set_pose_target :: "position_mode \<Rightarrow> pose \<Rightarrow> position_mode" where
  "pm_set_pose_target m x_d =
     m\<lparr>pm_pose_target := dbuf_publish (pm_pose_target m) x_d, pm_source := PsPose, pm_wd := wd_bump (pm_wd m)\<rparr>"

definition pm_set_command_timeout :: "position_mode \<Rightarrow> dbl \<Rightarrow> position_mode" where
  "pm_set_command_timeout m s =
     m\<lparr>pm_wd := wd_arm (pm_wd m) (if Fin 0 \<le> s then s else pp_cmd_timeout_s (pm_get_params m))\<rparr>"

definition pm_set_speed_scale :: "position_mode \<Rightarrow> dbl \<Rightarrow> position_mode" where
  "pm_set_speed_scale m s = m\<lparr>pm_speed_scale := s\<rparr>"

definition pm_clear_ik_fault :: "position_mode \<Rightarrow> position_mode" where
  "pm_clear_ik_fault m = m\<lparr>pm_ik_faulted := False\<rparr>"

definition pm_on_enter :: "position_mode \<Rightarrow> joint_feedback \<Rightarrow> position_mode" where
  "pm_on_enter m fb =
     m\<lparr>pm_entry_q := fb_q fb, pm_q_ref := fb_q fb, pm_source := PsEntry, pm_last_source := PsEntry,
       pm_ik_q := fb_q fb, pm_ik_bad_s := Fin 0, pm_ik_faulted := False, pm_last_ik := ik_result0,
       pm_wd := wd_reset (pm_wd m)\<rparr>"

subsection \<open>The control law\<close>

text \<open>The IK bookkeeping of a cycle on a pose target.\<close>

definition pm_ik_account :: "position_params \<Rightarrow> dbl \<Rightarrow> ik_result \<Rightarrow> position_mode \<Rightarrow> position_mode" where
  "pm_ik_account p dt_s r m =
     (if ir_converged r then m\<lparr>pm_ik_bad_s := Fin 0\<rparr>
      else if Fin 0 < pp_ik_fault_s p
        then (let b = pm_ik_bad_s m + dt_s
              in m\<lparr>pm_ik_bad_s := b, pm_ik_faulted := (pp_ik_fault_s p \<le> b \<or> pm_ik_faulted m)\<rparr>)
      else m)"

definition pm_pose_cycle :: "eigen \<Rightarrow> position_params \<Rightarrow> joint_feedback \<Rightarrow> dbl \<Rightarrow> position_mode \<Rightarrow> jointvec \<times> position_mode" where
  "pm_pose_cycle L p fb dt_s m =
     (let m1 = (if pm_last_source m \<noteq> PsPose
                then m\<lparr>pm_ik_q := pm_q_ref m, pm_ik_bad_s := Fin 0, pm_ik_faulted := False\<rparr> else m);
          m2 = m1\<lparr>pm_last_source := PsPose, pm_solver_params := pp_ik p\<rparr>;
          (r, q) = ik_solve L (pm_dyn m2) (pm_solver_params m2) (dbuf_read (pm_pose_target m2)) (pm_ik_q m2);
          m3 = pm_ik_account p dt_s r (m2\<lparr>pm_last_ik := r, pm_ik_q := q\<rparr>)
      in (if pm_ik_faulted m3 then fb_q fb else pm_ik_q m3, m3))"

text \<open>The target of the cycle, and the state with the watchdog, freeze and IK updates.\<close>

definition pm_target :: "eigen \<Rightarrow> position_params \<Rightarrow> bool \<Rightarrow> joint_feedback \<Rightarrow> dbl \<Rightarrow> position_mode \<Rightarrow> jointvec \<times> position_mode" where
  "pm_target L p stale fb dt_s m =
     (if stale then (fb_q fb, m\<lparr>pm_last_ik := ik_result0, pm_ik_bad_s := Fin 0\<rparr>)
      else (case pm_source m of
          PsJoint \<Rightarrow> (dbuf_read (pm_ext_target m), m\<lparr>pm_last_ik := ik_result0, pm_last_source := PsJoint\<rparr>)
        | PsPose \<Rightarrow> pm_pose_cycle L p fb dt_s m
        | PsEntry \<Rightarrow> (pm_entry_q m, m\<lparr>pm_last_ik := ik_result0, pm_last_source := PsEntry\<rparr>)))"

text \<open>The reference pipeline of one joint: clamp the target, rate limit, leash, wrap, clamp.\<close>

definition pm_bounded :: "position_params \<Rightarrow> nat \<Rightarrow> bool" where
  "pm_bounded p i = (isfinite (vnth (pp_q_lower p) i) \<and> isfinite (vnth (pp_q_upper p) i))"

definition pm_rate_limit :: "bool \<Rightarrow> dbl \<Rightarrow> dbl \<Rightarrow> dbl \<Rightarrow> dbl option" where
  "pm_rate_limit cont max_step tgt q_ref =
     do { err \<leftarrow> wrap_if cont (tgt - q_ref); Some (q_ref + sclamp err (- max_step) max_step) }"

definition pm_leash :: "bool \<Rightarrow> dbl \<Rightarrow> dbl \<Rightarrow> dbl \<Rightarrow> dbl option" where
  "pm_leash cont max_lead q_meas q_ref =
     (if Fin 0 < max_lead
      then do { lead \<leftarrow> wrap_if cont (q_ref - q_meas); Some (q_meas + sclamp lead (- max_lead) max_lead) }
      else Some q_ref)"

definition pm_joint :: "position_params \<Rightarrow> bool vec7 \<Rightarrow> dbl \<Rightarrow> dbl \<Rightarrow> jointvec \<Rightarrow> jointvec \<Rightarrow> jointvec \<Rightarrow> nat \<Rightarrow> dbl option" where
  "pm_joint p contin speed dt_s q_meas target q_ref i =
     (let lo = vnth (pp_q_lower p) i; hi = vnth (pp_q_upper p) i;
          tgt = (if pm_bounded p i then sclamp (vnth target i) lo hi else vnth target i);
          max_step = speed * vnth (pp_max_ref_speed p) i * dt_s
      in do { r1 \<leftarrow> pm_rate_limit (vnth contin i) max_step tgt (vnth q_ref i);
              r2 \<leftarrow> pm_leash (vnth contin i) (pp_max_following_error p) (vnth q_meas i) r1;
              r3 \<leftarrow> wrap_if (vnth contin i) r2;
              Some (if pm_bounded p i then sclamp r3 lo hi else r3) })"

definition pm_compute :: "eigen \<Rightarrow> position_mode \<Rightarrow> joint_feedback \<Rightarrow> dbl \<Rightarrow> joint_command \<Rightarrow> (position_mode \<times> joint_command) option" where
  "pm_compute L m fb dt_s out =
     (let p = pm_get_params m;
          speed = pm_speed_scale m;
          (stale, wd) = wd_tick (pm_wd m) dt_s;
          m1 = m\<lparr>pm_wd := wd\<rparr>;
          m2 = (if stale then m1\<lparr>pm_q_ref := fb_q fb\<rparr> else m1);
          (target, m3) = pm_target L p stale fb dt_s m2
      in do { q_ref \<leftarrow> vgenM (pm_joint p (pm_continuous m3) speed dt_s (fb_q fb) target (pm_q_ref m3));
              Some (m3\<lparr>pm_q_ref := q_ref\<rparr>,
                    out\<lparr>jc_mode := AmPosition, jc_position := q_ref, jc_torque := vzero, jc_velocity := vzero\<rparr>) })"

subsection \<open>One joint of the reference\<close>

lemma sclamp_sym_Fin:
  "0 \<le> L \<Longrightarrow> \<exists>c. sclamp (Fin x) (- Fin L) (Fin L) = Fin c \<and> \<bar>c\<bar> \<le> L \<and> (\<bar>x\<bar> \<le> L \<longrightarrow> c = x)"
  by (auto simp: abs_le_iff)

lemma pm_rate_limit_Fin:
  assumes "0 \<le> ms"
  shows "\<exists>r. pm_rate_limit c (Fin ms) (Fin t) (Fin q) = Some (Fin r) \<and> \<bar>r - q\<bar> \<le> ms"
proof -
  obtain e where e: "wrap_if c (Fin (t - q)) = Some (Fin e)" using wrap_if_finite by fastforce
  obtain d where "sclamp (Fin e) (- Fin ms) (Fin ms) = Fin d" "\<bar>d\<bar> \<le> ms"
    using sclamp_sym_Fin [OF assms] by blast
  with e show ?thesis by (simp add: pm_rate_limit_def)
qed

lemma pm_leash_Fin:
  "\<exists>r c. pm_leash cont (Fin L) (Fin qm) (Fin r0) = Some (Fin r) \<and> r = (if 0 < L then qm + c else r0) \<and>
     (0 < L \<longrightarrow> \<bar>c\<bar> \<le> L)"
proof (cases "0 < L")
  case True
  obtain l where l: "wrap_if cont (Fin (r0 - qm)) = Some (Fin l)" using wrap_if_finite by fastforce
  obtain c where "sclamp (Fin l) (- Fin L) (Fin L) = Fin c" "\<bar>c\<bar> \<le> L"
    using sclamp_sym_Fin [of L l] True by auto
  with l True show ?thesis by (intro exI [of _ "qm + c"] exI [of _ c]) (simp add: pm_leash_def)
qed (simp add: pm_leash_def)

text \<open>
  What one joint's command satisfies. It is finite, inside the limits of a bounded joint, in the wrapped
  range on a continuous joint without limits. The leash is on when \<open>max_following_error\<close> is positive.
  A joint that does not wrap is then commanded within it, unless it was measured beyond a limit: then it
  may be commanded that limit. A continuous joint is commanded, up to the clamp onto its limits if it has
  any, an angle in the wrapped range that is on the leash modulo whole turns.
\<close>

definition joint_safe :: "position_params \<Rightarrow> bool \<Rightarrow> dbl \<Rightarrow> nat \<Rightarrow> dbl \<Rightarrow> bool" where
  "joint_safe p cont qm i x \<longleftrightarrow> isfinite x \<and>
     (pm_bounded p i \<longrightarrow> vnth (pp_q_lower p) i \<le> x \<and> x \<le> vnth (pp_q_upper p) i) \<and>
     (cont \<and> \<not> pm_bounded p i \<longrightarrow> in_pi (dval x)) \<and>
     (Fin 0 < pp_max_following_error p \<longrightarrow>
        (if cont
         then \<exists>y. in_pi y \<and> near_mod_turn (dval (pp_max_following_error p)) y (dval qm) \<and>
           x = (if pm_bounded p i then sclamp (Fin y) (vnth (pp_q_lower p) i) (vnth (pp_q_upper p) i) else Fin y)
         else \<bar>dval x - dval qm\<bar> \<le> dval (pp_max_following_error p) \<or>
           pm_bounded p i \<and> (qm < vnth (pp_q_lower p) i \<and> x = vnth (pp_q_lower p) i \<or>
                             vnth (pp_q_upper p) i < qm \<and> x = vnth (pp_q_upper p) i)))"

definition params_ok :: "position_params \<Rightarrow> bool" where
  "params_ok p \<longleftrightarrow> isfinite (pp_max_following_error p) \<and>
     (\<forall>i < 7. (\<exists>s. vnth (pp_max_ref_speed p) i = Fin s \<and> 0 \<le> s) \<and>
        (pm_bounded p i \<longrightarrow> vnth (pp_q_lower p) i \<le> vnth (pp_q_upper p) i))"

lemma pm_joint_safe:
  assumes p: "params_ok p" and i: "i < 7" and sp: "0 \<le> sp" and dt: "0 \<le> dt"
    and qm: "vnth q_meas i = Fin qm" and t: "isfinite (vnth target i)" and r: "isfinite (vnth q_ref i)"
  shows "\<exists>x. pm_joint p contin (Fin sp) (Fin dt) q_meas target q_ref i = Some x \<and>
             joint_safe p (vnth contin i) (vnth q_meas i) i x"
proof -
  let ?c = "vnth contin i" and ?lo = "vnth (pp_q_lower p) i" and ?hi = "vnth (pp_q_upper p) i"
  obtain s where s: "vnth (pp_max_ref_speed p) i = Fin s" "0 \<le> s" using p i by (auto simp: params_ok_def)
  obtain L where L: "pp_max_following_error p = Fin L" using p by (auto simp: params_ok_def isfinite_iff)
  have ms: "0 \<le> sp * s * dt" using sp s dt by simp
  obtain tg where tg: "(if pm_bounded p i then sclamp (vnth target i) ?lo ?hi else vnth target i) = Fin tg"
    using t sclamp_finite [of ?lo ?hi "vnth target i"]
    by (cases "pm_bounded p i") (auto simp: pm_bounded_def isfinite_iff)
  obtain rf where rf: "vnth q_ref i = Fin rf" using r by blast
  obtain r1 where r1: "pm_rate_limit ?c (Fin (sp * s * dt)) (Fin tg) (Fin rf) = Some (Fin r1)"
    using pm_rate_limit_Fin [OF ms] by blast
  obtain r2 c where r2: "pm_leash ?c (Fin L) (Fin qm) (Fin r1) = Some (Fin r2)"
    "r2 = (if 0 < L then qm + c else r1)" "0 < L \<longrightarrow> \<bar>c\<bar> \<le> L"
    using pm_leash_Fin by blast
  obtain r3 where r3: "wrap_if ?c (Fin r2) = Some (Fin r3)" using wrap_if_finite by fastforce
  let ?x = "if pm_bounded p i then sclamp (Fin r3) ?lo ?hi else Fin r3"
  have ret: "pm_joint p contin (Fin sp) (Fin dt) q_meas target q_ref i = Some ?x"
    using tg rf s L r1 r2(1) r3 qm by (simp add: pm_joint_def Let_def)
  have wrapped: "in_pi r3 \<and> (0 < L \<longrightarrow> near_mod_turn L r3 qm)" if "?c"
    using that r2(2,3) r3 near_mod_turn_wrap [of c L qm r3] wrap_to_pi_in_range by fastforce
  have straight: "0 < L \<longrightarrow> \<bar>r3 - qm\<bar> \<le> L" if "\<not> ?c" using that r2(2,3) r3 by auto
  have "joint_safe p ?c (Fin qm) i ?x"
  proof (cases "pm_bounded p i")
    case True
    then obtain lo hi where lh: "?lo = Fin lo" "?hi = Fin hi" "lo \<le> hi"
      using p i by (auto simp: pm_bounded_def params_ok_def isfinite_iff)
    show ?thesis
    proof (cases ?c)
      case c: True
      then show ?thesis using True L lh wrapped by (auto simp: joint_safe_def intro!: exI [of _ r3])
    next
      case c: False
      then show ?thesis using True L lh straight by (auto simp: joint_safe_def abs_le_iff)
    qed
  next
    case False
    then show ?thesis using L wrapped straight by (cases ?c) (auto simp: joint_safe_def)
  qed
  with ret qm show ?thesis by simp
qed

text \<open>A joint already at its target within the limits stays exactly there.\<close>

lemma pm_joint_hold:
  assumes p: "params_ok p" and i: "i < 7" and sp: "0 \<le> sp" and dt: "0 \<le> dt"
    and q: "vnth q i = Fin x" and c: "vnth contin i \<Longrightarrow> in_pi x"
    and b: "pm_bounded p i \<Longrightarrow> vnth (pp_q_lower p) i \<le> Fin x \<and> Fin x \<le> vnth (pp_q_upper p) i"
  shows "pm_joint p contin (Fin sp) (Fin dt) q q q i = Some (Fin x)"
proof -
  obtain s where s: "vnth (pp_max_ref_speed p) i = Fin s" "0 \<le> s" using p i by (auto simp: params_ok_def)
  have "0 \<le> sp * s * dt" using sp s dt by simp
  then have ms: "\<not> 0 < - (sp * s * dt)" "\<not> sp * s * dt < 0" by auto
  obtain L where L: "pp_max_following_error p = Fin L" using p by (auto simp: params_ok_def isfinite_iff)
  have tg: "(if pm_bounded p i then sclamp (Fin x) (vnth (pp_q_lower p) i) (vnth (pp_q_upper p) i) else Fin x) = Fin x"
    using b sclamp_id by simp
  have w: "wrap_if (vnth contin i) (Fin 0) = Some (Fin 0)" "wrap_if (vnth contin i) (Fin x) = Some (Fin x)"
    using c by (cases "vnth contin i"; simp add: in_pi_def)+
  show ?thesis
    using s L w tg ms q by (auto simp: pm_joint_def pm_rate_limit_def pm_leash_def Let_def)
qed

subsection \<open>The cycle\<close>

text \<open>What a cycle commands, once its target is known.\<close>

definition pm_cycle_target :: "eigen \<Rightarrow> position_mode \<Rightarrow> joint_feedback \<Rightarrow> dbl \<Rightarrow> jointvec" where
  "pm_cycle_target L m fb dt_s =
     (let (stale, wd) = wd_tick (pm_wd m) dt_s; m1 = m\<lparr>pm_wd := wd\<rparr>;
          m2 = (if stale then m1\<lparr>pm_q_ref := fb_q fb\<rparr> else m1)
      in fst (pm_target L (pm_get_params m) stale fb dt_s m2))"

lemma pm_pose_cycle_frame [simp]:
  "pm_q_ref (snd (pm_pose_cycle L p fb dt m)) = pm_q_ref m"
  "pm_dyn (snd (pm_pose_cycle L p fb dt m)) = pm_dyn m"
  by (simp_all add: pm_pose_cycle_def pm_ik_account_def Let_def split: prod.splits)

lemma pm_target_frame [simp]:
  "pm_q_ref (snd (pm_target L p stale fb dt m)) = pm_q_ref m"
  "pm_dyn (snd (pm_target L p stale fb dt m)) = pm_dyn m"
  by (simp_all add: pm_target_def split: pm_source.splits)

lemma pm_compute_eq:
  "pm_compute L m fb dt_s out =
     (let stale = fst (wd_tick (pm_wd m) dt_s); m1 = m\<lparr>pm_wd := snd (wd_tick (pm_wd m) dt_s)\<rparr>;
          q0 = (if stale then fb_q fb else pm_q_ref m);
          m3 = snd (pm_target L (pm_get_params m) stale fb dt_s (if stale then m1\<lparr>pm_q_ref := fb_q fb\<rparr> else m1))
      in map_option (\<lambda>q. (m3\<lparr>pm_q_ref := q\<rparr>, out\<lparr>jc_mode := AmPosition, jc_position := q, jc_torque := vzero, jc_velocity := vzero\<rparr>))
           (vgenM (pm_joint (pm_get_params m) (pm_continuous m) (pm_speed_scale m) dt_s (fb_q fb)
                     (pm_cycle_target L m fb dt_s) q0)))"
proof -
  obtain stale wd where w: "wd_tick (pm_wd m) dt_s = (stale, wd)" by fastforce
  let ?m2 = "if stale then m\<lparr>pm_wd := wd, pm_q_ref := fb_q fb\<rparr> else m\<lparr>pm_wd := wd\<rparr>"
  obtain t m3 where t: "pm_target L (pm_get_params m) stale fb dt_s ?m2 = (t, m3)" by fastforce
  have fr: "pm_q_ref m3 = (if stale then fb_q fb else pm_q_ref m)" "pm_dyn m3 = pm_dyn m"
    using pm_target_frame [of L "pm_get_params m" stale fb dt_s ?m2] t by auto
  show ?thesis
    using t fr by (cases stale)
      (simp_all add: pm_compute_def pm_cycle_target_def pm_continuous_def Let_def map_conv_bind_option o_def w)
qed

text \<open>
  Claim C12. The command of a position-mode cycle is safe (\<open>joint_safe\<close>): on finite feedback and reference,
  with admissible parameters and a finite target of whatever source, \<open>compute\<close> returns, commands every
  actuator in position mode with the torque and velocity fields cleared, and each joint's command is
  finite and inside the software limits where the joint is bounded. While \<open>max_following_error\<close> is
  positive the command is also on the leash: a joint that does not wrap is commanded no further than
  that from its measured angle, or, when it was measured beyond a limit, exactly that limit; a continuous
  joint is commanded an angle of the wrapped range no further than that from its measured angle modulo
  whole turns, clamped onto its limits if it has any. With \<open>max_following_error\<close> at zero or below the
  code has no leash and none is claimed.
\<close>

theorem pm_compute_safe:
  assumes p: "params_ok (pm_get_params m)" and sp: "pm_speed_scale m = Fin sp" "0 \<le> sp" and dt: "0 \<le> dt"
    and q: "vfinite (fb_q fb)" and r: "vfinite (pm_q_ref m)" and t: "vfinite (pm_cycle_target L m fb (Fin dt))"
  shows "\<exists>m' out'. pm_compute L m fb (Fin dt) out = Some (m', out') \<and>
    jc_mode out' = AmPosition \<and> jc_torque out' = vzero \<and> jc_velocity out' = vzero \<and>
    jc_position out' = pm_q_ref m' \<and>
    (\<forall>i < 7. joint_safe (pm_get_params m) (vnth (pm_continuous m) i) (vnth (fb_q fb) i) i (vnth (jc_position out') i))"
proof -
  let ?q0 = "if fst (wd_tick (pm_wd m) (Fin dt)) then fb_q fb else pm_q_ref m"
  let ?f = "pm_joint (pm_get_params m) (pm_continuous m) (Fin sp) (Fin dt) (fb_q fb) (pm_cycle_target L m fb (Fin dt)) ?q0"
  have one: "\<exists>x. ?f i = Some x \<and> joint_safe (pm_get_params m) (vnth (pm_continuous m) i) (vnth (fb_q fb) i) i x"
    if i: "i < 7" for i
  proof -
    obtain qm where "vnth (fb_q fb) i = Fin qm" using vfiniteD [OF q i] by blast
    moreover have "isfinite (vnth ?q0 i)" using q r i by (simp add: vfiniteD)
    ultimately show ?thesis using pm_joint_safe [OF p i sp(2) dt] vfiniteD [OF t i] by blast
  qed
  then obtain v where v: "vgenM ?f = Some v" using vgenM_SomeI [of ?f] by blast
  then have "\<forall>i < 7. joint_safe (pm_get_params m) (vnth (pm_continuous m) i) (vnth (fb_q fb) i) i (vnth v i)"
    using one by (fastforce simp: vgenM_Some_iff)
  then show ?thesis using v sp(1) by (auto simp: pm_compute_eq Let_def)
qed

definition demo_position_mode :: position_mode where
  "demo_position_mode = pm_set_joint_target (pm_on_enter (pm_init demo_dynamics position_params0) joint_feedback0)
     (position_target (vconst (Fin 9)))"

lemma demo_params_ok: "params_ok (pm_get_params demo_position_mode)"
  by (simp add: demo_position_mode_def pm_set_joint_target_def pm_on_enter_def pm_init_def pm_get_params_def
      Let_def params_ok_def seed_position_limits_def position_params0_def pm_bounded_def seed_vec_def seed_speed_def
      demo_dynamics_def all_less_7) (rule exI [of _ "1/2"], simp)

lemma demo_position_mode_simps:
  "pm_speed_scale demo_position_mode = Fin 1" "pm_q_ref demo_position_mode = vzero"
  "pm_source demo_position_mode = PsJoint" "dbuf_read (pm_ext_target demo_position_mode) = vconst (Fin 9)"
  "pm_wd demo_position_mode = wd_bump (wd_reset (wd_arm watchdog0 (Fin 0)))"
  by (simp_all add: demo_position_mode_def pm_set_joint_target_def pm_on_enter_def pm_init_def Let_def
      joint_feedback0_def position_target_def joint_target0_def seed_position_limits_def position_params0_def)

lemma demo_cycle_target:
  "pm_cycle_target L demo_position_mode fb dt = vconst (Fin 9)"
  by (simp add: pm_cycle_target_def pm_target_def demo_position_mode_simps wd_defs watchdog0_def)

theorem pm_compute_safe_witness:
  "\<exists>m' out'. pm_compute demo_eigen demo_position_mode joint_feedback0 (Fin (1/1000)) joint_command0 = Some (m', out') \<and>
     jc_torque out' = vzero \<and> isfinite (vnth (jc_position out') 3)"
proof -
  have "vfinite (fb_q joint_feedback0)" "vfinite (pm_q_ref demo_position_mode)"
    "vfinite (pm_cycle_target demo_eigen demo_position_mode joint_feedback0 (Fin (1/1000)))"
    by (simp_all add: demo_position_mode_simps demo_cycle_target joint_feedback0_def)
  from pm_compute_safe [OF demo_params_ok demo_position_mode_simps(1) _ _ this] obtain m' out' where
    "pm_compute demo_eigen demo_position_mode joint_feedback0 (Fin (1/1000)) joint_command0 = Some (m', out')"
    "jc_torque out' = vzero"
    "\<forall>i < 7. joint_safe (pm_get_params demo_position_mode) (vnth (pm_continuous demo_position_mode) i)
       (vnth (fb_q joint_feedback0) i) i (vnth (jc_position out') i)"
    by (metis zero_le_one divide_nonneg_nonneg zero_le_numeral)
  then show ?thesis by (auto simp: joint_safe_def)
qed

text \<open>
  A stale stream freezes the arm where it is: on a cycle whose watchdog is stale the
  position mode commands exactly the measured configuration (when it is inside the limits and the
  wrapped range), whatever target was left behind, and forgets the IK result.
\<close>

theorem pm_stale_freezes:
  assumes stale: "fst (wd_tick (pm_wd m) (Fin dt))" and p: "params_ok (pm_get_params m)"
    and sp: "pm_speed_scale m = Fin sp" "0 \<le> sp" and dt: "0 \<le> dt" and q: "vfinite (fb_q fb)"
    and c: "\<And>i. i < 7 \<Longrightarrow> vnth (pm_continuous m) i \<Longrightarrow> in_pi (dval (vnth (fb_q fb) i))"
    and b: "\<And>i. i < 7 \<Longrightarrow> pm_bounded (pm_get_params m) i \<Longrightarrow>
      vnth (pp_q_lower (pm_get_params m)) i \<le> vnth (fb_q fb) i \<and> vnth (fb_q fb) i \<le> vnth (pp_q_upper (pm_get_params m)) i"
  shows "\<exists>m'. pm_compute L m fb (Fin dt) out =
      Some (m', out\<lparr>jc_mode := AmPosition, jc_position := fb_q fb, jc_torque := vzero, jc_velocity := vzero\<rparr>) \<and>
    pm_q_ref m' = fb_q fb \<and> pm_last_ik m' = ik_result0 \<and> pm_ik_faulted m' = pm_ik_faulted m"
proof -
  have t: "pm_cycle_target L m fb (Fin dt) = fb_q fb"
    using stale by (cases "wd_tick (pm_wd m) (Fin dt)") (simp add: pm_cycle_target_def pm_target_def)
  have "vgenM (pm_joint (pm_get_params m) (pm_continuous m) (Fin sp) (Fin dt) (fb_q fb) (fb_q fb) (fb_q fb)) = Some (fb_q fb)"
    unfolding vgenM_Some_iff
  proof (intro allI impI)
    fix i :: nat assume i: "i < 7"
    obtain x where x: "vnth (fb_q fb) i = Fin x" using vfiniteD [OF q i] by blast
    show "pm_joint (pm_get_params m) (pm_continuous m) (Fin sp) (Fin dt) (fb_q fb) (fb_q fb) (fb_q fb) i = Some (vnth (fb_q fb) i)"
      using pm_joint_hold [OF p i sp(2) dt x] c [OF i] b [OF i] x by simp
  qed
  then show ?thesis using stale sp(1) by (simp add: pm_compute_eq t Let_def) (simp add: pm_target_def)
qed

theorem pm_stale_freezes_witness:
  "\<exists>m'. pm_compute demo_eigen (pm_set_command_timeout (pm_on_enter demo_position_mode joint_feedback0) (Fin (1/10)))
      joint_feedback0 (Fin (2/10)) joint_command0 =
     Some (m', joint_command0\<lparr>jc_mode := AmPosition, jc_position := vzero, jc_torque := vzero, jc_velocity := vzero\<rparr>)"
proof -
  let ?m = "pm_set_command_timeout (pm_on_enter demo_position_mode joint_feedback0) (Fin (1/10))"
  have s: "fst (wd_tick (pm_wd ?m) (Fin (2/10)))" "pm_speed_scale ?m = Fin 1"
    by (simp_all add: pm_set_command_timeout_def pm_on_enter_def wd_defs demo_position_mode_simps)
  have pp: "pm_get_params ?m = pm_get_params demo_position_mode"
    by (simp add: pm_get_params_def pm_set_command_timeout_def pm_on_enter_def)
  have bd: "vnth (pp_q_lower (pm_get_params demo_position_mode)) i \<le> Fin 0 \<and>
     Fin 0 \<le> vnth (pp_q_upper (pm_get_params demo_position_mode)) i" if "i < 7" for i
    using that by (elim less_7_cases) (simp_all add: demo_position_mode_def pm_set_joint_target_def pm_on_enter_def
        pm_init_def pm_get_params_def Let_def seed_position_limits_def position_params0_def seed_vec_def demo_dynamics_def)
  have q: "vfinite (fb_q joint_feedback0)" "fb_q joint_feedback0 = vzero" by (simp_all add: joint_feedback0_def)
  show ?thesis
    using pm_stale_freezes [OF s(1) demo_params_ok [folded pp] s(2) _ _ q(1), of demo_eigen joint_command0] bd pp q(2)
    by (fastforce simp: in_pi_def)
qed

subsection \<open>An infinite target\<close>

text \<open>
  The setters do not look at the values they publish. An infinite target on a continuous, unbounded
  joint makes the fold of the error loop for ever: the cycle does not return.
\<close>

lemma pm_joint_infinite:
  assumes "vnth contin i" and "\<not> pm_bounded p i" and "isfinite (vnth q_ref i)"
    and "vnth target i = PInf \<or> vnth target i = NInf"
  shows "pm_joint p contin speed dt q_meas target q_ref i = None"
  using assms by (auto simp: pm_joint_def pm_rate_limit_def Let_def isfinite_iff)

lemma pm_infinite_target_never_returns:
  assumes "i < 7" and "vnth (pm_continuous m) i" and "\<not> pm_bounded (pm_get_params m) i"
    and "isfinite (vnth (pm_q_ref m) i)"
    and "vnth (jt_q t) i = PInf \<or> vnth (jt_q t) i = NInf"
    and "\<not> fst (wd_tick (pm_wd (pm_set_joint_target m t)) dt)"
  shows "pm_compute L (pm_set_joint_target m t) fb dt out = None"
proof -
  let ?m = "pm_set_joint_target m t"
  have "pm_cycle_target L ?m fb dt = jt_q t"
    using assms(6)
    by (cases "wd_tick (pm_wd ?m) dt") (simp add: pm_cycle_target_def pm_target_def pm_set_joint_target_def)
  moreover have "pm_continuous ?m = pm_continuous m" "pm_get_params ?m = pm_get_params m" "pm_q_ref ?m = pm_q_ref m"
    by (simp_all add: pm_continuous_def pm_get_params_def pm_set_joint_target_def)
  ultimately show ?thesis
    using assms vgenM_None [OF assms(1), of "pm_joint (pm_get_params m) (pm_continuous m) (pm_speed_scale ?m) dt
        (fb_q fb) (jt_q t) (pm_q_ref m)"]
    by (simp add: pm_compute_eq Let_def pm_joint_infinite)
qed

end
