(* ===== verification/Velocity_Mode.thy ===== *)
theory Velocity_Mode
  imports Diff_Ik Watchdog
begin

section \<open>The joint-velocity mode\<close>

text \<open>
  \<open>JointVelocityMode\<close> (\<open>joint_velocity_mode.h\<close> and \<open>.cpp\<close>): a joint velocity or a twist,
  limited and scaled, integrated into a leashed position reference. A stale stream freezes the
  reference at the measured configuration, and the freeze is released by a fresh command only.
\<close>

record velocity_params =
  vp_max_qd :: jointvec
  vp_dls_damping :: dbl
  vp_w_threshold :: dbl
  vp_dls_damping_max :: dbl
  vp_posture_gain :: dbl
  vp_q_rest :: jointvec
  vp_cmd_timeout_s :: dbl

definition velocity_params0 :: velocity_params where
  "velocity_params0 = \<lparr>vp_max_qd = vconst PInf, vp_dls_damping = Fin (1/1000), vp_w_threshold = Fin (33/10000),
     vp_dls_damping_max = Fin (1/10), vp_posture_gain = Fin (15/100), vp_q_rest = q_rest_home,
     vp_cmd_timeout_s = Fin 0\<rparr>"

definition seed_velocity_limits :: "dynamics \<Rightarrow> velocity_params \<Rightarrow> velocity_params" where
  "seed_velocity_limits dyn p = p\<lparr>vp_max_qd := seed_speed (dyn_v_max dyn) (vp_max_qd p)\<rparr>"

datatype vm_source = VsNone | VsJoint | VsTwist

record velocity_mode =
  vm_dyn :: dynamics
  vm_params :: "velocity_params dbuf"
  vm_source :: vm_source
  vm_ext_qd :: "jointvec dbuf"
  vm_ext_twist :: "vector6 dbuf"
  vm_wd :: watchdog
  vm_speed_scale :: dbl
  vm_frozen :: bool
  vm_qd_target :: jointvec
  vm_twist_target :: vector6
  vm_qd_cmd :: jointvec
  vm_q_ref :: jointvec
  vm_w_last :: dbl

definition vm_continuous :: "velocity_mode \<Rightarrow> bool vec7" where
  "vm_continuous m = continuous_joints (dyn_q_lower (vm_dyn m)) (dyn_q_upper (vm_dyn m))"

definition vm_init :: "dynamics \<Rightarrow> velocity_params \<Rightarrow> velocity_mode" where
  "vm_init dyn p =
     (let sp = seed_velocity_limits dyn p
      in \<lparr>vm_dyn = dyn, vm_params = dbuf_init sp, vm_source = VsNone, vm_ext_qd = dbuf_init vzero,
          vm_ext_twist = dbuf_init (vconst6 (Fin 0)), vm_wd = wd_arm watchdog0 (vp_cmd_timeout_s sp),
          vm_speed_scale = Fin 1, vm_frozen = False, vm_qd_target = vzero,
          vm_twist_target = vconst6 (Fin 0), vm_qd_cmd = vzero, vm_q_ref = vzero, vm_w_last = Fin 0\<rparr>)"

definition vm_required_modes :: actuator_modes where
  "vm_required_modes = modes_fill AmPosition"

definition vm_get_params :: "velocity_mode \<Rightarrow> velocity_params" where
  "vm_get_params m = dbuf_read (vm_params m)"

definition vm_set_params :: "velocity_mode \<Rightarrow> velocity_params \<Rightarrow> velocity_mode" where
  "vm_set_params m p = m\<lparr>vm_params := dbuf_publish (vm_params m) (seed_velocity_limits (vm_dyn m) p)\<rparr>"

definition vm_set_velocity_target :: "velocity_mode \<Rightarrow> jointvec \<Rightarrow> velocity_mode" where
  "vm_set_velocity_target m qd_d =
     m\<lparr>vm_ext_qd := dbuf_publish (vm_ext_qd m) qd_d, vm_source := VsJoint, vm_wd := wd_bump (vm_wd m)\<rparr>"

definition vm_set_twist_target :: "velocity_mode \<Rightarrow> vector6 \<Rightarrow> velocity_mode" where
  "vm_set_twist_target m V =
     m\<lparr>vm_ext_twist := dbuf_publish (vm_ext_twist m) V, vm_source := VsTwist, vm_wd := wd_bump (vm_wd m)\<rparr>"

definition vm_set_command_timeout :: "velocity_mode \<Rightarrow> dbl \<Rightarrow> velocity_mode" where
  "vm_set_command_timeout m s =
     m\<lparr>vm_wd := wd_arm (vm_wd m) (if Fin 0 \<le> s then s else vp_cmd_timeout_s (vm_get_params m))\<rparr>"

definition vm_set_speed_scale :: "velocity_mode \<Rightarrow> dbl \<Rightarrow> velocity_mode" where
  "vm_set_speed_scale m s = m\<lparr>vm_speed_scale := s\<rparr>"

definition vm_on_enter :: "velocity_mode \<Rightarrow> joint_feedback \<Rightarrow> velocity_mode" where
  "vm_on_enter m fb =
     m\<lparr>vm_source := VsNone, vm_qd_target := vzero, vm_twist_target := vconst6 (Fin 0), vm_qd_cmd := vzero,
       vm_q_ref := fb_q fb, vm_frozen := False, vm_w_last := Fin 0, vm_wd := wd_reset (vm_wd m)\<rparr>"

definition vm_solve_twist :: "eigen \<Rightarrow> velocity_mode \<Rightarrow> jointvec \<Rightarrow> vector6 \<Rightarrow> velocity_params \<Rightarrow> (jointvec \<times> dbl) option" where
  "vm_solve_twist L m q V p =
     twist_dls_solve L (dyn_jacobian (vm_dyn m) q) q V
       \<lparr>td_dls_damping = vp_dls_damping p, td_w_threshold = vp_w_threshold p,
        td_dls_damping_max = vp_dls_damping_max p, td_posture_gain = vp_posture_gain p,
        td_q_rest = vp_q_rest p\<rparr> (vm_continuous m)"

text \<open>The freeze latch, and the command of a cycle that is not frozen.\<close>

definition vm_latch :: "bool \<Rightarrow> bool \<Rightarrow> bool \<Rightarrow> bool" where
  "vm_latch stale fresh frozen = (if stale then True else if fresh then False else frozen)"

definition vm_command :: "eigen \<Rightarrow> velocity_params \<Rightarrow> jointvec \<Rightarrow> velocity_mode \<Rightarrow> velocity_mode option" where
  "vm_command L p q m =
     do { m1 \<leftarrow> (case vm_source m of
            VsJoint \<Rightarrow>
              (let m' = (if wd_fresh (vm_wd m) then m\<lparr>vm_qd_target := dbuf_read (vm_ext_qd m)\<rparr> else m)
               in Some (m'\<lparr>vm_qd_cmd := vm_qd_target m'\<rparr>))
          | _ \<Rightarrow>
              (let m' = (if wd_fresh (vm_wd m) then m\<lparr>vm_twist_target := dbuf_read (vm_ext_twist m)\<rparr> else m)
               in do { (qd, w) \<leftarrow> vm_solve_twist L m' q (vm_twist_target m') p;
                       Some (m'\<lparr>vm_qd_cmd := qd, vm_w_last := w\<rparr>) }));
          Some (m1\<lparr>vm_qd_cmd := vscale (vm_speed_scale m1) (limit_joint_velocity (vp_max_qd p) (vm_qd_cmd m1))\<rparr>) }"

definition vm_compute :: "eigen \<Rightarrow> velocity_mode \<Rightarrow> joint_feedback \<Rightarrow> dbl \<Rightarrow> joint_command \<Rightarrow> (velocity_mode \<times> joint_command) option" where
  "vm_compute L m fb dt_s out =
     (let p = vm_get_params m;
          (stale, wd) = wd_tick (vm_wd m) dt_s;
          m1 = m\<lparr>vm_wd := wd, vm_frozen := vm_latch stale (wd_fresh wd) (vm_frozen m)\<rparr>
      in do {
        m2 \<leftarrow> (if vm_frozen m1 \<or> vm_source m1 = VsNone
               then Some (m1\<lparr>vm_qd_cmd := vzero, vm_q_ref := (if vm_frozen m1 then fb_q fb else vm_q_ref m1)\<rparr>)
               else vm_command L p (fb_q fb) m1);
        q_ref \<leftarrow> integrate_leashed_reference (vm_q_ref m2) (vm_qd_cmd m2) dt_s (fb_q fb) kVelocityRefMaxLead
                   (vm_continuous m2) (dyn_q_lower (vm_dyn m2)) (dyn_q_upper (vm_dyn m2));
        Some (m2\<lparr>vm_q_ref := q_ref\<rparr>,
              out\<lparr>jc_mode := AmPosition, jc_position := q_ref, jc_velocity := vzero, jc_torque := vzero\<rparr>) })"

subsection \<open>Bounded motion\<close>

text \<open>The joint limits the reference is clamped to: both finite, or the joint is continuous.\<close>

definition limits_ok :: "dynamics \<Rightarrow> bool" where
  "limits_ok dyn \<longleftrightarrow> (\<forall>i < 7. vnth (continuous_joints (dyn_q_lower dyn) (dyn_q_upper dyn)) i \<or>
     (\<exists>lo hi. vnth (dyn_q_lower dyn) i = Fin lo \<and> vnth (dyn_q_upper dyn) i = Fin hi \<and> lo \<le> hi))"

definition leashed :: "dynamics \<Rightarrow> jointvec \<Rightarrow> nat \<Rightarrow> dbl \<Rightarrow> bool" where
  "leashed dyn q_meas i x \<longleftrightarrow> isfinite x \<and>
     (if vnth (continuous_joints (dyn_q_lower dyn) (dyn_q_upper dyn)) i
      then in_pi (dval x) \<and> near_mod_turn (1/10) (dval x) (dval (vnth q_meas i))
      else vnth (dyn_q_lower dyn) i \<le> x \<and> x \<le> vnth (dyn_q_upper dyn) i \<and>
        (vnth (dyn_q_lower dyn) i \<le> vnth q_meas i \<and> vnth q_meas i \<le> vnth (dyn_q_upper dyn) i \<longrightarrow>
           \<bar>dval x - dval (vnth q_meas i)\<bar> \<le> 1/10))"

lemma integrate_leashed_safe:
  assumes lim: "limits_ok dyn" and "vfinite r" and "vfinite v" and "vfinite qm"
  shows "\<exists>q. integrate_leashed_reference r v (Fin dt) qm kVelocityRefMaxLead
      (continuous_joints (dyn_q_lower dyn) (dyn_q_upper dyn)) (dyn_q_lower dyn) (dyn_q_upper dyn) = Some q \<and>
    (\<forall>i < 7. leashed dyn qm i (vnth q i))"
proof -
  let ?c = "continuous_joints (dyn_q_lower dyn) (dyn_q_upper dyn)"
  let ?f = "\<lambda>i. leash_joint (vnth ?c i) (vnth (dyn_q_lower dyn) i) (vnth (dyn_q_upper dyn) i) kVelocityRefMaxLead (Fin dt)
      (vnth qm i) (vnth v i) (vnth r i)"
  have one: "\<exists>x. ?f i = Some x \<and> leashed dyn qm i x" if i: "i < 7" for i
  proof -
    obtain a b c where fin: "vnth r i = Fin a" "vnth v i = Fin b" "vnth qm i = Fin c"
      using assms(2,3,4) i by (meson isfinite_iff vfiniteD)
    show ?thesis
    proof (cases "vnth ?c i")
      case True
      then show ?thesis
        using leash_joint_cont [of "1/10" "vnth (dyn_q_lower dyn) i" "vnth (dyn_q_upper dyn) i" dt c b a] fin
        by (auto simp: leashed_def kVelocityRefMaxLead_def)
    next
      case False
      then obtain lo hi where "vnth (dyn_q_lower dyn) i = Fin lo" "vnth (dyn_q_upper dyn) i = Fin hi" "lo \<le> hi"
        using lim i by (auto simp: limits_ok_def)
      then show ?thesis
        using leash_joint_bounded [of "1/10" lo hi dt c b a] fin False
        by (auto simp: leashed_def kVelocityRefMaxLead_def)
    qed
  qed
  then obtain q where q: "vgenM ?f = Some q" using vgenM_SomeI [of ?f] by blast
  then have "\<forall>i < 7. leashed dyn qm i (vnth q i)" using one by (fastforce simp: vgenM_Some_iff)
  with q show ?thesis by (auto simp: integrate_leashed_reference_def)
qed

definition caps_ok :: "velocity_params \<Rightarrow> bool" where
  "caps_ok p \<longleftrightarrow> (\<forall>i < 7. \<exists>m. vnth (vp_max_qd p) i = Fin m \<and> 0 \<le> m)"

lemma seeded_caps_ok:
  assumes "\<forall>i < 7. \<exists>m. vnth (dyn_v_max dyn) i = Fin m \<and> 0 \<le> m"
  shows "caps_ok (seed_velocity_limits dyn p)"
  using seed_speed_within [OF assms] by (fastforce simp: caps_ok_def seed_velocity_limits_def)

text \<open>The target of a joint-velocity cycle: the published one when the counter moved.\<close>

definition vm_joint_target :: "velocity_mode \<Rightarrow> dbl \<Rightarrow> jointvec" where
  "vm_joint_target m dt_s =
     (if wd_fresh (snd (wd_tick (vm_wd m) dt_s)) then dbuf_read (vm_ext_qd m) else vm_qd_target m)"

text \<open>The limited and scaled command: in the direction asked for, within the scaled caps.\<close>

lemma scaled_limit:
  assumes p: "caps_ok p" and v: "vfinite v" and sp: "0 \<le> sp" "sp \<le> 1"
  shows "\<exists>c. 0 \<le> c \<and> c \<le> sp \<and> vscale (Fin sp) (limit_joint_velocity (vp_max_qd p) v) = vscale (Fin c) v \<and>
    (\<forall>i < 7. \<forall>m x. vnth (vp_max_qd p) i = Fin m \<longrightarrow> vnth v i = Fin x \<longrightarrow> \<bar>c * x\<bar> \<le> sp * m)"
proof -
  obtain t where t: "0 \<le> t" "t \<le> 1" "limit_joint_velocity (vp_max_qd p) v = vscale (Fin t) v"
    "\<forall>i < 7. \<forall>m x. vnth (vp_max_qd p) i = Fin m \<longrightarrow> vnth v i = Fin x \<longrightarrow> \<bar>t * x\<bar> \<le> m"
    using limit_joint_velocity_scales [OF v p [unfolded caps_ok_def]] by blast
  have "vscale (Fin sp) (vscale (Fin t) v) = vscale (Fin (sp * t)) v"
  proof (rule vec7_eqI)
    fix i :: nat assume i: "i < 7"
    then show "vnth (vscale (Fin sp) (vscale (Fin t) v)) i = vnth (vscale (Fin (sp * t)) v) i"
      using vfiniteD [OF v i] by (auto simp: isfinite_iff)
  qed
  moreover have "sp * t \<le> sp" using sp t(2) by (simp add: mult_left_le)
  moreover have "\<bar>sp * t * x\<bar> \<le> sp * m" if "\<bar>t * x\<bar> \<le> m" for x m
    using mult_left_mono [OF that sp(1)] sp(1) by (simp add: abs_mult mult.assoc)
  ultimately show ?thesis using t sp by (intro exI [of _ "sp * t"]) auto
qed

text \<open>
  A joint-velocity cycle is bounded: with a finite reference, feedback and command, the
  mode returns and commands, in position mode, a reference within 0.1 rad of the measured angle and
  inside the URDF limits (in the wrapped range on continuous joints), and the velocity it integrates
  is the commanded one scaled down uniformly, so its direction is kept and no joint exceeds the
  speed scale times its cap.
\<close>

theorem vm_compute_bounded:
  assumes lim: "limits_ok (vm_dyn m)" and p: "caps_ok (vm_get_params m)" and sp: "vm_speed_scale m = Fin sp" "0 \<le> sp" "sp \<le> 1"
    and fin: "vfinite (vm_q_ref m)" "vfinite (fb_q fb)" "vfinite (vm_joint_target m (Fin dt))"
    and src: "vm_source m = VsJoint"
  shows "\<exists>m' out'. vm_compute L m fb (Fin dt) out = Some (m', out') \<and> jc_mode out' = AmPosition \<and>
    jc_position out' = vm_q_ref m' \<and> (\<forall>i < 7. leashed (vm_dyn m) (fb_q fb) i (vnth (jc_position out') i)) \<and>
    (\<exists>c. 0 \<le> c \<and> c \<le> sp \<and> vm_qd_cmd m' = vscale (Fin c) (vm_joint_target m (Fin dt)) \<and>
       (\<forall>i < 7. \<forall>cap x. vnth (vp_max_qd (vm_get_params m)) i = Fin cap \<longrightarrow>
          vnth (vm_joint_target m (Fin dt)) i = Fin x \<longrightarrow> \<bar>c * x\<bar> \<le> sp * cap))"
proof -
  obtain stale wd where w: "wd_tick (vm_wd m) (Fin dt) = (stale, wd)" by fastforce
  define fz where "fz = vm_latch stale (wd_fresh wd) (vm_frozen m)"
  let ?v = "vm_joint_target m (Fin dt)" and ?m1 = "m\<lparr>vm_wd := wd, vm_frozen := fz\<rparr>"
  obtain c where c: "0 \<le> c" "c \<le> sp"
    "vscale (Fin sp) (limit_joint_velocity (vp_max_qd (vm_get_params m)) ?v) = vscale (Fin c) ?v"
    "\<forall>i < 7. \<forall>cap x. vnth (vp_max_qd (vm_get_params m)) i = Fin cap \<longrightarrow> vnth ?v i = Fin x \<longrightarrow> \<bar>c * x\<bar> \<le> sp * cap"
    using scaled_limit [OF p fin(3) sp(2,3)] by blast
  have zero: "vscale (Fin 0) ?v = vzero"
    by (rule vec7_eqI) (use fin(3) in \<open>auto simp: vfinite_iff isfinite_iff\<close>)
  define m2 where "m2 = (if fz then ?m1\<lparr>vm_qd_cmd := vzero, vm_q_ref := fb_q fb\<rparr>
     else (if wd_fresh wd then ?m1\<lparr>vm_qd_target := dbuf_read (vm_ext_qd m)\<rparr> else ?m1)\<lparr>vm_qd_cmd := vscale (Fin c) ?v\<rparr>)"
  have m2: "vm_dyn m2 = vm_dyn m" "vfinite (vm_q_ref m2)" "vfinite (vm_qd_cmd m2)"
    "vm_qd_cmd m2 = vscale (Fin (if fz then 0 else c)) ?v"
    using fin zero by (auto simp: m2_def vfinite_iff isfinite_iff)
  have step: "(if vm_frozen ?m1 \<or> vm_source ?m1 = VsNone
        then Some (?m1\<lparr>vm_qd_cmd := vzero, vm_q_ref := (if vm_frozen ?m1 then fb_q fb else vm_q_ref ?m1)\<rparr>)
        else vm_command L (vm_get_params m) (fb_q fb) ?m1) = Some m2"
    using src c(3) sp(1) w by (auto simp: m2_def vm_command_def Let_def vm_joint_target_def)
  obtain q where q: "integrate_leashed_reference (vm_q_ref m2) (vm_qd_cmd m2) (Fin dt) (fb_q fb) kVelocityRefMaxLead
      (vm_continuous m2) (dyn_q_lower (vm_dyn m2)) (dyn_q_upper (vm_dyn m2)) = Some q"
    "\<forall>i < 7. leashed (vm_dyn m) (fb_q fb) i (vnth q i)"
    using integrate_leashed_safe [OF lim m2(2,3) fin(2)] by (auto simp: vm_continuous_def m2(1))
  have "vm_compute L m fb (Fin dt) out = Some (m2\<lparr>vm_q_ref := q\<rparr>,
      out\<lparr>jc_mode := AmPosition, jc_position := q, jc_velocity := vzero, jc_torque := vzero\<rparr>)"
    by (simp only: vm_compute_def Let_def w prod.case fz_def [symmetric] step Option.bind.simps q(1))
  then show ?thesis
    using q(2) m2(4) c zero sp(2) by (cases fz) (auto intro!: exI [of _ "if fz then 0 else c"] simp: vfinite_iff)
qed

definition demo_velocity_mode :: velocity_mode where
  "demo_velocity_mode = vm_set_velocity_target (vm_on_enter (vm_init demo_dynamics velocity_params0) joint_feedback0) (vconst (Fin 3))"

lemma demo_velocity_mode_simps:
  "vm_dyn demo_velocity_mode = demo_dynamics" "vm_speed_scale demo_velocity_mode = Fin 1"
  "vm_q_ref demo_velocity_mode = vzero" "vm_source demo_velocity_mode = VsJoint" "vm_frozen demo_velocity_mode = False"
  "dbuf_read (vm_ext_qd demo_velocity_mode) = vconst (Fin 3)" "vm_qd_target demo_velocity_mode = vzero"
  "vm_get_params demo_velocity_mode = seed_velocity_limits demo_dynamics velocity_params0"
  by (simp_all add: demo_velocity_mode_def vm_set_velocity_target_def vm_on_enter_def vm_init_def Let_def
      joint_feedback0_def vm_get_params_def)

lemma demo_limits_ok: "limits_ok demo_dynamics"
  by (simp add: limits_ok_def demo_dynamics_def continuous_joints_def all_less_7)

lemma demo_caps_ok: "caps_ok (seed_velocity_limits demo_dynamics velocity_params0)"
  by (rule seeded_caps_ok) (auto simp: demo_dynamics_def intro: exI [of _ "6/5"])

theorem vm_compute_bounded_witness:
  "\<exists>m' out'. vm_compute demo_eigen demo_velocity_mode joint_feedback0 (Fin (1/1000)) joint_command0 = Some (m', out') \<and>
     leashed demo_dynamics vzero 3 (vnth (jc_position out') 3)"
proof -
  have fin: "vfinite (vm_q_ref demo_velocity_mode)" "vfinite (fb_q joint_feedback0)"
    "vfinite (vm_joint_target demo_velocity_mode (Fin (1/1000)))"
    by (simp_all add: demo_velocity_mode_simps joint_feedback0_def vm_joint_target_def)
  have "limits_ok (vm_dyn demo_velocity_mode)" "caps_ok (vm_get_params demo_velocity_mode)"
    by (simp_all add: demo_velocity_mode_simps demo_limits_ok demo_caps_ok)
  from vm_compute_bounded [OF this demo_velocity_mode_simps(2) _ _ fin demo_velocity_mode_simps(4), of demo_eigen joint_command0]
  show ?thesis by (auto simp: demo_velocity_mode_simps joint_feedback0_def)
qed

subsection \<open>The freeze\<close>

lemma leash_joint_hold:
  assumes "c \<Longrightarrow> in_pi x" and "\<not> c \<Longrightarrow> lo \<le> Fin x \<and> Fin x \<le> hi"
  shows "leash_joint c lo hi kVelocityRefMaxLead (Fin dt) (Fin x) (Fin 0) (Fin x) = Some (Fin x)"
  using assms by (cases c) (simp_all add: leash_joint_def kVelocityRefMaxLead_def Let_def sclamp_id in_pi_def)

text \<open>
  The freeze of the velocity mode is latched: a stale cycle, and after it every cycle that
  sees no fresh command -- also when the watchdog has been disarmed meanwhile, and whatever target or
  reference, NaN included, was left behind -- integrates zero velocity and commands exactly the
  measured configuration (when it is within the limits and the wrapped range).
\<close>

theorem vm_frozen_until_fresh:
  assumes fz: "fst (wd_tick (vm_wd m) (Fin dt)) \<or> vm_frozen m \<and> \<not> wd_fresh (snd (wd_tick (vm_wd m) (Fin dt)))"
    and q: "vfinite (fb_q fb)"
    and c: "\<And>i. i < 7 \<Longrightarrow> vnth (vm_continuous m) i \<Longrightarrow> in_pi (dval (vnth (fb_q fb) i))"
    and b: "\<And>i. i < 7 \<Longrightarrow> \<not> vnth (vm_continuous m) i \<Longrightarrow>
      vnth (dyn_q_lower (vm_dyn m)) i \<le> vnth (fb_q fb) i \<and> vnth (fb_q fb) i \<le> vnth (dyn_q_upper (vm_dyn m)) i"
  shows "\<exists>m'. vm_compute L m fb (Fin dt) out =
      Some (m', out\<lparr>jc_mode := AmPosition, jc_position := fb_q fb, jc_velocity := vzero, jc_torque := vzero\<rparr>) \<and>
    vm_frozen m' \<and> vm_qd_cmd m' = vzero \<and> vm_q_ref m' = fb_q fb"
proof -
  obtain stale wd where w: "wd_tick (vm_wd m) (Fin dt) = (stale, wd)" by fastforce
  have l: "vm_latch stale (wd_fresh wd) (vm_frozen m)" using fz w by (auto simp: vm_latch_def)
  have "integrate_leashed_reference (fb_q fb) vzero (Fin dt) (fb_q fb) kVelocityRefMaxLead
      (vm_continuous m) (dyn_q_lower (vm_dyn m)) (dyn_q_upper (vm_dyn m)) = Some (fb_q fb)"
    unfolding integrate_leashed_reference_def vgenM_Some_iff
  proof (intro allI impI)
    fix i :: nat assume i: "i < 7"
    obtain x where x: "vnth (fb_q fb) i = Fin x" using vfiniteD [OF q i] by blast
    show "leash_joint (vnth (vm_continuous m) i) (vnth (dyn_q_lower (vm_dyn m)) i) (vnth (dyn_q_upper (vm_dyn m)) i)
        kVelocityRefMaxLead (Fin dt) (vnth (fb_q fb) i) (vnth vzero i) (vnth (fb_q fb) i) = Some (vnth (fb_q fb) i)"
      using leash_joint_hold [of "vnth (vm_continuous m) i" x] c [OF i] b [OF i] x by simp
  qed
  then show ?thesis using l by (simp add: vm_compute_def w Let_def vm_continuous_def)
qed

theorem vm_frozen_until_fresh_witness:
  "\<exists>m'. vm_compute demo_eigen (vm_set_command_timeout (vm_on_enter demo_velocity_mode joint_feedback0
        \<lparr>vm_frozen := True, vm_q_ref := vconst NaN\<rparr>) (Fin 0))
      joint_feedback0 (Fin (2/10)) joint_command0 =
     Some (m', joint_command0\<lparr>jc_mode := AmPosition, jc_position := vzero, jc_velocity := vzero, jc_torque := vzero\<rparr>) \<and>
     vm_frozen m'"
proof -
  let ?m = "vm_set_command_timeout (vm_on_enter demo_velocity_mode joint_feedback0
      \<lparr>vm_frozen := True, vm_q_ref := vconst NaN\<rparr>) (Fin 0)"
  have dyn: "vm_dyn ?m = demo_dynamics" "vm_continuous ?m = vm_continuous demo_velocity_mode"
    by (simp_all add: vm_set_command_timeout_def vm_on_enter_def demo_velocity_mode_simps vm_continuous_def)
  have fz: "vm_frozen ?m \<and> \<not> wd_fresh (snd (wd_tick (vm_wd ?m) (Fin (2/10))))"
    by (simp add: vm_set_command_timeout_def vm_on_enter_def wd_defs)
  have q: "vfinite (fb_q joint_feedback0)" "fb_q joint_feedback0 = vzero" by (simp_all add: joint_feedback0_def)
  have bd: "vnth (dyn_q_lower demo_dynamics) i \<le> Fin 0 \<and> Fin 0 \<le> vnth (dyn_q_upper demo_dynamics) i" if "i < 7" for i
    using that by (elim less_7_cases) (simp_all add: demo_dynamics_def)
  show ?thesis
    using vm_frozen_until_fresh [OF disjI2 [OF fz] q(1), of demo_eigen joint_command0] bd dyn q(2)
    by (fastforce simp: in_pi_def)
qed

end
