(* ===== verification/Float_Mode.thy ===== *)
theory Float_Mode
  imports Torque_Mode
begin

section \<open>The float mode\<close>

text \<open>
  \<open>FloatMode\<close> (\<open>float_mode.h\<close> and \<open>.cpp\<close>): gravity compensation with a damper and a weak spring
  to an anchor that is dragged along by the arm. The constructor's checks throw; they are a sum type.
\<close>

record float_params =
  fp_damping :: jointvec
  fp_spring :: jointvec
  fp_drag_band_rad :: dbl
  fp_torque_limit :: jointvec

definition float_params0 :: float_params where
  "float_params0 = \<lparr>fp_damping = V7 (Fin 5) (Fin 5) (Fin 5) (Fin 5) (Fin (3/2)) (Fin (3/2)) (Fin (3/2)),
     fp_spring = V7 (Fin (286/10)) (Fin (286/10)) (Fin (286/10)) (Fin (286/10)) (Fin (86/10)) (Fin (86/10)) (Fin (86/10)),
     fp_drag_band_rad = Fin 2 * kDeg2Rad, fp_torque_limit = default_torque_limit\<rparr>"

record float_mode =
  fm_dyn :: dynamics
  fm_p :: float_params
  fm_anchor :: jointvec

datatype float_error = FeDamping | FeSpring | FeDragBand | FeTorqueLimit

definition any_joint :: "(dbl \<Rightarrow> bool) \<Rightarrow> jointvec \<Rightarrow> bool" where
  "any_joint P v = list_ex (\<lambda>i. P (vnth v i)) [0..<kNumJoints]"

definition require_nonneg_finite :: "jointvec \<Rightarrow> float_error \<Rightarrow> float_error + unit" where
  "require_nonneg_finite v e = (if any_joint (\<lambda>x. \<not> isfinite x \<or> x < Fin 0) v then Inl e else Inr ())"

definition fm_init :: "dynamics \<Rightarrow> float_params \<Rightarrow> float_error + float_mode" where
  "fm_init dyn p =
     (case require_nonneg_finite (fp_damping p) FeDamping of Inl e \<Rightarrow> Inl e | Inr _ \<Rightarrow>
      case require_nonneg_finite (fp_spring p) FeSpring of Inl e \<Rightarrow> Inl e | Inr _ \<Rightarrow>
      if \<not> isfinite (fp_drag_band_rad p) \<or> fp_drag_band_rad p \<le> Fin 0 then Inl FeDragBand
      else if any_joint (\<lambda>x. \<not> isfinite x \<or> x \<le> Fin 0) (fp_torque_limit p) then Inl FeTorqueLimit
      else Inr \<lparr>fm_dyn = dyn, fm_p = p, fm_anchor = vzero\<rparr>)"

definition fm_required_modes :: actuator_modes where
  "fm_required_modes = modes_fill AmTorque"

definition fm_on_enter :: "float_mode \<Rightarrow> joint_feedback \<Rightarrow> float_mode" where
  "fm_on_enter m fb = m\<lparr>fm_anchor := fb_q fb\<rparr>"

definition fm_continuous :: "float_mode \<Rightarrow> bool vec7" where
  "fm_continuous m = continuous_joints (dyn_q_lower (fm_dyn m)) (dyn_q_upper (fm_dyn m))"

text \<open>One joint: the new anchor and the error the spring sees.\<close>

definition drag_joint :: "bool \<Rightarrow> dbl \<Rightarrow> dbl \<Rightarrow> dbl \<Rightarrow> (dbl \<times> dbl) option" where
  "drag_joint cont band q anchor =
     do { err \<leftarrow> wrap_if cont (q - anchor);
          let (a, e) = (if band < err then (q - band, band)
                        else if err < - band then (q + band, - band)
                        else (anchor, err));
          a' \<leftarrow> wrap_if cont a;
          Some (a', e) }"

definition fm_compute :: "float_mode \<Rightarrow> joint_feedback \<Rightarrow> dbl \<Rightarrow> joint_command \<Rightarrow> (float_mode \<times> joint_command) option" where
  "fm_compute m fb dt_s out =
     do { r \<leftarrow> vgenM (\<lambda>i. drag_joint (vnth (fm_continuous m) i) (fp_drag_band_rad (fm_p m)) (vnth (fb_q fb) i) (vnth (fm_anchor m) i));
          let g = dyn_gravity (fm_dyn m) (fb_q fb);
          let t = vgen (\<lambda>i. vnth g i - vnth (fp_damping (fm_p m)) i * vnth (fb_qd fb) i - vnth (fp_spring (fm_p m)) i * snd (vnth r i));
          Some (m\<lparr>fm_anchor := vgen (\<lambda>i. fst (vnth r i))\<rparr>,
                out\<lparr>jc_mode := AmTorque, jc_torque := clamp_torque (fp_torque_limit (fm_p m)) t, jc_position := fb_q fb\<rparr>) }"

lemma any_joint_iff: "any_joint P v \<longleftrightarrow> (\<exists>i < 7. P (vnth v i))"
  by (auto simp: any_joint_def list_ex_iff)

lemma fm_init_ok:
  assumes "fm_init dyn p = Inr m"
  shows "fm_p m = p \<and> fm_dyn m = dyn \<and> (\<exists>b. fp_drag_band_rad p = Fin b \<and> 0 < b) \<and>
    (\<forall>i < 7. (\<exists>d. vnth (fp_damping p) i = Fin d \<and> 0 \<le> d) \<and> (\<exists>k. vnth (fp_spring p) i = Fin k \<and> 0 \<le> k) \<and>
       (\<exists>l. vnth (fp_torque_limit p) i = Fin l \<and> 0 < l))"
proof -
  have d: "\<not> any_joint (\<lambda>x. \<not> isfinite x \<or> x < Fin 0) (fp_damping p)"
    "\<not> any_joint (\<lambda>x. \<not> isfinite x \<or> x < Fin 0) (fp_spring p)"
    "\<not> any_joint (\<lambda>x. \<not> isfinite x \<or> x \<le> Fin 0) (fp_torque_limit p)"
    "isfinite (fp_drag_band_rad p)" "\<not> fp_drag_band_rad p \<le> Fin 0" "m = \<lparr>fm_dyn = dyn, fm_p = p, fm_anchor = vzero\<rparr>"
    using assms by (auto simp: fm_init_def require_nonneg_finite_def split: if_splits)
  have "(\<exists>d. vnth (fp_damping p) i = Fin d \<and> 0 \<le> d) \<and> (\<exists>k. vnth (fp_spring p) i = Fin k \<and> 0 \<le> k) \<and>
       (\<exists>l. vnth (fp_torque_limit p) i = Fin l \<and> 0 < l)" if "i < 7" for i
    using d(1,2,3) that unfolding any_joint_iff
    by (cases "vnth (fp_damping p) i"; cases "vnth (fp_spring p) i"; cases "vnth (fp_torque_limit p) i") force+
  then show ?thesis using d(4,5,6) by (cases "fp_drag_band_rad p") auto
qed

text \<open>The anchor is never further than the band from the arm, and is left alone inside it.\<close>

lemma drag_joint_Fin:
  assumes "0 < b"
  shows "\<exists>a e. drag_joint c (Fin b) (Fin q) (Fin a0) = Some (Fin a, Fin e) \<and> \<bar>e\<bar> \<le> b \<and>
    (if c then in_pi a \<and> near_mod_turn b a q else \<bar>q - a\<bar> \<le> b \<and> e = q - a \<and> (\<bar>q - a0\<bar> \<le> b \<longrightarrow> a = a0))"
proof (cases c)
  case False
  then show ?thesis using assms by (auto simp: drag_joint_def Let_def abs_le_iff)
next
  case True
  obtain k where k: "wrap_to_pi (Fin (q - a0)) = Some (Fin (q - a0 + 2 * of_int k * pi_r))"
    using wrap_to_pi_Fin by blast
  let ?r = "q - a0 + 2 * of_int k * pi_r"
  define a1 where "a1 = (if b < ?r then q - b else if ?r < - b then q + b else a0)"
  define e where "e = (if b < ?r then b else if ?r < - b then - b else ?r)"
  obtain j where j: "wrap_to_pi (Fin a1) = Some (Fin (a1 + 2 * of_int j * pi_r))" "in_pi (a1 + 2 * of_int j * pi_r)"
    using wrap_to_pi_Fin by blast
  have e: "\<bar>e\<bar> \<le> b" using assms by (auto simp: e_def)
  have eq: "drag_joint c (Fin b) (Fin q) (Fin a0) = Some (Fin (a1 + 2 * of_int j * pi_r), Fin e)"
    using True k j by (cases "b < ?r"; cases "?r < - b") (simp_all add: drag_joint_def a1_def e_def)
  have "\<exists>n::int. \<bar>a1 - q + 2 * of_int n * pi_r\<bar> \<le> b"
  proof (cases "b < ?r \<or> ?r < - b")
    case True
    then show ?thesis using assms by (intro exI [of _ 0]) (auto simp: a1_def)
  next
    case False
    then show ?thesis by (intro exI [of _ "- k"]) (auto simp: a1_def abs_le_iff)
  qed
  then obtain n :: int where "\<bar>a1 - q + 2 * of_int n * pi_r\<bar> \<le> b" by blast
  then have "near_mod_turn b (a1 + 2 * of_int j * pi_r) q"
    unfolding near_mod_turn_def by (intro exI [of _ "n - j"]) (simp add: algebra_simps)
  with eq e j(2) True show ?thesis by auto
qed

text \<open>
  Float mode lets go of the arm: for parameters its constructor accepts and finite feedback,
  every cycle returns with a torque command within the torque limits on each joint whose gravity
  torque is not NaN, and the anchor it keeps is finite and at most the drag band away from the arm
  (up to whole turns on continuous joints), so the spring torque is at most spring times band.
\<close>

theorem fm_compute_bounded:
  assumes init: "fm_init dyn p = Inr m0" and m: "m = m0\<lparr>fm_anchor := a\<rparr>" and a: "vfinite a"
    and q: "vfinite (fb_q fb)" and qd: "vfinite (fb_qd fb)"
  shows "\<exists>m' out'. fm_compute m fb dt out = Some (m', out') \<and> jc_mode out' = AmTorque \<and> jc_position out' = fb_q fb \<and>
    (\<forall>i < 7. (vnth (dyn_gravity dyn (fb_q fb)) i \<noteq> NaN \<longrightarrow>
         isfinite (vnth (jc_torque out') i) \<and> \<bar>dval (vnth (jc_torque out') i)\<bar> \<le> dval (vnth (fp_torque_limit p) i)) \<and>
       isfinite (vnth (fm_anchor m') i) \<and>
       near_mod_turn (dval (fp_drag_band_rad p)) (dval (vnth (fm_anchor m') i)) (dval (vnth (fb_q fb) i)))"
proof -
  note ok = fm_init_ok [OF init]
  have mp: "fm_p m = p" "fm_dyn m = dyn" "fm_anchor m = a" using ok m by simp_all
  obtain b where b: "fp_drag_band_rad p = Fin b" "0 < b" using ok by blast
  let ?f = "\<lambda>i. drag_joint (vnth (fm_continuous m) i) (fp_drag_band_rad (fm_p m)) (vnth (fb_q fb) i) (vnth (fm_anchor m) i)"
  have one: "\<exists>x e. ?f i = Some (Fin x, Fin e) \<and> near_mod_turn b x (dval (vnth (fb_q fb) i))" if i: "i < 7" for i
  proof -
    obtain x0 y0 where "vnth (fb_q fb) i = Fin x0" "vnth a i = Fin y0"
      using q a i by (meson isfinite_iff vfiniteD)
    then show ?thesis
      using drag_joint_Fin [OF b(2), of "vnth (fm_continuous m) i" x0 y0] b mp
      by (auto split: if_splits intro!: near_mod_turnI simp: abs_minus_commute)
  qed
  then have "\<And>i. i < 7 \<Longrightarrow> \<exists>y. ?f i = Some y" by blast
  then obtain r where r: "vgenM ?f = Some r" using vgenM_SomeI [of ?f] by blast
  have nth: "\<exists>x e. vnth r i = (Fin x, Fin e) \<and> near_mod_turn b x (dval (vnth (fb_q fb) i))" if "i < 7" for i
    using one [OF that] r that by (auto simp: vgenM_Some_iff)
  let ?t = "vgen (\<lambda>i. vnth (dyn_gravity dyn (fb_q fb)) i - vnth (fp_damping p) i * vnth (fb_qd fb) i
      - vnth (fp_spring p) i * snd (vnth r i))"
  have torque: "\<exists>t l. vnth (clamp_torque (fp_torque_limit p) ?t) i = Fin t \<and> vnth (fp_torque_limit p) i = Fin l \<and> \<bar>t\<bar> \<le> l"
    if i: "i < 7" and g: "vnth (dyn_gravity dyn (fb_q fb)) i \<noteq> NaN" for i
  proof -
    obtain d k l v where "vnth (fp_damping p) i = Fin d" "vnth (fp_spring p) i = Fin k"
      "vnth (fp_torque_limit p) i = Fin l" "0 < l" "vnth (fb_qd fb) i = Fin v"
      using ok qd i by (meson isfinite_iff vfiniteD)
    moreover obtain x e where "vnth r i = (Fin x, Fin e)" using nth [OF i] by blast
    moreover have "vnth ?t i \<noteq> NaN" using calculation g i by (cases "vnth (dyn_gravity dyn (fb_q fb)) i") auto
    ultimately show ?thesis using clamp_torque_bounded [OF i, of "fp_torque_limit p" l ?t] by auto
  qed
  have "fm_compute m fb dt out = Some (m\<lparr>fm_anchor := vgen (\<lambda>i. fst (vnth r i))\<rparr>,
      out\<lparr>jc_mode := AmTorque, jc_torque := clamp_torque (fp_torque_limit p) ?t, jc_position := fb_q fb\<rparr>)"
    using r mp by (simp add: fm_compute_def Let_def)
  then show ?thesis using torque nth b by (fastforce simp: mp)
qed

theorem fm_compute_bounded_witness:
  "\<exists>m0 m' out'. fm_init zero_dynamics float_params0 = Inr m0 \<and>
     fm_compute (m0\<lparr>fm_anchor := vconst (Fin 1)\<rparr>) joint_feedback0 (Fin (1/1000)) joint_command0 = Some (m', out') \<and>
     isfinite (vnth (fm_anchor m') 6) \<and> \<bar>dval (vnth (jc_torque out') 6)\<bar> \<le> 9"
proof -
  have n: "\<not> any_joint (\<lambda>x. \<not> isfinite x \<or> x < Fin 0) (fp_damping float_params0)"
    "\<not> any_joint (\<lambda>x. \<not> isfinite x \<or> x < Fin 0) (fp_spring float_params0)"
    "\<not> any_joint (\<lambda>x. \<not> isfinite x \<or> x \<le> Fin 0) (fp_torque_limit float_params0)"
    by (auto simp: any_joint_iff float_params0_def default_torque_limit_def elim!: less_7_cases)
  have b: "isfinite (fp_drag_band_rad float_params0)" "\<not> fp_drag_band_rad float_params0 \<le> Fin 0"
    by (simp_all add: float_params0_def kDeg2Rad_def M_PI_def pi_r_def)
  have i: "fm_init zero_dynamics float_params0 = Inr \<lparr>fm_dyn = zero_dynamics, fm_p = float_params0, fm_anchor = vzero\<rparr>"
    using n b by (simp add: fm_init_def require_nonneg_finite_def)
  have f: "vfinite (vconst (Fin 1))" "vfinite (fb_q joint_feedback0)" "vfinite (fb_qd joint_feedback0)"
    by (simp_all add: joint_feedback0_def)
  have 6: "(6::nat) < 7" by simp
  have g: "vnth (dyn_gravity zero_dynamics (fb_q joint_feedback0)) 6 \<noteq> NaN" "dval (vnth (fp_torque_limit float_params0) 6) = 9"
    by (simp_all add: zero_dynamics_def float_params0_def default_torque_limit_def)
  from fm_compute_bounded [OF i refl f, of "Fin (1/1000)" joint_command0] 6 g i show ?thesis by metis
qed

end
