(* ===== verification/Control_Modes.thy ===== *)
theory Control_Modes
  imports Position_Mode Velocity_Mode Torque_Mode Float_Mode Impedance_Mode
begin

section \<open>The control-mode interface\<close>

text \<open>
  \<open>ControlMode\<close> (\<open>control_mode.h\<close>), the interface the real-time loop drives, as a record of functions
  over an identifier \<open>'i\<close> of the mode (the code's pointer) and the state \<open>'m\<close> of all modes; its
  contract as the locale \<open>commanding_modes\<close>; and the driver's five modes as its instance. \<open>compute\<close>
  is partial because wrapping an infinite angle does not return.
\<close>

record ('i, 'm) control_modes =
  mo_required_modes :: "'i \<Rightarrow> actuator_modes"
  mo_on_enter :: "'i \<Rightarrow> joint_feedback \<Rightarrow> 'm \<Rightarrow> 'm"
  mo_compute :: "'i \<Rightarrow> joint_feedback \<Rightarrow> dbl \<Rightarrow> joint_command \<Rightarrow> 'm \<Rightarrow> ('m \<times> joint_command) option"
  mo_on_exit :: "'i \<Rightarrow> 'm \<Rightarrow> 'm"

text \<open>
  A mode computes commands for the actuator modes it asks for, and hands back the gripper part of
  the command as it got it.
\<close>

locale commanding_modes =
  fixes cm :: "('i, 'm) control_modes"
  assumes compute_mode: "mo_compute cm i fb dt c m = Some (m', c') \<Longrightarrow> mo_required_modes cm i = modes_fill (jc_mode c')"
    and compute_gripper: "mo_compute cm i fb dt c m = Some (m', c') \<Longrightarrow> jc_gripper c' = jc_gripper c"

subsection \<open>The driver's modes\<close>

datatype mode_id = MidPosition | MidVelocity | MidTorque | MidImpedance | MidFloat

record driver_modes =
  dm_position :: position_mode
  dm_velocity :: velocity_mode
  dm_torque :: torque_mode
  dm_impedance :: impedance_mode
  dm_float :: float_mode

fun dm_required_modes :: "mode_id \<Rightarrow> actuator_modes" where
  "dm_required_modes MidPosition = pm_required_modes"
| "dm_required_modes MidVelocity = vm_required_modes"
| "dm_required_modes MidTorque = tm_required_modes"
| "dm_required_modes MidImpedance = im_required_modes"
| "dm_required_modes MidFloat = fm_required_modes"

fun dm_on_enter :: "mode_id \<Rightarrow> joint_feedback \<Rightarrow> driver_modes \<Rightarrow> driver_modes" where
  "dm_on_enter MidPosition fb m = m\<lparr>dm_position := pm_on_enter (dm_position m) fb\<rparr>"
| "dm_on_enter MidVelocity fb m = m\<lparr>dm_velocity := vm_on_enter (dm_velocity m) fb\<rparr>"
| "dm_on_enter MidTorque fb m = m\<lparr>dm_torque := tm_on_enter (dm_torque m)\<rparr>"
| "dm_on_enter MidImpedance fb m = m\<lparr>dm_impedance := im_on_enter (dm_impedance m) fb\<rparr>"
| "dm_on_enter MidFloat fb m = m\<lparr>dm_float := fm_on_enter (dm_float m) fb\<rparr>"

fun dm_compute :: "eigen \<Rightarrow> mode_id \<Rightarrow> joint_feedback \<Rightarrow> dbl \<Rightarrow> joint_command \<Rightarrow> driver_modes \<Rightarrow> (driver_modes \<times> joint_command) option" where
  "dm_compute e MidPosition fb dt c m =
     map_option (\<lambda>(p, c'). (m\<lparr>dm_position := p\<rparr>, c')) (pm_compute e (dm_position m) fb dt c)"
| "dm_compute e MidVelocity fb dt c m =
     map_option (\<lambda>(p, c'). (m\<lparr>dm_velocity := p\<rparr>, c')) (vm_compute e (dm_velocity m) fb dt c)"
| "dm_compute e MidTorque fb dt c m =
     (let (p, c') = tm_compute (dm_torque m) fb dt c in Some (m\<lparr>dm_torque := p\<rparr>, c'))"
| "dm_compute e MidImpedance fb dt c m =
     map_option (\<lambda>(p, c'). (m\<lparr>dm_impedance := p\<rparr>, c')) (im_compute e (dm_impedance m) fb dt c)"
| "dm_compute e MidFloat fb dt c m =
     map_option (\<lambda>(p, c'). (m\<lparr>dm_float := p\<rparr>, c')) (fm_compute (dm_float m) fb dt c)"

text \<open>\<open>on_exit\<close> does nothing in any of them.\<close>

definition driver_control_modes :: "eigen \<Rightarrow> (mode_id, driver_modes) control_modes" where
  "driver_control_modes e = \<lparr>mo_required_modes = dm_required_modes, mo_on_enter = dm_on_enter,
     mo_compute = dm_compute e, mo_on_exit = (\<lambda>_ m. m)\<rparr>"

lemma pm_compute_mode:
  "pm_compute e m fb dt c = Some (m', c') \<Longrightarrow> jc_mode c' = AmPosition \<and> jc_gripper c' = jc_gripper c"
  by (auto simp: pm_compute_def Let_def split: prod.splits bind_splits)

lemma vm_compute_mode:
  "vm_compute e m fb dt c = Some (m', c') \<Longrightarrow> jc_mode c' = AmPosition \<and> jc_gripper c' = jc_gripper c"
  by (auto simp: vm_compute_def Let_def split: prod.splits bind_splits)

lemma tm_compute_mode: "jc_mode (snd (tm_compute m fb dt c)) = AmTorque \<and> jc_gripper (snd (tm_compute m fb dt c)) = jc_gripper c"
  by (auto simp: tm_compute_def Let_def split: prod.splits)

lemma im_compute_mode:
  "im_compute e m fb dt c = Some (m', c') \<Longrightarrow> jc_mode c' = AmTorque \<and> jc_gripper c' = jc_gripper c"
  by (auto simp: im_compute_def Let_def split: prod.splits bind_splits)

lemma fm_compute_mode:
  "fm_compute m fb dt c = Some (m', c') \<Longrightarrow> jc_mode c' = AmTorque \<and> jc_gripper c' = jc_gripper c"
  by (auto simp: fm_compute_def Let_def split: prod.splits bind_splits)

lemma dm_compute_mode:
  "dm_compute e i fb dt c m = Some (m', c') \<Longrightarrow> dm_required_modes i = modes_fill (jc_mode c') \<and> jc_gripper c' = jc_gripper c"
  using tm_compute_mode [of "dm_torque m" fb dt c]
  by (cases i) (auto simp: pm_required_modes_def vm_required_modes_def tm_required_modes_def
      im_required_modes_def fm_required_modes_def Let_def dest: pm_compute_mode vm_compute_mode
      im_compute_mode fm_compute_mode split: prod.splits)

interpretation modes: commanding_modes "driver_control_modes e" for e
  by unfold_locales (auto simp: driver_control_modes_def dest: dm_compute_mode)

end
