(* ===== verification/Contact_Monitor.thy ===== *)
theory Contact_Monitor
  imports Joint_Types
begin

section \<open>Contact detection\<close>

text \<open>
  \<open>MomentumObserver\<close> (\<open>momentum_observer.h\<close>, \<open>.cpp\<close>), \<open>ContactMonitor\<close> (\<open>contact_monitor.h\<close>,
  \<open>.cpp\<close>) and the threshold profiles (\<open>interface/contact.h\<close>, \<open>.cpp\<close>): the observer's residual,
  its settling, the per-joint debounce, the latch and its clearing. The messages of a refusal are the
  datatype of what was refused. The model's mass, Coriolis and gravity terms are the parameter \<open>dynamics\<close>.
\<close>

subsection \<open>The momentum observer\<close>

record momentum_observer =
  mo_dyn :: dynamics
  mo_gain :: dbl
  mo_seeded :: bool
  mo_time_s :: dbl
  mo_p0 :: jointvec
  mo_integral :: jointvec
  mo_r :: jointvec

definition mo_init :: "dynamics \<Rightarrow> dbl \<Rightarrow> momentum_observer option" where
  "mo_init dyn gain =
     (if \<not> isfinite gain \<or> gain \<le> Fin 0 then None
      else Some \<lparr>mo_dyn = dyn, mo_gain = gain, mo_seeded = False, mo_time_s = Fin 0, mo_p0 = vzero,
                 mo_integral = vzero, mo_r = vzero\<rparr>)"

definition mo_reset :: "momentum_observer \<Rightarrow> momentum_observer" where
  "mo_reset o1 = o1\<lparr>mo_seeded := False, mo_time_s := Fin 0, mo_integral := vzero, mo_r := vzero\<rparr>"

definition mo_step :: "momentum_observer \<Rightarrow> jointvec \<Rightarrow> jointvec \<Rightarrow> jointvec \<Rightarrow> dbl \<Rightarrow> momentum_observer" where
  "mo_step o1 q qd tau dt_s =
     (let p = mat_vec (dyn_mass_matrix (mo_dyn o1) q) qd
      in if \<not> mo_seeded o1
         then o1\<lparr>mo_p0 := p, mo_integral := vzero, mo_r := vzero, mo_time_s := Fin 0, mo_seeded := True\<rparr>
         else (let C = dyn_coriolis (mo_dyn o1) q qd; g = dyn_gravity (mo_dyn o1) q;
                   integral = mo_integral o1 + vscale dt_s (((tau + mat_vec (mat_tr C) qd) - g) + mo_r o1);
                   r = vscale (mo_gain o1) ((p - mo_p0 o1) - integral)
               in o1\<lparr>mo_integral := integral, mo_r := r, mo_time_s := mo_time_s o1 + dt_s\<rparr>))"

subsection \<open>Thresholds and configuration\<close>

datatype threshold_error = TeCeiling nat | TeThreshold nat

fun validate_thresholds_from :: "jointvec \<Rightarrow> jointvec \<Rightarrow> nat list \<Rightarrow> threshold_error option" where
  "validate_thresholds_from theta ceil [] = None"
| "validate_thresholds_from theta ceil (i # is) =
     (if \<not> (isfinite (vnth ceil i) \<and> Fin 0 < vnth ceil i) then Some (TeCeiling i)
      else if \<not> (isfinite (vnth theta i) \<and> Fin 0 < vnth theta i \<and> vnth theta i \<le> vnth ceil i)
        then Some (TeThreshold i)
      else validate_thresholds_from theta ceil is)"

definition validate_contact_thresholds :: "jointvec \<Rightarrow> jointvec \<Rightarrow> threshold_error option" where
  "validate_contact_thresholds theta ceil = validate_thresholds_from theta ceil [0..<kNumJoints]"

datatype contact_detection = DetObserve | DetEnforce
datatype contact_phase = PhSettling | PhArmed | PhLatched

record contact_config =
  cc_detection :: contact_detection
  cc_gain :: dbl
  cc_debounce_cycles :: int
  cc_initial_theta :: jointvec
  cc_ceiling :: jointvec

definition contact_config0 :: contact_config where
  "contact_config0 = \<lparr>cc_detection = DetEnforce, cc_gain = Fin 25, cc_debounce_cycles = 5,
     cc_initial_theta = vconst NaN, cc_ceiling = vconst NaN\<rparr>"

datatype config_error = CeGain | CeDebounce | CeCeiling threshold_error | CeInitialTheta threshold_error

definition validated :: "contact_config \<Rightarrow> config_error + contact_config" where
  "validated c =
     (if \<not> (isfinite (cc_gain c) \<and> Fin 0 < cc_gain c) then Inl CeGain
      else if cc_debounce_cycles c < 1 then Inl CeDebounce
      else (case validate_contact_thresholds (cc_ceiling c) (cc_ceiling c) of
              Some e \<Rightarrow> Inl (CeCeiling e)
            | None \<Rightarrow> (case validate_contact_thresholds (cc_initial_theta c) (cc_ceiling c) of
                Some e \<Rightarrow> Inl (CeInitialTheta e)
              | None \<Rightarrow> Inr c)))"

lemma validate_thresholds_from_None:
  "validate_thresholds_from theta ceil is = None \<longleftrightarrow>
     (\<forall>i \<in> set is. isfinite (vnth ceil i) \<and> Fin 0 < vnth ceil i \<and> isfinite (vnth theta i) \<and>
        Fin 0 < vnth theta i \<and> vnth theta i \<le> vnth ceil i)"
  by (induction "is") auto

lemma validate_contact_thresholds_None:
  "validate_contact_thresholds theta ceil = None \<longleftrightarrow>
     (\<forall>i < 7. \<exists>t c. vnth theta i = Fin t \<and> vnth ceil i = Fin c \<and> 0 < t \<and> t \<le> c)"
proof -
  have "(isfinite c \<and> Fin 0 < c \<and> isfinite t \<and> Fin 0 < t \<and> t \<le> c) \<longleftrightarrow>
    (\<exists>t' c'. t = Fin t' \<and> c = Fin c' \<and> 0 < t' \<and> t' \<le> c')" for t c
    by (cases t; cases c) auto
  then show ?thesis by (simp add: validate_contact_thresholds_def validate_thresholds_from_None Ball_def)
qed

subsection \<open>Profiles\<close>

datatype contact_profile = CpDefault | CpSensitive | CpLoose | CpCustom | CpUnknown nat

record contact_profiles =
  cps_sensitive :: jointvec
  cps_normal :: jointvec
  cps_loose :: jointvec
  cps_ceiling :: jointvec

record contact_thresholds_request =
  ctr_profile :: contact_profile
  ctr_custom :: jointvec
  ctr_token :: "128 word"

datatype contact_error = CtCeiling threshold_error | CtProfile string threshold_error
  | CtThreshold threshold_error | CtUnknownProfile

definition validate_profiles :: "contact_profiles \<Rightarrow> contact_error option" where
  "validate_profiles p =
     (case validate_contact_thresholds (cps_ceiling p) (cps_ceiling p) of Some e \<Rightarrow> Some (CtCeiling e)
      | None \<Rightarrow>
     (case validate_contact_thresholds (cps_sensitive p) (cps_ceiling p) of Some e \<Rightarrow> Some (CtProfile ''sensitive'' e)
      | None \<Rightarrow>
     (case validate_contact_thresholds (cps_normal p) (cps_ceiling p) of Some e \<Rightarrow> Some (CtProfile ''default'' e)
      | None \<Rightarrow>
     (case validate_contact_thresholds (cps_loose p) (cps_ceiling p) of Some e \<Rightarrow> Some (CtProfile ''loose'' e)
      | None \<Rightarrow> None))))"

text \<open>The result, and \<open>theta_out\<close>, written only when the check passes.\<close>

definition resolve_contact :: "contact_thresholds_request \<Rightarrow> contact_profiles \<Rightarrow> contact_error + jointvec" where
  "resolve_contact req p =
     (let check = (\<lambda>theta. case validate_contact_thresholds theta (cps_ceiling p) of
                     None \<Rightarrow> Inr theta | Some e \<Rightarrow> Inl (CtThreshold e))
      in (case ctr_profile req of
            CpDefault \<Rightarrow> check (cps_normal p)
          | CpSensitive \<Rightarrow> check (cps_sensitive p)
          | CpLoose \<Rightarrow> check (cps_loose p)
          | CpCustom \<Rightarrow> check (ctr_custom req)
          | CpUnknown _ \<Rightarrow> Inl CtUnknownProfile))"

lemma resolve_contact_valid:
  "resolve_contact req p = Inr theta \<Longrightarrow> validate_contact_thresholds theta (cps_ceiling p) = None"
  by (auto simp: resolve_contact_def Let_def split: contact_profile.splits option.splits)

lemma resolve_contact_named:
  assumes "validate_profiles p = None" and "ctr_profile req \<in> {CpDefault, CpSensitive, CpLoose}"
  shows "\<exists>theta. resolve_contact req p = Inr theta"
  using assms by (auto simp: resolve_contact_def validate_profiles_def Let_def split: option.splits)

subsection \<open>The monitor\<close>

record contact_trip =
  ct_cycle :: "64 word"
  ct_joint :: int
  ct_r :: jointvec
  ct_theta :: jointvec
  ct_q :: jointvec
  ct_qd :: jointvec

record contact_status =
  cs_detection :: contact_detection
  cs_phase :: contact_phase
  cs_settled :: bool
  cs_r :: jointvec
  cs_theta :: jointvec
  cs_would_trips :: "64 word"
  cs_bad_samples :: "64 word"
  cs_has_trip :: bool
  cs_last :: contact_trip

definition contact_trip0 :: contact_trip where
  "contact_trip0 = \<lparr>ct_cycle = 0, ct_joint = - 1, ct_r = vzero, ct_theta = vzero, ct_q = vzero, ct_qd = vzero\<rparr>"

definition contact_status0 :: contact_status where
  "contact_status0 = \<lparr>cs_detection = DetEnforce, cs_phase = PhSettling, cs_settled = False, cs_r = vzero,
     cs_theta = vzero, cs_would_trips = 0, cs_bad_samples = 0, cs_has_trip = False, cs_last = contact_trip0\<rparr>"

text \<open>\<open>cm_pub\<close> and \<open>cm_version\<close> are the status last stored in the Seqlock and its counter.\<close>

record contact_monitor =
  cm_cfg :: contact_config
  cm_observer :: momentum_observer
  cm_theta_buf :: "jointvec dbuf"
  cm_clear_requested :: bool
  cm_latched :: bool
  cm_theta :: jointvec
  cm_count :: "int vec7"
  cm_pending_dt :: dbl
  cm_cycle :: "64 word"
  cm_status :: contact_status
  cm_pub :: contact_status
  cm_version :: "32 word"

definition cm_settle_s :: "contact_monitor \<Rightarrow> dbl" where
  "cm_settle_s m = Fin 5 / cc_gain (cm_cfg m)"

definition cm_max_step_s :: "contact_monitor \<Rightarrow> dbl" where
  "cm_max_step_s m = Fin 1 / cc_gain (cm_cfg m)"

definition cm_publish :: "contact_monitor \<Rightarrow> contact_monitor" where
  "cm_publish m = m\<lparr>cm_pub := cm_status m, cm_version := cm_version m + 2\<rparr>"

definition cm_init :: "dynamics \<Rightarrow> contact_config \<Rightarrow> config_error + contact_monitor" where
  "cm_init dyn cfg0 =
     (case validated cfg0 of Inl e \<Rightarrow> Inl e
      | Inr cfg \<Rightarrow>
        (case mo_init dyn (cc_gain cfg) of None \<Rightarrow> Inl CeGain
         | Some ob \<Rightarrow>
           Inr (cm_publish \<lparr>cm_cfg = cfg, cm_observer = ob, cm_theta_buf = dbuf_init (cc_initial_theta cfg),
             cm_clear_requested = False, cm_latched = False, cm_theta = cc_initial_theta cfg,
             cm_count = vconst 0, cm_pending_dt = Fin 0, cm_cycle = 0,
             cm_status = contact_status0\<lparr>cs_detection := cc_detection cfg, cs_theta := cc_initial_theta cfg\<rparr>,
             cm_pub = contact_status0, cm_version = 0\<rparr>)))"

definition cm_set_thresholds :: "contact_monitor \<Rightarrow> jointvec \<Rightarrow> contact_monitor" where
  "cm_set_thresholds m theta = m\<lparr>cm_theta_buf := dbuf_publish (cm_theta_buf m) theta\<rparr>"

definition cm_request_clear :: "contact_monitor \<Rightarrow> contact_monitor" where
  "cm_request_clear m = m\<lparr>cm_clear_requested := True\<rparr>"

definition cm_restart :: "contact_monitor \<Rightarrow> contact_monitor" where
  "cm_restart m =
     (let ob = mo_reset (cm_observer m)
      in m\<lparr>cm_observer := ob, cm_count := vconst 0, cm_pending_dt := Fin 0,
           cm_status := (cm_status m)\<lparr>cs_r := mo_r ob, cs_settled := False,
             cs_phase := (if cm_latched m then PhLatched else PhSettling)\<rparr>\<rparr>)"

definition cm_on_run_start :: "contact_monitor \<Rightarrow> contact_monitor" where
  "cm_on_run_start m =
     (let m1 = (if cm_clear_requested m then m\<lparr>cm_latched := False\<rparr> else m)
      in cm_publish (cm_restart (m1\<lparr>cm_clear_requested := False\<rparr>)))"

text \<open>One joint of the debounce loop: its counter, and whether it reaches the count now.\<close>

definition debounce_joint :: "int \<Rightarrow> jointvec \<Rightarrow> jointvec \<Rightarrow> nat \<Rightarrow> int vec7 \<times> int \<Rightarrow> int vec7 \<times> int" where
  "debounce_joint debounce r theta i = (\<lambda>(count, tripped).
     if vnth theta i < abs (vnth r i)
     then if vnth count i < debounce
          then (vupd count i (vnth count i + 1),
                if vnth count i + 1 = debounce \<and> tripped < 0 then int i else tripped)
          else (count, tripped)
     else (vupd count i 0, tripped))"

definition debounce :: "int \<Rightarrow> jointvec \<Rightarrow> jointvec \<Rightarrow> int vec7 \<Rightarrow> int vec7 \<times> int" where
  "debounce n r theta count = fold (debounce_joint n r theta) [0..<kNumJoints] (count, - 1)"

definition cm_record_trip :: "joint_feedback \<Rightarrow> 64 word \<Rightarrow> int \<Rightarrow> contact_monitor \<Rightarrow> contact_monitor" where
  "cm_record_trip fb cycle tripped m =
     (let st = (cm_status m)\<lparr>cs_would_trips := cs_would_trips (cm_status m) + 1, cs_has_trip := True,
                cs_last := \<lparr>ct_cycle = cycle, ct_joint = tripped, ct_r = cs_r (cm_status m), ct_theta = cm_theta m,
                            ct_q = fb_q fb, ct_qd = fb_qd fb\<rparr>\<rparr>
      in if cc_detection (cm_cfg m) = DetEnforce
         then m\<lparr>cm_latched := True, cm_status := st\<lparr>cs_phase := PhLatched\<rparr>\<rparr>
         else m\<lparr>cm_status := st\<rparr>)"

definition cm_adopt :: "contact_monitor \<Rightarrow> contact_monitor" where
  "cm_adopt m =
     (let m1 = (if cm_clear_requested m then cm_restart (m\<lparr>cm_clear_requested := False, cm_latched := False\<rparr>) else m);
          th = dbuf_read (cm_theta_buf m1)
      in m1\<lparr>cm_theta := th, cm_status := (cm_status m1)\<lparr>cs_theta := th\<rparr>\<rparr>)"

definition cm_good_sample :: "joint_feedback \<Rightarrow> bool" where
  "cm_good_sample fb = (vfinite (fb_q fb) \<and> vfinite (fb_qd fb) \<and> vfinite (fb_tau fb))"

definition cm_observe :: "joint_feedback \<Rightarrow> dbl \<Rightarrow> contact_monitor \<Rightarrow> contact_monitor" where
  "cm_observe fb dt_s m =
     (let ob = mo_step (cm_observer m) (fb_q fb) (fb_qd fb) (fb_tau fb) (smin (cm_pending_dt m + dt_s) (cm_max_step_s m))
      in m\<lparr>cm_observer := ob, cm_pending_dt := Fin 0,
           cm_status := (cm_status m)\<lparr>cs_r := mo_r ob, cs_settled := cm_settle_s m \<le> mo_time_s ob\<rparr>\<rparr>)"

definition cm_set_phase :: "contact_phase \<Rightarrow> contact_monitor \<Rightarrow> contact_monitor" where
  "cm_set_phase ph m = m\<lparr>cm_status := (cm_status m)\<lparr>cs_phase := ph\<rparr>\<rparr>"

definition cm_step :: "contact_monitor \<Rightarrow> joint_feedback \<Rightarrow> dbl \<Rightarrow> bool \<Rightarrow> bool \<times> contact_monitor" where
  "cm_step m0 fb dt_s missed =
     (let cycle = cm_cycle m0;
          m = cm_adopt (m0\<lparr>cm_cycle := cycle + 1\<rparr>);
          latched = cm_latched m
      in if missed \<or> \<not> cm_good_sample fb
         then (let m1 = (if \<not> missed then m\<lparr>cm_status := (cm_status m)\<lparr>cs_bad_samples := cs_bad_samples (cm_status m) + 1\<rparr>\<rparr> else m)
               in (latched, cm_publish (m1\<lparr>cm_pending_dt := cm_pending_dt m1 + dt_s\<rparr>)))
         else (let m2 = cm_observe fb dt_s m
               in if latched then (True, cm_publish (cm_set_phase PhLatched m2))
                  else if \<not> cs_settled (cm_status m2) then (False, cm_publish (cm_set_phase PhSettling m2))
                  else (let m3 = cm_set_phase PhArmed m2;
                            (count, tripped) = debounce (cc_debounce_cycles (cm_cfg m3)) (cs_r (cm_status m3)) (cm_theta m3) (cm_count m3);
                            m4 = m3\<lparr>cm_count := count\<rparr>;
                            m5 = (if 0 \<le> tripped then cm_record_trip fb cycle tripped m4 else m4)
                        in (cs_phase (cm_status m5) = PhLatched, cm_publish m5))))"

subsection \<open>The debounce\<close>

definition over :: "jointvec \<Rightarrow> jointvec \<Rightarrow> nat \<Rightarrow> bool" where
  "over r theta i = (vnth theta i < abs (vnth r i))"

definition debounce_hit :: "int \<Rightarrow> jointvec \<Rightarrow> jointvec \<Rightarrow> int vec7 \<Rightarrow> nat \<Rightarrow> bool" where
  "debounce_hit n r theta count i = (over r theta i \<and> vnth count i < n \<and> vnth count i + 1 = n)"

definition debounce_count :: "int \<Rightarrow> jointvec \<Rightarrow> jointvec \<Rightarrow> int vec7 \<Rightarrow> nat \<Rightarrow> int" where
  "debounce_count n r theta count i =
     (if over r theta i then if vnth count i < n then vnth count i + 1 else vnth count i else 0)"

lemma debounce_fold:
  assumes "distinct is" and "\<forall>i \<in> set is. i < 7 \<and> vnth c i = vnth c0 i"
  shows "(\<forall>j < 7. vnth (fst (fold (debounce_joint n r theta) is (c, t))) j =
            (if j \<in> set is then debounce_count n r theta c0 j else vnth c j)) \<and>
         snd (fold (debounce_joint n r theta) is (c, t)) =
            (if 0 \<le> t then t else case find (debounce_hit n r theta c0) is of None \<Rightarrow> t | Some i \<Rightarrow> int i)"
  using assms
proof (induction "is" arbitrary: c t)
  case Nil
  then show ?case by simp
next
  case (Cons i "is")
  let ?c = "fst (debounce_joint n r theta i (c, t))" and ?t = "snd (debounce_joint n r theta i (c, t))"
  have i: "i < 7" "vnth c i = vnth c0 i" "i \<notin> set is" "distinct is" using Cons.prems by auto
  have c: "vnth ?c j = (if j = i then debounce_count n r theta c0 i else vnth c j)" if "j < 7" for j
    using i that by (simp add: debounce_joint_def debounce_count_def over_def)
  have t: "?t = (if 0 \<le> t then t else if debounce_hit n r theta c0 i then int i else t)"
    using i by (simp add: debounce_joint_def debounce_hit_def over_def)
  have "\<forall>j \<in> set is. j < 7 \<and> vnth ?c j = vnth c0 j" using Cons.prems(2) i(3) c by auto
  note IH = Cons.IH [OF i(4) this, of ?t]
  have e: "fold (debounce_joint n r theta) (i # is) (c, t) = fold (debounce_joint n r theta) is (?c, ?t)" by simp
  show ?case
    unfolding e using IH i c t by (auto split: option.splits)
qed

lemma debounce_nth: "j < 7 \<Longrightarrow> vnth (fst (debounce n r theta c)) j = debounce_count n r theta c j"
  using debounce_fold [of "[0..<7]" c c n r theta "- 1"] by (simp add: debounce_def del: upt_rec_numeral)

lemma debounce_tripped:
  "snd (debounce n r theta c) = (case find (debounce_hit n r theta c) [0..<7] of None \<Rightarrow> - 1 | Some i \<Rightarrow> int i)"
  using debounce_fold [of "[0..<7]" c c n r theta "- 1"] by (simp add: debounce_def del: upt_rec_numeral)

lemma debounce_tripped_iff: "0 \<le> snd (debounce n r theta c) \<longleftrightarrow> (\<exists>i < 7. debounce_hit n r theta c i)"
proof (cases "find (debounce_hit n r theta c) [0..<7]")
  case None
  then have "snd (debounce n r theta c) = - 1" by (simp only: debounce_tripped option.case)
  moreover have "\<forall>i < 7. \<not> debounce_hit n r theta c i"
    using None unfolding find_None_iff by (metis atLeastLessThan_iff set_upt zero_le)
  ultimately show ?thesis by auto
next
  case (Some i)
  then have "snd (debounce n r theta c) = int i" by (simp only: debounce_tripped option.case)
  moreover have "i < 7 \<and> debounce_hit n r theta c i"
    using Some unfolding find_Some_iff by (metis atLeastLessThan_iff nth_mem set_upt)
  ultimately show ?thesis by auto
qed

text \<open>The reference: how many of the last observations in a row put the joint over its threshold.\<close>

definition trailing_over :: "nat \<Rightarrow> (jointvec \<times> jointvec) list \<Rightarrow> int" where
  "trailing_over i obs = int (length (takeWhile (\<lambda>(r, theta). over r theta i) (rev obs)))"

fun debounce_run :: "int \<Rightarrow> (jointvec \<times> jointvec) list \<Rightarrow> int vec7 \<Rightarrow> int vec7" where
  "debounce_run n [] c = c"
| "debounce_run n ((r, theta) # obs) c = debounce_run n obs (fst (debounce n r theta c))"

lemma debounce_run_append: "debounce_run n (xs @ ys) c = debounce_run n ys (debounce_run n xs c)"
  by (induction n xs c rule: debounce_run.induct) simp_all

lemma trailing_over_snoc:
  "trailing_over i (obs @ [(r, theta)]) = (if over r theta i then trailing_over i obs + 1 else 0)"
  by (simp add: trailing_over_def)

lemma debounce_run_counts:
  assumes "1 \<le> n" and "i < 7"
  shows "vnth (debounce_run n obs (vconst 0)) i = min n (trailing_over i obs)"
proof (induction obs rule: rev_induct)
  case Nil
  then show ?case using assms by (simp add: trailing_over_def)
next
  case (snoc x obs)
  obtain r theta where x: "x = (r, theta)" by (cases x)
  have "0 \<le> trailing_over i obs" by (simp add: trailing_over_def)
  then show ?case
    using snoc assms by (simp add: x debounce_run_append debounce_nth debounce_count_def trailing_over_snoc)
qed

text \<open>
  The debounce is what the documentation says: over any sequence of armed observations since
  the counters were cleared, an observation trips exactly when it is the debounce count's consecutive
  one over the threshold for some joint -- neither earlier nor again while the stretch lasts -- and the
  joint reported is the first such.
\<close>

theorem debounce_trips_iff:
  assumes n: "1 \<le> n"
  shows "(0 \<le> snd (debounce n r theta (debounce_run n obs (vconst 0))) \<longleftrightarrow>
            (\<exists>i < 7. trailing_over i (obs @ [(r, theta)]) = n)) \<and>
         (0 \<le> snd (debounce n r theta (debounce_run n obs (vconst 0))) \<longrightarrow>
            trailing_over (nat (snd (debounce n r theta (debounce_run n obs (vconst 0))))) (obs @ [(r, theta)]) = n)"
proof -
  let ?c = "debounce_run n obs (vconst 0)"
  have hit: "debounce_hit n r theta ?c i \<longleftrightarrow> trailing_over i (obs @ [(r, theta)]) = n" if i: "i < 7" for i
  proof -
    have "0 \<le> trailing_over i obs" by (simp add: trailing_over_def)
    then show ?thesis
      using n by (auto simp: debounce_hit_def trailing_over_snoc debounce_run_counts [OF n i] min_def)
  qed
  have "trailing_over (nat (snd (debounce n r theta ?c))) (obs @ [(r, theta)]) = n" if t: "0 \<le> snd (debounce n r theta ?c)"
  proof (cases "find (debounce_hit n r theta ?c) [0..<7]")
    case None
    then show ?thesis using t by (simp add: debounce_tripped del: upt_rec_numeral)
  next
    case (Some i)
    then have "i < 7" "debounce_hit n r theta ?c i"
      using find_Some_iff [of "debounce_hit n r theta ?c" "[0..<7]" i] by auto
    then show ?thesis using hit Some by (simp add: debounce_tripped del: upt_rec_numeral)
  qed
  then show ?thesis using debounce_tripped_iff [of n r theta ?c] hit by blast
qed

theorem debounce_trips_iff_witness:
  "0 \<le> snd (debounce 2 (vconst (Fin 7)) (vconst (Fin 5)) (debounce_run 2 [(vconst (Fin (- 6)), vconst (Fin 5))] (vconst 0)))"
proof -
  have "trailing_over 0 ([(vconst (Fin (- 6)), vconst (Fin 5))] @ [(vconst (Fin 7), vconst (Fin 5))]) = 2"
    by (simp add: trailing_over_def over_def)
  then show ?thesis
    using debounce_trips_iff [of 2 "vconst (Fin 7)" "vconst (Fin 5)" "[(vconst (Fin (- 6)), vconst (Fin 5))]"] by force
qed

subsection \<open>The latch\<close>

lemma cm_restart_frame [simp]:
  "cm_latched (cm_restart m) = cm_latched m" "cm_clear_requested (cm_restart m) = cm_clear_requested m"
  "cm_theta_buf (cm_restart m) = cm_theta_buf m" "cm_cfg (cm_restart m) = cm_cfg m"
  "cm_cycle (cm_restart m) = cm_cycle m"
  by (simp_all add: cm_restart_def Let_def)

lemma cm_publish_frame [simp]:
  "cm_latched (cm_publish m) = cm_latched m" "cm_clear_requested (cm_publish m) = cm_clear_requested m"
  "cm_cfg (cm_publish m) = cm_cfg m" "cm_status (cm_publish m) = cm_status m" "cm_pub (cm_publish m) = cm_status m"
  "cm_count (cm_publish m) = cm_count m" "cm_theta (cm_publish m) = cm_theta m"
  "cm_observer (cm_publish m) = cm_observer m"
  by (simp_all add: cm_publish_def)

lemma cm_adopt_frame [simp]:
  "cm_latched (cm_adopt m) = (cm_latched m \<and> \<not> cm_clear_requested m)" "\<not> cm_clear_requested (cm_adopt m)"
  "cm_cfg (cm_adopt m) = cm_cfg m"
  by (simp_all add: cm_adopt_def Let_def)

lemma cm_observe_frame [simp]:
  "cm_latched (cm_observe fb dt m) = cm_latched m" "cm_clear_requested (cm_observe fb dt m) = cm_clear_requested m"
  "cm_cfg (cm_observe fb dt m) = cm_cfg m" "cm_count (cm_observe fb dt m) = cm_count m"
  "cm_theta (cm_observe fb dt m) = cm_theta m"
  by (simp_all add: cm_observe_def Let_def)

lemma cm_set_phase_frame [simp]:
  "cm_latched (cm_set_phase ph m) = cm_latched m" "cm_clear_requested (cm_set_phase ph m) = cm_clear_requested m"
  "cm_cfg (cm_set_phase ph m) = cm_cfg m" "cm_count (cm_set_phase ph m) = cm_count m"
  "cm_theta (cm_set_phase ph m) = cm_theta m" "cs_phase (cm_status (cm_set_phase ph m)) = ph"
  "cs_r (cm_status (cm_set_phase ph m)) = cs_r (cm_status m)"
  "cs_settled (cm_status (cm_set_phase ph m)) = cs_settled (cm_status m)"
  by (simp_all add: cm_set_phase_def)

lemma cm_record_trip_frame [simp]:
  "cm_latched (cm_record_trip fb cy t m) = (cc_detection (cm_cfg m) = DetEnforce \<or> cm_latched m)"
  "cm_clear_requested (cm_record_trip fb cy t m) = cm_clear_requested m"
  "cs_phase (cm_status (cm_record_trip fb cy t m)) =
     (if cc_detection (cm_cfg m) = DetEnforce then PhLatched else cs_phase (cm_status m))"
  by (auto simp: cm_record_trip_def Let_def)

text \<open>The outcome of a step, by what the sample and the state are.\<close>

lemma cm_step_latched:
  assumes "cm_latched m" and "\<not> cm_clear_requested m"
  shows "fst (cm_step m fb dt missed) \<and> cm_latched (snd (cm_step m fb dt missed)) \<and>
    \<not> cm_clear_requested (snd (cm_step m fb dt missed))"
  using assms by (simp add: cm_step_def Let_def)

text \<open>What happens to a monitor other than a clear request: steps, thresholds, run starts.\<close>

inductive cm_no_clear :: "contact_monitor \<Rightarrow> contact_monitor \<Rightarrow> bool" for m where
  start: "cm_no_clear m m"
| step: "cm_no_clear m m' \<Longrightarrow> cm_no_clear m (snd (cm_step m' fb dt missed))"
| thresholds: "cm_no_clear m m' \<Longrightarrow> cm_no_clear m (cm_set_thresholds m' theta)"
| run_start: "cm_no_clear m m' \<Longrightarrow> cm_no_clear m (cm_on_run_start m')"

lemma cm_no_clear_latched:
  assumes "cm_no_clear m m'" and "cm_latched m" and "\<not> cm_clear_requested m"
  shows "cm_latched m' \<and> \<not> cm_clear_requested m'"
  using assms by (induction rule: cm_no_clear.induct)
    (auto simp: cm_step_latched cm_set_thresholds_def cm_on_run_start_def Let_def)

text \<open>
  Claim C28. A contact latch holds until it is cleared: once latched, through any number of steps (good,
  missed or bad samples), threshold changes and run starts, every step reports the latch; and a clear
  request is honoured by the very next step, which unlatches, restarts the observer and cannot trip.
\<close>

theorem contact_latch_until_clear:
  assumes r: "cm_no_clear m m'" and l: "cm_latched m" "\<not> cm_clear_requested m"
  shows "fst (cm_step m' fb dt missed) \<and> cm_latched (snd (cm_step m' fb dt missed)) \<and>
    (isfinite (cc_gain (cm_cfg m')) \<and> Fin 0 < cc_gain (cm_cfg m') \<longrightarrow>
      \<not> fst (cm_step (cm_request_clear m') fb dt missed) \<and> \<not> cm_latched (snd (cm_step (cm_request_clear m') fb dt missed)))"
proof -
  note L = cm_no_clear_latched [OF r l]
  have "\<not> cs_settled (cm_status (cm_observe fb dt (cm_adopt ((cm_request_clear m')\<lparr>cm_cycle := c\<rparr>))))"
    if g: "isfinite (cc_gain (cm_cfg m'))" "Fin 0 < cc_gain (cm_cfg m')" for c
    using g by (auto simp: cm_observe_def cm_adopt_def cm_request_clear_def cm_restart_def mo_reset_def mo_step_def
        Let_def cm_settle_s_def isfinite_iff divide_le_0_iff)
  then have "\<not> fst (cm_step (cm_request_clear m') fb dt missed) \<and> \<not> cm_latched (snd (cm_step (cm_request_clear m') fb dt missed))"
    if "isfinite (cc_gain (cm_cfg m'))" "Fin 0 < cc_gain (cm_cfg m')"
    using that by (simp add: cm_step_def Let_def) (simp add: cm_request_clear_def)
  then show ?thesis using cm_step_latched L by blast
qed

definition demo_contact_config :: contact_config where
  "demo_contact_config = contact_config0\<lparr>cc_initial_theta := vconst (Fin 5), cc_ceiling := vconst (Fin 30)\<rparr>"

text \<open>A settled monitor whose counters are one short of the debounce count.\<close>

definition demo_monitor :: contact_monitor where
  "demo_monitor = \<lparr>cm_cfg = demo_contact_config,
     cm_observer = \<lparr>mo_dyn = zero_dynamics, mo_gain = Fin 25, mo_seeded = True, mo_time_s = Fin 1, mo_p0 = vzero,
                    mo_integral = vzero, mo_r = vzero\<rparr>,
     cm_theta_buf = dbuf_init (vconst (Fin 5)), cm_clear_requested = False, cm_latched = False,
     cm_theta = vconst (Fin 5), cm_count = vconst 4, cm_pending_dt = Fin 0, cm_cycle = 0,
     cm_status = contact_status0, cm_pub = contact_status0, cm_version = 0\<rparr>"

definition push_feedback :: joint_feedback where
  "push_feedback = joint_feedback0\<lparr>fb_tau := vconst (Fin 100)\<rparr>"

theorem contact_latch_until_clear_witness:
  "\<not> fst (cm_step (cm_request_clear (snd (cm_step (demo_monitor\<lparr>cm_latched := True\<rparr>) push_feedback (Fin (1/1000)) True)))
      push_feedback (Fin (1/1000)) False)"
proof -
  let ?m = "demo_monitor\<lparr>cm_latched := True\<rparr>"
  let ?m' = "snd (cm_step ?m push_feedback (Fin (1/1000)) True)"
  have r: "cm_no_clear ?m ?m'" by (intro cm_no_clear.step cm_no_clear.start)
  have l: "cm_latched ?m" "\<not> cm_clear_requested ?m" by (simp_all add: demo_monitor_def)
  have "cm_cfg ?m' = demo_contact_config" by (simp add: cm_step_def Let_def demo_monitor_def cm_adopt_def)
  then have "isfinite (cc_gain (cm_cfg ?m')) \<and> Fin 0 < cc_gain (cm_cfg ?m')"
    by (simp add: demo_contact_config_def contact_config0_def)
  then show ?thesis using contact_latch_until_clear [OF r l, of push_feedback "Fin (1/1000)" False] by blast
qed

lemma cm_step_armed_eq:
  assumes "\<not> missed" and "cm_good_sample fb" and "m2 = cm_observe fb dt (cm_adopt (m\<lparr>cm_cycle := cm_cycle m + 1\<rparr>))"
    and "\<not> cm_latched m2" and "cs_settled (cm_status m2)"
    and "debounce (cc_debounce_cycles (cm_cfg m)) (cs_r (cm_status m2)) (cm_theta m2) (cm_count m2) = (count, tripped)"
  shows "cm_latched (snd (cm_step m fb dt missed)) \<longleftrightarrow> 0 \<le> tripped \<and> cc_detection (cm_cfg m) = DetEnforce"
  using assms by (auto simp: cm_step_def Let_def)

text \<open>
  Nothing but a debounced crossing latches: if a step leaves the monitor latched that was not
  latched (or was being cleared) before it, then detection is enforcing, the sample was present and
  finite, the observer had settled, and some joint's residual was over its threshold with its counter
  one short of the debounce count.
\<close>

theorem contact_latches_only_on_trip:
  assumes before: "\<not> cm_latched m \<or> cm_clear_requested m" and after: "cm_latched (snd (cm_step m fb dt missed))"
  shows "cc_detection (cm_cfg m) = DetEnforce \<and> \<not> missed \<and> cm_good_sample fb \<and>
    (let m2 = cm_observe fb dt (cm_adopt (m\<lparr>cm_cycle := cm_cycle m + 1\<rparr>)) in
       cs_settled (cm_status m2) \<and>
       (\<exists>i < 7. over (cs_r (cm_status m2)) (cm_theta m2) i \<and>
          vnth (cm_count m2) i + 1 = cc_debounce_cycles (cm_cfg m)))"
proof -
  let ?m2 = "cm_observe fb dt (cm_adopt (m\<lparr>cm_cycle := cm_cycle m + 1\<rparr>))"
  have nl: "\<not> cm_latched ?m2" using before by auto
  have g: "\<not> missed" "cm_good_sample fb" "cs_settled (cm_status ?m2)"
    using before after by (auto simp: cm_step_def Let_def split: if_splits)
  obtain count tripped where d:
    "debounce (cc_debounce_cycles (cm_cfg m)) (cs_r (cm_status ?m2)) (cm_theta ?m2) (cm_count ?m2) = (count, tripped)"
    by fastforce
  have "0 \<le> tripped" "cc_detection (cm_cfg m) = DetEnforce"
    using cm_step_armed_eq [OF g(1,2) refl nl g(3) d] after by auto
  then have "\<exists>i < 7. debounce_hit (cc_debounce_cycles (cm_cfg m)) (cs_r (cm_status ?m2)) (cm_theta ?m2) (cm_count ?m2) i"
    using debounce_tripped_iff [of "cc_debounce_cycles (cm_cfg m)" "cs_r (cm_status ?m2)" "cm_theta ?m2" "cm_count ?m2"] d
    by simp
  with g \<open>cc_detection (cm_cfg m) = DetEnforce\<close> show ?thesis by (auto simp: debounce_hit_def Let_def)
qed

lemma vsum_vconst_zero [simp]: "vsum vzero = Fin 0"
  by (simp add: vsum_def vconst_def)

lemma mat_vec_zero: "mat_vec (vconst vzero) vzero = vzero" "mat_vec (mat_tr (vconst vzero)) vzero = vzero"
proof -
  have z: "vgen (\<lambda>j. vnth vzero j * vnth vzero j) = vzero" by (rule vec7_eqI) simp
  show "mat_vec (vconst vzero) vzero = vzero" by (rule vec7_eqI) (simp add: mat_vec_def z [simplified])
  show "mat_vec (mat_tr (vconst vzero)) vzero = vzero"
    by (rule vec7_eqI) (simp add: mat_vec_def mat_tr_def z [simplified] vgen_def vconst_def vsum_def vnth_def)
qed

lemma demo_push_residual:
  "i < 7 \<Longrightarrow> vnth (cs_r (cm_status (cm_observe push_feedback (Fin (4/100)) (cm_adopt (demo_monitor\<lparr>cm_cycle := 1\<rparr>))))) i = Fin (- 100)"
  by (simp add: cm_observe_def cm_adopt_def demo_monitor_def mo_step_def Let_def push_feedback_def joint_feedback0_def
      zero_dynamics_def mat_vec_zero cm_max_step_s_def demo_contact_config_def contact_config0_def)

theorem contact_latches_only_on_trip_witness:
  "cm_latched (snd (cm_step demo_monitor push_feedback (Fin (4/100)) False)) \<and> cm_good_sample push_feedback"
proof -
  let ?m2 = "cm_observe push_feedback (Fin (4/100)) (cm_adopt (demo_monitor\<lparr>cm_cycle := cm_cycle demo_monitor + 1\<rparr>))"
  have g: "cm_good_sample push_feedback" by (simp add: cm_good_sample_def push_feedback_def joint_feedback0_def)
  have s: "\<not> cm_latched ?m2" "cs_settled (cm_status ?m2)" "cm_theta ?m2 = vconst (Fin 5)" "cm_count ?m2 = vconst 4"
    by (simp_all add: cm_observe_def cm_adopt_def demo_monitor_def mo_step_def Let_def cm_settle_s_def cm_max_step_s_def
        demo_contact_config_def contact_config0_def)
  have cfg: "cc_debounce_cycles (cm_cfg demo_monitor) = 5" "cc_detection (cm_cfg demo_monitor) = DetEnforce"
    by (simp_all add: demo_monitor_def demo_contact_config_def contact_config0_def)
  have c: "cm_cycle demo_monitor + 1 = 1" by (simp add: demo_monitor_def)
  have "debounce_hit 5 (cs_r (cm_status ?m2)) (cm_theta ?m2) (cm_count ?m2) 0"
    unfolding s(3,4) using demo_push_residual [of 0] by (simp add: debounce_hit_def over_def c)
  then have "0 \<le> snd (debounce 5 (cs_r (cm_status ?m2)) (cm_theta ?m2) (cm_count ?m2))"
    unfolding debounce_tripped_iff by (intro exI [of _ 0]) simp
  then have "cm_latched (snd (cm_step demo_monitor push_feedback (Fin (4/100)) False))"
    using cm_step_armed_eq [OF _ g refl s(1,2) prod.collapse [symmetric], of False] cfg by simp
  then show ?thesis
    using contact_latches_only_on_trip [of demo_monitor push_feedback "Fin (4/100)" False] by (simp add: demo_monitor_def)
qed

end
