(* ===== verification/Telemetry.thy ===== *)
theory Telemetry
  imports Prelude "HOL-Library.Log_Nat"
begin

section \<open>The telemetry ring and histogram\<close>

text \<open>
  \<open>SampleRing\<close> (\<open>telemetry.h\<close>, \<open>telemetry.cpp\<close>) with its 64-bit counters and power-of-two mask, as an
  instance of a bounded queue, and \<open>NanoHistogram\<close> and \<open>TelemetrySink\<close>
  (\<open>telemetry_consumers.h\<close>, \<open>.cpp\<close>; file and text output left out).
\<close>

subsection \<open>The interface: a bounded queue\<close>

locale bounded_queue =
  fixes ok :: "'s \<Rightarrow> bool" and contents :: "'s \<Rightarrow> 'a list" and cap :: "'s \<Rightarrow> nat"
    and push :: "'s \<Rightarrow> 'a \<Rightarrow> bool \<times> 's" and pop :: "'s \<Rightarrow> ('a \<times> 's) option"
  assumes push_ok: "ok s \<Longrightarrow> ok (snd (push s x)) \<and> cap (snd (push s x)) = cap s"
    and push_accept: "ok s \<Longrightarrow> length (contents s) < cap s \<Longrightarrow>
      fst (push s x) \<and> contents (snd (push s x)) = contents s @ [x]"
    and push_full: "ok s \<Longrightarrow> \<not> length (contents s) < cap s \<Longrightarrow>
      \<not> fst (push s x) \<and> contents (snd (push s x)) = contents s"
    and pop_empty: "ok s \<Longrightarrow> contents s = [] \<Longrightarrow> pop s = None"
    and pop_some: "ok s \<Longrightarrow> contents s = x # xs \<Longrightarrow>
      \<exists>s'. pop s = Some (x, s') \<and> ok s' \<and> cap s' = cap s \<and> contents s' = xs"
begin

text \<open>A run of pushes (\<open>Some x\<close>) and pops (\<open>None\<close>): the samples accepted, and those handed out.\<close>

fun run :: "'a option list \<Rightarrow> 's \<Rightarrow> 'a list \<times> 'a list \<times> 's" where
  "run [] s = ([], [], s)"
| "run (Some x # ops) s = (let (b, s1) = push s x; (acc, out, s2) = run ops s1
     in (if b then x # acc else acc, out, s2))"
| "run (None # ops) s = (case pop s of None \<Rightarrow> run ops s
     | Some (x, s1) \<Rightarrow> (let (acc, out, s2) = run ops s1 in (acc, x # out, s2)))"

lemma run_fifo:
  assumes "ok s"
  shows "case run ops s of (acc, out, s') \<Rightarrow> ok s' \<and> cap s' = cap s \<and> contents s @ acc = out @ contents s'"
  using assms
proof (induction ops s rule: run.induct)
  case (1 s)
  then show ?case by simp
next
  case (2 x ops s)
  obtain b s1 where p: "push s x = (b, s1)" by fastforce
  obtain acc out s2 where r: "run ops s1 = (acc, out, s2)" by (cases "run ops s1") auto
  have s1: "ok s1" "cap s1 = cap s" using push_ok [OF 2(2), of x] p by auto
  have "contents s1 = contents s @ (if b then [x] else [])"
    using push_accept [OF 2(2), of x] push_full [OF 2(2), of x] p
    by (cases "length (contents s) < cap s") auto
  then show ?case using 2(1) [OF p [symmetric] refl s1(1)] r p s1 by (cases b) auto
next
  case (3 ops s)
  show ?case
  proof (cases "contents s")
    case Nil
    then show ?thesis using 3 pop_empty by simp
  next
    case (Cons x xs)
    obtain s1 where p: "pop s = Some (x, s1)" "ok s1" "cap s1 = cap s" "contents s1 = xs"
      using pop_some [OF 3(3) Cons] by blast
    obtain acc out s2 where r: "run ops s1 = (acc, out, s2)" by (cases "run ops s1") auto
    show ?thesis using 3(2) [OF p(1) refl p(2)] p r Cons by simp
  qed
qed

end

subsection \<open>The ring\<close>

record cycle_sample =
  smp_cycle_index :: "64 word"
  smp_wake_jitter_ns :: "32 word"
  smp_comm_ns :: "32 word"
  smp_compute_ns :: "32 word"
  smp_cycle_ns :: "32 word"
  smp_flags :: "16 word"

definition cycle_sample0 :: cycle_sample where
  "cycle_sample0 = \<lparr>smp_cycle_index = 0, smp_wake_jitter_ns = 0, smp_comm_ns = 0, smp_compute_ns = 0,
     smp_cycle_ns = 0, smp_flags = 0\<rparr>"

record sample_ring =
  rg_buf :: "cycle_sample list"
  rg_mask :: "64 word"
  rg_head :: "64 word"
  rg_dropped :: "64 word"
  rg_tail :: "64 word"

text \<open>The next power of two, at least 2 (a capacity of at most 2^63: beyond it the shift overflows).\<close>

function round_up_from :: "nat \<Rightarrow> nat \<Rightarrow> nat" where
  "round_up_from p n = (if p < n \<and> 0 < p then round_up_from (2 * p) n else p)"
  by pat_completeness auto
termination by (relation "measure (\<lambda>(p, n). n - p)") auto

declare round_up_from.simps [simp del]

definition round_up_pow2 :: "nat \<Rightarrow> nat" where
  "round_up_pow2 n = (if n < 2 then 2 else round_up_from 2 n)"

definition ring_init :: "nat \<Rightarrow> sample_ring" where
  "ring_init capacity_pow2 =
     (let buf = replicate (round_up_pow2 capacity_pow2) cycle_sample0
      in \<lparr>rg_buf = buf, rg_mask = of_nat (length buf) - 1, rg_head = 0, rg_dropped = 0, rg_tail = 0\<rparr>)"

unbundle bit_operations_syntax

definition ring_push :: "sample_ring \<Rightarrow> cycle_sample \<Rightarrow> bool \<times> sample_ring" where
  "ring_push r s =
     (let head = rg_head r; tail = rg_tail r
      in if of_nat (length (rg_buf r)) \<le> head - tail then (False, r\<lparr>rg_dropped := rg_dropped r + 1\<rparr>)
         else (True, r\<lparr>rg_buf := (rg_buf r)[unat (head AND rg_mask r) := s], rg_head := head + 1\<rparr>))"

definition ring_pop :: "sample_ring \<Rightarrow> (cycle_sample \<times> sample_ring) option" where
  "ring_pop r =
     (let tail = rg_tail r; head = rg_head r
      in if tail = head then None
         else Some (rg_buf r ! unat (tail AND rg_mask r), r\<lparr>rg_tail := tail + 1\<rparr>))"

lemma round_up_from_pow2:
  "2 ^ k \<le> m \<Longrightarrow> 1 \<le> k \<Longrightarrow> \<exists>j. round_up_from (2 ^ k) m = 2 ^ j \<and> k \<le> j \<and> m \<le> 2 ^ j \<and> 2 ^ j < 2 * m"
proof (induction "m - 2 ^ k" arbitrary: k rule: less_induct)
  case less
  show ?case
  proof (cases "2 ^ k < m")
    case False
    then have "m = 2 ^ k" using less.prems by simp
    then show ?thesis by (subst round_up_from.simps) auto
  next
    case True
    have eq: "round_up_from (2 ^ k) m = round_up_from (2 ^ Suc k) m"
      using True by (subst round_up_from.simps) simp
    show ?thesis
    proof (cases "2 ^ Suc k \<le> m")
      case c: True
      have "m - 2 ^ Suc k < m - 2 ^ k" using True by (intro diff_less_mono2) auto
      then obtain j where "round_up_from (2 ^ Suc k) m = 2 ^ j \<and> Suc k \<le> j \<and> m \<le> 2 ^ j \<and> 2 ^ j < 2 * m"
        using less.hyps [of "Suc k"] c by auto
      then show ?thesis unfolding eq by (intro exI [of _ j]) auto
    next
      case c: False
      then have "round_up_from (2 ^ Suc k) m = 2 ^ Suc k" by (subst round_up_from.simps) simp
      then show ?thesis unfolding eq using True c by (intro exI [of _ "Suc k"]) auto
    qed
  qed
qed

lemma round_up_pow2_spec:
  "\<exists>j. round_up_pow2 n = 2 ^ j \<and> 1 \<le> j \<and> n \<le> 2 ^ j \<and> (2 \<le> n \<longrightarrow> 2 ^ j < 2 * n)"
proof (cases "n < 2")
  case True
  then show ?thesis by (intro exI [of _ 1]) (simp add: round_up_pow2_def)
next
  case False
  then show ?thesis using round_up_from_pow2 [of 1 n] by (auto simp: round_up_pow2_def)
qed

definition ring_size :: "sample_ring \<Rightarrow> nat" where
  "ring_size r = unat (rg_head r - rg_tail r)"

definition ring_ok :: "sample_ring \<Rightarrow> bool" where
  "ring_ok r \<longleftrightarrow> (\<exists>k. 1 \<le> k \<and> k < 64 \<and> length (rg_buf r) = 2 ^ k \<and> rg_mask r = 2 ^ k - 1) \<and>
     ring_size r \<le> length (rg_buf r)"

definition ring_cap :: "sample_ring \<Rightarrow> nat" where
  "ring_cap r = length (rg_buf r)"

definition ring_slot :: "sample_ring \<Rightarrow> nat \<Rightarrow> nat" where
  "ring_slot r j = (unat (rg_tail r) + j) mod length (rg_buf r)"

definition ring_contents :: "sample_ring \<Rightarrow> cycle_sample list" where
  "ring_contents r = map (\<lambda>j. rg_buf r ! ring_slot r j) [0..<ring_size r]"

lemma masked_index:
  assumes "ring_ok r"
  shows "unat ((rg_tail r + of_nat j) AND rg_mask r) = ring_slot r j"
proof -
  obtain k where k: "k < 64" "length (rg_buf r) = 2 ^ k" "rg_mask r = 2 ^ k - 1" using assms by (auto simp: ring_ok_def)
  have "(rg_tail r + of_nat j) AND rg_mask r = take_bit k (rg_tail r + of_nat j)"
    by (simp only: k(3) take_bit_eq_mask mask_eq_exp_minus_1)
  then have "unat ((rg_tail r + of_nat j) AND rg_mask r) = take_bit k (unat (rg_tail r + of_nat j))"
    by (simp only: unsigned_take_bit_eq)
  then have "unat ((rg_tail r + of_nat j) AND rg_mask r) = unat (rg_tail r + of_nat j) mod 2 ^ k"
    by (simp only: take_bit_eq_mod)
  moreover have "unat (rg_tail r + of_nat j) = (unat (rg_tail r) + j) mod 2 ^ 64"
    by (simp add: unat_word_ariths unat_of_nat mod_simps)
  moreover have "(2::nat) ^ k dvd 2 ^ 64" using k(1) by (intro le_imp_power_dvd) simp
  ultimately show ?thesis by (simp add: mod_mod_cancel k(2) ring_slot_def)
qed

lemma ring_slot_less: "ring_ok r \<Longrightarrow> ring_slot r j < length (rg_buf r)"
  by (auto simp: ring_ok_def ring_slot_def)

lemma ring_slot_inj:
  assumes "ring_ok r" and "i < j" and "j < length (rg_buf r)"
  shows "ring_slot r i \<noteq> ring_slot r j"
proof
  assume "ring_slot r i = ring_slot r j"
  then have "length (rg_buf r) dvd (unat (rg_tail r) + j) - (unat (rg_tail r) + i)"
    unfolding ring_slot_def using assms(2) by (metis add_le_mono1 less_imp_le mod_eq_dvd_iff_nat add_left_mono)
  then have "length (rg_buf r) dvd j - i" by simp
  then show False using assms(2,3) by (auto dest: dvd_imp_le)
qed

lemma ring_head: "rg_head r = rg_tail r + of_nat (ring_size r)"
  by (simp add: ring_size_def)

lemma unat_of_nat_small: "m < 2 ^ 64 \<Longrightarrow> unat (of_nat m :: 64 word) = m"
  by (simp add: unat_of_nat)

lemma ring_full_iff:
  assumes "ring_ok r"
  shows "of_nat (length (rg_buf r)) \<le> rg_head r - rg_tail r \<longleftrightarrow> \<not> ring_size r < ring_cap r"
proof -
  obtain k where k: "k < 64" "length (rg_buf r) = 2 ^ k" using assms by (auto simp: ring_ok_def)
  have "(2::nat) ^ k < 2 ^ 64" using k(1) by (intro power_strict_increasing) auto
  then have "unat (of_nat (2 ^ k) :: 64 word) = 2 ^ k" by (rule unat_of_nat_small)
  then show ?thesis by (simp only: word_le_nat_alt k ring_size_def ring_cap_def not_less)
qed

lemma size_bound: "ring_ok r \<Longrightarrow> ring_size r < 2 ^ 63 + 1"
proof -
  assume "ring_ok r"
  then obtain k where k: "k < 64" "length (rg_buf r) = 2 ^ k" "ring_size r \<le> length (rg_buf r)" by (auto simp: ring_ok_def)
  have "(2::nat) ^ k \<le> 2 ^ 63" using k(1) by (intro power_increasing) auto
  then show ?thesis using k by linarith
qed

lemma ring_push_accept:
  assumes ok: "ring_ok r" and sz: "ring_size r < ring_cap r"
  shows "fst (ring_push r s) \<and> ring_ok (snd (ring_push r s)) \<and> ring_cap (snd (ring_push r s)) = ring_cap r \<and>
    ring_contents (snd (ring_push r s)) = ring_contents r @ [s]"
proof -
  let ?n = "ring_size r"
  let ?r' = "r\<lparr>rg_buf := (rg_buf r)[ring_slot r ?n := s], rg_head := rg_head r + 1\<rparr>"
  have p: "ring_push r s = (True, ?r')"
    using ring_full_iff [OF ok] sz masked_index [OF ok, of ?n] by (simp add: ring_push_def Let_def ring_head)
  have n: "ring_size ?r' = Suc ?n"
  proof -
    have "rg_head r + 1 - rg_tail r = of_nat (Suc ?n)" by (simp add: ring_head)
    moreover have "Suc ?n < 2 ^ 64" using size_bound [OF ok] by simp
    ultimately show ?thesis by (simp add: ring_size_def unat_of_nat del: of_nat_Suc)
  qed
  have slot: "ring_slot ?r' j = ring_slot r j" for j by (simp add: ring_slot_def)
  have "rg_buf ?r' ! ring_slot r j = rg_buf r ! ring_slot r j" if "j < ?n" for j
    using ring_slot_inj [OF ok that] sz by (simp add: ring_cap_def)
  moreover have "rg_buf ?r' ! ring_slot r ?n = s" using ring_slot_less [OF ok] by simp
  ultimately have "ring_contents ?r' = ring_contents r @ [s]" by (simp add: ring_contents_def n slot)
  moreover have "ring_ok ?r'" using ok sz n by (auto simp: ring_ok_def ring_cap_def)
  ultimately show ?thesis by (simp add: p ring_cap_def)
qed

lemma ring_push_full:
  assumes ok: "ring_ok r" and "\<not> ring_size r < ring_cap r"
  shows "ring_push r s = (False, r\<lparr>rg_dropped := rg_dropped r + 1\<rparr>)"
  using ring_full_iff [OF ok] assms(2) by (simp add: ring_push_def Let_def)

lemma ring_size_Suc:
  assumes "ring_size r = Suc m"
  shows "ring_size (r\<lparr>rg_tail := rg_tail r + 1\<rparr>) = m"
proof -
  have "rg_head r - (rg_tail r + 1) = of_nat m" using ring_head [of r] assms by (simp add: algebra_simps)
  moreover have "m < 2 ^ 64"
    using unsigned_less [of "rg_head r - rg_tail r", where ?'a = nat] assms by (simp add: ring_size_def)
  ultimately show ?thesis by (simp add: ring_size_def unat_of_nat)
qed

lemma ring_pop_some:
  assumes ok: "ring_ok r" and c: "ring_contents r = x # xs"
  shows "\<exists>r'. ring_pop r = Some (x, r') \<and> ring_ok r' \<and> ring_cap r' = ring_cap r \<and> ring_contents r' = xs"
proof -
  obtain m where m: "ring_size r = Suc m" using c by (cases "ring_size r") (auto simp: ring_contents_def)
  let ?r' = "r\<lparr>rg_tail := rg_tail r + 1\<rparr>"
  have ne: "rg_tail r \<noteq> rg_head r" using m by (auto simp: ring_size_def)
  have n: "ring_size ?r' = m" by (rule ring_size_Suc [OF m])
  have ok': "ring_ok ?r'" using ok m n by (auto simp: ring_ok_def)
  have slot: "ring_slot ?r' j = ring_slot r (Suc j)" for j
  proof -
    have "?r'\<lparr>rg_tail := rg_tail r\<rparr> = r" by simp
    have "ring_slot ?r' j = unat ((rg_tail r + 1 + of_nat j) AND rg_mask r)"
      using masked_index [OF ok', of j] by simp
    also have "\<dots> = unat ((rg_tail r + of_nat (Suc j)) AND rg_mask r)" by (simp add: add.assoc)
    also have "\<dots> = ring_slot r (Suc j)" by (rule masked_index [OF ok])
    finally show ?thesis .
  qed
  have "ring_contents r = rg_buf r ! ring_slot r 0 # map (\<lambda>j. rg_buf r ! ring_slot r (Suc j)) [0..<m]"
    unfolding ring_contents_def m by (simp add: upt_conv_Cons map_Suc_upt [symmetric] del: upt_Suc)
  then have x: "x = rg_buf r ! ring_slot r 0" and xs: "xs = ring_contents ?r'"
    using c by (simp_all add: ring_contents_def n slot)
  have "ring_pop r = Some (x, ?r')"
    using ne x masked_index [OF ok, of 0] by (simp add: ring_pop_def Let_def)
  with ok' xs show ?thesis by (auto simp: ring_cap_def)
qed

lemma ring_pop_empty: "ring_contents r = [] \<Longrightarrow> ring_pop r = None"
  by (simp add: ring_contents_def ring_size_def ring_pop_def Let_def unat_eq_0)

lemma length_ring_contents [simp]: "length (ring_contents r) = ring_size r"
  by (simp add: ring_contents_def)

interpretation ring: bounded_queue ring_ok ring_contents ring_cap ring_push ring_pop
proof unfold_locales
  show "ring_ok (snd (ring_push s x)) \<and> ring_cap (snd (ring_push s x)) = ring_cap s" if "ring_ok s" for s x
  proof (cases "ring_size s < ring_cap s")
    case True
    then show ?thesis using ring_push_accept [OF that] by blast
  next
    case False
    then show ?thesis using that by (simp add: ring_push_full ring_ok_def ring_size_def ring_cap_def)
  qed
  show "\<not> fst (ring_push s x) \<and> ring_contents (snd (ring_push s x)) = ring_contents s"
    if "ring_ok s" "\<not> length (ring_contents s) < ring_cap s" for s x
    using that ring_push_full by (simp add: ring_contents_def ring_size_def ring_slot_def)
qed (use ring_push_accept ring_pop_empty ring_pop_some in auto)

definition ring_run :: "cycle_sample option list \<Rightarrow> sample_ring \<Rightarrow> cycle_sample list \<times> cycle_sample list \<times> sample_ring" where
  "ring_run = ring.run"

lemma ring_init_ok:
  assumes "n \<le> 2 ^ 62"
  shows "ring_ok (ring_init n)" and "ring_contents (ring_init n) = []" and "n \<le> ring_cap (ring_init n)"
proof -
  obtain j where j: "round_up_pow2 n = 2 ^ j" "1 \<le> j" "n \<le> 2 ^ j" "2 \<le> n \<longrightarrow> 2 ^ j < 2 * n"
    using round_up_pow2_spec by blast
  have "j < 64"
  proof (cases "2 \<le> n")
    case True
    then have "(2::nat) ^ j < 2 * 2 ^ 62" using j(4) assms by linarith
    then have "(2::nat) ^ j < 2 ^ 63" by simp
    then have "j < 63" by (rule power_less_imp_less_exp [rotated]) simp
    then show ?thesis by simp
  next
    case False
    then have "2 ^ j = (2::nat)" using j(1) by (simp add: round_up_pow2_def)
    then show ?thesis using less_exp [of j] by simp
  qed
  then show "ring_ok (ring_init n)" using j(1,2) by (auto simp: ring_ok_def ring_init_def ring_size_def Let_def)
  show "ring_contents (ring_init n) = []" by (simp add: ring_contents_def ring_size_def ring_init_def Let_def)
  show "n \<le> ring_cap (ring_init n)" using j(1,3) by (simp add: ring_cap_def ring_init_def Let_def)
qed

text \<open>
  Claim C40. The telemetry ring is a bounded first-in-first-out queue: over any sequence of pushes and
  pops, the samples handed out followed by those still inside are exactly the accepted ones in order,
  and never more than the capacity, which is at least the one asked for, are inside -- also after the
  64-bit counters have wrapped around.
\<close>

theorem ring_is_fifo:
  assumes "n \<le> 2 ^ 62"
  shows "case ring_run ops (ring_init n) of (accepted, popped, r) \<Rightarrow>
    accepted = popped @ ring_contents r \<and> length (ring_contents r) \<le> ring_cap (ring_init n) \<and> n \<le> ring_cap (ring_init n)"
proof -
  obtain acc out r where r: "ring_run ops (ring_init n) = (acc, out, r)" by (cases "ring_run ops (ring_init n)") auto
  have "ring_ok r \<and> ring_cap r = ring_cap (ring_init n) \<and> ring_contents (ring_init n) @ acc = out @ ring_contents r"
    using ring.run_fifo [OF ring_init_ok(1) [OF assms], of ops] r by (simp add: ring_run_def)
  then show ?thesis using r ring_init_ok [OF assms] by (auto simp: ring_ok_def ring_cap_def)
qed

theorem ring_is_fifo_witness:
  "case ring_run [Some cycle_sample0, None, Some (cycle_sample0\<lparr>smp_flags := 1\<rparr>)] (ring_init 3) of
     (accepted, popped, r) \<Rightarrow> accepted = popped @ ring_contents r \<and> length (ring_contents r) \<le> ring_cap (ring_init 3)"
  using ring_is_fifo [of 3 "[Some cycle_sample0, None, Some (cycle_sample0\<lparr>smp_flags := 1\<rparr>)]"] by auto

subsection \<open>The histogram\<close>

record nano_histogram =
  nh_buckets :: "64 word list"
  nh_count :: "64 word"
  nh_sum :: "64 word"
  nh_min :: "32 word"
  nh_max :: "32 word"

definition histogram0 :: nano_histogram where
  "histogram0 = \<lparr>nh_buckets = replicate 64 0, nh_count = 0, nh_sum = 0, nh_min = - 1, nh_max = 0\<rparr>"

text \<open>\<open>__builtin_clzll\<close> on a non-zero value: 64 less the number of binary digits.\<close>

definition clzll :: "nat \<Rightarrow> nat" where
  "clzll x = 64 - floorlog 2 x"

definition bucket_of :: "32 word \<Rightarrow> nat" where
  "bucket_of ns = (let k = (if ns \<noteq> 0 then 63 - clzll (unat ns) else 0) in if 63 < k then 63 else k)"

definition histogram_add :: "nano_histogram \<Rightarrow> 32 word \<Rightarrow> nano_histogram" where
  "histogram_add h ns =
     h\<lparr>nh_buckets := (nh_buckets h)[bucket_of ns := nh_buckets h ! bucket_of ns + 1],
       nh_count := nh_count h + 1, nh_sum := nh_sum h + ucast ns,
       nh_min := (if ns < nh_min h then ns else nh_min h),
       nh_max := (if nh_max h < ns then ns else nh_max h)\<rparr>"

definition histogram_min :: "nano_histogram \<Rightarrow> 32 word" where
  "histogram_min h = (if nh_count h \<noteq> 0 then nh_min h else 0)"

definition histogram_mean :: "nano_histogram \<Rightarrow> dbl" where
  "histogram_mean h = (if nh_count h \<noteq> 0 then Fin (real (unat (nh_sum h)) / real (unat (nh_count h))) else Fin 0)"

fun percentile_loop :: "64 word list \<Rightarrow> 64 word \<Rightarrow> 64 word \<Rightarrow> nat \<Rightarrow> 32 word" where
  "percentile_loop [] target acc k = push_bit 31 1"
| "percentile_loop (b # bs) target acc k =
     (if target \<le> acc + b then push_bit (if 31 < k then 31 else k) 1
      else percentile_loop bs target (acc + b) (Suc k))"

text \<open>For a finite \<open>p\<close>; the product is taken exactly.\<close>

definition percentile_target :: "real \<Rightarrow> 64 word \<Rightarrow> 64 word" where
  "percentile_target p n =
     (let q = (if p < 0 then 0 else if 1 < p then 1 else p);
          t = of_int \<lceil>q * real (unat n)\<rceil>
      in if t = 0 then 1 else t)"

definition histogram_percentile :: "nano_histogram \<Rightarrow> real \<Rightarrow> 32 word" where
  "histogram_percentile h p =
     (if nh_count h = 0 then 0 else percentile_loop (nh_buckets h) (percentile_target p (nh_count h)) 0 0)"

definition histogram_of :: "32 word list \<Rightarrow> nano_histogram" where
  "histogram_of xs = foldl histogram_add histogram0 xs"

lemma bucket_of_bounds:
  shows "bucket_of ns < 32" and "ns \<noteq> 0 \<Longrightarrow> 2 ^ bucket_of ns \<le> unat ns \<and> unat ns < 2 ^ Suc (bucket_of ns)"
proof -
  have lt: "unat ns < 2 ^ 32" using unsigned_less [of ns, where ?'a = nat] by simp
  have f: "floorlog 2 (unat ns) \<le> 32"
    using floorlog_leI [of "unat ns" 2 32] lt by simp
  have pos: "0 < unat ns" if "ns \<noteq> 0" using that by (simp add: unat_gt_0)
  have b: "bucket_of ns = floorlog 2 (unat ns) - 1" if "ns \<noteq> 0"
  proof -
    have "1 \<le> floorlog 2 (unat ns)" using pos [OF that] by (simp add: floorlog_def)
    then show ?thesis using that f by (simp add: bucket_of_def clzll_def Let_def)
  qed
  show "bucket_of ns < 32" using b f by (cases "ns = 0") (auto simp: bucket_of_def Let_def)
  assume ns: "ns \<noteq> 0"
  have "2 ^ (floorlog 2 (unat ns) - 1) \<le> unat ns \<and> unat ns < 2 ^ floorlog 2 (unat ns)"
    using floorlog_bounds [of "unat ns" 2] pos [OF ns] by simp
  moreover have "Suc (bucket_of ns) = floorlog 2 (unat ns)"
    using b [OF ns] pos [OF ns] by (simp add: floorlog_def)
  ultimately show "2 ^ bucket_of ns \<le> unat ns \<and> unat ns < 2 ^ Suc (bucket_of ns)" using b [OF ns] by metis
qed

lemma histogram_of_snoc: "histogram_of (xs @ [x]) = histogram_add (histogram_of xs) x"
  by (simp add: histogram_of_def)

definition in_bucket :: "32 word list \<Rightarrow> nat \<Rightarrow> nat" where
  "in_bucket xs k = length (filter (\<lambda>x. bucket_of x = k) xs)"

lemma histogram_of_counts:
  "length (nh_buckets (histogram_of xs)) = 64 \<and> nh_count (histogram_of xs) = of_nat (length xs) \<and>
   (\<forall>k < 64. nh_buckets (histogram_of xs) ! k = of_nat (in_bucket xs k))"
proof (induction xs rule: rev_induct)
  case Nil
  then show ?case by (simp add: histogram_of_def histogram0_def in_bucket_def)
next
  case (snoc x xs)
  have "bucket_of x < 64" using bucket_of_bounds(1) [of x] by simp
  then show ?case using snoc
    by (auto simp: histogram_of_snoc histogram_add_def in_bucket_def nth_list_update add.commute)
qed

lemma histogram_of_extremes:
  "xs \<noteq> [] \<Longrightarrow> nh_min (histogram_of xs) = Min (set xs) \<and> nh_max (histogram_of xs) = Max (set xs)"
proof (induction xs rule: rev_induct)
  case Nil
  then show ?case by simp
next
  case (snoc x xs)
  show ?case
  proof (cases "xs = []")
    case True
    have "x \<le> - 1" by simp
    then have "(if x < - 1 then x else - 1) = x" by (metis antisym_conv2)
    moreover have "(if 0 < x then x else 0) = x" by (simp add: word_greater_zero_iff)
    moreover have "nh_min (histogram_of [x]) = (if x < - 1 then x else - 1)"
      "nh_max (histogram_of [x]) = (if 0 < x then x else 0)"
      by (simp_all only: histogram_of_def histogram_add_def histogram0_def foldl.simps nano_histogram.simps)
    ultimately show ?thesis using True by simp
  next
    case False
    then have "Min (set (xs @ [x])) = min x (Min (set xs))" "Max (set (xs @ [x])) = max x (Max (set xs))" by simp_all
    moreover have "(if x < m then x else m) = min x m" "(if m < x then x else m) = max x m" for m :: "32 word"
      by (auto simp: min_def max_def)
    ultimately show ?thesis using snoc False by (simp only: histogram_of_snoc histogram_add_def) simp
  qed
qed

text \<open>The number of samples in the buckets below and up to \<open>k\<close>.\<close>

definition below :: "32 word list \<Rightarrow> nat \<Rightarrow> nat" where
  "below xs k = length (filter (\<lambda>x. bucket_of x < k) xs)"

lemma below_Suc: "below xs (Suc k) = below xs k + in_bucket xs k"
  by (induction xs) (auto simp: below_def in_bucket_def)

lemma below_all: "32 \<le> k \<Longrightarrow> below xs k = length xs"
  unfolding below_def using bucket_of_bounds(1) by (subst filter_True) (auto intro: less_le_trans)

lemma percentile_loop_spec:
  assumes "length xs < 2 ^ 64" and "1 \<le> t" and "t \<le> length xs" and "k \<le> 32"
    and "bs = map (\<lambda>j. of_nat (in_bucket xs j)) [k..<64]" and "below xs k < t"
  shows "\<exists>j < 32. percentile_loop bs (of_nat t) (of_nat (below xs k)) k = push_bit j 1 \<and>
           below xs j < t \<and> t \<le> below xs (Suc j)"
  using assms(4-6)
proof (induction "32 - k" arbitrary: k bs)
  case 0
  then have "k = 32" by simp
  then show ?case using "0.prems"(3) assms(3) by (simp add: below_all)
next
  case (Suc d)
  have k: "k < 32" using Suc by simp
  have bs: "bs = of_nat (in_bucket xs k) # map (\<lambda>j. of_nat (in_bucket xs j)) [Suc k..<64]"
    using Suc.prems(2) k by (simp add: upt_conv_Cons)
  have acc: "(of_nat (below xs k) + of_nat (in_bucket xs k) :: 64 word) = of_nat (below xs (Suc k))"
    by (simp add: below_Suc)
  have b: "below xs (Suc k) \<le> length xs" by (simp add: below_def)
  then have cmp: "(of_nat t :: 64 word) \<le> of_nat (below xs (Suc k)) \<longleftrightarrow> t \<le> below xs (Suc k)"
    using assms(1,3) by (simp add: word_le_nat_alt unat_of_nat_small)
  show ?case
  proof (cases "t \<le> below xs (Suc k)")
    case True
    then show ?thesis using cmp acc bs k Suc.prems(3) by (intro exI [of _ k]) simp
  next
    case False
    have "\<exists>j < 32. percentile_loop (map (\<lambda>j. of_nat (in_bucket xs j)) [Suc k..<64]) (of_nat t)
        (of_nat (below xs (Suc k))) (Suc k) = push_bit j 1 \<and> below xs j < t \<and> t \<le> below xs (Suc j)"
      by (rule Suc.hyps(1)) (use Suc.hyps(2) k False in auto)
    moreover have "percentile_loop bs (of_nat t) (of_nat (below xs k)) k =
        percentile_loop (map (\<lambda>j. of_nat (in_bucket xs j)) [Suc k..<64]) (of_nat t) (of_nat (below xs (Suc k))) (Suc k)"
      using cmp False acc by (simp add: bs)
    ultimately show ?thesis by metis
  qed
qed

lemma percentile_target_of_nat:
  assumes "0 \<le> p" and "p \<le> 1" and "0 < n" and "n < 2 ^ 64"
  shows "percentile_target p (of_nat n) = of_nat (max 1 (nat \<lceil>p * real n\<rceil>)) \<and> max 1 (nat \<lceil>p * real n\<rceil>) \<le> n"
proof -
  define c where "c = nat \<lceil>p * real n\<rceil>"
  have u: "unat (of_nat n :: 64 word) = n" using assms(4) by (rule unat_of_nat_small)
  have "0 \<le> p * real n" using assms(1) by simp
  then have nn: "0 \<le> \<lceil>p * real n\<rceil>" by (subst zero_le_ceiling) linarith
  have "p * real n \<le> real n" using assms(1,2) by (simp add: mult_left_le_one_le)
  then have le: "c \<le> n" by (simp add: c_def ceiling_le_iff nat_le_iff)
  have eq: "(of_int \<lceil>p * real n\<rceil> :: 64 word) = of_nat c" using nn by (simp add: c_def)
  have cu: "unat (of_nat c :: 64 word) = c" by (rule unat_of_nat_small [OF le_less_trans [OF le assms(4)]])
  have z: "(of_nat c :: 64 word) = 0 \<longleftrightarrow> c = 0"
  proof
    assume "(of_nat c :: 64 word) = 0"
    with cu show "c = 0" by (simp only: unat_0)
  qed simp
  have q: "(if p < 0 then 0 else if 1 < p then 1 else p) = p" using assms(1,2) by simp
  have t: "percentile_target p (of_nat n) = (if (of_nat c :: 64 word) = 0 then 1 else of_nat c)"
    by (simp only: percentile_target_def u Let_def q eq)
  have "max 1 c \<le> n" using le assms(3) by simp
  moreover have "percentile_target p (of_nat n) = of_nat (max 1 c)"
    by (cases "c = 0") (simp_all add: t z max_def)
  ultimately show ?thesis unfolding c_def by blast
qed

text \<open>
  A percentile is right up to its power of two: for 0 <= p <= 1 over fewer than 2^64 samples,
  the value returned is 2^j for the bucket j that the ceil(p * n)-th smallest sample lies in -- fewer
  samples than that are in lower buckets, and at least that many in buckets up to j, that is, below
  2^(j+1).
\<close>

theorem percentile_bucket:
  assumes "xs \<noteq> []" and n: "length xs < 2 ^ 64" and p: "0 \<le> p" "p \<le> 1"
  shows "\<exists>j < 32. histogram_percentile (histogram_of xs) p = push_bit j 1 \<and>
    below xs j < max 1 (nat \<lceil>p * real (length xs)\<rceil>) \<and>
    max 1 (nat \<lceil>p * real (length xs)\<rceil>) \<le> length (filter (\<lambda>x. unat x < 2 ^ Suc j) xs)"
proof -
  let ?t = "max 1 (nat \<lceil>p * real (length xs)\<rceil>)"
  note C = histogram_of_counts [of xs]
  have t: "percentile_target p (nh_count (histogram_of xs)) = of_nat ?t" "?t \<le> length xs" "1 \<le> ?t"
    using percentile_target_of_nat [OF p, of "length xs"] C n assms(1) by auto
  have bs: "nh_buckets (histogram_of xs) = map (\<lambda>j. of_nat (in_bucket xs j)) [0..<64]"
    using C by (intro nth_equalityI) auto
  have b0: "below xs 0 = 0" by (simp add: below_def)
  have "(of_nat (length xs) :: 64 word) \<noteq> 0"
    using unat_of_nat_small [OF n] assms(1) by (metis length_0_conv unat_0)
  then have h: "histogram_percentile (histogram_of xs) p = percentile_loop (nh_buckets (histogram_of xs)) (of_nat ?t) 0 0"
    using C t(1) by (simp add: histogram_percentile_def)
  have "\<exists>j < 32. percentile_loop (nh_buckets (histogram_of xs)) (of_nat ?t) (of_nat (below xs 0)) 0 = push_bit j 1 \<and>
           below xs j < ?t \<and> ?t \<le> below xs (Suc j)"
    by (rule percentile_loop_spec [OF n t(3) t(2) _ bs]) (use t(3) b0 in auto)
  then obtain j where j: "j < 32" "histogram_percentile (histogram_of xs) p = push_bit j 1" "below xs j < ?t" "?t \<le> below xs (Suc j)"
    using h b0 by auto
  have "below xs (Suc j) \<le> length (filter (\<lambda>x. unat x < 2 ^ Suc j) xs)"
  proof -
    have "unat x < 2 ^ Suc j" if "bucket_of x < Suc j" for x :: "32 word"
    proof (cases "x = 0")
      case False
      have "(2::nat) ^ Suc (bucket_of x) \<le> 2 ^ Suc j" using that by (intro power_increasing) auto
      then show ?thesis using bucket_of_bounds(2) [OF False] by linarith
    qed simp
    then have "filter (\<lambda>x. bucket_of x < Suc j) xs = filter (\<lambda>x. bucket_of x < Suc j) (filter (\<lambda>x. unat x < 2 ^ Suc j) xs)"
      by (induction xs) auto
    then show ?thesis unfolding below_def by (metis length_filter_le)
  qed
  with j show ?thesis using order_trans by blast
qed

theorem percentile_bucket_witness:
  "\<exists>j < 32. histogram_percentile (histogram_of [3000, 5, 70]) (1/2) = push_bit j 1 \<and> below [3000, 5, 70] j < 2"
proof -
  have c: "\<lceil>(1/2) * real (length [3000, 5, 70 :: 32 word])\<rceil> = 2" by (simp add: ceiling_eq_iff)
  show ?thesis using percentile_bucket [of "[3000, 5, 70]" "1/2"] unfolding c by (auto simp: max_def)
qed

subsection \<open>The sink\<close>

record telemetry_sink =
  ts_cycle :: nano_histogram
  ts_compute :: nano_histogram
  ts_comm :: nano_histogram
  ts_jitter :: nano_histogram
  ts_overruns :: "64 word"
  ts_faults :: "64 word"
  ts_comm_timeouts :: "64 word"
  ts_n :: "64 word"

definition telemetry_sink0 :: telemetry_sink where
  "telemetry_sink0 = \<lparr>ts_cycle = histogram0, ts_compute = histogram0, ts_comm = histogram0, ts_jitter = histogram0,
     ts_overruns = 0, ts_faults = 0, ts_comm_timeouts = 0, ts_n = 0\<rparr>"

definition sink_consume :: "telemetry_sink \<Rightarrow> cycle_sample \<Rightarrow> telemetry_sink" where
  "sink_consume t s =
     t\<lparr>ts_cycle := histogram_add (ts_cycle t) (smp_cycle_ns s), ts_compute := histogram_add (ts_compute t) (smp_compute_ns s),
       ts_comm := histogram_add (ts_comm t) (smp_comm_ns s), ts_jitter := histogram_add (ts_jitter t) (smp_wake_jitter_ns s),
       ts_overruns := ts_overruns t + (if bit (smp_flags s) 0 then 1 else 0),
       ts_faults := ts_faults t + (if bit (smp_flags s) 1 then 1 else 0),
       ts_comm_timeouts := ts_comm_timeouts t + (if bit (smp_flags s) 2 then 1 else 0), ts_n := ts_n t + 1\<rparr>"

end
