(* ===== verification/Rt_Executor.thy ===== *)
theory Rt_Executor
  imports Control_Modes Contact_Monitor Telemetry
begin

section \<open>The real-time executor\<close>

text \<open>
  \<open>RtExecutor\<close> (\<open>rt_executor.h\<close>, \<open>.cpp\<close>): the exchange with its miss accounting, fault
  confirmation, mode adoption at a cycle boundary, the contact stop, and the cycle that composes them.
  What a cycle gets from outside -- the outcome of the exchange and of the mode switch, and the clock
  at the points where the code reads it -- is its input; what other threads do to the shared state
  (request a mode, write targets, set thresholds, ask for a clear) happens between cycles, because
  the loop reads each of these once per cycle. Times are nanoseconds. Scheduling set-up and the
  sleeping itself are not modelled.
\<close>

subsection \<open>Exceptions, configuration, state\<close>

datatype exn = ExcCommsLost string | ExcTimeout string | ExcLogic string | ExcStd string | ExcUnknown

definition kMaxConsecutiveTimeouts :: int where "kMaxConsecutiveTimeouts = 3"
definition kDefaultCyclicTimeoutMs :: int where "kDefaultCyclicTimeoutMs = 20"
definition kFaultConfirmExchanges :: int where "kFaultConfirmExchanges = 3"
definition kLeftLowLevelConfirmExchanges :: int where "kLeftLowLevelConfirmExchanges = 50"

record executor_config =
  ec_rate_hz :: dbl
  ec_max_consecutive_misses :: int
  ec_max_window_misses :: int
  ec_miss_window :: int
  ec_exit_on_fault :: bool

definition executor_config0 :: executor_config where
  "executor_config0 = \<lparr>ec_rate_hz = Fin 1000, ec_max_consecutive_misses = kMaxConsecutiveTimeouts,
     ec_max_window_misses = 5, ec_miss_window = 1000, ec_exit_on_fault = False\<rparr>"

text \<open>The constructor's check; it throws \<open>std::invalid_argument\<close> otherwise.\<close>

definition executor_config_ok :: "executor_config \<Rightarrow> bool" where
  "executor_config_ok c = (\<not> (ec_max_consecutive_misses c < 1 \<or> ec_max_window_misses c < 1 \<or> ec_miss_window c < 1))"

definition ec_rate :: "executor_config \<Rightarrow> dbl" where
  "ec_rate c = (if Fin 0 < ec_rate_hz c then ec_rate_hz c else Fin 1000)"

definition ec_period_ns :: "executor_config \<Rightarrow> int" where
  "ec_period_ns c = \<lfloor>dval (Fin (10 ^ 9) / ec_rate c)\<rfloor>"

definition ec_dt_s :: "executor_config \<Rightarrow> dbl" where
  "ec_dt_s c = Fin 1 / ec_rate c"

definition ec_max_dt_s :: "executor_config \<Rightarrow> dbl" where
  "ec_max_dt_s c = Fin (of_int (ec_max_consecutive_misses c)) *
     (Fin (of_int kDefaultCyclicTimeoutMs) * Fin (1 / 1000) + ec_dt_s c)"

text \<open>
  The executor and the locals of one \<open>run\<close>. The contact monitor is attached together with the mode
  it adopts. \<open>rt_actuators\<close> is not the executor's: it records the actuator modes the arm was last
  switched to, none while they are not known to the run.
\<close>

record ('i, 'm) rt_state =
  rt_requested :: "'i option"
  rt_contact :: "(contact_monitor \<times> 'i) option"
  rt_modes :: 'm
  rt_ring :: sample_ring
  rt_active :: "'i option"
  rt_cmd :: joint_command
  rt_fb :: joint_feedback
  rt_misses :: int
  rt_miss_at :: "nat list"
  rt_exchanges :: nat
  rt_total_misses :: nat
  rt_faulty :: int
  rt_not_low_level :: int
  rt_last_compute_ns :: int
  rt_last_read_ns :: int
  rt_boundary :: int
  rt_cycle_index :: "64 word"
  rt_actuators :: "actuator_modes option"

definition rt_request_mode :: "'i \<Rightarrow> ('i, 'm) rt_state \<Rightarrow> ('i, 'm) rt_state" where
  "rt_request_mode i s = s\<lparr>rt_requested := Some i\<rparr>"

definition rt_attach_contact :: "contact_monitor \<Rightarrow> 'i \<Rightarrow> ('i, 'm) rt_state \<Rightarrow> ('i, 'm) rt_state" where
  "rt_attach_contact mon i s = s\<lparr>rt_contact := Some (mon, i)\<rparr>"

subsection \<open>One exchange\<close>

datatype exchange_outcome = ExchangeOk joint_feedback | ExchangeTimeout string | ExchangeThrows exn

text \<open>\<open>snprintf\<close> into 256 and 160 bytes.\<close>

definition comms_lost :: "string \<Rightarrow> string \<Rightarrow> exn" where
  "comms_lost why what = ExcCommsLost (take 255 (''RtExecutor: comms lost: '' @ why @ '' (last: '' @ what @ '')'' ))"

definition arm_fault :: "string \<Rightarrow> exn" where
  "arm_fault why = ExcStd (take 159 (''RtExecutor: arm fault: '' @ why))"

definition note_miss :: "nat \<Rightarrow> ('i, 'm) rt_state \<Rightarrow> ('i, 'm) rt_state" where
  "note_miss n s = s\<lparr>rt_miss_at := (rt_miss_at s)[rt_total_misses s mod length (rt_miss_at s) := n],
                    rt_total_misses := rt_total_misses s + 1\<rparr>"

definition window_full :: "executor_config \<Rightarrow> nat \<Rightarrow> ('i, 'm) rt_state \<Rightarrow> bool" where
  "window_full cfg n s = (length (rt_miss_at s) \<le> rt_total_misses s \<and>
     int (n - rt_miss_at s ! (rt_total_misses s mod length (rt_miss_at s))) < ec_miss_window cfg)"

definition exchange_ok :: "executor_config \<Rightarrow> exchange_outcome \<Rightarrow> ('i, 'm) rt_state \<Rightarrow> exn + bool \<times> ('i, 'm) rt_state" where
  "exchange_ok cfg oc s0 =
     (let n = rt_exchanges s0; s = s0\<lparr>rt_exchanges := n + 1\<rparr> in
      case oc of
        ExchangeOk fb \<Rightarrow> Inr (True, s\<lparr>rt_fb := fb, rt_misses := 0\<rparr>)
      | ExchangeThrows e \<Rightarrow> Inl e
      | ExchangeTimeout what \<Rightarrow>
          (let s1 = s\<lparr>rt_misses := rt_misses s + 1\<rparr> in
           if ec_max_consecutive_misses cfg \<le> rt_misses s1
           then Inl (comms_lost ''max_consecutive_misses exchange timeouts in a row'' what)
           else (let s2 = note_miss n s1 in
                 if window_full cfg n s2
                 then Inl (comms_lost ''max_window_misses exchange timeouts within miss_window exchanges'' what)
                 else Inr (False, s2))))"

definition check_fault :: "('i, 'm) rt_state \<Rightarrow> exn + ('i, 'm) rt_state" where
  "check_fault s0 =
     (let s = s0\<lparr>rt_faulty := (if fb_fault (rt_fb s0) then rt_faulty s0 + 1 else 0),
                rt_not_low_level := (if fb_low_level (rt_fb s0) then 0 else rt_not_low_level s0 + 1)\<rparr>
      in if kLeftLowLevelConfirmExchanges \<le> rt_not_low_level s
         then Inl (arm_fault ''the base left low-level servoing'')
         else if kFaultConfirmExchanges \<le> rt_faulty s then Inl (arm_fault ''the arm reports a fault'')
         else Inr s)"

subsection \<open>Adopting a mode\<close>

datatype switch_outcome = SwitchOk | SwitchTimeout string | SwitchThrows exn

definition monitor_latched :: "('i, 'm) rt_state \<Rightarrow> bool" where
  "monitor_latched s = (case rt_contact s of None \<Rightarrow> False | Some (mon, _) \<Rightarrow> cm_latched mon)"

definition pending_mode :: "('i, 'm) rt_state \<Rightarrow> 'i option \<times> ('i, 'm) rt_state" where
  "pending_mode s =
     (if rt_misses s \<noteq> 0 then (None, s)
      else if monitor_latched s then (map_option snd (rt_contact s), s)
      else (rt_requested s, s\<lparr>rt_requested := None\<rparr>))"

definition exit_active :: "('i, 'm) control_modes \<Rightarrow> ('i, 'm) rt_state \<Rightarrow> 'm" where
  "exit_active cm s = (case rt_active s of None \<Rightarrow> rt_modes s | Some a \<Rightarrow> mo_on_exit cm a (rt_modes s))"

text \<open>A result of a part of the cycle: it does not return, throws, or goes on.\<close>

type_synonym 's progress = "(exn + 's) option"

definition switch_mode :: "executor_config \<Rightarrow> ('i, 'm) control_modes \<Rightarrow> switch_outcome \<Rightarrow> 'i \<Rightarrow> ('i, 'm) rt_state
    \<Rightarrow> ('i, 'm) rt_state progress" where
  "switch_mode cfg cm sw i s =
     (let modes = mo_on_enter cm i (rt_fb s) (exit_active cm s);
          at_rest = (rt_fb s)\<lparr>fb_qd := vzero\<rparr>
      in case mo_compute cm i at_rest (ec_dt_s cfg) (rt_cmd s) modes of
           None \<Rightarrow> None
         | Some (modes', cmd) \<Rightarrow>
             (case sw of
                SwitchTimeout what \<Rightarrow> Some (Inl (comms_lost ''cyclic pumps timed out during a mode switch'' what))
              | SwitchThrows e \<Rightarrow> Some (Inl e)
              | SwitchOk \<Rightarrow> Some (Inr (s\<lparr>rt_modes := modes', rt_cmd := cmd, rt_active := Some i,
                              rt_last_compute_ns := - 1, rt_actuators := Some (mo_required_modes cm i)\<rparr>))))"

definition adopt_mode :: "executor_config \<Rightarrow> ('i, 'm) control_modes \<Rightarrow> switch_outcome \<Rightarrow> ('i, 'm) rt_state
    \<Rightarrow> ('i, 'm) rt_state progress" where
  "adopt_mode cfg cm sw s0 =
     (let (req, s) = pending_mode s0 in
      case req of None \<Rightarrow> Some (Inr s)
      | Some i \<Rightarrow> if rt_active s = Some i then Some (Inr s) else switch_mode cfg cm sw i s)"

subsection \<open>The contact stop and the command\<close>

definition contact_step :: "dbl \<Rightarrow> bool \<Rightarrow> ('i, 'm) rt_state \<Rightarrow> bool \<times> ('i, 'm) rt_state" where
  "contact_step read_dt missed s =
     (case rt_contact s of None \<Rightarrow> (False, s)
      | Some (mon, i) \<Rightarrow> (let (latched, mon') = cm_step mon (rt_fb s) read_dt missed
                          in (latched, s\<lparr>rt_contact := Some (mon', i)\<rparr>)))"

definition freeze :: "('i, 'm) rt_state \<Rightarrow> ('i, 'm) rt_state" where
  "freeze s = s\<lparr>rt_cmd := (rt_cmd s)\<lparr>jc_position := fb_q (rt_fb s), jc_velocity := vzero\<rparr>\<rparr>"

text \<open>Whether the cycle is frozen, and the state: the trip's own cycle.\<close>

definition contact_switch :: "('i, 'm) control_modes \<Rightarrow> bool \<Rightarrow> bool \<Rightarrow> ('i, 'm) rt_state \<Rightarrow> bool \<times> ('i, 'm) rt_state" where
  "contact_switch cm latched missed s =
     (case rt_contact s of
        Some (_, oc) \<Rightarrow>
          (if latched \<and> rt_active s \<noteq> Some oc \<and> \<not> missed
           then (case rt_active s of
                   Some a \<Rightarrow>
                     if mo_required_modes cm a = mo_required_modes cm oc
                     then (False, s\<lparr>rt_modes := mo_on_enter cm oc (rt_fb s) (mo_on_exit cm a (rt_modes s)),
                                    rt_active := Some oc\<rparr>)
                     else (True, freeze s)
                 | None \<Rightarrow> (True, freeze s))
           else (False, s))
      | None \<Rightarrow> (False, s))"

definition seconds :: "int \<Rightarrow> dbl" where
  "seconds ns = Fin (of_int ns * (1 / 10 ^ 9))"

definition compute_dt :: "executor_config \<Rightarrow> int \<Rightarrow> ('i, 'm) rt_state \<Rightarrow> dbl" where
  "compute_dt cfg t1 s =
     (if rt_last_compute_ns s < 0 then ec_dt_s cfg
      else smin (seconds (t1 - rt_last_compute_ns s)) (ec_max_dt_s cfg))"

definition compute_active :: "executor_config \<Rightarrow> ('i, 'm) control_modes \<Rightarrow> int \<Rightarrow> bool \<Rightarrow> bool \<Rightarrow> ('i, 'm) rt_state
    \<Rightarrow> ('i, 'm) rt_state option" where
  "compute_active cfg cm t1 missed frozen s =
     (case rt_active s of
        Some a \<Rightarrow>
          (if \<not> missed \<and> \<not> frozen
           then map_option (\<lambda>(modes, cmd). s\<lparr>rt_last_compute_ns := t1, rt_modes := modes, rt_cmd := cmd\<rparr>)
                  (mo_compute cm a (rt_fb s) (compute_dt cfg t1 s) (rt_cmd s) (rt_modes s))
           else Some s)
      | None \<Rightarrow> Some s)"

subsection \<open>The cycle\<close>

record cycle_input =
  ci_switch :: switch_outcome
  ci_exchange :: exchange_outcome
  ci_t0 :: int
  ci_t1 :: int
  ci_t2 :: int
  ci_now :: int

definition clamp_u32 :: "int \<Rightarrow> 32 word" where
  "clamp_u32 v = (if v < 0 then 0 else if 2 ^ 32 - 1 < v then - 1 else word_of_int v)"

definition flag_bits :: "bool \<Rightarrow> bool \<Rightarrow> bool \<Rightarrow> bool \<Rightarrow> 16 word" where
  "flag_bits overrun fault missed latched =
     (if overrun then 1 else 0) OR (if fault then 2 else 0) OR (if missed then 4 else 0) OR (if latched then 8 else 0)"

text \<open>Steps 7 and 8: the next boundary, resynchronised after an overrun, and the telemetry sample.\<close>

definition finish_cycle :: "executor_config \<Rightarrow> cycle_input \<Rightarrow> bool \<Rightarrow> bool \<Rightarrow> ('i, 'm) rt_state \<Rightarrow> ('i, 'm) rt_state" where
  "finish_cycle cfg inp missed latched s =
     (let next = rt_boundary s + ec_period_ns cfg;
          overrun = next < ci_now inp;
          smp = \<lparr>smp_cycle_index = rt_cycle_index s,
                 smp_wake_jitter_ns = clamp_u32 (ci_t0 inp - rt_boundary s),
                 smp_comm_ns = clamp_u32 (ci_t1 inp - ci_t0 inp),
                 smp_compute_ns = clamp_u32 (ci_t2 inp - ci_t1 inp),
                 smp_cycle_ns = clamp_u32 (ci_t2 inp - ci_t0 inp),
                 smp_flags = flag_bits overrun (fb_fault (rt_fb s)) missed latched\<rparr>
      in s\<lparr>rt_boundary := (if overrun then ci_now inp + ec_period_ns cfg else next),
           rt_cycle_index := rt_cycle_index s + 1, rt_ring := snd (ring_push (rt_ring s) smp)\<rparr>)"

text \<open>From a completed exchange to the end of the cycle (steps 5 to 8).\<close>

definition after_exchange :: "executor_config \<Rightarrow> ('i, 'm) control_modes \<Rightarrow> cycle_input \<Rightarrow> bool \<Rightarrow> ('i, 'm) rt_state
    \<Rightarrow> ('i, 'm) rt_state option" where
  "after_exchange cfg cm inp missed s0 =
     (let (latched, s1) = contact_step (seconds (ci_t1 inp - rt_last_read_ns s0)) missed (s0\<lparr>rt_last_read_ns := ci_t1 inp\<rparr>);
          (frozen, s2) = contact_switch cm latched missed s1
      in map_option (finish_cycle cfg inp missed latched) (compute_active cfg cm (ci_t1 inp) missed frozen s2))"

definition rt_cycle :: "executor_config \<Rightarrow> ('i, 'm) control_modes \<Rightarrow> cycle_input \<Rightarrow> ('i, 'm) rt_state
    \<Rightarrow> ('i, 'm) rt_state progress" where
  "rt_cycle cfg cm inp s0 =
     (case adopt_mode cfg cm (ci_switch inp) s0 of
        None \<Rightarrow> None
      | Some (Inl e) \<Rightarrow> Some (Inl e)
      | Some (Inr s1) \<Rightarrow>
          (case exchange_ok cfg (ci_exchange inp) s1 of
             Inl e \<Rightarrow> Some (Inl e)
           | Inr (good, s2) \<Rightarrow>
               (case if ec_exit_on_fault cfg \<and> good then check_fault s2 else Inr s2 of
                  Inl e \<Rightarrow> Some (Inl e)
                | Inr s3 \<Rightarrow> map_option Inr (after_exchange cfg cm inp (\<not> good) s3))))"

subsection \<open>A run\<close>

text \<open>The locals at the start of \<open>run\<close>, the contact monitor told about it.\<close>

definition rt_start :: "executor_config \<Rightarrow> ('i, 'm) rt_state \<Rightarrow> ('i, 'm) rt_state" where
  "rt_start cfg s = s\<lparr>rt_contact := map_option (\<lambda>(mon, i). (cm_on_run_start mon, i)) (rt_contact s),
     rt_active := None, rt_cmd := joint_command0, rt_fb := joint_feedback0, rt_misses := 0,
     rt_miss_at := replicate (nat (ec_max_window_misses cfg)) 0, rt_exchanges := 0, rt_total_misses := 0,
     rt_faulty := 0, rt_not_low_level := 0, rt_last_compute_ns := - 1, rt_cycle_index := 0,
     rt_actuators := None\<rparr>"

text \<open>
  The seeding read, retried until one exchange succeeds: over the outcomes of the exchanges made
  (\<open>None\<close> when they are used up before that), then the clock.
\<close>

fun rt_seed :: "executor_config \<Rightarrow> exchange_outcome list \<Rightarrow> ('i, 'm) rt_state \<Rightarrow> ('i, 'm) rt_state progress" where
  "rt_seed cfg [] s = None"
| "rt_seed cfg (oc # ocs) s =
     (case exchange_ok cfg oc s of
        Inl e \<Rightarrow> Some (Inl e)
      | Inr (good, s') \<Rightarrow> if good then Some (Inr s') else rt_seed cfg ocs s')"

definition rt_clock :: "executor_config \<Rightarrow> int \<Rightarrow> int \<Rightarrow> ('i, 'm) rt_state \<Rightarrow> ('i, 'm) rt_state" where
  "rt_clock cfg read now s = s\<lparr>rt_last_read_ns := read, rt_boundary := now + ec_period_ns cfg\<rparr>"

text \<open>
  The states at the cycle boundaries of a run, with what the other threads do in between: request a
  mode, change the modes' targets and parameters (anything, as far as the executor is concerned), and
  the two calls of the contact monitor's other side.
\<close>

inductive rt_reach :: "executor_config \<Rightarrow> ('i, 'm) control_modes \<Rightarrow> ('i, 'm) rt_state \<Rightarrow> ('i, 'm) rt_state \<Rightarrow> bool"
  for cfg cm s0 where
  seeded: "rt_seed cfg ocs (rt_start cfg s0) = Some (Inr s) \<Longrightarrow> rt_reach cfg cm s0 (rt_clock cfg read now s)"
| cycled: "\<lbrakk>rt_reach cfg cm s0 s; rt_cycle cfg cm inp s = Some (Inr s')\<rbrakk> \<Longrightarrow> rt_reach cfg cm s0 s'"
| requested: "rt_reach cfg cm s0 s \<Longrightarrow> rt_reach cfg cm s0 (rt_request_mode i s)"
| written: "rt_reach cfg cm s0 s \<Longrightarrow> rt_reach cfg cm s0 (s\<lparr>rt_modes := m\<rparr>)"
| thresholds: "\<lbrakk>rt_reach cfg cm s0 s; rt_contact s = Some (mon, i)\<rbrakk>
    \<Longrightarrow> rt_reach cfg cm s0 (s\<lparr>rt_contact := Some (cm_set_thresholds mon theta, i)\<rparr>)"
| cleared: "\<lbrakk>rt_reach cfg cm s0 s; rt_contact s = Some (mon, i)\<rbrakk>
    \<Longrightarrow> rt_reach cfg cm s0 (s\<lparr>rt_contact := Some (cm_request_clear mon, i)\<rparr>)"

end
