(* ===== verification/Kortex_Wire.thy ===== *)
theory Kortex_Wire
  imports Rt_Executor
begin

section \<open>The Kortex transport: messages, errors and cyclic calls\<close>

text \<open>
  The part of \<open>kortex_transport.cpp\<close> that builds and reads messages, and \<open>kortex_cyclic.h\<close>. The
  vendor SDK, the network and the arm behind them are the parameter \<open>kortex_arm\<close>: how each call is
  answered, as a function of every call made so far. The calls themselves are recorded, latest
  first, in the ghost field \<open>kx_trace\<close>. An operation returns the state also when it throws. The
  conversions between \<open>float\<close> and \<open>double\<close> are exact.
\<close>

subsection \<open>Messages\<close>

record kx_actuator_cmd =
  kc_position :: dbl
  kc_velocity :: dbl
  kc_torque :: dbl
  kc_current :: dbl
  kc_command_id :: "32 word"

record kx_motor_cmd =
  mc_position :: dbl
  mc_velocity :: dbl
  mc_force :: dbl

record cyclic_command =
  cm_frame_id :: "32 word"
  cm_actuators :: "kx_actuator_cmd list"
  cm_gripper :: "kx_motor_cmd option"

record kx_actuator_fb =
  ka_position :: dbl
  ka_velocity :: dbl
  ka_torque :: dbl
  ka_current :: dbl
  ka_fault_a :: "32 word"
  ka_fault_b :: "32 word"

datatype kx_arm_state = AsInFault | AsServoingLowLevel | AsOther

record kx_feedback =
  kf_frame_id :: "32 word"
  kf_actuators :: "kx_actuator_fb list"
  kf_base_fault_a :: "32 word"
  kf_base_fault_b :: "32 word"
  kf_state :: kx_arm_state
  kf_motors :: "(dbl \<times> dbl) list"

text \<open>A motor's feedback is its position and its current.\<close>

definition kx_actuator_cmd0 :: kx_actuator_cmd where
  "kx_actuator_cmd0 = \<lparr>kc_position = Fin 0, kc_velocity = Fin 0, kc_torque = Fin 0, kc_current = Fin 0, kc_command_id = 0\<rparr>"

definition cyclic_command0 :: cyclic_command where
  "cyclic_command0 = \<lparr>cm_frame_id = 0, cm_actuators = [], cm_gripper = None\<rparr>"

definition kx_feedback0 :: kx_feedback where
  "kx_feedback0 = \<lparr>kf_frame_id = 0, kf_actuators = [], kf_base_fault_a = 0, kf_base_fault_b = 0,
     kf_state = AsOther, kf_motors = []\<rparr>"

subsection \<open>The arm behind the SDK\<close>

datatype servoing = SingleLevel | LowLevel

datatype kx_call =
    KcConnectTcp | KcConnectUdp | KcCreateSession bool
  | KcActuatorCount | KcGetControlMode nat | KcSetControlMode actuator_mode nat bool
  | KcSetServoing servoing bool | KcArmState | KcClearFaults
  | KcRefresh cyclic_command | KcRefreshCommand cyclic_command | KcRefreshFeedback
  | KcCloseSession bool | KcDisconnect bool

text \<open>
  What the SDK throws: \<open>KDetailedException\<close> (an error reply), another \<open>std::runtime_error\<close>, anything
  else. A cyclic call can fail when it is sent, get no reply in time, get an error frame, or a frame:
  whether its payload parses as a feedback message, and what the message parsed into then holds (the
  protobuf library clears it first, so after a failure that is what was decoded up to there).
\<close>

datatype sdk_error = SeDetailed string | SeRuntime string | SeOther

datatype cyclic_reply = CySendFails sdk_error | CyNoReply | CyThrows sdk_error | CyFrame bool kx_feedback

record kortex_arm =
  ar_do :: "kx_call list \<Rightarrow> sdk_error option"
  ar_count :: "kx_call list \<Rightarrow> sdk_error + nat"
  ar_state :: "kx_call list \<Rightarrow> sdk_error + kx_arm_state"
  ar_cyclic :: "kx_call list \<Rightarrow> cyclic_reply"

datatype kx_error = KxTimeout string | KxRejected string | KxInvalid string | KxRuntime string | KxOther

text \<open>The handlers of the executor and of the link see these exceptions.\<close>

definition exn_of :: "kx_error \<Rightarrow> exn" where
  "exn_of e = (case e of KxTimeout w \<Rightarrow> ExcTimeout w | KxRejected w \<Rightarrow> ExcStd w | KxInvalid w \<Rightarrow> ExcLogic w
     | KxRuntime w \<Rightarrow> ExcStd w | KxOther \<Rightarrow> ExcUnknown)"

subsection \<open>The state\<close>

datatype kx_object = ObTcp | ObUdp | ObTcpRouter | ObUdpRouter | ObTcpSession | ObUdpSession | ObBase | ObCyclic | ObActuators

record kx =
  kx_alive :: "kx_object set"
  kx_cmd :: cyclic_command
  kx_fb :: kx_feedback
  kx_n :: nat
  kx_frame_id :: "16 word"
  kx_connected :: bool
  kx_unanswered :: bool
  kx_low_level :: bool
  kx_trace :: "kx_call list"

definition kx_init :: kx where
  "kx_init = \<lparr>kx_alive = {}, kx_cmd = cyclic_command0, kx_fb = kx_feedback0, kx_n = 0, kx_frame_id = 0,
     kx_connected = False, kx_unanswered = False, kx_low_level = False, kx_trace = []\<rparr>"

type_synonym 'a kx_result = "(kx_error + 'a) \<times> kx"

definition kx_then :: "'a kx_result \<Rightarrow> ('a \<Rightarrow> kx \<Rightarrow> 'b kx_result) \<Rightarrow> 'b kx_result" where
  "kx_then r f = (case r of (Inl e, k) \<Rightarrow> (Inl e, k) | (Inr a, k) \<Rightarrow> f a k)"

lemma kx_then_simps [simp]: "kx_then (Inl e, k) f = (Inl e, k)" "kx_then (Inr a, k) f = f a k"
  by (simp_all add: kx_then_def)

definition issue :: "kx_call \<Rightarrow> kx \<Rightarrow> kx" where
  "issue c k = k\<lparr>kx_trace := c # kx_trace k\<rparr>"

subsection \<open>Classified errors\<close>

definition prefixed :: "string \<Rightarrow> string \<Rightarrow> bool" where
  "prefixed p w = (take (length p) w = p)"

text \<open>The control channel: \<open>rpc\<close>.\<close>

definition rpc_error :: "sdk_error \<Rightarrow> kx_error" where
  "rpc_error e = (case e of
       SeDetailed w \<Rightarrow> KxRejected (''KortexTransport: arm rejected the request: '' @ w)
     | SeRuntime w \<Rightarrow> if prefixed ''timeout detected'' w then KxTimeout w else KxRuntime w
     | SeOther \<Rightarrow> KxOther)"

text \<open>A call outside \<open>rpc\<close>: the SDK's exception propagates as it is.\<close>

definition raw_error :: "sdk_error \<Rightarrow> kx_error" where
  "raw_error e = (case e of SeDetailed w \<Rightarrow> KxRuntime w | SeRuntime w \<Rightarrow> KxRuntime w | SeOther \<Rightarrow> KxOther)"

definition sdk_do :: "(sdk_error \<Rightarrow> kx_error) \<Rightarrow> kortex_arm \<Rightarrow> kx_call \<Rightarrow> kx \<Rightarrow> unit kx_result" where
  "sdk_do err arm c k =
     (let k1 = issue c k in case ar_do arm (kx_trace k1) of None \<Rightarrow> (Inr (), k1) | Some e \<Rightarrow> (Inl (err e), k1))"

definition sdk_get :: "(kx_call list \<Rightarrow> sdk_error + 'a) \<Rightarrow> kx_call \<Rightarrow> kx \<Rightarrow> 'a kx_result" where
  "sdk_get reply c k =
     (let k1 = issue c k in case reply (kx_trace k1) of Inr a \<Rightarrow> (Inr a, k1) | Inl e \<Rightarrow> (Inl (rpc_error e), k1))"

text \<open>The cyclic channel: \<open>kortex_cyclic_call\<close>.\<close>

definition cyclic_error :: "cyclic_reply \<Rightarrow> kx_error option" where
  "cyclic_error r = (case r of
       CySendFails (SeDetailed w) \<Rightarrow> Some (KxRejected (''KortexTransport: BaseCyclic send failed: '' @ w))
     | CySendFails (SeRuntime w) \<Rightarrow> Some (KxTimeout (''KortexTransport: BaseCyclic send failed: '' @ w))
     | CySendFails SeOther \<Rightarrow> Some KxOther
     | CyNoReply \<Rightarrow> Some (KxTimeout ''KortexTransport: no BaseCyclic reply within the cyclic timeout'')
     | CyThrows (SeDetailed w) \<Rightarrow> Some (KxRejected (''KortexTransport: arm rejected the cyclic call: '' @ w))
     | CyThrows (SeRuntime w) \<Rightarrow> Some (KxRuntime w)
     | CyThrows SeOther \<Rightarrow> Some KxOther
     | CyFrame _ _ \<Rightarrow> None)"

definition cyclic_payload :: "cyclic_reply \<Rightarrow> bool \<times> kx_feedback" where
  "cyclic_payload r = (case r of CyFrame parses f \<Rightarrow> (parses, f) | _ \<Rightarrow> (False, kx_feedback0))"

definition cyclic_call :: "kortex_arm \<Rightarrow> kx_call \<Rightarrow> kx \<Rightarrow> (bool \<times> kx_feedback) kx_result" where
  "cyclic_call arm c k =
     (let k1 = issue c k; r = ar_cyclic arm (kx_trace k1)
      in case cyclic_error r of Some e \<Rightarrow> (Inl e, k1) | None \<Rightarrow> (Inr (cyclic_payload r), k1))"

text \<open>The message is parsed straight into \<open>fb_\<close>, which a failure leaves changed too.\<close>

definition parse_feedback :: "bool \<times> kx_feedback \<Rightarrow> kx \<Rightarrow> unit kx_result" where
  "parse_feedback p k = (case p of (parses, f) \<Rightarrow>
     (if parses then Inr () else Inl (KxRuntime ''KortexTransport: unparseable BaseCyclic feedback''), k\<lparr>kx_fb := f\<rparr>))"

definition refresh :: "kortex_arm \<Rightarrow> kx \<Rightarrow> unit kx_result" where
  "refresh arm k = kx_then (cyclic_call arm (KcRefresh (kx_cmd k)) k) parse_feedback"

subsection \<open>Writing commands\<close>

text \<open>\<open>for (i < n) f(i, *cmd.mutable_actuators(i))\<close>; an index past the message is undefined there.\<close>

definition each_actuator :: "nat \<Rightarrow> (nat \<Rightarrow> kx_actuator_cmd \<Rightarrow> kx_actuator_cmd) \<Rightarrow> cyclic_command \<Rightarrow> cyclic_command" where
  "each_actuator n f c = c\<lparr>cm_actuators := map (\<lambda>i. if i < n then f i (cm_actuators c ! i) else cm_actuators c ! i)
                                              [0..<length (cm_actuators c)]\<rparr>"

definition bump_frame :: "kx \<Rightarrow> kx" where
  "bump_frame k = (let f = kx_frame_id k + 1 in k\<lparr>kx_frame_id := f, kx_cmd := (kx_cmd k)\<lparr>cm_frame_id := ucast f\<rparr>\<rparr>)"

definition measured :: "kx \<Rightarrow> nat \<Rightarrow> kx_actuator_fb" where
  "measured k i = kf_actuators (kx_fb k) ! i"

definition pump_actuator :: "kx \<Rightarrow> jointvec \<Rightarrow> nat \<Rightarrow> kx_actuator_cmd \<Rightarrow> kx_actuator_cmd" where
  "pump_actuator k torque i a = a\<lparr>kc_position := ka_position (measured k i), kc_torque := vnth torque i,
                                  kc_command_id := ucast (kx_frame_id k)\<rparr>"

definition load_pump :: "jointvec \<Rightarrow> kx \<Rightarrow> kx" where
  "load_pump torque k = (let k1 = bump_frame k in k1\<lparr>kx_cmd := each_actuator (kx_n k) (pump_actuator k1 torque) (kx_cmd k1)\<rparr>)"

definition kx_pump :: "kortex_arm \<Rightarrow> jointvec \<Rightarrow> kx \<Rightarrow> unit kx_result" where
  "kx_pump arm torque k = refresh arm (load_pump torque k)"

text \<open>The SDK's gripper speaks percent.\<close>

definition kPctPerUnit :: dbl where "kPctPerUnit = Fin 100"

definition kx_clamp01 :: "dbl \<Rightarrow> dbl" where
  "kx_clamp01 v = (if v < Fin 0 then Fin 0 else if Fin 1 < v then Fin 1 else v)"

definition write_actuator :: "joint_command \<Rightarrow> kx \<Rightarrow> nat \<Rightarrow> kx_actuator_cmd \<Rightarrow> kx_actuator_cmd" where
  "write_actuator c k i a =
     (let p = ka_position (measured k i);
          a1 = (case jc_mode c of
                  AmPosition \<Rightarrow> a\<lparr>kc_position := vnth (rad_to_deg (jc_position c)) i\<rparr>
                | AmVelocity \<Rightarrow> a\<lparr>kc_position := p, kc_velocity := vnth (rad_to_deg (jc_velocity c)) i\<rparr>
                | AmTorque \<Rightarrow> a\<lparr>kc_position := p, kc_torque := vnth (jc_torque c) i\<rparr>
                | AmCurrent \<Rightarrow> a\<lparr>kc_position := p, kc_current := vnth (jc_torque c) i\<rparr>)
      in a1\<lparr>kc_command_id := ucast (kx_frame_id k)\<rparr>)"

text \<open>An inactive gripper command leaves the last one in the message, which is sent again.\<close>

definition write_gripper :: "gripper_command \<Rightarrow> cyclic_command \<Rightarrow> cyclic_command" where
  "write_gripper g c =
     (if gc_active g
      then c\<lparr>cm_gripper := Some \<lparr>mc_position = kx_clamp01 (gc_position g) * kPctPerUnit,
                                 mc_velocity = kx_clamp01 (gc_speed g) * kPctPerUnit,
                                 mc_force = kx_clamp01 (gc_force g) * kPctPerUnit\<rparr>\<rparr>
      else c)"

definition write_command :: "joint_command \<Rightarrow> kx \<Rightarrow> kx" where
  "write_command c k =
     (let k1 = bump_frame k
      in k1\<lparr>kx_cmd := write_gripper (jc_gripper c) (each_actuator (kx_n k) (write_actuator c k1) (kx_cmd k1))\<rparr>)"

subsection \<open>Reading feedback\<close>

definition kGripperMaxCurrentA :: dbl where "kGripperMaxCurrentA = Fin 1"

definition gripper_reading :: "(dbl \<times> dbl) list \<Rightarrow> gripper_feedback" where
  "gripper_reading motors =
     (case motors of [] \<Rightarrow> gripper_feedback0
      | (position, current) # _ \<Rightarrow>
        (let e = abs current / kGripperMaxCurrentA
         in \<lparr>gf_position = position / kPctPerUnit, gf_effort = (if Fin 1 < e then Fin 1 else e),
             gf_current = current, gf_present = True\<rparr>))"

definition fault_reading :: "nat \<Rightarrow> kx_feedback \<Rightarrow> bool" where
  "fault_reading n f =
     ((\<exists>i \<in> set [0..<n]. ka_fault_a (kf_actuators f ! i) \<noteq> 0 \<or> ka_fault_b (kf_actuators f ! i) \<noteq> 0) \<or>
      kf_base_fault_a f \<noteq> 0 \<or> kf_base_fault_b f \<noteq> 0 \<or> kf_state f = AsInFault)"

definition fill_joint :: "nat \<Rightarrow> (nat \<Rightarrow> dbl) \<Rightarrow> jointvec \<Rightarrow> jointvec" where
  "fill_joint n f v = vgen (\<lambda>i. if i < n then f i else vnth v i)"

definition fill_feedback :: "kx \<Rightarrow> joint_feedback \<Rightarrow> joint_feedback option" where
  "fill_feedback k fb =
     (let n = kx_n k; f = kx_fb k in do {
        q \<leftarrow> vgenM (\<lambda>i. if i < n then wrap_to_pi (ka_position (measured k i) * kDeg2Rad) else Some (vnth (fb_q fb) i));
        Some \<lparr>fb_q = q,
              fb_qd = fill_joint n (\<lambda>i. ka_velocity (measured k i) * kDeg2Rad) (fb_qd fb),
              fb_tau = fill_joint n (\<lambda>i. - ka_torque (measured k i)) (fb_tau fb),
              fb_current = fill_joint n (\<lambda>i. ka_current (measured k i)) (fb_current fb),
              fb_frame_id = ucast (kf_frame_id f), fb_fault = fault_reading n f,
              fb_low_level = (kf_state f = AsServoingLowLevel), fb_gripper = gripper_reading (kf_motors f)\<rparr> })"

end
