(* ===== verification/Sim_Transport.thy ===== *)
theory Sim_Transport
  imports Kortex_Wire
begin

section \<open>The simulated transport\<close>

text \<open>
  \<open>SimTransport\<close> (\<open>sim_transport.h\<close>, \<open>.cpp\<close>): the arm that echoes. The busy wait of \<open>exchange\<close> is
  not modelled, the hook a test installs is the exception it throws, if any, and the load of the
  external torque is told whether it was whole. \<open>None\<close>: folding an angle does not return.
\<close>

subsection \<open>State\<close>

record sim =
  si_state :: joint_feedback
  si_last_cmd :: joint_command
  si_frame :: "64 word"
  si_gripper_lag :: dbl
  si_gripper_block :: dbl
  si_fail_connects :: int
  si_fail_health :: int
  si_clear_lag :: int
  si_lag_left :: int
  si_arm_fault :: bool
  si_fault_sticky :: bool
  si_low_level_fb :: bool
  si_gravity :: "(jointvec \<Rightarrow> jointvec) option"
  si_tau_ext :: jointvec
  si_tau_ext_seen :: jointvec
  si_connects :: int
  si_low_level_entries :: int
  si_releases :: int
  si_shutdowns :: int
  si_clears :: int

definition si_init :: "joint_feedback \<Rightarrow> sim" where
  "si_init initial = \<lparr>si_state = initial\<lparr>fb_gripper := (fb_gripper initial)\<lparr>gf_present := True\<rparr>\<rparr>,
     si_last_cmd = joint_command0, si_frame = 0, si_gripper_lag = Fin 1, si_gripper_block = Fin (-1),
     si_fail_connects = 0, si_fail_health = 0, si_clear_lag = 0, si_lag_left = 0, si_arm_fault = False,
     si_fault_sticky = False, si_low_level_fb = True, si_gravity = None, si_tau_ext = vzero, si_tau_ext_seen = vzero,
     si_connects = 0, si_low_level_entries = 0, si_releases = 0, si_shutdowns = 0, si_clears = 0\<rparr>"

text \<open>The knobs.\<close>

definition si_set_gripper_lag :: "dbl \<Rightarrow> sim \<Rightarrow> sim" where "si_set_gripper_lag x s = s\<lparr>si_gripper_lag := x\<rparr>"
definition si_set_gripper_blocked_at :: "dbl \<Rightarrow> sim \<Rightarrow> sim" where "si_set_gripper_blocked_at x s = s\<lparr>si_gripper_block := x\<rparr>"
definition si_set_fail_connects :: "int \<Rightarrow> sim \<Rightarrow> sim" where "si_set_fail_connects n s = s\<lparr>si_fail_connects := n\<rparr>"
definition si_set_arm_fault :: "bool \<Rightarrow> sim \<Rightarrow> sim" where "si_set_arm_fault f s = s\<lparr>si_arm_fault := f\<rparr>"
definition si_set_fault_sticky :: "bool \<Rightarrow> sim \<Rightarrow> sim" where "si_set_fault_sticky f s = s\<lparr>si_fault_sticky := f\<rparr>"
definition si_set_external_torque :: "jointvec \<Rightarrow> sim \<Rightarrow> sim" where "si_set_external_torque t s = s\<lparr>si_tau_ext := t\<rparr>"
definition si_set_gravity_model :: "(jointvec \<Rightarrow> jointvec) \<Rightarrow> sim \<Rightarrow> sim" where "si_set_gravity_model g s = s\<lparr>si_gravity := Some g\<rparr>"
definition si_set_clear_lag :: "int \<Rightarrow> sim \<Rightarrow> sim" where "si_set_clear_lag n s = s\<lparr>si_clear_lag := n\<rparr>"
definition si_set_low_level_feedback :: "bool \<Rightarrow> sim \<Rightarrow> sim" where "si_set_low_level_feedback l s = s\<lparr>si_low_level_fb := l\<rparr>"
definition si_set_fail_health :: "int \<Rightarrow> sim \<Rightarrow> sim" where "si_set_fail_health n s = s\<lparr>si_fail_health := n\<rparr>"
definition si_set_joint_positions :: "jointvec \<Rightarrow> sim \<Rightarrow> sim" where
  "si_set_joint_positions q s = s\<lparr>si_state := (si_state s)\<lparr>fb_q := q\<rparr>\<rparr>"

subsection \<open>Life cycle\<close>

definition si_connect :: "sim \<Rightarrow> (exn + unit) \<times> sim" where
  "si_connect s =
     (let s1 = s\<lparr>si_connects := si_connects s + 1\<rparr>
      in if 0 < si_fail_connects s1
         then (Inl (ExcStd ''sim: arm unreachable''), s1\<lparr>si_fail_connects := si_fail_connects s1 - 1\<rparr>)
         else (Inr (), s1))"

definition si_set_servoing_low_level :: "sim \<Rightarrow> sim" where
  "si_set_servoing_low_level s = s\<lparr>si_low_level_entries := si_low_level_entries s + 1\<rparr>"

definition si_safe_shutdown :: "sim \<Rightarrow> sim" where "si_safe_shutdown s = s\<lparr>si_shutdowns := si_shutdowns s + 1\<rparr>"
definition si_release_low_level :: "sim \<Rightarrow> sim" where "si_release_low_level s = s\<lparr>si_releases := si_releases s + 1\<rparr>"

definition si_arm_in_fault :: "sim \<Rightarrow> (exn + bool) \<times> sim" where
  "si_arm_in_fault s =
     (if 0 < si_fail_health s then (Inl (ExcTimeout ''sim: no reply to the arm-state query''), s\<lparr>si_fail_health := si_fail_health s - 1\<rparr>)
      else if 0 < si_lag_left s then (Inr True, s\<lparr>si_lag_left := si_lag_left s - 1\<rparr>)
      else (Inr (si_arm_fault s), s))"

definition si_clear_faults :: "sim \<Rightarrow> sim" where
  "si_clear_faults s =
     (let s1 = s\<lparr>si_clears := si_clears s + 1\<rparr>
      in if si_fault_sticky s1 then s1 else s1\<lparr>si_arm_fault := False, si_lag_left := si_clear_lag s1\<rparr>)"

subsection \<open>The cycle\<close>

definition kSettledEps :: dbl where "kSettledEps = Fin (1 / 1000000)"

definition gripper_target :: "dbl \<Rightarrow> dbl \<Rightarrow> dbl" where
  "gripper_target block p = (if Fin 0 \<le> block \<and> block < p then block else p)"

definition step_gripper :: "gripper_command \<Rightarrow> sim \<Rightarrow> sim" where
  "step_gripper g s =
     (let f = (fb_gripper (si_state s))\<lparr>gf_present := True\<rparr>; block = si_gripper_block s
      in if \<not> gc_active g then s\<lparr>si_state := (si_state s)\<lparr>fb_gripper := f\<rparr>\<rparr>
         else (let target = gripper_target block (gc_position g);
                   before = gf_position f;
                   p1 = before + (target - before) * si_gripper_lag s;
                   p2 = (if Fin 0 \<le> block \<and> deq target block \<and> abs (p1 - block) < kSettledEps then block else p1);
                   blocked = (Fin 0 \<le> block \<and> block < gc_position g \<and> abs (p2 - block) < kSettledEps);
                   effort = (if blocked then gc_force g else Fin 0)
               in s\<lparr>si_state := (si_state s)\<lparr>fb_gripper := f\<lparr>gf_position := p2, gf_effort := effort,
                    gf_current := effort * kGripperMaxCurrentA\<rparr>\<rparr>\<rparr>))"

definition step_torque :: "joint_command \<Rightarrow> sim \<Rightarrow> sim" where
  "step_torque c s =
     (if jc_mode c = AmTorque then s\<lparr>si_state := (si_state s)\<lparr>fb_tau := jc_torque c\<rparr>\<rparr>
      else case si_gravity s of None \<Rightarrow> s | Some g \<Rightarrow> s\<lparr>si_state := (si_state s)\<lparr>fb_tau := g (fb_q (si_state s))\<rparr>\<rparr>)"

definition si_latch :: "joint_command \<Rightarrow> sim \<Rightarrow> sim" where
  "si_latch c s = (let s1 = step_gripper (jc_gripper c) (step_torque c (s\<lparr>si_last_cmd := c\<rparr>)); f = si_frame s1 + 1
                   in s1\<lparr>si_frame := f, si_state := (si_state s1)\<lparr>fb_frame_id := f\<rparr>\<rparr>)"

definition report_wrapped :: "bool \<Rightarrow> sim \<Rightarrow> (joint_feedback \<times> sim) option" where
  "report_wrapped whole s0 =
     (let s = (if whole then s0\<lparr>si_tau_ext_seen := si_tau_ext s0\<rparr> else s0); f = si_state s in do {
        q \<leftarrow> vgenM (\<lambda>i. wrap_to_pi (vnth (fb_q f) i));
        Some (f\<lparr>fb_q := q, fb_tau := fb_tau f - si_tau_ext_seen s, fb_fault := fb_fault f \<or> si_arm_fault s,
                fb_low_level := si_low_level_fb s\<rparr>, s) })"

definition si_exchange :: "exn option \<Rightarrow> bool \<Rightarrow> joint_command \<Rightarrow> sim \<Rightarrow> ((exn + joint_feedback) \<times> sim) option" where
  "si_exchange hook whole c s =
     (case hook of Some e \<Rightarrow> Some (Inl e, s)
      | None \<Rightarrow> map_option (\<lambda>(fb, s). (Inr fb, s)) (report_wrapped whole (si_latch c s)))"

definition si_send :: "joint_command \<Rightarrow> sim \<Rightarrow> sim" where "si_send c s = si_latch c s"

definition si_receive :: "bool \<Rightarrow> sim \<Rightarrow> (joint_feedback \<times> sim) option" where "si_receive whole s = report_wrapped whole s"

subsection \<open>What it reports\<close>

lemma step_gripper_frame: "\<exists>f. step_gripper g s = s\<lparr>si_state := (si_state s)\<lparr>fb_gripper := f\<rparr>\<rparr>"
  unfolding step_gripper_def Let_def by (cases "gc_active g") (simp_all only: if_True if_False not_True_eq_False not_False_eq_True, blast+)

lemma step_torque_frame: "\<exists>t. step_torque c s = s\<lparr>si_state := (si_state s)\<lparr>fb_tau := t\<rparr>\<rparr> \<and> (jc_mode c = AmTorque \<longrightarrow> t = jc_torque c)"
proof (cases "jc_mode c = AmTorque \<or> si_gravity s \<noteq> None")
  case True
  then show ?thesis by (auto simp: step_torque_def)
next
  case False
  then show ?thesis by (intro exI [of _ "fb_tau (si_state s)"]) (simp add: step_torque_def)
qed

lemma latch_frame:
  "\<exists>t f. si_latch c s = s\<lparr>si_last_cmd := c, si_frame := si_frame s + 1,
     si_state := (si_state s)\<lparr>fb_tau := t, fb_gripper := f, fb_frame_id := si_frame s + 1\<rparr>\<rparr> \<and> (jc_mode c = AmTorque \<longrightarrow> t = jc_torque c)"
proof -
  obtain t where t: "step_torque c (s\<lparr>si_last_cmd := c\<rparr>) = s\<lparr>si_last_cmd := c, si_state := (si_state s)\<lparr>fb_tau := t\<rparr>\<rparr>"
    "jc_mode c = AmTorque \<longrightarrow> t = jc_torque c" using step_torque_frame [of c "s\<lparr>si_last_cmd := c\<rparr>"] by auto
  obtain f where "step_gripper (jc_gripper c) (s\<lparr>si_last_cmd := c, si_state := (si_state s)\<lparr>fb_tau := t\<rparr>\<rparr>) =
    s\<lparr>si_last_cmd := c, si_state := (si_state s)\<lparr>fb_tau := t, fb_gripper := f\<rparr>\<rparr>"
    using step_gripper_frame [of "jc_gripper c" "s\<lparr>si_last_cmd := c, si_state := (si_state s)\<lparr>fb_tau := t\<rparr>\<rparr>"] by auto
  then show ?thesis using t(2) by (intro exI [of _ t] exI [of _ f]) (simp add: si_latch_def t(1) Let_def)
qed

lemma latch_state:
  "fb_q (si_state (si_latch c s)) = fb_q (si_state s)" "si_tau_ext (si_latch c s) = si_tau_ext s"
  "si_gripper_block (si_latch c s) = si_gripper_block s" "si_frame (si_latch c s) = si_frame s + 1"
  "si_arm_fault (si_latch c s) = si_arm_fault s"
proof -
  obtain t f where "si_latch c s = s\<lparr>si_last_cmd := c, si_frame := si_frame s + 1,
     si_state := (si_state s)\<lparr>fb_tau := t, fb_gripper := f, fb_frame_id := si_frame s + 1\<rparr>\<rparr>" using latch_frame by blast
  note l = this
  show "fb_q (si_state (si_latch c s)) = fb_q (si_state s)" "si_tau_ext (si_latch c s) = si_tau_ext s"
    "si_gripper_block (si_latch c s) = si_gripper_block s" "si_frame (si_latch c s) = si_frame s + 1"
    "si_arm_fault (si_latch c s) = si_arm_fault s" unfolding l by simp_all
qed

text \<open>In torque mode the feedback is the command, less the push on the arm; angles are in the hardware's range.\<close>

lemma report_reads:
  assumes "report_wrapped whole s = Some (fb, s')"
  shows "fb_tau fb = fb_tau (si_state s) - (if whole then si_tau_ext s else si_tau_ext_seen s)" "fb_frame_id fb = fb_frame_id (si_state s)"
  using assms by (auto simp: report_wrapped_def Let_def bind_eq_Some_conv)

lemma sim_torque_echo:
  assumes "si_exchange None True c s = Some (Inr fb, s')" and "jc_mode c = AmTorque"
  shows "fb_tau fb = jc_torque c - si_tau_ext s \<and> fb_frame_id fb = si_frame s + 1"
proof -
  obtain t f where l: "si_latch c s = s\<lparr>si_last_cmd := c, si_frame := si_frame s + 1,
     si_state := (si_state s)\<lparr>fb_tau := t, fb_gripper := f, fb_frame_id := si_frame s + 1\<rparr>\<rparr>" and t: "jc_mode c = AmTorque \<longrightarrow> t = jc_torque c"
    using latch_frame by blast
  have st: "fb_tau (si_state (si_latch c s)) = t" "fb_frame_id (si_state (si_latch c s)) = si_frame s + 1" unfolding l by simp_all
  have "report_wrapped True (si_latch c s) = Some (fb, s')" using assms(1) by (auto simp: si_exchange_def)
  from report_reads [OF this] show ?thesis using st t assms(2) by (simp add: latch_state)
qed

lemma sim_exchange_returns:
  assumes "vfinite (fb_q (si_state s))"
  shows "\<exists>fb s'. si_exchange None whole c s = Some (Inr fb, s') \<and> (\<forall>i < 7. \<exists>x. vnth (fb_q fb) i = Fin x \<and> in_pi x)"
proof -
  have ex: "\<exists>y. wrap_to_pi (vnth (fb_q (si_state s)) i) = Some y" if "i < 7" for i
    using wrap_if_finite [OF vfiniteD [OF assms that], of True] by auto
  obtain q where q: "vgenM (\<lambda>i. wrap_to_pi (vnth (fb_q (si_state s)) i)) = Some q"
    using vgenM_SomeI [of "\<lambda>i. wrap_to_pi (vnth (fb_q (si_state s)) i)", OF ex] by blast
  have "\<exists>x. vnth q i = Fin x \<and> in_pi x" if i: "i < 7" for i
  proof -
    obtain x where "vnth (fb_q (si_state s)) i = Fin x" using vfiniteD [OF assms i] by blast
    then show ?thesis using q i wrap_to_pi_in_range by (auto simp: vgenM_Some_iff)
  qed
  then show ?thesis using q by (simp add: si_exchange_def report_wrapped_def latch_state Let_def)
qed

subsection \<open>The gripper and its object\<close>

text \<open>
  With a lag between 0 and 1 the fingers move towards their target and never past it, so never past the
  object; effort is reported only at the object, and only while more than the object's width is asked for.
\<close>

definition fingers_ok :: "sim \<Rightarrow> bool" where
  "fingers_ok s \<longleftrightarrow> (\<exists>p l. gf_position (fb_gripper (si_state s)) = Fin p \<and> si_gripper_lag s = Fin l \<and> 0 \<le> l \<and> l \<le> 1 \<and>
     (\<exists>b. si_gripper_block s = Fin b \<and> (0 \<le> b \<longrightarrow> p \<le> b)))"

lemma lag_within: "(b::real) \<ge> p \<Longrightarrow> b \<ge> t \<Longrightarrow> 0 \<le> l \<Longrightarrow> l \<le> 1 \<Longrightarrow> p + (t - p) * l \<le> b"
proof -
  assume a: "p \<le> b" "t \<le> b" "0 \<le> l" "l \<le> 1"
  have "(1 - l) * p + l * t \<le> (1 - l) * b + l * b" using a by (intro add_mono mult_left_mono) auto
  then show ?thesis by (simp add: algebra_simps)
qed

lemma fingers_stop_at_object:
  assumes "fingers_ok s" and "gc_position g = Fin x"
  shows "fingers_ok (step_gripper g s) \<and>
    (gc_active g \<and> gf_effort (fb_gripper (si_state (step_gripper g s))) \<noteq> Fin 0 \<longrightarrow>
       gf_position (fb_gripper (si_state (step_gripper g s))) = si_gripper_block s \<and> si_gripper_block s < gc_position g)"
proof -
  obtain p l b where s: "gf_position (fb_gripper (si_state s)) = Fin p" "si_gripper_lag s = Fin l" "0 \<le> l" "l \<le> 1"
    "si_gripper_block s = Fin b" "0 \<le> b \<longrightarrow> p \<le> b" using assms(1) by (auto simp: fingers_ok_def)
  have "0 \<le> b \<Longrightarrow> p + (b - p) * l \<le> b" "0 \<le> b \<Longrightarrow> x \<le> b \<Longrightarrow> p + (x - p) * l \<le> b"
    using s lag_within by auto
  then show ?thesis
    using s assms(2) by (auto simp: fingers_ok_def step_gripper_def gripper_target_def kSettledEps_def Let_def)
qed

subsection \<open>Clearing a fault\<close>

fun poll_fault :: "nat \<Rightarrow> sim \<Rightarrow> bool list \<times> sim" where
  "poll_fault 0 s = ([], s)"
| "poll_fault (Suc n) s =
     (let (r, s1) = si_arm_in_fault s; (bs, s2) = poll_fault n s1 in ((case r of Inr b \<Rightarrow> b | Inl _ \<Rightarrow> True) # bs, s2))"

lemma clear_ends_after_lag:
  assumes "si_lag_left s = int n" and "\<not> si_arm_fault s" and "si_fail_health s \<le> 0"
  shows "fst (poll_fault (n + m) s) = replicate n True @ replicate m False"
  using assms
proof (induction n arbitrary: s)
  case 0
  then show ?case by (induction m) (simp_all add: si_arm_in_fault_def Let_def case_prod_beta)
next
  case (Suc n)
  have "fst (poll_fault (n + m) (s\<lparr>si_lag_left := si_lag_left s - 1\<rparr>)) = replicate n True @ replicate m False"
    using Suc.prems by (intro Suc.IH) simp_all
  then show ?case using Suc.prems by (simp add: si_arm_in_fault_def Let_def case_prod_beta)
qed

end
