(* ===== verification/Gripper.thy ===== *)
theory Gripper
  imports Joint_Types
begin

section \<open>The gripper controller\<close>

text \<open>
  \<open>GripperController\<close> (\<open>gripper_controller.h\<close> and \<open>.cpp\<close>): a transport decorator that stamps the
  latest gripper target into every outgoing command. The wrapped transport is a pair of functions on
  its own state. The C++ fields are \<open>float\<close>; they are modelled by the same exact doubles.
\<close>

definition clamp01 :: "dbl \<Rightarrow> dbl" where
  "clamp01 v = (if v < Fin 0 then Fin 0 else if Fin 1 < v then Fin 1 else v)"

record gripper_controller =
  gr_buf :: "gripper_command dbuf"
  gr_stamping :: bool

definition gr_init :: gripper_controller where
  "gr_init = \<lparr>gr_buf = dbuf_init gripper_command0, gr_stamping = False\<rparr>"

definition gr_clamped :: "gripper_command \<Rightarrow> gripper_command" where
  "gr_clamped c = c\<lparr>gc_position := clamp01 (gc_position c), gc_speed := clamp01 (gc_speed c), gc_force := clamp01 (gc_force c)\<rparr>"

definition gr_set_target :: "gripper_controller \<Rightarrow> gripper_command \<Rightarrow> gripper_controller" where
  "gr_set_target g c = g\<lparr>gr_buf := dbuf_publish (gr_buf g) (gr_clamped c), gr_stamping := True\<rparr>"

definition gr_release :: "gripper_controller \<Rightarrow> gripper_controller" where
  "gr_release g = g\<lparr>gr_stamping := False\<rparr>"

definition gr_target :: "gripper_controller \<Rightarrow> gripper_command" where
  "gr_target g = dbuf_read (gr_buf g)"

definition gr_stamp :: "gripper_controller \<Rightarrow> joint_command \<Rightarrow> joint_command" where
  "gr_stamp g c = c\<lparr>jc_gripper := (dbuf_read (gr_buf g))\<lparr>gc_active := gr_stamping g\<rparr>\<rparr>"

text \<open>The decorated transport: the wrapped one sees the stamped command.\<close>

definition gr_exchange :: "('t \<Rightarrow> joint_command \<Rightarrow> joint_feedback \<times> 't) \<Rightarrow> gripper_controller \<Rightarrow> 't \<Rightarrow> joint_command \<Rightarrow> joint_feedback \<times> 't" where
  "gr_exchange inner g t c = inner t (gr_stamp g c)"

definition gr_send :: "('t \<Rightarrow> joint_command \<Rightarrow> 't) \<Rightarrow> gripper_controller \<Rightarrow> 't \<Rightarrow> joint_command \<Rightarrow> 't" where
  "gr_send inner g t c = inner t (gr_stamp g c)"

lemma clamp01_range: "v \<noteq> NaN \<Longrightarrow> \<exists>x. clamp01 v = Fin x \<and> 0 \<le> x \<and> x \<le> 1"
  by (cases v) (auto simp: clamp01_def)

lemma clamp01_NaN [simp]: "clamp01 NaN = NaN"
  by (simp add: clamp01_def)

text \<open>The supervisor's side: targets and releases, in any order.\<close>

datatype gripper_op = GoTarget gripper_command | GoRelease

definition gr_apply :: "gripper_op \<Rightarrow> gripper_controller \<Rightarrow> gripper_controller" where
  "gr_apply op g = (case op of GoTarget c \<Rightarrow> gr_set_target g c | GoRelease \<Rightarrow> gr_release g)"

definition gr_run :: "gripper_op list \<Rightarrow> gripper_controller" where
  "gr_run ops = fold gr_apply ops gr_init"

text \<open>What was asked for: the last target, and whether the last operation was a target.\<close>

fun last_target :: "gripper_op list \<Rightarrow> gripper_command" where
  "last_target [] = gripper_command0"
| "last_target (op # ops) = (case op of GoTarget c \<Rightarrow> gr_clamped c | GoRelease \<Rightarrow> last_target ops)"

definition last_is_target :: "gripper_op list \<Rightarrow> bool" where
  "last_is_target ops = (case rev ops of GoTarget _ # _ \<Rightarrow> True | _ \<Rightarrow> False)"

text \<open>
  What goes out to the gripper: after any sequence of targets and releases, every outgoing
  command carries the last target, saturated into its range, and is marked active exactly when no
  release followed that target; the rest of the command is passed on unchanged, and a release does
  not lose the target.
\<close>

theorem gripper_stamp_latest:
  "gr_stamp (gr_run ops) c =
     c\<lparr>jc_gripper := (last_target (rev ops))\<lparr>gc_active := last_is_target ops\<rparr>\<rparr> \<and>
   gr_target (gr_run ops) = last_target (rev ops)"
proof -
  have "dbuf_read (gr_buf (gr_run ops)) = last_target (rev ops) \<and> gr_stamping (gr_run ops) = last_is_target ops"
  proof (induction ops rule: rev_induct)
    case Nil
    then show ?case by (simp add: gr_run_def gr_init_def last_is_target_def)
  next
    case (snoc op ops)
    then show ?case
      by (cases op) (simp_all add: gr_run_def gr_apply_def gr_set_target_def gr_release_def last_is_target_def)
  qed
  then show ?thesis by (simp add: gr_stamp_def gr_target_def)
qed

text \<open>A NaN is not saturated: it is stamped as it came.\<close>

lemma gripper_NaN_stamped:
  "gc_position (jc_gripper (gr_stamp (gr_set_target g (c\<lparr>gc_position := NaN\<rparr>)) out)) = NaN"
  by (simp add: gr_stamp_def gr_set_target_def gr_clamped_def)

lemma gripper_target_range:
  assumes "gc_position c \<noteq> NaN" and "gc_speed c \<noteq> NaN" and "gc_force c \<noteq> NaN"
  shows "\<exists>p s f. gr_clamped c = \<lparr>gc_position = Fin p, gc_speed = Fin s, gc_force = Fin f, gc_active = gc_active c\<rparr> \<and>
    0 \<le> p \<and> p \<le> 1 \<and> 0 \<le> s \<and> s \<le> 1 \<and> 0 \<le> f \<and> f \<le> 1"
  using clamp01_range [OF assms(1)] clamp01_range [OF assms(2)] clamp01_range [OF assms(3)]
  by (cases c) (simp add: gr_clamped_def, blast)

end
