(* ===== verification/Teleop_Protocol.thy ===== *)
theory Teleop_Protocol
  imports Prelude
begin

unbundle bit_operations_syntax

section \<open>The wire protocol of the teleoperation server\<close>

text \<open>
  \<open>teleop_protocol.h\<close>: packed little-endian structures that the server copies to and from datagrams
  with \<open>memcpy\<close>. A \<open>double\<close> or a \<open>float\<close> on the wire is its bit pattern, a 64-bit or 32-bit word. Each
  structure has its bytes (\<open>put\<close>) and the reading of the bytes in front of a buffer (\<open>get\<close>), in the
  order of its fields.
\<close>

subsection \<open>Little-endian words\<close>

fun le_bytes :: "nat \<Rightarrow> 'a::len word \<Rightarrow> 8 word list" where
  "le_bytes 0 w = []"
| "le_bytes (Suc n) w = ucast w # le_bytes n (drop_bit 8 w)"

fun of_le :: "8 word list \<Rightarrow> 'a::len word" where
  "of_le [] = 0"
| "of_le (b # bs) = ucast b OR push_bit 8 (of_le bs)"

lemma length_le_bytes [simp]: "length (le_bytes n w) = n"
  by (induction n w rule: le_bytes.induct) simp_all

lemma of_le_le_bytes: "of_le (le_bytes n w) = take_bit (8 * n) w"
proof (induction n w rule: le_bytes.induct)
  case (2 n w)
  have "ucast (ucast w :: 8 word) OR push_bit 8 (take_bit (8 * n) (drop_bit 8 w)) = take_bit (8 * Suc n) w"
    by (rule bit_word_eqI) (auto simp: bit_simps)
  then show ?case using 2 by simp
qed simp

definition get_word :: "nat \<Rightarrow> 8 word list \<Rightarrow> 'a::len word \<times> 8 word list" where
  "get_word n bs = (of_le (take n bs), drop n bs)"

lemma get_word_put [simp]: "LENGTH('a::len) = 8 * n \<Longrightarrow> get_word n (le_bytes n (w :: 'a word) @ bs) = (w, bs)"
  by (rule prod_eqI) (auto simp: get_word_def of_le_le_bytes intro!: bit_word_eqI simp: bit_simps)

abbreviation put64 :: "64 word \<Rightarrow> 8 word list" where "put64 \<equiv> le_bytes 8"
abbreviation put32 :: "32 word \<Rightarrow> 8 word list" where "put32 \<equiv> le_bytes 4"
abbreviation put16 :: "16 word \<Rightarrow> 8 word list" where "put16 \<equiv> le_bytes 2"
abbreviation put8 :: "8 word \<Rightarrow> 8 word list" where "put8 \<equiv> le_bytes 1"

abbreviation get64 :: "8 word list \<Rightarrow> 64 word \<times> 8 word list" where "get64 \<equiv> get_word 8"
abbreviation get32 :: "8 word list \<Rightarrow> 32 word \<times> 8 word list" where "get32 \<equiv> get_word 4"
abbreviation get16 :: "8 word list \<Rightarrow> 16 word \<times> 8 word list" where "get16 \<equiv> get_word 2"
abbreviation get8 :: "8 word list \<Rightarrow> 8 word \<times> 8 word list" where "get8 \<equiv> get_word 1"

subsection \<open>Arrays\<close>

definition put_vec7 :: "64 word vec7 \<Rightarrow> 8 word list" where
  "put_vec7 v = (case v of V7 a b c d e f g \<Rightarrow> put64 a @ put64 b @ put64 c @ put64 d @ put64 e @ put64 f @ put64 g)"

definition get_vec7 :: "8 word list \<Rightarrow> 64 word vec7 \<times> 8 word list" where
  "get_vec7 bs = (let (a, r1) = get64 bs; (b, r2) = get64 r1; (c, r3) = get64 r2; (d, r4) = get64 r3;
     (e, r5) = get64 r4; (f, r6) = get64 r5; (g, r7) = get64 r6 in (V7 a b c d e f g, r7))"

definition put_vec6 :: "64 word vec6 \<Rightarrow> 8 word list" where
  "put_vec6 v = (case v of V6 a b c d e f \<Rightarrow> put64 a @ put64 b @ put64 c @ put64 d @ put64 e @ put64 f)"

definition get_vec6 :: "8 word list \<Rightarrow> 64 word vec6 \<times> 8 word list" where
  "get_vec6 bs = (let (a, r1) = get64 bs; (b, r2) = get64 r1; (c, r3) = get64 r2; (d, r4) = get64 r3;
     (e, r5) = get64 r4; (f, r6) = get64 r5 in (V6 a b c d e f, r6))"

type_synonym word3 = "64 word \<times> 64 word \<times> 64 word"
type_synonym word4 = "64 word \<times> 64 word \<times> 64 word \<times> 64 word"

definition put_vec3 :: "word3 \<Rightarrow> 8 word list" where
  "put_vec3 v = (case v of (a, b, c) \<Rightarrow> put64 a @ put64 b @ put64 c)"

definition get_vec3 :: "8 word list \<Rightarrow> word3 \<times> 8 word list" where
  "get_vec3 bs = (let (a, r1) = get64 bs; (b, r2) = get64 r1; (c, r3) = get64 r2 in ((a, b, c), r3))"

definition put_vec4 :: "word4 \<Rightarrow> 8 word list" where
  "put_vec4 v = (case v of (a, b, c, d) \<Rightarrow> put64 a @ put64 b @ put64 c @ put64 d)"

definition get_vec4 :: "8 word list \<Rightarrow> word4 \<times> 8 word list" where
  "get_vec4 bs = (let (a, r1) = get64 bs; (b, r2) = get64 r1; (c, r3) = get64 r2; (d, r4) = get64 r3 in ((a, b, c, d), r4))"

lemma get_put_vec [simp]:
  "get_vec7 (put_vec7 v @ bs) = (v, bs)" "get_vec6 (put_vec6 w @ bs) = (w, bs)"
  "get_vec3 (put_vec3 x @ bs) = (x, bs)" "get_vec4 (put_vec4 y @ bs) = (y, bs)"
proof -
  show "get_vec7 (put_vec7 v @ bs) = (v, bs)" by (cases v) (simp add: get_vec7_def put_vec7_def)
  show "get_vec6 (put_vec6 w @ bs) = (w, bs)" by (cases w) (simp add: get_vec6_def put_vec6_def)
  show "get_vec3 (put_vec3 x @ bs) = (x, bs)" by (cases x) (simp add: get_vec3_def put_vec3_def)
  show "get_vec4 (put_vec4 y @ bs) = (y, bs)" by (cases y) (simp add: get_vec4_def put_vec4_def)
qed

lemma length_put_vec [simp]:
  "length (put_vec7 v) = 56" "length (put_vec6 w) = 48" "length (put_vec3 x) = 24" "length (put_vec4 y) = 32"
  by (cases v; cases w; cases x; cases y; simp add: put_vec7_def put_vec6_def put_vec3_def put_vec4_def)+

subsection \<open>Packets\<close>

definition kMagic :: "32 word" where "kMagic = 0x4B544C50"
definition kVersion :: "16 word" where "kVersion = 2"

datatype msg_type = MtPoseTarget | MtSetGains | MtControl | MtFeedback

definition msg_code :: "msg_type \<Rightarrow> 16 word" where
  "msg_code t = (case t of MtPoseTarget \<Rightarrow> 1 | MtSetGains \<Rightarrow> 2 | MtControl \<Rightarrow> 3 | MtFeedback \<Rightarrow> 4)"

datatype control_cmd = CcClearFaults | CcRehome | CcFreeze | CcShutdown

definition control_code :: "control_cmd \<Rightarrow> 32 word" where
  "control_code c = (case c of CcClearFaults \<Rightarrow> 1 | CcRehome \<Rightarrow> 2 | CcFreeze \<Rightarrow> 3 | CcShutdown \<Rightarrow> 4)"

record tp_header =
  th_magic :: "32 word"
  th_version :: "16 word"
  th_msg_type :: "16 word"
  th_seq :: "32 word"
  th_timestamp_ns :: "64 word"

record pose_target_packet =
  pt_h :: tp_header
  pt_pos :: word3
  pt_quat_wxyz :: word4
  pt_gripper :: "32 word"
  pt_flags :: "32 word"

record gains_packet =
  gk_h :: tp_header
  gk_Kx :: "64 word vec6"
  gk_Dx :: "64 word vec6"
  gk_nullspace_kp :: "64 word"
  gk_nullspace_kd :: "64 word"
  gk_pinv_damping :: "64 word"
  gk_torque_limit :: "64 word"
  gk_gain_ramp_s :: "64 word"
  gk_nullspace_on :: "8 word"

record control_packet =
  ck_h :: tp_header
  ck_command :: "32 word"
  ck_control_seq :: "32 word"

record feedback_packet =
  fk_h :: tp_header
  fk_q :: "64 word vec7"
  fk_qd :: "64 word vec7"
  fk_tau :: "64 word vec7"
  fk_ee_pos :: word3
  fk_ee_quat_wxyz :: word4
  fk_gripper_state :: "32 word"
  fk_fault :: "8 word"
  fk_frame_id :: "64 word"
  fk_last_control_seq :: "32 word"

definition put_header :: "tp_header \<Rightarrow> 8 word list" where
  "put_header h = put32 (th_magic h) @ put16 (th_version h) @ put16 (th_msg_type h) @ put32 (th_seq h) @ put64 (th_timestamp_ns h)"

definition get_header :: "8 word list \<Rightarrow> tp_header \<times> 8 word list" where
  "get_header bs = (let (m, r1) = get32 bs; (v, r2) = get16 r1; (t, r3) = get16 r2; (s, r4) = get32 r3; (ts, r5) = get64 r4
     in (\<lparr>th_magic = m, th_version = v, th_msg_type = t, th_seq = s, th_timestamp_ns = ts\<rparr>, r5))"

definition put_pose_target :: "pose_target_packet \<Rightarrow> 8 word list" where
  "put_pose_target p = put_header (pt_h p) @ put_vec3 (pt_pos p) @ put_vec4 (pt_quat_wxyz p) @ put32 (pt_gripper p) @ put32 (pt_flags p)"

definition get_pose_target :: "8 word list \<Rightarrow> pose_target_packet" where
  "get_pose_target bs = (let (h, r1) = get_header bs; (p, r2) = get_vec3 r1; (q, r3) = get_vec4 r2; (g, r4) = get32 r3; (f, r5) = get32 r4
     in \<lparr>pt_h = h, pt_pos = p, pt_quat_wxyz = q, pt_gripper = g, pt_flags = f\<rparr>)"

definition put_gains :: "gains_packet \<Rightarrow> 8 word list" where
  "put_gains p = put_header (gk_h p) @ put_vec6 (gk_Kx p) @ put_vec6 (gk_Dx p) @ put64 (gk_nullspace_kp p) @ put64 (gk_nullspace_kd p) @
     put64 (gk_pinv_damping p) @ put64 (gk_torque_limit p) @ put64 (gk_gain_ramp_s p) @ put8 (gk_nullspace_on p)"

definition get_gains :: "8 word list \<Rightarrow> gains_packet" where
  "get_gains bs = (let (h, r1) = get_header bs; (kx, r2) = get_vec6 r1; (dx, r3) = get_vec6 r2; (kp, r4) = get64 r3; (kd, r5) = get64 r4;
      (pd, r6) = get64 r5; (tl, r7) = get64 r6; (gr, r8) = get64 r7; (on, r9) = get8 r8
     in \<lparr>gk_h = h, gk_Kx = kx, gk_Dx = dx, gk_nullspace_kp = kp, gk_nullspace_kd = kd, gk_pinv_damping = pd, gk_torque_limit = tl,
         gk_gain_ramp_s = gr, gk_nullspace_on = on\<rparr>)"

definition put_control :: "control_packet \<Rightarrow> 8 word list" where
  "put_control p = put_header (ck_h p) @ put32 (ck_command p) @ put32 (ck_control_seq p)"

definition get_control :: "8 word list \<Rightarrow> control_packet" where
  "get_control bs = (let (h, r1) = get_header bs; (c, r2) = get32 r1; (s, r3) = get32 r2
     in \<lparr>ck_h = h, ck_command = c, ck_control_seq = s\<rparr>)"

definition put_feedback :: "feedback_packet \<Rightarrow> 8 word list" where
  "put_feedback p = put_header (fk_h p) @ put_vec7 (fk_q p) @ put_vec7 (fk_qd p) @ put_vec7 (fk_tau p) @ put_vec3 (fk_ee_pos p) @
     put_vec4 (fk_ee_quat_wxyz p) @ put32 (fk_gripper_state p) @ put8 (fk_fault p) @ put64 (fk_frame_id p) @ put32 (fk_last_control_seq p)"

definition get_feedback :: "8 word list \<Rightarrow> feedback_packet" where
  "get_feedback bs = (let (h, r1) = get_header bs; (q, r2) = get_vec7 r1; (qd, r3) = get_vec7 r2; (tau, r4) = get_vec7 r3;
      (p, r5) = get_vec3 r4; (w, r6) = get_vec4 r5; (g, r7) = get32 r6; (f, r8) = get8 r7; (i, r9) = get64 r8; (s, r10) = get32 r9
     in \<lparr>fk_h = h, fk_q = q, fk_qd = qd, fk_tau = tau, fk_ee_pos = p, fk_ee_quat_wxyz = w, fk_gripper_state = g, fk_fault = f,
         fk_frame_id = i, fk_last_control_seq = s\<rparr>)"

definition valid_header :: "tp_header \<Rightarrow> msg_type \<Rightarrow> bool" where
  "valid_header h t = (th_magic h = kMagic \<and> th_version h = kVersion \<and> th_msg_type h = msg_code t)"

lemma get_put_header [simp]: "get_header (put_header h @ bs) = (h, bs)"
  by (simp add: get_header_def put_header_def)

lemma length_put_header [simp]: "length (put_header h) = 20"
  by (simp add: put_header_def)

lemma get_put_packet:
  "get_pose_target (put_pose_target p @ bs) = p" "get_gains (put_gains g @ bs) = g"
  "get_control (put_control c @ bs) = c" "get_feedback (put_feedback f @ bs) = f"
  by (simp_all add: get_pose_target_def put_pose_target_def get_gains_def put_gains_def get_control_def put_control_def
      get_feedback_def put_feedback_def del: le_bytes.simps One_nat_def)

lemma length_put_packet:
  "length (put_pose_target p) = 84" "length (put_gains g) = 157" "length (put_control c) = 28" "length (put_feedback f) = 261"
  by (simp_all add: put_pose_target_def put_gains_def put_control_def put_feedback_def del: le_bytes.simps)

subsection \<open>The documented formats\<close>

text \<open>
  The other half of the contract is a Python program that packs and unpacks the same packets with format
  strings: \<open><IHHIQ\<close> for the header and, behind it, \<open><3d4dfI\<close>, \<open><6d6d5dB\<close>, \<open><II\<close> and \<open><7d7d7d3d4dfBQI\<close> for the
  bodies (the teleoperation server's design document). A format is a list of letters, each with an
  optional count: \<open><\<close> asks for little-endian fields without padding. \<open>unpack_from\<close> reads the bit patterns
  of the fields from an offset of a buffer and fails when the buffer is too short, as Python's does.
\<close>

definition code_width :: "char \<Rightarrow> nat option" where
  "code_width c = (if c = CHR ''B'' then Some 1 else if c = CHR ''H'' then Some 2
     else if c = CHR ''I'' \<or> c = CHR ''f'' then Some 4 else if c = CHR ''Q'' \<or> c = CHR ''d'' then Some 8 else None)"

definition digit_value :: "char \<Rightarrow> nat option" where
  "digit_value c = (if 48 \<le> (of_char c :: nat) \<and> of_char c \<le> (57 :: nat) then Some (of_char c - 48) else None)"

fun field_widths :: "nat option \<Rightarrow> string \<Rightarrow> nat list option" where
  "field_widths k [] = (if k = None then Some [] else None)"
| "field_widths k (c # cs) =
     (case digit_value c of
        Some d \<Rightarrow> field_widths (Some (10 * (case k of None \<Rightarrow> 0 | Some n \<Rightarrow> n) + d)) cs
      | None \<Rightarrow> do { w \<leftarrow> code_width c; ws \<leftarrow> field_widths None cs;
                     Some (replicate (case k of None \<Rightarrow> 1 | Some n \<Rightarrow> n) w @ ws) })"

definition format_widths :: "string \<Rightarrow> nat list option" where
  "format_widths fmt = (case fmt of c # cs \<Rightarrow> if c = CHR ''<'' then field_widths None cs else None | [] \<Rightarrow> None)"

fun cut_fields :: "nat list \<Rightarrow> 8 word list \<Rightarrow> 64 word list" where
  "cut_fields [] bs = []"
| "cut_fields (w # ws) bs = of_le (take w bs) # cut_fields ws (drop w bs)"

definition unpack_from :: "string \<Rightarrow> nat \<Rightarrow> 8 word list \<Rightarrow> 64 word list option" where
  "unpack_from fmt off buf = do { ws \<leftarrow> format_widths fmt;
     if off + sum_list ws \<le> length buf then Some (cut_fields ws (drop off buf)) else None }"

lemma format_widths_packets:
  "format_widths ''<IHHIQ'' = Some [4, 2, 2, 4, 8]"
  "format_widths ''<3d4dfI'' = Some [8, 8, 8, 8, 8, 8, 8, 4, 4]"
  "format_widths ''<6d6d5dB'' = Some [8, 8, 8, 8, 8, 8, 8, 8, 8, 8, 8, 8, 8, 8, 8, 8, 8, 1]"
  "format_widths ''<II'' = Some [4, 4]"
  "format_widths ''<7d7d7d3d4dfBQI'' =
     Some [8, 8, 8, 8, 8, 8, 8, 8, 8, 8, 8, 8, 8, 8, 8, 8, 8, 8, 8, 8, 8, 8, 8, 8, 8, 8, 8, 8, 4, 1, 8, 4]"
  by code_simp+

lemma bit_of_le: "bit (of_le bs :: 'a::len word) n \<longleftrightarrow> n < LENGTH('a) \<and> n div 8 < length bs \<and> bit (bs ! (n div 8)) (n mod 8)"
proof (induction bs arbitrary: n)
  case (Cons b bs)
  show ?case
  proof (cases "n < 8")
    case True
    then show ?thesis by (auto simp: bit_simps)
  next
    case False
    then have n: "n div 8 = Suc ((n - 8) div 8)" "(n - 8) mod 8 = n mod 8"
      using div_add_self2 [of 8 "n - 8"] mod_add_self2 [of "n - 8" 8] by simp_all
    have "\<not> bit b n" using False bit_imp_le_length [of b n] by auto
    then show ?thesis using Cons [of "n - 8"] False n by (auto simp: bit_simps)
  qed
qed simp

lemma ucast_of_le:
  assumes "length bs \<le> n" and "8 * n \<le> LENGTH('a)" and "LENGTH('a) \<le> LENGTH('b)"
  shows "(ucast (of_le bs :: 'a::len word) :: 'b::len word) = of_le bs"
proof (rule bit_word_eqI)
  fix k assume k: "k < LENGTH('b)"
  have "k < LENGTH('a)" if "k div 8 < length bs"
    using that assms(1,2) by (simp add: div_less_iff_less_mult)
  with k show "bit (ucast (of_le bs :: 'a word) :: 'b word) k = bit (of_le bs :: 'b word) k"
    using assms(3) by (auto simp: bit_simps bit_of_le)
qed

lemma ucast_take [simp]:
  "(ucast (of_le (take 4 bs) :: 32 word) :: 64 word) = of_le (take 4 bs)"
  "(ucast (of_le (take 2 bs) :: 16 word) :: 64 word) = of_le (take 2 bs)"
  "(ucast (of_le (take (Suc 0) bs) :: 8 word) :: 64 word) = of_le (take (Suc 0) bs)"
  by (rule ucast_of_le [where n = 4] ucast_of_le [where n = 2] ucast_of_le [where n = 1]; simp)+

text \<open>The fields of the packets, in the documented order.\<close>

definition header_fields :: "tp_header \<Rightarrow> 64 word list" where
  "header_fields h = [ucast (th_magic h), ucast (th_version h), ucast (th_msg_type h), ucast (th_seq h), th_timestamp_ns h]"

definition list3 :: "word3 \<Rightarrow> 64 word list" where "list3 v = (case v of (a, b, c) \<Rightarrow> [a, b, c])"
definition list4 :: "word4 \<Rightarrow> 64 word list" where "list4 v = (case v of (a, b, c, d) \<Rightarrow> [a, b, c, d])"
definition list6 :: "64 word vec6 \<Rightarrow> 64 word list" where "list6 v = (case v of V6 a b c d e f \<Rightarrow> [a, b, c, d, e, f])"
definition list7 :: "64 word vec7 \<Rightarrow> 64 word list" where "list7 v = (case v of V7 a b c d e f g \<Rightarrow> [a, b, c, d, e, f, g])"

definition pose_fields :: "pose_target_packet \<Rightarrow> 64 word list" where
  "pose_fields p = list3 (pt_pos p) @ list4 (pt_quat_wxyz p) @ [ucast (pt_gripper p), ucast (pt_flags p)]"

definition gains_fields :: "gains_packet \<Rightarrow> 64 word list" where
  "gains_fields p = list6 (gk_Kx p) @ list6 (gk_Dx p) @
     [gk_nullspace_kp p, gk_nullspace_kd p, gk_pinv_damping p, gk_torque_limit p, gk_gain_ramp_s p, ucast (gk_nullspace_on p)]"

definition control_fields :: "control_packet \<Rightarrow> 64 word list" where
  "control_fields p = [ucast (ck_command p), ucast (ck_control_seq p)]"

definition feedback_fields :: "feedback_packet \<Rightarrow> 64 word list" where
  "feedback_fields p = list7 (fk_q p) @ list7 (fk_qd p) @ list7 (fk_tau p) @ list3 (fk_ee_pos p) @ list4 (fk_ee_quat_wxyz p) @
     [ucast (fk_gripper_state p), ucast (fk_fault p), fk_frame_id p, ucast (fk_last_control_seq p)]"

lemmas get_defs = get_header_def get_word_def get_vec3_def get_vec4_def get_vec6_def get_vec7_def
lemmas field_defs = header_fields_def list3_def list4_def list6_def list7_def

lemma unpack_header: "unpack_from ''<IHHIQ'' 0 buf = (if 20 \<le> length buf then Some (header_fields (fst (get_header buf))) else None)"
  by (simp add: unpack_from_def format_widths_packets get_defs field_defs)

lemma unpack_pose_target:
  "unpack_from ''<3d4dfI'' 20 buf = (if 84 \<le> length buf then Some (pose_fields (get_pose_target buf)) else None)"
  by (simp add: unpack_from_def format_widths_packets get_pose_target_def pose_fields_def get_defs field_defs)

lemma unpack_gains:
  "unpack_from ''<6d6d5dB'' 20 buf = (if 157 \<le> length buf then Some (gains_fields (get_gains buf)) else None)"
  by (simp add: unpack_from_def format_widths_packets get_gains_def gains_fields_def get_defs field_defs)

lemma unpack_control:
  "unpack_from ''<II'' 20 buf = (if 28 \<le> length buf then Some (control_fields (get_control buf)) else None)"
  by (simp add: unpack_from_def format_widths_packets get_control_def control_fields_def get_defs field_defs)

lemma unpack_feedback:
  "unpack_from ''<7d7d7d3d4dfBQI'' 20 buf = (if 261 \<le> length buf then Some (feedback_fields (get_feedback buf)) else None)"
  by (simp add: unpack_from_def format_widths_packets get_feedback_def feedback_fields_def get_defs field_defs)

lemma unpack_put_feedback:
  "unpack_from ''<IHHIQ'' 0 (put_feedback f) = Some (header_fields (fk_h f))"
  "unpack_from ''<7d7d7d3d4dfBQI'' 20 (put_feedback f) = Some (feedback_fields f)"
proof -
  have "get_header (put_feedback f) = (fk_h f, drop 20 (put_feedback f))" by (simp add: put_feedback_def)
  then show "unpack_from ''<IHHIQ'' 0 (put_feedback f) = Some (header_fields (fk_h f))"
    by (simp add: unpack_header length_put_packet)
  show "unpack_from ''<7d7d7d3d4dfBQI'' 20 (put_feedback f) = Some (feedback_fields f)"
    using get_put_packet(4) [of f "[]"] by (simp add: unpack_feedback length_put_packet)
qed

end
