(* ===== verification/Teleop_Server.thy ===== *)
theory Teleop_Server
  imports Cartesian_Mode Gripper Teleop_Protocol
begin

section \<open>The teleoperation server\<close>

text \<open>
  \<open>apps/teleop_socket_server.cpp\<close>: the parser of joint vectors on the command line, what the receiving
  thread does with a datagram, and the receiving and the feedback thread as step functions between the
  points where the other thread, or a signal, can come in. How a bit
  pattern reads as a number (\<open>of64\<close>, \<open>of32\<close>) and is written back (\<open>to64\<close>, \<open>to32\<close>), Eigen's quaternion
  normalization and the library's \<open>stod\<close> are parameters. The wrapped transport's \<open>clear_faults\<close> is
  counted; a client is its address.
\<close>

subsection \<open>Joint vectors on the command line\<close>

text \<open>\<open>stod\<close> gives the value and how many characters it used, or throws.\<close>

function parse_vals :: "(string \<Rightarrow> (dbl \<times> nat) option) \<Rightarrow> nat \<Rightarrow> string \<Rightarrow> dbl list option" where
  "parse_vals stod n s =
     (if n = kNumJoints then None
      else (let tok = takeWhile (\<lambda>c. c \<noteq> CHR '','') s; rest = dropWhile (\<lambda>c. c \<noteq> CHR '','') s
            in if tok = [] then None
               else case stod tok of
                      None \<Rightarrow> None
                    | Some (v, used) \<Rightarrow>
                        if used \<noteq> length tok then None
                        else case rest of [] \<Rightarrow> Some [v] | _ # r \<Rightarrow> map_option ((#) v) (parse_vals stod (n + 1) r)))"
  by pat_completeness auto
termination
proof (relation "measure (\<lambda>(_, _, s). length s)", goal_cases)
  case (2 stod n s tok rest v y r rs)
  then show ?case using length_dropWhile_le [of "\<lambda>c. c \<noteq> CHR '',''" s] by (auto dest: arg_cong [where f = length])
qed simp

declare parse_vals.simps [simp del]

definition vec_of_list :: "dbl list \<Rightarrow> jointvec" where
  "vec_of_list vs = vgen (\<lambda>i. vs ! i)"

definition parse_joint_vec :: "(string \<Rightarrow> (dbl \<times> nat) option) \<Rightarrow> string \<Rightarrow> jointvec option" where
  "parse_joint_vec stod s =
     (case parse_vals stod 0 s of
        None \<Rightarrow> None
      | Some vals \<Rightarrow> if length vals = 1 then Some (vconst (hd vals))
                     else if length vals = kNumJoints then Some (vec_of_list vals) else None)"

text \<open>The tokens of a list of values, separated by commas.\<close>

fun comma_join :: "string list \<Rightarrow> string" where
  "comma_join [] = []"
| "comma_join [t] = t"
| "comma_join (t # u # ts) = t @ CHR '','' # comma_join (u # ts)"

definition whole_token :: "(string \<Rightarrow> (dbl \<times> nat) option) \<Rightarrow> string \<Rightarrow> bool" where
  "whole_token stod t \<longleftrightarrow> t \<noteq> [] \<and> CHR '','' \<notin> set t \<and> (\<exists>v. stod t = Some (v, length t))"

lemma takeWhile_token: "CHR '','' \<notin> set t \<Longrightarrow> takeWhile (\<lambda>c. c \<noteq> CHR '','') t = t"
  "CHR '','' \<notin> set t \<Longrightarrow> dropWhile (\<lambda>c. c \<noteq> CHR '','') t = []"
  by (auto simp: takeWhile_eq_all_conv dropWhile_eq_Nil_conv)

lemma takeWhile_token_Cons:
  "CHR '','' \<notin> set t \<Longrightarrow> takeWhile (\<lambda>c. c \<noteq> CHR '','') (t @ CHR '','' # r) = t"
  "CHR '','' \<notin> set t \<Longrightarrow> dropWhile (\<lambda>c. c \<noteq> CHR '','') (t @ CHR '','' # r) = CHR '','' # r"
  by (auto simp: takeWhile_append dropWhile_append)

lemma parse_vals_tokens:
  assumes "\<forall>t \<in> set ts. whole_token stod t" and "ts \<noteq> []" and "n + length ts \<le> 7"
  shows "parse_vals stod n (comma_join ts) = Some (map (\<lambda>t. fst (the (stod t))) ts)"
  using assms
proof (induction ts arbitrary: n rule: comma_join.induct)
  case (2 t)
  then show ?case by (auto simp: parse_vals.simps [of stod n t] whole_token_def takeWhile_token Let_def)
next
  case (3 t u ts)
  have "parse_vals stod (n + 1) (comma_join (u # ts)) = Some (map (\<lambda>t. fst (the (stod t))) (u # ts))"
    using "3.prems" by (intro "3.IH") auto
  then show ?case using "3.prems"
    by (auto simp: parse_vals.simps [of stod n "t @ _"] whole_token_def takeWhile_token_Cons Let_def)
qed simp

lemma parse_vals_length: "parse_vals stod n s = Some vs \<Longrightarrow> n \<le> 7 \<Longrightarrow> vs \<noteq> [] \<and> n + length vs \<le> 7"
proof (induction stod n s arbitrary: vs rule: parse_vals.induct)
  case (1 stod n s)
  let ?tok = "takeWhile (\<lambda>c. c \<noteq> CHR '','') s" and ?rest = "dropWhile (\<lambda>c. c \<noteq> CHR '','') s"
  note u = "1.prems"(1) [unfolded parse_vals.simps [of stod n s] Let_def]
  have n: "n \<noteq> 7" "?tok \<noteq> []" using u by (auto split: if_splits)
  then obtain v where v: "stod ?tok = Some (v, length ?tok)" using u by (auto split: option.splits if_splits)
  show ?case
  proof (cases ?rest)
    case Nil
    then have "vs = [v]" using u n v by (simp del: dropWhile_eq_Nil_conv)
    then show ?thesis using n "1.prems"(2) by simp
  next
    case (Cons c r)
    then obtain ws where "parse_vals stod (n + 1) r = Some ws" "vs = v # ws" using u n v by auto
    then show ?thesis using "1.IH" [OF n(1) refl refl n(2) v refl _ Cons, of ws] n(1) "1.prems"(2) by simp
  qed
qed

lemma parse_vals_too_many:
  assumes "\<forall>t \<in> set ts. whole_token stod t" and "7 < n + length ts" and "n \<le> 7"
  shows "parse_vals stod n (comma_join ts) = None"
  using assms
proof (induction ts arbitrary: n rule: comma_join.induct)
  case (2 t)
  then show ?case by (simp add: parse_vals.simps [of stod n t])
next
  case (3 t u ts)
  show ?case
  proof (cases "n = 7")
    case True
    then show ?thesis by (simp add: parse_vals.simps [of stod 7])
  next
    case False
    then have "parse_vals stod (n + 1) (comma_join (u # ts)) = None" using "3.prems" by (intro "3.IH") auto
    then show ?thesis using "3.prems" False
      by (auto simp: parse_vals.simps [of stod n "t @ _"] whole_token_def takeWhile_token_Cons Let_def)
  qed
qed simp

text \<open>
  The joint vectors a command line can give: one number for all joints, or one for each.
  Comma-separated tokens that the number parser takes whole are read as written, in order, when there
  are one or seven of them, and refused when there are any other number of them.
\<close>

theorem joint_vec_reads_tokens:
  assumes "\<forall>t \<in> set ts. whole_token stod t" and "ts \<noteq> []"
  shows "if length ts = 1 \<or> length ts = 7
    then \<exists>v. parse_joint_vec stod (comma_join ts) = Some v \<and>
      (\<forall>i < 7. let t = ts ! (if length ts = 1 then 0 else i) in stod t = Some (vnth v i, length t))
    else parse_joint_vec stod (comma_join ts) = None"
proof (cases "length ts \<le> 7")
  case True
  have p: "parse_vals stod 0 (comma_join ts) = Some (map (\<lambda>t. fst (the (stod t))) ts)"
    using assms True by (intro parse_vals_tokens) auto
  have tok: "stod (ts ! j) = Some (fst (the (stod (ts ! j))), length (ts ! j))" if "j < length ts" for j
  proof -
    have "whole_token stod (ts ! j)" using assms(1) nth_mem [OF that] by blast
    then show ?thesis unfolding whole_token_def by (metis fst_conv option.sel)
  qed
  consider "length ts = 1" | "length ts = 7" | "length ts \<noteq> 1" "length ts \<noteq> 7" by blast
  then show ?thesis
  proof cases
    case 1
    then show ?thesis using p tok [of 0] assms(2) by (simp add: parse_joint_vec_def hd_conv_nth Let_def)
  next
    case 2
    then have "parse_joint_vec stod (comma_join ts) = Some (vec_of_list (map (\<lambda>t. fst (the (stod t))) ts))"
      using p by (simp add: parse_joint_vec_def)
    moreover have "stod (ts ! i) = Some (vnth (vec_of_list (map (\<lambda>t. fst (the (stod t))) ts)) i, length (ts ! i))" if "i < 7" for i
      using tok [of i] that 2 by (simp add: vec_of_list_def)
    ultimately show ?thesis using 2 by (simp add: Let_def)
  next
    case 3
    then show ?thesis using p by (simp add: parse_joint_vec_def)
  qed
next
  case False
  then show ?thesis using parse_vals_too_many [of ts stod 0] assms(1) by (simp add: parse_joint_vec_def)
qed

subsection \<open>The receiving thread\<close>

record teleop_env =
  tv_of64 :: "64 word \<Rightarrow> dbl"
  tv_to64 :: "dbl \<Rightarrow> 64 word"
  tv_of32 :: "32 word \<Rightarrow> dbl"
  tv_to32 :: "dbl \<Rightarrow> 32 word"
  tv_normalize :: "dbl \<times> dbl \<times> dbl \<times> dbl \<Rightarrow> dbl \<times> dbl \<times> dbl \<times> dbl"
  tv_fk :: "jointvec \<Rightarrow> pose"

datatype teleop_mode = TmCartesian cart_mode | TmJoint impedance_mode

record 'a teleop =
  te_mode :: teleop_mode
  te_jgains :: impedance_params
  te_home_pose :: pose
  te_injector :: gripper_controller
  te_client :: "'a option"
  te_last_control_seq :: "32 word"
  te_stop :: bool
  te_warned :: bool
  te_clears :: nat

definition teleop_set_target :: "pose \<Rightarrow> 'a teleop \<Rightarrow> 'a teleop" where
  "teleop_set_target x s = s\<lparr>te_mode := (case te_mode s of TmCartesian m \<Rightarrow> TmCartesian (ca_set_target x m)
                                                       | TmJoint m \<Rightarrow> TmJoint (im_set_pose_target m x))\<rparr>"

definition pose_from_packet :: "teleop_env \<Rightarrow> pose_target_packet \<Rightarrow> pose" where
  "pose_from_packet v p =
     (case pt_pos p of (x, y, z) \<Rightarrow> case pt_quat_wxyz p of (a, b, c, d) \<Rightarrow>
        \<lparr>ps_p = (tv_of64 v x, tv_of64 v y, tv_of64 v z),
         ps_R = tv_normalize v (tv_of64 v a, tv_of64 v b, tv_of64 v c, tv_of64 v d)\<rparr>)"

definition rx_pose_target :: "teleop_env \<Rightarrow> pose_target_packet \<Rightarrow> 'a teleop \<Rightarrow> 'a teleop" where
  "rx_pose_target v p s =
     (let s1 = teleop_set_target (pose_from_packet v p) s
      in s1\<lparr>te_injector := gr_set_target (te_injector s1) (gripper_command0\<lparr>gc_position := tv_of32 v (pt_gripper p)\<rparr>)\<rparr>)"

definition vec6_map :: "('b \<Rightarrow> 'c) \<Rightarrow> 'b vec6 \<Rightarrow> 'c vec6" where
  "vec6_map f v = vgen6 (\<lambda>k. f (vnth6 v k))"

definition joint_gains_of :: "teleop_env \<Rightarrow> gains_packet \<Rightarrow> impedance_params \<Rightarrow> impedance_params" where
  "joint_gains_of v p jgains = jgains\<lparr>ip_torque_limit := vconst (tv_of64 v (gk_torque_limit p)), ip_gain_ramp_s := tv_of64 v (gk_gain_ramp_s p)\<rparr>"

text \<open>A Cartesian packet starts from the default parameters.\<close>

definition cart_gains_of :: "teleop_env \<Rightarrow> gains_packet \<Rightarrow> cart_params" where
  "cart_gains_of v p = cart_params0\<lparr>cp_Kx := vec6_map (tv_of64 v) (gk_Kx p), cp_Dx := vec6_map (tv_of64 v) (gk_Dx p),
     cp_nullspace_kp := tv_of64 v (gk_nullspace_kp p), cp_nullspace_kd := tv_of64 v (gk_nullspace_kd p),
     cp_pinv_damping := tv_of64 v (gk_pinv_damping p), cp_torque_limit := tv_of64 v (gk_torque_limit p),
     cp_gain_ramp_s := tv_of64 v (gk_gain_ramp_s p), cp_nullspace_on := (gk_nullspace_on p \<noteq> 0)\<rparr>"

definition rx_set_gains :: "teleop_env \<Rightarrow> gains_packet \<Rightarrow> 'a teleop \<Rightarrow> 'a teleop" where
  "rx_set_gains v p s =
     (case te_mode s of
        TmJoint m \<Rightarrow> s\<lparr>te_warned := True, te_mode := TmJoint (im_set_gains m (joint_gains_of v p (te_jgains s)))\<rparr>
      | TmCartesian m \<Rightarrow> s\<lparr>te_mode := TmCartesian (ca_set_gains (cart_gains_of v p) m)\<rparr>)"

definition rx_command :: "teleop_env \<Rightarrow> joint_feedback option \<Rightarrow> 32 word \<Rightarrow> 'a teleop \<Rightarrow> 'a teleop" where
  "rx_command v snapshot c s =
     (if c = control_code CcClearFaults then s\<lparr>te_clears := te_clears s + 1\<rparr>
      else if c = control_code CcRehome then teleop_set_target (te_home_pose s) s
      else if c = control_code CcFreeze
        then (case snapshot of None \<Rightarrow> s | Some fb \<Rightarrow> teleop_set_target (tv_fk v (fb_q fb)) s)
      else if c = control_code CcShutdown then s\<lparr>te_stop := True\<rparr>
      else s)"

text \<open>
  What the receiving thread does with a datagram, in the steps other threads can come between. A datagram
  is cut to the 512 bytes of the receive buffer; one that is not the protocol's leaves no trace
  (\<open>continue\<close>), any other makes its sender the client. Then the packet is handled; a whole control packet
  has its command executed first, and its sequence number -- the second component -- stored afterwards.
\<close>

definition rx_receive :: "'a \<Rightarrow> 8 word list \<Rightarrow> 'a teleop \<Rightarrow> ('a teleop \<times> 8 word list) option" where
  "rx_receive src datagram s =
     (let buf = take 512 datagram; h = fst (get_header buf)
      in if length buf < 20 then None
         else if th_magic h \<noteq> kMagic \<or> th_version h \<noteq> kVersion then None
         else Some (s\<lparr>te_client := Some src\<rparr>, buf))"

definition rx_control :: "teleop_env \<Rightarrow> joint_feedback option \<Rightarrow> control_packet \<Rightarrow> 'a teleop \<Rightarrow> 'a teleop \<times> 32 word option" where
  "rx_control v snapshot p s = (rx_command v snapshot (ck_command p) s, Some (ck_control_seq p))"

definition rx_handle :: "teleop_env \<Rightarrow> joint_feedback option \<Rightarrow> 8 word list \<Rightarrow> 'a teleop \<Rightarrow> 'a teleop \<times> 32 word option" where
  "rx_handle v snapshot buf s =
     (let n = length buf; ty = th_msg_type (fst (get_header buf))
      in if ty = msg_code MtPoseTarget then (if n < 84 then s else rx_pose_target v (get_pose_target buf) s, None)
         else if ty = msg_code MtSetGains then (if n < 157 then s else rx_set_gains v (get_gains buf) s, None)
         else if ty = msg_code MtControl then (if n < 28 then (s, None) else rx_control v snapshot (get_control buf) s)
         else (s, None))"

definition rx_ack :: "32 word \<Rightarrow> 'a teleop \<Rightarrow> 'a teleop" where
  "rx_ack seq s = s\<lparr>te_last_control_seq := seq\<rparr>"

text \<open>One datagram from its arrival to the end of the loop's body.\<close>

definition rx_step :: "teleop_env \<Rightarrow> joint_feedback option \<Rightarrow> 'a \<Rightarrow> 8 word list \<Rightarrow> 'a teleop \<Rightarrow> 'a teleop" where
  "rx_step v snapshot src datagram s =
     (case rx_receive src datagram s of
        None \<Rightarrow> s
      | Some (s1, buf) \<Rightarrow> (case rx_handle v snapshot buf s1 of
            (s2, None) \<Rightarrow> s2
          | (s2, Some seq) \<Rightarrow> rx_ack seq s2))"

subsection \<open>The feedback thread\<close>

definition vec7_map :: "('b \<Rightarrow> 'c) \<Rightarrow> 'b vec7 \<Rightarrow> 'c vec7" where
  "vec7_map f v = vgen (\<lambda>k. f (vnth v k))"

definition feedback_of :: "teleop_env \<Rightarrow> 64 word \<Rightarrow> joint_feedback \<Rightarrow> 32 word \<Rightarrow> feedback_packet" where
  "feedback_of v now_ns fb seq =
     (let ee = tv_fk v (fb_q fb)
      in case ps_p ee of (x, y, z) \<Rightarrow> case ps_R ee of (a, b, c, d) \<Rightarrow>
         \<lparr>fk_h = \<lparr>th_magic = kMagic, th_version = kVersion, th_msg_type = msg_code MtFeedback, th_seq = 0, th_timestamp_ns = now_ns\<rparr>,
          fk_q = vec7_map (tv_to64 v) (fb_q fb), fk_qd = vec7_map (tv_to64 v) (fb_qd fb), fk_tau = vec7_map (tv_to64 v) (fb_tau fb),
          fk_ee_pos = (tv_to64 v x, tv_to64 v y, tv_to64 v z),
          fk_ee_quat_wxyz = (tv_to64 v a, tv_to64 v b, tv_to64 v c, tv_to64 v d),
          fk_gripper_state = tv_to32 v (gf_position (fb_gripper fb)), fk_fault = (if fb_fault fb then 1 else 0),
          fk_frame_id = fb_frame_id fb, fk_last_control_seq = seq\<rparr>)"

definition feedback_packets :: "teleop_env \<Rightarrow> 64 word \<Rightarrow> joint_feedback option \<Rightarrow> 'a option \<Rightarrow> 32 word \<Rightarrow> ('a \<times> 8 word list) list" where
  "feedback_packets v now_ns snapshot dest seq =
     (case dest of None \<Rightarrow> [] | Some d \<Rightarrow>
        (case snapshot of None \<Rightarrow> [] | Some fb \<Rightarrow> [(d, put_feedback (feedback_of v now_ns fb seq))]))"

subsection \<open>The two threads side by side\<close>

text \<open>
  Where each thread stands between the points where the other can see it: the test of \<open>g_stop\<close> at the top
  of its loop; the blocking \<open>recvfrom\<close>, the packet in the buffer, the sequence number still to store; the
  look at the client, and the client it found. \<open>tsv_sent\<close> is what was handed to \<open>sendto\<close>.
\<close>

datatype rx_at = RxTop | RxWait | RxHandle "8 word list" | RxAck "32 word" | RxEnded

datatype 'a fb_at = FbTop | FbLook | FbHave "'a option" | FbEnded

record 'a teleop_server =
  tsv_teleop :: "'a teleop"
  tsv_rx :: rx_at
  tsv_fb :: "'a fb_at"
  tsv_sent :: "('a \<times> 8 word list) list"

definition server_start :: "'a teleop \<Rightarrow> 'a teleop_server" where
  "server_start t = \<lparr>tsv_teleop = t, tsv_rx = RxTop, tsv_fb = FbTop, tsv_sent = []\<rparr>"

text \<open>A step of the receiving thread; \<open>got\<close> is what \<open>recvfrom\<close> returned, \<open>None\<close> for its timeout.\<close>

definition rx_thread :: "teleop_env \<Rightarrow> joint_feedback option \<Rightarrow> ('a \<times> 8 word list) option \<Rightarrow> 'a teleop_server \<Rightarrow> 'a teleop_server" where
  "rx_thread v snapshot got s =
     (let t = tsv_teleop s
      in case tsv_rx s of
           RxTop \<Rightarrow> s\<lparr>tsv_rx := (if te_stop t then RxEnded else RxWait)\<rparr>
         | RxWait \<Rightarrow> (case got of None \<Rightarrow> s\<lparr>tsv_rx := RxTop\<rparr> | Some (src, datagram) \<Rightarrow>
             (case rx_receive src datagram t of
                None \<Rightarrow> s\<lparr>tsv_rx := RxTop\<rparr>
              | Some (t1, buf) \<Rightarrow> s\<lparr>tsv_teleop := t1, tsv_rx := RxHandle buf\<rparr>))
         | RxHandle buf \<Rightarrow> (case rx_handle v snapshot buf t of
             (t1, ack) \<Rightarrow> s\<lparr>tsv_teleop := t1, tsv_rx := (case ack of None \<Rightarrow> RxTop | Some seq \<Rightarrow> RxAck seq)\<rparr>)
         | RxAck seq \<Rightarrow> s\<lparr>tsv_teleop := rx_ack seq t, tsv_rx := RxTop\<rparr>
         | RxEnded \<Rightarrow> s)"

definition fb_thread :: "teleop_env \<Rightarrow> 64 word \<Rightarrow> joint_feedback option \<Rightarrow> 'a teleop_server \<Rightarrow> 'a teleop_server" where
  "fb_thread v now_ns snapshot s =
     (let t = tsv_teleop s
      in case tsv_fb s of
           FbTop \<Rightarrow> s\<lparr>tsv_fb := (if te_stop t then FbEnded else FbLook)\<rparr>
         | FbLook \<Rightarrow> s\<lparr>tsv_fb := FbHave (te_client t)\<rparr>
         | FbHave dest \<Rightarrow>
             s\<lparr>tsv_fb := FbTop, tsv_sent := tsv_sent s @ feedback_packets v now_ns snapshot dest (te_last_control_seq t)\<rparr>
         | FbEnded \<Rightarrow> s)"

text \<open>
  The server's steps. In a quiet stretch no datagram arrives and nobody stops the server: the threads run,
  in any order, \<open>recvfrom\<close> only times out, and the snapshot is whatever the control loop left there.
  \<open>signal\<close> is Ctrl-C, or the control loop's return.
\<close>

inductive server_quiet :: "teleop_env \<Rightarrow> 'a teleop_server \<Rightarrow> 'a teleop_server \<Rightarrow> bool" for v where
  rx: "server_quiet v s (rx_thread v snapshot None s)"
| fb: "server_quiet v s (fb_thread v now_ns snapshot s)"

inductive server_any :: "teleop_env \<Rightarrow> 'a teleop_server \<Rightarrow> 'a teleop_server \<Rightarrow> bool" for v where
  quiet: "server_quiet v s s' \<Longrightarrow> server_any v s s'"
| datagram: "server_any v s (rx_thread v snapshot (Some x) s)"
| signal: "server_any v s (s\<lparr>tsv_teleop := tsv_teleop s\<lparr>te_stop := True\<rparr>\<rparr>)"

text \<open>What is still on its way when the server stops: the packet of a round that has begun.\<close>

definition in_round :: "'a teleop_server \<Rightarrow> bool" where
  "in_round s \<longleftrightarrow> tsv_fb s = FbLook \<or> (\<exists>d. tsv_fb s = FbHave d)"

definition sent_since :: "'a teleop_server \<Rightarrow> 'a teleop_server \<Rightarrow> ('a \<times> 8 word list) list" where
  "sent_since s s' = drop (length (tsv_sent s)) (tsv_sent s')"

lemma rx_command_frame:
  "te_client (rx_command v snapshot c s) = te_client s"
  "te_stop (rx_command v snapshot c s) \<longleftrightarrow> te_stop s \<or> c = control_code CcShutdown"
  by (auto simp: rx_command_def teleop_set_target_def control_code_def split: option.split)

lemma rx_receive_frame: "rx_receive src d s = Some (s', buf) \<Longrightarrow> s' = s\<lparr>te_client := Some src\<rparr> \<and> buf = take 512 d"
  by (auto simp: rx_receive_def Let_def split: if_splits)

lemma rx_handle_stop: "rx_handle v snapshot buf s = (s', ack) \<Longrightarrow> te_stop s \<Longrightarrow> te_stop s'"
  by (auto simp: rx_handle_def rx_pose_target_def teleop_set_target_def rx_set_gains_def rx_control_def rx_command_frame Let_def
      split: if_splits teleop_mode.splits)

lemma rx_thread_sent [simp]: "tsv_sent (rx_thread v snapshot got s) = tsv_sent s" "tsv_fb (rx_thread v snapshot got s) = tsv_fb s"
  by (simp_all add: rx_thread_def Let_def split: rx_at.split option.split prod.split)

lemma fb_thread_teleop [simp]: "tsv_teleop (fb_thread v now_ns snapshot s) = tsv_teleop s" "tsv_rx (fb_thread v now_ns snapshot s) = tsv_rx s"
  by (simp_all add: fb_thread_def Let_def split: fb_at.split)

lemma rx_thread_stop: "te_stop (tsv_teleop s) \<Longrightarrow> te_stop (tsv_teleop (rx_thread v snapshot got s))"
  by (auto simp: rx_thread_def rx_ack_def Let_def dest: rx_handle_stop rx_receive_frame split: rx_at.split option.split prod.split)

lemma server_any_stop: "server_any v s s' \<Longrightarrow> te_stop (tsv_teleop s) \<Longrightarrow> te_stop (tsv_teleop s')"
  by (induction rule: server_any.induct) (auto elim: server_quiet.cases simp: rx_thread_stop)

subsection \<open>Acknowledgements\<close>

text \<open>A server whose feedback thread has ended was stopped.\<close>

lemma ended_stopped: "(server_any v)\<^sup>*\<^sup>* (server_start t) s \<Longrightarrow> tsv_fb s = FbEnded \<longrightarrow> te_stop (tsv_teleop s)"
proof (induction rule: rtranclp_induct)
  case (step s s')
  show ?case
  proof (cases "te_stop (tsv_teleop s)")
    case True
    then show ?thesis using server_any_stop [OF step(2)] by simp
  next
    case False
    then show ?thesis using step(2,3)
      by (auto elim!: server_any.cases server_quiet.cases simp: fb_thread_def Let_def split: fb_at.splits)
  qed
qed (simp add: server_start_def)

text \<open>Once stopped, the server sends no more than the packet of the round it is in.\<close>

lemma stopped_step:
  assumes "server_any v s s'" and "te_stop (tsv_teleop s)"
  shows "length (tsv_sent s') + of_bool (in_round s') \<le> length (tsv_sent s) + of_bool (in_round s)"
  using assms
  by (auto elim!: server_any.cases server_quiet.cases simp: fb_thread_def in_round_def feedback_packets_def Let_def
      split: fb_at.splits option.splits)

lemma stopped_run:
  assumes "(server_any v)\<^sup>*\<^sup>* s s'" and "te_stop (tsv_teleop s)"
  shows "te_stop (tsv_teleop s') \<and> length (tsv_sent s') + of_bool (in_round s') \<le> length (tsv_sent s) + of_bool (in_round s)"
  using assms
proof (induction rule: rtranclp_induct)
  case (step s1 s2)
  then show ?case using server_any_stop [OF step(2)] stopped_step [OF step(2)] by fastforce
qed simp

lemma take_front: "length xs \<le> n \<Longrightarrow> take n (xs @ ys) = xs @ take (n - length xs) ys"
  by simp

lemma header_front:
  "fst (get_header (put_control c @ bs)) = ck_h c" "fst (get_header (put_gains g @ bs)) = gk_h g"
  by (simp_all add: put_control_def put_gains_def)

lemma rx_control_packet:
  assumes "valid_header (ck_h c) MtControl"
  shows "rx_receive src (put_control c @ bs) s = Some (s\<lparr>te_client := Some src\<rparr>, take 512 (put_control c @ bs))"
    and "rx_handle v snapshot (take 512 (put_control c @ bs)) s = rx_control v snapshot c s"
  using assms
  by (simp_all add: rx_receive_def rx_handle_def take_front length_put_packet header_front get_put_packet valid_header_def
      msg_code_def Let_def)

text \<open>
  The server between the arrival of a control packet and the next arrival or signal: \<open>buf\<close> waits in the
  receiving thread, or its number is still to store, or it is stored.
\<close>

definition acked :: "32 word \<Rightarrow> 'a teleop_server \<Rightarrow> bool" where
  "acked seq s \<longleftrightarrow> (tsv_rx s = RxTop \<or> tsv_rx s = RxWait) \<and> te_last_control_seq (tsv_teleop s) = seq"

definition acking :: "'a \<Rightarrow> 8 word list \<Rightarrow> 32 word \<Rightarrow> 'a teleop_server \<Rightarrow> bool" where
  "acking src buf seq s \<longleftrightarrow> te_client (tsv_teleop s) = Some src \<and> \<not> te_stop (tsv_teleop s) \<and> tsv_fb s \<noteq> FbEnded \<and>
     (tsv_rx s = RxHandle buf \<or> tsv_rx s = RxAck seq \<or> acked seq s)"

lemma acking_step:
  fixes s :: "'a teleop_server"
  assumes "server_quiet v s s'" and "acking src buf seq s"
    and h: "\<And>snapshot (t :: 'a teleop). \<exists>t'. rx_handle v snapshot buf t = (t', Some seq) \<and> te_client t' = te_client t \<and> te_stop t' = te_stop t"
  shows "acking src buf seq s' \<and> (acked seq s \<longrightarrow> acked seq s')"
  using assms(1)
proof cases
  case (rx snapshot)
  then show ?thesis using assms(2) h [of snapshot "tsv_teleop s"]
    by (auto simp: acking_def acked_def rx_thread_def rx_ack_def Let_def)
next
  case (fb now_ns snapshot)
  then show ?thesis using assms(2)
    by (auto simp: acking_def acked_def fb_thread_def Let_def split: fb_at.splits)
qed

text \<open>A round begun after the number was stored, and the packets of such rounds.\<close>

definition good_round :: "'a \<Rightarrow> 'a teleop_server \<Rightarrow> bool" where
  "good_round src s \<longleftrightarrow> (\<forall>d. tsv_fb s = FbHave d \<longrightarrow> d = Some src)"

definition acks :: "'a \<Rightarrow> 32 word \<Rightarrow> ('a \<times> 8 word list) list \<Rightarrow> bool" where
  "acks src seq ps \<longleftrightarrow> (\<forall>(d, p) \<in> set ps. d = src \<and> fk_last_control_seq (get_feedback p) = seq)"

lemma feedback_reads_back:
  "get_feedback (put_feedback (feedback_of v now_ns fb seq)) = feedback_of v now_ns fb seq"
  using get_put_packet(4) [of _ "[]"] by simp

lemma feedback_of_seq [simp]: "fk_last_control_seq (feedback_of v now_ns fb seq) = seq"
  by (simp add: feedback_of_def Let_def split: prod.split)

lemma acks_packets: "acks src seq (feedback_packets v now_ns snapshot (Some src) seq)"
  by (simp add: acks_def feedback_packets_def split: option.split) (auto simp: feedback_reads_back)

lemma acks_append [simp]: "acks src seq (xs @ ys) \<longleftrightarrow> acks src seq xs \<and> acks src seq ys" "acks src seq []"
  by (auto simp: acks_def)

lemma good_round_step:
  assumes "server_quiet v s s'" and "acking src buf seq s" "acked seq s" "good_round src s"
  shows "good_round src s' \<and> (\<exists>new. tsv_sent s' = tsv_sent s @ new \<and> acks src seq new)"
  using assms(1)
proof cases
  case (rx snapshot)
  then show ?thesis using assms(4) by (simp add: good_round_def)
next
  case (fb now_ns snapshot)
  then show ?thesis using assms(2-) acks_packets [of src seq v now_ns snapshot]
    by (cases "tsv_fb s") (auto simp: fb_thread_def good_round_def acking_def acked_def Let_def)
qed

lemma acking_run:
  fixes s :: "'a teleop_server"
  assumes "(server_quiet v)\<^sup>*\<^sup>* s s'" and "acking src buf seq s"
    and h: "\<And>snapshot (t :: 'a teleop). \<exists>t'. rx_handle v snapshot buf t = (t', Some seq) \<and> te_client t' = te_client t \<and> te_stop t' = te_stop t"
  shows "acking src buf seq s' \<and>
    (acked seq s \<and> good_round src s \<longrightarrow> acked seq s' \<and> good_round src s' \<and> (\<exists>new. tsv_sent s' = tsv_sent s @ new \<and> acks src seq new))"
  using assms(1)
proof (induction rule: rtranclp_induct)
  case base
  then show ?case using assms(2) by simp
next
  case (step s1 s2)
  then have a: "acking src buf seq s1" by blast
  note a2 = acking_step [OF step(2) a h]
  show ?case
  proof (intro conjI impI)
    assume g: "acked seq s \<and> good_round src s"
    then obtain new where n: "tsv_sent s1 = tsv_sent s @ new" "acks src seq new" "acked seq s1" "good_round src s1"
      using step(3) by blast
    then obtain new2 where "tsv_sent s2 = tsv_sent s1 @ new2" "acks src seq new2" "good_round src s2"
      using good_round_step [OF step(2) a] by blast
    with n show "acked seq s2" "good_round src s2" "\<exists>new. tsv_sent s2 = tsv_sent s @ new \<and> acks src seq new"
      using a2 by auto
  qed (use a2 in blast)
qed

text \<open>Whatever the threads are in the middle of, they can go on to acknowledge.\<close>

lemma quiet_rx: "(server_quiet v)\<^sup>*\<^sup>* s (rx_thread v snapshot None s)" by (blast intro: server_quiet.rx)
lemma quiet_fb: "(server_quiet v)\<^sup>*\<^sup>* s (fb_thread v now_ns snapshot s)" by (blast intro: server_quiet.fb)

lemma rx_finishes:
  fixes s :: "'a teleop_server"
  assumes "acking src buf seq s"
    and h: "\<And>snapshot (t :: 'a teleop). \<exists>t'. rx_handle v snapshot buf t = (t', Some seq) \<and> te_client t' = te_client t \<and> te_stop t' = te_stop t"
  shows "\<exists>s1. (server_quiet v)\<^sup>*\<^sup>* s s1 \<and> acked seq s1 \<and> tsv_sent s1 = tsv_sent s"
proof -
  let ?r = "rx_thread v None None"
  consider "acked seq s" | "tsv_rx s = RxAck seq" | "tsv_rx s = RxHandle buf" using assms(1) by (auto simp: acking_def)
  then show ?thesis
  proof cases
    case 1
    then show ?thesis by blast
  next
    case 2
    then have "acked seq (?r s)" by (simp add: rx_thread_def acked_def rx_ack_def)
    then show ?thesis using quiet_rx [of v s None] by (intro exI [of _ "?r s"]) simp
  next
    case 3
    obtain t' where "rx_handle v None buf (tsv_teleop s) = (t', Some seq)" using h by blast
    then have "acked seq (?r (?r s))" using 3 by (simp add: rx_thread_def acked_def rx_ack_def)
    then show ?thesis
      using rtranclp_trans [OF quiet_rx [of v s None] quiet_rx [of v "?r s" None]] by (intro exI [of _ "?r (?r s)"]) simp
  qed
qed

lemma fb_finishes:
  assumes "tsv_fb s \<noteq> FbEnded" and "\<not> te_stop (tsv_teleop s)"
  shows "\<exists>s1. (server_quiet v)\<^sup>*\<^sup>* s s1 \<and> tsv_fb s1 = FbTop"
proof -
  let ?f = "fb_thread v 0 None"
  note two = rtranclp_trans [OF quiet_fb [of v s 0 None] quiet_fb [of v "?f s" 0 None]]
  show ?thesis
  proof (cases "tsv_fb s")
    case FbTop
    then show ?thesis by blast
  next
    case FbLook
    then have "tsv_fb (?f (?f s)) = FbTop" by (simp add: fb_thread_def)
    then show ?thesis using two by blast
  next
    case (FbHave d)
    then have "tsv_fb (?f s) = FbTop" by (simp add: fb_thread_def)
    then show ?thesis using quiet_fb by blast
  qed (use assms in simp)
qed

lemma round_acks:
  assumes "acking src buf seq s" "acked seq s" "tsv_fb s = FbTop"
  shows "\<exists>s1. (server_quiet v)\<^sup>*\<^sup>* s s1 \<and> tsv_sent s1 = tsv_sent s @ [(src, put_feedback (feedback_of v now_ns fb seq))]"
proof -
  let ?f = "fb_thread v now_ns (Some fb)"
  have "(server_quiet v)\<^sup>*\<^sup>* s (?f (?f (?f s)))"
    by (rule rtranclp_trans [OF quiet_fb rtranclp_trans [OF quiet_fb quiet_fb]])
  moreover have "tsv_sent (?f (?f (?f s))) = tsv_sent s @ [(src, put_feedback (feedback_of v now_ns fb seq))]"
    using assms by (simp add: fb_thread_def acking_def acked_def feedback_packets_def)
  ultimately show ?thesis by blast
qed

lemma acking_ends:
  fixes s :: "'a teleop_server"
  assumes "acking src buf seq s"
    and h: "\<And>snapshot (t :: 'a teleop). \<exists>t'. rx_handle v snapshot buf t = (t', Some seq) \<and> te_client t' = te_client t \<and> te_stop t' = te_stop t"
  shows "\<exists>s3 ps. (server_quiet v)\<^sup>*\<^sup>* s s3 \<and> tsv_sent s3 = ps @ [(src, put_feedback (feedback_of v now_ns fb seq))]"
proof -
  obtain s1 where s1: "(server_quiet v)\<^sup>*\<^sup>* s s1" "acked seq s1" using rx_finishes [OF assms] by blast
  have a1: "acking src buf seq s1" using acking_run [OF s1(1) assms] by blast
  obtain s2 where s2: "(server_quiet v)\<^sup>*\<^sup>* s1 s2" "tsv_fb s2 = FbTop" using fb_finishes a1 by (auto simp: acking_def)
  have a2: "acking src buf seq s2" using acking_run [OF s2(1) a1 h] by blast
  have "acked seq s2" using s2(1)
    by (induction rule: rtranclp_induct) (use s1(2) acking_step [OF _ _ h] acking_run [OF _ a1 h] in blast)+
  with a2 s2 obtain s3 where "(server_quiet v)\<^sup>*\<^sup>* s2 s3"
    "tsv_sent s3 = tsv_sent s2 @ [(src, put_feedback (feedback_of v now_ns fb seq))]"
    using round_acks [OF a2 _ s2(2), of v now_ns fb] by blast
  with s1(1) s2(1) show ?thesis by (meson rtranclp_trans)
qed

lemma stopped_sends:
  assumes "(server_any v)\<^sup>*\<^sup>* s s'" and "te_stop (tsv_teleop s)"
  shows "length (sent_since s s') \<le> (if in_round s then 1 else 0)"
  using stopped_run [OF assms] by (cases "in_round s"; cases "in_round s'") (simp_all add: sent_since_def)

text \<open>A packet whose handling stops the server stays in the buffer or has stopped it.\<close>

lemma stop_waits:
  fixes s :: "'a teleop_server"
  assumes "(server_quiet v)\<^sup>*\<^sup>* s s'" and "tsv_rx s = RxHandle buf"
    and h: "\<And>snapshot (t :: 'a teleop). te_stop (fst (rx_handle v snapshot buf t))"
  shows "tsv_rx s' = RxHandle buf \<or> te_stop (tsv_teleop s')"
  using assms(1)
proof (induction rule: rtranclp_induct)
  case (step s1 s2)
  show ?case
  proof (cases "te_stop (tsv_teleop s1)")
    case True
    then show ?thesis using server_any_stop [OF server_any.quiet [OF step(2)]] by blast
  next
    case False
    then have "tsv_rx s1 = RxHandle buf" using step(3) by blast
    with step(2) show ?thesis using h [of _ "tsv_teleop s1"]
      by cases (auto simp: rx_thread_def Let_def case_prod_beta)
  qed
qed (simp add: assms(2))

text \<open>
  Claim C25. What a supervisor that resends a control packet until it is acknowledged can count on. A whole
  control packet reaches a running server, and from there its two threads run, in any order, until the
  next datagram or signal. (1) Any command but shutdown, known or not, leaves the server running; in
  every such run, once the receiving thread is back at its loop every packet that a round of feedback
  begun since then sends goes to the packet's sender and reads back as carrying its number; and from
  every point of the run the threads can go on to send one. (2) Shutdown stops the server when it is
  handled, before its number is stored: from then on, whatever arrives, at most the packet of the round
  already begun is sent, and none if the feedback thread stood outside a round -- such a shutdown is
  never acknowledged, however often it is resent.
\<close>

theorem control_acknowledged:
  fixes s :: "'a teleop_server"
  assumes c: "valid_header (ck_h c) MtControl"
    and reach: "(server_any v)\<^sup>*\<^sup>* (server_start t) s" and wait: "tsv_rx s = RxWait" and running: "\<not> te_stop (tsv_teleop s)"
    and s1: "s1 = rx_thread v snapshot (Some (src, put_control c @ bs)) s" and run: "(server_quiet v)\<^sup>*\<^sup>* s1 s2"
  shows "if ck_command c \<noteq> control_code CcShutdown
    then \<not> te_stop (tsv_teleop s2) \<and>
      (tsv_rx s2 \<in> {RxTop, RxWait} \<and> tsv_fb s2 = FbTop \<longrightarrow>
         (\<forall>s3. (server_quiet v)\<^sup>*\<^sup>* s2 s3 \<longrightarrow> (\<forall>(d, p) \<in> set (sent_since s2 s3).
            d = src \<and> fk_last_control_seq (get_feedback p) = ck_control_seq c))) \<and>
      (\<exists>s3 ps p. (server_quiet v)\<^sup>*\<^sup>* s2 s3 \<and> tsv_sent s3 = ps @ [(src, p)] \<and>
         get_feedback p = feedback_of v now_ns fb (ck_control_seq c))
    else (\<forall>buf. tsv_rx s2 \<noteq> RxHandle buf) \<longrightarrow>
      te_stop (tsv_teleop s2) \<and>
      (\<forall>s3. (server_any v)\<^sup>*\<^sup>* s2 s3 \<longrightarrow> length (sent_since s2 s3) \<le> (if in_round s2 then 1 else 0))"
proof (cases "ck_command c = control_code CcShutdown")
  case False
  let ?buf = "take 512 (put_control c @ bs)" and ?seq = "ck_control_seq c"
  have h: "\<exists>t'. rx_handle v snap ?buf t = (t', Some ?seq) \<and> te_client t' = te_client t \<and> te_stop t' = te_stop t"
    for snap and t :: "'a teleop"
    using False by (simp add: rx_control_packet(2) [OF c] rx_control_def rx_command_frame del: take_append)
  have "tsv_fb s \<noteq> FbEnded" using ended_stopped [OF reach] running by blast
  then have a1: "acking src ?buf ?seq s1"
    using wait running by (simp add: s1 acking_def rx_thread_def rx_control_packet(1) [OF c])
  note a2 = conjunct1 [OF acking_run [OF run a1 h]]
  have "\<forall>(d, p) \<in> set (sent_since s2 s3). d = src \<and> fk_last_control_seq (get_feedback p) = ?seq"
    if "tsv_rx s2 \<in> {RxTop, RxWait}" "tsv_fb s2 = FbTop" "(server_quiet v)\<^sup>*\<^sup>* s2 s3" for s3
  proof -
    have "acked ?seq s2" "good_round src s2" using a2 that(1,2) by (auto simp: acking_def acked_def good_round_def)
    then show ?thesis using acking_run [OF that(3) a2 h] by (auto simp: sent_since_def acks_def)
  qed
  moreover have "\<exists>s3 ps p. (server_quiet v)\<^sup>*\<^sup>* s2 s3 \<and> tsv_sent s3 = ps @ [(src, p)] \<and> get_feedback p = feedback_of v now_ns fb ?seq"
    using acking_ends [OF a2 h] feedback_reads_back by blast
  ultimately show ?thesis using False a2 by (simp add: acking_def)
next
  case True
  have stop: "te_stop (tsv_teleop s2)" if "\<forall>buf. tsv_rx s2 \<noteq> RxHandle buf"
  proof -
    have "te_stop (fst (rx_handle v snap (take 512 (put_control c @ bs)) t))" for snap and t :: "'a teleop"
      using True by (simp add: rx_control_packet(2) [OF c] rx_control_def rx_command_frame del: take_append)
    moreover have "tsv_rx s1 = RxHandle (take 512 (put_control c @ bs))"
      using wait by (simp add: s1 rx_thread_def rx_control_packet(1) [OF c] del: take_append)
    ultimately show ?thesis using stop_waits [OF run] that by blast
  qed
  from True have n: "\<not> ck_command c \<noteq> control_code CcShutdown" by simp
  show ?thesis
    unfolding if_not_P [OF n]
  proof (intro impI conjI allI)
    assume "\<forall>buf. tsv_rx s2 \<noteq> RxHandle buf"
    then show st: "te_stop (tsv_teleop s2)" by (rule stop)
    show "length (sent_since s2 s3) \<le> (if in_round s2 then 1 else 0)" if "(server_any v)\<^sup>*\<^sup>* s2 s3" for s3
      using that st by (rule stopped_sends)
  qed
qed

text \<open>
  The server reads and writes the documented formats. \<open>documented_receive\<close> is the receiving thread
  written from the document alone: it unpacks the header and the body of a datagram with their format
  strings and takes each value by its place in the table of fields. The version is the code's: the
  document still names version 1, which had the same layout.
\<close>

definition documented_receive :: "teleop_env \<Rightarrow> joint_feedback option \<Rightarrow> 'a \<Rightarrow> 8 word list \<Rightarrow> 'a teleop \<Rightarrow> 'a teleop" where
  "documented_receive v snapshot src datagram s =
     (let buf = take 512 datagram; num = (\<lambda>fs k. tv_of64 v (fs ! k)); body = (\<lambda>fmt. unpack_from fmt 20 buf)
      in case unpack_from ''<IHHIQ'' 0 buf of None \<Rightarrow> s | Some hs \<Rightarrow>
         if hs ! 0 \<noteq> 0x4B544C50 \<or> hs ! 1 \<noteq> 2 then s
         else let s1 = s\<lparr>te_client := Some src\<rparr> in
           if hs ! 2 = 1 then (case body ''<3d4dfI'' of None \<Rightarrow> s1 | Some fs \<Rightarrow>
             let s2 = teleop_set_target \<lparr>ps_p = (num fs 0, num fs 1, num fs 2),
                        ps_R = tv_normalize v (num fs 3, num fs 4, num fs 5, num fs 6)\<rparr> s1
             in s2\<lparr>te_injector := gr_set_target (te_injector s2) (gripper_command0\<lparr>gc_position := tv_of32 v (ucast (fs ! 7))\<rparr>)\<rparr>)
           else if hs ! 2 = 2 then (case body ''<6d6d5dB'' of None \<Rightarrow> s1 | Some fs \<Rightarrow>
             (case te_mode s1 of
                TmJoint m \<Rightarrow> s1\<lparr>te_warned := True, te_mode := TmJoint (im_set_gains m
                  ((te_jgains s1)\<lparr>ip_torque_limit := vconst (num fs 15), ip_gain_ramp_s := num fs 16\<rparr>))\<rparr>
              | TmCartesian m \<Rightarrow> s1\<lparr>te_mode := TmCartesian (ca_set_gains (cart_params0\<lparr>
                  cp_Kx := V6 (num fs 0) (num fs 1) (num fs 2) (num fs 3) (num fs 4) (num fs 5),
                  cp_Dx := V6 (num fs 6) (num fs 7) (num fs 8) (num fs 9) (num fs 10) (num fs 11),
                  cp_nullspace_kp := num fs 12, cp_nullspace_kd := num fs 13, cp_pinv_damping := num fs 14,
                  cp_torque_limit := num fs 15, cp_gain_ramp_s := num fs 16, cp_nullspace_on := (fs ! 17 \<noteq> 0)\<rparr>) m)\<rparr>))
           else if hs ! 2 = 3 then (case body ''<II'' of None \<Rightarrow> s1 | Some fs \<Rightarrow>
             rx_ack (ucast (fs ! 1)) (rx_command v snapshot (ucast (fs ! 0)) s1))
           else s1)"

lemma ucast_inject:
  "LENGTH('a::len) \<le> LENGTH('b::len) \<Longrightarrow> (ucast (x :: 'a word) :: 'b word) = ucast y \<longleftrightarrow> x = y"
  by (metis is_up ucast_up_ucast_id source_size_def target_size_def word_size)

lemma ucast_numeral:
  "(ucast (x :: 32 word) :: 64 word) = 0x4B544C50 \<longleftrightarrow> x = 0x4B544C50" "(ucast (y :: 16 word) :: 64 word) = 1 \<longleftrightarrow> y = 1"
  "(ucast y :: 64 word) = 2 \<longleftrightarrow> y = 2" "(ucast y :: 64 word) = 3 \<longleftrightarrow> y = 3" "(ucast (z :: 8 word) :: 64 word) = 0 \<longleftrightarrow> z = 0"
  using ucast_inject [where 'b = 64, of x "0x4B544C50"] ucast_inject [where 'b = 64, of y 1] ucast_inject [where 'b = 64, of y 2]
    ucast_inject [where 'b = 64, of y 3] ucast_inject [where 'b = 64, of z 0]
  by simp_all

lemma ucast_back [simp]: "(ucast (ucast (x :: 32 word) :: 64 word) :: 32 word) = x"
  by (rule ucast_up_ucast_id) (simp add: is_up)

lemma documented_pose:
  "rx_pose_target v p s =
     (let fs = pose_fields p; num = (\<lambda>k. tv_of64 v (fs ! k));
          s2 = teleop_set_target \<lparr>ps_p = (num 0, num 1, num 2), ps_R = tv_normalize v (num 3, num 4, num 5, num 6)\<rparr> s
      in s2\<lparr>te_injector := gr_set_target (te_injector s2) (gripper_command0\<lparr>gc_position := tv_of32 v (ucast (fs ! 7))\<rparr>)\<rparr>)"
  by (simp add: rx_pose_target_def pose_from_packet_def pose_fields_def list3_def list4_def Let_def split: prod.split)

lemma gains_fields_nth:
  "gains_fields p = [vnth6 (gk_Kx p) 0, vnth6 (gk_Kx p) 1, vnth6 (gk_Kx p) 2, vnth6 (gk_Kx p) 3, vnth6 (gk_Kx p) 4, vnth6 (gk_Kx p) 5,
     vnth6 (gk_Dx p) 0, vnth6 (gk_Dx p) 1, vnth6 (gk_Dx p) 2, vnth6 (gk_Dx p) 3, vnth6 (gk_Dx p) 4, vnth6 (gk_Dx p) 5,
     gk_nullspace_kp p, gk_nullspace_kd p, gk_pinv_damping p, gk_torque_limit p, gk_gain_ramp_s p, ucast (gk_nullspace_on p)]"
  by (cases "gk_Kx p"; cases "gk_Dx p") (simp add: gains_fields_def list6_def vnth6_def)

lemma documented_gains:
  "rx_set_gains v p s =
     (let fs = gains_fields p; num = (\<lambda>k. tv_of64 v (fs ! k)) in case te_mode s of
        TmJoint m \<Rightarrow> s\<lparr>te_warned := True, te_mode := TmJoint (im_set_gains m
          ((te_jgains s)\<lparr>ip_torque_limit := vconst (num 15), ip_gain_ramp_s := num 16\<rparr>))\<rparr>
      | TmCartesian m \<Rightarrow> s\<lparr>te_mode := TmCartesian (ca_set_gains (cart_params0\<lparr>
          cp_Kx := V6 (num 0) (num 1) (num 2) (num 3) (num 4) (num 5), cp_Dx := V6 (num 6) (num 7) (num 8) (num 9) (num 10) (num 11),
          cp_nullspace_kp := num 12, cp_nullspace_kd := num 13, cp_pinv_damping := num 14,
          cp_torque_limit := num 15, cp_gain_ramp_s := num 16, cp_nullspace_on := (fs ! 17 \<noteq> 0)\<rparr>) m)\<rparr>)"
  by (simp add: rx_set_gains_def joint_gains_of_def cart_gains_of_def vec6_map_def vgen6_def gains_fields_nth ucast_numeral Let_def
      split: teleop_mode.split)

lemma documented_control:
  "control_fields p ! 0 = ucast (ck_command p)" "control_fields p ! Suc 0 = ucast (ck_control_seq p)"
  by (simp_all add: control_fields_def)

lemma list7_map: "list7 (vec7_map f v) = map (\<lambda>k. f (vnth v k)) [0..<7]"
proof -
  have "[0..<7] = [0, 1, 2, 3, 4, 5, 6]" by code_simp
  then show ?thesis by (simp add: list7_def vec7_map_def vgen_def)
qed

text \<open>
  Claim C23. The wire protocol is the documented one. On every datagram, of whatever length and content, the
  receiving thread does exactly what the documented formats say: it ignores or accepts what Python's
  unpacking would, and uses each field for what the table of fields names at that place. And a packet of
  the feedback thread unpacks, with the documented formats, to the documented fields in their order, and
  is as long as the document says.
\<close>

theorem wire_format_documented:
  "rx_step v snapshot src datagram s = documented_receive v snapshot src datagram s \<and>
   (\<forall>(d, p) \<in> set (feedback_packets v now_ns snapshot dest seq). \<exists>fb. snapshot = Some fb \<and> dest = Some d \<and> length p = 261 \<and>
      unpack_from ''<IHHIQ'' 0 p = Some [0x4B544C50, 2, 4, 0, now_ns] \<and>
      (let ee = tv_fk v (fb_q fb); num = tv_to64 v in case ps_p ee of (x, y, z) \<Rightarrow> case ps_R ee of (qw, qx, qy, qz) \<Rightarrow>
         unpack_from ''<7d7d7d3d4dfBQI'' 20 p = Some
           (map (\<lambda>k. num (vnth (fb_q fb) k)) [0..<7] @ map (\<lambda>k. num (vnth (fb_qd fb) k)) [0..<7] @
            map (\<lambda>k. num (vnth (fb_tau fb) k)) [0..<7] @ [num x, num y, num z] @ [num qw, num qx, num qy, num qz] @
            [ucast (tv_to32 v (gf_position (fb_gripper fb))), if fb_fault fb then 1 else 0, fb_frame_id fb, ucast seq])))"
proof (intro conjI)
  show "rx_step v snapshot src datagram s = documented_receive v snapshot src datagram s"
  proof (cases "20 \<le> length datagram")
    case True
    obtain buf where buf: "take 512 datagram = buf" "20 \<le> length buf" using True by simp
    then show ?thesis
      by (simp add: rx_step_def rx_receive_def rx_handle_def documented_receive_def unpack_header unpack_pose_target unpack_gains
          unpack_control header_fields_def ucast_numeral kMagic_def kVersion_def msg_code_def Let_def documented_pose documented_gains
          documented_control rx_control_def)
  next
    case False
    then show ?thesis by (simp add: rx_step_def rx_receive_def documented_receive_def unpack_header Let_def)
  qed
next
  let ?fields = "\<lambda>fb p. let ee = tv_fk v (fb_q fb); num = tv_to64 v in case ps_p ee of (x, y, z) \<Rightarrow> case ps_R ee of (qw, qx, qy, qz) \<Rightarrow>
         unpack_from ''<7d7d7d3d4dfBQI'' 20 p = Some
           (map (\<lambda>k. num (vnth (fb_q fb) k)) [0..<7] @ map (\<lambda>k. num (vnth (fb_qd fb) k)) [0..<7] @
            map (\<lambda>k. num (vnth (fb_tau fb) k)) [0..<7] @ [num x, num y, num z] @ [num qw, num qx, num qy, num qz] @
            [ucast (tv_to32 v (gf_position (fb_gripper fb))), if fb_fault fb then 1 else 0, fb_frame_id fb, ucast seq])"
  have "\<exists>fb. snapshot = Some fb \<and> dest = Some d \<and> length p = 261 \<and>
      unpack_from ''<IHHIQ'' 0 p = Some [0x4B544C50, 2, 4, 0, now_ns] \<and> ?fields fb p"
    if dp: "(d, p) \<in> set (feedback_packets v now_ns snapshot dest seq)" for d p
  proof -
    obtain fb where fb: "snapshot = Some fb" "dest = Some d" "p = put_feedback (feedback_of v now_ns fb seq)"
      using dp by (auto simp: feedback_packets_def split: option.splits)
    obtain x y z where e: "ps_p (tv_fk v (fb_q fb)) = (x, y, z)" by (rule prod_cases3)
    obtain qw qx qy qz where f: "ps_R (tv_fk v (fb_q fb)) = (qw, qx, qy, qz)" by (rule prod_cases4)
    have "unpack_from ''<IHHIQ'' 0 p = Some [0x4B544C50, 2, 4, 0, now_ns]"
      by (simp add: fb(3) unpack_put_feedback header_fields_def feedback_of_def e f kMagic_def kVersion_def msg_code_def Let_def)
    moreover have "?fields fb p"
      by (simp add: fb(3) unpack_put_feedback feedback_fields_def feedback_of_def e f list7_map list3_def list4_def Let_def)
    ultimately show ?thesis using fb by (simp add: length_put_packet)
  qed
  then show "\<forall>(d, p) \<in> set (feedback_packets v now_ns snapshot dest seq). \<exists>fb. snapshot = Some fb \<and> dest = Some d \<and> length p = 261 \<and>
      unpack_from ''<IHHIQ'' 0 p = Some [0x4B544C50, 2, 4, 0, now_ns] \<and> ?fields fb p" by blast
qed

text \<open>
  A datagram that is too short for a header, or whose magic number or version is another one, changes
  nothing: no target, no gains, no client, no acknowledgement.
\<close>

lemma foreign_datagram_ignored:
  "length datagram < 20 \<or> th_magic (fst (get_header (take 512 datagram))) \<noteq> kMagic \<or>
     th_version (fst (get_header (take 512 datagram))) \<noteq> kVersion
   \<Longrightarrow> rx_step v snapshot src datagram s = s"
  by (auto simp: rx_step_def rx_receive_def Let_def)

text \<open>
  Claim C30. A gains packet takes the operator's options away. In Cartesian mode the packet's gains are laid
  over the default parameters, not over the server's: whatever manipulability gain, fixed rest
  posture and step the server was started with are replaced by the defaults, and the climb is off.
\<close>

theorem gains_packet_resets_options:
  assumes "valid_header (gk_h g) MtSetGains" and "te_mode s = TmCartesian m"
  shows "\<exists>m'. te_mode (rx_step v snapshot src (put_gains g @ bs) s) = TmCartesian m' \<and>
    \<not> cp_manip_on (ca_params m') \<and> cp_manip_gain (ca_params m') = Fin 0 \<and> \<not> cp_use_fixed_rest (ca_params m') \<and>
    cp_nullspace_q_rest (ca_params m') = cp_nullspace_q_rest cart_params0 \<and>
    cp_torque_limit (ca_params m') = tv_of64 v (gk_torque_limit g)"
proof -
  have "rx_step v snapshot src (put_gains g @ bs) s = rx_set_gains v g (s\<lparr>te_client := Some src\<rparr>)"
    using assms(1)
    by (simp add: rx_step_def rx_receive_def rx_handle_def take_front length_put_packet header_front get_put_packet valid_header_def msg_code_def Let_def)
  then show ?thesis
    using assms(2) by (simp add: rx_set_gains_def ca_set_gains_def ca_params_def cart_gains_of_def cart_params0_def)
qed

subsection \<open>Applied\<close>

definition demo_tp_header :: "msg_type \<Rightarrow> tp_header" where
  "demo_tp_header t = \<lparr>th_magic = kMagic, th_version = kVersion, th_msg_type = msg_code t, th_seq = 7, th_timestamp_ns = 0\<rparr>"

definition demo_teleop_env :: teleop_env where
  "demo_teleop_env = \<lparr>tv_of64 = (\<lambda>w. Fin (of_int (uint w))), tv_to64 = (\<lambda>x. 0), tv_of32 = (\<lambda>w. Fin (of_int (uint w))),
     tv_to32 = (\<lambda>x. 0), tv_normalize = (\<lambda>q. q), tv_fk = (\<lambda>q. pose0)\<rparr>"

definition demo_teleop :: "nat teleop" where
  "demo_teleop = \<lparr>te_mode = TmCartesian (ca_init zero_dynamics (cart_params0\<lparr>cp_manip_on := True, cp_manip_gain := Fin 5\<rparr>)),
     te_jgains = impedance_params0, te_home_pose = pose0, te_injector = gr_init, te_client = None, te_last_control_seq = 0,
     te_stop = False, te_warned = False, te_clears = 0\<rparr>"

definition demo_control :: control_packet where
  "demo_control = \<lparr>ck_h = demo_tp_header MtControl, ck_command = 99, ck_control_seq = 5\<rparr>"

definition demo_gains_packet :: gains_packet where
  "demo_gains_packet = \<lparr>gk_h = demo_tp_header MtSetGains, gk_Kx = vconst6 0, gk_Dx = vconst6 0, gk_nullspace_kp = 0, gk_nullspace_kd = 0,
     gk_pinv_damping = 0, gk_torque_limit = 39, gk_gain_ramp_s = 1, gk_nullspace_on = 1\<rparr>"

theorem wire_format_documented_witness:
  "\<exists>p. feedback_packets demo_teleop_env 3 (Some joint_feedback0) (Some (8 :: nat)) 5 = [(8, p)] \<and> length p = 261 \<and>
     unpack_from ''<IHHIQ'' 0 p = Some [0x4B544C50, 2, 4, 0, 3]"
proof -
  obtain p where p: "feedback_packets demo_teleop_env 3 (Some joint_feedback0) (Some (8 :: nat)) 5 = [(8, p)]"
    by (simp add: feedback_packets_def)
  then have "(8, p) \<in> set (feedback_packets demo_teleop_env 3 (Some joint_feedback0) (Some (8 :: nat)) 5)" by simp
  from bspec [OF conjunct2 [OF wire_format_documented [of _ _ 8 "[]" demo_teleop]] this]
  show ?thesis using p by blast
qed

theorem control_acknowledged_witness:
  "\<exists>s3 ps p. (server_quiet demo_teleop_env)\<^sup>*\<^sup>* (rx_thread demo_teleop_env None (Some (8, put_control demo_control))
       (rx_thread demo_teleop_env None None (server_start demo_teleop))) s3 \<and>
     tsv_sent s3 = ps @ [(8, p)] \<and> fk_last_control_seq (get_feedback p) = 5"
proof -
  have "valid_header (ck_h demo_control) MtControl" by (simp add: demo_control_def demo_tp_header_def valid_header_def)
  moreover let ?s = "rx_thread demo_teleop_env None None (server_start demo_teleop)"
  have "(server_any demo_teleop_env)\<^sup>*\<^sup>* (server_start demo_teleop) ?s" by (blast intro: server_any.quiet server_quiet.rx)
  moreover have "tsv_rx ?s = RxWait" "\<not> te_stop (tsv_teleop ?s)" by (simp_all add: rx_thread_def server_start_def demo_teleop_def)
  ultimately show ?thesis
    using control_acknowledged [OF _ _ _ _ refl rtranclp.rtrancl_refl, of demo_control demo_teleop_env demo_teleop ?s None 8 "[]" 0 joint_feedback0]
    by (auto simp: demo_control_def control_code_def)
qed

theorem gains_packet_resets_options_witness:
  "\<exists>m'. te_mode (rx_step demo_teleop_env None 8 (put_gains demo_gains_packet @ []) demo_teleop) = TmCartesian m' \<and>
     \<not> cp_manip_on (ca_params m') \<and> cp_manip_gain (ca_params m') = Fin 0 \<and> \<not> cp_use_fixed_rest (ca_params m') \<and>
    cp_nullspace_q_rest (ca_params m') = cp_nullspace_q_rest cart_params0 \<and>
    cp_torque_limit (ca_params m') = tv_of64 demo_teleop_env (gk_torque_limit demo_gains_packet)"
  by (rule gains_packet_resets_options [where m = "ca_init zero_dynamics (cart_params0\<lparr>cp_manip_on := True, cp_manip_gain := Fin 5\<rparr>)"])
    (simp_all add: demo_gains_packet_def demo_tp_header_def valid_header_def demo_teleop_def)

theorem joint_vec_reads_tokens_witness:
  "\<exists>v. parse_joint_vec (\<lambda>t. if t = ''80'' then Some (Fin 80, 2) else None) ''80'' = Some v \<and> vnth v 6 = Fin 80"
proof -
  let ?stod = "\<lambda>t. if t = ''80'' then Some (Fin 80, 2) else None"
  have "\<forall>t \<in> set [''80'']. whole_token ?stod t" by (simp add: whole_token_def)
  from joint_vec_reads_tokens [OF this] obtain v where v: "parse_joint_vec ?stod ''80'' = Some v"
    "\<forall>i < 7. ?stod ''80'' = Some (vnth v i, 2)" by (auto simp: Let_def)
  then have "vnth v 6 = Fin 80" by (auto dest: spec [of _ 6])
  then show ?thesis using v(1) by blast
qed

end
