(* ===== verification/Arm_Link.thy ===== *)
theory Arm_Link
  imports Rt_Executor
begin

section \<open>The arm link\<close>

text \<open>
  \<open>ArmLink\<close> (\<open>arm_link.h\<close>, \<open>.cpp\<close>): the life cycle of the connection. The operations on the link's
  state are functions; \<open>run\<close> is the step relation \<open>link_step\<close> over its program points, one step per
  call of the transport or the executor, whose outcome is the step's choice: a value or an exception.
  \<open>request_clear\<close>, the one call of other threads that changes the state, is a step of its own. Waiting
  (the retry period, the poll period, the settle deadline) is left to the choice of the next step.
\<close>

subsection \<open>State and its operations\<close>

datatype link_state = LkConnecting | LkRunning | LkFaulted

record link_status =
  ls_state :: link_state
  ls_reason :: string
  ls_faults :: "64 word"
  ls_reconnects :: "64 word"
  ls_clears_done :: "64 word"

record arm_link =
  al_status :: link_status
  al_latched :: bool
  al_clearing :: bool
  al_fault_reason :: string
  al_connect_failures :: "64 word"
  al_last_connect_error :: string
  al_clear_requested :: bool
  al_told :: "link_state list"

text \<open>\<open>al_told\<close> is what the listener has been told, newest first.\<close>

definition arm_link_init :: arm_link where
  "arm_link_init = \<lparr>al_status = \<lparr>ls_state = LkConnecting, ls_reason = [], ls_faults = 0, ls_reconnects = 0, ls_clears_done = 0\<rparr>,
     al_latched = False, al_clearing = False, al_fault_reason = [], al_connect_failures = 0,
     al_last_connect_error = [], al_clear_requested = False, al_told = []\<rparr>"

text \<open>The constructor throws unless the executor ends its run on a fault.\<close>

definition arm_link_ok :: "executor_config \<Rightarrow> bool" where
  "arm_link_ok c = ec_exit_on_fault c"

definition set_state :: "link_state \<Rightarrow> string \<Rightarrow> bool \<Rightarrow> arm_link \<Rightarrow> arm_link" where
  "set_state st reason announce l =
     (let changed = (announce \<or> ls_state (al_status l) \<noteq> st);
          dropped = (st \<noteq> LkFaulted \<and> al_clear_requested l);
          l1 = (if st \<noteq> LkFaulted then l\<lparr>al_clear_requested := False\<rparr> else l);
          status = (al_status l)\<lparr>ls_state := st, ls_reason := reason\<rparr>;
          l2 = (if al_clearing l \<or> dropped
                then l1\<lparr>al_status := status\<lparr>ls_clears_done := ls_clears_done status + 1\<rparr>, al_clearing := False\<rparr>
                else l1\<lparr>al_status := status\<rparr>)
      in if changed then l2\<lparr>al_told := st # al_told l2\<rparr> else l2)"

definition latch :: "string \<Rightarrow> arm_link \<Rightarrow> arm_link" where
  "latch reason l =
     (let l1 = l\<lparr>al_fault_reason := reason\<rparr>
      in if al_latched l then l1
         else l1\<lparr>al_latched := True, al_status := (al_status l)\<lparr>ls_faults := ls_faults (al_status l) + 1\<rparr>\<rparr>)"

definition note_connect_failure :: "string \<Rightarrow> arm_link \<Rightarrow> arm_link" where
  "note_connect_failure reason l =
     l\<lparr>al_connect_failures := al_connect_failures l + 1, al_last_connect_error := reason,
       al_status := (al_status l)\<lparr>ls_reason := reason\<rparr>\<rparr>"

definition request_clear :: "arm_link \<Rightarrow> bool \<times> arm_link" where
  "request_clear l =
     (if ls_state (al_status l) \<noteq> LkFaulted then (False, l) else (True, l\<lparr>al_clear_requested := True\<rparr>))"

subsection \<open>The loop\<close>

record link_config =
  lc_health_max_failures :: int

text \<open>
  Where \<open>run\<close> is: at the loop's test; before \<open>connect\<close>; in the \<open>try\<close> block before its fault check;
  before \<open>release_low_level\<close>; in \<open>wait_faulted\<close> with the health failures so far; a clear taken and
  before \<open>clear_faults\<close>; in \<open>fault_persists\<close>; entering low-level servoing; in the executor's \<open>run\<close>;
  out of the loop, with the exception it let out.
\<close>

datatype link_pc = LpTop | LpConnect | LpTry | LpRelease | LpWait int | LpClear | LpSettle | LpEnter
  | LpRun | LpDone "exn option"

record link_run =
  lr_link :: arm_link
  lr_pc :: link_pc
  lr_connected :: bool
  lr_ever_connected :: bool
  lr_commanding :: bool

definition link_start :: "arm_link \<Rightarrow> link_run" where
  "link_start l = \<lparr>lr_link = set_state LkConnecting [] True l, lr_pc = LpTop, lr_connected = False,
     lr_ever_connected = False, lr_commanding = False\<rparr>"

definition lr_at :: "link_pc \<Rightarrow> link_run \<Rightarrow> link_run" where
  "lr_at p r = r\<lparr>lr_pc := p\<rparr>"

definition on_link :: "(arm_link \<Rightarrow> arm_link) \<Rightarrow> link_run \<Rightarrow> link_run" where
  "on_link f r = r\<lparr>lr_link := f (lr_link r)\<rparr>"

definition shutdown :: "link_run \<Rightarrow> link_run" where
  "shutdown r = r\<lparr>lr_connected := False\<rparr>"

definition lost :: "string \<Rightarrow> link_run \<Rightarrow> link_run" where
  "lost what r =
     (let r1 = (if lr_commanding r then on_link (latch (''connection lost: '' @ what)) r else r)
      in shutdown (on_link (set_state LkConnecting what False) (r1\<lparr>lr_commanding := False\<rparr>)))"

text \<open>The handlers of the \<open>try\<close> block.\<close>

definition catch :: "exn \<Rightarrow> link_run \<Rightarrow> link_run" where
  "catch e r =
     (case e of
        ExcCommsLost what \<Rightarrow> lost what r
      | ExcTimeout what \<Rightarrow> lost what r
      | ExcLogic what \<Rightarrow> on_link (latch what) (r\<lparr>lr_commanding := False\<rparr>)
      | ExcStd what \<Rightarrow> on_link (latch what) (r\<lparr>lr_commanding := False\<rparr>)
      | ExcUnknown \<Rightarrow> on_link (latch ''unknown exception'') (r\<lparr>lr_commanding := False\<rparr>))"

definition connect_failure_reason :: "exn \<Rightarrow> string" where
  "connect_failure_reason e = (case e of ExcCommsLost w \<Rightarrow> w | ExcTimeout w \<Rightarrow> w | ExcLogic w \<Rightarrow> w | ExcStd w \<Rightarrow> w
     | ExcUnknown \<Rightarrow> ''unknown exception from connect()'')"

definition connected :: "link_run \<Rightarrow> link_run" where
  "connected r =
     (let l = (lr_link r)\<lparr>al_connect_failures := 0\<rparr>;
          l1 = (if lr_ever_connected r
                then l\<lparr>al_status := (al_status l)\<lparr>ls_reconnects := ls_reconnects (al_status l) + 1\<rparr>\<rparr> else l)
      in r\<lparr>lr_link := l1, lr_connected := True, lr_ever_connected := True\<rparr>)"

text \<open>After the fault check, with what \<open>arm_in_fault\<close> said (only asked when nothing is latched).\<close>

definition after_check :: "bool \<Rightarrow> link_run \<Rightarrow> link_run" where
  "after_check faulted r =
     (let r1 = (if \<not> al_latched (lr_link r) \<and> faulted then on_link (latch ''the arm reports a fault'') r else r)
      in if al_latched (lr_link r1)
         then lr_at LpRelease (on_link (set_state LkFaulted (al_fault_reason (lr_link r1)) False) r1)
         else lr_at LpEnter r1)"

definition take_clear :: "arm_link \<Rightarrow> arm_link" where
  "take_clear l = l\<lparr>al_clear_requested := False, al_clearing := True\<rparr>"

inductive link_step :: "link_config \<Rightarrow> link_run \<Rightarrow> link_run \<Rightarrow> bool" for cfg where
  stopped: "lr_pc r = LpTop \<Longrightarrow> link_step cfg r (lr_at (LpDone None) (shutdown r))"
| go_connect: "lr_pc r = LpTop \<Longrightarrow> \<not> lr_connected r \<Longrightarrow> link_step cfg r (lr_at LpConnect r)"
| go_on: "lr_pc r = LpTop \<Longrightarrow> lr_connected r \<Longrightarrow> link_step cfg r (lr_at LpTry r)"
| connect_ok: "lr_pc r = LpConnect \<Longrightarrow> link_step cfg r (lr_at LpTry (connected r))"
| connect_config: "lr_pc r = LpConnect \<Longrightarrow> link_step cfg r (lr_at (LpDone (Some (ExcLogic w))) (shutdown r))"
| connect_fails: "lr_pc r = LpConnect \<Longrightarrow> \<forall>w. e \<noteq> ExcLogic w
    \<Longrightarrow> link_step cfg r (lr_at LpTop (shutdown (on_link (note_connect_failure (connect_failure_reason e)) r)))"
| check: "lr_pc r = LpTry \<Longrightarrow> link_step cfg r (after_check faulted r)"
| check_throws: "lr_pc r = LpTry \<Longrightarrow> \<not> al_latched (lr_link r) \<Longrightarrow> link_step cfg r (lr_at LpTop (catch e r))"
| released: "lr_pc r = LpRelease \<Longrightarrow> link_step cfg r (lr_at (LpWait 0) r)"
| wait_stop: "lr_pc r = LpWait n \<Longrightarrow> link_step cfg r (lr_at (LpDone None) (shutdown r))"
| wait_clear: "lr_pc r = LpWait n \<Longrightarrow> al_clear_requested (lr_link r) \<Longrightarrow> link_step cfg r (lr_at LpClear (on_link take_clear r))"
| wait_poll: "lr_pc r = LpWait n \<Longrightarrow> \<not> al_clear_requested (lr_link r) \<Longrightarrow> link_step cfg r r"
| wait_healthy: "lr_pc r = LpWait n \<Longrightarrow> \<not> al_clear_requested (lr_link r) \<Longrightarrow> link_step cfg r (lr_at (LpWait 0) r)"
| wait_unhealthy: "lr_pc r = LpWait n \<Longrightarrow> \<not> al_clear_requested (lr_link r) \<Longrightarrow> n + 1 < lc_health_max_failures cfg
    \<Longrightarrow> link_step cfg r (lr_at (LpWait (n + 1)) r)"
| wait_lost: "lr_pc r = LpWait n \<Longrightarrow> \<not> al_clear_requested (lr_link r) \<Longrightarrow> lc_health_max_failures cfg \<le> n + 1
    \<Longrightarrow> link_step cfg r (lr_at LpTop (catch (ExcTimeout ''the arm stopped answering while faulted'') r))"
| clear_sent: "lr_pc r = LpClear \<Longrightarrow> link_step cfg r (lr_at LpSettle r)"
| clear_throws: "lr_pc r = LpClear \<Longrightarrow> link_step cfg r (lr_at LpTop (catch e r))"
| settle_poll: "lr_pc r = LpSettle \<Longrightarrow> link_step cfg r r"
| settle_throws: "lr_pc r = LpSettle \<Longrightarrow> link_step cfg r (lr_at LpTop (catch e r))"
| fault_persists: "lr_pc r = LpSettle
    \<Longrightarrow> link_step cfg r (lr_at LpTop (on_link (\<lambda>l. l\<lparr>al_fault_reason := ''fault persists after clear''\<rparr>) r))"
| fault_gone: "lr_pc r = LpSettle \<Longrightarrow> link_step cfg r (lr_at LpEnter (on_link (\<lambda>l. l\<lparr>al_latched := False\<rparr>) r))"
| enter_throws: "lr_pc r = LpEnter \<Longrightarrow> link_step cfg r (lr_at LpTop (catch e r))"
| entered: "lr_pc r = LpEnter
    \<Longrightarrow> link_step cfg r (lr_at LpRun ((on_link (set_state LkRunning [] False) r)\<lparr>lr_commanding := True\<rparr>))"
| run_stops: "lr_pc r = LpRun \<Longrightarrow> link_step cfg r (lr_at (LpDone None) (shutdown r))"
| run_throws: "lr_pc r = LpRun \<Longrightarrow> link_step cfg r (lr_at LpTop (catch e r))"

text \<open>Any number of steps of the loop, with the clear requests of other threads among them or not.\<close>

inductive link_quiet :: "link_config \<Rightarrow> link_run \<Rightarrow> link_run \<Rightarrow> bool" for cfg r0 where
  quiet_start: "link_quiet cfg r0 r0"
| quiet_step: "link_quiet cfg r0 r \<Longrightarrow> link_step cfg r r' \<Longrightarrow> link_quiet cfg r0 r'"

inductive link_reach :: "link_config \<Rightarrow> link_run \<Rightarrow> link_run \<Rightarrow> bool" for cfg r0 where
  reach_start: "link_reach cfg r0 r0"
| reach_step: "link_reach cfg r0 r \<Longrightarrow> link_step cfg r r' \<Longrightarrow> link_reach cfg r0 r'"
| reach_request: "link_reach cfg r0 r \<Longrightarrow> link_reach cfg r0 (on_link (snd \<circ> request_clear) r)"

subsection \<open>What the operations do to each field\<close>

lemma set_state_simps [simp]:
  "al_latched (set_state st w a l) = al_latched l" "al_fault_reason (set_state st w a l) = al_fault_reason l"
  "ls_state (al_status (set_state st w a l)) = st" "ls_reason (al_status (set_state st w a l)) = w"
  "al_clear_requested (set_state st w a l) \<longleftrightarrow> st = LkFaulted \<and> al_clear_requested l"
  "\<not> al_clearing (set_state st w a l)"
  by (simp_all add: set_state_def Let_def)

lemma set_state_clears:
  "ls_clears_done (al_status (set_state st w a l)) = ls_clears_done (al_status l) +
     (if al_clearing l \<or> st \<noteq> LkFaulted \<and> al_clear_requested l then 1 else 0)"
  by (simp add: set_state_def Let_def)

lemma set_state_told:
  "al_told (set_state st w a l) = (if a \<or> ls_state (al_status l) \<noteq> st then st # al_told l else al_told l)"
  by (simp add: set_state_def Let_def)

lemma latch_simps [simp]:
  "al_latched (latch w l)" "ls_state (al_status (latch w l)) = ls_state (al_status l)"
  "al_clear_requested (latch w l) = al_clear_requested l" "al_clearing (latch w l) = al_clearing l"
  "al_told (latch w l) = al_told l" "ls_clears_done (al_status (latch w l)) = ls_clears_done (al_status l)"
  by (simp_all add: latch_def Let_def)

lemma note_connect_failure_simps [simp]:
  "al_latched (note_connect_failure w l) = al_latched l"
  "ls_state (al_status (note_connect_failure w l)) = ls_state (al_status l)"
  "al_clear_requested (note_connect_failure w l) = al_clear_requested l"
  "al_clearing (note_connect_failure w l) = al_clearing l" "al_told (note_connect_failure w l) = al_told l"
  "ls_clears_done (al_status (note_connect_failure w l)) = ls_clears_done (al_status l)"
  by (simp_all add: note_connect_failure_def)

lemma lr_simps [simp]:
  "lr_pc (lr_at p r) = p" "lr_link (lr_at p r) = lr_link r" "lr_connected (lr_at p r) = lr_connected r"
  "lr_commanding (lr_at p r) = lr_commanding r"
  "lr_pc (on_link f r) = lr_pc r" "lr_link (on_link f r) = f (lr_link r)" "lr_connected (on_link f r) = lr_connected r"
  "lr_commanding (on_link f r) = lr_commanding r"
  "lr_pc (shutdown r) = lr_pc r" "lr_link (shutdown r) = lr_link r" "\<not> lr_connected (shutdown r)"
  "lr_commanding (shutdown r) = lr_commanding r"
  by (simp_all add: lr_at_def on_link_def shutdown_def)

lemma connected_simps [simp]:
  "al_latched (lr_link (connected r)) = al_latched (lr_link r)"
  "ls_state (al_status (lr_link (connected r))) = ls_state (al_status (lr_link r))"
  "al_clear_requested (lr_link (connected r)) = al_clear_requested (lr_link r)"
  "al_clearing (lr_link (connected r)) = al_clearing (lr_link r)"
  "al_told (lr_link (connected r)) = al_told (lr_link r)"
  "ls_clears_done (al_status (lr_link (connected r))) = ls_clears_done (al_status (lr_link r))"
  "lr_commanding (connected r) = lr_commanding r"
  by (simp_all add: connected_def Let_def)

lemma lost_simps [simp]:
  "\<not> lr_commanding (lost w r)" "\<not> al_clear_requested (lr_link (lost w r))" "\<not> al_clearing (lr_link (lost w r))"
  "al_latched (lr_link (lost w r)) \<longleftrightarrow> lr_commanding r \<or> al_latched (lr_link r)"
  "ls_state (al_status (lr_link (lost w r))) = LkConnecting"
  by (simp_all add: lost_def Let_def)

lemma lost_clears:
  "ls_clears_done (al_status (lr_link (lost w r))) = ls_clears_done (al_status (lr_link r)) +
     (if al_clearing (lr_link r) \<or> al_clear_requested (lr_link r) then 1 else 0)"
  by (simp add: lost_def Let_def set_state_clears)

lemma lost_told:
  "al_told (lr_link (lost w r)) =
     (if ls_state (al_status (lr_link r)) \<noteq> LkConnecting then LkConnecting # al_told (lr_link r) else al_told (lr_link r))"
  by (simp add: lost_def Let_def set_state_told)

lemma catch_cases:
  obtains w where "catch e r = lost w r"
  | w where "catch e r = on_link (latch w) (r\<lparr>lr_commanding := False\<rparr>)"
  by (cases e) (auto simp: catch_def)

lemma catch_commanding [simp]: "\<not> lr_commanding (catch e r)"
  by (cases e) (simp_all add: catch_def)

lemma catch_latched [simp]: "al_latched (lr_link r) \<or> lr_commanding r \<Longrightarrow> al_latched (lr_link (catch e r))"
  by (cases e) (auto simp: catch_def)

lemma catch_clear_requested: "al_clear_requested (lr_link (catch e r)) \<Longrightarrow> al_clear_requested (lr_link r)"
  by (cases e) (auto simp: catch_def)

lemma after_check_latched:
  "al_latched (lr_link r) \<Longrightarrow> after_check b r = lr_at LpRelease (on_link (set_state LkFaulted (al_fault_reason (lr_link r)) False) r)"
  by (simp add: after_check_def)

lemma after_check_faulted_or_enter:
  "(lr_pc (after_check b r) = LpRelease \<and> al_latched (lr_link (after_check b r)) \<and>
      ls_state (al_status (lr_link (after_check b r))) = LkFaulted) \<or>
   (\<not> al_latched (lr_link r) \<and> after_check b r = lr_at LpEnter r)"
  by (auto simp: after_check_def Let_def)

subsection \<open>A fault is held until it is cleared\<close>

text \<open>While nobody asks for a clear, a latched link stays away from the arm.\<close>

definition held :: "link_run \<Rightarrow> bool" where
  "held r \<longleftrightarrow> al_latched (lr_link r) \<and> \<not> al_clear_requested (lr_link r) \<and> \<not> lr_commanding r \<and>
     (case lr_pc r of LpClear \<Rightarrow> False | LpSettle \<Rightarrow> False | LpEnter \<Rightarrow> False | LpRun \<Rightarrow> False | _ \<Rightarrow> True)"

lemma held_catch: "held r \<Longrightarrow> held (lr_at LpTop (catch e r))"
  using catch_clear_requested [of e r] by (auto simp: held_def)

lemma held_step:
  assumes "link_step cfg r r'" and "held r"
  shows "held r'"
  using assms
proof (induction rule: link_step.induct)
  case (check r faulted)
  then have "al_latched (lr_link r)" by (simp add: held_def)
  from after_check_latched [OF this, of faulted] check show ?case by (simp add: held_def)
next
  case (check_throws r e)
  then show ?case by (intro held_catch)
next
  case (wait_lost r n)
  then show ?case by (intro held_catch)
qed (auto simp: held_def)

lemma held_quiet: "link_quiet cfg r r' \<Longrightarrow> held r \<Longrightarrow> held r'"
  by (induction rule: link_quiet.induct) (auto intro: held_step)

text \<open>What holds at every point of the loop, clear requests included.\<close>

definition link_ok :: "link_run \<Rightarrow> bool" where
  "link_ok r \<longleftrightarrow>
     (al_clear_requested (lr_link r) \<longrightarrow> ls_state (al_status (lr_link r)) = LkFaulted) \<and>
     (lr_commanding r \<longrightarrow> lr_pc r = LpRun \<or> (\<exists>x. lr_pc r = LpDone x)) \<and>
     (lr_pc r = LpRun \<longrightarrow> lr_commanding r \<and> ls_state (al_status (lr_link r)) = LkRunning \<and> \<not> al_latched (lr_link r)) \<and>
     (lr_pc r = LpEnter \<longrightarrow> \<not> al_latched (lr_link r)) \<and>
     (lr_pc r = LpRelease \<or> (\<exists>n. lr_pc r = LpWait n) \<or> lr_pc r = LpClear \<or> lr_pc r = LpSettle \<longrightarrow>
        al_latched (lr_link r) \<and> ls_state (al_status (lr_link r)) = LkFaulted) \<and>
     (\<forall>e. lr_pc r = LpDone (Some e) \<longrightarrow> (\<exists>w. e = ExcLogic w)) \<and>
     (\<forall>x. lr_pc r = LpDone x \<longrightarrow> \<not> lr_connected r)"

lemma link_ok_start: "link_ok (link_start arm_link_init)"
  by (simp add: link_ok_def link_start_def arm_link_init_def)

lemma catch_state: "ls_state (al_status (lr_link (catch e r))) = ls_state (al_status (lr_link r)) \<or>
    \<not> al_clear_requested (lr_link (catch e r))"
  by (cases e) (simp_all add: catch_def)

lemma link_ok_catch: "link_ok r \<Longrightarrow> link_ok (lr_at LpTop (catch e r))"
  using catch_clear_requested [of e r] catch_state [of e r] by (auto simp: link_ok_def)

lemma link_ok_step:
  assumes "link_step cfg r r'" and "link_ok r"
  shows "link_ok r'"
  using assms
proof (induction rule: link_step.induct)
  case (check r faulted)
  then show ?case by (auto simp: link_ok_def after_check_def Let_def)
next
  case (clear_throws r e)
  then show ?case by (intro link_ok_catch)
next
  case (check_throws r e)
  then show ?case by (intro link_ok_catch)
next
  case (wait_lost r n)
  then show ?case by (intro link_ok_catch)
next
  case (settle_throws r e)
  then show ?case by (intro link_ok_catch)
next
  case (enter_throws r e)
  then show ?case by (intro link_ok_catch)
next
  case (run_throws r e)
  then show ?case by (intro link_ok_catch)
qed (auto simp: link_ok_def take_clear_def)

lemma link_ok_request: "link_ok r \<Longrightarrow> link_ok (on_link (snd \<circ> request_clear) r)"
  by (auto simp: link_ok_def request_clear_def)

lemma link_ok_reach: "link_reach cfg (link_start arm_link_init) r \<Longrightarrow> link_ok r"
  by (induction rule: link_reach.induct) (auto intro: link_ok_start link_ok_step link_ok_request)

text \<open>
  Claim C7. The arm is never taken back on the link's own initiative: once the executor's run has ended in
  any exception -- a fault, a rejected command, comms lost, anything -- the fault is latched, and
  through reconnects, fault checks and further failures the link does not command again, and does not
  even enter low-level servoing, unless another thread asks for a clear.
\<close>

theorem fault_held_until_clear:
  assumes "link_reach cfg (link_start arm_link_init) r" and "lr_pc r = LpRun"
    and "link_quiet cfg (lr_at LpTop (catch e r)) r'"
  shows "al_latched (lr_link r') \<and> \<not> lr_commanding r' \<and> lr_pc r' \<noteq> LpEnter \<and> lr_pc r' \<noteq> LpRun"
proof -
  have "link_ok r" using assms(1) by (rule link_ok_reach)
  then have "held (lr_at LpTop (catch e r))"
    using assms(2) catch_clear_requested [of e r] by (auto simp: held_def link_ok_def)
  with assms(3) have "held r'" by (rule held_quiet)
  then show ?thesis by (auto simp: held_def)
qed

subsection \<open>A clear is always answered\<close>

definition clear_pending :: "arm_link \<Rightarrow> bool" where
  "clear_pending l \<longleftrightarrow> al_clear_requested l \<or> al_clearing l"

text \<open>
  Between two states of the loop the counter has moved by some number of resolved clears, and if by none,
  a clear that was pending still is.
\<close>

definition clears_moved :: "arm_link \<Rightarrow> arm_link \<Rightarrow> bool" where
  "clears_moved l l' \<longleftrightarrow> (\<exists>n. ls_clears_done (al_status l') = ls_clears_done (al_status l) + of_nat n \<and>
     (n = 0 \<longrightarrow> clear_pending l \<longrightarrow> clear_pending l'))"

lemma clears_moved_refl: "clears_moved l l"
  unfolding clears_moved_def by (rule exI [of _ 0]) simp

lemma clears_moved_trans: "clears_moved l l' \<Longrightarrow> clears_moved l' l'' \<Longrightarrow> clears_moved l l''"
proof -
  assume "clears_moved l l'" "clears_moved l' l''"
  then obtain n m where "ls_clears_done (al_status l') = ls_clears_done (al_status l) + of_nat n"
    "n = 0 \<longrightarrow> clear_pending l \<longrightarrow> clear_pending l'"
    "ls_clears_done (al_status l'') = ls_clears_done (al_status l') + of_nat m"
    "m = 0 \<longrightarrow> clear_pending l' \<longrightarrow> clear_pending l''"
    unfolding clears_moved_def by blast
  then show ?thesis unfolding clears_moved_def by (intro exI [of _ "n + m"]) simp
qed

lemma clears_moved_same:
  "ls_clears_done (al_status l') = ls_clears_done (al_status l) \<Longrightarrow> (clear_pending l \<longrightarrow> clear_pending l') \<Longrightarrow> clears_moved l l'"
  unfolding clears_moved_def by (rule exI [of _ 0]) simp

lemma clears_moved_set_state: "clears_moved l (set_state st w a l)"
proof (cases "al_clearing l \<or> st \<noteq> LkFaulted \<and> al_clear_requested l")
  case True
  then show ?thesis unfolding clears_moved_def by (intro exI [of _ 1]) (simp add: set_state_clears)
next
  case False
  then show ?thesis by (intro clears_moved_same) (auto simp: set_state_clears clear_pending_def)
qed

lemma clears_moved_latch: "clears_moved l (latch w l)"
  by (rule clears_moved_same) (simp_all add: clear_pending_def)

lemma clears_moved_lost: "clears_moved (lr_link r) (lr_link (lost w r))"
  by (auto simp: lost_def Let_def intro: clears_moved_set_state clears_moved_trans [OF clears_moved_latch])

lemma clears_moved_catch: "clears_moved (lr_link r) (lr_link (catch e r))"
  by (cases e) (simp_all add: catch_def clears_moved_lost clears_moved_latch)

lemma clears_moved_check: "clears_moved (lr_link r) (lr_link (after_check b r))"
  by (auto simp: after_check_def Let_def intro: clears_moved_set_state clears_moved_refl clears_moved_latch
      clears_moved_trans [OF clears_moved_latch])

lemma clears_moved_step: "link_step cfg r r' \<Longrightarrow> clears_moved (lr_link r) (lr_link r')"
  by (induction rule: link_step.induct)
    (auto intro: clears_moved_refl clears_moved_catch clears_moved_check clears_moved_set_state clears_moved_same
      simp: clear_pending_def take_clear_def)

lemma clears_moved_reach: "link_reach cfg r r' \<Longrightarrow> clears_moved (lr_link r) (lr_link r')"
proof (induction rule: link_reach.induct)
  case (reach_request r')
  have "clears_moved (lr_link r') (lr_link (on_link (snd \<circ> request_clear) r'))"
    by (rule clears_moved_same) (auto simp: request_clear_def clear_pending_def)
  with reach_request.IH show ?case by (rule clears_moved_trans)
qed (auto intro: clears_moved_refl clears_moved_trans clears_moved_step)

text \<open>
  Every accepted clear request is answered: whatever the link does from then on -- clears the
  fault, finds it persisting, loses the connection before or after it took the request -- the
  clears\_done counter has moved in every later state in which that request (or a clear taken from it)
  is no longer pending, so a caller waiting for it to move is not left waiting by a dropped request.
\<close>

theorem clear_request_answered:
  assumes "request_clear (lr_link r) = (True, l)" and "link_reach cfg (r\<lparr>lr_link := l\<rparr>) r'"
  shows "al_clear_requested (lr_link r') \<or> al_clearing (lr_link r') \<or>
    (\<exists>n > 0. ls_clears_done (al_status (lr_link r')) = ls_clears_done (al_status (lr_link r)) + of_nat n)"
proof -
  have l: "clear_pending l" "ls_clears_done (al_status l) = ls_clears_done (al_status (lr_link r))"
    using assms(1) by (auto simp: request_clear_def clear_pending_def split: if_splits)
  with clears_moved_reach [OF assms(2)] obtain n where
    "ls_clears_done (al_status (lr_link r')) = ls_clears_done (al_status (lr_link r)) + of_nat n"
    "n = 0 \<longrightarrow> clear_pending (lr_link r')" by (auto simp: clears_moved_def)
  then show ?thesis by (cases "n = 0") (auto simp: clear_pending_def)
qed

subsection \<open>What the listener is told\<close>

definition told_ok :: "arm_link \<Rightarrow> bool" where
  "told_ok l \<longleftrightarrow> al_told l \<noteq> [] \<and> hd (al_told l) = ls_state (al_status l) \<and> distinct_adj (al_told l)"

lemma told_ok_cong:
  "told_ok l \<Longrightarrow> al_told l' = al_told l \<Longrightarrow> ls_state (al_status l') = ls_state (al_status l) \<Longrightarrow> told_ok l'"
  by (simp add: told_ok_def)

lemma told_ok_set_state: "told_ok l \<Longrightarrow> told_ok (set_state st w False l)"
  by (cases "al_told l") (auto simp: told_ok_def set_state_told)

lemma told_ok_latch: "told_ok l \<Longrightarrow> told_ok (latch w l)"
  by (erule told_ok_cong) simp_all

lemma told_ok_catch: "told_ok (lr_link r) \<Longrightarrow> told_ok (lr_link (catch e r))"
  by (cases e) (auto simp: catch_def lost_def Let_def intro: told_ok_set_state told_ok_latch)

lemma told_ok_check: "told_ok (lr_link r) \<Longrightarrow> told_ok (lr_link (after_check b r))"
  by (auto simp: after_check_def Let_def intro: told_ok_set_state told_ok_latch)

lemma told_ok_step: "link_step cfg r r' \<Longrightarrow> told_ok (lr_link r) \<Longrightarrow> told_ok (lr_link r')"
  by (induction rule: link_step.induct)
    (auto intro: told_ok_catch told_ok_check told_ok_set_state told_ok_cong simp: take_clear_def)

lemma told_ok_reach: "link_reach cfg (link_start arm_link_init) r \<Longrightarrow> told_ok (lr_link r)"
proof (induction rule: link_reach.induct)
  case reach_start
  show ?case by (simp add: told_ok_def link_start_def set_state_told) (simp add: arm_link_init_def)
next
  case (reach_request r)
  then show ?case by (auto simp: request_clear_def intro: told_ok_cong)
qed (auto intro: told_ok_step)

text \<open>
  The rest of the driver always knows the link: in every reachable state what the listener was
  told last is the published state, it is never told the same state twice in a row, the loop commands
  the arm only in kRunning with nothing latched, waits for a clear only in kFaulted, and when it has
  returned the transport is shut down, an exception out of it being a configuration error.
\<close>

theorem link_state_consistent:
  assumes "link_reach cfg (link_start arm_link_init) r"
  shows "hd (al_told (lr_link r)) = ls_state (al_status (lr_link r)) \<and> distinct_adj (al_told (lr_link r)) \<and>
    (lr_pc r = LpRun \<longrightarrow> ls_state (al_status (lr_link r)) = LkRunning \<and> \<not> al_latched (lr_link r)) \<and>
    (\<forall>n. lr_pc r = LpWait n \<longrightarrow> ls_state (al_status (lr_link r)) = LkFaulted \<and> al_latched (lr_link r)) \<and>
    (\<forall>x. lr_pc r = LpDone x \<longrightarrow> \<not> lr_connected r) \<and>
    (\<forall>e. lr_pc r = LpDone (Some e) \<longrightarrow> (\<exists>w. e = ExcLogic w))"
  using link_ok_reach [OF assms] told_ok_reach [OF assms] unfolding link_ok_def told_ok_def by blast

subsection \<open>Runs of the link\<close>

definition demo_link_config :: link_config where
  "demo_link_config = \<lparr>lc_health_max_failures = 3\<rparr>"

abbreviation demo_reach :: "link_run \<Rightarrow> bool" where
  "demo_reach \<equiv> link_reach demo_link_config (link_start arm_link_init)"

text \<open>Connected, and asked whether the arm is in fault.\<close>

lemma demo_checked: "demo_reach (after_check faulted (lr_at LpTry (connected (lr_at LpConnect (link_start arm_link_init)))))"
proof -
  let ?r0 = "link_start arm_link_init"
  have "demo_reach (lr_at LpConnect ?r0)"
    by (rule reach_step [OF reach_start go_connect]) (simp_all add: link_start_def)
  then have "demo_reach (lr_at LpTry (connected (lr_at LpConnect ?r0)))"
    by (rule reach_step [OF _ connect_ok]) simp
  then show ?thesis by (rule reach_step [OF _ check]) simp
qed

lemma demo_running: "\<exists>r. demo_reach r \<and> lr_pc r = LpRun"
proof -
  let ?r = "after_check False (lr_at LpTry (connected (lr_at LpConnect (link_start arm_link_init))))"
  have "lr_pc ?r = LpEnter"
    by (simp add: after_check_def) (simp add: link_start_def arm_link_init_def)
  from reach_step [OF demo_checked entered [OF this]] show ?thesis by (intro exI conjI) (assumption, simp)
qed

lemma demo_faulted: "\<exists>r. demo_reach r \<and> ls_state (al_status (lr_link r)) = LkFaulted"
proof -
  let ?r = "after_check True (lr_at LpTry (connected (lr_at LpConnect (link_start arm_link_init))))"
  have "ls_state (al_status (lr_link ?r)) = LkFaulted" by (simp add: after_check_def)
  with demo_checked show ?thesis by blast
qed

lemma fault_held_until_clear_witness:
  "\<exists>r. demo_reach r \<and> lr_pc r = LpRun \<and> al_latched (lr_link (lr_at LpTop (catch (ExcCommsLost ''no reply'') r)))"
proof -
  obtain r where r: "demo_reach r" "lr_pc r = LpRun" using demo_running by blast
  from fault_held_until_clear [OF r quiet_start, of "ExcCommsLost ''no reply''"] r show ?thesis by blast
qed

lemma clear_request_answered_witness:
  "\<exists>(r :: link_run) l. request_clear (lr_link r) = (True, l) \<and> (al_clear_requested l \<or> al_clearing l \<or>
     (\<exists>n > 0. ls_clears_done (al_status l) = ls_clears_done (al_status (lr_link r)) + of_nat n))"
proof -
  obtain r where "demo_reach r" and f: "ls_state (al_status (lr_link r)) = LkFaulted" using demo_faulted by blast
  obtain l where l: "request_clear (lr_link r) = (True, l)" using f by (simp add: request_clear_def)
  from clear_request_answered [OF this reach_start] have "al_clear_requested l \<or> al_clearing l \<or>
     (\<exists>n > 0. ls_clears_done (al_status l) = ls_clears_done (al_status (lr_link r)) + of_nat n)" by simp
  with l show ?thesis by blast
qed

lemma link_state_consistent_witness:
  "\<exists>r. demo_reach r \<and> lr_pc r = LpRun \<and> hd (al_told (lr_link r)) = LkRunning"
proof -
  obtain r where r: "demo_reach r" "lr_pc r = LpRun" using demo_running by blast
  from link_state_consistent [OF r(1)] r have "hd (al_told (lr_link r)) = LkRunning" by simp
  with r show ?thesis by blast
qed

end
