(* ===== verification/Arm_Route.thy ===== *)
theory Arm_Route
  imports Prelude
begin

section \<open>The route to the arm\<close>

text \<open>
  \<open>arm_route_problem\<close> (\<open>arm_route.cpp\<close>). The kernel and the C library are the record \<open>net\<close>: how an
  address is read and printed, what a UDP socket connected to it says its source is, and the list of
  interfaces. \<open>Inl\<close> is the exception thrown (\<open>std::invalid_argument\<close>); the string returned is empty when
  there is no problem.
\<close>

text \<open>An interface of \<open>getifaddrs\<close>: its name, its IPv4 address and netmask if it has them, whether it runs.\<close>

record iface =
  if_name :: string
  if_addr :: "32 word option"
  if_netmask :: "32 word option"
  if_running :: bool

text \<open>A failed system call is the text of its \<open>errno\<close>.\<close>

record net =
  net_pton :: "string \<Rightarrow> 32 word option"
  net_ntop :: "32 word \<Rightarrow> string option"
  net_socket :: "string option"
  net_source :: "32 word \<Rightarrow> string + 32 word"
  net_ifaces :: "string + iface list"

definition no_direct_route :: "net \<Rightarrow> string \<Rightarrow> 32 word \<Rightarrow> iface \<Rightarrow> string" where
  "no_direct_route n ip src a =
     ''no direct route to '' @ ip @ '': it would leave via '' @ if_name a @ '' ('' @
     (case net_ntop n src of Some s \<Rightarrow> s | None \<Rightarrow> ''?'') @ ''), whose network doesn't include it''"

definition no_link :: "string \<Rightarrow> iface \<Rightarrow> string" where
  "no_link ip a = ''no link on '' @ if_name a @ '', the interface for '' @ ip"

text \<open>The loop over the interfaces: the first that has the source address decides.\<close>

fun scan_ifaces :: "net \<Rightarrow> string \<Rightarrow> 32 word \<Rightarrow> 32 word \<Rightarrow> iface list \<Rightarrow> string" where
  "scan_ifaces n ip arm src [] = []"
| "scan_ifaces n ip arm src (a # as) =
     (case (if_addr a, if_netmask a) of
        (Some addr, Some nmask) \<Rightarrow>
          if addr \<noteq> src then scan_ifaces n ip arm src as
          else if and arm nmask \<noteq> and addr nmask then no_direct_route n ip src a
          else if \<not> if_running a then no_link ip a
          else []
      | _ \<Rightarrow> scan_ifaces n ip arm src as)"

definition arm_route_problem :: "net \<Rightarrow> string \<Rightarrow> string + string" where
  "arm_route_problem n ip =
     (case net_pton n ip of
        None \<Rightarrow> Inl (''the arm's address is not an IPv4 address: '' @ [CHR 0x27] @ ip @ [CHR 0x27])
      | Some arm \<Rightarrow>
          Inr (case net_socket n of
                 Some e \<Rightarrow> ''route check: no socket: '' @ e
               | None \<Rightarrow>
                   (case net_source n arm of
                      Inl e \<Rightarrow> ''no route to '' @ ip @ '' ('' @ e @ '')''
                    | Inr src \<Rightarrow>
                        (case net_ifaces n of
                           Inl e \<Rightarrow> ''route check: no interface list: '' @ e
                         | Inr ifs \<Rightarrow> scan_ifaces n ip arm src ifs))))"

text \<open>An interface that has an address and a netmask, and the address.\<close>

definition has_source :: "32 word \<Rightarrow> iface \<Rightarrow> bool" where
  "has_source src a \<longleftrightarrow> if_addr a = Some src \<and> if_netmask a \<noteq> None"

definition on_network :: "32 word \<Rightarrow> iface \<Rightarrow> bool" where
  "on_network arm a \<longleftrightarrow> (\<exists>addr nmask. if_addr a = Some addr \<and> if_netmask a = Some nmask \<and> and arm nmask = and addr nmask)"

lemma scan_decides:
  "scan_ifaces n ip arm src ifs =
     (case dropWhile (\<lambda>a. \<not> has_source src a) ifs of
        [] \<Rightarrow> []
      | a # _ \<Rightarrow> if \<not> on_network arm a then no_direct_route n ip src a else if \<not> if_running a then no_link ip a else [])"
  by (induction ifs) (auto simp: has_source_def on_network_def split: option.splits)

lemma route_texts_nonempty [simp]: "no_direct_route n ip src a \<noteq> []" "no_link ip a \<noteq> []"
  by (simp_all add: no_direct_route_def no_link_def)

definition first_fine :: "32 word \<Rightarrow> 32 word \<Rightarrow> iface list \<Rightarrow> bool" where
  "first_fine arm src ifs \<longleftrightarrow>
     (\<forall>pre a post. ifs = pre @ a # post \<and> has_source src a \<and> (\<forall>b \<in> set pre. \<not> has_source src b)
        \<longrightarrow> on_network arm a \<and> if_running a)"

lemma scan_fine_iff: "scan_ifaces n ip arm src ifs = [] \<longleftrightarrow> first_fine arm src ifs"
proof (cases "dropWhile (\<lambda>a. \<not> has_source src a) ifs")
  case Nil
  then have "\<forall>a \<in> set ifs. \<not> has_source src a" by (simp add: dropWhile_eq_Nil_conv)
  then show ?thesis by (auto simp: scan_decides Nil first_fine_def simp del: dropWhile_eq_Nil_conv)
next
  case (Cons a post)
  let ?pre = "takeWhile (\<lambda>a. \<not> has_source src a) ifs"
  have a: "has_source src a" using Cons by (simp add: dropWhile_eq_Cons_conv)
  have split: "ifs = ?pre @ a # post" using Cons takeWhile_dropWhile_id [of "\<lambda>a. \<not> has_source src a" ifs] by simp
  have uniq: "b = a" if "ifs = pre @ b # post'" "has_source src b" "\<forall>c \<in> set pre. \<not> has_source src c" for pre b post'
  proof -
    have "dropWhile (\<lambda>a. \<not> has_source src a) ifs = b # post'" using that by (simp add: dropWhile_append2)
    then show ?thesis using Cons by simp
  qed
  have pre: "\<forall>c \<in> set ?pre. \<not> has_source src c" by (auto dest: set_takeWhileD)
  have "first_fine arm src ifs \<longleftrightarrow> on_network arm a \<and> if_running a"
    unfolding first_fine_def using a split pre uniq by blast
  then show ?thesis by (simp add: scan_decides Cons)
qed

text \<open>
  When there is nothing to complain of: the address is one, the kernel has a source address for it, and
  the first interface with that address, if there is one, has the arm on its network and a link.
  A source address on no interface passes, so that connecting is tried.
\<close>

theorem route_fine_iff:
  "arm_route_problem n ip = Inr [] \<longleftrightarrow>
     (\<exists>arm src ifs. net_pton n ip = Some arm \<and> net_socket n = None \<and> net_source n arm = Inr src \<and> net_ifaces n = Inr ifs \<and>
        first_fine arm src ifs)"
  by (cases "net_pton n ip"; cases "net_socket n"; cases "net_source n (the (net_pton n ip))"; cases "net_ifaces n")
    (simp_all add: arm_route_problem_def scan_fine_iff)

text \<open>A string that is no IPv4 address is the only thing that throws.\<close>

lemma route_throws_iff: "(\<exists>w. arm_route_problem n ip = Inl w) \<longleftrightarrow> net_pton n ip = None"
  by (simp add: arm_route_problem_def split: option.split)

end
