(* ===== verification/Kortex_Transport.thy ===== *)
theory Kortex_Transport
  imports Kortex_Wire Arm_Route
begin

section \<open>The Kortex transport: operations\<close>

text \<open>
  Each method of \<open>KortexTransport\<close> (\<open>kortex_transport.cpp\<close>), with the state it leaves behind when it
  throws. Sleeping, printing and raising the receive thread's priority are not modelled; which
  network objects exist is the set \<open>kx_alive\<close>.
\<close>

subsection \<open>Connecting\<close>

definition create :: "kx_object \<Rightarrow> kx \<Rightarrow> kx" where
  "create x k = k\<lparr>kx_alive := insert x (kx_alive k)\<rparr>"

text \<open>A read on each actuator; a refusal means it is still booting.\<close>

definition probe_error :: "kx_error \<Rightarrow> kx_error" where
  "probe_error e = (case e of KxRejected w \<Rightarrow> KxRuntime (''KortexTransport: actuator not registered yet (still booting?): '' @ w)
                                 | _ \<Rightarrow> e)"

definition probe :: "kortex_arm \<Rightarrow> nat \<Rightarrow> kx \<Rightarrow> unit kx_result" where
  "probe arm dev k =
     (case sdk_do rpc_error arm (KcGetControlMode dev) k of (Inl e, k1) \<Rightarrow> (Inl (probe_error e), k1) | r \<Rightarrow> r)"

fun probe_all :: "kortex_arm \<Rightarrow> nat list \<Rightarrow> kx \<Rightarrow> unit kx_result" where
  "probe_all arm [] k = (Inr (), k)"
| "probe_all arm (dev # devs) k = kx_then (probe arm dev k) (\<lambda>_. probe_all arm devs)"

definition open_session :: "kortex_arm \<Rightarrow> kx \<Rightarrow> unit kx_result" where
  "open_session arm k =
     kx_then (sdk_do raw_error arm KcConnectTcp (create ObUdp (create ObTcp k))) (\<lambda>_ k.
     kx_then (sdk_do raw_error arm KcConnectUdp k) (\<lambda>_ k.
     kx_then (sdk_do raw_error arm (KcCreateSession True)
       (create ObUdpSession (create ObTcpSession (create ObUdpRouter (create ObTcpRouter k))))) (\<lambda>_ k.
     kx_then (sdk_do raw_error arm (KcCreateSession False) k) (\<lambda>_ k.
       (Inr (), create ObActuators (create ObCyclic (create ObBase k)))))))"

definition check_count :: "nat \<Rightarrow> kx \<Rightarrow> unit kx_result" where
  "check_count n k0 =
     (let k = k0\<lparr>kx_n := n\<rparr>
      in if n = 0 then (Inl (KxRuntime ''KortexTransport: the arm reports no actuators yet (still booting?)''), k)
         else if n \<noteq> kNumJoints then (Inl (KxInvalid ''KortexTransport: wrong number of actuators''), k)
         else (Inr (), k))"

text \<open>After the route check, on the network as it is then.\<close>

definition connect_routed :: "kortex_arm \<Rightarrow> kx \<Rightarrow> unit kx_result" where
  "connect_routed arm k =
     kx_then (open_session arm k) (\<lambda>_ k.
     kx_then (sdk_get (ar_count arm) KcActuatorCount k) (\<lambda>n k.
     kx_then (check_count n k) (\<lambda>_ k.
     kx_then (probe_all arm [1..<kx_n k + 1] k) (\<lambda>_ k. (Inr (), k\<lparr>kx_connected := True\<rparr>)))))"

definition kx_connect :: "net \<Rightarrow> string \<Rightarrow> kortex_arm \<Rightarrow> kx \<Rightarrow> unit kx_result" where
  "kx_connect nw ip arm k =
     (case arm_route_problem nw ip of
        Inl w \<Rightarrow> (Inl (KxInvalid w), k)
      | Inr p \<Rightarrow> if p \<noteq> [] then (Inl (KxRuntime (''KortexTransport: '' @ p)), k) else connect_routed arm k)"

lemma kx_connect_cases:
  obtains (bad_address) w where "net_pton nw ip = None" "kx_connect nw ip arm k = (Inl (KxInvalid w), k)"
  | (no_route) p where "net_pton nw ip \<noteq> None" "arm_route_problem nw ip \<noteq> Inr []" "kx_connect nw ip arm k = (Inl (KxRuntime p), k)"
  | (routed) "net_pton nw ip \<noteq> None" "arm_route_problem nw ip = Inr []" "kx_connect nw ip arm k = connect_routed arm k"
  using route_throws_iff [of nw ip] by (cases "arm_route_problem nw ip") (auto simp: kx_connect_def split: if_splits)

subsection \<open>Entering low-level servoing\<close>

definition seed_actuator :: "kx \<Rightarrow> nat \<Rightarrow> kx_actuator_cmd" where
  "seed_actuator k i = kx_actuator_cmd0\<lparr>kc_position := ka_position (measured k i), kc_torque := - ka_torque (measured k i)\<rparr>"

definition seed_command :: "kx \<Rightarrow> kx" where
  "seed_command k = k\<lparr>kx_cmd := (kx_cmd k)\<lparr>cm_actuators := map (seed_actuator k) [0..<kx_n k], cm_gripper := None\<rparr>\<rparr>"

definition set_servoing_low_level :: "kortex_arm \<Rightarrow> kx \<Rightarrow> unit kx_result" where
  "set_servoing_low_level arm k =
     kx_then (sdk_do rpc_error arm (KcSetServoing LowLevel False) k) (\<lambda>_ k.
     kx_then (cyclic_call arm KcRefreshFeedback (k\<lparr>kx_low_level := True\<rparr>)) (\<lambda>p k.
     kx_then (parse_feedback p k) (\<lambda>_ k. refresh arm (seed_command k))))"

subsection \<open>Switching the actuators' modes\<close>

text \<open>\<open>std::pair\<close>'s \<open>operator<\<close> on (absolute torque, index), and the sort by it.\<close>

definition lighter :: "jointvec \<Rightarrow> nat \<Rightarrow> nat \<Rightarrow> bool" where
  "lighter t a b = (abs (vnth t a) < abs (vnth t b) \<or> \<not> abs (vnth t b) < abs (vnth t a) \<and> a < b)"

fun insert_by :: "(nat \<Rightarrow> nat \<Rightarrow> bool) \<Rightarrow> nat \<Rightarrow> nat list \<Rightarrow> nat list" where
  "insert_by lt x [] = [x]"
| "insert_by lt x (y # ys) = (if lt y x then y # insert_by lt x ys else x # y # ys)"

definition sort_by :: "(nat \<Rightarrow> nat \<Rightarrow> bool) \<Rightarrow> nat list \<Rightarrow> nat list" where
  "sort_by lt xs = foldr (insert_by lt) xs []"

definition switch_order :: "joint_command option \<Rightarrow> nat list" where
  "switch_order hold = (case hold of None \<Rightarrow> [0..<7] | Some h \<Rightarrow> sort_by (lighter (jc_torque h)) [0..<7])"

text \<open>One pump of the switch: a lost one is skipped, too many in a row are not. The value is \<open>misses\<close>.\<close>

definition switch_pump :: "kortex_arm \<Rightarrow> jointvec \<Rightarrow> int \<Rightarrow> kx \<Rightarrow> int kx_result" where
  "switch_pump arm sent misses k =
     (case kx_pump arm sent k of
        (Inr _, k1) \<Rightarrow> (Inr 0, k1)
      | (Inl (KxTimeout w), k1) \<Rightarrow>
          if kMaxConsecutiveTimeouts \<le> misses + 1 then (Inl (KxTimeout w), k1) else (Inr (misses + 1), k1)
      | (Inl e, k1) \<Rightarrow> (Inl e, k1))"

definition sent_after :: "joint_command option \<Rightarrow> nat \<Rightarrow> jointvec \<Rightarrow> jointvec" where
  "sent_after hold j sent = (case hold of None \<Rightarrow> sent | Some h \<Rightarrow> vupd sent j (vnth (jc_torque h) j))"

fun switch_loop :: "kortex_arm \<Rightarrow> actuator_modes \<Rightarrow> joint_command option \<Rightarrow> nat list \<Rightarrow> jointvec \<Rightarrow> int \<Rightarrow> kx
    \<Rightarrow> (jointvec \<times> int) kx_result" where
  "switch_loop arm modes hold [] sent misses k = (Inr (sent, misses), k)"
| "switch_loop arm modes hold (j # js) sent misses k =
     kx_then (sdk_do rpc_error arm (KcSetControlMode (vnth modes j) (j + 1) False) k) (\<lambda>_ k.
     (let sent1 = sent_after hold j sent
      in kx_then (switch_pump arm sent1 misses k) (\<lambda>m k. switch_loop arm modes hold js sent1 m k)))"

fun settle_pumps :: "kortex_arm \<Rightarrow> jointvec \<Rightarrow> nat \<Rightarrow> int \<Rightarrow> kx \<Rightarrow> unit kx_result" where
  "settle_pumps arm sent 0 misses k = (Inr (), k)"
| "settle_pumps arm sent (Suc n) misses k = kx_then (switch_pump arm sent misses k) (settle_pumps arm sent n)"

definition held_torque :: "kx \<Rightarrow> jointvec" where
  "held_torque k = vgen (\<lambda>i. if i < kx_n k then - ka_torque (measured k i) else Fin 0)"

definition set_actuator_modes :: "kortex_arm \<Rightarrow> actuator_modes \<Rightarrow> joint_command option \<Rightarrow> kx \<Rightarrow> unit kx_result" where
  "set_actuator_modes arm modes hold k =
     kx_then (switch_pump arm (held_torque k) 0 k) (\<lambda>m k1.
     kx_then (switch_loop arm modes hold (switch_order hold) (held_torque k) m k1) (\<lambda>(sent, m) k2.
       settle_pumps arm sent 10 m k2))"

subsection \<open>The cycle\<close>

text \<open>\<open>None\<close>: folding a reported angle does not return.\<close>

definition filled :: "unit kx_result \<Rightarrow> joint_feedback \<Rightarrow> joint_feedback kx_result option" where
  "filled r fb = (case r of (Inl e, k) \<Rightarrow> Some (Inl e, k)
                          | (Inr _, k) \<Rightarrow> map_option (\<lambda>fb. (Inr fb, k)) (fill_feedback k fb))"

definition kx_exchange :: "kortex_arm \<Rightarrow> joint_command \<Rightarrow> joint_feedback \<Rightarrow> kx \<Rightarrow> joint_feedback kx_result option" where
  "kx_exchange arm c fb k = filled (refresh arm (write_command c k)) fb"

definition kx_send :: "kortex_arm \<Rightarrow> joint_command \<Rightarrow> kx \<Rightarrow> unit kx_result" where
  "kx_send arm c k =
     (let k1 = write_command c k in kx_then (cyclic_call arm (KcRefreshCommand (kx_cmd k1)) k1) (\<lambda>_ k. (Inr (), k)))"

definition kx_receive :: "kortex_arm \<Rightarrow> joint_feedback \<Rightarrow> kx \<Rightarrow> joint_feedback kx_result option" where
  "kx_receive arm fb k = filled (kx_then (cyclic_call arm KcRefreshFeedback k) parse_feedback) fb"

subsection \<open>Handing the arm back\<close>

text \<open>\<open>attempt\<close>: an error reply is an answer; anything else is not.\<close>

definition attempt :: "kortex_arm \<Rightarrow> kx_call \<Rightarrow> kx \<Rightarrow> bool \<times> kx" where
  "attempt arm c k =
     (let k1 = issue c k in (case ar_do arm (kx_trace k1) of None \<Rightarrow> True | Some (SeDetailed _) \<Rightarrow> True | Some _ \<Rightarrow> False, k1))"

fun revert_actuators :: "kortex_arm \<Rightarrow> nat list \<Rightarrow> kx \<Rightarrow> bool \<times> kx" where
  "revert_actuators arm [] k = (True, k)"
| "revert_actuators arm (dev # devs) k =
     (let (ok, k1) = attempt arm (KcSetControlMode AmPosition dev True) k
      in if ok then revert_actuators arm devs k1 else (False, k1))"

definition release_low_level :: "kortex_arm \<Rightarrow> kx \<Rightarrow> kx" where
  "release_low_level arm k0 =
     (if \<not> kx_low_level k0 then k0
      else let k = k0\<lparr>kx_low_level := False\<rparr>;
               (ok, k1) = (if ObActuators \<in> kx_alive k \<and> 0 < kx_n k then revert_actuators arm [1..<kx_n k + 1] k else (True, k));
               (ok2, k2) = (if ok \<and> ObBase \<in> kx_alive k1 then attempt arm (KcSetServoing SingleLevel True) k1 else (ok, k1))
           in k2\<lparr>kx_unanswered := \<not> ok2\<rparr>)"

definition arm_in_fault :: "kortex_arm \<Rightarrow> kx \<Rightarrow> bool kx_result" where
  "arm_in_fault arm k =
     (if ObBase \<notin> kx_alive k then (Inl (KxTimeout ''KortexTransport: not connected''), k)
      else kx_then (sdk_get (ar_state arm) KcArmState k) (\<lambda>s k. (Inr (s = AsInFault), k)))"

text \<open>A call whose exception is swallowed.\<close>

definition quietly :: "kx_call \<Rightarrow> bool \<Rightarrow> kx \<Rightarrow> kx" where
  "quietly c b k = (if b then issue c k else k)"

definition safe_shutdown :: "kortex_arm \<Rightarrow> kx \<Rightarrow> kx" where
  "safe_shutdown arm k0 =
     (let k = release_low_level arm k0;
          k1 = quietly (KcCloseSession True) (ObTcpSession \<in> kx_alive k \<and> \<not> kx_unanswered k) k;
          k2 = quietly (KcCloseSession False) (ObUdpSession \<in> kx_alive k \<and> \<not> kx_unanswered k) k1;
          k3 = k2\<lparr>kx_unanswered := False\<rparr>;
          k4 = quietly (KcDisconnect True) (ObTcp \<in> kx_alive k3) k3;
          k5 = quietly (KcDisconnect False) (ObUdp \<in> kx_alive k4) k4
      in k5\<lparr>kx_alive := {}, kx_connected := False\<rparr>)"

definition clear_faults :: "kortex_arm \<Rightarrow> kx \<Rightarrow> kx" where
  "clear_faults arm k =
     (if \<not> kx_connected k \<or> ObBase \<notin> kx_alive k then k
      else let k1 = issue KcClearFaults k in if kx_low_level k1 then snd (set_servoing_low_level arm k1) else k1)"

end
