(* ===== verification/Kortex_Safety.thy ===== *)
theory Kortex_Safety
  imports Kortex_Transport
begin

section \<open>What the Kortex transport guarantees\<close>

text \<open>
  The calls an operation makes are the part it adds in front of \<open>kx_trace\<close>. The mode switch holds
  every joint's torque at every pump; the revert stops at the first call the arm does not answer;
  a command read back as feedback is the command; which failures are a missed exchange.
\<close>

subsection \<open>One pump\<close>

text \<open>After a connect and a seed: seven actuators, and as many in the message.\<close>

definition kx_ready :: "kx \<Rightarrow> bool" where
  "kx_ready k \<longleftrightarrow> kx_n k = 7 \<and> length (cm_actuators (kx_cmd k)) = 7"

definition pump_torque :: "cyclic_command \<Rightarrow> jointvec" where
  "pump_torque c = vgen (\<lambda>i. kc_torque (cm_actuators c ! i))"

definition stamped :: "16 word \<Rightarrow> cyclic_command \<Rightarrow> bool" where
  "stamped f c \<longleftrightarrow> cm_frame_id c = ucast f \<and> (\<forall>a \<in> set (cm_actuators c). kc_command_id a = ucast f)"

lemma each_actuator_length [simp]: "length (cm_actuators (each_actuator n f c)) = length (cm_actuators c)"
  by (simp add: each_actuator_def)

lemma each_actuator_nth: "i < length (cm_actuators c) \<Longrightarrow> i < n \<Longrightarrow> cm_actuators (each_actuator n f c) ! i = f i (cm_actuators c ! i)"
  by (simp add: each_actuator_def)

lemma each_actuator_frame [simp]: "cm_frame_id (each_actuator n f c) = cm_frame_id c" "cm_gripper (each_actuator n f c) = cm_gripper c"
  by (simp_all add: each_actuator_def)

lemma bump_frame_simps [simp]:
  "kx_n (bump_frame k) = kx_n k" "kx_fb (bump_frame k) = kx_fb k" "kx_trace (bump_frame k) = kx_trace k"
  "kx_frame_id (bump_frame k) = kx_frame_id k + 1" "cm_actuators (kx_cmd (bump_frame k)) = cm_actuators (kx_cmd k)"
  "cm_frame_id (kx_cmd (bump_frame k)) = ucast (kx_frame_id k + 1)" "cm_gripper (kx_cmd (bump_frame k)) = cm_gripper (kx_cmd k)"
  by (simp_all add: bump_frame_def Let_def)

text \<open>A refresh makes one call, and changes nothing but the feedback.\<close>

lemma refresh_frame:
  assumes "refresh arm k = (r, k')"
  shows "\<exists>f. k' = k\<lparr>kx_trace := KcRefresh (kx_cmd k) # kx_trace k, kx_fb := f\<rparr>"
proof -
  have same: "\<exists>f. k\<lparr>kx_trace := t\<rparr> = k\<lparr>kx_trace := t, kx_fb := f\<rparr>" for t by (rule exI [of _ "kx_fb k"]) simp
  show ?thesis using assms
    by (auto simp: same refresh_def cyclic_call_def parse_feedback_def issue_def Let_def kx_then_def split: option.splits prod.splits)
qed

lemma refresh_frameE:
  assumes "refresh arm k = (r, k')"
  obtains f where "k' = k\<lparr>kx_trace := KcRefresh (kx_cmd k) # kx_trace k, kx_fb := f\<rparr>"
  using refresh_frame [OF assms] by blast

lemma pump_call:
  assumes "kx_pump arm t k = (r, k')" and "kx_ready k"
  shows "\<exists>c. kx_trace k' = KcRefresh c # kx_trace k \<and> pump_torque c = t \<and> stamped (kx_frame_id k + 1) c \<and> kx_ready k' \<and>
    kx_frame_id k' = kx_frame_id k + 1"
proof -
  let ?k = "load_pump t k"
  obtain f where k': "k' = ?k\<lparr>kx_trace := KcRefresh (kx_cmd ?k) # kx_trace ?k, kx_fb := f\<rparr>"
    using assms(1) by (auto simp: kx_pump_def elim: refresh_frameE)
  have len: "length (cm_actuators (kx_cmd k)) = 7" and n: "kx_n k = 7" using assms(2) by (simp_all add: kx_ready_def)
  have "pump_torque (kx_cmd ?k) = t"
    by (rule vec7_eqI) (simp add: pump_torque_def load_pump_def Let_def each_actuator_nth len n pump_actuator_def)
  moreover have "stamped (kx_frame_id k + 1) (kx_cmd ?k)"
    using len n by (auto simp: stamped_def load_pump_def Let_def in_set_conv_nth each_actuator_nth pump_actuator_def)
  ultimately show ?thesis using k' len n by (auto simp: kx_ready_def load_pump_def Let_def)
qed

lemma switch_pump_call:
  assumes "switch_pump arm t m k = (r, k')" and "kx_ready k"
  shows "\<exists>c. kx_trace k' = KcRefresh c # kx_trace k \<and> pump_torque c = t \<and> stamped (kx_frame_id k + 1) c \<and> kx_ready k' \<and>
    kx_frame_id k' = kx_frame_id k + 1"
proof -
  obtain r0 k0 where p: "kx_pump arm t k = (r0, k0)" by fastforce
  have "k' = k0" using assms(1) p by (auto simp: switch_pump_def split: sum.splits kx_error.splits if_splits)
  then show ?thesis using pump_call [OF p assms(2)] by simp
qed

subsection \<open>The torque during a mode switch\<close>

text \<open>
  The torque joint \<open>i\<close> is to hold, given the calls the switch has made so far: what it measured at the
  start, then the hold's from its own switch on.
\<close>

definition switched :: "kx_call list \<Rightarrow> nat \<Rightarrow> bool" where
  "switched pre i = (\<exists>m. KcSetControlMode m (i + 1) False \<in> set pre)"

definition torque_due :: "joint_command option \<Rightarrow> jointvec \<Rightarrow> kx_call list \<Rightarrow> nat \<Rightarrow> dbl" where
  "torque_due hold t0 pre i = (case hold of Some h \<Rightarrow> if switched pre i then vnth (jc_torque h) i else vnth t0 i | None \<Rightarrow> vnth t0 i)"

definition pumps_hold :: "joint_command option \<Rightarrow> jointvec \<Rightarrow> kx_call list \<Rightarrow> bool" where
  "pumps_hold hold t0 new \<longleftrightarrow>
     (\<forall>post c pre. new = post @ KcRefresh c # pre \<longrightarrow> (\<forall>i < 7. vnth (pump_torque c) i = torque_due hold t0 pre i))"

lemma pumps_hold_Nil [simp]: "pumps_hold hold t0 []"
  by (simp add: pumps_hold_def)

lemma pumps_hold_Refresh:
  "pumps_hold hold t0 new \<Longrightarrow> pump_torque c = vgen (torque_due hold t0 new) \<Longrightarrow> pumps_hold hold t0 (KcRefresh c # new)"
  by (auto simp: pumps_hold_def Cons_eq_append_conv)

lemma pumps_hold_Set: "pumps_hold hold t0 new \<Longrightarrow> pumps_hold hold t0 (KcSetControlMode m j b # new)"
  by (auto simp: pumps_hold_def Cons_eq_append_conv)

text \<open>How far a switch has come: its calls, and the torque it is about to pump.\<close>

definition switching :: "joint_command option \<Rightarrow> jointvec \<Rightarrow> kx_call list \<Rightarrow> jointvec \<Rightarrow> kx_call list \<Rightarrow> kx \<Rightarrow> bool" where
  "switching hold t0 old sent new k \<longleftrightarrow>
     kx_ready k \<and> kx_trace k = new @ old \<and> pumps_hold hold t0 new \<and> sent = vgen (torque_due hold t0 new)"

lemma torque_due_Refresh [simp]: "torque_due hold t0 (KcRefresh c # new) = torque_due hold t0 new"
  by (rule ext) (simp add: torque_due_def switched_def split: option.split)

lemma switching_pump:
  assumes "switch_pump arm sent m k = (r, k')" and "switching hold t0 old sent new k"
  shows "\<exists>c. switching hold t0 old sent (KcRefresh c # new) k'"
proof -
  have s: "kx_ready k" "kx_trace k = new @ old" "pumps_hold hold t0 new" "sent = vgen (torque_due hold t0 new)"
    using assms(2) by (simp_all add: switching_def)
  obtain c where c: "kx_trace k' = KcRefresh c # kx_trace k" "pump_torque c = sent" "kx_ready k'"
    using switch_pump_call [OF assms(1) s(1)] by blast
  have "pumps_hold hold t0 (KcRefresh c # new)" using s(3,4) c(2) by (intro pumps_hold_Refresh) simp_all
  then have "switching hold t0 old sent (KcRefresh c # new) k'" using s c by (simp add: switching_def)
  then show ?thesis ..
qed

lemma sent_after_due:
  "sent = vgen (torque_due hold t0 new) \<Longrightarrow>
     sent_after hold j sent = vgen (torque_due hold t0 (KcSetControlMode m (j + 1) False # new))"
  by (auto simp: vec7_eq_iff sent_after_def torque_due_def switched_def split: option.splits)

lemma switching_set:
  assumes "sdk_do rpc_error arm (KcSetControlMode m (j + 1) False) k = (r, k')" and "switching hold t0 old sent new k"
  shows "switching hold t0 old (sent_after hold j sent) (KcSetControlMode m (j + 1) False # new) k'"
proof -
  have "k' = issue (KcSetControlMode m (j + 1) False) k" using assms(1) by (auto simp: sdk_do_def Let_def split: option.splits)
  then show ?thesis using assms(2) sent_after_due [of sent hold t0 new j m] pumps_hold_Set [of hold t0 new m "j + 1" False]
    by (simp add: switching_def issue_def kx_ready_def)
qed

text \<open>The set-mode calls among these, oldest first.\<close>

definition set_mode_calls :: "kx_call list \<Rightarrow> kx_call list" where
  "set_mode_calls cs = filter (\<lambda>c. case c of KcSetControlMode _ _ _ \<Rightarrow> True | _ \<Rightarrow> False) (rev cs)"

lemma set_mode_calls_simps [simp]:
  "set_mode_calls [] = []" "set_mode_calls (KcRefresh c # cs) = set_mode_calls cs"
  "set_mode_calls (KcSetControlMode m j b # cs) = set_mode_calls cs @ [KcSetControlMode m j b]"
  by (simp_all add: set_mode_calls_def)

definition set_mode_call :: "actuator_modes \<Rightarrow> nat \<Rightarrow> kx_call" where
  "set_mode_call modes j = KcSetControlMode (vnth modes j) (j + 1) False"

lemma switch_loop_holds:
  assumes "switch_loop arm modes hold js sent m k = (r, k')" and "switching hold t0 old sent new k"
  shows "\<exists>new'. pumps_hold hold t0 new' \<and> kx_trace k' = new' @ old \<and>
    (\<forall>s n. r = Inr (s, n) \<longrightarrow> switching hold t0 old s new' k' \<and>
       set_mode_calls new' = set_mode_calls new @ map (set_mode_call modes) js)"
  using assms
proof (induction js arbitrary: sent m k new)
  case Nil
  then show ?case by (auto simp: switching_def)
next
  case (Cons j js)
  let ?c = "KcSetControlMode (vnth modes j) (j + 1) False" and ?sent = "sent_after hold j sent"
  obtain r1 k1 where d: "sdk_do rpc_error arm ?c k = (r1, k1)" by fastforce
  note s1 = switching_set [OF d Cons.prems(2)]
  show ?case
  proof (cases r1)
    case (Inl e)
    then have "k' = k1" "r = Inl e" using Cons.prems(1) d by simp_all
    then show ?thesis using s1 by (auto simp: switching_def)
  next
    case (Inr u)
    obtain r2 k2 where p: "switch_pump arm ?sent m k1 = (r2, k2)" by fastforce
    from switching_pump [OF p s1] obtain c where s2: "switching hold t0 old ?sent (KcRefresh c # ?c # new) k2" ..
    show ?thesis
    proof (cases r2)
      case (Inl e)
      then have "k' = k2" "r = Inl e" using Cons.prems(1) d p \<open>r1 = Inr u\<close> by (simp_all add: Let_def)
      then show ?thesis using s2 by (auto simp: switching_def)
    next
      case (Inr m2)
      then have "switch_loop arm modes hold js ?sent m2 k2 = (r, k')" using Cons.prems(1) d p \<open>r1 = Inr u\<close> by (simp add: Let_def)
      from Cons.IH [OF this s2] show ?thesis by (simp add: set_mode_call_def)
    qed
  qed
qed

lemma settle_pumps_hold:
  assumes "settle_pumps arm sent n m k = (r, k')" and "switching hold t0 old sent new k"
  shows "\<exists>new'. pumps_hold hold t0 new' \<and> kx_trace k' = new' @ old \<and> set_mode_calls new' = set_mode_calls new"
  using assms
proof (induction n arbitrary: m k new)
  case 0
  then show ?case by (auto simp: switching_def)
next
  case (Suc n)
  obtain r1 k1 where p: "switch_pump arm sent m k = (r1, k1)" by fastforce
  from switching_pump [OF p Suc.prems(2)] obtain c where s: "switching hold t0 old sent (KcRefresh c # new) k1" ..
  show ?case
  proof (cases r1)
    case (Inl e)
    then have "k' = k1" using Suc.prems(1) p by simp
    then show ?thesis using s by (auto simp: switching_def)
  next
    case (Inr m1)
    then have "settle_pumps arm sent n m1 k1 = (r, k')" using Suc.prems(1) p by simp
    from Suc.IH [OF this s] show ?thesis by simp
  qed
qed

text \<open>The whole switch, on every path out of it.\<close>

lemma switch_spec:
  assumes "set_actuator_modes arm modes hold k = (r, k')" and "kx_ready k"
  shows "\<exists>new. kx_trace k' = new @ kx_trace k \<and> pumps_hold hold (held_torque k) new \<and>
    (r = Inr () \<longrightarrow> set_mode_calls new = map (set_mode_call modes) (switch_order hold))"
proof -
  let ?t = "held_torque k"
  have t: "?t = vgen (torque_due hold ?t [])" by (simp add: vec7_eq_iff torque_due_def switched_def split: option.split)
  then have s0: "switching hold ?t (kx_trace k) ?t [] k" using assms(2) by (simp add: switching_def)
  obtain r1 k1 where p: "switch_pump arm ?t 0 k = (r1, k1)" by fastforce
  from switching_pump [OF p s0] obtain c where s1: "switching hold ?t (kx_trace k) ?t [KcRefresh c] k1" ..
  show ?thesis
  proof (cases r1)
    case (Inl e)
    then have "k' = k1" "r = Inl e" using assms(1) p by (simp_all add: set_actuator_modes_def)
    then show ?thesis using s1 by (auto simp: switching_def)
  next
    case (Inr m1)
    obtain r2 k2 where l: "switch_loop arm modes hold (switch_order hold) ?t m1 k1 = (r2, k2)" by fastforce
    from switch_loop_holds [OF l s1] obtain new2 where n2: "pumps_hold hold ?t new2" "kx_trace k2 = new2 @ kx_trace k"
      "\<And>s n. r2 = Inr (s, n) \<Longrightarrow> switching hold ?t (kx_trace k) s new2 k2 \<and>
         set_mode_calls new2 = map (set_mode_call modes) (switch_order hold)" by auto
    show ?thesis
    proof (cases r2)
      case (Inl e)
      then have "k' = k2" "r = Inl e" using assms(1) p l \<open>r1 = Inr m1\<close> by (simp_all add: set_actuator_modes_def)
      then show ?thesis using n2 by auto
    next
      case (Inr q)
      obtain s n where q: "q = (s, n)" by fastforce
      have "settle_pumps arm s 10 n k2 = (r, k')" using assms(1) p l \<open>r1 = Inr m1\<close> Inr q by (simp add: set_actuator_modes_def)
      from settle_pumps_hold [OF this] n2(3) Inr q show ?thesis by metis
    qed
  qed
qed

text \<open>
  Claim C18. No joint is dropped while the actuators change mode (#92). Whatever the arm answers, and
  also when the switch ends in an exception, every cyclic command it sends makes every joint apply the
  torque measured when the switch began, until that joint's own mode has been set, and the hold's
  torque from then on; without a hold, the measured torque throughout.
\<close>

theorem switch_holds_every_joint:
  assumes "set_actuator_modes arm modes hold k = (r, k')" and "kx_ready k"
  shows "\<exists>new. kx_trace k' = new @ kx_trace k \<and>
    (\<forall>post c pre. new = post @ KcRefresh c # pre \<longrightarrow> (\<forall>i < 7. kc_torque (cm_actuators c ! i) =
       (case hold of Some h \<Rightarrow> if \<exists>m. KcSetControlMode m (i + 1) False \<in> set pre then vnth (jc_torque h) i
                                 else - ka_torque (measured k i)
        | None \<Rightarrow> - ka_torque (measured k i))))"
proof -
  obtain new where n: "kx_trace k' = new @ kx_trace k" "pumps_hold hold (held_torque k) new"
    using switch_spec [OF assms] by blast
  have t: "vnth (held_torque k) i = - ka_torque (measured k i)" if "i < 7" for i
    using assms(2) that by (simp add: held_torque_def kx_ready_def)
  have "kc_torque (cm_actuators c ! i) =
       (case hold of Some h \<Rightarrow> if \<exists>m. KcSetControlMode m (i + 1) False \<in> set pre then vnth (jc_torque h) i
                                 else - ka_torque (measured k i)
        | None \<Rightarrow> - ka_torque (measured k i))" if "new = post @ KcRefresh c # pre" "i < 7" for post c pre i
  proof -
    have "vnth (pump_torque c) i = torque_due hold (held_torque k) pre i" using n(2) that by (auto simp: pumps_hold_def)
    then show ?thesis using that(2) t [OF that(2)] by (simp add: pump_torque_def torque_due_def switched_def split: option.splits)
  qed
  then show ?thesis using n(1) by blast
qed

subsection \<open>The order of the switch\<close>

lemma set_insert_by [simp]: "set (insert_by lt x ys) = insert x (set ys)"
  by (induction ys) auto

lemma distinct_insert_by: "distinct (insert_by lt x ys) = (x \<notin> set ys \<and> distinct ys)"
  by (induction ys) auto

lemma set_sort_by [simp]: "set (sort_by lt xs) = set xs"
  by (induction xs) (simp_all add: sort_by_def)

lemma distinct_sort_by: "distinct xs \<Longrightarrow> distinct (sort_by lt xs)"
proof (induction xs)
  case (Cons x xs)
  then show ?case using set_sort_by [of lt xs] by (simp add: sort_by_def distinct_insert_by)
qed (simp add: sort_by_def)

lemma sorted_insert_by:
  assumes "\<And>a b c. lt a b \<Longrightarrow> lt b c \<Longrightarrow> lt a c" and "\<And>a b. a \<noteq> b \<Longrightarrow> lt a b \<or> lt b a"
    and "sorted_wrt lt ys" and "x \<notin> set ys"
  shows "sorted_wrt lt (insert_by lt x ys)"
  using assms(3,4)
proof (induction ys)
  case (Cons y ys)
  then show ?case using assms(1) assms(2) [of x y] by (cases "lt y x") auto
qed simp

lemma sorted_sort_by:
  assumes "\<And>a b c. lt a b \<Longrightarrow> lt b c \<Longrightarrow> lt a c" and "\<And>a b. a \<noteq> b \<Longrightarrow> lt a b \<or> lt b a" and "distinct xs"
  shows "sorted_wrt lt (sort_by lt xs)"
  using assms(3)
proof (induction xs)
  case (Cons x xs)
  then have "sorted_wrt lt (insert_by lt x (sort_by lt xs))"
    using sorted_insert_by [of lt "sort_by lt xs" x] assms(1,2) by auto
  then show ?case by (simp add: sort_by_def)
qed (simp add: sort_by_def)

text \<open>Finite torques are compared as numbers; outside the seven joints \<open>vnth\<close> repeats the last one.\<close>

lemma vnth_abs_Fin: "vfinite t \<Longrightarrow> \<exists>x. abs (vnth t a) = Fin x"
  by (cases t) (auto simp: vfinite_iff vnth_def all_less_7 isfinite_iff)

lemma lighter_trans: "vfinite t \<Longrightarrow> lighter t a b \<Longrightarrow> lighter t b c \<Longrightarrow> lighter t a c"
  using vnth_abs_Fin [of t a] vnth_abs_Fin [of t b] vnth_abs_Fin [of t c] by (auto simp: lighter_def)

lemma lighter_total: "vfinite t \<Longrightarrow> a \<noteq> b \<Longrightarrow> lighter t a b \<or> lighter t b a"
  using vnth_abs_Fin [of t a] vnth_abs_Fin [of t b] by (auto simp: lighter_def)

text \<open>
  A mode switch that returns has set every actuator exactly once, to the mode asked for it,
  and with a hold the joints that carry least come first (equal loads in joint order), so that the
  joints carrying the arm stay stiff longest.
\<close>

theorem switch_sets_each_actuator_once:
  assumes "set_actuator_modes arm modes hold k = (Inr (), k')" and "kx_ready k"
    and "\<And>h. hold = Some h \<Longrightarrow> vfinite (jc_torque h)"
  shows "\<exists>new js. kx_trace k' = new @ kx_trace k \<and> distinct js \<and> set js = {..<7} \<and>
    set_mode_calls new = map (\<lambda>j. KcSetControlMode (vnth modes j) (j + 1) False) js \<and>
    (case hold of None \<Rightarrow> js = [0..<7] | Some h \<Rightarrow> sorted_wrt (lighter (jc_torque h)) js)"
proof -
  let ?js = "switch_order hold"
  obtain new where n: "kx_trace k' = new @ kx_trace k" "set_mode_calls new = map (set_mode_call modes) ?js"
    using switch_spec [OF assms(1,2)] by blast
  have "distinct ?js" by (simp add: switch_order_def distinct_sort_by split: option.split)
  moreover have "set ?js = {..<7}" by (auto simp: switch_order_def simp del: upt_rec_numeral split: option.split)
  moreover have "case hold of None \<Rightarrow> ?js = [0..<7] | Some h \<Rightarrow> sorted_wrt (lighter (jc_torque h)) ?js"
  proof (cases hold)
    case (Some h)
    then have "sorted_wrt (lighter (jc_torque h)) (sort_by (lighter (jc_torque h)) [0..<7])"
      using assms(3) lighter_trans lighter_total by (intro sorted_sort_by) (auto simp del: upt_rec_numeral)
    then show ?thesis using Some by (simp add: switch_order_def)
  qed (simp add: switch_order_def)
  ultimately show ?thesis using n by (intro exI [of _ new] exI [of _ ?js]) (simp add: set_mode_call_def [abs_def])
qed

subsection \<open>Handing the arm back\<close>

definition revert_calls :: "kx_call list" where
  "revert_calls = map (\<lambda>dev. KcSetControlMode AmPosition dev True) [1..<8] @ [KcSetServoing SingleLevel True]"

text \<open>A call is answered when it succeeds or comes back with an error reply.\<close>

definition answers :: "kortex_arm \<Rightarrow> kx_call list \<Rightarrow> bool" where
  "answers arm h = (case ar_do arm h of None \<Rightarrow> True | Some (SeDetailed _) \<Rightarrow> True | Some _ \<Rightarrow> False)"

lemma attempt_simp: "attempt arm c k = (answers arm (c # kx_trace k), issue c k)"
  by (simp add: attempt_def answers_def issue_def Let_def split: option.split sdk_error.split)

text \<open>Issue calls in order, stopping after the first that is not answered.\<close>

fun until_silent :: "kortex_arm \<Rightarrow> kx_call list \<Rightarrow> kx_call list \<Rightarrow> bool \<times> kx_call list" where
  "until_silent arm [] h = (True, h)"
| "until_silent arm (c # cs) h = (if answers arm (c # h) then until_silent arm cs (c # h) else (False, c # h))"

lemma until_silent_append:
  "until_silent arm (cs @ ds) h = (let (ok, h1) = until_silent arm cs h in if ok then until_silent arm ds h1 else (False, h1))"
  by (induction cs arbitrary: h) auto

lemma revert_actuators_until_silent:
  "revert_actuators arm devs k =
     (let (ok, h) = until_silent arm (map (\<lambda>dev. KcSetControlMode AmPosition dev True) devs) (kx_trace k) in (ok, k\<lparr>kx_trace := h\<rparr>))"
proof (induction devs arbitrary: k)
  case (Cons dev devs)
  then show ?case by (simp add: attempt_simp Let_def issue_def split: prod.splits)
qed simp

lemma until_silent_prefix:
  "\<exists>m \<le> length cs. snd (until_silent arm cs h) = rev (take m cs) @ h \<and> (fst (until_silent arm cs h) \<longrightarrow> m = length cs) \<and>
     (\<not> fst (until_silent arm cs h) \<longrightarrow> 0 < m \<and> \<not> answers arm (rev (take m cs) @ h)) \<and>
     (\<forall>j. 0 < j \<and> j < m \<longrightarrow> answers arm (rev (take j cs) @ h))"
proof (induction cs arbitrary: h)
  case Nil
  then show ?case by simp
next
  case (Cons c cs)
  show ?case
  proof (cases "answers arm (c # h)")
    case False
    then show ?thesis by (intro exI [of _ 1]) auto
  next
    case True
    obtain m where m: "m \<le> length cs" "snd (until_silent arm cs (c # h)) = rev (take m cs) @ c # h"
      "fst (until_silent arm cs (c # h)) \<longrightarrow> m = length cs"
      "\<not> fst (until_silent arm cs (c # h)) \<longrightarrow> 0 < m \<and> \<not> answers arm (rev (take m cs) @ c # h)"
      "\<And>j. 0 < j \<and> j < m \<Longrightarrow> answers arm (rev (take j cs) @ c # h)" using Cons.IH by blast
    have "answers arm (rev (take j (c # cs)) @ h)" if "0 < j" "j < Suc m" for j
      using that True m(5) [of "j - 1"] by (cases j; cases "j - 1") auto
    then show ?thesis using True m by (intro exI [of _ "Suc m"]) auto
  qed
qed

text \<open>What the transport looks like while it is in low-level servoing.\<close>

definition kx_serving :: "kx \<Rightarrow> bool" where
  "kx_serving k \<longleftrightarrow> kx_low_level k \<and> ObActuators \<in> kx_alive k \<and> ObBase \<in> kx_alive k \<and> kx_n k = 7"

lemma release_until_silent:
  assumes "kx_serving k"
  shows "release_low_level arm k =
    (let (ok, h) = until_silent arm revert_calls (kx_trace k) in k\<lparr>kx_low_level := False, kx_trace := h, kx_unanswered := \<not> ok\<rparr>)"
  using assms
  by (auto simp: release_low_level_def kx_serving_def revert_calls_def until_silent_append revert_actuators_until_silent
      attempt_simp issue_def Let_def simp del: upt_rec_numeral split: prod.splits)

text \<open>
  How the arm is handed back. From low-level servoing the revert asks, in this order, each of
  the seven actuators for position mode and the base for single-level servoing, each call with the
  short bound. It goes on over refusals and stops at the first call that is not answered; whether
  there was one is what \<open>unanswered\<close> records; after a revert without one, every call was made. It never
  throws, the transport is no longer in low-level servoing, and asking again sends nothing.
\<close>

theorem release_stops_at_silence:
  assumes "kx_serving k"
  shows "\<exists>m \<le> 8. kx_trace (release_low_level arm k) = rev (take m revert_calls) @ kx_trace k \<and>
    (\<forall>j. 0 < j \<and> j < m \<longrightarrow> answers arm (rev (take j revert_calls) @ kx_trace k)) \<and>
    (if kx_unanswered (release_low_level arm k) then 0 < m \<and> \<not> answers arm (kx_trace (release_low_level arm k)) else m = 8) \<and>
    \<not> kx_low_level (release_low_level arm k) \<and> release_low_level arm (release_low_level arm k) = release_low_level arm k"
proof -
  obtain ok h where u: "until_silent arm revert_calls (kx_trace k) = (ok, h)" by fastforce
  have r: "release_low_level arm k = k\<lparr>kx_low_level := False, kx_trace := h, kx_unanswered := \<not> ok\<rparr>"
    using release_until_silent [OF assms] u by simp
  have again: "release_low_level arm (release_low_level arm k) = release_low_level arm k"
    unfolding r by (simp add: release_low_level_def)
  have len: "length revert_calls = 8" by (simp add: revert_calls_def)
  show ?thesis
    using until_silent_prefix [of revert_calls arm "kx_trace k"] unfolding u len again unfolding r
    by (auto split: if_split)
qed

text \<open>
  Shutting down leaves nothing behind, whatever state a failed connect or a lost arm left: no
  network object, not connected, not in low-level servoing. And it does not wait for an arm that has
  stopped answering: if the revert met silence, no session is closed.
\<close>

theorem shutdown_leaves_nothing:
  "kx_alive (safe_shutdown arm k) = {} \<and> \<not> kx_connected (safe_shutdown arm k) \<and> \<not> kx_low_level (safe_shutdown arm k) \<and>
   \<not> kx_unanswered (safe_shutdown arm k) \<and>
   (\<exists>new. kx_trace (safe_shutdown arm k) = new @ kx_trace (release_low_level arm k) \<and>
      set new \<subseteq> (if kx_unanswered (release_low_level arm k) then {} else {KcCloseSession True, KcCloseSession False}) \<union>
        {KcDisconnect True, KcDisconnect False})"
proof -
  have "\<not> kx_low_level (release_low_level arm k)"
  proof (cases "kx_low_level k")
    case True
    then show ?thesis
      by (auto simp: release_low_level_def Let_def attempt_simp issue_def revert_actuators_until_silent split: prod.splits)
  qed (simp add: release_low_level_def)
  then show ?thesis
    by (auto simp: safe_shutdown_def quietly_def issue_def Let_def)
qed

subsection \<open>The exchange\<close>

definition kx_outcome :: "joint_feedback kx_result \<Rightarrow> exchange_outcome" where
  "kx_outcome r = (case fst r of Inr fb \<Rightarrow> ExchangeOk fb | Inl (KxTimeout w) \<Rightarrow> ExchangeTimeout w | Inl e \<Rightarrow> ExchangeThrows (exn_of e))"

lemma write_gripper_frame [simp]:
  "cm_frame_id (write_gripper g c) = cm_frame_id c" "cm_actuators (write_gripper g c) = cm_actuators c"
  by (simp_all add: write_gripper_def)

lemma write_command_frame [simp]:
  "kx_n (write_command c k) = kx_n k" "kx_fb (write_command c k) = kx_fb k" "kx_trace (write_command c k) = kx_trace k"
  "kx_frame_id (write_command c k) = kx_frame_id k + 1"
  "length (cm_actuators (kx_cmd (write_command c k))) = length (cm_actuators (kx_cmd k))"
  by (simp_all add: write_command_def Let_def)

lemma write_command_nth:
  "kx_ready k \<Longrightarrow> i < 7 \<Longrightarrow> cm_actuators (kx_cmd (write_command c k)) ! i = write_actuator c (bump_frame k) i (cm_actuators (kx_cmd k) ! i)"
  by (simp add: write_command_def Let_def kx_ready_def each_actuator_nth)

lemma write_actuator_id [simp]: "kc_command_id (write_actuator c k i a) = ucast (kx_frame_id k)"
  by (simp add: write_actuator_def Let_def split: actuator_mode.split)

lemma write_command_stamped:
  assumes "kx_ready k"
  shows "stamped (kx_frame_id k + 1) (kx_cmd (write_command c k))"
proof -
  have "length (cm_actuators (kx_cmd (write_command c k))) = 7" using assms by (simp add: kx_ready_def)
  then have "kc_command_id a = ucast (kx_frame_id k + 1)" if "a \<in> set (cm_actuators (kx_cmd (write_command c k)))" for a
    using that write_command_nth [OF assms] by (auto simp: in_set_conv_nth)
  then show ?thesis by (simp add: stamped_def) (simp add: write_command_def Let_def)
qed

lemma refresh_replies:
  "refresh arm k = (let k1 = issue (KcRefresh (kx_cmd k)) k in
     case ar_cyclic arm (kx_trace k1) of
       CyFrame parses f \<Rightarrow> (if parses then Inr () else Inl (KxRuntime ''KortexTransport: unparseable BaseCyclic feedback''), k1\<lparr>kx_fb := f\<rparr>)
     | r \<Rightarrow> (Inl (the (cyclic_error r)), k1))"
  by (auto simp: refresh_def cyclic_call_def cyclic_error_def cyclic_payload_def parse_feedback_def Let_def
      split: cyclic_reply.split option.split sdk_error.split)

text \<open>
  Claim C24. What the executor counts as a missed exchange. Every exchange sends exactly one cyclic
  command, under a frame id one past the last, repeated as the command id of every actuator. The
  executor sees a timeout exactly when no reply came in time or the frame could not be sent, a feedback
  exactly when a frame came back whose payload parses, and an exception otherwise. The stored feedback
  is what the payload of the frame decodes to, also when it does not parse (then what was decoded of
  it); without a frame it stays as it was.
\<close>

theorem exchange_miss_iff:
  assumes "kx_exchange arm c fb k = Some (r, k')" and "kx_ready k"
  shows "\<exists>m. kx_trace k' = KcRefresh m # kx_trace k \<and> stamped (kx_frame_id k + 1) m \<and> kx_frame_id k' = kx_frame_id k + 1 \<and>
    (let reply = ar_cyclic arm (kx_trace k') in
     ((\<exists>w. kx_outcome (r, k') = ExchangeTimeout w) \<longleftrightarrow> reply = CyNoReply \<or> (\<exists>w. reply = CySendFails (SeRuntime w))) \<and>
     ((\<exists>fb'. kx_outcome (r, k') = ExchangeOk fb') \<longleftrightarrow> (\<exists>f. reply = CyFrame True f)) \<and>
     kx_fb k' = (case reply of CyFrame parses f \<Rightarrow> f | _ \<Rightarrow> kx_fb k))"
proof -
  let ?k = "write_command c k" and ?m = "kx_cmd (write_command c k)"
  have f: "filled (refresh arm ?k) fb = Some (r, k')" using assms(1) by (simp add: kx_exchange_def)
  have t: "kx_trace (issue (KcRefresh ?m) ?k) = KcRefresh ?m # kx_trace k" by (simp add: issue_def)
  have "kx_trace k' = KcRefresh ?m # kx_trace k \<and> kx_frame_id k' = kx_frame_id k + 1 \<and>
    (let reply = ar_cyclic arm (KcRefresh ?m # kx_trace k) in
     ((\<exists>w. kx_outcome (r, k') = ExchangeTimeout w) \<longleftrightarrow> reply = CyNoReply \<or> (\<exists>w. reply = CySendFails (SeRuntime w))) \<and>
     ((\<exists>fb'. kx_outcome (r, k') = ExchangeOk fb') \<longleftrightarrow> (\<exists>f. reply = CyFrame True f)) \<and>
     kx_fb k' = (case reply of CyFrame parses f \<Rightarrow> f | _ \<Rightarrow> kx_fb k))"
    using f unfolding refresh_replies t Let_def
    by (auto simp: filled_def kx_outcome_def issue_def cyclic_error_def
        split: cyclic_reply.splits option.splits sdk_error.splits if_splits)
  then show ?thesis using write_command_stamped [OF assms(2)] by (intro exI [of _ ?m]) (simp add: Let_def)
qed

subsection \<open>A command read back\<close>

text \<open>
  An arm that does what it is told: it reports the commanded position and velocity, the reaction to
  the commanded torque, and the commanded gripper position.
\<close>

definition obeys :: "cyclic_command \<Rightarrow> kx_feedback \<Rightarrow> bool" where
  "obeys m f \<longleftrightarrow> length (kf_actuators f) = length (cm_actuators m) \<and>
     (\<forall>i < length (cm_actuators m). ka_position (kf_actuators f ! i) = kc_position (cm_actuators m ! i) \<and>
        ka_velocity (kf_actuators f ! i) = kc_velocity (cm_actuators m ! i) \<and>
        ka_torque (kf_actuators f ! i) = - kc_torque (cm_actuators m ! i)) \<and>
     (\<forall>g. cm_gripper m = Some g \<longrightarrow> (\<exists>cur rest. kf_motors f = (mc_position g, cur) # rest))"

lemma rad_deg_roundtrip [simp]: "kRad2Deg * Fin x * kDeg2Rad = Fin x"
  using pi_r_pos(1) by (simp add: kRad2Deg_def kDeg2Rad_def M_PI_def del: pi_r_pos)

lemma finite_degrees: "isfinite x \<Longrightarrow> isfinite (x * kDeg2Rad)"
  by (elim isfiniteE) (simp add: kDeg2Rad_def M_PI_def)

lemma dbl_minus_minus [simp]: "- (- x) = (x :: dbl)"
  by (cases x) simp_all

lemma clamp01_percent: "p \<noteq> NaN \<Longrightarrow> kx_clamp01 p * kPctPerUnit / kPctPerUnit = kx_clamp01 p"
  by (cases p) (simp_all add: kx_clamp01_def kPctPerUnit_def)

text \<open>
  Claim C20. The units and signs of the wire cancel out. When the arm does what it is told, the feedback
  of the exchange is the command: in position mode the commanded angles, in velocity mode the commanded
  velocities, in torque mode the commanded torques (the arm reports reactions), and for a gripper
  command its position, saturated into [0, 1].
\<close>

theorem command_reads_back:
  assumes r: "kx_ready k" and m: "m = kx_cmd (write_command c k)"
    and reply: "ar_cyclic arm (KcRefresh m # kx_trace k) = CyFrame True f" and obeys: "obeys m f"
    and pos: "jc_mode c = AmPosition \<Longrightarrow> (\<forall>i < 7. \<exists>x. vnth (jc_position c) i = Fin x \<and> in_pi x)"
    and meas: "jc_mode c \<noteq> AmPosition \<Longrightarrow> (\<forall>i < 7. isfinite (ka_position (measured k i)))"
    and vel: "jc_mode c = AmVelocity \<Longrightarrow> vfinite (jc_velocity c)"
    and grip: "gc_position (jc_gripper c) \<noteq> NaN"
  shows "\<exists>fb' k'. kx_exchange arm c fb k = Some (Inr fb', k') \<and>
    (case jc_mode c of AmPosition \<Rightarrow> fb_q fb' = jc_position c | AmVelocity \<Rightarrow> fb_qd fb' = jc_velocity c
       | AmTorque \<Rightarrow> fb_tau fb' = jc_torque c | AmCurrent \<Rightarrow> True) \<and>
    (gc_active (jc_gripper c) \<longrightarrow> gf_present (fb_gripper fb') \<and> gf_position (fb_gripper fb') = kx_clamp01 (gc_position (jc_gripper c)))"
proof -
  let ?k = "(issue (KcRefresh m) (write_command c k))\<lparr>kx_fb := f\<rparr>"
  have ref: "refresh arm (write_command c k) = (Inr (), ?k)"
    using reply by (simp add: refresh_replies issue_def m)
  have n: "kx_n ?k = 7" "length (cm_actuators m) = 7" using r by (simp_all add: issue_def kx_ready_def m)
  have a: "measured ?k i = kf_actuators f ! i" for i by (simp add: measured_def)
  have b: "ka_position (measured ?k i) = kc_position (write_actuator c (bump_frame k) i (cm_actuators (kx_cmd k) ! i))"
    "ka_velocity (measured ?k i) = kc_velocity (write_actuator c (bump_frame k) i (cm_actuators (kx_cmd k) ! i))"
    "ka_torque (measured ?k i) = - kc_torque (write_actuator c (bump_frame k) i (cm_actuators (kx_cmd k) ! i))"
    if "i < 7" for i
    unfolding a using obeys n(2) that write_command_nth [OF r that, of c] by (simp_all add: obeys_def m)
  have mb: "measured (bump_frame k) i = measured k i" for i by (simp add: measured_def)
  have ex: "\<exists>y. (if i < 7 then wrap_to_pi (ka_position (measured ?k i) * kDeg2Rad) else Some (vnth (fb_q fb) i)) = Some y"
    if i: "i < 7" for i
  proof (cases "jc_mode c = AmPosition")
    case True
    then show ?thesis using pos i b(1) [OF i] by (auto simp: write_actuator_def Let_def rad_to_deg_def)
  next
    case False
    then have "isfinite (ka_position (measured ?k i) * kDeg2Rad)"
      using meas i b(1) [OF i] by (cases "jc_mode c") (auto simp: write_actuator_def Let_def mb intro!: finite_degrees)
    from wrap_if_finite [OF this, of True] show ?thesis using i by auto
  qed
  obtain q where q: "vgenM (\<lambda>i. if i < 7 then wrap_to_pi (ka_position (measured ?k i) * kDeg2Rad) else Some (vnth (fb_q fb) i)) = Some q"
    using vgenM_SomeI [of "\<lambda>i. if i < 7 then wrap_to_pi (ka_position (measured ?k i) * kDeg2Rad) else Some (vnth (fb_q fb) i)", OF ex]
    by blast
  obtain fb' where fb': "fill_feedback ?k fb = Some fb'" "fb_q fb' = q"
    "fb_qd fb' = fill_joint 7 (\<lambda>i. ka_velocity (measured ?k i) * kDeg2Rad) (fb_qd fb)"
    "fb_tau fb' = fill_joint 7 (\<lambda>i. - ka_torque (measured ?k i)) (fb_tau fb)" "fb_gripper fb' = gripper_reading (kf_motors f)"
    using q n(1) by (simp add: fill_feedback_def)
  have "fb_q fb' = jc_position c" if md: "jc_mode c = AmPosition"
  proof (rule vec7_eqI)
    fix i :: nat assume i: "i < 7"
    obtain x where x: "vnth (jc_position c) i = Fin x" "in_pi x" using pos [OF md] i by blast
    have "wrap_to_pi (ka_position (measured ?k i) * kDeg2Rad) = Some (vnth q i)" using q i by (auto simp: vgenM_Some_iff)
    then show "vnth (fb_q fb') i = vnth (jc_position c) i"
      using b(1) [OF i] md x i fb'(2) by (simp add: write_actuator_def Let_def rad_to_deg_def)
  qed
  moreover have "fb_qd fb' = jc_velocity c" if md: "jc_mode c = AmVelocity"
  proof (rule vec7_eqI)
    fix i :: nat assume i: "i < 7"
    obtain x where "vnth (jc_velocity c) i = Fin x" using vel [OF md] i by (auto simp: vfinite_iff isfinite_iff)
    then show "vnth (fb_qd fb') i = vnth (jc_velocity c) i"
      using b(2) [OF i] md i by (simp add: fb'(3) fill_joint_def write_actuator_def Let_def rad_to_deg_def)
  qed
  moreover have "fb_tau fb' = jc_torque c" if "jc_mode c = AmTorque"
    using b(3) that by (intro vec7_eqI) (simp add: fb'(4) fill_joint_def write_actuator_def Let_def)
  moreover have "gf_present (fb_gripper fb') \<and> gf_position (fb_gripper fb') = kx_clamp01 (gc_position (jc_gripper c))" if "gc_active (jc_gripper c)"
  proof -
    have "\<exists>g. cm_gripper m = Some g \<and> mc_position g = kx_clamp01 (gc_position (jc_gripper c)) * kPctPerUnit"
      using that by (simp add: m write_command_def write_gripper_def Let_def)
    then obtain cur rest where "kf_motors f = (kx_clamp01 (gc_position (jc_gripper c)) * kPctPerUnit, cur) # rest"
      using obeys by (auto simp: obeys_def)
    then show ?thesis using clamp01_percent [OF grip] by (simp add: fb'(5) gripper_reading_def Let_def)
  qed
  moreover have "kx_exchange arm c fb k = Some (Inr fb', ?k)" by (simp add: kx_exchange_def filled_def ref fb'(1))
  ultimately show ?thesis by (cases "jc_mode c") auto
qed

subsection \<open>Connecting\<close>

lemma open_session_error: "open_session arm k = (Inl e, k') \<Longrightarrow> (\<exists>w. e = KxRuntime w) \<or> e = KxOther"
  by (auto simp: open_session_def sdk_do_def issue_def Let_def kx_then_def raw_error_def split: option.splits sdk_error.splits)

lemma probe_call:
  "probe arm dev k = (r, k') \<Longrightarrow> k' = issue (KcGetControlMode dev) k \<and> (\<forall>w. r \<noteq> Inl (KxInvalid w)) \<and> (\<forall>w. r \<noteq> Inl (KxRejected w))"
  by (auto simp: probe_def probe_error_def sdk_do_def rpc_error_def Let_def split: option.splits sdk_error.splits if_splits)

lemma probe_all_calls:
  assumes "probe_all arm devs k = (r, k')"
  shows "kx_n k' = kx_n k \<and> kx_alive k' = kx_alive k \<and> (\<forall>w. r \<noteq> Inl (KxInvalid w)) \<and> (\<forall>w. r \<noteq> Inl (KxRejected w)) \<and>
    (kx_trace k' = kx_trace k \<and> devs = [] \<or> (\<exists>dev h. kx_trace k' = KcGetControlMode dev # h))"
  using assms
proof (induction devs arbitrary: k)
  case (Cons dev devs)
  obtain r1 k1 where p: "probe arm dev k = (r1, k1)" by fastforce
  note c = probe_call [OF p]
  show ?case
  proof (cases r1)
    case (Inl e)
    then show ?thesis using Cons.prems p c by (auto simp: issue_def)
  next
    case (Inr u)
    then have "probe_all arm devs k1 = (r, k')" using Cons.prems p by simp
    from Cons.IH [OF this] show ?thesis using c by (auto simp: issue_def)
  qed
qed auto

lemma open_session_trace:
  "open_session arm k = (r, k') \<Longrightarrow> \<exists>c h. kx_trace k' = c # h \<and> c \<noteq> KcActuatorCount"
  by (auto simp: open_session_def sdk_do_def issue_def create_def Let_def kx_then_def split: option.splits)

lemma open_session_alive: "open_session arm k = (Inr (), k') \<Longrightarrow> kx_alive k' = UNIV"
  by (auto simp: open_session_def sdk_do_def issue_def create_def Let_def kx_then_def split: option.splits) (metis kx_object.exhaust)

lemma check_count_cases:
  "check_count n k = (if n = 7 then (Inr (), k\<lparr>kx_n := n\<rparr>)
     else (Inl (if n = 0 then KxRuntime ''KortexTransport: the arm reports no actuators yet (still booting?)''
                else KxInvalid ''KortexTransport: wrong number of actuators''), k\<lparr>kx_n := n\<rparr>))"
  by (simp add: check_count_def Let_def)

lemma connect_routed_outcome:
  assumes "connect_routed arm k = (r, k')"
  shows "((\<exists>w. r = Inl (KxInvalid w)) \<longleftrightarrow>
      (\<exists>h n. kx_trace k' = KcActuatorCount # h \<and> ar_count arm (KcActuatorCount # h) = Inr n \<and> n \<noteq> 0 \<and> n \<noteq> 7)) \<and>
    (r = Inr () \<longrightarrow> kx_connected k' \<and> kx_alive k' = UNIV \<and> kx_n k' = 7)"
proof -
  obtain r1 k1 where o: "open_session arm k = (r1, k1)" by fastforce
  let ?k2 = "issue KcActuatorCount k1"
  show ?thesis
  proof (cases r1)
    case (Inl e)
    then show ?thesis using assms o open_session_error [of arm k e k1] open_session_trace [OF o] by (auto simp: connect_routed_def)
  next
    case (Inr u)
    note ok = o [unfolded Inr]
    show ?thesis
    proof (cases "ar_count arm (kx_trace ?k2)")
      case (Inl e)
      then have "r = Inl (rpc_error e)" "k' = ?k2" using assms ok by (simp_all add: connect_routed_def sdk_get_def Let_def)
      then show ?thesis using Inl by (auto simp: rpc_error_def issue_def split: sdk_error.splits if_splits)
    next
      case (Inr n)
      show ?thesis
      proof (cases "n = 7")
        case False
        then have "k' = ?k2\<lparr>kx_n := n\<rparr>" "(\<exists>w. r = Inl (KxInvalid w)) \<longleftrightarrow> n \<noteq> 0" "r \<noteq> Inr ()"
          using assms ok Inr by (auto simp: connect_routed_def sdk_get_def Let_def check_count_cases split: if_splits)
        then show ?thesis using Inr False by (auto simp: issue_def)
      next
        case True
        obtain r3 k3 where p: "probe_all arm [1..<7 + 1] (?k2\<lparr>kx_n := 7\<rparr>) = (r3, k3)" by fastforce
        have c: "connect_routed arm k = kx_then (r3, k3) (\<lambda>_ k. (Inr (), k\<lparr>kx_connected := True\<rparr>))"
          using ok Inr True p by (simp add: connect_routed_def sdk_get_def Let_def check_count_cases del: upt_rec_numeral upt_Suc)
        have t: "\<exists>dev h. kx_trace k3 = KcGetControlMode dev # h" using probe_all_calls [OF p] by (auto simp del: upt_rec_numeral)
        have n3: "kx_n k3 = 7 \<and> kx_alive k3 = UNIV"
          using probe_all_calls [OF p] open_session_alive [of arm k k1] ok by (simp add: issue_def)
        show ?thesis
        proof (cases r3)
          case (Inl e)
          then show ?thesis using c assms t probe_all_calls [OF p] by auto
        next
          case (Inr u)
          then show ?thesis using c assms t n3 by auto
        qed
      qed
    qed
  qed
qed

text \<open>
  Which connect failures are worth retrying. A connect throws the exception that makes the link
  give up exactly when the configured address is no IPv4 address, or the arm, reached over a direct
  route, itself reports a number of actuators other than none and seven; everything else, a missing
  route or an arm that is still booting included, throws one it retries. A connect that returns found
  a direct route and has every network object, seven actuators, and is connected.
\<close>

theorem connect_gives_up_iff:
  assumes "kx_connect nw ip arm k = (r, k')"
  shows "((\<exists>w. r = Inl (KxInvalid w)) \<longleftrightarrow> net_pton nw ip = None \<or>
      arm_route_problem nw ip = Inr [] \<and>
      (\<exists>h n. kx_trace k' = KcActuatorCount # h \<and> ar_count arm (KcActuatorCount # h) = Inr n \<and> n \<noteq> 0 \<and> n \<noteq> 7)) \<and>
    (r = Inr () \<longrightarrow> arm_route_problem nw ip = Inr [] \<and> kx_connected k' \<and> kx_alive k' = UNIV \<and> kx_n k' = 7)"
proof (cases rule: kx_connect_cases [of nw ip arm k])
  case (bad_address w)
  then show ?thesis using assms by auto
next
  case (no_route p)
  then show ?thesis using assms by auto
next
  case routed
  then have "connect_routed arm k = (r, k')" "net_pton nw ip \<noteq> None" using assms by simp_all
  then show ?thesis using routed(2) connect_routed_outcome [of arm k r k'] by blast
qed

subsection \<open>An obedient arm\<close>

text \<open>It answers every call, has seven actuators, and echoes each command.\<close>

definition echo :: "cyclic_command \<Rightarrow> kx_feedback" where
  "echo m = \<lparr>kf_frame_id = cm_frame_id m,
     kf_actuators = map (\<lambda>a. \<lparr>ka_position = kc_position a, ka_velocity = kc_velocity a, ka_torque = - kc_torque a,
        ka_current = kc_current a, ka_fault_a = 0, ka_fault_b = 0\<rparr>) (cm_actuators m),
     kf_base_fault_a = 0, kf_base_fault_b = 0, kf_state = AsServoingLowLevel,
     kf_motors = (case cm_gripper m of None \<Rightarrow> [] | Some g \<Rightarrow> [(mc_position g, Fin 0)])\<rparr>"

definition demo_arm :: kortex_arm where
  "demo_arm = \<lparr>ar_do = (\<lambda>h. None), ar_count = (\<lambda>h. Inr 7), ar_state = (\<lambda>h. Inr AsOther),
     ar_cyclic = (\<lambda>h. case h of KcRefresh m # _ \<Rightarrow> CyFrame True (echo m) | _ \<Rightarrow> CyFrame True kx_feedback0)\<rparr>"

definition demo_kx :: kx where
  "demo_kx = kx_init\<lparr>kx_alive := UNIV, kx_n := 7, kx_connected := True, kx_low_level := True,
     kx_fb := kx_feedback0\<lparr>kf_actuators := replicate 7 \<lparr>ka_position = Fin 0, ka_velocity = Fin 0, ka_torque = Fin (-1),
        ka_current = Fin 0, ka_fault_a = 0, ka_fault_b = 0\<rparr>\<rparr>,
     kx_cmd := cyclic_command0\<lparr>cm_actuators := replicate 7 kx_actuator_cmd0\<rparr>\<rparr>"

lemma demo_kx_ready: "kx_ready demo_kx" "kx_serving demo_kx"
  by (simp_all add: kx_ready_def kx_serving_def demo_kx_def kx_init_def cyclic_command0_def)

definition demo_hold :: joint_command where
  "demo_hold = joint_command0\<lparr>jc_torque := V7 (Fin 1) (Fin 20) (Fin 2) (Fin 9) (Fin 1) (Fin 3) (Fin 0),
     jc_gripper := gripper_command0\<lparr>gc_position := Fin 2, gc_active := True\<rparr>\<rparr>"

lemma switch_returns: "\<exists>k'. set_actuator_modes demo_arm modes hold k = (Inr (), k')"
proof -
  have refresh: "\<exists>k'. refresh demo_arm k = (Inr (), k')" for k by (simp add: refresh_replies demo_arm_def issue_def Let_def)
  have pump: "\<exists>k'. switch_pump demo_arm t m k = (Inr 0, k')" for t m k
    using refresh [of "load_pump t k"] by (auto simp: switch_pump_def kx_pump_def)
  have set_call: "sdk_do rpc_error demo_arm c k = (Inr (), issue c k)" for c k by (simp add: sdk_do_def demo_arm_def Let_def)
  have loop: "\<exists>q k'. switch_loop demo_arm modes hold js t m k = (Inr q, k')" for js t m k
  proof (induction js arbitrary: t m k)
    case (Cons j js)
    obtain k1 where "switch_pump demo_arm (sent_after hold j t) m (issue (KcSetControlMode (vnth modes j) (j + 1) False) k) = (Inr 0, k1)"
      using pump by blast
    then show ?case using Cons.IH [of "sent_after hold j t" 0 k1] by (simp add: set_call Let_def)
  qed simp
  have settle: "\<exists>k'. settle_pumps demo_arm t n m k = (Inr (), k')" for t n m k
  proof (induction n arbitrary: m k)
    case (Suc n)
    obtain k1 where "switch_pump demo_arm t m k = (Inr 0, k1)" using pump by blast
    then show ?case using Suc.IH [of 0 k1] by simp
  qed simp
  obtain k1 where p: "switch_pump demo_arm (held_torque k) 0 k = (Inr 0, k1)" using pump by blast
  obtain q k2 where l: "switch_loop demo_arm modes hold (switch_order hold) (held_torque k) 0 k1 = (Inr q, k2)" using loop by blast
  obtain k3 where "settle_pumps demo_arm (fst q) 10 (snd q) k2 = (Inr (), k3)" using settle by blast
  then show ?thesis using p l by (cases q) (simp add: set_actuator_modes_def)
qed

theorem switch_holds_every_joint_witness:
  "\<exists>(k' :: kx) new. kx_trace k' = new @ kx_trace demo_kx \<and>
    (\<forall>post c pre. new = post @ KcRefresh c # pre \<longrightarrow> (\<forall>i < 7. kc_torque (cm_actuators c ! i) =
       (case Some demo_hold of Some h \<Rightarrow> if \<exists>m. KcSetControlMode m (i + 1) False \<in> set pre then vnth (jc_torque h) i
                                 else - ka_torque (measured demo_kx i)
        | None \<Rightarrow> - ka_torque (measured demo_kx i))))"
proof -
  obtain k' where "set_actuator_modes demo_arm (vconst AmTorque) (Some demo_hold) demo_kx = (Inr (), k')" using switch_returns by blast
  from switch_holds_every_joint [OF this demo_kx_ready(1)] show ?thesis by (rule exI)
qed

theorem switch_sets_each_actuator_once_witness:
  "\<exists>(k' :: kx) new js. kx_trace k' = new @ kx_trace demo_kx \<and> distinct js \<and> set js = {..<7} \<and>
    set_mode_calls new = map (\<lambda>j. KcSetControlMode (vnth (vconst AmTorque) j) (j + 1) False) js \<and>
    sorted_wrt (lighter (jc_torque demo_hold)) js"
proof -
  obtain k' where s: "set_actuator_modes demo_arm (vconst AmTorque) (Some demo_hold) demo_kx = (Inr (), k')" using switch_returns by blast
  have "vfinite (jc_torque h)" if "Some demo_hold = Some h" for h
    using that by (auto simp: demo_hold_def vfinite_iff all_less_7)
  from switch_sets_each_actuator_once [OF s demo_kx_ready(1) this] show ?thesis by auto
qed

theorem release_stops_at_silence_witness:
  "\<exists>m \<le> 8. kx_trace (release_low_level demo_arm demo_kx) = rev (take m revert_calls) @ kx_trace demo_kx \<and>
    \<not> kx_low_level (release_low_level demo_arm demo_kx)"
  using release_stops_at_silence [OF demo_kx_ready(2), of demo_arm] by blast

lemma demo_obeys: "obeys m (echo m)"
  by (auto simp: obeys_def echo_def split: option.split)

theorem command_reads_back_witness:
  "\<exists>fb' k'. kx_exchange demo_arm demo_hold joint_feedback0 demo_kx = Some (Inr fb', k') \<and>
    fb_tau fb' = V7 (Fin 1) (Fin 20) (Fin 2) (Fin 9) (Fin 1) (Fin 3) (Fin 0) \<and> gf_position (fb_gripper fb') = Fin 1"
proof -
  let ?m = "kx_cmd (write_command demo_hold demo_kx)"
  have "ar_cyclic demo_arm (KcRefresh ?m # kx_trace demo_kx) = CyFrame True (echo ?m)" by (simp add: demo_arm_def)
  moreover have "\<forall>i < 7. isfinite (ka_position (measured demo_kx i))" by (simp add: measured_def demo_kx_def)
  ultimately show ?thesis
    using command_reads_back [OF demo_kx_ready(1) refl _ demo_obeys, of demo_arm demo_hold joint_feedback0]
    by (auto simp: demo_hold_def joint_command0_def kx_clamp01_def)
qed

text \<open>The same arm, but it sends back frames that decode only in part.\<close>

definition garbled_arm :: kortex_arm where
  "garbled_arm = demo_arm\<lparr>ar_cyclic := (\<lambda>h. CyFrame False kx_feedback0)\<rparr>"

theorem exchange_miss_iff_witness:
  "\<exists>r (k' :: kx) m. kx_exchange garbled_arm demo_hold joint_feedback0 demo_kx = Some (r, k') \<and> stamped 1 m \<and>
     kx_trace k' = KcRefresh m # kx_trace demo_kx \<and> (\<nexists>w. kx_outcome (r, k') = ExchangeTimeout w) \<and>
     (\<nexists>fb. kx_outcome (r, k') = ExchangeOk fb) \<and> kx_fb k' = kx_feedback0"
proof -
  obtain r k' where e: "kx_exchange garbled_arm demo_hold joint_feedback0 demo_kx = Some (r, k')"
    by (simp add: kx_exchange_def refresh_replies garbled_arm_def Let_def filled_def)
  have "kx_frame_id demo_kx + 1 = 1" by (simp add: demo_kx_def kx_init_def)
  with exchange_miss_iff [OF e demo_kx_ready(1)] e show ?thesis
    by (intro exI [of _ r] exI [of _ k']) (auto simp: garbled_arm_def Let_def)
qed

text \<open>One interface, on the arm's network.\<close>

definition demo_net :: net where
  "demo_net = \<lparr>net_pton = (\<lambda>s. if s = ''192.168.1.10'' then Some 0x0A01A8C0 else None), net_ntop = (\<lambda>a. None), net_socket = None,
     net_source = (\<lambda>a. Inr 0x0B01A8C0),
     net_ifaces = Inr [\<lparr>if_name = ''eth0'', if_addr = Some 0x0B01A8C0, if_netmask = Some 0x00FFFFFF, if_running = True\<rparr>]\<rparr>"

lemma demo_route: "arm_route_problem demo_net ''192.168.1.10'' = Inr []"
  by (simp add: arm_route_problem_def demo_net_def)

lemma demo_connects:
  "\<exists>k'. kx_connect demo_net ''192.168.1.10'' demo_arm kx_init = (Inr (), k')"
proof -
  have call: "sdk_do err demo_arm c k = (Inr (), issue c k)" for err c k by (simp add: sdk_do_def demo_arm_def Let_def)
  have "probe demo_arm dev k = (Inr (), issue (KcGetControlMode dev) k)" for dev k by (simp add: probe_def call)
  then have probes: "\<exists>k'. probe_all demo_arm devs k = (Inr (), k')" for devs k by (induction devs arbitrary: k) simp_all
  obtain k1 where o: "open_session demo_arm kx_init = (Inr (), k1)" by (simp add: open_session_def call)
  have g: "sdk_get (ar_count demo_arm) KcActuatorCount k1 = (Inr 7, issue KcActuatorCount k1)"
    by (simp add: sdk_get_def demo_arm_def Let_def)
  obtain k2 where "probe_all demo_arm [1..<7 + 1] ((issue KcActuatorCount k1)\<lparr>kx_n := 7\<rparr>) = (Inr (), k2)" using probes by blast
  then show ?thesis
    by (simp add: kx_connect_def demo_route connect_routed_def o g check_count_cases del: upt_rec_numeral upt_Suc)
qed

theorem connect_gives_up_iff_witness:
  "\<exists>k'. kx_connect demo_net ''192.168.1.10'' demo_arm kx_init = (Inr (), k') \<and> kx_connected k' \<and> kx_alive k' = UNIV \<and> kx_n k' = 7"
  using demo_connects connect_gives_up_iff by blast

end
