(* ===== verification/Kortex_Handover.thy ===== *)
theory Kortex_Handover
  imports Kortex_Safety "HOL-Library.Sublist"
begin

section \<open>What is owed to the arm\<close>

text \<open>
  What the calls made so far (\<open>kx_trace\<close>) say about the servoing mode of the base: which calls of the
  revert are still to be made. And what each operation of the transport keeps: the network objects, the
  flags, the size of the command message, the debt, the feedback.
\<close>

subsection \<open>The debt\<close>

text \<open>
  From the moment the base grants low-level servoing the whole revert is owed: seven actuators back to
  position mode, then the base back to single-level servoing. A call pays for itself when it is made in
  its turn; the first one that is not answered excuses the rest.
\<close>

fun owed :: "kortex_arm \<Rightarrow> kx_call list \<Rightarrow> kx_call list" where
  "owed arm [] = []"
| "owed arm (c # h) =
     (if c = KcSetServoing LowLevel False then (if ar_do arm (c # h) = None then revert_calls else owed arm h)
      else (case owed arm h of [] \<Rightarrow> []
            | d # ds \<Rightarrow> if c \<noteq> d then d # ds else if answers arm (c # h) then ds else []))"

definition settles :: "kx_call \<Rightarrow> bool" where
  "settles c \<longleftrightarrow> c = KcSetServoing LowLevel False \<or> c \<in> set revert_calls"

lemma owed_subset: "set (owed arm h) \<subseteq> set revert_calls"
proof (induction h)
  case (Cons c h)
  then show ?case by (cases "owed arm h") auto
qed simp

lemma owed_other: "\<not> settles c \<Longrightarrow> owed arm (c # h) = owed arm h"
  using owed_subset [of arm h] by (auto simp: settles_def split: list.split)

lemma owed_others: "\<forall>c \<in> set new. \<not> settles c \<Longrightarrow> owed arm (new @ h) = owed arm h"
  by (induction new) (auto simp: owed_other simp del: owed.simps(2))

lemma not_settles [simp]:
  "\<not> settles (KcRefresh m)" "\<not> settles (KcRefreshCommand m)" "\<not> settles KcRefreshFeedback" "\<not> settles KcClearFaults"
  "\<not> settles KcArmState" "\<not> settles KcActuatorCount" "\<not> settles (KcGetControlMode d)" "\<not> settles (KcSetControlMode a d False)"
  "\<not> settles (KcCloseSession b)" "\<not> settles (KcDisconnect b)" "\<not> settles KcConnectTcp" "\<not> settles KcConnectUdp"
  "\<not> settles (KcCreateSession b)"
  by (auto simp: settles_def revert_calls_def)

lemma owed_until_silent:
  assumes "owed arm h = cs" and "set cs \<subseteq> set revert_calls"
  shows "owed arm (snd (until_silent arm cs h)) = []"
  using assms
proof (induction cs arbitrary: h)
  case (Cons c cs)
  then have "c \<noteq> KcSetServoing LowLevel False" by (auto simp: revert_calls_def)
  then have "owed arm (c # h) = (if answers arm (c # h) then cs else [])" using Cons.prems(1) by simp
  then show ?case using Cons by (auto simp del: owed.simps(2))
qed simp

text \<open>
  A debt that is paid: since the grant the calls of the revert were made in order, all eight of them or
  up to one that was not answered.
\<close>

lemma owed_since_grant:
  assumes "ar_do arm (KcSetServoing LowLevel False # pre) = None" and "KcSetServoing LowLevel False \<notin> set post"
  shows "\<exists>m \<le> 8. subseq (take m revert_calls) (rev post) \<and>
    (owed arm (post @ KcSetServoing LowLevel False # pre) = drop m revert_calls \<or>
     owed arm (post @ KcSetServoing LowLevel False # pre) = [] \<and>
       (\<exists>new. suffix new post \<and> 0 < m \<and> new \<noteq> [] \<and> hd new = revert_calls ! (m - 1) \<and>
          \<not> answers arm (new @ KcSetServoing LowLevel False # pre)))"
  using assms(2)
proof (induction post)
  case Nil
  then show ?case using assms(1) by (intro exI [of _ 0]) simp
next
  case (Cons c post)
  let ?h = "post @ KcSetServoing LowLevel False # pre"
  obtain m where m: "m \<le> 8" "subseq (take m revert_calls) (rev post)"
    and o: "owed arm ?h = drop m revert_calls \<or> owed arm ?h = [] \<and>
      (\<exists>new. suffix new post \<and> 0 < m \<and> new \<noteq> [] \<and> hd new = revert_calls ! (m - 1) \<and> \<not> answers arm (new @ KcSetServoing LowLevel False # pre))"
    using Cons by auto
  have c: "c \<noteq> KcSetServoing LowLevel False" using Cons.prems by auto
  have sub: "subseq (take m revert_calls) (rev (c # post))" using m(2) by (simp add: subseq_append_iff) (metis append_Nil2 list_emb_Nil)
  have len: "length revert_calls = 8" by (simp add: revert_calls_def)
  show ?case
  proof (cases "owed arm ?h")
    case Nil
    then have "owed arm ((c # post) @ KcSetServoing LowLevel False # pre) = []" using c by simp
    then show ?thesis using m sub o Nil len
      by (intro exI [of _ m]) (auto intro: suffix_ConsI)
  next
    case (Cons d ds)
    then have d: "drop m revert_calls = d # ds" using o by auto
    then have m8: "m < 8" using len by (cases "m < 8") auto
    then have ml: "m < 8" "d = revert_calls ! m" "ds = drop (Suc m) revert_calls"
      using d Cons_nth_drop_Suc [of m revert_calls] len by simp_all
    show ?thesis
    proof (cases "c = d")
      case False
      then show ?thesis using c Cons d m sub by (intro exI [of _ m]) simp
    next
      case True
      have t: "take (Suc m) revert_calls = take m revert_calls @ [d]" using ml len by (simp add: take_Suc_conv_app_nth)
      have s2: "subseq (take (Suc m) revert_calls) (rev (c # post))" unfolding t using m(2) True by (simp add: list_emb_append_mono)
      show ?thesis
      proof (cases "answers arm (c # ?h)")
        case True
        then show ?thesis using c Cons \<open>c = d\<close> ml s2 by (intro exI [of _ "Suc m"]) simp
      next
        case False
        then show ?thesis using c Cons \<open>c = d\<close> ml s2
          by (intro exI [of _ "Suc m"] conjI disjI2 exI [of _ "c # post"]) simp_all
      qed
    qed
  qed
qed

subsection \<open>What the transport's operations keep\<close>

text \<open>The feedback is a whole one, sent by the arm.\<close>

definition heard :: "kortex_arm \<Rightarrow> kx \<Rightarrow> bool" where
  "heard arm k \<longleftrightarrow> (\<exists>h. ar_cyclic arm h = CyFrame True (kx_fb k))"

text \<open>The same objects and sizes; the same flag and message size too; the same debt too.\<close>

definition kept_net :: "kx \<Rightarrow> kx \<Rightarrow> bool" where
  "kept_net k k' \<longleftrightarrow> kx_alive k' = kx_alive k \<and> kx_n k' = kx_n k \<and> kx_connected k' = kx_connected k"

definition kept_flags :: "kx \<Rightarrow> kx \<Rightarrow> bool" where
  "kept_flags k k' \<longleftrightarrow> kept_net k k' \<and> kx_low_level k' = kx_low_level k \<and>
     length (cm_actuators (kx_cmd k')) = length (cm_actuators (kx_cmd k))"

definition kept_wire :: "kortex_arm \<Rightarrow> kx \<Rightarrow> kx \<Rightarrow> bool" where
  "kept_wire arm k k' \<longleftrightarrow> kept_flags k k' \<and> owed arm (kx_trace k') = owed arm (kx_trace k)"

lemmas kept_defs = kept_wire_def kept_flags_def kept_net_def

lemma kept_wire_refl [simp]: "kept_wire arm k k"
  by (simp add: kept_defs)

lemma kept_flags_refl [simp]: "kept_flags k k"
  by (simp add: kept_defs)

lemma kept_wire_trans: "kept_wire arm k1 k2 \<Longrightarrow> kept_wire arm k2 k3 \<Longrightarrow> kept_wire arm k1 k3"
  by (auto simp: kept_defs)

lemma kept_net_trans: "kept_net k1 k2 \<Longrightarrow> kept_net k2 k3 \<Longrightarrow> kept_net k1 k3"
  by (simp add: kept_net_def)

lemma kept_flags_trans: "kept_flags k1 k2 \<Longrightarrow> kept_flags k2 k3 \<Longrightarrow> kept_flags k1 k3"
  by (simp add: kept_flags_def kept_net_def)

lemma kept_wire_net: "kept_wire arm k k' \<Longrightarrow> kept_net k k'"
  by (simp add: kept_wire_def kept_flags_def)

lemma kept_flags_issue [simp]: "kept_flags k (issue c k)"
  by (simp add: kept_defs issue_def)

lemma kept_issue [simp]: "\<not> settles c \<Longrightarrow> kept_wire arm k (issue c k)"
  by (simp add: kept_defs issue_def owed_other del: owed.simps(2))

lemma kept_sdk_do: "sdk_do err arm c k = (r, k') \<Longrightarrow> \<not> settles c \<Longrightarrow> kept_wire arm k k'"
  by (auto simp: sdk_do_def Let_def split: option.splits)

lemma kept_set_mode: "sdk_do err arm (KcSetControlMode a d False) k = (r, k') \<Longrightarrow> kept_wire arm k k'"
  by (rule kept_sdk_do [OF _ not_settles(8)])

lemma kept_sdk_get: "sdk_get reply c k = (r, k') \<Longrightarrow> \<not> settles c \<Longrightarrow> kept_wire arm k k'"
  by (auto simp: sdk_get_def Let_def split: sum.splits)

lemma kept_cyclic_call: "cyclic_call arm c k = (r, k') \<Longrightarrow> \<not> settles c \<Longrightarrow> kept_wire arm k k'"
  by (auto simp: cyclic_call_def Let_def split: option.splits)

lemma kept_parse: "parse_feedback p k = (r, k') \<Longrightarrow> kept_wire arm k k'"
  by (auto simp: parse_feedback_def kept_defs split: prod.splits)

lemma kept_thenE:
  assumes "kx_then r f = (s, k')" and "\<And>a k1. r = (Inr a, k1) \<Longrightarrow> f a k1 = (s, k') \<Longrightarrow> P"
    and "\<And>e k1. r = (Inl e, k1) \<Longrightarrow> s = Inl e \<Longrightarrow> k' = k1 \<Longrightarrow> P"
  shows P
  using assms by (auto simp: kx_then_def split: prod.splits sum.splits)

lemma kept_call_parse: "kx_then (cyclic_call arm c k) parse_feedback = (r, k') \<Longrightarrow> \<not> settles c \<Longrightarrow> kept_wire arm k k'"
  by (elim kept_thenE) (blast intro: kept_wire_trans kept_cyclic_call kept_parse)+

lemma kept_refresh: "refresh arm k = (r, k') \<Longrightarrow> kept_wire arm k k'"
  unfolding refresh_def by (rule kept_call_parse [OF _ not_settles(1)])

lemma kept_load_pump [simp]: "kept_wire arm k (load_pump t k)"
  by (simp add: kept_defs load_pump_def bump_frame_def each_actuator_def Let_def)

lemma kept_write [simp]: "kept_wire arm k (write_command c k)"
  by (simp add: kept_defs write_command_def write_gripper_def bump_frame_def each_actuator_def Let_def)

lemma kept_pump: "kx_pump arm t k = (r, k') \<Longrightarrow> kept_wire arm k k'"
  unfolding kx_pump_def using kept_refresh kept_load_pump kept_wire_trans by blast

lemma kept_switch_pump: "switch_pump arm t m k = (r, k') \<Longrightarrow> kept_wire arm k k'"
  using kept_pump [of arm t k] by (cases "kx_pump arm t k") (auto simp: switch_pump_def split: sum.splits kx_error.splits if_splits)

lemma kept_switch_loop: "switch_loop arm modes hold js sent m k = (r, k') \<Longrightarrow> kept_wire arm k k'"
proof (induction js arbitrary: sent m k)
  case (Cons j js)
  from Cons.prems show ?case
    unfolding switch_loop.simps Let_def
    by (elim kept_thenE) (blast intro: kept_wire_trans kept_set_mode kept_switch_pump Cons.IH)+
qed simp

lemma kept_settle_pumps: "settle_pumps arm sent n m k = (r, k') \<Longrightarrow> kept_wire arm k k'"
proof (induction n arbitrary: m k)
  case (Suc n)
  from Suc.prems show ?case
    unfolding settle_pumps.simps by (elim kept_thenE) (blast intro: kept_wire_trans kept_switch_pump Suc.IH)+
qed simp

lemma kept_set_actuator_modes: "set_actuator_modes arm modes hold k = (r, k') \<Longrightarrow> kept_wire arm k k'"
  unfolding set_actuator_modes_def
  by (elim kept_thenE; (simp only: prod.case split_paired_all)?)
    (blast intro: kept_wire_trans kept_switch_pump kept_switch_loop kept_settle_pumps dest: sym)+

lemma kept_exchange: "kx_exchange arm c fb k = Some (r, k') \<Longrightarrow> kept_wire arm k k'"
  using kept_refresh [of arm "write_command c k"] kept_wire_trans [OF kept_write [of arm k c]]
  by (cases "refresh arm (write_command c k)") (auto simp: kx_exchange_def filled_def split: sum.splits)

lemma kept_receive: "kx_receive arm fb k = Some (r, k') \<Longrightarrow> kept_wire arm k k'"
  using kept_call_parse [of arm KcRefreshFeedback k]
  by (cases "kx_then (cyclic_call arm KcRefreshFeedback k) parse_feedback") (auto simp: kx_receive_def filled_def split: sum.splits)

lemma kept_arm_in_fault: "arm_in_fault arm k = (r, k') \<Longrightarrow> kept_wire arm k k'"
  using kept_sdk_get [of "ar_state arm" KcArmState k]
  by (cases "sdk_get (ar_state arm) KcArmState k") (auto simp: arm_in_fault_def kx_then_def split: if_splits sum.splits)

subsection \<open>The feedback\<close>

text \<open>After a whole feedback, or a loss that is tolerated, the stored feedback is a whole one.\<close>

definition tolerated :: "kx_error + 'a \<Rightarrow> bool" where
  "tolerated r \<longleftrightarrow> (case r of Inl (KxTimeout _) \<Rightarrow> True | Inl _ \<Rightarrow> False | Inr _ \<Rightarrow> True)"

lemma heard_refresh:
  assumes "refresh arm k = (r, k')"
  shows "(r = Inr () \<longrightarrow> heard arm k') \<and> (tolerated r \<longrightarrow> heard arm k \<longrightarrow> heard arm k')"
  using assms unfolding refresh_replies Let_def
  by (auto simp: heard_def tolerated_def issue_def split: cyclic_reply.splits if_splits)

lemma heard_same: "kx_fb k' = kx_fb k \<Longrightarrow> heard arm k' = heard arm k"
  by (simp add: heard_def)

lemma heard_pump: "kx_pump arm t k = (r, k') \<Longrightarrow> tolerated r \<Longrightarrow> heard arm k \<Longrightarrow> heard arm k'"
  using heard_refresh [of arm "load_pump t k" r k'] heard_same [of "load_pump t k" k arm]
  by (simp add: kx_pump_def load_pump_def Let_def)

lemma heard_switch_pump: "switch_pump arm t m k = (Inr x, k') \<Longrightarrow> heard arm k \<Longrightarrow> heard arm k'"
  using heard_pump [of arm t k] by (cases "kx_pump arm t k")
    (auto simp: switch_pump_def tolerated_def split: sum.splits kx_error.splits if_splits)

lemma heard_sdk_do: "sdk_do err arm c k = (r, k') \<Longrightarrow> heard arm k' = heard arm k"
  by (auto simp: sdk_do_def issue_def heard_def Let_def split: option.splits)

lemma heard_switch_loop: "switch_loop arm modes hold js sent m k = (Inr x, k') \<Longrightarrow> heard arm k \<Longrightarrow> heard arm k'"
proof (induction js arbitrary: sent m k)
  case (Cons j js)
  from Cons.prems show ?case
    unfolding switch_loop.simps Let_def
    by (elim kept_thenE) (metis Cons.IH heard_sdk_do heard_switch_pump, simp_all)
qed simp

lemma heard_settle_pumps: "settle_pumps arm sent n m k = (Inr x, k') \<Longrightarrow> heard arm k \<Longrightarrow> heard arm k'"
proof (induction n arbitrary: m k)
  case (Suc n)
  from Suc.prems show ?case
    unfolding settle_pumps.simps by (elim kept_thenE) (metis Suc.IH heard_switch_pump, simp)
qed simp

lemma heard_set_actuator_modes: "set_actuator_modes arm modes hold k = (Inr (), k') \<Longrightarrow> heard arm k \<Longrightarrow> heard arm k'"
  unfolding set_actuator_modes_def
  by (elim kept_thenE; (simp only: prod.case split_paired_all)?)
    (metis heard_switch_pump heard_switch_loop heard_settle_pumps, simp_all)

lemma heard_exchange: "kx_exchange arm c fb k = Some (r, k') \<Longrightarrow> tolerated r \<Longrightarrow> heard arm k \<Longrightarrow> heard arm k'"
  using heard_refresh [of arm "write_command c k"] heard_same [of "write_command c k" k arm]
  by (cases "refresh arm (write_command c k)") (auto simp: kx_exchange_def filled_def tolerated_def split: sum.splits kx_error.splits)

subsection \<open>The revert\<close>

text \<open>The debt agrees with the flag: what the driver believes is what it asked of the arm.\<close>

definition dues_ok :: "kortex_arm \<Rightarrow> kx \<Rightarrow> bool" where
  "dues_ok arm k \<longleftrightarrow> owed arm (kx_trace k) = (if kx_low_level k then revert_calls else [])"

lemma dues_ok_wire: "kept_wire arm k k' \<Longrightarrow> dues_ok arm k \<Longrightarrow> dues_ok arm k'"
  by (simp add: dues_ok_def kept_defs)

lemma kept_revert: "kept_flags k (snd (revert_actuators arm devs k))"
proof (induction devs arbitrary: k)
  case (Cons d devs)
  then show ?case using kept_flags_trans [OF kept_flags_issue [of k "KcSetControlMode AmPosition d True"]]
    by (simp add: attempt_simp)
qed simp

lemma kept_release: "kept_flags (k\<lparr>kx_low_level := False\<rparr>) (release_low_level arm k)"
proof (cases "kx_low_level k")
  case True
  let ?k = "k\<lparr>kx_low_level := False\<rparr>"
  obtain ok k1 where r: "(if ObActuators \<in> kx_alive ?k \<and> 0 < kx_n ?k then revert_actuators arm [1..<kx_n ?k + 1] ?k else (True, ?k)) = (ok, k1)"
    by fastforce
  have 1: "kept_flags ?k k1" using r kept_revert [of ?k arm "[1..<kx_n ?k + 1]"] by (auto split: if_splits)
  obtain ok2 k2 where s: "(if ok \<and> ObBase \<in> kx_alive k1 then attempt arm (KcSetServoing SingleLevel True) k1 else (ok, k1)) = (ok2, k2)"
    by fastforce
  have 2: "kept_flags k1 k2" using s by (auto simp: attempt_simp split: if_splits)
  have "release_low_level arm k = k2\<lparr>kx_unanswered := \<not> ok2\<rparr>"
    using True r s by (simp add: release_low_level_def Let_def)
  then show ?thesis using kept_flags_trans [OF 1 2] by (simp add: kept_defs)
qed (simp add: release_low_level_def kept_defs)

text \<open>After a release nothing is owed.\<close>

lemma release_pays:
  assumes "dues_ok arm k" and "kx_low_level k \<Longrightarrow> kx_serving k"
  shows "dues_ok arm (release_low_level arm k)"
proof (cases "kx_low_level k")
  case True
  then have "owed arm (snd (until_silent arm revert_calls (kx_trace k))) = []"
    using assms(1) by (intro owed_until_silent) (simp_all add: dues_ok_def)
  then show ?thesis using release_until_silent [OF assms(2) [OF True], of arm]
    by (simp add: dues_ok_def Let_def split: prod.splits)
qed (use assms(1) in \<open>simp add: release_low_level_def\<close>)

lemma kept_quietly: "\<not> settles c \<Longrightarrow> kept_wire arm k (quietly c b k)"
  by (simp add: quietly_def)

text \<open>A shutdown leaves the command message, and nothing of the network; and it pays what is owed.\<close>

lemma shutdown_state:
  "kx_alive (safe_shutdown arm k) = {}" "\<not> kx_connected (safe_shutdown arm k)" "\<not> kx_low_level (safe_shutdown arm k)"
  "length (cm_actuators (kx_cmd (safe_shutdown arm k))) = length (cm_actuators (kx_cmd k))"
  using kept_release [of k arm] by (simp_all add: safe_shutdown_def quietly_def issue_def Let_def kept_defs)

lemma shutdown_owed: "owed arm (kx_trace (safe_shutdown arm k)) = owed arm (kx_trace (release_low_level arm k))"
  by (simp add: safe_shutdown_def quietly_def issue_def Let_def owed_other del: owed.simps(2))

lemma shutdown_pays:
  assumes "dues_ok arm k" and "kx_low_level k \<Longrightarrow> kx_serving k"
  shows "owed arm (kx_trace (safe_shutdown arm k)) = []"
  using release_pays [OF assms] kept_release [of k arm] by (simp add: shutdown_owed dues_ok_def kept_defs)

subsection \<open>Entering\<close>

text \<open>The base is asked, the flag is set, the feedback read, the message built and sent.\<close>

lemma kept_seed: "kept_net k (seed_command k) \<and> kx_low_level (seed_command k) = kx_low_level k \<and>
    length (cm_actuators (kx_cmd (seed_command k))) = kx_n k \<and> kx_trace (seed_command k) = kx_trace k"
  by (simp add: kept_defs seed_command_def)

lemma grant_cases:
  assumes "sdk_do rpc_error arm (KcSetServoing LowLevel False) k = (r, k')"
  shows "kept_flags k k' \<and> owed arm (kx_trace k') = (if r = Inr () then revert_calls else owed arm (kx_trace k))"
  using assms by (auto simp: sdk_do_def issue_def kept_defs Let_def split: option.splits)

lemma set_servoing_state:
  assumes "set_servoing_low_level arm k = (r, k')"
  shows "kept_net k k' \<and> (kx_low_level k \<longrightarrow> kx_low_level k') \<and>
    length (cm_actuators (kx_cmd k')) \<in> {length (cm_actuators (kx_cmd k)), kx_n k} \<and>
    (dues_ok arm k \<longrightarrow> dues_ok arm k') \<and>
    (r = Inr () \<longrightarrow> kx_low_level k' \<and> length (cm_actuators (kx_cmd k')) = kx_n k \<and> heard arm k')"
proof -
  obtain r1 k1 where s: "sdk_do rpc_error arm (KcSetServoing LowLevel False) k = (r1, k1)" by fastforce
  note g = grant_cases [OF s]
  show ?thesis
  proof (cases r1)
    case (Inl e)
    then show ?thesis using assms s g by (auto simp: set_servoing_low_level_def kept_defs dues_ok_def)
  next
    case (Inr u)
    let ?k = "k1\<lparr>kx_low_level := True\<rparr>"
    have k: "kept_net k ?k" "dues_ok arm ?k" "length (cm_actuators (kx_cmd ?k)) = length (cm_actuators (kx_cmd k))"
      using g Inr by (simp_all add: kept_defs dues_ok_def)
    have through: "kept_net k j \<and> dues_ok arm j \<and> kx_low_level j \<and> length (cm_actuators (kx_cmd j)) = length (cm_actuators (kx_cmd k))"
      if "kept_wire arm ?k j" for j
      using that k dues_ok_wire [OF that] by (auto simp: kept_defs)
    from assms s Inr have "kx_then (cyclic_call arm KcRefreshFeedback ?k)
        (\<lambda>p k. kx_then (parse_feedback p k) (\<lambda>_ k. refresh arm (seed_command k))) = (r, k')"
      by (simp add: set_servoing_low_level_def)
    then show ?thesis
    proof (elim kept_thenE)
      fix e k2 assume "cyclic_call arm KcRefreshFeedback ?k = (Inl e, k2)" "r = Inl e" "k' = k2"
      then show ?thesis using through kept_cyclic_call [of arm KcRefreshFeedback ?k] by auto
    next
      fix p k2 e k3 assume "cyclic_call arm KcRefreshFeedback ?k = (Inr p, k2)" "parse_feedback p k2 = (Inl e, k3)" "r = Inl e" "k' = k3"
      then show ?thesis
        using through [of k3] kept_wire_trans [OF kept_cyclic_call [of arm KcRefreshFeedback ?k] kept_parse [of p k2]] by auto
    next
      fix p k2 u3 k3 assume c: "cyclic_call arm KcRefreshFeedback ?k = (Inr p, k2)" "parse_feedback p k2 = (Inr u3, k3)"
        and rf: "refresh arm (seed_command k3) = (r, k')"
      have "kept_wire arm ?k k3" using kept_wire_trans [OF kept_cyclic_call [OF c(1)] kept_parse [OF c(2)]] by simp
      note t = through [OF this]
      have "kept_net k (seed_command k3)" using t kept_seed [of k3] kept_net_trans by blast
      then show ?thesis using t kept_seed [of k3] kept_refresh [OF rf] heard_refresh [OF rf] k(1)
        by (auto simp: kept_defs dues_ok_def)
    qed
  qed
qed

text \<open>
  A grant whose reply is lost: the driver does not know that the base is in low-level servoing, and the
  shutdown sends nothing of the revert.
\<close>

lemma lost_grant_not_reverted:
  assumes "ar_do arm (KcSetServoing LowLevel False # kx_trace k) = Some (SeRuntime w)" and "\<not> kx_low_level k"
    and "set_servoing_low_level arm k = (r, k')"
  shows "(\<exists>e. r = Inl e) \<and> \<not> kx_low_level k' \<and>
    (\<exists>new. kx_trace (safe_shutdown arm k') = new @ KcSetServoing LowLevel False # kx_trace k \<and> (\<forall>c \<in> set new. \<not> settles c))"
  using assms
  by (auto simp: set_servoing_low_level_def sdk_do_def issue_def safe_shutdown_def release_low_level_def quietly_def Let_def)

lemma clear_faults_state:
  "kept_net k (clear_faults arm k) \<and> kx_low_level (clear_faults arm k) = kx_low_level k \<and>
   length (cm_actuators (kx_cmd (clear_faults arm k))) \<in> {length (cm_actuators (kx_cmd k)), kx_n k} \<and>
   (dues_ok arm k \<longrightarrow> dues_ok arm (clear_faults arm k))"
proof -
  let ?k = "issue KcClearFaults k"
  obtain r k' where s: "set_servoing_low_level arm ?k = (r, k')" by fastforce
  have w: "kept_wire arm k ?k" by simp
  have same: "kx_low_level ?k = kx_low_level k" "kx_n ?k = kx_n k" "kx_cmd ?k = kx_cmd k" by (simp_all add: issue_def)
  show ?thesis using set_servoing_state [OF s] s w kept_net_trans [OF kept_wire_net [OF w], of k'] same dues_ok_wire [OF w]
    by (auto simp: clear_faults_def Let_def kept_net_def)
qed

text \<open>Connecting makes no command and enters nothing.\<close>

lemma probe_all_keeps: "probe_all arm devs k = (r, k') \<Longrightarrow> kept_wire arm k k'"
proof (induction devs arbitrary: k)
  case (Cons d devs)
  have p: "kept_wire arm j j'" if "probe arm d j = (s, j')" for s j j'
    using that kept_sdk_do [of rpc_error arm "KcGetControlMode d" j] by (auto simp: probe_def split: prod.splits sum.splits)
  from Cons.prems show ?case unfolding probe_all.simps by (elim kept_thenE) (blast intro: kept_wire_trans p Cons.IH)+
qed simp

lemma open_session_keeps:
  "open_session arm k = (r, k') \<Longrightarrow> kx_low_level k' = kx_low_level k \<and> kx_cmd k' = kx_cmd k \<and> owed arm (kx_trace k') = owed arm (kx_trace k)"
  by (auto simp: open_session_def sdk_do_def issue_def create_def Let_def kx_then_def owed_other simp del: owed.simps(2) split: option.splits)

lemma connect_routed_state:
  "connect_routed arm k = (r, k') \<Longrightarrow>
     kx_low_level k' = kx_low_level k \<and> length (cm_actuators (kx_cmd k')) = length (cm_actuators (kx_cmd k)) \<and>
     owed arm (kx_trace k') = owed arm (kx_trace k)"
  unfolding connect_routed_def
  by (auto elim!: kept_thenE dest!: open_session_keeps kept_sdk_get [where arm = arm] probe_all_keeps simp: check_count_cases kept_defs
      split: if_splits)

lemma connect_state:
  assumes "kx_connect nw ip arm k = (r, k')"
  shows "kx_low_level k' = kx_low_level k \<and> length (cm_actuators (kx_cmd k')) = length (cm_actuators (kx_cmd k)) \<and>
    owed arm (kx_trace k') = owed arm (kx_trace k) \<and>
    (r = Inr () \<longrightarrow> kx_connected k' \<and> kx_alive k' = UNIV \<and> kx_n k' = 7)"
proof (cases rule: kx_connect_cases [of nw ip arm k])
  case routed
  then show ?thesis using assms connect_routed_state [of arm k r k'] connect_routed_outcome [of arm k r k'] by simp
qed (use assms in auto)

end
