(* ===== verification/Link_Kortex.thy ===== *)
theory Link_Kortex
  imports Arm_Link Kortex_Handover
begin

section \<open>The arm link over the Kortex transport\<close>

text \<open>
  \<open>ArmLink::run\<close> with \<open>KortexTransport\<close> behind it: each step of the loop of \<open>Arm_Link\<close> together with
  what its calls do to the transport, and the exceptions the transport really throws. While the
  executor runs it exchanges commands and switches modes. It goes on after an exchange that timed out;
  any other exception of the transport ends its run, and so may one of its own, at any time
  (\<open>Rt_Executor\<close>: too many timeouts, a fault, a control mode that throws).
\<close>

subsection \<open>Steps\<close>

text \<open>What the handlers of the \<open>try\<close> block do to the transport.\<close>

definition after_catch :: "kortex_arm \<Rightarrow> exn \<Rightarrow> kx \<Rightarrow> kx" where
  "after_catch arm e k = (case e of ExcCommsLost _ \<Rightarrow> safe_shutdown arm k | ExcTimeout _ \<Rightarrow> safe_shutdown arm k | _ \<Rightarrow> k)"

text \<open>What the executor makes of an exception of a mode switch.\<close>

definition switch_exn :: "kx_error \<Rightarrow> exn" where
  "switch_exn e = (case e of KxTimeout w \<Rightarrow> comms_lost ''cyclic pumps timed out during a mode switch'' w | _ \<Rightarrow> exn_of e)"

definition enter_servoing :: "kortex_arm \<Rightarrow> kx \<Rightarrow> unit kx_result" where
  "enter_servoing arm k = kx_then (set_servoing_low_level arm k) (\<lambda>_. set_actuator_modes arm (modes_fill AmPosition) None)"

inductive lk_step :: "string \<Rightarrow> kortex_arm \<Rightarrow> link_config \<Rightarrow> link_run \<times> kx \<Rightarrow> link_run \<times> kx \<Rightarrow> bool" for ip arm cfg where
  ls_stopped: "lr_pc r = LpTop \<Longrightarrow> lk_step ip arm cfg (r, k) (lr_at (LpDone None) (shutdown r), safe_shutdown arm k)"
| ls_go_connect: "lr_pc r = LpTop \<Longrightarrow> \<not> lr_connected r \<Longrightarrow> lk_step ip arm cfg (r, k) (lr_at LpConnect r, k)"
| ls_go_on: "lr_pc r = LpTop \<Longrightarrow> lr_connected r \<Longrightarrow> lk_step ip arm cfg (r, k) (lr_at LpTry r, k)"
| ls_connect_ok: "lr_pc r = LpConnect \<Longrightarrow> kx_connect nw ip arm k = (Inr (), k')
    \<Longrightarrow> lk_step ip arm cfg (r, k) (lr_at LpTry (connected r), k')"
| ls_connect_config: "lr_pc r = LpConnect \<Longrightarrow> kx_connect nw ip arm k = (Inl e, k') \<Longrightarrow> exn_of e = ExcLogic w
    \<Longrightarrow> lk_step ip arm cfg (r, k) (lr_at (LpDone (Some (ExcLogic w))) (shutdown r), safe_shutdown arm k')"
| ls_connect_fails: "lr_pc r = LpConnect \<Longrightarrow> kx_connect nw ip arm k = (Inl e, k') \<Longrightarrow> \<forall>w. exn_of e \<noteq> ExcLogic w
    \<Longrightarrow> lk_step ip arm cfg (r, k)
          (lr_at LpTop (shutdown (on_link (note_connect_failure (connect_failure_reason (exn_of e))) r)), safe_shutdown arm k')"
| ls_check_latched: "lr_pc r = LpTry \<Longrightarrow> al_latched (lr_link r) \<Longrightarrow> lk_step ip arm cfg (r, k) (after_check False r, k)"
| ls_check: "lr_pc r = LpTry \<Longrightarrow> \<not> al_latched (lr_link r) \<Longrightarrow> arm_in_fault arm k = (Inr faulted, k')
    \<Longrightarrow> lk_step ip arm cfg (r, k) (after_check faulted r, k')"
| ls_check_throws: "lr_pc r = LpTry \<Longrightarrow> \<not> al_latched (lr_link r) \<Longrightarrow> arm_in_fault arm k = (Inl e, k')
    \<Longrightarrow> lk_step ip arm cfg (r, k) (lr_at LpTop (catch (exn_of e) r), after_catch arm (exn_of e) k')"
| ls_released: "lr_pc r = LpRelease \<Longrightarrow> lk_step ip arm cfg (r, k) (lr_at (LpWait 0) r, release_low_level arm k)"
| ls_wait_stop: "lr_pc r = LpWait n \<Longrightarrow> lk_step ip arm cfg (r, k) (lr_at (LpDone None) (shutdown r), safe_shutdown arm k)"
| ls_wait_clear: "lr_pc r = LpWait n \<Longrightarrow> al_clear_requested (lr_link r)
    \<Longrightarrow> lk_step ip arm cfg (r, k) (lr_at LpClear (on_link take_clear r), k)"
| ls_wait_poll: "lr_pc r = LpWait n \<Longrightarrow> \<not> al_clear_requested (lr_link r) \<Longrightarrow> kx_receive arm fb k = Some (res, k')
    \<Longrightarrow> lk_step ip arm cfg (r, k) (r, k')"
| ls_wait_healthy: "lr_pc r = LpWait n \<Longrightarrow> \<not> al_clear_requested (lr_link r) \<Longrightarrow> arm_in_fault arm k = (Inr faulted, k')
    \<Longrightarrow> lk_step ip arm cfg (r, k) (lr_at (LpWait 0) r, k')"
| ls_wait_unhealthy: "lr_pc r = LpWait n \<Longrightarrow> \<not> al_clear_requested (lr_link r) \<Longrightarrow> arm_in_fault arm k = (Inl e, k')
    \<Longrightarrow> n + 1 < lc_health_max_failures cfg \<Longrightarrow> lk_step ip arm cfg (r, k) (lr_at (LpWait (n + 1)) r, k')"
| ls_wait_lost: "lr_pc r = LpWait n \<Longrightarrow> \<not> al_clear_requested (lr_link r) \<Longrightarrow> arm_in_fault arm k = (Inl e, k')
    \<Longrightarrow> lc_health_max_failures cfg \<le> n + 1 \<Longrightarrow> x = ExcTimeout ''the arm stopped answering while faulted''
    \<Longrightarrow> lk_step ip arm cfg (r, k) (lr_at LpTop (catch x r), after_catch arm x k')"
| ls_clear_sent: "lr_pc r = LpClear \<Longrightarrow> lk_step ip arm cfg (r, k) (lr_at LpSettle r, clear_faults arm k)"
| ls_settle_poll: "lr_pc r = LpSettle \<Longrightarrow> arm_in_fault arm k = (Inr True, k') \<Longrightarrow> lk_step ip arm cfg (r, k) (r, k')"
| ls_settle_throws: "lr_pc r = LpSettle \<Longrightarrow> arm_in_fault arm k = (Inl e, k')
    \<Longrightarrow> lk_step ip arm cfg (r, k) (lr_at LpTop (catch (exn_of e) r), after_catch arm (exn_of e) k')"
| ls_fault_persists: "lr_pc r = LpSettle \<Longrightarrow> arm_in_fault arm k = (Inr True, k')
    \<Longrightarrow> lk_step ip arm cfg (r, k) (lr_at LpTop (on_link (\<lambda>l. l\<lparr>al_fault_reason := ''fault persists after clear''\<rparr>) r), k')"
| ls_fault_gone: "lr_pc r = LpSettle \<Longrightarrow> arm_in_fault arm k = (Inr False, k')
    \<Longrightarrow> lk_step ip arm cfg (r, k) (lr_at LpEnter (on_link (\<lambda>l. l\<lparr>al_latched := False\<rparr>) r), k')"
| ls_enter_throws: "lr_pc r = LpEnter \<Longrightarrow> enter_servoing arm k = (Inl e, k')
    \<Longrightarrow> lk_step ip arm cfg (r, k) (lr_at LpTop (catch (exn_of e) r), after_catch arm (exn_of e) k')"
| ls_entered: "lr_pc r = LpEnter \<Longrightarrow> enter_servoing arm k = (Inr (), k')
    \<Longrightarrow> lk_step ip arm cfg (r, k) (lr_at LpRun ((on_link (set_state LkRunning [] False) r)\<lparr>lr_commanding := True\<rparr>), k')"
| ls_exchange: "lr_pc r = LpRun \<Longrightarrow> kx_exchange arm c fb k = Some (res, k') \<Longrightarrow> tolerated res \<Longrightarrow> lk_step ip arm cfg (r, k) (r, k')"
| ls_exchange_throws: "lr_pc r = LpRun \<Longrightarrow> kx_exchange arm c fb k = Some (Inl e, k') \<Longrightarrow> \<forall>w. e \<noteq> KxTimeout w
    \<Longrightarrow> lk_step ip arm cfg (r, k) (lr_at LpTop (catch (exn_of e) r), after_catch arm (exn_of e) k')"
| ls_switch: "lr_pc r = LpRun \<Longrightarrow> set_actuator_modes arm modes hold k = (Inr (), k') \<Longrightarrow> lk_step ip arm cfg (r, k) (r, k')"
| ls_switch_throws: "lr_pc r = LpRun \<Longrightarrow> set_actuator_modes arm modes hold k = (Inl e, k')
    \<Longrightarrow> lk_step ip arm cfg (r, k) (lr_at LpTop (catch (switch_exn e) r), after_catch arm (switch_exn e) k')"
| ls_run_stops: "lr_pc r = LpRun \<Longrightarrow> lk_step ip arm cfg (r, k) (lr_at (LpDone None) (shutdown r), safe_shutdown arm k)"
| ls_run_throws: "lr_pc r = LpRun \<Longrightarrow> lk_step ip arm cfg (r, k) (lr_at LpTop (catch e r), after_catch arm e k)"

text \<open>Without clear requests, and with those of other threads.\<close>

inductive lk_quiet :: "string \<Rightarrow> kortex_arm \<Rightarrow> link_config \<Rightarrow> link_run \<times> kx \<Rightarrow> link_run \<times> kx \<Rightarrow> bool" for ip arm cfg x0 where
  lq_start: "lk_quiet ip arm cfg x0 x0"
| lq_step: "lk_quiet ip arm cfg x0 x \<Longrightarrow> lk_step ip arm cfg x x' \<Longrightarrow> lk_quiet ip arm cfg x0 x'"

inductive lk_reach :: "string \<Rightarrow> kortex_arm \<Rightarrow> link_config \<Rightarrow> link_run \<times> kx \<Rightarrow> bool" for ip arm cfg where
  lk_start: "lk_reach ip arm cfg (link_start arm_link_init, kx_init)"
| lk_move: "lk_reach ip arm cfg x \<Longrightarrow> lk_step ip arm cfg x x' \<Longrightarrow> lk_reach ip arm cfg x'"
| lk_request: "lk_reach ip arm cfg (r, k) \<Longrightarrow> lk_reach ip arm cfg (on_link (snd \<circ> request_clear) r, k)"

text \<open>The link's own steps are those of \<open>Arm_Link\<close>: what is proved there holds here.\<close>

lemma lk_step_link: "lk_step ip arm cfg (r, k) (r', k') \<Longrightarrow> link_step cfg r r' \<or> r' = r"
  by (induction "(r, k)" "(r', k')" rule: lk_step.induct) (auto intro: link_step.intros)

lemma lk_quiet_link: "lk_quiet ip arm cfg (r, k) x \<Longrightarrow> link_quiet cfg r (fst x)"
proof (induction rule: lk_quiet.induct)
  case lq_start
  then show ?case by (simp add: link_quiet.intros)
next
  case (lq_step x x')
  then show ?case using lk_step_link [of ip arm cfg "fst x" "snd x" "fst x'" "snd x'"] by (auto intro: link_quiet.intros)
qed

lemma lk_reach_link: "lk_reach ip arm cfg x \<Longrightarrow> link_reach cfg (link_start arm_link_init) (fst x)"
proof (induction rule: lk_reach.induct)
  case (lk_move x x')
  then show ?case using lk_step_link [of ip arm cfg "fst x" "snd x" "fst x'" "snd x'"] by (auto intro: link_reach.intros)
qed (auto intro: link_reach.intros)


subsection \<open>The transport is always in order\<close>

lemma after_catch_cases: "after_catch arm e k = safe_shutdown arm k \<and> (\<exists>w. \<forall>r. catch e r = lost w r) \<or>
    after_catch arm e k = k \<and> (\<exists>w. \<forall>r. catch e r = on_link (latch w) (r\<lparr>lr_commanding := False\<rparr>))"
  by (cases e) (auto simp: after_catch_def catch_def)

lemma enter_state:
  assumes "enter_servoing arm k = (r, k')"
  shows "kept_net k k' \<and> (dues_ok arm k \<longrightarrow> dues_ok arm k') \<and>
    length (cm_actuators (kx_cmd k')) \<in> {length (cm_actuators (kx_cmd k)), kx_n k} \<and>
    (r = Inr () \<longrightarrow> kx_low_level k' \<and> length (cm_actuators (kx_cmd k')) = kx_n k \<and> heard arm k')"
proof -
  obtain r1 k1 where s: "set_servoing_low_level arm k = (r1, k1)" by fastforce
  note 1 = set_servoing_state [OF s]
  show ?thesis
  proof (cases r1)
    case (Inl e)
    then show ?thesis using assms s 1 by (auto simp: enter_servoing_def)
  next
    case (Inr u)
    then have m: "set_actuator_modes arm (modes_fill AmPosition) None k1 = (r, k')" using assms s by (simp add: enter_servoing_def)
    note 2 = kept_set_actuator_modes [OF m]
    have "r = Inr () \<Longrightarrow> heard arm k1 \<Longrightarrow> heard arm k'" using m heard_set_actuator_modes by blast
    then show ?thesis using 1 2 Inr kept_net_trans [of k k1 k'] dues_ok_wire [OF 2] by (auto simp: kept_defs)
  qed
qed

text \<open>Where the loop is outside a connection, in one, and waiting with the arm handed back.\<close>

definition pc_apart :: "link_pc \<Rightarrow> bool" where
  "pc_apart p = (case p of LpConnect \<Rightarrow> True | LpDone _ \<Rightarrow> True | _ \<Rightarrow> False)"

definition pc_inside :: "link_pc \<Rightarrow> bool" where
  "pc_inside p = (case p of LpTop \<Rightarrow> False | LpConnect \<Rightarrow> False | LpDone _ \<Rightarrow> False | _ \<Rightarrow> True)"

definition pc_handed_back :: "link_pc \<Rightarrow> bool" where
  "pc_handed_back p = (case p of LpWait _ \<Rightarrow> True | LpClear \<Rightarrow> True | LpSettle \<Rightarrow> True | _ \<Rightarrow> False)"

lemmas pc_defs = pc_apart_def pc_inside_def pc_handed_back_def

definition net_ok :: "kortex_arm \<Rightarrow> bool \<Rightarrow> kx \<Rightarrow> bool" where
  "net_ok arm c k \<longleftrightarrow> dues_ok arm k \<and>
     (if c then kx_connected k \<and> kx_alive k = UNIV \<and> kx_n k = 7
      else \<not> kx_connected k \<and> kx_alive k = {} \<and> \<not> kx_low_level k)"

definition message_ok :: "kx \<Rightarrow> bool" where
  "message_ok k \<longleftrightarrow> length (cm_actuators (kx_cmd k)) \<in> {0, 7}"

definition run_ok :: "kortex_arm \<Rightarrow> kx \<Rightarrow> bool" where
  "run_ok arm k \<longleftrightarrow> kx_low_level k \<and> length (cm_actuators (kx_cmd k)) = 7 \<and> heard arm k"

definition lk_ok :: "kortex_arm \<Rightarrow> link_run \<times> kx \<Rightarrow> bool" where
  "lk_ok arm x \<longleftrightarrow> (case x of (r, k) \<Rightarrow>
     net_ok arm (lr_connected r) k \<and> message_ok k \<and>
     (pc_apart (lr_pc r) \<longrightarrow> \<not> lr_connected r) \<and> (pc_inside (lr_pc r) \<longrightarrow> lr_connected r) \<and>
     (pc_handed_back (lr_pc r) \<longrightarrow> \<not> kx_low_level k) \<and> (lr_pc r = LpRun \<longrightarrow> run_ok arm k))"

lemma lk_okI:
  "net_ok arm (lr_connected r) k \<Longrightarrow> message_ok k \<Longrightarrow> (pc_apart (lr_pc r) \<Longrightarrow> \<not> lr_connected r) \<Longrightarrow>
   (pc_inside (lr_pc r) \<Longrightarrow> lr_connected r) \<Longrightarrow> (pc_handed_back (lr_pc r) \<Longrightarrow> \<not> kx_low_level k) \<Longrightarrow>
   (lr_pc r = LpRun \<Longrightarrow> run_ok arm k) \<Longrightarrow> lk_ok arm (r, k)"
  by (simp add: lk_ok_def)

lemma lk_okD:
  assumes "lk_ok arm (r, k)"
  shows "net_ok arm (lr_connected r) k" "message_ok k" "pc_apart (lr_pc r) \<Longrightarrow> \<not> lr_connected r"
    "pc_inside (lr_pc r) \<Longrightarrow> lr_connected r" "pc_handed_back (lr_pc r) \<Longrightarrow> \<not> kx_low_level k" "lr_pc r = LpRun \<Longrightarrow> run_ok arm k"
  using assms by (simp_all add: lk_ok_def)

text \<open>What a shutdown or a release needs in order to pay.\<close>

definition payable :: "kortex_arm \<Rightarrow> kx \<Rightarrow> bool" where
  "payable arm k \<longleftrightarrow> dues_ok arm k \<and> (kx_low_level k \<longrightarrow> kx_serving k)"

lemma net_ok_payable: "net_ok arm c k \<Longrightarrow> payable arm k"
  by (auto simp: net_ok_def payable_def kx_serving_def split: if_splits)

text \<open>A wire operation changes nothing that matters, wherever the loop goes on.\<close>

lemma ok_wire:
  assumes "kept_wire arm k k'"
  shows "net_ok arm c k \<Longrightarrow> net_ok arm c k'" "message_ok k \<Longrightarrow> message_ok k'"
  using assms dues_ok_wire [OF assms] by (auto simp: net_ok_def message_ok_def kept_defs)

lemma lk_ok_wire:
  assumes "lk_ok arm (r, k)" and "kept_wire arm k k'" and "lr_pc r = LpRun \<Longrightarrow> heard arm k \<Longrightarrow> heard arm k'"
  shows "lk_ok arm (r, k')"
  using assms ok_wire [OF assms(2)] by (auto simp: lk_ok_def run_ok_def kept_defs)

lemma lk_ok_goto:
  assumes "lk_ok arm (r, k)" and "lr_connected r' = lr_connected r" and "pc_apart (lr_pc r') \<Longrightarrow> \<not> lr_connected r"
    and "pc_inside (lr_pc r') \<Longrightarrow> lr_connected r" and "pc_handed_back (lr_pc r') \<Longrightarrow> pc_handed_back (lr_pc r)" and "lr_pc r' \<noteq> LpRun"
  shows "lk_ok arm (r', k)"
  using assms by (auto simp: lk_ok_def)

lemma lk_ok_shutdown:
  assumes "message_ok k" and "payable arm k" and "\<not> lr_connected r" and "\<not> pc_inside (lr_pc r)"
  shows "lk_ok arm (r, safe_shutdown arm k)"
proof -
  have "dues_ok arm (safe_shutdown arm k)"
    using shutdown_pays [of arm k] shutdown_state [of arm k] assms(2) by (simp add: dues_ok_def payable_def)
  then show ?thesis using assms shutdown_state [of arm k]
    by (auto simp: lk_ok_def net_ok_def message_ok_def pc_defs split: link_pc.splits)
qed

lemma lost_connected [simp]: "\<not> lr_connected (lost w r)"
  by (simp add: lost_def Let_def)

lemma lk_ok_catch:
  assumes "net_ok arm (lr_connected r) k" and "message_ok k"
  shows "lk_ok arm (lr_at LpTop (catch e r), after_catch arm e k)"
  using after_catch_cases [of arm e k]
proof (elim disjE conjE exE)
  fix w assume a: "after_catch arm e k = safe_shutdown arm k" and c: "\<forall>r. catch e r = lost w r"
  then show ?thesis using assms net_ok_payable [OF assms(1)] by (auto intro!: lk_ok_shutdown simp: pc_defs)
next
  fix w assume a: "after_catch arm e k = k" and c: "\<forall>r. catch e r = on_link (latch w) (r\<lparr>lr_commanding := False\<rparr>)"
  then show ?thesis using assms by (auto intro!: lk_okI simp: pc_defs)
qed

lemma net_ok_kept: "net_ok arm True k \<Longrightarrow> kept_net k k' \<Longrightarrow> dues_ok arm k' \<Longrightarrow> net_ok arm True k'"
  by (simp add: net_ok_def kept_net_def)

lemma message_ok_kept:
  "message_ok k \<Longrightarrow> net_ok arm True k \<Longrightarrow> length (cm_actuators (kx_cmd k')) \<in> {length (cm_actuators (kx_cmd k)), kx_n k} \<Longrightarrow> message_ok k'"
  by (auto simp: message_ok_def net_ok_def)

lemma inside_net: "lk_ok arm (r, k) \<Longrightarrow> pc_inside (lr_pc r) \<Longrightarrow> lr_connected r \<and> net_ok arm True k \<and> message_ok k"
  using lk_okD [of arm r k] by auto

lemma lk_ok_payable: "lk_ok arm (r, k) \<Longrightarrow> payable arm k"
  using lk_okD(1) net_ok_payable by blast

lemma lk_ok_catch_wire:
  assumes "lk_ok arm (r, k)" and "kept_wire arm k k'"
  shows "lk_ok arm (lr_at LpTop (catch e r), after_catch arm e k')"
  using lk_okD(1,2) [OF assms(1)] ok_wire [OF assms(2)] by (blast intro: lk_ok_catch)

lemma after_check_pc: "lr_connected (after_check b r) = lr_connected r" "lr_pc (after_check b r) \<in> {LpRelease, LpEnter}"
  by (auto simp: after_check_def Let_def)

lemma lk_ok_check:
  assumes "lk_ok arm (r, k)" and "lr_pc r = LpTry"
  shows "lk_ok arm (after_check b r, k)"
  using assms after_check_pc [of b r] inside_net [OF assms(1)]
  by (intro lk_ok_goto [OF assms(1)]) (auto simp: pc_defs)

text \<open>A failed connect leaves nothing to pay.\<close>

lemma lk_ok_connect_fails:
  assumes "lk_ok arm (r, k)" and "lr_pc r = LpConnect" and "kx_connect nw ip arm k = (Inl e, k')"
    and "\<not> lr_connected r'" and "\<not> pc_inside (lr_pc r')"
  shows "lk_ok arm (r', safe_shutdown arm k')"
proof -
  have k: "dues_ok arm k" "\<not> kx_low_level k" "message_ok k"
    using lk_okD [OF assms(1)] assms(2) by (auto simp: net_ok_def pc_apart_def)
  then have "message_ok k'" "payable arm k'"
    using connect_state [OF assms(3)] by (simp_all add: message_ok_def payable_def dues_ok_def)
  then show ?thesis using assms(4,5) by (rule lk_ok_shutdown)
qed

lemma lk_step_ok:
  assumes "lk_step ip arm cfg x x'" and "lk_ok arm x"
  shows "lk_ok arm x'"
  using assms
proof (induction rule: lk_step.induct)
  case (ls_stopped r k)
  then show ?case using lk_okD(2) lk_ok_payable by (intro lk_ok_shutdown) (auto simp: pc_defs)
next
  case (ls_go_connect r k)
  then show ?case by (intro lk_ok_goto [OF ls_go_connect(3)]) (auto simp: pc_defs)
next
  case (ls_go_on r k)
  then show ?case by (intro lk_ok_goto [OF ls_go_on(3)]) (auto simp: pc_defs)
next
  case (ls_connect_ok r nw k k')
  have "message_ok k'" "dues_ok arm k'"
    using connect_state [OF ls_connect_ok(2)] lk_okD(1,2) [OF ls_connect_ok(3)] by (auto simp: message_ok_def net_ok_def dues_ok_def)
  then show ?case using connect_state [OF ls_connect_ok(2)] by (intro lk_okI) (auto simp: pc_defs net_ok_def connected_def Let_def)
next
  case (ls_connect_config r nw k e k' w)
  then show ?case by (intro lk_ok_connect_fails [OF ls_connect_config(4,1,2)]) (auto simp: pc_defs)
next
  case (ls_connect_fails r nw k e k')
  then show ?case by (intro lk_ok_connect_fails [OF ls_connect_fails(4,1,2)]) (auto simp: pc_defs)
next
  case (ls_check_latched r k)
  then show ?case by (intro lk_ok_check)
next
  case (ls_check r k faulted k')
  then show ?case using lk_ok_check lk_ok_wire [OF ls_check(4) kept_arm_in_fault [OF ls_check(3)]] by simp
next
  case (ls_check_throws r k e k')
  then show ?case using lk_ok_catch_wire kept_arm_in_fault by blast
next
  case (ls_released r k)
  have i: "lr_connected r" "net_ok arm True k" "message_ok k" using inside_net [OF ls_released(2)] ls_released(1) by (simp_all add: pc_inside_def)
  have "dues_ok arm (release_low_level arm k)" using net_ok_payable [OF i(2)] by (intro release_pays) (simp_all add: payable_def)
  then show ?case using i kept_release [of k arm] ls_released(1)
    by (intro lk_okI) (auto simp: pc_defs net_ok_def message_ok_def kept_defs)
next
  case (ls_wait_stop r n k)
  then show ?case using lk_okD(2) lk_ok_payable by (intro lk_ok_shutdown) (auto simp: pc_defs)
next
  case (ls_wait_clear r n k)
  then show ?case using inside_net [OF ls_wait_clear(3)] by (intro lk_ok_goto [OF ls_wait_clear(3)]) (auto simp: pc_defs)
next
  case (ls_wait_poll r n fb k res k')
  then show ?case by (intro lk_ok_wire [OF ls_wait_poll(4) kept_receive [OF ls_wait_poll(3)]]) simp
next
  case (ls_wait_healthy r n k faulted k')
  have "lk_ok arm (r, k')" by (rule lk_ok_wire [OF ls_wait_healthy(4) kept_arm_in_fault [OF ls_wait_healthy(3)]]) (simp add: ls_wait_healthy(1))
  then show ?case using inside_net [OF ls_wait_healthy(4)] ls_wait_healthy(1) by (intro lk_ok_goto [OF \<open>lk_ok arm (r, k')\<close>]) (auto simp: pc_defs)
next
  case (ls_wait_unhealthy r n k e k')
  have "lk_ok arm (r, k')" by (rule lk_ok_wire [OF ls_wait_unhealthy(5) kept_arm_in_fault [OF ls_wait_unhealthy(3)]]) (simp add: ls_wait_unhealthy(1))
  then show ?case using inside_net [OF ls_wait_unhealthy(5)] ls_wait_unhealthy(1) by (intro lk_ok_goto [OF \<open>lk_ok arm (r, k')\<close>]) (auto simp: pc_defs)
next
  case (ls_wait_lost r n k e k' x)
  then show ?case using lk_ok_catch_wire kept_arm_in_fault by blast
next
  case (ls_clear_sent r k)
  have i: "lr_connected r" "net_ok arm True k" "message_ok k" using inside_net [OF ls_clear_sent(2)] ls_clear_sent(1) by (simp_all add: pc_inside_def)
  have "\<not> kx_low_level k" "dues_ok arm k" using lk_okD(5) [OF ls_clear_sent(2)] ls_clear_sent(1) i(2) by (simp_all add: pc_handed_back_def net_ok_def)
  then show ?case using i clear_faults_state [of k arm] net_ok_kept [OF i(2), of "clear_faults arm k"] message_ok_kept [OF i(3,2), of "clear_faults arm k"]
    by (intro lk_okI) (auto simp: pc_defs)
next
  case (ls_settle_poll r k k')
  then show ?case by (intro lk_ok_wire [OF ls_settle_poll(3) kept_arm_in_fault [OF ls_settle_poll(2)]]) simp
next
  case (ls_settle_throws r k e k')
  then show ?case using lk_ok_catch_wire kept_arm_in_fault by blast
next
  case (ls_fault_persists r k k')
  have "lk_ok arm (r, k')" by (rule lk_ok_wire [OF ls_fault_persists(3) kept_arm_in_fault [OF ls_fault_persists(2)]]) (simp add: ls_fault_persists(1))
  then show ?case by (intro lk_ok_goto [OF \<open>lk_ok arm (r, k')\<close>]) (auto simp: pc_defs)
next
  case (ls_fault_gone r k k')
  have "lk_ok arm (r, k')" by (rule lk_ok_wire [OF ls_fault_gone(3) kept_arm_in_fault [OF ls_fault_gone(2)]]) (simp add: ls_fault_gone(1))
  then show ?case using inside_net [OF ls_fault_gone(3)] ls_fault_gone(1) by (intro lk_ok_goto [OF \<open>lk_ok arm (r, k')\<close>]) (auto simp: pc_defs)
next
  case (ls_enter_throws r k e k')
  have i: "lr_connected r" "net_ok arm True k" "message_ok k" using inside_net [OF ls_enter_throws(3)] ls_enter_throws(1) by (simp_all add: pc_inside_def)
  note e = enter_state [OF ls_enter_throws(2)]
  then have "net_ok arm True k'" using i(2) by (intro net_ok_kept [OF i(2)]) (auto simp: net_ok_def)
  then show ?case using e i message_ok_kept [OF i(3,2), of k'] by (intro lk_ok_catch) auto
next
  case (ls_entered r k k')
  have i: "lr_connected r" "net_ok arm True k" "message_ok k" using inside_net [OF ls_entered(3)] ls_entered(1) by (simp_all add: pc_inside_def)
  have e: "kx_low_level k'" "length (cm_actuators (kx_cmd k')) = 7" "heard arm k'" "kept_net k k'" "dues_ok arm k'"
    using enter_state [OF ls_entered(2)] i(2) by (auto simp: net_ok_def)
  then show ?case using i net_ok_kept [OF i(2) e(4,5)] by (intro lk_okI) (auto simp: pc_defs message_ok_def run_ok_def)
next
  case (ls_exchange r c fb k res k')
  then show ?case using lk_ok_wire kept_exchange heard_exchange by blast
next
  case (ls_exchange_throws r c fb k e k')
  then show ?case using lk_ok_catch_wire kept_exchange by blast
next
  case (ls_switch r modes hold k k')
  then show ?case using lk_ok_wire kept_set_actuator_modes heard_set_actuator_modes by blast
next
  case (ls_switch_throws r modes hold k e k')
  then show ?case using lk_ok_catch_wire kept_set_actuator_modes by blast
next
  case (ls_run_stops r k)
  then show ?case using lk_okD(2) lk_ok_payable by (intro lk_ok_shutdown) (auto simp: pc_defs)
next
  case (ls_run_throws r k e)
  then show ?case using lk_ok_catch_wire [of arm r k k e] by simp
qed

lemma lk_reach_ok: "lk_reach ip arm cfg x \<Longrightarrow> lk_ok arm x"
proof (induction rule: lk_reach.induct)
  case lk_start
  then show ?case
    by (auto simp: lk_ok_def link_start_def kx_init_def cyclic_command0_def net_ok_def dues_ok_def message_ok_def pc_defs)
next
  case (lk_move x x')
  then show ?case using lk_step_ok by blast
next
  case (lk_request r k)
  then show ?case by (simp add: lk_ok_def)
qed

text \<open>
  Claim C19. The transport the driver commands is always in order. Whatever the arm answers and whenever
  it stops answering: while the link takes itself for connected, every network object exists and seven
  actuators are known, so no call goes through an object that is not there; while it does not, nothing
  of an earlier connection is left; the command message has no actuators or seven. While the executor
  runs, the base has granted low-level servoing and no call of a revert has been made since, the message has
  the seven entries that each exchange writes, and the stored feedback, which every pump repeats, is one
  this arm sent whole: on an arm whose feedback reports seven actuators no index is out of range. While
  the link waits for a clear, and while it is not connected, nothing is owed to the arm: since low-level
  servoing was last granted, the calls of the revert were made, all of them in order or up to the first
  that was not answered.
\<close>

theorem transport_in_order:
  assumes "lk_reach ip arm cfg (r, k)"
  shows "(if lr_connected r then kx_connected k \<and> kx_alive k = UNIV \<and> kx_n k = 7
          else \<not> kx_connected k \<and> kx_alive k = {} \<and> \<not> kx_low_level k \<and> owed arm (kx_trace k) = []) \<and>
    length (cm_actuators (kx_cmd k)) \<in> {0, 7} \<and>
    (lr_pc r = LpRun \<longrightarrow> lr_connected r \<and> owed arm (kx_trace k) = revert_calls \<and> length (cm_actuators (kx_cmd k)) = 7 \<and>
       (\<exists>h. ar_cyclic arm h = CyFrame True (kx_fb k))) \<and>
    ((\<exists>n. lr_pc r = LpWait n) \<longrightarrow> lr_connected r \<and> \<not> kx_low_level k \<and> owed arm (kx_trace k) = [])"
  using lk_reach_ok [OF assms]
  by (auto simp: lk_ok_def net_ok_def dues_ok_def message_ok_def run_ok_def heard_def pc_defs)

subsection \<open>A faulted arm is not commanded\<close>

text \<open>The calls that can move the arm: commands, entering low-level servoing, switching an actuator for a mode.\<close>

definition moves_arm :: "kx_call \<Rightarrow> bool" where
  "moves_arm c = (case c of KcRefresh _ \<Rightarrow> True | KcRefreshCommand _ \<Rightarrow> True | KcSetServoing LowLevel _ \<Rightarrow> True
     | KcSetControlMode m _ _ \<Rightarrow> m \<noteq> AmPosition | _ \<Rightarrow> False)"

definition calm_calls :: "kx \<Rightarrow> kx \<Rightarrow> bool" where
  "calm_calls k k' \<longleftrightarrow> (\<exists>new. kx_trace k' = new @ kx_trace k \<and> (\<forall>c \<in> set new. \<not> moves_arm c))"

lemma calm_refl [simp]: "calm_calls k k"
  by (simp add: calm_calls_def)

lemma calm_trans: "calm_calls k1 k2 \<Longrightarrow> calm_calls k2 k3 \<Longrightarrow> calm_calls k1 k3"
  unfolding calm_calls_def by (metis append.assoc set_append Un_iff)

lemma calm_issue: "\<not> moves_arm c \<Longrightarrow> calm_calls k (issue c k)"
  by (auto simp: calm_calls_def issue_def)

lemma calm_same: "kx_trace k' = kx_trace k \<Longrightarrow> calm_calls k k'"
  by (simp add: calm_calls_def)

lemma calm_sdk_do: "sdk_do err arm c k = (r, k') \<Longrightarrow> \<not> moves_arm c \<Longrightarrow> calm_calls k k'"
  using calm_issue by (auto simp: sdk_do_def Let_def split: option.splits)

lemma calm_sdk_get: "sdk_get reply c k = (r, k') \<Longrightarrow> \<not> moves_arm c \<Longrightarrow> calm_calls k k'"
  using calm_issue by (auto simp: sdk_get_def Let_def split: sum.splits)

lemma calm_arm_in_fault: "arm_in_fault arm k = (r, k') \<Longrightarrow> calm_calls k k'"
  using calm_sdk_get [of "ar_state arm" KcArmState k]
  by (cases "sdk_get (ar_state arm) KcArmState k")
    (auto simp: arm_in_fault_def kx_then_def moves_arm_def split: if_splits sum.splits)

lemma calm_receive:
  assumes "kx_receive arm fb k = Some (r, k')"
  shows "calm_calls k k'"
proof -
  have i: "calm_calls k (issue KcRefreshFeedback k)" by (rule calm_issue) (simp add: moves_arm_def)
  then show ?thesis using assms
    by (auto simp: kx_receive_def filled_def kx_then_def cyclic_call_def parse_feedback_def Let_def calm_calls_def
        split: option.splits sum.splits prod.splits)
qed

lemma calm_attempt: "\<not> moves_arm c \<Longrightarrow> calm_calls k (snd (attempt arm c k))"
  using calm_issue [of c k] by (simp add: attempt_def Let_def)

lemma calm_revert: "calm_calls k (snd (revert_actuators arm devs k))"
proof (induction devs arbitrary: k)
  case (Cons d devs)
  obtain ok k1 where a: "attempt arm (KcSetControlMode AmPosition d True) k = (ok, k1)" by fastforce
  have "calm_calls k k1" using calm_attempt [of "KcSetControlMode AmPosition d True" k arm] a by (simp add: moves_arm_def)
  then show ?case using a calm_trans [OF _ Cons.IH [of k1]] by simp
qed simp


lemma calm_release: "calm_calls k (release_low_level arm k)"
proof (cases "kx_low_level k")
  case True
  let ?k = "k\<lparr>kx_low_level := False\<rparr>"
  obtain ok k1 where r: "(if ObActuators \<in> kx_alive ?k \<and> 0 < kx_n ?k then revert_actuators arm [1..<kx_n ?k + 1] ?k else (True, ?k)) = (ok, k1)"
    by fastforce
  have 1: "calm_calls ?k k1" using r calm_revert [of ?k arm "[1..<kx_n ?k + 1]"] by (auto split: if_splits)
  obtain ok2 k2 where s: "(if ok \<and> ObBase \<in> kx_alive k1 then attempt arm (KcSetServoing SingleLevel True) k1 else (ok, k1)) = (ok2, k2)"
    by fastforce
  have 2: "calm_calls k1 k2"
    using s calm_attempt [of "KcSetServoing SingleLevel True" k1 arm] by (auto simp: moves_arm_def split: if_splits)
  have "release_low_level arm k = k2\<lparr>kx_unanswered := \<not> ok2\<rparr>"
    using True r s by (simp add: release_low_level_def Let_def)
  then show ?thesis using calm_trans [OF 1 2] by (simp add: calm_calls_def)
qed (simp add: release_low_level_def)

lemma calm_quietly: "\<not> moves_arm c \<Longrightarrow> calm_calls k (quietly c b k)"
  using calm_issue by (simp add: quietly_def)

lemma calm_shutdown: "calm_calls k (safe_shutdown arm k)"
proof -
  let ?k = "release_low_level arm k"
  define k1 where "k1 = quietly (KcCloseSession True) (ObTcpSession \<in> kx_alive ?k \<and> \<not> kx_unanswered ?k) ?k"
  define k2 where "k2 = quietly (KcCloseSession False) (ObUdpSession \<in> kx_alive ?k \<and> \<not> kx_unanswered ?k) k1"
  define k3 where "k3 = k2\<lparr>kx_unanswered := False\<rparr>"
  define k4 where "k4 = quietly (KcDisconnect True) (ObTcp \<in> kx_alive k3) k3"
  define k5 where "k5 = quietly (KcDisconnect False) (ObUdp \<in> kx_alive k4) k4"
  have calls: "calm_calls ?k k1" "calm_calls k1 k2" "calm_calls k3 k4" "calm_calls k4 k5"
    unfolding k1_def k2_def k4_def k5_def by (rule calm_quietly, simp add: moves_arm_def)+
  moreover have "calm_calls k2 k3" by (rule calm_same) (simp add: k3_def)
  ultimately have "calm_calls ?k k5" by (blast intro: calm_trans)
  then have "calm_calls ?k (safe_shutdown arm k)"
    by (simp add: safe_shutdown_def Let_def k1_def k2_def k3_def k4_def k5_def calm_calls_def)
  then show ?thesis using calm_trans calm_release by blast
qed

lemma calm_after_catch: "calm_calls k (after_catch arm e k)"
  using calm_shutdown by (simp add: after_catch_def split: exn.split)

lemma calm_create [simp]: "calm_calls k (create x k)"
  by (simp add: calm_calls_def create_def)

lemma calm_open_session: "open_session arm k = (r, k') \<Longrightarrow> calm_calls k k'"
  by (auto simp: open_session_def sdk_do_def issue_def create_def Let_def kx_then_def calm_calls_def moves_arm_def split: option.splits)

lemma calm_probe_all: "probe_all arm devs k = (r, k') \<Longrightarrow> calm_calls k k'"
proof (induction devs arbitrary: k)
  case (Cons d devs)
  have p: "calm_calls j j'" if "probe arm d j = (s, j')" for s j j'
    using that calm_sdk_do [of rpc_error arm "KcGetControlMode d" j]
    by (auto simp: probe_def moves_arm_def split: prod.splits sum.splits)
  from Cons.prems show ?case unfolding probe_all.simps by (elim kept_thenE) (blast intro: calm_trans p Cons.IH)+
qed simp

lemma calm_then:
  assumes "calm_calls k (snd r)" and "\<And>a k1. r = (Inr a, k1) \<Longrightarrow> calm_calls k1 (snd (f a k1))"
  shows "calm_calls k (snd (kx_then r f))"
  using assms calm_trans by (cases r; cases "fst r") auto

lemma calm_connect_routed: "calm_calls k (snd (connect_routed arm k))"
proof -
  have count: "calm_calls j (snd (sdk_get (ar_count arm) KcActuatorCount j))" for j
    by (rule calm_sdk_get [OF surjective_pairing]) (simp add: moves_arm_def)
  have checked: "calm_calls j (snd (check_count n j))" for n j by (simp add: check_count_cases calm_calls_def)
  have flag: "calm_calls j (j\<lparr>kx_connected := True\<rparr>)" for j by (rule calm_same) simp
  have rest: "calm_calls j (snd (kx_then (sdk_get (ar_count arm) KcActuatorCount j) (\<lambda>n k. kx_then (check_count n k)
      (\<lambda>_ k. kx_then (probe_all arm [1..<kx_n k + 1] k) (\<lambda>_ k. (Inr (), k\<lparr>kx_connected := True\<rparr>))))))" for j
    by (intro calm_then count checked calm_probe_all [OF surjective_pairing]) (simp add: flag)
  show ?thesis using calm_then [OF calm_open_session [OF surjective_pairing] rest]
    by (simp add: connect_routed_def del: upt_Suc)
qed

lemma calm_connect: "calm_calls k (snd (kx_connect nw ip arm k))"
  by (cases rule: kx_connect_cases [of nw ip arm k]) (simp_all add: calm_connect_routed)

text \<open>A step from a held state makes no call that moves the arm, whatever the state of the transport.\<close>

lemma calm_held_step:
  assumes "lk_step ip arm cfg (r, k) (r', k')" and "held r"
  shows "calm_calls k k'"
  using assms
proof (induction "(r, k)" "(r', k')" rule: lk_step.induct)
  case (ls_connect_ok nw)
  then show ?case using calm_connect [of k nw ip arm] by simp
next
  case (ls_connect_config nw e k1 w)
  then show ?case using calm_connect [of k nw ip arm] calm_trans calm_shutdown by fastforce
next
  case (ls_connect_fails nw e k1)
  then show ?case using calm_connect [of k nw ip arm] calm_trans calm_shutdown by fastforce
next
  case (ls_check_throws e k1)
  then show ?case using calm_trans calm_arm_in_fault calm_after_catch by blast
next
  case (ls_wait_lost n e k1 x)
  then show ?case using calm_trans calm_arm_in_fault calm_after_catch by blast
next
  case (ls_wait_poll n fb res)
  then show ?case using calm_receive by blast
qed (auto simp: held_def intro: calm_shutdown calm_release calm_arm_in_fault)

lemma calm_quiet:
  assumes "lk_quiet ip arm cfg x x'" and "held (fst x)"
  shows "held (fst x') \<and> calm_calls (snd x) (snd x')"
  using assms
proof (induction rule: lk_quiet.induct)
  case (lq_step y y')
  then have h: "held (fst y)" "calm_calls (snd x) (snd y)" by simp_all
  obtain r k r' k' where y: "y = (r, k)" "y' = (r', k')" by fastforce
  then have "held r'" using lk_step_link [of ip arm cfg r k r' k'] lq_step(2) h(1) held_step [of cfg r r'] by auto
  moreover have "calm_calls k k'" using calm_held_step [of ip arm cfg r k r' k'] lq_step(2) h(1) y by simp
  ultimately show ?case using h(2) y calm_trans [of "snd x" k k'] by simp
qed simp

text \<open>
  Claim C8. A faulted arm is not moved by this driver. From the moment the executor's run ends in an
  exception -- a fault, lost communication, a rejected command -- and until a clear is requested,
  through handing the arm back, polling, losing it and reconnecting, every call the transport makes
  is one that cannot move the arm: no cyclic command, no entry into low-level servoing, and no
  actuator set to a mode other than position. (\<open>k\<close> is the transport as the call that threw left it.)
\<close>

theorem faulted_arm_not_moved:
  assumes "lk_reach ip arm cfg (r, k0)" and "lr_pc r = LpRun"
    and "lk_quiet ip arm cfg (lr_at LpTop (catch e r), after_catch arm e k) (r', k')"
  shows "\<exists>new. kx_trace k' = new @ kx_trace k \<and> (\<forall>c \<in> set new. \<not> moves_arm c)"
proof -
  have "link_ok r" using lk_reach_link [OF assms(1)] link_ok_reach by simp
  then have "held (lr_at LpTop (catch e r))"
    using assms(2) catch_clear_requested [of e r] by (auto simp: held_def link_ok_def)
  then show ?thesis
    using calm_quiet [OF assms(3)] calm_trans [OF calm_after_catch [of k arm e], of k'] by (auto simp: calm_calls_def)
qed

subsection \<open>An obedient arm\<close>

lemma demo_serves: "\<exists>k'. set_servoing_low_level demo_arm k = (Inr (), k')"
proof -
  have refresh: "\<exists>k'. refresh demo_arm k = (Inr (), k')" for k by (simp add: refresh_replies demo_arm_def issue_def Let_def)
  then show ?thesis
    by (simp add: set_servoing_low_level_def sdk_do_def cyclic_call_def cyclic_error_def cyclic_payload_def parse_feedback_def
        demo_arm_def issue_def Let_def)
qed

lemma demo_enters: "\<exists>k'. enter_servoing demo_arm k = (Inr (), k')"
  using demo_serves [of k] switch_returns by (auto simp: enter_servoing_def)

lemma demo_stack_runs: "\<exists>r k. lk_reach ''192.168.1.10'' demo_arm demo_link_config (r, k) \<and> lr_pc r = LpRun"
proof -
  let ?reach = "lk_reach ''192.168.1.10'' demo_arm demo_link_config"
  let ?r0 = "link_start arm_link_init"
  let ?r1 = "lr_at LpTry (connected (lr_at LpConnect ?r0))"
  let ?r2 = "after_check False ?r1"
  obtain k1 where c: "kx_connect demo_net ''192.168.1.10'' demo_arm kx_init = (Inr (), k1)" using demo_connects by blast
  have "?reach (lr_at LpConnect ?r0, kx_init)"
    by (rule lk_move [OF lk_start ls_go_connect]) (simp_all add: link_start_def)
  then have r1: "?reach (?r1, k1)" by (rule lk_move [OF _ ls_connect_ok [where nw = demo_net]]) (simp_all add: c)
  have alive: "kx_alive k1 = UNIV" using connect_state [OF c] by simp
  then obtain k2 where f: "arm_in_fault demo_arm k1 = (Inr False, k2)"
    by (simp add: arm_in_fault_def sdk_get_def demo_arm_def Let_def)
  have l: "\<not> al_latched (lr_link ?r1)" by simp (simp add: link_start_def arm_link_init_def)
  have r2: "?reach (?r2, k2)" by (rule lk_move [OF r1 ls_check [OF _ l f]]) simp
  have p: "lr_pc ?r2 = LpEnter" using l by (simp add: after_check_def)
  obtain k3 where e: "enter_servoing demo_arm k2 = (Inr (), k3)" using demo_enters by blast
  have "?reach (lr_at LpRun ((on_link (set_state LkRunning [] False) ?r2)\<lparr>lr_commanding := True\<rparr>), k3)"
    by (rule lk_move [OF r2 ls_entered [OF p e]])
  then show ?thesis by (intro exI conjI) (assumption, simp)
qed

theorem transport_in_order_witness:
  "\<exists>(r :: link_run) k. lk_reach ''192.168.1.10'' demo_arm demo_link_config (r, k) \<and> owed demo_arm (kx_trace k) = revert_calls \<and>
     length (cm_actuators (kx_cmd k)) = 7"
proof -
  obtain r k where "lk_reach ''192.168.1.10'' demo_arm demo_link_config (r, k)" "lr_pc r = LpRun" using demo_stack_runs by blast
  then show ?thesis using transport_in_order by blast
qed

theorem faulted_arm_not_moved_witness:
  "\<exists>(r :: link_run) k new. lk_reach ''192.168.1.10'' demo_arm demo_link_config (r, k) \<and> lr_pc r = LpRun \<and>
     kx_trace (after_catch demo_arm (ExcTimeout ''no reply'') k) = new @ kx_trace k \<and> (\<forall>c \<in> set new. \<not> moves_arm c)"
proof -
  obtain r k where r: "lk_reach ''192.168.1.10'' demo_arm demo_link_config (r, k)" "lr_pc r = LpRun" using demo_stack_runs by blast
  from faulted_arm_not_moved [OF r lq_start] r show ?thesis by blast
qed

end
