(* ===== verification/Command_Line.thy ===== *)
theory Command_Line
  imports Teleop_Server Link_Kortex Sim_Transport
begin

section \<open>The command-line programs: arguments and conversation\<close>

text \<open>
  What the programs under \<open>apps/\<close> share: the loop over the arguments, the checks before the arm is
  touched, and the conversation with the transport. The texts they print are left out. The C++
  library's conversions and the loading of the rigid-body model are the parameter \<open>library\<close>; each
  is \<open>None\<close> where it throws.
\<close>

subsection \<open>Arguments\<close>

text \<open>How a program ends: with an exit code, or by an exception that leaves \<open>main\<close>.\<close>

datatype ended = Ended int | Crashed

record library =
  lb_stod :: "string \<Rightarrow> (dbl \<times> nat) option"
  lb_stoi :: "string \<Rightarrow> int option"
  lb_model :: "string \<Rightarrow> string \<Rightarrow> dynamics option"

datatype 'c opt = OptFlag "'c \<Rightarrow> 'c" | OptValue "string \<Rightarrow> 'c \<Rightarrow> ended + 'c" | OptUnknown

definition text_opt :: "(string \<Rightarrow> 'c \<Rightarrow> 'c) \<Rightarrow> 'c opt" where
  "text_opt f = OptValue (\<lambda>v c. Inr (f v c))"

definition num_opt :: "library \<Rightarrow> (dbl \<Rightarrow> 'c \<Rightarrow> 'c) \<Rightarrow> 'c opt" where
  "num_opt lb f = OptValue (\<lambda>v c. case lb_stod lb v of None \<Rightarrow> Inl Crashed | Some (x, _) \<Rightarrow> Inr (f x c))"

definition int_opt :: "library \<Rightarrow> (int \<Rightarrow> 'c \<Rightarrow> 'c) \<Rightarrow> 'c opt" where
  "int_opt lb f = OptValue (\<lambda>v c. case lb_stoi lb v of None \<Rightarrow> Inl Crashed | Some n \<Rightarrow> Inr (f n c))"

definition vec_opt :: "library \<Rightarrow> (jointvec \<Rightarrow> 'c \<Rightarrow> 'c) \<Rightarrow> 'c opt" where
  "vec_opt lb f = OptValue (\<lambda>v c. case parse_joint_vec (lb_stod lb) v of None \<Rightarrow> Inl (Ended 2) | Some x \<Rightarrow> Inr (f x c))"

text \<open>\<open>table\<close> is the program's chain of comparisons. A missing value and an unknown argument exit with 2.\<close>

fun parse_argv :: "(string \<Rightarrow> 'c opt) \<Rightarrow> string list \<Rightarrow> 'c \<Rightarrow> ended + 'c" where
  "parse_argv table [] c = Inr c"
| "parse_argv table [a] c = (case table a of OptFlag f \<Rightarrow> Inr (f c) | _ \<Rightarrow> Inl (Ended 2))"
| "parse_argv table (a # v # as) c =
     (case table a of
        OptUnknown \<Rightarrow> Inl (Ended 2)
      | OptFlag f \<Rightarrow> parse_argv table (v # as) (f c)
      | OptValue f \<Rightarrow> (case f v c of Inl e \<Rightarrow> Inl e | Inr c1 \<Rightarrow> parse_argv table as c1))"

subsection \<open>The options they share\<close>

record run_options =
  op_ip :: string
  op_urdf :: string
  op_ee_frame :: string
  op_csv :: string
  op_pacing :: string
  op_sim :: bool
  op_dry_run :: bool
  op_rate :: dbl
  op_cpu :: int
  op_rt_priority :: int
  op_duration :: dbl

definition run_options0 :: "dbl \<Rightarrow> run_options" where
  "run_options0 d = \<lparr>op_ip = [], op_urdf = [], op_ee_frame = ''arm_end_effector_link'', op_csv = [], op_pacing = ''sleepspin'',
     op_sim = False, op_dry_run = False, op_rate = Fin 1000, op_cpu = -1, op_rt_priority = 80, op_duration = d\<rparr>"

text \<open>Of these, a program knows the ones in \<open>names\<close>.\<close>

definition shared_opt :: "library \<Rightarrow> string list \<Rightarrow> string \<Rightarrow> 'a run_options_scheme opt" where
  "shared_opt lb names a =
     (if a \<notin> set names then OptUnknown
      else if a = ''--ip'' then text_opt (\<lambda>v. op_ip_update (\<lambda>_. v))
      else if a = ''--sim'' then OptFlag (op_sim_update (\<lambda>_. True))
      else if a = ''--dry-run'' then OptFlag (op_dry_run_update (\<lambda>_. True))
      else if a = ''--urdf'' then text_opt (\<lambda>v. op_urdf_update (\<lambda>_. v))
      else if a = ''--ee-frame'' then text_opt (\<lambda>v. op_ee_frame_update (\<lambda>_. v))
      else if a = ''--rate'' then num_opt lb (\<lambda>x. op_rate_update (\<lambda>_. x))
      else if a = ''--cpu'' then int_opt lb (\<lambda>n. op_cpu_update (\<lambda>_. n))
      else if a = ''--rt-priority'' then int_opt lb (\<lambda>n. op_rt_priority_update (\<lambda>_. n))
      else if a = ''--pacing'' then text_opt (\<lambda>v. op_pacing_update (\<lambda>_. v))
      else if a = ''--csv'' then text_opt (\<lambda>v. op_csv_update (\<lambda>_. v))
      else if a = ''--duration'' then num_opt lb (\<lambda>x. op_duration_update (\<lambda>_. x))
      else OptUnknown)"

definition base_names :: "string list" where
  "base_names = [''--ip'', ''--sim'', ''--rate'', ''--cpu'', ''--rt-priority'', ''--pacing'']"

definition model_names :: "string list" where
  "model_names = [''--urdf'', ''--ee-frame''] @ base_names"

datatype pacing = SleepSpin | ClockNanosleep

definition pacing_of :: "string \<Rightarrow> pacing option" where
  "pacing_of s = (if s = ''nanosleep'' then Some ClockNanosleep else if s = ''sleepspin'' then Some SleepSpin else None)"

text \<open>The checks every program with a model makes: a model file, a known pacing.\<close>

definition base_refused :: "'a run_options_scheme \<Rightarrow> bool" where
  "base_refused c \<longleftrightarrow> op_urdf c = [] \<or> pacing_of (op_pacing c) = None"

datatype connection = ToSim | ToArm string

definition choose_transport :: "'a run_options_scheme \<Rightarrow> ended + connection" where
  "choose_transport c = (if op_sim c then Inr ToSim else if op_ip c = [] then Inl (Ended 2) else Inr (ToArm (op_ip c)))"

text \<open>Everything up to the transport: arguments, the program's own checks, the model, the address.\<close>

definition start_program ::
    "library \<Rightarrow> (string \<Rightarrow> 'a run_options_scheme opt) \<Rightarrow> ('a run_options_scheme \<Rightarrow> bool) \<Rightarrow> 'a run_options_scheme \<Rightarrow> string list
       \<Rightarrow> ended + ('a run_options_scheme \<times> dynamics \<times> connection)" where
  "start_program lb table refused c0 argv =
     (case parse_argv table argv c0 of Inl e \<Rightarrow> Inl e
      | Inr c \<Rightarrow> if refused c then Inl (Ended 2)
          else (case lb_model lb (op_urdf c) (op_ee_frame c) of None \<Rightarrow> Inl (Ended 2)
                | Some dyn \<Rightarrow> (case choose_transport c of Inl e \<Rightarrow> Inl e | Inr t \<Rightarrow> Inr (c, dyn, t))))"

lemma start_program_Inr_iff:
  "start_program lb table refused c0 argv = Inr (c, dyn, t) \<longleftrightarrow>
     parse_argv table argv c0 = Inr c \<and> \<not> refused c \<and> lb_model lb (op_urdf c) (op_ee_frame c) = Some dyn \<and> choose_transport c = Inr t"
  by (auto simp: start_program_def split: sum.splits option.splits)

subsection \<open>What parsing keeps\<close>

text \<open>What the options that occur keep, with the values that occur, parsing keeps.\<close>

definition keeps_on :: "string set \<Rightarrow> ('c \<Rightarrow> bool) \<Rightarrow> 'c opt \<Rightarrow> bool" where
  "keeps_on V P x \<longleftrightarrow> (case x of OptFlag f \<Rightarrow> \<forall>c. P c \<longrightarrow> P (f c) | OptValue f \<Rightarrow> \<forall>v \<in> V. \<forall>c c'. P c \<longrightarrow> f v c = Inr c' \<longrightarrow> P c' | OptUnknown \<Rightarrow> True)"

lemma keeps_on_if: "(b \<Longrightarrow> keeps_on V P x) \<Longrightarrow> (\<not> b \<Longrightarrow> keeps_on V P y) \<Longrightarrow> keeps_on V P (if b then x else y)"
  by simp

lemma keeps_on_flag: "(\<And>c. P c \<Longrightarrow> P (f c)) \<Longrightarrow> keeps_on V P (OptFlag f)"
  and keeps_on_text: "(\<And>v c. P c \<Longrightarrow> P (g v c)) \<Longrightarrow> keeps_on V P (text_opt g)"
  and keeps_on_unknown: "keeps_on V P OptUnknown"
  by (simp_all add: keeps_on_def text_opt_def)

lemma keeps_on_num: "(\<And>x c. P c \<Longrightarrow> P (f x c)) \<Longrightarrow> keeps_on V P (num_opt lb f)"
  by (auto simp: keeps_on_def num_opt_def split: option.splits)

lemma keeps_on_int: "(\<And>x c. P c \<Longrightarrow> P (f x c)) \<Longrightarrow> keeps_on V P (int_opt lb f)"
  by (auto simp: keeps_on_def int_opt_def split: option.splits)

lemma keeps_on_vec:
  "(\<And>v x c. v \<in> V \<Longrightarrow> parse_joint_vec (lb_stod lb) v = Some x \<Longrightarrow> P c \<Longrightarrow> P (f x c)) \<Longrightarrow> keeps_on V P (vec_opt lb f)"
  by (auto simp: keeps_on_def vec_opt_def split: option.splits)

lemmas keeps_on_intros = keeps_on_if keeps_on_flag keeps_on_text keeps_on_unknown keeps_on_num keeps_on_int keeps_on_vec

lemma parse_argv_keeps_on:
  assumes "\<And>a. a \<in> V \<Longrightarrow> keeps_on V P (table a)"
  shows "parse_argv table as c = Inr c' \<Longrightarrow> P c \<Longrightarrow> set as \<subseteq> V \<Longrightarrow> P c'"
proof (induction as arbitrary: c rule: induct_list012)
  case (2 a)
  then show ?case using assms [of a] by (cases "table a") (auto simp: keeps_on_def)
next
  case (3 a v as)
  show ?case
  proof (cases "table a")
    case (OptValue f)
    then show ?thesis using 3 assms [of a] by (cases "f v c") (auto simp: keeps_on_def)
  qed (use 3 assms [of a] in \<open>auto simp: keeps_on_def\<close>)
qed simp

text \<open>How parsing goes wrong: an exception only comes out of a conversion.\<close>

lemma parse_argv_unknown: "table a = OptUnknown \<Longrightarrow> parse_argv table (a # as) c = Inl (Ended 2)"
  by (cases as) simp_all

lemma parse_argv_missing: "table a = OptValue f \<Longrightarrow> parse_argv table [a] c = Inl (Ended 2)"
  by simp

lemma parse_argv_flag: "table a = OptFlag f \<Longrightarrow> parse_argv table (a # as) c = parse_argv table as (f c)"
  by (cases as) simp_all

lemma parse_argv_value: "table a = OptValue f \<Longrightarrow> f v c = Inr c1 \<Longrightarrow> parse_argv table (a # v # as) c = parse_argv table as c1"
  by simp

lemma parse_argv_crash: "table a = OptValue f \<Longrightarrow> f v c = Inl e \<Longrightarrow> parse_argv table (a # v # as) c = Inl e"
  by simp


subsection \<open>The conversation with the transport\<close>

text \<open>
  The calls a program makes. No program catches what they throw. \<open>None\<close> is a call that does not return.
\<close>

record 't transport_ops =
  to_connect :: "'t \<Rightarrow> (ended + unit) \<times> 't"
  to_receive :: "joint_feedback \<Rightarrow> 't \<Rightarrow> ((ended + joint_feedback) \<times> 't) option"
  to_servoing :: "'t \<Rightarrow> (ended + unit) \<times> 't"
  to_shutdown :: "'t \<Rightarrow> 't"

fun read_times :: "'t transport_ops \<Rightarrow> nat \<Rightarrow> joint_feedback \<Rightarrow> 't \<Rightarrow> ((ended + joint_feedback) \<times> 't) option" where
  "read_times ops 0 fb t = Some (Inr fb, t)"
| "read_times ops (Suc n) fb t =
     (case to_receive ops fb t of
        None \<Rightarrow> None
      | Some (Inl e, t1) \<Rightarrow> Some (Inl e, t1)
      | Some (Inr fb1, t1) \<Rightarrow> read_times ops n fb1 t1)"

text \<open>\<open>--dry-run\<close>: connect, read, close.\<close>

definition dry_session :: "'t transport_ops \<Rightarrow> nat \<Rightarrow> 't \<Rightarrow> (ended \<times> 't) option" where
  "dry_session ops n t =
     (case to_connect ops t of
        (Inl e, t1) \<Rightarrow> Some (e, t1)
      | (Inr _, t1) \<Rightarrow>
          (case read_times ops n joint_feedback0 t1 of
             None \<Rightarrow> None
           | Some (Inl e, t2) \<Rightarrow> Some (e, t2)
           | Some (Inr _, t2) \<Rightarrow> Some (Ended 0, to_shutdown ops t2)))"

text \<open>
  How the programs differ: whether the dry run reads until it is stopped or once, whether the entry
  configuration is read first, and the exit code when Ctrl-C is seen before low-level servoing, where
  the program looks.
\<close>

record conversation =
  cv_dry_loop :: bool
  cv_reads_entry :: bool
  cv_stop_code :: "int option"

text \<open>
  \<open>run\<close> is what happens between entering low-level servoing and closing, with the exit code; \<open>None\<close> is
  an exception (\<open>RtExecutor::run\<close> throws on comms loss and on a fault): with running threads the process
  is then terminated, and no destructor of the transport runs.
\<close>

definition live_session ::
    "'t transport_ops \<Rightarrow> conversation \<Rightarrow> bool \<Rightarrow> (joint_feedback \<Rightarrow> 't \<Rightarrow> int option \<times> 't) \<Rightarrow> 't \<Rightarrow> (ended \<times> 't) option" where
  "live_session ops cv stopped run t =
     (case to_connect ops t of
        (Inl e, t1) \<Rightarrow> Some (e, t1)
      | (Inr _, t1) \<Rightarrow>
          (case read_times ops (if cv_reads_entry cv then 1 else 0) joint_feedback0 t1 of
             None \<Rightarrow> None
           | Some (Inl e, t2) \<Rightarrow> Some (e, t2)
           | Some (Inr fb, t2) \<Rightarrow>
               Some (case (stopped, cv_stop_code cv) of
                       (True, Some code) \<Rightarrow> (Ended code, to_shutdown ops t2)
                     | _ \<Rightarrow> (case to_servoing ops t2 of
                               (Inl e, t3) \<Rightarrow> (e, t3)
                             | (Inr _, t3) \<Rightarrow> (case run fb t3 of
                                                (None, t4) \<Rightarrow> (Crashed, t4)
                                              | (Some code, t4) \<Rightarrow> (Ended code, to_shutdown ops t4))))))"

text \<open>\<open>n\<close> is how often a looping dry run reads, \<open>stopped\<close> whether Ctrl-C came before servoing.\<close>

definition run_program ::
    "'t transport_ops \<Rightarrow> conversation \<Rightarrow> nat \<Rightarrow> bool \<Rightarrow> (joint_feedback \<Rightarrow> 't \<Rightarrow> int option \<times> 't) \<Rightarrow> 'a run_options_scheme
       \<Rightarrow> 't \<Rightarrow> (ended \<times> 't) option" where
  "run_program ops cv n stopped run c t =
     (if op_dry_run c then dry_session ops (if cv_dry_loop cv then n else 1) t else live_session ops cv stopped run t)"

text \<open>The two transports. What they throw ends the program.\<close>

definition uncaught :: "('e + 'a) \<times> 't \<Rightarrow> (ended + 'a) \<times> 't" where
  "uncaught r = (case r of (Inl _, t) \<Rightarrow> (Inl Crashed, t) | (Inr a, t) \<Rightarrow> (Inr a, t))"

definition kortex_ops :: "net \<Rightarrow> string \<Rightarrow> kortex_arm \<Rightarrow> kx transport_ops" where
  "kortex_ops nw ip arm =
     \<lparr>to_connect = \<lambda>k. uncaught (kx_connect nw ip arm k), to_receive = \<lambda>fb k. map_option uncaught (kx_receive arm fb k),
      to_servoing = \<lambda>k. uncaught (set_servoing_low_level arm k), to_shutdown = safe_shutdown arm\<rparr>"

definition sim_ops :: "bool \<Rightarrow> sim transport_ops" where
  "sim_ops whole =
     \<lparr>to_connect = \<lambda>s. uncaught (si_connect s), to_receive = \<lambda>_ s. map_option (\<lambda>(fb, s). (Inr fb, s)) (si_receive whole s),
      to_servoing = \<lambda>s. (Inr (), si_set_servoing_low_level s), to_shutdown = si_safe_shutdown\<rparr>"

subsection \<open>Reading moves nothing\<close>

text \<open>
  A transport whose calls for reading are harmless: \<open>calm\<close> relates a state to one with nothing that
  moves the arm in between.
\<close>

locale read_only =
  fixes ops :: "'t transport_ops" and calm :: "'t \<Rightarrow> 't \<Rightarrow> bool"
  assumes calm_trans: "calm t1 t2 \<Longrightarrow> calm t2 t3 \<Longrightarrow> calm t1 t3"
    and connect_calm: "to_connect ops t = (r, t') \<Longrightarrow> calm t t'"
    and receive_calm: "to_receive ops fb t = Some (x, t') \<Longrightarrow> calm t t'"
    and shutdown_calm: "calm t (to_shutdown ops t)"
begin

lemma read_times_calm: "read_times ops n fb t = Some (x, t') \<Longrightarrow> t' = t \<or> calm t t'"
proof (induction n arbitrary: fb t)
  case (Suc n)
  then obtain y t1 where r: "to_receive ops fb t = Some (y, t1)" by (auto split: option.splits)
  then have c: "calm t t1" by (rule receive_calm)
  show ?case
  proof (cases y)
    case (Inr fb1)
    then have "t' = t1 \<or> calm t1 t'" using Suc.prems r by (intro Suc.IH) simp
    then show ?thesis using c calm_trans by metis
  qed (use Suc.prems r c in simp)
qed simp

lemma dry_session_calm:
  assumes "dry_session ops n t = Some (x, t')"
  shows "calm t t'"
proof -
  obtain r t1 where c: "to_connect ops t = (r, t1)" by fastforce
  have c1: "calm t t1" using connect_calm [OF c] .
  show ?thesis
  proof (cases r)
    case (Inr u)
    then obtain y t2 where rd: "read_times ops n joint_feedback0 t1 = Some (y, t2)"
      using assms c by (auto simp: dry_session_def split: option.splits)
    have c2: "calm t t2" using read_times_calm [OF rd] c1 calm_trans by metis
    show ?thesis
    proof (cases y)
      case Inl
      then show ?thesis using assms c rd Inr c2 by (simp add: dry_session_def)
    next
      case (Inr fb)
      then have "t' = to_shutdown ops t2" using assms c rd \<open>r = Inr u\<close> by (simp add: dry_session_def)
      then show ?thesis using c2 shutdown_calm calm_trans by metis
    qed
  qed (use assms c c1 in \<open>simp add: dry_session_def\<close>)
qed

end

lemma uncaught_snd [simp]: "snd (uncaught r) = snd r"
  by (auto simp: uncaught_def split: prod.split sum.split)

interpretation kortex_reads: read_only "kortex_ops nw ip arm" calm_calls for nw ip arm
proof (unfold_locales, goal_cases)
  case (2 t r t')
  then show ?case using calm_connect [of t nw ip arm] uncaught_snd [of "kx_connect nw ip arm t"] by (simp add: kortex_ops_def)
next
  case (3 fb t x t')
  then obtain r where "kx_receive arm fb t = Some r" "uncaught r = (x, t')" by (auto simp: kortex_ops_def)
  then show ?case using calm_receive [of arm fb t "fst r" "snd r"] uncaught_snd [of r] by simp
qed (use calm_trans calm_shutdown in \<open>auto simp: kortex_ops_def\<close>)

text \<open>The simulated arm: no command latched, low-level servoing not entered.\<close>

definition sim_calm :: "sim \<Rightarrow> sim \<Rightarrow> bool" where
  "sim_calm s s' \<longleftrightarrow> si_last_cmd s' = si_last_cmd s \<and> si_frame s' = si_frame s \<and> si_low_level_entries s' = si_low_level_entries s"

interpretation sim_reads: read_only "sim_ops whole" sim_calm for whole
proof (unfold_locales, goal_cases)
  case (2 t r t')
  then show ?case by (auto simp: sim_ops_def si_connect_def uncaught_def Let_def sim_calm_def split: if_splits)
next
  case (3 fb t x t')
  then show ?case by (auto simp: sim_ops_def si_receive_def report_wrapped_def Let_def sim_calm_def split: option.splits if_splits Option.bind_splits)
qed (auto simp: sim_ops_def si_safe_shutdown_def sim_calm_def)

subsection \<open>A program that ends hands the arm back\<close>

text \<open>
  A transport that gives the arm back: from a \<open>fresh\<close> one every call that returns keeps it \<open>up\<close>, its
  shutdown then leaves it \<open>idle\<close>, and of its calls only exceptions end the program.
\<close>

locale handing_back =
  fixes ops :: "'t transport_ops" and fresh up idle :: "'t \<Rightarrow> bool"
  assumes connect_up: "fresh t \<Longrightarrow> to_connect ops t = (Inr u, t') \<Longrightarrow> up t'"
    and receive_up: "up t \<Longrightarrow> to_receive ops fb t = Some (Inr fb', t') \<Longrightarrow> up t'"
    and servoing_up: "up t \<Longrightarrow> to_servoing ops t = (Inr u, t') \<Longrightarrow> up t'"
    and shutdown_idle: "up t \<Longrightarrow> idle (to_shutdown ops t)"
    and connect_throws: "to_connect ops t = (Inl e, t') \<Longrightarrow> e = Crashed"
    and receive_throws: "to_receive ops fb t = Some (Inl e, t') \<Longrightarrow> e = Crashed"
    and servoing_throws: "to_servoing ops t = (Inl e, t') \<Longrightarrow> e = Crashed"
begin

lemma read_times_throws: "read_times ops n fb t = Some (Inl e, t') \<Longrightarrow> e = Crashed"
  by (induction n arbitrary: fb t) (auto dest: receive_throws split: option.splits sum.splits)

lemma read_times_up: "read_times ops n fb t = Some (Inr x, t') \<Longrightarrow> up t \<Longrightarrow> up t'"
  by (induction n arbitrary: fb t) (auto split: option.splits sum.splits, metis receive_up)

lemma dry_session_idle:
  assumes "dry_session ops n t = Some (Ended code, t')" and "fresh t"
  shows "idle t'"
  using assms connect_throws read_times_throws connect_up read_times_up shutdown_idle
  by (fastforce simp: dry_session_def split: prod.splits sum.splits option.splits)

lemma live_session_idle:
  assumes s: "live_session ops cv stopped run t = Some (Ended code, t')" and f: "fresh t"
    and run: "\<And>fb t. up t \<Longrightarrow> up (snd (run fb t))"
  shows "idle t'"
proof -
  obtain u t1 where c: "to_connect ops t = (Inr u, t1)"
    using s connect_throws by (auto simp: live_session_def split: prod.splits sum.splits)
  obtain fb t2 where rd: "read_times ops (if cv_reads_entry cv then 1 else 0) joint_feedback0 t1 = Some (Inr fb, t2)"
    using s c read_times_throws by (fastforce simp: live_session_def split: option.splits sum.splits)
  have up2: "up t2" using read_times_up [OF rd connect_up [OF f c]] .
  show ?thesis
  proof (cases "stopped \<and> cv_stop_code cv \<noteq> None")
    case True
    then show ?thesis using s c rd shutdown_idle [OF up2] by (auto simp: live_session_def)
  next
    case False
    then obtain v t3 where sv: "to_servoing ops t2 = (Inr v, t3)"
      using s c rd servoing_throws by (auto simp: live_session_def split: prod.splits sum.splits option.splits bool.splits)
    obtain t4 where "run fb t3 = (Some code, t4)" "t' = to_shutdown ops t4"
      using False s c rd sv by (auto simp: live_session_def split: prod.splits option.splits bool.splits)
    then show ?thesis using run [OF servoing_up [OF up2 sv], of fb] shutdown_idle by simp
  qed
qed

lemma program_idle:
  assumes "run_program ops cv n stopped run c t = Some (Ended code, t')" and "fresh t" and "\<And>fb t. up t \<Longrightarrow> up (snd (run fb t))"
  shows "idle t'"
  using assms dry_session_idle live_session_idle by (auto simp: run_program_def split: if_splits)

end

lemma uncaught_Inl: "uncaught r = (Inl e, t) \<Longrightarrow> e = Crashed"
  by (auto simp: uncaught_def split: prod.splits sum.splits)

lemma uncaught_Inr: "uncaught r = (Inr x, t) \<longleftrightarrow> r = (Inr x, t)"
  by (auto simp: uncaught_def split: prod.split sum.split)

definition kx_fresh :: "kortex_arm \<Rightarrow> kx \<Rightarrow> bool" where
  "kx_fresh arm k \<longleftrightarrow> \<not> kx_low_level k \<and> owed arm (kx_trace k) = []"

definition kx_up :: "kortex_arm \<Rightarrow> kx \<Rightarrow> bool" where
  "kx_up arm k \<longleftrightarrow> kx_alive k = UNIV \<and> kx_n k = 7 \<and> dues_ok arm k"

definition kx_idle :: "kortex_arm \<Rightarrow> kx \<Rightarrow> bool" where
  "kx_idle arm k \<longleftrightarrow> kx_alive k = {} \<and> \<not> kx_connected k \<and> \<not> kx_low_level k \<and> owed arm (kx_trace k) = []"

lemma kx_up_wire: "kept_wire arm k k' \<Longrightarrow> kx_up arm k \<Longrightarrow> kx_up arm k'"
  using dues_ok_wire [of arm k k'] by (simp add: kx_up_def kept_defs)

interpretation kortex_hands_back: handing_back "kortex_ops nw ip arm" "kx_fresh arm" "kx_up arm" "kx_idle arm" for nw ip arm
proof (unfold_locales, goal_cases)
  case (1 t u t')
  then show ?case using connect_state [of nw ip arm t "Inr ()" t'] by (simp add: kortex_ops_def uncaught_Inr kx_fresh_def kx_up_def dues_ok_def)
next
  case (2 t fb fb' t')
  then show ?case using kept_receive [of arm fb t "Inr fb'" t'] kx_up_wire by (auto simp: kortex_ops_def uncaught_Inr)
next
  case (3 t u t')
  then show ?case using set_servoing_state [of arm t "Inr ()" t'] by (simp add: kortex_ops_def uncaught_Inr kx_up_def kept_net_def)
next
  case (4 t)
  then have "owed arm (kx_trace (safe_shutdown arm t)) = []" by (intro shutdown_pays) (simp_all add: kx_up_def kx_serving_def)
  then show ?case by (simp add: kortex_ops_def kx_idle_def shutdown_state)
qed (auto simp: kortex_ops_def dest: uncaught_Inl)

text \<open>
  What an executor's run, and the fault clearing beside it, do with the transport: any number of
  exchanges, reads, mode switches and clears, whatever they return.
\<close>

inductive kx_driven :: "kortex_arm \<Rightarrow> kx \<Rightarrow> kx \<Rightarrow> bool" for arm k0 where
  kd_start: "kx_driven arm k0 k0"
| kd_exchange: "kx_driven arm k0 k \<Longrightarrow> kx_exchange arm c fb k = Some (r, k') \<Longrightarrow> kx_driven arm k0 k'"
| kd_receive: "kx_driven arm k0 k \<Longrightarrow> kx_receive arm fb k = Some (r, k') \<Longrightarrow> kx_driven arm k0 k'"
| kd_switch: "kx_driven arm k0 k \<Longrightarrow> set_actuator_modes arm modes hold k = (q, k') \<Longrightarrow> kx_driven arm k0 k'"
| kd_clear: "kx_driven arm k0 k \<Longrightarrow> kx_driven arm k0 (clear_faults arm k)"

lemma kx_driven_up: "kx_driven arm k0 k \<Longrightarrow> kx_up arm k0 \<Longrightarrow> kx_up arm k"
proof (induction rule: kx_driven.induct)
  case (kd_clear k)
  then show ?case using clear_faults_state [of k arm] by (auto simp: kx_up_def kept_net_def)
qed (auto intro: kx_up_wire kept_exchange kept_receive kept_set_actuator_modes)

text \<open>What a program leaves when the executor throws: the transport as the executor left it.\<close>

lemma thrown_run_ends_there:
  assumes "\<not> op_dry_run c" and "\<not> (stopped \<and> cv_stop_code cv \<noteq> None)"
    and "to_connect ops t = (Inr u, t1)" and "read_times ops (if cv_reads_entry cv then 1 else 0) joint_feedback0 t1 = Some (Inr fb, t2)"
    and "to_servoing ops t2 = (Inr w, t3)" and "run fb t3 = (None, t4)"
  shows "run_program ops cv n stopped run c t = Some (Crashed, t4)"
  using assms by (auto simp: run_program_def live_session_def split: option.splits bool.splits)

text \<open>
  Claim C14. A program that ends with an exit code has handed the arm back, however it ended: dry run,
  stopped before servoing, or after a run of the executor, whatever that did and whatever the arm and the
  network answered. Nothing of the connection is left, and nothing is owed to the arm: if the base
  granted low-level servoing, then since the last grant the program has asked all seven actuators for
  position mode and then the base for single-level servoing, in this order, unless one of these calls
  went unanswered, which ended the revert. (A program that an exception ends has not: nobody catches
  what the executor throws, see \<open>lost_arm_left_in_servoing\<close>.)
\<close>

theorem program_hands_arm_back:
  assumes "run_program (kortex_ops nw ip arm) cv n stopped run c kx_init = Some (Ended code, k')"
    and "\<And>fb k. kx_driven arm k (snd (run fb k))"
  shows "kx_alive k' = {} \<and> \<not> kx_connected k' \<and> owed arm (kx_trace k') = []"
proof -
  have "kx_fresh arm kx_init" by (simp add: kx_fresh_def kx_init_def)
  moreover have "kx_up arm (snd (run fb k))" if "kx_up arm k" for fb k by (rule kx_driven_up [OF assms(2) that])
  ultimately have "kx_idle arm k'" by (rule kortex_hands_back.program_idle [OF assms(1)])
  then show ?thesis by (simp add: kx_idle_def)
qed

lemma demo_session:
  obtains k1 k3 where "kx_connect demo_net ''192.168.1.10'' demo_arm kx_init = (Inr (), k1)"
    "set_servoing_low_level demo_arm k1 = (Inr (), k3)" "kx_low_level k3" "kx_connected k3"
proof -
  obtain k1 where k1: "kx_connect demo_net ''192.168.1.10'' demo_arm kx_init = (Inr (), k1)" using demo_connects by blast
  obtain k3 where k3: "set_servoing_low_level demo_arm k1 = (Inr (), k3)" using demo_serves by blast
  have "kx_low_level k3" "kx_connected k3"
    using set_servoing_state [OF k3] connect_state [OF k1] by (auto simp: kept_net_def)
  then show ?thesis using that k1 k3 by blast
qed

theorem program_hands_arm_back_witness:
  "\<exists>k'. run_program (kortex_ops demo_net ''192.168.1.10'' demo_arm) \<lparr>cv_dry_loop = True, cv_reads_entry = False, cv_stop_code = None\<rparr>
       0 False (\<lambda>fb k. (Some 0, clear_faults demo_arm k)) (run_options0 (Fin 10)) kx_init = Some (Ended 0, k') \<and>
     kx_alive k' = {} \<and> owed demo_arm (kx_trace k') = []"
proof -
  let ?ops = "kortex_ops demo_net ''192.168.1.10'' demo_arm" and ?run = "\<lambda>fb k. (Some 0, clear_faults demo_arm k)"
  let ?cv = "\<lparr>cv_dry_loop = True, cv_reads_entry = False, cv_stop_code = None\<rparr>"
  obtain k1 k3 where k: "kx_connect demo_net ''192.168.1.10'' demo_arm kx_init = (Inr (), k1)"
    "set_servoing_low_level demo_arm k1 = (Inr (), k3)" by (rule demo_session)
  have r: "run_program ?ops ?cv 0 False ?run (run_options0 (Fin 10)) kx_init = Some (Ended 0, safe_shutdown demo_arm (clear_faults demo_arm k3))"
    by (simp add: run_program_def live_session_def kortex_ops_def k uncaught_def run_options0_def)
  have "kx_driven demo_arm j (snd (?run fb j))" for fb :: joint_feedback and j
    unfolding snd_conv by (rule kd_clear [OF kd_start])
  from program_hands_arm_back [OF r this] r show ?thesis by blast
qed

text \<open>An arm that is lost while it is commanded: the program ends with the arm in low-level servoing.\<close>

lemma lost_arm_left_in_servoing:
  "\<exists>k'. run_program (kortex_ops demo_net ''192.168.1.10'' demo_arm) \<lparr>cv_dry_loop = True, cv_reads_entry = False, cv_stop_code = None\<rparr>
       0 False (\<lambda>fb k. (None, k)) (run_options0 (Fin 10)) kx_init = Some (Crashed, k') \<and> kx_low_level k' \<and> kx_connected k'"
proof -
  obtain k1 k3 where k: "kx_connect demo_net ''192.168.1.10'' demo_arm kx_init = (Inr (), k1)"
    "set_servoing_low_level demo_arm k1 = (Inr (), k3)" "kx_low_level k3" "kx_connected k3" by (rule demo_session)
  then show ?thesis
    by (intro exI [of _ k3] conjI thrown_run_ends_there [of _ False _ _ _ "()" k1 joint_feedback0 k1 "()" k3])
       (simp_all add: kortex_ops_def uncaught_def run_options0_def)
qed

text \<open>
  Claim C15. A dry run is read-only. Whatever the arm and the network answer, however often the program
  reads, and whether it ends well or by an exception: none of the calls it makes on the transport
  moves the arm, that is, no cyclic command, no entry into low-level servoing and no actuator switched
  to a mode other than position.
\<close>

theorem dry_run_reads_only:
  assumes "op_dry_run c" and "run_program (kortex_ops nw ip arm) cv n stopped run c k = Some (x, k')"
  shows "\<exists>new. kx_trace k' = new @ kx_trace k \<and> (\<forall>call \<in> set new. \<not> moves_arm call)"
  using assms kortex_reads.dry_session_calm unfolding run_program_def calm_calls_def [symmetric] by metis

theorem dry_run_reads_only_witness:
  "\<exists>(x :: ended) k'. run_program (kortex_ops demo_net ''192.168.1.10'' demo_arm)
       \<lparr>cv_dry_loop = True, cv_reads_entry = True, cv_stop_code = None\<rparr> 0 False (\<lambda>fb k. (Some 0, k))
       ((run_options0 (Fin 10))\<lparr>op_dry_run := True\<rparr>) kx_init = Some (x, k') \<and> x = Ended 0 \<and>
     (\<forall>call \<in> set (kx_trace k'). \<not> moves_arm call)"
proof -
  let ?c = "(run_options0 (Fin 10))\<lparr>op_dry_run := True\<rparr>" and ?ops = "kortex_ops demo_net ''192.168.1.10'' demo_arm"
    and ?cv = "\<lparr>cv_dry_loop = True, cv_reads_entry = True, cv_stop_code = None\<rparr>"
  obtain k1 where k1: "kx_connect demo_net ''192.168.1.10'' demo_arm kx_init = (Inr (), k1)" using demo_connects by blast
  let ?k = "safe_shutdown demo_arm k1"
  have r: "run_program ?ops ?cv 0 False (\<lambda>fb k. (Some 0, k)) ?c kx_init = Some (Ended 0, ?k)"
    by (simp add: run_program_def dry_session_def kortex_ops_def k1 uncaught_def)
  have "\<exists>new. kx_trace ?k = new @ kx_trace kx_init \<and> (\<forall>call \<in> set new. \<not> moves_arm call)"
    by (rule dry_run_reads_only [OF _ r]) simp
  then show ?thesis using r by (simp add: kx_init_def)
qed

end
