(* ===== verification/Teleop_Main.thy ===== *)
theory Teleop_Main
  imports Command_Line
begin

section \<open>The teleoperation server's main program\<close>

text \<open>
  \<open>main\<close> of \<open>apps/teleop_socket_server.cpp\<close> around the threads of \<open>Teleop_Server\<close>: its options, what it
  does before it listens, and the state the threads start from. Opening and binding the socket is a
  parameter (whether it succeeded).
\<close>

record server_options = run_options +
  sv_port :: int
  sv_gains :: cart_params
  sv_jgains :: impedance_params
  sv_joint_mode :: bool

definition server_options0 :: server_options where
  "server_options0 = run_options.extend (run_options0 (Fin 0))
     \<lparr>sv_port = 9095, sv_gains = cart_params0, sv_jgains = impedance_params0, sv_joint_mode = False\<rparr>"

definition sv_table :: "library \<Rightarrow> string \<Rightarrow> server_options opt" where
  "sv_table lb a =
     (if a = ''--port'' then int_opt lb (\<lambda>n c. c\<lparr>sv_port := n\<rparr>)
      else if a = ''--ns-kp'' then num_opt lb (\<lambda>x c. c\<lparr>sv_gains := (sv_gains c)\<lparr>cp_nullspace_kp := x\<rparr>\<rparr>)
      else if a = ''--ns-kd'' then num_opt lb (\<lambda>x c. c\<lparr>sv_gains := (sv_gains c)\<lparr>cp_nullspace_kd := x\<rparr>\<rparr>)
      else if a = ''--ns-fixed-rest'' then OptFlag (\<lambda>c. c\<lparr>sv_gains := (sv_gains c)\<lparr>cp_use_fixed_rest := True\<rparr>\<rparr>)
      else if a = ''--ns-qrest'' then vec_opt lb (\<lambda>v c. c\<lparr>sv_gains := (sv_gains c)\<lparr>cp_nullspace_q_rest := v\<rparr>\<rparr>)
      else if a = ''--manip-gain''
        then num_opt lb (\<lambda>x c. c\<lparr>sv_gains := (sv_gains c)\<lparr>cp_manip_gain := x, cp_manip_on := \<not> deq x (Fin 0)\<rparr>\<rparr>)
      else if a = ''--joint-impedance'' then OptFlag (\<lambda>c. c\<lparr>sv_joint_mode := True\<rparr>)
      else if a = ''--jkp'' then vec_opt lb (\<lambda>v c. c\<lparr>sv_jgains := (sv_jgains c)\<lparr>ip_Kq := v\<rparr>\<rparr>)
      else if a = ''--zeta'' then num_opt lb (\<lambda>x c. c\<lparr>sv_jgains := (sv_jgains c)\<lparr>ip_zeta := x\<rparr>\<rparr>)
      else if a = ''--jtau-limit'' then vec_opt lb (\<lambda>v c. c\<lparr>sv_jgains := (sv_jgains c)\<lparr>ip_torque_limit := v\<rparr>\<rparr>)
      else if a = ''--leash'' then num_opt lb (\<lambda>x c. c\<lparr>sv_jgains := (sv_jgains c)\<lparr>ip_max_tracking_error := x\<rparr>\<rparr>)
      else if a = ''--ref-speed'' then vec_opt lb (\<lambda>v c. c\<lparr>sv_jgains := (sv_jgains c)\<lparr>ip_max_ref_speed := v\<rparr>\<rparr>)
      else if a = ''--ik-iters'' then int_opt lb (\<lambda>n c. c\<lparr>sv_jgains := (sv_jgains c)\<lparr>ip_ik := (ip_ik (sv_jgains c))\<lparr>ik_max_iters := n\<rparr>\<rparr>\<rparr>)
      else if a = ''--ik-posture-gain''
        then num_opt lb (\<lambda>x c. c\<lparr>sv_jgains := (sv_jgains c)\<lparr>ip_ik := (ip_ik (sv_jgains c))\<lparr>ik_posture_gain := x\<rparr>\<rparr>\<rparr>)
      else if a = ''--ik-qrest'' then vec_opt lb (\<lambda>v c. c\<lparr>sv_jgains := (sv_jgains c)\<lparr>ip_ik := (ip_ik (sv_jgains c))\<lparr>ik_q_rest := v\<rparr>\<rparr>\<rparr>)
      else shared_opt lb [''--ip'', ''--sim'', ''--urdf'', ''--ee-frame'', ''--rate'', ''--cpu'', ''--rt-priority''] a)"

definition sv_start :: "library \<Rightarrow> string list \<Rightarrow> ended + (server_options \<times> dynamics \<times> connection)" where
  "sv_start lb argv = start_program lb (sv_table lb) (\<lambda>c. op_urdf c = []) server_options0 argv"

text \<open>\<open>static_cast<uint16_t>(port)\<close>: a port out of range is another port.\<close>

definition sv_listen_port :: "server_options \<Rightarrow> 16 word" where
  "sv_listen_port c = word_of_int (sv_port c)"

text \<open>The state the receiving thread starts from.\<close>

definition sv_teleop :: "server_options \<Rightarrow> dynamics \<Rightarrow> pose \<Rightarrow> 'a teleop" where
  "sv_teleop c dyn home =
     \<lparr>te_mode = (if sv_joint_mode c then TmJoint (im_init dyn (sv_jgains c)) else TmCartesian (ca_init dyn (sv_gains c))),
      te_jgains = sv_jgains c, te_home_pose = home, te_injector = gr_init, te_client = None, te_last_control_seq = 0,
      te_stop = False, te_warned = False, te_clears = 0\<rparr>"

text \<open>
  \<open>listening\<close>: the socket could be opened and bound. The home pose is read in low-level servoing. \<open>run\<close> is
  what happens from there until the executor returns and the threads are joined; \<open>False\<close>: an exception.
\<close>

definition sv_session ::
    "'t transport_ops \<Rightarrow> bool \<Rightarrow> server_options \<Rightarrow> dynamics \<Rightarrow> ('a teleop \<Rightarrow> 't \<Rightarrow> bool \<times> 't) \<Rightarrow> 't \<Rightarrow> (ended \<times> 't) option" where
  "sv_session ops listening c dyn run t =
     (if \<not> listening then Some (Ended 1, t)
      else (case to_connect ops t of
         (Inl e, t1) \<Rightarrow> Some (e, t1)
       | (Inr _, t1) \<Rightarrow>
           (case to_servoing ops t1 of
              (Inl e, t2) \<Rightarrow> Some (e, t2)
            | (Inr _, t2) \<Rightarrow>
                (case to_receive ops joint_feedback0 t2 of
                   None \<Rightarrow> None
                 | Some (Inl e, t3) \<Rightarrow> Some (e, t3)
                 | Some (Inr fb, t3) \<Rightarrow>
                     Some (case run (sv_teleop c dyn (dyn_fk dyn (fb_q fb))) t3 of
                             (False, t4) \<Rightarrow> (Crashed, t4)
                           | (True, t4) \<Rightarrow> (Ended 0, to_shutdown ops t4))))))"

subsection \<open>What it starts from, and what it leaves\<close>

text \<open>The climb is on exactly with a gain that is not zero; a gain that is not a number is on.\<close>

lemma sv_manip_on_iff:
  assumes "sv_start lb argv = Inr (c, dyn, t)"
  shows "cp_manip_on (sv_gains c) \<longleftrightarrow> \<not> deq (cp_manip_gain (sv_gains c)) (Fin 0)"
proof -
  let ?P = "\<lambda>c :: server_options. cp_manip_on (sv_gains c) \<longleftrightarrow> \<not> deq (cp_manip_gain (sv_gains c)) (Fin 0)"
  have "keeps_on UNIV ?P (sv_table lb a)" for a
    unfolding sv_table_def shared_opt_def by (intro keeps_on_intros) auto
  moreover have "parse_argv (sv_table lb) argv server_options0 = Inr c" using assms by (simp add: sv_start_def start_program_Inr_iff)
  moreover have "?P server_options0" by (simp add: server_options0_def run_options.defs cart_params0_def)
  ultimately show ?thesis using parse_argv_keeps_on [of UNIV ?P "sv_table lb" argv] by blast
qed

context handing_back begin

lemma server_idle:
  assumes s: "sv_session ops True c dyn run t = Some (Ended code, t')" and f: "fresh t"
    and run: "\<And>te t. up t \<Longrightarrow> up (snd (run te t))"
  shows "code = 0 \<and> idle t'"
proof -
  obtain u t1 where c: "to_connect ops t = (Inr u, t1)"
    using s connect_throws by (auto simp: sv_session_def split: prod.splits sum.splits)
  obtain v t2 where sv: "to_servoing ops t1 = (Inr v, t2)"
    using s c servoing_throws by (auto simp: sv_session_def split: prod.splits sum.splits)
  obtain fb t3 where rd: "to_receive ops joint_feedback0 t2 = Some (Inr fb, t3)"
    using s c sv receive_throws by (fastforce simp: sv_session_def split: option.splits sum.splits)
  obtain t4 where "run (sv_teleop c dyn' (dyn_fk dyn' (fb_q fb))) t3 = (True, t4)" "t' = to_shutdown ops t4" "code = 0" if "dyn' = dyn" for dyn'
    using that s c sv rd by (auto simp: sv_session_def split: prod.splits bool.splits)
  then show ?thesis using run [OF receive_up [OF servoing_up [OF connect_up [OF f c] sv] rd]] shutdown_idle by (metis snd_conv)
qed

end

text \<open>
  A server that cannot listen has not touched the arm; one that ends well has handed it back:
  the session closed, nothing owed to the arm.
\<close>

lemma server_hands_arm_back:
  assumes "sv_session (kortex_ops nw ip arm) listening c dyn run kx_init = Some (Ended code, k')"
    and "\<And>te k. kx_driven arm k (snd (run te k))"
  shows "(code = 1 \<and> k' = kx_init) \<or> (code = 0 \<and> listening \<and> kx_alive k' = {} \<and> \<not> kx_connected k' \<and> owed arm (kx_trace k') = [])"
proof (cases listening)
  case True
  have "kx_fresh arm kx_init" by (simp add: kx_fresh_def kx_init_def)
  moreover have "kx_up arm (snd (run te k))" if "kx_up arm k" for te k by (rule kx_driven_up [OF assms(2) that])
  ultimately have "code = 0 \<and> kx_idle arm k'" by (rule kortex_hands_back.server_idle [OF assms(1) [unfolded True [THEN eqTrueI]]])
  then show ?thesis using True by (simp add: kx_idle_def)
qed (use assms in \<open>simp add: sv_session_def\<close>)

end
