(* ===== verification/Text.thy ===== *)
theory Text
  imports Prelude
begin

section \<open>Text\<close>

text \<open>
  What the code uses of the C++ library's text: \<open>std::to_string\<close> of an integer, and \<open>std::getline\<close> on a
  string with a delimiter, as the list of the pieces it returns.
\<close>

subsection \<open>Decimal numbers\<close>

definition digit :: "nat \<Rightarrow> char" where
  "digit d = char_of (48 + d)"

fun dec_nat :: "nat \<Rightarrow> string" where
  "dec_nat n = (if n < 10 then [digit n] else dec_nat (n div 10) @ [digit (n mod 10)])"

declare dec_nat.simps [simp del]

definition dec_int :: "int \<Rightarrow> string" where
  "dec_int i = (if i < 0 then CHR ''-'' # dec_nat (nat (- i)) else dec_nat (nat i))"

text \<open>Reading it back.\<close>

definition undigit :: "char \<Rightarrow> nat" where
  "undigit c = of_char c - 48"

definition undec_nat :: "string \<Rightarrow> nat" where
  "undec_nat s = foldl (\<lambda>n c. 10 * n + undigit c) 0 s"

lemma undigit_digit [simp]: "d < 10 \<Longrightarrow> undigit (digit d) = d"
  by (simp add: undigit_def digit_def)

lemma undec_dec_nat [simp]: "undec_nat (dec_nat n) = n"
proof (induction n rule: dec_nat.induct)
  case (1 n)
  then show ?case by (cases "n < 10") (simp_all add: dec_nat.simps [of n] undec_nat_def)
qed

lemma dec_nat_inj: "dec_nat m = dec_nat n \<Longrightarrow> m = n"
  by (metis undec_dec_nat)

lemma dec_nat_digits: "c \<in> set (dec_nat n) \<Longrightarrow> \<exists>d < 10. c = digit d"
proof (induction n rule: dec_nat.induct)
  case (1 n)
  show ?case
  proof (cases "n < 10")
    case False
    then have "c \<in> set (dec_nat (n div 10)) \<or> c = digit (n mod 10)" using 1(2) by (auto simp: dec_nat.simps [of n])
    then show ?thesis using 1(1) [OF False] mod_less_divisor [of 10 n] by (metis zero_less_numeral)
  qed (use 1(2) in \<open>auto simp: dec_nat.simps [of n]\<close>)
qed

lemma dec_nat_nonempty [simp]: "dec_nat n \<noteq> []"
  by (simp add: dec_nat.simps [of n])

lemma of_char_digit [simp]: "d < 10 \<Longrightarrow> of_char (digit d) = (48 + d :: nat)"
  by (simp add: digit_def)

lemma dec_nat_chars: "c \<in> set (dec_nat n) \<Longrightarrow> 48 \<le> (of_char c :: nat) \<and> (of_char c :: nat) < 58"
  using dec_nat_digits by fastforce

subsection \<open>Cutting at a delimiter\<close>

text \<open>
  \<open>while (std::getline(ss, cell, sep))\<close>: a piece ends at a delimiter or at the end of the text, where
  nothing left is not a piece.
\<close>

function getlines :: "char \<Rightarrow> string \<Rightarrow> string list" where
  "getlines sep s =
     (if s = [] then []
      else takeWhile (\<lambda>c. c \<noteq> sep) s # getlines sep (drop 1 (dropWhile (\<lambda>c. c \<noteq> sep) s)))"
  by auto
termination
proof (relation "measure (length \<circ> snd)")
  fix sep :: char and s :: string assume "s \<noteq> []"
  moreover have "length (dropWhile (\<lambda>c. c \<noteq> sep) s) \<le> length s" by (rule length_dropWhile_le)
  ultimately show "((sep, drop 1 (dropWhile (\<lambda>c. c \<noteq> sep) s)), sep, s) \<in> measure (length \<circ> snd)"
    by (cases s) (auto simp: less_Suc_eq_le)
qed simp

declare getlines.simps [simp del]

lemma getlines_Nil [simp]: "getlines sep [] = []"
  by (simp add: getlines.simps)

text \<open>Pieces without the delimiter, each ended by it.\<close>

definition ended_by :: "char \<Rightarrow> string list \<Rightarrow> string" where
  "ended_by sep ps = concat (map (\<lambda>p. p @ [sep]) ps)"

lemma getlines_piece [simp]: "sep \<notin> set p \<Longrightarrow> getlines sep (p @ sep # s) = p # getlines sep s"
proof -
  assume "sep \<notin> set p"
  then have "\<forall>c \<in> set p. c \<noteq> sep" by auto
  then show ?thesis by (subst getlines.simps) (simp add: takeWhile_append2 dropWhile_append2)
qed

lemma getlines_last: "sep \<notin> set p \<Longrightarrow> getlines sep p = (if p = [] then [] else [p])"
proof -
  assume "sep \<notin> set p"
  then have "\<forall>c \<in> set p. c \<noteq> sep" by auto
  then have "takeWhile (\<lambda>c. c \<noteq> sep) p = p" "dropWhile (\<lambda>c. c \<noteq> sep) p = []" by (auto simp: takeWhile_eq_all_conv)
  then show ?thesis by (subst getlines.simps) (simp del: dropWhile_eq_Nil_conv takeWhile_eq_all_conv)
qed

lemma getlines_ended: "\<forall>p \<in> set ps. sep \<notin> set p \<Longrightarrow> getlines sep (ended_by sep ps) = ps"
  by (induction ps) (simp_all add: ended_by_def getlines_piece)

text \<open>Pieces separated by the delimiter: an empty last piece is lost.\<close>

fun separated_by :: "char \<Rightarrow> string list \<Rightarrow> string" where
  "separated_by sep [] = []"
| "separated_by sep [p] = p"
| "separated_by sep (p # q # ps) = p @ sep # separated_by sep (q # ps)"

lemma getlines_separated:
  "\<forall>p \<in> set ps. sep \<notin> set p \<Longrightarrow>
     getlines sep (separated_by sep ps) = (if ps \<noteq> [] \<and> last ps = [] then butlast ps else ps)"
  by (induction sep ps rule: separated_by.induct) (auto simp: getlines_piece getlines_last)

end
