(* ===== verification/Rt_System.thy ===== *)
theory Rt_System
  imports Text
begin

section \<open>Real-time set-up\<close>

text \<open>
  \<open>enable_rt\<close>, \<open>raise_thread\<close>, \<open>read_usage\<close> and \<open>introspect\<close> (\<open>rt_system.h\<close>, \<open>.cpp\<close>). The operating system is the
  record \<open>os\<close>: how it answers each call, a failed one with the text of its error. The state is the one
  global, the descriptor that holds the CPU latency request, and the descriptors this module has open.
\<close>

record rt_config =
  rc_priority :: int
  rc_cpu :: int
  rc_lock_memory :: bool
  rc_pin_cpu_latency :: bool

definition rt_config0 :: rt_config where
  "rt_config0 = \<lparr>rc_priority = 80, rc_cpu = -1, rc_lock_memory = True, rc_pin_cpu_latency = True\<rparr>"

record rt_report =
  rp_mlock_ok :: bool
  rp_cpu_latency_pinned :: bool
  rp_policy :: int
  rp_priority :: int
  rp_cpu :: int
  rp_note :: string

definition rt_report0 :: rt_report where
  "rt_report0 = \<lparr>rp_mlock_ok = False, rp_cpu_latency_pinned = False, rp_policy = -1, rp_priority = -1, rp_cpu = -1, rp_note = []\<rparr>"

record resource_usage =
  ru_minflt :: "64 word"
  ru_majflt :: "64 word"
  ru_nvcsw :: "64 word"
  ru_nivcsw :: "64 word"

record os =
  os_mlockall :: "string option"
  os_fifo :: "int \<Rightarrow> string option"
  os_affinity :: "int \<Rightarrow> string option"
  os_open :: "string + int"
  os_write :: "int \<Rightarrow> string option"
  os_policy :: int
  os_priority :: "int option"
  os_cpu :: int
  os_thread_fifo :: "int \<Rightarrow> string option"
  os_thread_affinity :: "int \<Rightarrow> string option"
  os_rusage :: "resource_usage option"

record rt_global =
  rs_dma_fd :: int
  rs_open :: "int list"

definition rt_global0 :: rt_global where
  "rt_global0 = \<lparr>rs_dma_fd = -1, rs_open = []\<rparr>"

definition add_note :: "string \<Rightarrow> rt_report \<Rightarrow> rt_report" where
  "add_note w rep = rep\<lparr>rp_note := rp_note rep @ w\<rparr>"

text \<open>A best-effort step: what fails goes into the note.\<close>

definition lock_pages :: "os \<Rightarrow> rt_config \<Rightarrow> rt_report \<Rightarrow> rt_report" where
  "lock_pages o' cfg rep =
     (if rc_lock_memory cfg
      then case os_mlockall o' of
             None \<Rightarrow> rep\<lparr>rp_mlock_ok := True\<rparr>
           | Some e \<Rightarrow> add_note (''mlockall failed: '' @ e @ ''; '') rep
      else rep)"

definition set_fifo :: "os \<Rightarrow> rt_config \<Rightarrow> rt_report \<Rightarrow> rt_report" where
  "set_fifo o' cfg rep =
     (if 0 < rc_priority cfg
      then case os_fifo o' (rc_priority cfg) of
             None \<Rightarrow> rep
           | Some e \<Rightarrow> add_note (''SCHED_FIFO failed: '' @ e @ '' (run with sudo or `setcap cap_sys_nice,cap_ipc_lock+ep`); '') rep
      else rep)"

definition set_affinity :: "os \<Rightarrow> rt_config \<Rightarrow> rt_report \<Rightarrow> rt_report" where
  "set_affinity o' cfg rep =
     (if 0 \<le> rc_cpu cfg
      then case os_affinity o' (rc_cpu cfg) of
             None \<Rightarrow> rep
           | Some e \<Rightarrow> add_note (''sched_setaffinity failed: '' @ e @ ''; '') rep
      else rep)"

definition pin_latency :: "os \<Rightarrow> rt_config \<Rightarrow> rt_global \<Rightarrow> rt_report \<Rightarrow> rt_report \<times> rt_global" where
  "pin_latency o' cfg s rep =
     (if rc_pin_cpu_latency cfg \<and> rs_dma_fd s < 0
      then case os_open o' of
             Inr fd \<Rightarrow>
               (case os_write o' fd of
                  None \<Rightarrow> (rep\<lparr>rp_cpu_latency_pinned := True\<rparr>, s\<lparr>rs_dma_fd := fd, rs_open := fd # rs_open s\<rparr>)
                | Some e \<Rightarrow> (add_note (''cpu_dma_latency write failed: '' @ e @ ''; '') rep, s))
           | Inl e \<Rightarrow>
               (add_note (''cpu_dma_latency open failed: '' @ e @
                  '' (deep C-states NOT pinned; add a udev rule granting /dev/cpu_dma_latency to your user/group); '') rep, s)
      else if 0 \<le> rs_dma_fd s then (rep\<lparr>rp_cpu_latency_pinned := True\<rparr>, s)
      else (rep, s))"

definition enable_rt :: "os \<Rightarrow> rt_config \<Rightarrow> rt_global \<Rightarrow> rt_report \<times> rt_global" where
  "enable_rt o' cfg s =
     (let (rep, s') = pin_latency o' cfg s (set_affinity o' cfg (set_fifo o' cfg (lock_pages o' cfg rt_report0)))
      in (rep\<lparr>rp_policy := os_policy o',
              rp_priority := (case os_priority o' of Some p \<Rightarrow> p | None \<Rightarrow> rp_priority rep),
              rp_cpu := os_cpu o'\<rparr>, s'))"

definition raise_thread :: "os \<Rightarrow> int \<Rightarrow> int \<Rightarrow> string" where
  "raise_thread o' priority cpu =
     (case os_thread_fifo o' priority of
        Some e \<Rightarrow> ''SCHED_FIFO failed: '' @ e
      | None \<Rightarrow>
          if 0 \<le> cpu
          then case os_thread_affinity o' cpu of
                 Some e \<Rightarrow> ''pinning to CPU '' @ dec_int cpu @ '' failed: '' @ e
               | None \<Rightarrow> []
          else [])"

definition read_usage :: "os \<Rightarrow> resource_usage" where
  "read_usage o' = (case os_rusage o' of Some u \<Rightarrow> u | None \<Rightarrow> \<lparr>ru_minflt = 0, ru_majflt = 0, ru_nvcsw = 0, ru_nivcsw = 0\<rparr>)"

text \<open>Linux: \<open>SCHED_OTHER\<close> 0, \<open>SCHED_FIFO\<close> 1, \<open>SCHED_RR\<close> 2.\<close>

definition policy_name :: "int \<Rightarrow> string" where
  "policy_name p = (if p = 1 then ''FIFO'' else if p = 2 then ''RR'' else if p = 0 then ''OTHER'' else ''UNKNOWN'')"

definition newline :: char where "newline = CHR 0x0A"

definition introspect :: "os \<Rightarrow> rt_global \<Rightarrow> string" where
  "introspect o' s =
     (let u = read_usage o'; line = (\<lambda>label v. label @ v @ [newline])
      in line ''RT introspection:'' [] @ line ''  policy:   '' (policy_name (os_policy o')) @
         line ''  priority: '' (dec_int (case os_priority o' of Some p \<Rightarrow> p | None \<Rightarrow> -1)) @
         line ''  cpu:      '' (dec_int (os_cpu o')) @
         line ''  minflt:   '' (dec_nat (unat (ru_minflt u))) @ line ''  majflt:   '' (dec_nat (unat (ru_majflt u))) @
         line ''  nvcsw:    '' (dec_nat (unat (ru_nvcsw u))) @ line ''  nivcsw:   '' (dec_nat (unat (ru_nivcsw u))) @
         line ''  cpu_dma_latency: '' (if 0 \<le> rs_dma_fd s then ''pinned@0us'' else ''not pinned''))"

subsection \<open>Best effort, honestly reported\<close>

text \<open>The descriptor held open is the one the global names, and there is at most one.\<close>

definition rt_ok :: "rt_global \<Rightarrow> bool" where
  "rt_ok s \<longleftrightarrow> rs_open s = (if 0 \<le> rs_dma_fd s then [rs_dma_fd s] else [])"

lemma rt_ok_start: "rt_ok rt_global0"
  by (simp add: rt_ok_def rt_global0_def)

text \<open>The operating system hands out descriptors that are not negative.\<close>

definition fds_ok :: "os \<Rightarrow> bool" where
  "fds_ok o' \<longleftrightarrow> (\<forall>fd. os_open o' = Inr fd \<longrightarrow> 0 \<le> fd)"

lemma pin_latency_ok:
  assumes "rt_ok s" "fds_ok o'" "pin_latency o' cfg s rep = (rep', s')" "\<not> rp_cpu_latency_pinned rep"
  shows "rt_ok s' \<and> (rp_cpu_latency_pinned rep' \<longleftrightarrow> 0 \<le> rs_dma_fd s')"
  using assms by (auto simp: pin_latency_def rt_ok_def fds_ok_def add_note_def split: if_splits sum.splits option.splits)

lemma note_steps:
  "\<not> rp_cpu_latency_pinned (set_affinity o' cfg (set_fifo o' cfg (lock_pages o' cfg rt_report0)))"
  "rp_mlock_ok (set_affinity o' cfg (set_fifo o' cfg (lock_pages o' cfg rt_report0))) \<longleftrightarrow> rc_lock_memory cfg \<and> os_mlockall o' = None"
  "rp_note (set_affinity o' cfg (set_fifo o' cfg (lock_pages o' cfg rt_report0))) = [] \<longleftrightarrow>
     (rc_lock_memory cfg \<longrightarrow> os_mlockall o' = None) \<and> (0 < rc_priority cfg \<longrightarrow> os_fifo o' (rc_priority cfg) = None) \<and>
     (0 \<le> rc_cpu cfg \<longrightarrow> os_affinity o' (rc_cpu cfg) = None)"
  by (simp_all add: set_affinity_def set_fifo_def lock_pages_def add_note_def rt_report0_def split: option.split)

lemma pin_latency_note:
  "pin_latency o' cfg s rep = (rep', s') \<Longrightarrow>
     rp_mlock_ok rep' = rp_mlock_ok rep \<and>
     (rp_note rep' = [] \<longleftrightarrow> rp_note rep = [] \<and> (rc_pin_cpu_latency cfg \<longrightarrow> 0 \<le> rs_dma_fd s \<or> (\<exists>fd. os_open o' = Inr fd \<and> os_write o' fd = None)))"
  by (auto simp: pin_latency_def add_note_def split: if_splits sum.splits option.splits)

text \<open>
  Set-up never fails silently and never leaks: whatever the system refuses, the report has a note exactly
  when a step that was asked for failed, says memory is locked and the latency pinned exactly when they
  are, and however often set-up is asked for, at most one descriptor is held, the one the global names.
\<close>

theorem enable_rt_reports:
  assumes "rt_ok s" "fds_ok o'" "enable_rt o' cfg s = (rep, s')"
  shows "rt_ok s' \<and> (rp_cpu_latency_pinned rep \<longleftrightarrow> 0 \<le> rs_dma_fd s') \<and>
    (rp_mlock_ok rep \<longleftrightarrow> rc_lock_memory cfg \<and> os_mlockall o' = None) \<and>
    (rp_note rep = [] \<longleftrightarrow>
       (rc_lock_memory cfg \<longrightarrow> rp_mlock_ok rep) \<and> (0 < rc_priority cfg \<longrightarrow> os_fifo o' (rc_priority cfg) = None) \<and>
       (0 \<le> rc_cpu cfg \<longrightarrow> os_affinity o' (rc_cpu cfg) = None) \<and> (rc_pin_cpu_latency cfg \<longrightarrow> rp_cpu_latency_pinned rep))"
proof -
  let ?r = "set_affinity o' cfg (set_fifo o' cfg (lock_pages o' cfg rt_report0))"
  obtain rep1 s1 where p: "pin_latency o' cfg s ?r = (rep1, s1)" by fastforce
  have e: "s' = s1" "rp_cpu_latency_pinned rep = rp_cpu_latency_pinned rep1" "rp_mlock_ok rep = rp_mlock_ok rep1" "rp_note rep = rp_note rep1"
    using assms(3) p by (auto simp: enable_rt_def)
  have pinned: "0 \<le> rs_dma_fd s1 \<longleftrightarrow> 0 \<le> rs_dma_fd s \<or> rc_pin_cpu_latency cfg \<and> (\<exists>fd. os_open o' = Inr fd \<and> os_write o' fd = None)"
    using p assms(2) by (auto simp: pin_latency_def fds_ok_def split: if_splits sum.splits option.splits)
  show ?thesis
    using pin_latency_ok [OF assms(1,2) p note_steps(1)] pin_latency_note [OF p] note_steps(2,3) [of o' cfg] pinned unfolding e by blast
qed

text \<open>A thread is pinned only if it became a real-time thread.\<close>

lemma raise_thread_ok_iff:
  "raise_thread o' priority cpu = [] \<longleftrightarrow> os_thread_fifo o' priority = None \<and> (0 \<le> cpu \<longrightarrow> os_thread_affinity o' cpu = None)"
  by (simp add: raise_thread_def split: option.split)

end
