(* ===== verification/Contact_Replay.thy ===== *)
theory Contact_Replay
  imports Contact_Monitor Diff_Ik Text
begin

section \<open>Contact replay\<close>

text \<open>
  \<open>contact_replay.h\<close>, \<open>contact_replay.cpp\<close> and the program \<open>apps/contact_replay.cpp\<close>: reading a recording,
  running it through the monitor of the real-time loop in observe mode, and the statistics. A file is
  its text, \<open>None\<close> when it cannot be opened; \<open>strtod\<close> is a parameter that returns the value and the
  number of characters used, none when there is no number. An exception is its message (\<open>Inl\<close>).
\<close>

subsection \<open>Errors\<close>

datatype replay_error = ReRuntime string | ReInvalid string | ReConfig config_error

type_synonym 'a fallible = "replay_error + 'a"

definition andthen :: "'a fallible \<Rightarrow> ('a \<Rightarrow> 'b fallible) \<Rightarrow> 'b fallible" where
  "andthen r f = (case r of Inl e \<Rightarrow> Inl e | Inr a \<Rightarrow> f a)"

lemma andthen_simps [simp]: "andthen (Inl e) f = Inl e" "andthen (Inr a) f = f a"
  by (simp_all add: andthen_def)

lemma andthen_Inr_iff: "andthen r f = Inr b \<longleftrightarrow> (\<exists>a. r = Inr a \<and> f a = Inr b)"
  by (cases r) simp_all

fun collect :: "('a \<Rightarrow> 'b fallible) \<Rightarrow> 'a list \<Rightarrow> 'b list fallible" where
  "collect f [] = Inr []"
| "collect f (x # xs) = andthen (f x) (\<lambda>y. andthen (collect f xs) (\<lambda>ys. Inr (y # ys)))"

lemma collect_Inr_iff: "collect f xs = Inr ys \<longleftrightarrow> list_all2 (\<lambda>x y. f x = Inr y) xs ys"
  by (induction xs arbitrary: ys) (auto simp: andthen_Inr_iff list_all2_Cons1)

subsection \<open>Reading a recording\<close>

record replay_input =
  ri_t :: "dbl list"
  ri_q :: "jointvec list"
  ri_qd :: "jointvec list"
  ri_tau :: "jointvec list"

definition columns :: "string list \<Rightarrow> string \<Rightarrow> nat option" where
  "columns header = fold (\<lambda>i m. m(header ! i \<mapsto> i)) [0..<length header] Map.empty"

definition need :: "string \<Rightarrow> string list \<Rightarrow> string \<Rightarrow> nat fallible" where
  "need path header name =
     (case columns header name of Some i \<Rightarrow> Inr i | None \<Rightarrow> Inl (ReRuntime (path @ '': missing column '' @ name)))"

text \<open>The columns of joint \<open>j\<close>.\<close>

definition need_joint :: "string \<Rightarrow> string list \<Rightarrow> nat \<Rightarrow> (nat \<times> nat \<times> nat) fallible" where
  "need_joint path header j =
     (let n = dec_nat (j + 1)
      in andthen (need path header (''q'' @ n)) (\<lambda>cq.
         andthen (need path header (''qd'' @ n)) (\<lambda>cqd.
         andthen (need path header (''tau'' @ n)) (\<lambda>ctau. Inr (cq, cqd, ctau)))))"

definition isspace :: "char \<Rightarrow> bool" where
  "isspace c = (let n = of_char c :: nat in n = 32 \<or> 9 \<le> n \<and> n \<le> 13)"

text \<open>A C string ends at its first zero character.\<close>

definition c_str :: "string \<Rightarrow> string" where
  "c_str s = takeWhile (\<lambda>c. c \<noteq> CHR 0x00) s"

definition whole_number :: "(string \<Rightarrow> dbl \<times> nat) \<Rightarrow> string \<Rightarrow> dbl option" where
  "whole_number strtod cell =
     (let s = c_str cell; (v, used) = strtod s
      in if used = 0 \<or> dropWhile isspace (drop used s) \<noteq> [] \<or> \<not> isfinite v then None else Some v)"

definition num :: "(string \<Rightarrow> dbl \<times> nat) \<Rightarrow> string \<Rightarrow> nat \<Rightarrow> string list \<Rightarrow> string list \<Rightarrow> nat \<Rightarrow> dbl fallible" where
  "num strtod path row header c i =
     (case whole_number strtod (c ! i) of
        Some v \<Rightarrow> Inr v
      | None \<Rightarrow> Inl (ReRuntime (path @ '':'' @ dec_nat row @ '': column '' @ (header ! i) @
                 '': not a finite number: '' @ [CHR 0x27] @ (c ! i) @ [CHR 0x27])))"

definition read_joint :: "(nat \<Rightarrow> dbl fallible) \<Rightarrow> dbl \<Rightarrow> nat \<times> nat \<times> nat \<Rightarrow> (dbl \<times> dbl \<times> dbl) fallible" where
  "read_joint n tau_sign = (\<lambda>(cq, cqd, ctau).
     andthen (n cq) (\<lambda>q. andthen (n cqd) (\<lambda>qd. andthen (n ctau) (\<lambda>tau. Inr (q, qd, tau_sign * tau)))))"

type_synonym replay_row = "dbl \<times> (dbl \<times> dbl \<times> dbl) list"

definition read_row :: "(string \<Rightarrow> dbl \<times> nat) \<Rightarrow> string \<Rightarrow> dbl \<Rightarrow> string list \<Rightarrow> nat \<Rightarrow> (nat \<times> nat \<times> nat) list \<Rightarrow> nat \<Rightarrow> string
    \<Rightarrow> replay_row fallible" where
  "read_row strtod path tau_sign header ct joints row line =
     (let c = getlines (CHR '','') line
      in if length c < length header
         then Inl (ReRuntime (path @ '':'' @ dec_nat row @ '': expected '' @ dec_nat (length header) @ '' columns, got '' @ dec_nat (length c)))
         else andthen (collect (read_joint (num strtod path row header c) tau_sign) joints) (\<lambda>js.
              andthen (num strtod path row header c ct) (\<lambda>t. Inr (t, js))))"

definition vec_of :: "dbl list \<Rightarrow> jointvec" where
  "vec_of xs = vgen (\<lambda>i. xs ! i)"

definition push_row :: "replay_row \<Rightarrow> replay_input \<Rightarrow> replay_input" where
  "push_row r ri = (case r of (t, js) \<Rightarrow>
     ri\<lparr>ri_t := t # ri_t ri, ri_q := vec_of (map fst js) # ri_q ri, ri_qd := vec_of (map (fst \<circ> snd) js) # ri_qd ri,
        ri_tau := vec_of (map (snd \<circ> snd) js) # ri_tau ri\<rparr>)"

definition replay_input0 :: replay_input where
  "replay_input0 = \<lparr>ri_t = [], ri_q = [], ri_qd = [], ri_tau = []\<rparr>"

text \<open>The rows from number \<open>row\<close> on; an empty line is skipped but counted.\<close>

fun load_rows :: "(nat \<Rightarrow> string \<Rightarrow> replay_row fallible) \<Rightarrow> nat \<Rightarrow> string list \<Rightarrow> replay_input fallible" where
  "load_rows rd row [] = Inr replay_input0"
| "load_rows rd row (line # ls) =
     (if line = [] then load_rows rd (row + 1) ls
      else andthen (rd row line) (\<lambda>r. andthen (load_rows rd (row + 1) ls) (\<lambda>ri. Inr (push_row r ri))))"

definition load_replay_csv :: "(string \<Rightarrow> dbl \<times> nat) \<Rightarrow> string \<Rightarrow> string option \<Rightarrow> dbl \<Rightarrow> replay_input fallible" where
  "load_replay_csv strtod path file tau_sign =
     (case file of None \<Rightarrow> Inl (ReRuntime (''cannot open '' @ path))
      | Some content \<Rightarrow>
          (case getlines (CHR 0x0A) content of
             [] \<Rightarrow> Inl (ReRuntime (path @ '': empty file''))
           | first # rest \<Rightarrow>
               (let header = getlines (CHR '','') first
                in andthen (need path header ''t'') (\<lambda>ct.
                   andthen (collect (need_joint path header) [0..<7]) (\<lambda>joints.
                   load_rows (read_row strtod path tau_sign header ct joints) 2 rest)))))"

subsection \<open>Debounce in rows\<close>

text \<open>\<open>std::nth_element\<close> puts at its position what sorting puts there.\<close>

fun insert_dbl :: "dbl \<Rightarrow> dbl list \<Rightarrow> dbl list" where
  "insert_dbl x [] = [x]"
| "insert_dbl x (y # ys) = (if y < x then y # insert_dbl x ys else x # y # ys)"

definition sort_dbl :: "dbl list \<Rightarrow> dbl list" where
  "sort_dbl xs = foldr insert_dbl xs []"

definition median_dt :: "dbl list \<Rightarrow> dbl" where
  "median_dt t =
     (if length t < 2 then Fin 0
      else let d = map (\<lambda>k. t ! k - t ! (k - 1)) [1..<length t] in sort_dbl d ! (length d div 2))"

text \<open>\<open>std::lround\<close>, half away from zero; what has no \<open>long\<close> is the least one.\<close>

definition lround :: "dbl \<Rightarrow> int" where
  "lround x = (case x of
       Fin a \<Rightarrow> let r = (if 0 \<le> a then \<lfloor>a + 1 / 2\<rfloor> else - \<lfloor>- a + 1 / 2\<rfloor>)
                in if - (2 ^ 63) \<le> r \<and> r < 2 ^ 63 then r else - (2 ^ 63)
     | _ \<Rightarrow> - (2 ^ 63))"

definition to_int32 :: "int \<Rightarrow> int" where
  "to_int32 i = sint (word_of_int i :: 32 word)"

definition debounce_rows_from_ms :: "dbl list \<Rightarrow> dbl \<Rightarrow> int fallible" where
  "debounce_rows_from_ms t ms =
     (let dt = median_dt t
      in if \<not> Fin 0 < dt \<or> \<not> Fin 0 < ms then Inl (ReInvalid ''debounce_rows_from_ms: need dt > 0 and ms > 0'')
         else Inr (max 1 (to_int32 (lround (ms / Fin 1000 / dt)))))"

subsection \<open>The replay\<close>

record replay_options =
  ro_gain :: dbl
  ro_debounce_cycles :: int
  ro_theta :: jointvec

definition replay_options0 :: replay_options where
  "replay_options0 = \<lparr>ro_gain = Fin 25, ro_debounce_cycles = 5, ro_theta = V7 (Fin 16) (Fin 16) (Fin 12) (Fin 12) (Fin 4) (Fin 4) (Fin 4)\<rparr>"

record replay_trip =
  yt_valid :: bool
  yt_t :: dbl
  yt_r :: dbl

definition replay_trip0 :: replay_trip where
  "replay_trip0 = \<lparr>yt_valid = False, yt_t = Fin 0, yt_r = Fin 0\<rparr>"

record replay_stats =
  ys_r :: "jointvec list"
  ys_rms :: jointvec
  ys_peak :: jointvec
  ys_moving_samples :: nat
  ys_would_trips :: "64 word"
  ys_first_trip :: "replay_trip vec7"

definition kReplayMovingQd :: dbl where "kReplayMovingQd = Fin (2 / 100)"

definition replay_config :: "replay_options \<Rightarrow> contact_config" where
  "replay_config opt = contact_config0\<lparr>cc_detection := DetObserve, cc_gain := ro_gain opt, cc_debounce_cycles := ro_debounce_cycles opt,
     cc_initial_theta := ro_theta opt, cc_ceiling := ro_theta opt\<rparr>"

text \<open>What the loop carries: the monitor, the statistics, \<open>sumsq\<close> and \<open>seen_trips\<close>.\<close>

record replay_run =
  yr_mon :: contact_monitor
  yr_stats :: replay_stats
  yr_sumsq :: jointvec
  yr_seen :: "64 word"

definition note_trip :: "dbl \<Rightarrow> contact_status \<Rightarrow> replay_run \<Rightarrow> replay_run" where
  "note_trip t st y =
     (if cs_would_trips st > yr_seen y
      then (let j = nat (ct_joint (cs_last st)); s = yr_stats y;
                ft = (if yt_valid (vnth (ys_first_trip s) j) then ys_first_trip s
                      else vupd (ys_first_trip s) j \<lparr>yt_valid = True, yt_t = t, yt_r = vnth (ct_r (cs_last st)) j\<rparr>)
            in y\<lparr>yr_seen := cs_would_trips st, yr_stats := s\<lparr>ys_first_trip := ft\<rparr>\<rparr>)
      else y)"

definition moving :: "contact_status \<Rightarrow> jointvec \<Rightarrow> bool" where
  "moving st qd = (cs_phase st = PhArmed \<and> kReplayMovingQd < inf_norm qd)"

definition note_moving :: "jointvec \<Rightarrow> contact_status \<Rightarrow> replay_run \<Rightarrow> replay_run" where
  "note_moving qd st y =
     (if moving st qd
      then (let s = yr_stats y; r = cs_r st
            in y\<lparr>yr_stats := s\<lparr>ys_moving_samples := ys_moving_samples s + 1,
                               ys_peak := vgen (\<lambda>i. smax (vnth (ys_peak s) i) (abs (vnth r i)))\<rparr>,
                 yr_sumsq := vgen (\<lambda>i. vnth (yr_sumsq y) i + vnth r i * vnth r i)\<rparr>)
      else y)"

definition replay_dt :: "replay_input \<Rightarrow> nat \<Rightarrow> dbl" where
  "replay_dt ri k = (if 0 < k then ri_t ri ! k - ri_t ri ! (k - 1) else Fin 0)"

definition replay_feedback :: "replay_input \<Rightarrow> nat \<Rightarrow> joint_feedback" where
  "replay_feedback ri k = joint_feedback0\<lparr>fb_q := ri_q ri ! k, fb_qd := ri_qd ri ! k, fb_tau := ri_tau ri ! k\<rparr>"

definition replay_step :: "replay_input \<Rightarrow> nat \<Rightarrow> replay_run \<Rightarrow> replay_run" where
  "replay_step ri k y =
     (let m = snd (cm_step (yr_mon y) (replay_feedback ri k) (replay_dt ri k) False);
          st = cm_pub m;
          y1 = y\<lparr>yr_mon := m, yr_stats := (yr_stats y)\<lparr>ys_r := ys_r (yr_stats y) @ [cs_r st]\<rparr>\<rparr>
      in note_moving (ri_qd ri ! k) st (note_trip (ri_t ri ! k) st y1))"

definition replay_start :: "contact_monitor \<Rightarrow> replay_run" where
  "replay_start m = \<lparr>yr_mon = m, yr_stats = \<lparr>ys_r = [], ys_rms = vzero, ys_peak = vzero, ys_moving_samples = 0,
     ys_would_trips = 0, ys_first_trip = vconst replay_trip0\<rparr>, yr_sumsq = vzero, yr_seen = 0\<rparr>"

definition replay_finish :: "replay_run \<Rightarrow> replay_stats" where
  "replay_finish y =
     (let s = (yr_stats y)\<lparr>ys_would_trips := yr_seen y\<rparr>; n = ys_moving_samples s
      in if 0 < n then s\<lparr>ys_rms := vgen (\<lambda>i. dsqrt (vnth (yr_sumsq y) i / Fin (real n)))\<rparr> else s)"

definition replay_loop :: "replay_input \<Rightarrow> contact_monitor \<Rightarrow> replay_run" where
  "replay_loop ri m = fold (replay_step ri) [0..<length (ri_t ri)] (replay_start m)"

definition replay :: "dynamics \<Rightarrow> replay_input \<Rightarrow> replay_options \<Rightarrow> replay_stats fallible" where
  "replay dyn ri opt =
     (let n = length (ri_t ri)
      in if length (ri_q ri) \<noteq> n \<or> length (ri_qd ri) \<noteq> n \<or> length (ri_tau ri) \<noteq> n
         then Inl (ReInvalid ''replay: t, q, qd, tau differ in length'')
         else case cm_init dyn (replay_config opt) of
                Inl e \<Rightarrow> Inl (ReConfig e)
              | Inr m \<Rightarrow> Inr (replay_finish (replay_loop ri m)))"


subsection \<open>What a loaded recording holds\<close>

lemma whole_number_finite: "whole_number strtod cell = Some v \<Longrightarrow> isfinite v"
  by (auto simp: whole_number_def Let_def split: prod.splits if_splits)

lemma num_Inr_iff: "num strtod path row header c i = Inr v \<longleftrightarrow> whole_number strtod (c ! i) = Some v"
  by (auto simp: num_def split: option.split)

lemma need_Inr_iff: "need path header name = Inr i \<longleftrightarrow> columns header name = Some i"
  by (auto simp: need_def split: option.split)

text \<open>A column name stands for its last place in the header.\<close>

lemma columns_iff:
  "columns header name = Some i \<longleftrightarrow> i < length header \<and> header ! i = name \<and> (\<forall>k. i < k \<and> k < length header \<longrightarrow> header ! k \<noteq> name)"
proof -
  have "(fold (\<lambda>i m. m(header ! i \<mapsto> i)) [0..<n] Map.empty) name = Some i \<longleftrightarrow>
      i < n \<and> header ! i = name \<and> (\<forall>k. i < k \<and> k < n \<longrightarrow> header ! k \<noteq> name)" for n
    by (induction n) (auto simp: less_Suc_eq)
  then show ?thesis by (simp add: columns_def)
qed

lemma columns_Some_iff: "(\<exists>i. columns header name = Some i) \<longleftrightarrow> name \<in> set header"
proof
  assume "name \<in> set header"
  then obtain k where "k < length header" "header ! k = name" by (auto simp: in_set_conv_nth)
  moreover have "(\<exists>i. (fold (\<lambda>i m. m(header ! i \<mapsto> i)) [0..<n] Map.empty) name = Some i) \<or> (\<forall>k < n. header ! k \<noteq> name)" for n
    by (induction n) (auto simp: less_Suc_eq)
  ultimately show "\<exists>i. columns header name = Some i" unfolding columns_def by blast
qed (auto simp: columns_iff)

text \<open>What row \<open>line\<close> says about joint \<open>j\<close>, and its time.\<close>

definition field :: "string list \<Rightarrow> string \<Rightarrow> string \<Rightarrow> string" where
  "field header line name = getlines (CHR '','') line ! the (columns header name)"

definition row_says :: "(string \<Rightarrow> dbl \<times> nat) \<Rightarrow> dbl \<Rightarrow> string list \<Rightarrow> string \<Rightarrow> dbl \<Rightarrow> jointvec \<Rightarrow> jointvec \<Rightarrow> jointvec \<Rightarrow> bool" where
  "row_says strtod tau_sign header line t q qd tau \<longleftrightarrow>
     length header \<le> length (getlines (CHR '','') line) \<and>
     whole_number strtod (field header line ''t'') = Some t \<and>
     (\<forall>j < 7. \<exists>x. whole_number strtod (field header line (''q'' @ dec_nat (j + 1))) = Some (vnth q j) \<and>
        whole_number strtod (field header line (''qd'' @ dec_nat (j + 1))) = Some (vnth qd j) \<and>
        whole_number strtod (field header line (''tau'' @ dec_nat (j + 1))) = Some x \<and> vnth tau j = tau_sign * x)"

lemma need_joint_Inr_iff:
  "need_joint path header j = Inr (cq, cqd, ctau) \<longleftrightarrow>
     columns header (''q'' @ dec_nat (j + 1)) = Some cq \<and> columns header (''qd'' @ dec_nat (j + 1)) = Some cqd \<and>
     columns header (''tau'' @ dec_nat (j + 1)) = Some ctau"
  by (auto simp: need_joint_def Let_def andthen_Inr_iff need_Inr_iff)

lemma read_row_says:
  assumes joints: "collect (need_joint path header) [0..<7] = Inr joints" and ct: "columns header ''t'' = Some ct"
    and r: "read_row strtod path tau_sign header ct joints row line = Inr (t, js)"
  shows "row_says strtod tau_sign header line t (vec_of (map fst js)) (vec_of (map (fst \<circ> snd) js)) (vec_of (map (snd \<circ> snd) js))"
proof -
  let ?c = "getlines (CHR '','') line"
  have len: "length header \<le> length ?c" and js: "list_all2 (\<lambda>x y. read_joint (num strtod path row header ?c) tau_sign x = Inr y) joints js"
    and t: "whole_number strtod (?c ! ct) = Some t"
    using r by (auto simp: read_row_def Let_def andthen_Inr_iff collect_Inr_iff num_Inr_iff split: if_splits)
  have jl: "length joints = 7" and need: "\<And>j. j < 7 \<Longrightarrow> need_joint path header j = Inr (joints ! j)"
    using joints by (auto simp: collect_Inr_iff list_all2_conv_all_nth)
  have "\<exists>x. whole_number strtod (field header line (''q'' @ dec_nat (j + 1))) = Some (vnth (vec_of (map fst js)) j) \<and>
        whole_number strtod (field header line (''qd'' @ dec_nat (j + 1))) = Some (vnth (vec_of (map (fst \<circ> snd) js)) j) \<and>
        whole_number strtod (field header line (''tau'' @ dec_nat (j + 1))) = Some x \<and> vnth (vec_of (map (snd \<circ> snd) js)) j = tau_sign * x"
    if j: "j < 7" for j
  proof -
    obtain cq cqd ctau where c: "joints ! j = (cq, cqd, ctau)" by (cases "joints ! j")
    obtain q qd tau where y: "js ! j = (q, qd, tau)" by (cases "js ! j")
    have l: "length js = 7" using js jl by (simp add: list_all2_lengthD)
    have "read_joint (num strtod path row header ?c) tau_sign (cq, cqd, ctau) = Inr (q, qd, tau)"
      using js j jl c y by (auto simp: list_all2_conv_all_nth)
    then obtain x where "whole_number strtod (?c ! cq) = Some q" "whole_number strtod (?c ! cqd) = Some qd"
      "whole_number strtod (?c ! ctau) = Some x" "tau = tau_sign * x"
      by (auto simp: read_joint_def andthen_Inr_iff num_Inr_iff)
    moreover have "columns header (''q'' @ dec_nat (j + 1)) = Some cq" "columns header (''qd'' @ dec_nat (j + 1)) = Some cqd"
      "columns header (''tau'' @ dec_nat (j + 1)) = Some ctau"
      using need [OF j] c by (simp_all add: need_joint_Inr_iff)
    ultimately show ?thesis using j l y by (simp add: field_def vec_of_def)
  qed
  then show ?thesis using len t ct by (auto simp: row_says_def field_def)
qed

lemma load_rows_says:
  assumes "load_rows (read_row strtod path tau_sign header ct joints) row ls = Inr ri"
    and "collect (need_joint path header) [0..<7] = Inr joints" and "columns header ''t'' = Some ct"
  shows "length (ri_q ri) = length (ri_t ri) \<and> length (ri_qd ri) = length (ri_t ri) \<and> length (ri_tau ri) = length (ri_t ri) \<and>
    list_all2 (\<lambda>line k. row_says strtod tau_sign header line (ri_t ri ! k) (ri_q ri ! k) (ri_qd ri ! k) (ri_tau ri ! k))
      (filter (\<lambda>l. l \<noteq> []) ls) [0..<length (ri_t ri)]"
  using assms(1)
proof (induction ls arbitrary: row ri)
  case Nil
  then show ?case by (auto simp: replay_input0_def)
next
  case (Cons line ls)
  show ?case
  proof (cases "line = []")
    case True
    then show ?thesis using Cons by simp
  next
    case False
    obtain t js ri1 where r: "read_row strtod path tau_sign header ct joints row line = Inr (t, js)"
      "load_rows (read_row strtod path tau_sign header ct joints) (row + 1) ls = Inr ri1" "ri = push_row (t, js) ri1"
      using Cons.prems False by (auto simp: andthen_Inr_iff)
    note IH = Cons.IH [OF r(2)]
    have "row_says strtod tau_sign header line (ri_t ri ! 0) (ri_q ri ! 0) (ri_qd ri ! 0) (ri_tau ri ! 0)"
      using read_row_says [OF assms(2,3) r(1)] by (simp add: r(3) push_row_def)
    then show ?thesis using IH False r(3)
      by (auto simp: push_row_def list_all2_conv_all_nth nth_Cons' simp del: upt_Suc)
  qed
qed

text \<open>
  A recording that loads is the file. There is one row for each line after the header that is not empty,
  in order; the time and each joint's position, velocity and torque are what the fields of that line
  under the names \<open>t\<close>, \<open>q1\<close> and so on read as, the torque times the sign, wherever those columns stand
  and whatever other columns there are; every one is a whole finite number, whatever \<open>strtod\<close> makes of
  it, and so the four lists have the same length.
\<close>

theorem load_reads_columns:
  assumes "load_replay_csv strtod path (Some content) tau_sign = Inr ri"
  obtains header rest where "getlines (CHR 0x0A) content = header # rest"
    "length (ri_q ri) = length (ri_t ri)" "length (ri_qd ri) = length (ri_t ri)" "length (ri_tau ri) = length (ri_t ri)"
    "list_all2 (\<lambda>line k. row_says strtod tau_sign (getlines (CHR '','') header) line (ri_t ri ! k) (ri_q ri ! k) (ri_qd ri ! k) (ri_tau ri ! k))
      (filter (\<lambda>l. l \<noteq> []) rest) [0..<length (ri_t ri)]"
proof -
  obtain header rest ct joints where h: "getlines (CHR 0x0A) content = header # rest"
    "columns (getlines (CHR '','') header) ''t'' = Some ct" "collect (need_joint path (getlines (CHR '','') header)) [0..<7] = Inr joints"
    "load_rows (read_row strtod path tau_sign (getlines (CHR '','') header) ct joints) 2 rest = Inr ri"
    using assms by (auto simp: load_replay_csv_def Let_def andthen_Inr_iff need_Inr_iff split: list.splits simp del: upt_rec_numeral)
  show thesis using load_rows_says [OF h(4,3,2)] by (intro that [OF h(1)]) blast+
qed

lemma row_says_finite:
  assumes "row_says strtod (Fin s) header line t q qd tau"
  shows "isfinite t \<and> vfinite q \<and> vfinite qd \<and> vfinite tau"
proof -
  have f: "isfinite (Fin s * x)" if "isfinite x" for x using that by auto
  show ?thesis
    using assms unfolding row_says_def vfinite_iff by (metis whole_number_finite f)
qed


text \<open>
  A file whose lines end in CR LF keeps the CR on its header's last name. If that column is one that is
  needed, it is missing.
\<close>

lemma crlf_last_column_missing:
  assumes "columns (names @ [name @ [CHR 0x0D]]) name \<noteq> None"
  shows "name \<in> set names"
proof -
  have "name \<in> set (names @ [name @ [CHR 0x0D]])" using assms columns_Some_iff by blast
  then show ?thesis by simp
qed

lemma crlf_tau7_refused:
  assumes "getlines (CHR 0x0A) content = header # rest"
    and "getlines (CHR '','') header = names @ [''tau7'' @ [CHR 0x0D]]" and "''tau7'' \<notin> set names"
  shows "\<exists>w. load_replay_csv strtod path (Some content) tau_sign = Inl (ReRuntime w)"
proof -
  let ?h = "names @ [''tau7'' @ [CHR 0x0D]]"
  have c: "columns ?h ''tau7'' = None" using crlf_last_column_missing [of names "''tau7''"] assms(3) by blast
  have d: "dec_nat 7 = ''7''" by code_simp
  have n6: "\<exists>w. need_joint path ?h 6 = Inl (ReRuntime w)"
    using c by (auto simp: need_joint_def d need_def Let_def andthen_def split: option.split)
  have jerr: "\<exists>w. need_joint path ?h j = Inl (ReRuntime w) \<or> (\<exists>x. need_joint path ?h j = Inr x)" for j
    by (auto simp: need_joint_def need_def Let_def andthen_def split: option.split)
  have "\<exists>w. collect (need_joint path ?h) js = Inl (ReRuntime w)" if "6 \<in> set js" for js
    using that
  proof (induction js)
    case (Cons j js)
    then show ?case using n6 jerr [of j] by (cases "6 \<in> set js") auto
  qed simp
  then have "\<exists>w. collect (need_joint path ?h) [0..<7] = Inl (ReRuntime w)" by simp
  then show ?thesis using assms(1,2)
    by (cases "columns ?h ''t''") (auto simp: load_replay_csv_def Let_def need_def simp del: upt_rec_numeral)
qed

subsection \<open>Rows of debounce\<close>

lemma to_int32_id: "- (2 ^ 31) \<le> i \<Longrightarrow> i < 2 ^ 31 \<Longrightarrow> to_int32 i = i"
  by (simp add: to_int32_def signed_of_int signed_take_bit_int_eq_self)

text \<open>
  A debounce in milliseconds is the nearest number of rows: with the median row spacing and the time
  positive, the rows last as long as was asked for to within half a row, or it is the one row that is
  the least.
\<close>

theorem debounce_rows_near:
  assumes "median_dt t = Fin dt" "0 < dt" "ms = Fin m" "0 < m" and "m / 1000 / dt < 2 ^ 31 - 1"
  shows "\<exists>n. debounce_rows_from_ms t ms = Inr n \<and> 1 \<le> n \<and> (\<bar>real_of_int n * dt * 1000 - m\<bar> \<le> dt * 1000 / 2 \<or> n = 1)"
proof -
  let ?x = "m / 1000 / dt"
  let ?r = "\<lfloor>?x + 1 / 2\<rfloor>"
  have x: "0 < ?x" using assms by simp
  have r: "?x - 1 / 2 \<le> ?r" "?r \<le> ?x + 1 / 2" by linarith+
  have "real_of_int ?r < real_of_int (2 ^ 31)" "- 1 < real_of_int ?r" using x r assms(5) by simp_all
  then have "0 \<le> ?r" "?r < 2 ^ 31" unfolding of_int_less_iff by linarith+
  then have l: "to_int32 (lround (ms / Fin 1000 / Fin dt)) = ?r"
    using assms(2,3) x by (simp add: lround_def Let_def to_int32_id)
  have "\<bar>real_of_int ?r - ?x\<bar> \<le> 1 / 2" using r by linarith
  then have "\<bar>(real_of_int ?r - ?x) * (dt * 1000)\<bar> \<le> 1 / 2 * (dt * 1000)"
    using assms(2) by (simp add: abs_mult)
  moreover have "(real_of_int ?r - ?x) * (dt * 1000) = real_of_int ?r * dt * 1000 - m" using assms(2) by (simp add: algebra_simps)
  ultimately have near: "\<bar>real_of_int ?r * dt * 1000 - m\<bar> \<le> dt * 1000 / 2" by simp
  have d: "debounce_rows_from_ms t ms = Inr (max 1 ?r)"
    using assms(1-4) l by (simp add: debounce_rows_from_ms_def Let_def)
  show ?thesis
  proof (cases "1 \<le> ?r")
    case True
    then show ?thesis using d near by (simp add: max_def)
  next
    case False
    then show ?thesis using d by (simp add: max_def)
  qed
qed


subsection \<open>The replay is the monitor of the real-time loop\<close>

text \<open>The monitor over the first \<open>n\<close> rows.\<close>

definition monitor_run :: "replay_input \<Rightarrow> contact_monitor \<Rightarrow> nat \<Rightarrow> contact_monitor" where
  "monitor_run ri m n = fold (\<lambda>k m. snd (cm_step m (replay_feedback ri k) (replay_dt ri k) False)) [0..<n] m"

lemma monitor_run_simps [simp]:
  "monitor_run ri m 0 = m"
  "monitor_run ri m (Suc n) = snd (cm_step (monitor_run ri m n) (replay_feedback ri n) (replay_dt ri n) False)"
  by (simp_all add: monitor_run_def)

text \<open>The same monitor, had it been told to enforce.\<close>

definition enforcing :: "contact_monitor \<Rightarrow> contact_monitor" where
  "enforcing m = m\<lparr>cm_cfg := (cm_cfg m)\<lparr>cc_detection := DetEnforce\<rparr>, cm_status := (cm_status m)\<lparr>cs_detection := DetEnforce\<rparr>,
     cm_pub := (cm_pub m)\<lparr>cs_detection := DetEnforce\<rparr>\<rparr>"

lemma enforcing_sel [simp]:
  "cm_latched (enforcing m) = cm_latched m" "cm_clear_requested (enforcing m) = cm_clear_requested m"
  "cm_cycle (enforcing m) = cm_cycle m" "cm_theta (enforcing m) = cm_theta m" "cm_count (enforcing m) = cm_count m"
  "cm_cfg (enforcing m) = (cm_cfg m)\<lparr>cc_detection := DetEnforce\<rparr>"
  "cm_status (enforcing m) = (cm_status m)\<lparr>cs_detection := DetEnforce\<rparr>"
  by (simp_all add: enforcing_def)

lemma enforcing_commutes:
  "(enforcing m)\<lparr>cm_cycle := c\<rparr> = enforcing (m\<lparr>cm_cycle := c\<rparr>)"
  "(enforcing m)\<lparr>cm_count := n\<rparr> = enforcing (m\<lparr>cm_count := n\<rparr>)"
  "(enforcing m)\<lparr>cm_pending_dt := d\<rparr> = enforcing (m\<lparr>cm_pending_dt := d\<rparr>)"
  "cm_publish (enforcing m) = enforcing (cm_publish m)"
  "cm_set_phase ph (enforcing m) = enforcing (cm_set_phase ph m)"
  "cm_observe fb dt (enforcing m) = enforcing (cm_observe fb dt m)"
  by (simp_all add: enforcing_def cm_publish_def cm_set_phase_def cm_observe_def cm_max_step_s_def cm_settle_s_def Let_def)

lemma enforcing_adopt: "\<not> cm_clear_requested m \<Longrightarrow> cm_adopt (enforcing m) = enforcing (cm_adopt m)"
  by (simp add: enforcing_def cm_adopt_def Let_def)

text \<open>After a sample that is not finite.\<close>

definition bad_view :: "contact_monitor \<Rightarrow> dbl \<Rightarrow> contact_monitor" where
  "bad_view m dt =
     (let a = cm_adopt (m\<lparr>cm_cycle := cm_cycle m + 1\<rparr>)
      in cm_publish (a\<lparr>cm_status := (cm_status a)\<lparr>cs_bad_samples := cs_bad_samples (cm_status a) + 1\<rparr>,
                       cm_pending_dt := cm_pending_dt a + dt\<rparr>))"

lemma enforcing_bad: "\<not> cm_clear_requested m \<Longrightarrow> bad_view (enforcing m) dt = enforcing (bad_view m dt)"
  by (simp add: bad_view_def enforcing_commutes enforcing_adopt Let_def) (simp add: enforcing_def cm_publish_def)

text \<open>What an observing monitor is like between steps.\<close>

definition observing :: "contact_monitor \<Rightarrow> bool" where
  "observing m \<longleftrightarrow> cc_detection (cm_cfg m) = DetObserve \<and> \<not> cm_latched m \<and> \<not> cm_clear_requested m \<and> cm_pub m = cm_status m"

text \<open>A good sample, by what the debounce says of it.\<close>

definition settled_view :: "contact_monitor \<Rightarrow> joint_feedback \<Rightarrow> dbl \<Rightarrow> contact_monitor" where
  "settled_view m fb dt = cm_observe fb dt (cm_adopt (m\<lparr>cm_cycle := cm_cycle m + 1\<rparr>))"

definition crossing :: "contact_monitor \<Rightarrow> joint_feedback \<Rightarrow> dbl \<Rightarrow> int vec7 \<times> int" where
  "crossing m fb dt = (let m2 = settled_view m fb dt
     in debounce (cc_debounce_cycles (cm_cfg m)) (cs_r (cm_status m2)) (cm_theta m2) (cm_count m2))"

definition trips :: "contact_monitor \<Rightarrow> joint_feedback \<Rightarrow> dbl \<Rightarrow> bool" where
  "trips m fb dt \<longleftrightarrow> cm_good_sample fb \<and> cs_settled (cm_status (settled_view m fb dt)) \<and> 0 \<le> snd (crossing m fb dt)"

lemma step_cases:
  assumes "\<not> cm_latched m" "\<not> cm_clear_requested m"
  shows "snd (cm_step m fb dt False) =
    (if \<not> cm_good_sample fb
     then bad_view m dt
     else let m2 = settled_view m fb dt in
          if \<not> cs_settled (cm_status m2) then cm_publish (cm_set_phase PhSettling m2)
          else let m4 = (cm_set_phase PhArmed m2)\<lparr>cm_count := fst (crossing m fb dt)\<rparr>
               in cm_publish (if 0 \<le> snd (crossing m fb dt) then cm_record_trip fb (cm_cycle m) (snd (crossing m fb dt)) m4 else m4))"
  using assms by (simp add: cm_step_def settled_view_def crossing_def bad_view_def Let_def split: prod.split)

lemma settled_view_frame [simp]:
  "cm_cfg (settled_view m fb dt) = cm_cfg m" "\<not> cm_clear_requested (settled_view m fb dt)"
  "cm_latched (settled_view m fb dt) \<longleftrightarrow> cm_latched m \<and> \<not> cm_clear_requested m"
  by (simp_all add: settled_view_def)

lemma settled_view_trips [simp]:
  "\<not> cm_clear_requested m \<Longrightarrow> cs_would_trips (cm_status (settled_view m fb dt)) = cs_would_trips (cm_status m)"
  by (simp add: settled_view_def cm_observe_def cm_adopt_def Let_def)

lemma enforcing_view: "\<not> cm_clear_requested m \<Longrightarrow> settled_view (enforcing m) fb dt = enforcing (settled_view m fb dt)"
  by (simp add: settled_view_def enforcing_commutes enforcing_adopt)

lemma enforcing_crossing: "\<not> cm_clear_requested m \<Longrightarrow> crossing (enforcing m) fb dt = crossing m fb dt"
  by (simp add: crossing_def enforcing_view Let_def)

lemma observing_step:
  assumes "observing m"
  shows "observing (snd (cm_step m fb dt False)) \<and>
    cs_would_trips (cm_status (snd (cm_step m fb dt False))) = cs_would_trips (cm_status m) + (if trips m fb dt then 1 else 0)"
proof -
  have a: "cc_detection (cm_cfg m) = DetObserve" "\<not> cm_latched m" "\<not> cm_clear_requested m" using assms by (simp_all add: observing_def)
  then show ?thesis
    by (simp add: step_cases observing_def trips_def bad_view_def Let_def cm_record_trip_def cm_set_phase_def cm_adopt_def)
qed

lemma enforcing_step:
  assumes "observing m"
  shows "if trips m fb dt then cm_latched (snd (cm_step (enforcing m) fb dt False))
         else snd (cm_step (enforcing m) fb dt False) = enforcing (snd (cm_step m fb dt False))"
proof -
  have a: "\<not> cm_latched m" "\<not> cm_clear_requested m" using assms by (simp_all add: observing_def)
  then have b: "\<not> cm_latched (enforcing m)" "\<not> cm_clear_requested (enforcing m)" by simp_all
  show ?thesis
    unfolding step_cases [OF a] step_cases [OF b]
    using a by (simp add: trips_def Let_def enforcing_commutes enforcing_adopt enforcing_view enforcing_crossing enforcing_bad)
qed


text \<open>Row \<open>k\<close> completes a debounce; joint \<open>j\<close> is the one reported for it.\<close>

definition row_trips :: "replay_input \<Rightarrow> contact_monitor \<Rightarrow> nat \<Rightarrow> bool" where
  "row_trips ri m k \<longleftrightarrow> trips (monitor_run ri m k) (replay_feedback ri k) (replay_dt ri k)"

definition row_joint :: "replay_input \<Rightarrow> contact_monitor \<Rightarrow> nat \<Rightarrow> nat" where
  "row_joint ri m k = nat (snd (crossing (monitor_run ri m k) (replay_feedback ri k) (replay_dt ri k)))"

definition row_moving :: "replay_input \<Rightarrow> contact_monitor \<Rightarrow> nat \<Rightarrow> bool" where
  "row_moving ri m k \<longleftrightarrow> moving (cm_pub (monitor_run ri m (Suc k))) (ri_qd ri ! k)"

lemma observing_run: "observing m \<Longrightarrow> observing (monitor_run ri m n)"
  by (induction n) (simp_all add: observing_step)

lemma init_observing: "cm_init dyn (replay_config opt) = Inr m \<Longrightarrow> observing m \<and> cs_would_trips (cm_status m) = 0"
  by (auto simp: cm_init_def validated_def replay_config_def observing_def contact_status0_def cm_publish_def
      split: if_splits option.splits sum.splits)

lemma card_below_Suc: "card {k. k < Suc n \<and> P k} = card {k. k < n \<and> P k} + (if P n then 1 else 0)"
proof -
  have "{k. k < Suc n \<and> P k} = {k. k < n \<and> P k} \<union> (if P n then {n} else {})" by (auto simp: less_Suc_eq)
  then show ?thesis by simp
qed

lemma card_below_le: "card {k. k < n \<and> P k} \<le> n"
  using card_mono [of "{..<n}" "{k. k < n \<and> P k}"] by auto

lemma would_trips_run:
  assumes "observing m" "cs_would_trips (cm_status m) = 0"
  shows "cs_would_trips (cm_status (monitor_run ri m n)) = of_nat (card {k. k < n \<and> row_trips ri m k})"
  using assms observing_step [OF observing_run [OF assms(1)], of ri _ "replay_feedback ri _" "replay_dt ri _"]
  by (induction n) (simp_all add: card_below_Suc row_trips_def)

lemma pub_run: "observing m \<Longrightarrow> cm_pub (monitor_run ri m n) = cm_status (monitor_run ri m n)"
  using observing_run by (simp add: observing_def)

text \<open>The trip of a row, as the status reports it.\<close>

lemma trip_reported:
  assumes "observing m" and "trips m fb dt"
  shows "ct_joint (cs_last (cm_status (snd (cm_step m fb dt False)))) = snd (crossing m fb dt) \<and>
    ct_r (cs_last (cm_status (snd (cm_step m fb dt False)))) = cs_r (cm_status (snd (cm_step m fb dt False)))"
proof -
  have a: "\<not> cm_latched m" "\<not> cm_clear_requested m" "cc_detection (cm_cfg m) = DetObserve" using assms(1) by (simp_all add: observing_def)
  then show ?thesis using assms(2) by (simp add: step_cases trips_def Let_def cm_record_trip_def cm_set_phase_def)
qed

lemma trip_joint: "trips m fb dt \<Longrightarrow> nat (snd (crossing m fb dt)) < 7"
  by (auto simp: trips_def crossing_def Let_def debounce_tripped find_Some_iff simp del: upt_rec_numeral split: option.splits)

text \<open>What the replay's loop has after \<open>n\<close> rows.\<close>

definition first_of :: "replay_input \<Rightarrow> contact_monitor \<Rightarrow> nat \<Rightarrow> nat \<Rightarrow> nat \<Rightarrow> bool" where
  "first_of ri m n j k \<longleftrightarrow> k < n \<and> row_trips ri m k \<and> row_joint ri m k = j \<and>
     (\<forall>i < k. \<not> (row_trips ri m i \<and> row_joint ri m i = j))"

definition told_first :: "replay_input \<Rightarrow> contact_monitor \<Rightarrow> nat \<Rightarrow> replay_trip vec7 \<Rightarrow> nat \<Rightarrow> bool" where
  "told_first ri m n ft j \<longleftrightarrow>
     (if yt_valid (vnth ft j)
      then \<exists>k. first_of ri m n j k \<and> yt_t (vnth ft j) = ri_t ri ! k \<and> yt_r (vnth ft j) = vnth (cs_r (cm_pub (monitor_run ri m (Suc k)))) j
      else \<forall>k < n. \<not> (row_trips ri m k \<and> row_joint ri m k = j))"

lemma told_first_Suc:
  assumes "told_first ri m n ft j" and "j < 7" and "row_joint ri m n < 7 \<or> \<not> row_trips ri m n"
  shows "told_first ri m (Suc n)
    (if row_trips ri m n \<and> \<not> yt_valid (vnth ft (row_joint ri m n))
     then vupd ft (row_joint ri m n) \<lparr>yt_valid = True, yt_t = ri_t ri ! n, yt_r = vnth (cs_r (cm_pub (monitor_run ri m (Suc n)))) (row_joint ri m n)\<rparr>
     else ft) j"
  using assms by (auto simp: told_first_def first_of_def less_Suc_eq simp del: monitor_run_simps split: if_splits)

definition loop_ok :: "replay_input \<Rightarrow> contact_monitor \<Rightarrow> nat \<Rightarrow> replay_run \<Rightarrow> bool" where
  "loop_ok ri m n y \<longleftrightarrow>
     yr_mon y = monitor_run ri m n \<and> yr_seen y = of_nat (card {k. k < n \<and> row_trips ri m k}) \<and>
     ys_r (yr_stats y) = map (\<lambda>k. cs_r (cm_pub (monitor_run ri m (Suc k)))) [0..<n] \<and>
     ys_moving_samples (yr_stats y) = card {k. k < n \<and> row_moving ri m k} \<and>
     (\<forall>j < 7. told_first ri m n (ys_first_trip (yr_stats y)) j)"

lemma note_moving_simps [simp]:
  "yr_mon (note_moving qd st y) = yr_mon y" "yr_seen (note_moving qd st y) = yr_seen y"
  "ys_r (yr_stats (note_moving qd st y)) = ys_r (yr_stats y)"
  "ys_first_trip (yr_stats (note_moving qd st y)) = ys_first_trip (yr_stats y)"
  "ys_moving_samples (yr_stats (note_moving qd st y)) = ys_moving_samples (yr_stats y) + (if moving st qd then 1 else 0)"
  by (simp_all add: note_moving_def Let_def)

lemma note_trip_simps [simp]:
  "yr_mon (note_trip t st y) = yr_mon y" "ys_r (yr_stats (note_trip t st y)) = ys_r (yr_stats y)"
  "ys_moving_samples (yr_stats (note_trip t st y)) = ys_moving_samples (yr_stats y)"
  by (simp_all add: note_trip_def Let_def)

lemma unat_small: "x < 2 ^ 64 \<Longrightarrow> unat (of_nat x :: 64 word) = x"
  by (simp add: unsigned_of_nat take_bit_nat_eq_self)

lemma loop_step:
  assumes m: "observing m" "cs_would_trips (cm_status m) = 0" and ok: "loop_ok ri m n y" and n: "Suc n < 2 ^ 64"
  shows "loop_ok ri m (Suc n) (replay_step ri n y)"
proof -
  let ?c = "card {k. k < n \<and> row_trips ri m k}"
  let ?m = "monitor_run ri m n" and ?m' = "monitor_run ri m (Suc n)"
  let ?y1 = "y\<lparr>yr_mon := ?m', yr_stats := (yr_stats y)\<lparr>ys_r := ys_r (yr_stats y) @ [cs_r (cm_pub ?m')]\<rparr>\<rparr>"
  have y: "yr_mon y = ?m" "yr_seen y = of_nat ?c" using ok by (simp_all add: loop_ok_def)
  have obs: "observing ?m" and pub: "cm_pub ?m' = cm_status ?m'" using m observing_run pub_run by blast+
  have wt: "cs_would_trips (cm_pub ?m') = of_nat (card {k. k < Suc n \<and> row_trips ri m k})"
    unfolding pub using would_trips_run [OF m] by blast
  have le: "?c \<le> n" by (rule card_below_le)
  have more: "yr_seen y < cs_would_trips (cm_pub ?m') \<longleftrightarrow> row_trips ri m n"
    unfolding wt y card_below_Suc word_less_nat_alt using le n by (simp add: unat_small del: of_nat_add)
  have step: "replay_step ri n y = note_moving (ri_qd ri ! n) (cm_pub ?m') (note_trip (ri_t ri ! n) (cm_pub ?m') ?y1)"
    by (simp add: replay_step_def y(1) Let_def)
  have trip: "nat (ct_joint (cs_last (cm_pub ?m'))) = row_joint ri m n" "ct_r (cs_last (cm_pub ?m')) = cs_r (cm_pub ?m')"
    if "row_trips ri m n"
    using trip_reported [OF obs] that unfolding pub row_trips_def row_joint_def by simp_all
  have seven: "row_joint ri m n < 7 \<or> \<not> row_trips ri m n"
    using trip_joint by (auto simp: row_trips_def row_joint_def)
  have ft: "ys_first_trip (yr_stats (note_trip (ri_t ri ! n) (cm_pub ?m') ?y1)) =
    (if row_trips ri m n \<and> \<not> yt_valid (vnth (ys_first_trip (yr_stats y)) (row_joint ri m n))
     then vupd (ys_first_trip (yr_stats y)) (row_joint ri m n)
       \<lparr>yt_valid = True, yt_t = ri_t ri ! n, yt_r = vnth (cs_r (cm_pub ?m')) (row_joint ri m n)\<rparr>
     else ys_first_trip (yr_stats y))"
    using trip more by (auto simp: note_trip_def Let_def)
  have seen: "yr_seen (note_trip (ri_t ri ! n) (cm_pub ?m') ?y1) = of_nat (card {k. k < Suc n \<and> row_trips ri m k})"
    using more wt y(2) by (auto simp: note_trip_def Let_def card_below_Suc)
  show ?thesis
    unfolding loop_ok_def step note_moving_simps note_trip_simps ft seen
    using ok told_first_Suc [OF _ _ seven] by (auto simp: loop_ok_def card_below_Suc row_moving_def)
qed

lemma loop_runs:
  assumes "observing m" "cs_would_trips (cm_status m) = 0" "n < 2 ^ 64"
  shows "loop_ok ri m n (fold (replay_step ri) [0..<n] (replay_start m))"
  using assms(3)
proof (induction n)
  case 0
  then show ?case using assms(2) by (simp add: loop_ok_def replay_start_def told_first_def replay_trip0_def)
next
  case (Suc n)
  then show ?case using loop_step [OF assms(1,2), of ri n] by simp
qed


text \<open>
  The replay reports what the monitor does. Its residuals are those the monitor publishes row by row; it
  counts the rows on which a debounce completes, and the armed rows in motion; for each joint it
  reports a first trip exactly if some row reported that joint, with the time of the first such row
  and the joint's residual there.
\<close>

theorem replay_reports_monitor:
  assumes "replay dyn ri opt = Inr s" and "cm_init dyn (replay_config opt) = Inr m" and "length (ri_t ri) < 2 ^ 64"
  shows "ys_r s = map (\<lambda>k. cs_r (cm_pub (monitor_run ri m (Suc k)))) [0..<length (ri_t ri)] \<and>
    unat (ys_would_trips s) = card {k. k < length (ri_t ri) \<and> row_trips ri m k} \<and>
    ys_moving_samples s = card {k. k < length (ri_t ri) \<and> row_moving ri m k} \<and>
    (\<forall>j < 7. told_first ri m (length (ri_t ri)) (ys_first_trip s) j)"
proof -
  let ?n = "length (ri_t ri)"
  have m: "observing m" "cs_would_trips (cm_status m) = 0" using init_observing [OF assms(2)] by simp_all
  have s: "s = replay_finish (replay_loop ri m)" using assms(1,2) by (auto simp: replay_def Let_def split: if_splits)
  have ok: "loop_ok ri m ?n (replay_loop ri m)" using loop_runs [OF m assms(3)] by (simp add: replay_loop_def)
  have f: "ys_r (replay_finish y) = ys_r (yr_stats y)" "ys_would_trips (replay_finish y) = yr_seen y"
    "ys_moving_samples (replay_finish y) = ys_moving_samples (yr_stats y)" "ys_first_trip (replay_finish y) = ys_first_trip (yr_stats y)" for y
    by (simp_all add: replay_finish_def Let_def)
  have "card {k. k < ?n \<and> row_trips ri m k} < 2 ^ 64" using card_below_le assms(3) by (rule le_less_trans)
  then show ?thesis using ok unfolding s f loop_ok_def by (simp add: unat_small)
qed

lemma init_enforcing:
  assumes "cm_init dyn (replay_config opt) = Inr m"
  shows "cm_init dyn ((replay_config opt)\<lparr>cc_detection := DetEnforce\<rparr>) = Inr (enforcing m)"
  using assms
  by (auto simp: cm_init_def validated_def replay_config_def cm_publish_def enforcing_def contact_status0_def
      split: if_splits option.splits sum.splits)

lemma enforcing_runs:
  assumes "observing m"
  shows "if \<exists>i < k. row_trips ri m i then cm_latched (monitor_run ri (enforcing m) k) \<and> \<not> cm_clear_requested (monitor_run ri (enforcing m) k)
         else monitor_run ri (enforcing m) k = enforcing (monitor_run ri m k)"
proof (induction k)
  case (Suc k)
  have obs: "observing (monitor_run ri m k)" using assms by (rule observing_run)
  have clear: "\<not> cm_clear_requested (snd (cm_step x fb dt False))" if "\<not> cm_clear_requested x" for x fb dt
    using that by (simp add: cm_step_def Let_def split: prod.split)
  show ?case
  proof (cases "\<exists>i < k. row_trips ri m i")
    case True
    then show ?thesis using Suc cm_step_latched by (auto simp: less_Suc_eq)
  next
    case False
    then have e: "monitor_run ri (enforcing m) k = enforcing (monitor_run ri m k)" using Suc by simp
    have "\<not> cm_clear_requested (enforcing (monitor_run ri m k))" using obs by (simp add: observing_def)
    note c = clear [OF this, of "replay_feedback ri k" "replay_dt ri k"]
    show ?thesis
      using False c enforcing_step [OF obs, of "replay_feedback ri k" "replay_dt ri k"]
      by (auto simp: e row_trips_def less_Suc_eq)
  qed
qed simp

text \<open>
  Claim C37. The replay predicts the stop. A monitor configured as in the replay but told to enforce, as
  the real-time loop's is, and given the same rows, is latched after a row exactly if the replay
  counted a trip at that row or before; so the replay reports no trip exactly if the arm would not have
  stopped, and if it would have, the row at which it stops is the time of the first trip of a joint.
\<close>

theorem replay_predicts_stop:
  assumes "replay dyn ri opt = Inr s" and "cm_init dyn ((replay_config opt)\<lparr>cc_detection := DetEnforce\<rparr>) = Inr e"
    and "length (ri_t ri) < 2 ^ 64"
  shows "(ys_would_trips s = 0 \<longleftrightarrow> \<not> cm_latched (monitor_run ri e (length (ri_t ri)))) \<and>
    (\<forall>k < length (ri_t ri). \<not> cm_latched (monitor_run ri e k) \<and> cm_latched (monitor_run ri e (Suc k)) \<longrightarrow>
       (\<exists>j < 7. yt_valid (vnth (ys_first_trip s) j) \<and> yt_t (vnth (ys_first_trip s) j) = ri_t ri ! k))"
proof -
  let ?n = "length (ri_t ri)"
  obtain m where m: "cm_init dyn (replay_config opt) = Inr m"
    using assms(1) by (auto simp: replay_def Let_def split: if_splits sum.splits)
  have e: "e = enforcing m" using init_enforcing [OF m] assms(2) by simp
  have obs: "observing m" using init_observing [OF m] by simp
  have latched: "cm_latched (monitor_run ri e k) \<longleftrightarrow> (\<exists>i < k. row_trips ri m i)" for k
    using enforcing_runs [OF obs, of k ri] observing_run [OF obs, of ri k] by (auto simp: e observing_def split: if_splits)
  note told = replay_reports_monitor [OF assms(1) m assms(3)]
  have "ys_would_trips s = 0 \<longleftrightarrow> card {k. k < ?n \<and> row_trips ri m k} = 0" using told by (metis unat_eq_zero)
  also have "\<dots> \<longleftrightarrow> \<not> (\<exists>i < ?n. row_trips ri m i)" by auto
  finally have stop: "ys_would_trips s = 0 \<longleftrightarrow> \<not> cm_latched (monitor_run ri e ?n)" using latched by simp
  have first: "\<exists>j < 7. yt_valid (vnth (ys_first_trip s) j) \<and> yt_t (vnth (ys_first_trip s) j) = ri_t ri ! k"
    if k: "k < ?n" "\<not> cm_latched (monitor_run ri e k)" "cm_latched (monitor_run ri e (Suc k))" for k
  proof -
    have t: "row_trips ri m k" "\<forall>i < k. \<not> row_trips ri m i" using k(2,3) unfolding latched by (auto simp: less_Suc_eq)
    let ?j = "row_joint ri m k"
    have j: "?j < 7" using t(1) trip_joint by (simp add: row_trips_def row_joint_def)
    have "told_first ri m ?n (ys_first_trip s) ?j" using told j by blast
    then obtain k' where v: "yt_valid (vnth (ys_first_trip s) ?j)" "first_of ri m ?n ?j k'" "yt_t (vnth (ys_first_trip s) ?j) = ri_t ri ! k'"
      using t(1) k(1) by (auto simp: told_first_def split: if_splits)
    have "k' = k" using v(2) t unfolding first_of_def by (metis linorder_neqE_nat)
    then show ?thesis using v j by auto
  qed
  show ?thesis using stop first by blast
qed


subsection \<open>The program\<close>

text \<open>
  \<open>apps/contact_replay.cpp\<close>: its arguments and what it computes; the tables it prints are not modelled.
  \<open>stod\<close> and \<open>stoi\<close> are parameters, \<open>None\<close> where they throw; the file system and the model are too.
\<close>

record replay_env =
  ye_stod :: "string \<Rightarrow> dbl option"
  ye_stoi :: "string \<Rightarrow> int option"
  ye_strtod :: "string \<Rightarrow> dbl \<times> nat"
  ye_read :: "string \<Rightarrow> string option"
  ye_model :: "string \<Rightarrow> string \<Rightarrow> dynamics option"
  ye_can_write :: "string \<Rightarrow> bool"

record replay_args =
  ya_urdf :: string
  ya_ee_frame :: string
  ya_options :: replay_options
  ya_csv :: string
  ya_out :: string
  ya_tau_sign :: dbl
  ya_debounce_ms :: dbl
  ya_have_rows :: bool

definition replay_args0 :: replay_args where
  "replay_args0 = \<lparr>ya_urdf = [], ya_ee_frame = [], ya_options = replay_options0, ya_csv = [], ya_out = [],
     ya_tau_sign = Fin 1, ya_debounce_ms = Fin 0, ya_have_rows = False\<rparr>"

definition of_option :: "replay_error \<Rightarrow> 'a option \<Rightarrow> 'a fallible" where
  "of_option e x = (case x of None \<Rightarrow> Inl e | Some a \<Rightarrow> Inr a)"

definition seven_error :: replay_error where
  "seven_error = ReRuntime ''--thresholds needs exactly 7 values''"

fun parse_cells :: "(string \<Rightarrow> dbl option) \<Rightarrow> nat \<Rightarrow> string list \<Rightarrow> dbl list fallible" where
  "parse_cells stod n [] = (if n \<noteq> 7 then Inl seven_error else Inr [])"
| "parse_cells stod n (c # cs) =
     (if 7 \<le> n then Inl seven_error
      else andthen (of_option (ReInvalid ''stod'') (stod c)) (\<lambda>v. andthen (parse_cells stod (n + 1) cs) (\<lambda>vs. Inr (v # vs))))"

definition parse_thresholds :: "(string \<Rightarrow> dbl option) \<Rightarrow> string \<Rightarrow> jointvec fallible" where
  "parse_thresholds stod s = andthen (parse_cells stod 0 (getlines (CHR '','') s)) (\<lambda>vs. Inr (vec_of vs))"

text \<open>What one option does with its value.\<close>

definition set_option :: "replay_env \<Rightarrow> string \<Rightarrow> string \<Rightarrow> replay_args \<Rightarrow> replay_args fallible" where
  "set_option v a x y =
     (let number = andthen (of_option (ReInvalid ''stod'') (ye_stod v x)); opt = ya_options y
      in if a = ''--urdf'' then Inr (y\<lparr>ya_urdf := x\<rparr>)
         else if a = ''--ee-frame'' then Inr (y\<lparr>ya_ee_frame := x\<rparr>)
         else if a = ''--csv'' then Inr (y\<lparr>ya_csv := x\<rparr>)
         else if a = ''--out'' then Inr (y\<lparr>ya_out := x\<rparr>)
         else if a = ''--gain'' then number (\<lambda>g. Inr (y\<lparr>ya_options := opt\<lparr>ro_gain := g\<rparr>\<rparr>))
         else if a = ''--debounce''
           then andthen (of_option (ReInvalid ''stoi'') (ye_stoi v x))
                  (\<lambda>n. Inr (y\<lparr>ya_options := opt\<lparr>ro_debounce_cycles := n\<rparr>, ya_have_rows := True\<rparr>))
         else if a = ''--debounce-ms'' then number (\<lambda>ms. Inr (y\<lparr>ya_debounce_ms := ms\<rparr>))
         else if a = ''--thresholds'' then andthen (parse_thresholds (ye_stod v) x) (\<lambda>th. Inr (y\<lparr>ya_options := opt\<lparr>ro_theta := th\<rparr>\<rparr>))
         else number (\<lambda>s. Inr (y\<lparr>ya_tau_sign := s\<rparr>)))"

definition options_known :: "string list" where
  "options_known = [''--urdf'', ''--ee-frame'', ''--csv'', ''--out'', ''--gain'', ''--debounce'', ''--debounce-ms'', ''--thresholds'', ''--tau-sign'']"

fun parse_args :: "replay_env \<Rightarrow> string list \<Rightarrow> replay_args \<Rightarrow> replay_args fallible" where
  "parse_args v [] y = Inr y"
| "parse_args v [a] y = Inl (ReRuntime (if a \<in> set options_known then a @ '' needs a value'' else ''unknown argument '' @ a))"
| "parse_args v (a # x # as) y =
     (if a \<in> set options_known then andthen (set_option v a x y) (parse_args v as) else Inl (ReRuntime (''unknown argument '' @ a)))"

text \<open>The checks, the debounce in rows, the replay; a result is what is written and printed.\<close>

definition replay_main :: "replay_env \<Rightarrow> string list \<Rightarrow> (replay_options \<times> replay_input \<times> replay_stats) fallible" where
  "replay_main v argv =
     andthen (parse_args v argv replay_args0) (\<lambda>y.
       if ya_urdf y = [] \<or> ya_ee_frame y = [] \<or> ya_csv y = [] \<or> ya_out y = []
       then Inl (ReRuntime ''--urdf, --ee-frame, --csv and --out are required'')
       else if ya_have_rows y \<and> Fin 0 < ya_debounce_ms y
       then Inl (ReRuntime ''--debounce and --debounce-ms are mutually exclusive'')
       else andthen (load_replay_csv (ye_strtod v) (ya_csv y) (ye_read v (ya_csv y)) (ya_tau_sign y)) (\<lambda>ri.
            andthen (if Fin 0 < ya_debounce_ms y
                     then andthen (debounce_rows_from_ms (ri_t ri) (ya_debounce_ms y)) (\<lambda>n. Inr ((ya_options y)\<lparr>ro_debounce_cycles := n\<rparr>))
                     else Inr (ya_options y)) (\<lambda>opt.
            andthen (of_option (ReRuntime ''Dynamics'') (ye_model v (ya_urdf y) (ya_ee_frame y))) (\<lambda>dyn.
            andthen (replay dyn ri opt) (\<lambda>s.
              if ye_can_write v (ya_out y) then Inr (opt, ri, s) else Inl (ReRuntime (''cannot write '' @ ya_out y)))))))"

definition exit_code :: "'a fallible \<Rightarrow> int" where
  "exit_code r = (case r of Inl _ \<Rightarrow> 2 | Inr _ \<Rightarrow> 0)"

text \<open>
  When the program ends with 0, its numbers mean something: the gain and the thresholds it used are
  finite and positive, the debounce at least one row, and the rows are what the file says.
\<close>

theorem replay_main_sound:
  assumes "replay_main v argv = Inr (opt, ri, s)"
  shows "(\<exists>g. ro_gain opt = Fin g \<and> 0 < g) \<and> 1 \<le> ro_debounce_cycles opt \<and>
    (\<forall>i < 7. \<exists>x. vnth (ro_theta opt) i = Fin x \<and> 0 < x) \<and>
    (\<exists>dyn urdf frame. ye_model v urdf frame = Some dyn \<and> replay dyn ri opt = Inr s) \<and>
    (\<exists>path content sign. ye_read v path = Some content \<and> load_replay_csv (ye_strtod v) path (Some content) sign = Inr ri)"
proof -
  obtain dyn urdf frame path sign where r: "replay dyn ri opt = Inr s" "ye_model v urdf frame = Some dyn"
    "load_replay_csv (ye_strtod v) path (ye_read v path) sign = Inr ri"
    using assms by (auto simp: replay_main_def andthen_Inr_iff of_option_def split: if_splits option.splits)
  obtain m where "cm_init dyn (replay_config opt) = Inr m" using r(1) by (auto simp: replay_def Let_def split: if_splits sum.splits)
  then obtain c where c: "validated (replay_config opt) = Inr c" by (auto simp: cm_init_def split: sum.splits)
  have ok: "isfinite (ro_gain opt)" "Fin 0 < ro_gain opt" "1 \<le> ro_debounce_cycles opt"
    "validate_contact_thresholds (ro_theta opt) (ro_theta opt) = None"
    using c by (auto simp: validated_def replay_config_def contact_config0_def split: if_splits option.splits)
  obtain content where "ye_read v path = Some content" using r(3) by (cases "ye_read v path") (auto simp: load_replay_csv_def)
  moreover have "\<exists>g. ro_gain opt = Fin g \<and> 0 < g" using ok(1,2) by auto
  moreover have "\<forall>i < 7. \<exists>x. vnth (ro_theta opt) i = Fin x \<and> 0 < x" using ok(4) by (force simp: validate_contact_thresholds_None)
  ultimately show ?thesis using ok(3) r by metis
qed

subsection \<open>Applied\<close>

definition demo_recording :: replay_input where
  "demo_recording = \<lparr>ri_t = [Fin 0, Fin (1/100)], ri_q = [vzero, vzero], ri_qd = [vzero, vzero], ri_tau = [vzero, vzero]\<rparr>"

lemma demo_config_valid: "validated ((replay_config replay_options0)\<lparr>cc_detection := d\<rparr>) = Inr ((replay_config replay_options0)\<lparr>cc_detection := d\<rparr>)"
proof -
  let ?th = "V7 (Fin 16) (Fin 16) (Fin 12) (Fin 12) (Fin 4) (Fin 4) (Fin 4)"
  have "validate_contact_thresholds ?th ?th = None" unfolding validate_contact_thresholds_None all_less_7 by simp
  then show ?thesis by (simp add: validated_def replay_config_def replay_options0_def contact_config0_def)
qed

lemma demo_monitors: "\<exists>m. cm_init zero_dynamics ((replay_config replay_options0)\<lparr>cc_detection := d\<rparr>) = Inr m"
  using demo_config_valid [of d] by (simp add: cm_init_def mo_init_def replay_config_def replay_options0_def contact_config0_def)

theorem replay_predicts_stop_witness:
  "\<exists>s e. replay zero_dynamics demo_recording replay_options0 = Inr s \<and>
     (ys_would_trips s = 0 \<longleftrightarrow> \<not> cm_latched (monitor_run demo_recording e 2))"
proof -
  obtain m where "cm_init zero_dynamics ((replay_config replay_options0)\<lparr>cc_detection := DetObserve\<rparr>) = Inr m"
    using demo_monitors by blast
  then have "cm_init zero_dynamics (replay_config replay_options0) = Inr m" by (simp add: replay_config_def contact_config0_def)
  then obtain s where s: "replay zero_dynamics demo_recording replay_options0 = Inr s" by (simp add: replay_def demo_recording_def)
  obtain e where e: "cm_init zero_dynamics ((replay_config replay_options0)\<lparr>cc_detection := DetEnforce\<rparr>) = Inr e"
    using demo_monitors by blast
  have n: "length (ri_t demo_recording) = 2" by (simp add: demo_recording_def)
  from replay_predicts_stop [OF s e] s show ?thesis unfolding n by auto
qed

end
