(* ===== verification/Dynamics_Model.thy ===== *)
theory Dynamics_Model
  imports Joint_Types "HOL-Library.Sublist"
begin

section \<open>The rigid-body model over Pinocchio\<close>

text \<open>
  \<open>dynamics.cpp\<close>: how \<open>Dynamics\<close> is built from a parsed URDF and how it calls Pinocchio, which yields the
  record \<open>dynamics\<close> that every mode is given. Pinocchio and Eigen are the parameter \<open>pinocchio\<close>: parsing,
  reducing, and the algorithms on a configuration. What the code reads of a model is a record.
\<close>

subsection \<open>Models and the library\<close>

record pmodel =
  pn_nv :: nat
  pn_nq :: nat
  pn_njoints :: nat
  pn_names :: "string list"
  pn_kinds :: "string list"
  pn_nqs :: "nat list"
  pn_nvs :: "nat list"
  pn_idx_qs :: "nat list"
  pn_idx_vs :: "nat list"
  pn_supports :: "nat list list"
  pn_lower :: "dbl list"
  pn_upper :: "dbl list"
  pn_speed :: "dbl list"

text \<open>
  \<open>pl_frame_joint\<close>: the parent joint of a frame, \<open>None\<close> when the model has no such frame. \<open>pl_crba\<close> fills the
  upper triangle only. \<open>pl_pose\<close> is the frame's placement with its rotation as a unit quaternion;
  \<open>pl_axis\<close> the normalised direction of joint 1.
\<close>

record pinocchio =
  pl_build :: "string \<Rightarrow> pmodel option"
  pl_build_xml :: "string \<Rightarrow> pmodel option"
  pl_frame_joint :: "pmodel \<Rightarrow> string \<Rightarrow> nat option"
  pl_reduce :: "pmodel \<Rightarrow> nat list \<Rightarrow> pmodel"
  pl_joint_id :: "pmodel \<Rightarrow> string \<Rightarrow> nat"
  pl_neutral :: "pmodel \<Rightarrow> dbl list"
  pl_gravity :: "pmodel \<Rightarrow> dbl list \<Rightarrow> jointvec"
  pl_pose :: "pmodel \<Rightarrow> string \<Rightarrow> dbl list \<Rightarrow> pose"
  pl_crba :: "pmodel \<Rightarrow> dbl list \<Rightarrow> jointmat"
  pl_coriolis :: "pmodel \<Rightarrow> dbl list \<Rightarrow> jointvec \<Rightarrow> jointmat"
  pl_jacobian :: "pmodel \<Rightarrow> string \<Rightarrow> dbl list \<Rightarrow> jacobian6"
  pl_axis :: "pmodel \<Rightarrow> dbl list \<Rightarrow> dbl \<times> dbl \<times> dbl"

subsection \<open>Building\<close>

text \<open>The joints that are not on the chain to the frame.\<close>

definition off_chain :: "pmodel \<Rightarrow> nat \<Rightarrow> nat list" where
  "off_chain full parent = filter (\<lambda>j. j \<notin> set (pn_supports full ! parent)) [1..<pn_njoints full]"

definition reduce_to :: "pinocchio \<Rightarrow> pmodel \<Rightarrow> string \<Rightarrow> pmodel option" where
  "reduce_to lib full ee_frame =
     map_option (\<lambda>parent. let lock = off_chain full parent in if lock = [] then full else pl_reduce lib full lock)
       (pl_frame_joint lib full ee_frame)"

definition arm_chain_ok :: "pmodel \<Rightarrow> bool" where
  "arm_chain_ok m \<longleftrightarrow> pn_nv m = 7 \<and> pn_njoints m = 7 + 1 \<and>
     (\<forall>j \<in> {1..<pn_njoints m}. pn_nvs m ! j = 1 \<and> prefix ''JointModelR'' (pn_kinds m ! j))"

subsection \<open>Packing a configuration\<close>

definition dcos :: "dbl \<Rightarrow> dbl" where
  "dcos x = (case x of Fin a \<Rightarrow> Fin (cos a) | _ \<Rightarrow> NaN)"

definition dsin :: "dbl \<Rightarrow> dbl" where
  "dsin x = (case x of Fin a \<Rightarrow> Fin (sin a) | _ \<Rightarrow> NaN)"

definition pack_joint :: "pinocchio \<Rightarrow> pmodel \<Rightarrow> jointvec \<Rightarrow> dbl list \<Rightarrow> nat \<Rightarrow> dbl list" where
  "pack_joint lib m q cfg i =
     (let jid = pl_joint_id lib m (pn_names m ! (i + 1)); k = pn_idx_qs m ! jid
      in if pn_nqs m ! jid = 2 then cfg[k := dcos (vnth q i), k + 1 := dsin (vnth q i)] else cfg[k := vnth q i])"

text \<open>\<open>cfg\<close> is what the previous call left.\<close>

definition pack :: "pinocchio \<Rightarrow> pmodel \<Rightarrow> jointvec \<Rightarrow> dbl list \<Rightarrow> dbl list" where
  "pack lib m q cfg = foldl (pack_joint lib m q) cfg [0..<pn_nv m]"

subsection \<open>The methods\<close>

definition joint_lower :: "pinocchio \<Rightarrow> pmodel \<Rightarrow> jointvec" where
  "joint_lower lib m = vgen (\<lambda>i. let jid = pl_joint_id lib m (pn_names m ! (i + 1))
     in if pn_nqs m ! jid = 2 then NInf else pn_lower m ! (pn_idx_qs m ! jid))"

definition joint_upper :: "pinocchio \<Rightarrow> pmodel \<Rightarrow> jointvec" where
  "joint_upper lib m = vgen (\<lambda>i. let jid = pl_joint_id lib m (pn_names m ! (i + 1))
     in if pn_nqs m ! jid = 2 then PInf else pn_upper m ! (pn_idx_qs m ! jid))"

definition joint_speed :: "pinocchio \<Rightarrow> pmodel \<Rightarrow> jointvec" where
  "joint_speed lib m = vgen (\<lambda>i. pn_speed m ! (pn_idx_vs m ! pl_joint_id lib m (pn_names m ! (i + 1))))"

text \<open>The strictly lower triangle is filled from the upper one.\<close>

definition mirrored :: "jointmat \<Rightarrow> jointmat" where
  "mirrored M = vgen (\<lambda>i. vgen (\<lambda>j. if j < i then vnth (vnth M j) i else vnth (vnth M i) j))"

definition model_dynamics :: "pinocchio \<Rightarrow> pmodel \<Rightarrow> string \<Rightarrow> dbl list \<Rightarrow> dynamics" where
  "model_dynamics lib m ee_frame cfg =
     \<lparr>dyn_gravity = \<lambda>q. pl_gravity lib m (pack lib m q cfg),
      dyn_mass_matrix = \<lambda>q. mirrored (pl_crba lib m (pack lib m q cfg)),
      dyn_coriolis = \<lambda>q qd. pl_coriolis lib m (pack lib m q cfg) qd,
      dyn_fk = \<lambda>q. pl_pose lib m ee_frame (pack lib m q cfg),
      dyn_jacobian = \<lambda>q. pl_jacobian lib m ee_frame (pack lib m q cfg),
      dyn_q_lower = joint_lower lib m, dyn_q_upper = joint_upper lib m, dyn_v_max = joint_speed lib m\<rparr>"

definition tilt_deg :: "dbl \<times> dbl \<times> dbl \<Rightarrow> dbl" where
  "tilt_deg axis =
     (case smin (Fin 1) (abs (snd (snd axis))) of Fin a \<Rightarrow> Fin (arccos a * 180 / pi) | _ \<Rightarrow> NaN)"

definition joint_names :: "pmodel \<Rightarrow> string list" where
  "joint_names m = drop 1 (pn_names m)"

text \<open>A constructor: \<open>None\<close> where it throws; the model and the mount's tilt.\<close>

definition new_dynamics :: "pinocchio \<Rightarrow> pmodel option \<Rightarrow> string \<Rightarrow> (pmodel \<times> dynamics \<times> dbl) option" where
  "new_dynamics lib parsed ee_frame =
     do { full \<leftarrow> parsed;
          m \<leftarrow> reduce_to lib full ee_frame;
          if arm_chain_ok m
          then Some (m, model_dynamics lib m ee_frame (pl_neutral lib m), tilt_deg (pl_axis lib m (pl_neutral lib m)))
          else None }"

definition dynamics_of_path :: "pinocchio \<Rightarrow> string \<Rightarrow> string \<Rightarrow> (pmodel \<times> dynamics \<times> dbl) option" where
  "dynamics_of_path lib path ee_frame = new_dynamics lib (pl_build lib path) ee_frame"

definition dynamics_of_xml :: "pinocchio \<Rightarrow> string \<Rightarrow> string \<Rightarrow> (pmodel \<times> dynamics \<times> dbl) option" where
  "dynamics_of_xml lib xml ee_frame = new_dynamics lib (if xml = [] then None else pl_build_xml lib xml) ee_frame"

subsection \<open>What Pinocchio guarantees of a model\<close>

text \<open>
  Documented of Pinocchio: the joint of a name is found under its index; the joints' coordinates lie one
  after the other in the configuration, one for a bounded revolute joint and two for an unbounded one; the
  neutral configuration has all of them.
\<close>

definition width :: "pmodel \<Rightarrow> nat \<Rightarrow> nat" where
  "width m i = pn_nqs m ! (i + 1)"

definition pn_ok :: "pinocchio \<Rightarrow> pmodel \<Rightarrow> bool" where
  "pn_ok lib m \<longleftrightarrow>
     (\<forall>j < pn_njoints m. pl_joint_id lib m (pn_names m ! j) = j) \<and>
     (\<forall>i < pn_njoints m - 1. width m i \<in> {1, 2} \<and> pn_idx_qs m ! (i + 1) = sum_list (map (width m) [0..<i])) \<and>
     pn_nq m = sum_list (map (width m) [0..<pn_njoints m - 1]) \<and> length (pl_neutral lib m) = pn_nq m"

text \<open>The configuration as one piece after the other.\<close>

definition packed_joint :: "pmodel \<Rightarrow> jointvec \<Rightarrow> nat \<Rightarrow> dbl list" where
  "packed_joint m q i = (if width m i = 2 then [dcos (vnth q i), dsin (vnth q i)] else [vnth q i])"

definition packed :: "pmodel \<Rightarrow> jointvec \<Rightarrow> dbl list" where
  "packed m q = concat (map (packed_joint m q) [0..<7])"

lemma take_Suc_update: "k < length xs \<Longrightarrow> take (Suc k) (xs[k := a]) = take k xs @ [a]"
  by (simp add: take_Suc_conv_app_nth)

lemma pack_prefix:
  assumes "pn_ok lib m" and "arm_chain_ok m" and "length cfg = pn_nq m"
  shows "n \<le> 7 \<Longrightarrow> length (foldl (pack_joint lib m q) cfg [0..<n]) = pn_nq m \<and>
    take (sum_list (map (width m) [0..<n])) (foldl (pack_joint lib m q) cfg [0..<n]) = concat (map (packed_joint m q) [0..<n])"
proof (induction n)
  case 0
  then show ?case using assms(3) by simp
next
  case (Suc n)
  let ?r = "foldl (pack_joint lib m q) cfg [0..<n]" and ?k = "sum_list (map (width m) [0..<n])"
  have n: "n < 7" "pn_njoints m = 8" using Suc.prems assms(2) by (simp_all add: arm_chain_ok_def)
  have id: "pl_joint_id lib m (pn_names m ! (n + 1)) = n + 1" and k: "pn_idx_qs m ! (n + 1) = ?k" and w: "width m n = 1 \<or> width m n = 2"
    using assms(1) n by (auto simp: pn_ok_def)
  have "sum_list (map (width m) [0..<7]) = sum_list (map (width m) [0..<n]) + sum_list (map (width m) [n..<7])"
    using upt_add_eq_append [of 0 n "7 - n"] n(1) by (simp flip: sum_list_append map_append)
  moreover have "[n..<7] = n # [Suc n..<7]" using n(1) by (rule upt_conv_Cons)
  ultimately have fits: "?k + width m n \<le> pn_nq m" using assms(1) n by (simp add: pn_ok_def)
  have r: "length ?r = pn_nq m" "take ?k ?r = concat (map (packed_joint m q) [0..<n])" using Suc by simp_all
  have step: "foldl (pack_joint lib m q) cfg [0..<Suc n] =
      (if width m n = 2 then ?r[?k := dcos (vnth q n), Suc ?k := dsin (vnth q n)] else ?r[?k := vnth q n])"
    using id k by (simp add: pack_joint_def width_def Let_def)
  show ?case
  proof (cases "width m n = 2")
    case True
    have "take (Suc (Suc ?k)) (?r[?k := dcos (vnth q n), Suc ?k := dsin (vnth q n)]) =
        take ?k ?r @ [dcos (vnth q n)] @ [dsin (vnth q n)]"
      using fits r True by (simp add: take_Suc_update)
    moreover have "packed_joint m q n = [dcos (vnth q n), dsin (vnth q n)]" using True by (simp add: packed_joint_def)
    ultimately show ?thesis using True r step by simp
  next
    case False
    moreover have "packed_joint m q n = [vnth q n]" using False by (simp add: packed_joint_def)
    ultimately show ?thesis using w fits r step take_Suc_update [of ?k ?r "vnth q n"] by auto
  qed
qed

lemma pack_packed:
  assumes "pn_ok lib m" and "arm_chain_ok m" and "length cfg = pn_nq m"
  shows "pack lib m q cfg = packed m q"
proof -
  have "pn_nq m = sum_list (map (width m) [0..<7])" "pn_nv m = 7" using assms by (simp_all add: pn_ok_def arm_chain_ok_def)
  then show ?thesis using pack_prefix [OF assms, of 7 q]
    by (simp add: pack_def packed_def del: upt_rec_numeral) (metis order_refl take_all)
qed

lemma new_dynamicsD:
  assumes "new_dynamics lib parsed ee_frame = Some (m, dyn, tilt)"
  shows "arm_chain_ok m" "dyn = model_dynamics lib m ee_frame (pl_neutral lib m)" "tilt = tilt_deg (pl_axis lib m (pl_neutral lib m))"
  using assms by (auto simp: new_dynamics_def split: Option.bind_splits if_splits)

lemma mirrored_symmetric: "i < 7 \<Longrightarrow> j < 7 \<Longrightarrow> vnth (vnth (mirrored M) i) j = vnth (vnth (mirrored M) j) i"
  by (auto simp: mirrored_def not_less)

text \<open>
  Claim C21. The methods of \<open>Dynamics\<close> have no memory: each packs its configuration into the vector the
  previous call left, and whatever that was, the result is the one for the packed configuration -- each
  bounded joint's angle, and cosine and sine of each unbounded joint, in the order of the chain, no
  coordinate left over and none written twice. The mass matrix is symmetric though only its upper
  triangle is computed.
\<close>

theorem dynamics_has_no_memory:
  assumes "new_dynamics lib parsed ee_frame = Some (m, dyn, tilt)" and "pn_ok lib m"
  shows "(length cfg = pn_nq m \<longrightarrow> model_dynamics lib m ee_frame cfg = dyn) \<and>
    dyn_gravity dyn q = pl_gravity lib m (packed m q) \<and> dyn_fk dyn q = pl_pose lib m ee_frame (packed m q) \<and>
    dyn_jacobian dyn q = pl_jacobian lib m ee_frame (packed m q) \<and> dyn_coriolis dyn q qd = pl_coriolis lib m (packed m q) qd \<and>
    (i < 7 \<and> j < 7 \<longrightarrow> vnth (vnth (dyn_mass_matrix dyn q) i) j = vnth (vnth (dyn_mass_matrix dyn q) j) i)"
proof -
  note d = new_dynamicsD [OF assms(1)]
  have "pack lib m q cfg = packed m q" if "length cfg = pn_nq m" for q cfg using pack_packed [OF assms(2) d(1) that] .
  moreover have "length (pl_neutral lib m) = pn_nq m" using assms(2) by (simp add: pn_ok_def)
  ultimately show ?thesis unfolding d(2) by (simp add: model_dynamics_def mirrored_symmetric)
qed

text \<open>
  Claim C22. The modes find the continuous joints by their limits, and find the right ones: a joint counts as
  continuous (both limits infinite) exactly when it is packed as a cosine and a sine, provided the URDF
  gives every bounded joint a finite limit. For the others the limits are those of the coordinate the
  angle is packed into.
\<close>

theorem continuous_joints_detected:
  assumes "new_dynamics lib parsed ee_frame = Some (m, dyn, tilt)" and "pn_ok lib m"
    and "\<forall>i < 7. width m i = 1 \<longrightarrow> isfinite (pn_lower m ! (pn_idx_qs m ! (i + 1)))"
    and "i < 7"
  shows "(vnth (continuous_joints (dyn_q_lower dyn) (dyn_q_upper dyn)) i \<longleftrightarrow> packed_joint m q i = [dcos (vnth q i), dsin (vnth q i)]) \<and>
    (packed_joint m q i = [vnth q i] \<longrightarrow> vnth (dyn_q_lower dyn) i = pn_lower m ! (pn_idx_qs m ! (i + 1)) \<and>
       vnth (dyn_q_upper dyn) i = pn_upper m ! (pn_idx_qs m ! (i + 1)))"
proof -
  note d = new_dynamicsD [OF assms(1)]
  have "pl_joint_id lib m (pn_names m ! (i + 1)) = i + 1" "width m i = 1 \<or> width m i = 2"
    using assms(2,4) d(1) by (auto simp: pn_ok_def arm_chain_ok_def)
  then show ?thesis using assms(3,4)
    by (auto simp: d(2) model_dynamics_def continuous_joints_def joint_lower_def joint_upper_def packed_joint_def width_def Let_def)
qed

text \<open>The tilt of the mount is between 0 and 90 degrees; an axis that is not a number reads level.\<close>

lemma tilt_range: "\<exists>t. tilt_deg axis = Fin t \<and> 0 \<le> t \<and> t \<le> 90"
proof -
  have "\<exists>a. smin (Fin 1) (abs (snd (snd axis))) = Fin a \<and> 0 \<le> a \<and> a \<le> 1"
    by (cases "snd (snd axis)") (auto simp: smin_def)
  then obtain a where a: "smin (Fin 1) (abs (snd (snd axis))) = Fin a" "0 \<le> a" "a \<le> 1" by blast
  have "0 \<le> arccos a" "arccos a \<le> pi / 2" using a arccos_lbound [of a] arccos_le_pi2 [of a] by simp_all
  then have "0 \<le> arccos a * 180 / pi" "arccos a * 180 / pi \<le> 90" by (simp_all add: pos_divide_le_eq)
  then show ?thesis using a by (simp add: tilt_deg_def)
qed

lemma tilt_of_NaN: "tilt_deg (x, y, NaN) = Fin 0"
  by (simp add: tilt_deg_def smin_def)

subsection \<open>An arm\<close>

text \<open>The Gen3: every other joint unbounded.\<close>

definition demo_pmodel :: pmodel where
  "demo_pmodel = \<lparr>pn_nv = 7, pn_nq = 11, pn_njoints = 8,
     pn_names = [''universe'', ''joint_1'', ''joint_2'', ''joint_3'', ''joint_4'', ''joint_5'', ''joint_6'', ''joint_7''],
     pn_kinds = [[], ''JointModelRUBZ'', ''JointModelRZ'', ''JointModelRUBZ'', ''JointModelRZ'', ''JointModelRUBZ'', ''JointModelRZ'', ''JointModelRUBZ''],
     pn_nqs = [0, 2, 1, 2, 1, 2, 1, 2], pn_nvs = [0, 1, 1, 1, 1, 1, 1, 1], pn_idx_qs = [0, 0, 2, 3, 5, 6, 8, 9],
     pn_idx_vs = [0, 0, 1, 2, 3, 4, 5, 6], pn_supports = map (\<lambda>j. [0..<j + 1]) [0..<8], pn_lower = replicate 11 (Fin (- 2)),
     pn_upper = replicate 11 (Fin 2), pn_speed = replicate 7 (Fin 1)\<rparr>"

definition demo_pinocchio :: pinocchio where
  "demo_pinocchio = \<lparr>pl_build = \<lambda>_. Some demo_pmodel, pl_build_xml = \<lambda>_. Some demo_pmodel,
     pl_frame_joint = \<lambda>_ f. if f = ''tool'' then Some 7 else None, pl_reduce = \<lambda>m _. m,
     pl_joint_id = \<lambda>m s. length (takeWhile (\<lambda>n. n \<noteq> s) (pn_names m)), pl_neutral = \<lambda>m. replicate (pn_nq m) (Fin 0),
     pl_gravity = \<lambda>_ cfg. vconst (hd cfg), pl_pose = \<lambda>_ _ _. pose0, pl_crba = \<lambda>_ _. vconst vzero, pl_coriolis = \<lambda>_ _ _. vconst vzero,
     pl_jacobian = \<lambda>_ _ _. vconst6 vzero, pl_axis = \<lambda>_ _. (Fin 0, Fin 0, Fin (- 1))\<rparr>"

lemma demo_pmodel_ok: "pn_ok demo_pinocchio demo_pmodel"
  by code_simp

lemma demo_chain_ok: "arm_chain_ok demo_pmodel"
  by code_simp

definition demo_arm_dynamics :: dynamics where
  "demo_arm_dynamics = model_dynamics demo_pinocchio demo_pmodel ''tool'' (pl_neutral demo_pinocchio demo_pmodel)"

lemma demo_new_dynamics:
  "new_dynamics demo_pinocchio (Some demo_pmodel) ''tool'' = Some (demo_pmodel, demo_arm_dynamics, tilt_deg (Fin 0, Fin 0, Fin (- 1)))"
  using demo_chain_ok by (simp add: new_dynamics_def reduce_to_def Let_def demo_arm_dynamics_def demo_pinocchio_def)

theorem dynamics_has_no_memory_witness:
  "model_dynamics demo_pinocchio demo_pmodel ''tool'' (replicate 11 NaN) = demo_arm_dynamics \<and>
   dyn_gravity demo_arm_dynamics (vconst (Fin 0)) = vconst (Fin 1)"
proof -
  note d = dynamics_has_no_memory [OF demo_new_dynamics demo_pmodel_ok]
  have "dyn_gravity demo_arm_dynamics (vconst (Fin 0)) = pl_gravity demo_pinocchio demo_pmodel (packed demo_pmodel (vconst (Fin 0)))" using d by blast
  also have "\<dots> = vconst (hd (packed demo_pmodel (vconst (Fin 0))))" by (simp add: demo_pinocchio_def)
  also have "hd (packed demo_pmodel (vconst (Fin 0))) = Fin 1"
    by (simp add: packed_def upt_conv_Cons packed_joint_def width_def demo_pmodel_def dcos_def)
  finally show ?thesis using d [of "replicate 11 NaN"] by (simp add: demo_pmodel_def)
qed

theorem continuous_joints_detected_witness:
  "vnth (continuous_joints (dyn_q_lower demo_arm_dynamics) (dyn_q_upper demo_arm_dynamics)) 0 \<and>
   \<not> vnth (continuous_joints (dyn_q_lower demo_arm_dynamics) (dyn_q_upper demo_arm_dynamics)) 1 \<and> vnth (dyn_q_upper demo_arm_dynamics) 1 = Fin 2"
proof -
  have f: "\<forall>i < 7. width demo_pmodel i = 1 \<longrightarrow> isfinite (pn_lower demo_pmodel ! (pn_idx_qs demo_pmodel ! (i + 1)))"
    by (auto simp: less_Suc_eq eval_nat_numeral width_def demo_pmodel_def)
  note c = continuous_joints_detected [OF demo_new_dynamics demo_pmodel_ok f]
  show ?thesis using c [of 0 vzero] c [of 1 vzero] by (simp add: packed_joint_def width_def demo_pmodel_def)
qed

end
