(* ===== verification/Trajectory.thy ===== *)
theory Trajectory
  imports Joint_Types
begin

section \<open>The trajectory executor\<close>

text \<open>
  \<open>interface/trajectory_executor.h\<close> and \<open>.cpp\<close>: the interpolation of a planned trajectory
  (linear, cubic Hermite, quintic Hermite), the timestamp check, the global speed scale and its
  slew, and \<open>TrajectoryExecutor\<close> with \<open>submit\<close> and \<open>tick\<close>. A sampled reference is an option:
  \<open>None\<close> is the read past the last waypoint that \<open>std::upper_bound\<close> would lead to.
\<close>

subsection \<open>Trajectories and interpolation\<close>

record joint_waypoint =
  wp_q :: jointvec
  wp_t_s :: dbl
  wp_qd :: jointvec
  wp_qdd :: jointvec

record trajectory =
  tr_points :: "joint_waypoint list"
  tr_has_velocities :: bool
  tr_has_accelerations :: bool

definition duration_s :: "trajectory \<Rightarrow> dbl" where
  "duration_s tr = (if tr_points tr = [] then Fin 0 else wp_t_s (last (tr_points tr)))"

text \<open>\<open>std::upper_bound\<close> on the stamps: the first waypoint whose stamp exceeds \<open>t\<close>.\<close>

definition upper_bound :: "joint_waypoint list \<Rightarrow> dbl \<Rightarrow> nat" where
  "upper_bound p t = length (takeWhile (\<lambda>w. \<not> t < wp_t_s w) p)"

text \<open>The three interpolation forms on one joint, over the unit segment.\<close>

definition lerp_q :: "dbl \<Rightarrow> dbl \<Rightarrow> dbl \<Rightarrow> dbl" where
  "lerp_q u aq bq = aq + u * (bq - aq)"

definition cubic_q :: "dbl \<Rightarrow> dbl \<Rightarrow> dbl \<Rightarrow> dbl \<Rightarrow> dbl \<Rightarrow> dbl" where
  "cubic_q u aq v0 bq v1 =
     (let u2 = u * u; u3 = u2 * u;
          h00 = Fin 2 * u3 - Fin 3 * u2 + Fin 1; h10 = u3 - Fin 2 * u2 + u;
          h01 = Fin (- 2) * u3 + Fin 3 * u2; h11 = u3 - u2
      in h00 * aq + h10 * v0 + h01 * bq + h11 * v1)"

definition cubic_qd :: "dbl \<Rightarrow> dbl \<Rightarrow> dbl \<Rightarrow> dbl \<Rightarrow> dbl \<Rightarrow> dbl \<Rightarrow> dbl" where
  "cubic_qd u sp aq v0 bq v1 =
     (let u2 = u * u;
          d00 = Fin 6 * u2 - Fin 6 * u; d10 = Fin 3 * u2 - Fin 4 * u + Fin 1;
          d01 = Fin (- 6) * u2 + Fin 6 * u; d11 = Fin 3 * u2 - Fin 2 * u
      in (d00 * aq + d10 * v0 + d01 * bq + d11 * v1) / sp)"

definition quintic_c3 :: "dbl \<Rightarrow> dbl \<Rightarrow> dbl \<Rightarrow> dbl \<Rightarrow> dbl \<Rightarrow> dbl" where
  "quintic_c3 d v0 v1 a0 a1 = Fin 10 * d - Fin 6 * v0 - Fin 4 * v1 - Fin (3/2) * a0 + Fin (1/2) * a1"

definition quintic_c4 :: "dbl \<Rightarrow> dbl \<Rightarrow> dbl \<Rightarrow> dbl \<Rightarrow> dbl \<Rightarrow> dbl" where
  "quintic_c4 d v0 v1 a0 a1 = Fin (- 15) * d + Fin 8 * v0 + Fin 7 * v1 + Fin (3/2) * a0 - Fin 1 * a1"

definition quintic_c5 :: "dbl \<Rightarrow> dbl \<Rightarrow> dbl \<Rightarrow> dbl \<Rightarrow> dbl \<Rightarrow> dbl" where
  "quintic_c5 d v0 v1 a0 a1 = Fin 6 * d - Fin 3 * v0 - Fin 3 * v1 - Fin (1/2) * a0 + Fin (1/2) * a1"

definition quintic_q :: "dbl \<Rightarrow> dbl \<Rightarrow> dbl \<Rightarrow> dbl \<Rightarrow> dbl \<Rightarrow> dbl \<Rightarrow> dbl \<Rightarrow> dbl" where
  "quintic_q u aq v0 a0 bq v1 a1 =
     (let u2 = u * u; u3 = u2 * u; u4 = u3 * u; u5 = u4 * u; d = bq - aq;
          c3 = quintic_c3 d v0 v1 a0 a1; c4 = quintic_c4 d v0 v1 a0 a1; c5 = quintic_c5 d v0 v1 a0 a1
      in aq + v0 * u + Fin (1/2) * a0 * u2 + c3 * u3 + c4 * u4 + c5 * u5)"

definition quintic_qd :: "dbl \<Rightarrow> dbl \<Rightarrow> dbl \<Rightarrow> dbl \<Rightarrow> dbl \<Rightarrow> dbl \<Rightarrow> dbl \<Rightarrow> dbl \<Rightarrow> dbl" where
  "quintic_qd u sp aq v0 a0 bq v1 a1 =
     (let u2 = u * u; u3 = u2 * u; u4 = u3 * u; d = bq - aq;
          c3 = quintic_c3 d v0 v1 a0 a1; c4 = quintic_c4 d v0 v1 a0 a1; c5 = quintic_c5 d v0 v1 a0 a1
      in (v0 + a0 * u + Fin 3 * c3 * u2 + Fin 4 * c4 * u3 + Fin 5 * c5 * u4) / sp)"

definition quintic_qdd :: "dbl \<Rightarrow> dbl \<Rightarrow> dbl \<Rightarrow> dbl \<Rightarrow> dbl \<Rightarrow> dbl \<Rightarrow> dbl \<Rightarrow> dbl \<Rightarrow> dbl" where
  "quintic_qdd u sp aq v0 a0 bq v1 a1 =
     (let u2 = u * u; u3 = u2 * u; d = bq - aq;
          c3 = quintic_c3 d v0 v1 a0 a1; c4 = quintic_c4 d v0 v1 a0 a1; c5 = quintic_c5 d v0 v1 a0 a1
      in (a0 + Fin 6 * c3 * u + Fin 12 * c4 * u2 + Fin 20 * c5 * u3) / (sp * sp))"

definition interpolate :: "bool \<Rightarrow> bool \<Rightarrow> joint_waypoint \<Rightarrow> joint_waypoint \<Rightarrow> dbl \<Rightarrow> joint_target \<Rightarrow> joint_target" where
  "interpolate has_vel has_acc a b t_s out =
     (let sp = wp_t_s b - wp_t_s a in
      if sp \<le> Fin 0 then out\<lparr>jt_q := wp_q a\<rparr>
      else (let u = (t_s - wp_t_s a) / sp;
                aq = vnth (wp_q a); bq = vnth (wp_q b);
                v0 = (\<lambda>i. vnth (wp_qd a) i * sp); v1 = (\<lambda>i. vnth (wp_qd b) i * sp);
                a0 = (\<lambda>i. vnth (wp_qdd a) i * sp * sp); a1 = (\<lambda>i. vnth (wp_qdd b) i * sp * sp)
            in if \<not> has_vel then out\<lparr>jt_q := vgen (\<lambda>i. lerp_q u (aq i) (bq i))\<rparr>
               else if \<not> has_acc then
                 out\<lparr>jt_q := vgen (\<lambda>i. cubic_q u (aq i) (v0 i) (bq i) (v1 i)),
                     jt_qd := vgen (\<lambda>i. cubic_qd u sp (aq i) (v0 i) (bq i) (v1 i))\<rparr>
               else
                 out\<lparr>jt_q := vgen (\<lambda>i. quintic_q u (aq i) (v0 i) (a0 i) (bq i) (v1 i) (a1 i)),
                     jt_qd := vgen (\<lambda>i. quintic_qd u sp (aq i) (v0 i) (a0 i) (bq i) (v1 i) (a1 i)),
                     jt_qdd := vgen (\<lambda>i. quintic_qdd u sp (aq i) (v0 i) (a0 i) (bq i) (v1 i) (a1 i))\<rparr>))"

definition sample_target :: "trajectory \<Rightarrow> dbl \<Rightarrow> joint_target option" where
  "sample_target tr t_s =
     (let p = tr_points tr;
          out = (if tr_has_velocities tr
                 then joint_target0\<lparr>jt_has_velocity := True,
                                    jt_has_acceleration := tr_has_accelerations tr\<rparr>
                 else joint_target0)
      in if p = [] then Some out
         else if t_s \<le> wp_t_s (hd p) then Some (out\<lparr>jt_q := wp_q (hd p)\<rparr>)
         else if wp_t_s (last p) \<le> t_s then Some (out\<lparr>jt_q := wp_q (last p)\<rparr>)
         else (let hi = upper_bound p t_s in
               if hi < length p then
                 Some (interpolate (tr_has_velocities tr) (tr_has_accelerations tr)
                         (p ! (hi - 1)) (p ! hi) t_s out)
               else None))"

definition sample :: "trajectory \<Rightarrow> dbl \<Rightarrow> jointvec option" where
  "sample tr t_s = map_option jt_q (sample_target tr t_s)"

subsection \<open>Timestamps, speed scale and slew\<close>

definition kMinSegmentSpanSec :: dbl where
  "kMinSegmentSpanSec = Fin (10 / 1000000000)"

fun valid_stamps_from :: "joint_waypoint \<Rightarrow> joint_waypoint list \<Rightarrow> bool" where
  "valid_stamps_from _ [] = True"
| "valid_stamps_from prev (w # ws) =
     (isfinite (wp_t_s w) \<and> kMinSegmentSpanSec \<le> wp_t_s w - wp_t_s prev \<and> valid_stamps_from w ws)"

definition valid_timestamps :: "trajectory \<Rightarrow> bool" where
  "valid_timestamps tr = (case tr_points tr of [] \<Rightarrow> True
     | w # ws \<Rightarrow> isfinite (wp_t_s w) \<and> valid_stamps_from w ws)"

definition kMinSpeedScale :: dbl where
  "kMinSpeedScale = Fin (1 / 100)"

definition kScaleSlewPerSec :: dbl where
  "kScaleSlewPerSec = Fin 2"

definition slew_scale :: "dbl \<Rightarrow> dbl \<Rightarrow> dbl \<Rightarrow> dbl" where
  "slew_scale cur target dt =
     (let max_step = kScaleSlewPerSec * (if Fin 0 < dt then dt else Fin 0)
      in if cur + max_step < target then cur + max_step
         else if target < cur - max_step then cur - max_step
         else target)"

definition effective_scale :: "dbl \<Rightarrow> dbl \<Rightarrow> dbl" where
  "effective_scale goal_scale override_scale =
     (let g = (if isfinite goal_scale then goal_scale else Fin 1);
          ov = (if isfinite override_scale then override_scale else Fin 1);
          s = (if g < ov then g else ov);
          s1 = (if Fin 1 < s then Fin 1 else s)
      in if s1 < kMinSpeedScale then kMinSpeedScale else s1)"

lemma effective_scale_clamped:
  "kMinSpeedScale \<le> effective_scale g ov \<and> effective_scale g ov \<le> Fin 1"
  by (cases g; cases ov) (auto simp: effective_scale_def Let_def kMinSpeedScale_def)

lemma effective_scale_bounds:
  "\<exists>s. effective_scale g ov = Fin s \<and> 1 / 100 \<le> s \<and> s \<le> 1"
proof -
  have "isfinite (effective_scale g ov)"
    using effective_scale_clamped [of g ov] dbl_between_finite
    unfolding kMinSpeedScale_def by blast
  then show ?thesis
    using effective_scale_clamped [of g ov] by (auto simp: kMinSpeedScale_def isfinite_iff)
qed

lemma effective_scale_in_range:
  assumes "1 / 100 \<le> g" and "g \<le> 1" and "1 / 100 \<le> ov" and "ov \<le> 1"
  shows "effective_scale (Fin g) (Fin ov) = Fin (min g ov)"
  using assms by (auto simp: effective_scale_def Let_def kMinSpeedScale_def min_def)

lemma slew_scale_cases:
  assumes "0 \<le> dt"
  shows "slew_scale (Fin c) (Fin t) (Fin dt) =
           Fin (if c + 2 * dt < t then c + 2 * dt else if t < c - 2 * dt then c - 2 * dt else t)"
  using assms by (cases "dt = 0") (auto simp: slew_scale_def Let_def kScaleSlewPerSec_def)

lemma slew_scale_hold: "\<not> Fin 0 < dt \<Longrightarrow> slew_scale (Fin c) (Fin t) dt = Fin c \<or> slew_scale (Fin c) (Fin t) dt = Fin t \<and> t = c"
  by (auto simp: slew_scale_def Let_def kScaleSlewPerSec_def)

lemma valid_stamps_from_sorted:
  assumes "valid_stamps_from prev ws" and "isfinite (wp_t_s prev)" and "w \<in> set ws"
  shows "isfinite (wp_t_s w) \<and> wp_t_s prev < wp_t_s w"
  using assms
proof (induction prev ws rule: valid_stamps_from.induct)
  case (1 prev)
  then show ?case by simp
next
  case (2 prev v vs)
  obtain x y where xy: "wp_t_s prev = Fin x" "wp_t_s v = Fin y" and lt: "x < y"
    using 2 by (auto simp: isfinite_iff kMinSegmentSpanSec_def)
  show ?case
  proof (cases "w = v")
    case True
    with xy lt show ?thesis by simp
  next
    case False
    then have "isfinite (wp_t_s w) \<and> wp_t_s v < wp_t_s w" using 2 by auto
    with xy lt show ?thesis by (auto simp: isfinite_iff)
  qed
qed

lemma valid_stamps_from_nth:
  assumes "valid_stamps_from prev ws" and "isfinite (wp_t_s prev)" and "i < length ws"
  shows "wp_t_s ((prev # ws) ! i) < wp_t_s (ws ! i)"
  using assms
proof (induction prev ws arbitrary: i rule: valid_stamps_from.induct)
  case (1 prev)
  then show ?case by simp
next
  case (2 prev v vs)
  show ?case
  proof (cases i)
    case 0
    then show ?thesis using valid_stamps_from_sorted [of prev "v # vs" v] 2 by auto
  next
    case (Suc j)
    then show ?thesis using 2 by auto
  qed
qed

lemma valid_timestamps_finite:
  assumes "valid_timestamps tr" and "w \<in> set (tr_points tr)"
  shows "isfinite (wp_t_s w)"
proof (cases "tr_points tr")
  case (Cons v vs)
  then show ?thesis
    using assms valid_stamps_from_sorted [of v vs w] by (auto simp: valid_timestamps_def)
qed (use assms in simp)

lemma valid_timestamps_increasing:
  assumes "valid_timestamps tr" and "Suc i < length (tr_points tr)"
  shows "wp_t_s (tr_points tr ! i) < wp_t_s (tr_points tr ! Suc i)"
proof (cases "tr_points tr")
  case (Cons v vs)
  then show ?thesis
    using assms valid_stamps_from_nth [of v vs i] by (auto simp: valid_timestamps_def)
qed (use assms in simp)

subsection \<open>The segment search\<close>

lemma upper_bound_le: "upper_bound p t \<le> length p"
  by (simp add: upper_bound_def length_takeWhile_le)

lemma upper_bound_exceeds: "upper_bound p t < length p \<Longrightarrow> t < wp_t_s (p ! upper_bound p t)"
  unfolding upper_bound_def using nth_length_takeWhile by blast

lemma upper_bound_before: "i < upper_bound p t \<Longrightarrow> \<not> t < wp_t_s (p ! i)"
  unfolding upper_bound_def by (metis nth_mem set_takeWhileD takeWhile_nth)

lemma upper_bound_less:
  assumes "p \<noteq> []" and "t < wp_t_s (last p)"
  shows "upper_bound p t < length p"
proof (rule ccontr)
  assume "\<not> upper_bound p t < length p"
  then have "length p - 1 < upper_bound p t" using assms(1) upper_bound_le [of p t] by (cases p) auto
  then have "\<not> t < wp_t_s (p ! (length p - 1))" by (rule upper_bound_before)
  then show False using assms by (simp add: last_conv_nth)
qed

lemma upper_bound_pos:
  assumes "p \<noteq> []" and "\<not> t < wp_t_s (hd p)"
  shows "0 < upper_bound p t"
  using assms by (cases p) (auto simp: upper_bound_def)

text \<open>Only a NaN query can run off the end.\<close>

lemma sample_target_returns:
  assumes "t \<noteq> NaN" and "\<forall>w \<in> set (tr_points tr). wp_t_s w \<noteq> NaN"
  shows "\<exists>ref. sample_target tr t = Some ref"
proof -
  have "upper_bound (tr_points tr) t < length (tr_points tr)"
    if "tr_points tr \<noteq> []" "\<not> wp_t_s (last (tr_points tr)) \<le> t"
  proof (rule upper_bound_less [OF that(1)])
    have "wp_t_s (last (tr_points tr)) \<noteq> NaN" using assms(2) that(1) by simp
    with assms(1) that(2) show "t < wp_t_s (last (tr_points tr))"
      using dbl_not_less_le by blast
  qed
  then show ?thesis by (auto simp: sample_target_def Let_def)
qed

subsection \<open>The executor\<close>

datatype preemption = KQueue | KLatestWins

datatype control_mode_kind = KPosition | KImpedance | KVelocity | KTorque

datatype submit_result = SrAccepted | SrRejectedModeChangeWhileMoving | SrRejectedEmpty
  | SrRejectedSpeedScale | SrRejectedQueueWhileActive | SrRejectedBadTimestamps

definition kExecOk :: int where
  "kExecOk = 0"

definition kPathToleranceViolated :: int where
  "kPathToleranceViolated = - 4"

record exec_status =
  es_active :: bool
  es_completed :: bool
  es_fraction :: dbl
  es_error_code :: int

record exec_active =
  ea_tr :: trajectory
  ea_traj_t :: dbl
  ea_last_now_s :: dbl
  ea_started :: bool

record traj_exec =
  te_continuous :: "bool vec7"
  te_mode :: control_mode_kind
  te_active :: "exec_active option"
  te_path_tol :: jointvec
  te_scale :: dbl
  te_applied :: dbl

definition traj_exec_init :: "bool vec7 \<Rightarrow> traj_exec" where
  "traj_exec_init contin = \<lparr>te_continuous = contin, te_mode = KPosition, te_active = None,
     te_path_tol = vzero, te_scale = Fin 1, te_applied = Fin 1\<rparr>"

definition is_active :: "traj_exec \<Rightarrow> bool" where
  "is_active e = (te_active e \<noteq> None)"

text \<open>The state every accepted goal starts from, whether it was adopted or preempted.\<close>

definition exec_start :: "trajectory \<Rightarrow> jointvec \<Rightarrow> dbl \<Rightarrow> traj_exec \<Rightarrow> traj_exec" where
  "exec_start tr path_tol speed_scale e =
     e\<lparr>te_active := Some \<lparr>ea_tr = tr, ea_traj_t = Fin 0, ea_last_now_s = Fin 0, ea_started = False\<rparr>,
       te_path_tol := path_tol, te_scale := speed_scale\<rparr>"

definition submit :: "traj_exec \<Rightarrow> trajectory \<Rightarrow> control_mode_kind \<Rightarrow> preemption \<Rightarrow> jointvec \<Rightarrow> dbl \<Rightarrow> submit_result \<times> traj_exec" where
  "submit e tr mode p path_tol speed_scale =
     (if tr_points tr = [] then (SrRejectedEmpty, e)
      else if \<not> valid_timestamps tr then (SrRejectedBadTimestamps, e)
      else if \<not> (kMinSpeedScale \<le> speed_scale \<and> speed_scale \<le> Fin 1) then (SrRejectedSpeedScale, e)
      else if is_active e \<and> mode \<noteq> te_mode e then (SrRejectedModeChangeWhileMoving, e)
      else if \<not> is_active e then (SrAccepted, exec_start tr path_tol speed_scale (e\<lparr>te_mode := mode\<rparr>))
      else if p = KQueue then (SrRejectedQueueWhileActive, e)
      else (SrAccepted, exec_start tr path_tol speed_scale e))"

text \<open>
  The divergence guard, joint by joint with the early return: \<open>Some True\<close> when a joint is out of
  its tolerance, \<open>None\<close> when folding a difference does not return.
\<close>

fun path_diverged :: "bool vec7 \<Rightarrow> jointvec \<Rightarrow> jointvec \<Rightarrow> jointvec \<Rightarrow> nat list \<Rightarrow> bool option" where
  "path_diverged contin tol q_meas q_desired [] = Some False"
| "path_diverged contin tol q_meas q_desired (i # is) =
     do { err \<leftarrow> wrap_if (vnth contin i) (vnth q_meas i - vnth q_desired i);
          if Fin 0 < vnth tol i \<and> vnth tol i < abs err then Some True
          else path_diverged contin tol q_meas q_desired is }"

text \<open>The reference in wall time: the profile's derivatives scaled by the applied scale.\<close>

definition scale_profile :: "dbl \<Rightarrow> joint_target \<Rightarrow> joint_target" where
  "scale_profile s r = r\<lparr>jt_qd := vscale s (jt_qd r), jt_qdd := vscale (s * s) (jt_qdd r)\<rparr>"

definition start_clock :: "dbl \<Rightarrow> exec_active \<Rightarrow> exec_active" where
  "start_clock now a =
     (if ea_started a then a else a\<lparr>ea_last_now_s := now, ea_traj_t := Fin 0, ea_started := True\<rparr>)"

definition advance_clock :: "dbl \<Rightarrow> dbl \<Rightarrow> exec_active \<Rightarrow> exec_active" where
  "advance_clock now applied a =
     (let dt_wall = now - ea_last_now_s a;
          a1 = a\<lparr>ea_last_now_s := now\<rparr>
      in if Fin 0 < dt_wall then a1\<lparr>ea_traj_t := ea_traj_t a1 + dt_wall * applied\<rparr> else a1)"

text \<open>
  \<open>tick\<close>: the status, the target handed to the sink (none on an idle executor) and the state.
\<close>

definition tick :: "traj_exec \<Rightarrow> dbl \<Rightarrow> jointvec \<Rightarrow> dbl \<Rightarrow> (exec_status \<times> joint_target option \<times> traj_exec) option" where
  "tick e now_s q_meas override_scale =
     (case te_active e of
        None \<Rightarrow> Some (\<lparr>es_active = False, es_completed = False, es_fraction = Fin 0, es_error_code = kExecOk\<rparr>, None, e)
      | Some a0 \<Rightarrow>
        (let applied = effective_scale (te_scale e) override_scale;
             a = advance_clock now_s applied (start_clock now_s a0);
             elapsed = ea_traj_t a;
             dur = duration_s (ea_tr a);
             e1 = e\<lparr>te_active := Some a, te_applied := applied\<rparr>
         in do {
           raw \<leftarrow> sample_target (ea_tr a) elapsed;
           let ref = scale_profile applied raw;
           let frac = (if Fin 0 < dur then smin (Fin 1) (smax (Fin 0) (elapsed / dur)) else Fin 1);
           diverged \<leftarrow> path_diverged (te_continuous e) (te_path_tol e) q_meas (jt_q ref) [0..<kNumJoints];
           if diverged then
             Some (\<lparr>es_active = False, es_completed = True, es_fraction = frac,
                    es_error_code = kPathToleranceViolated\<rparr>, Some ref, e1\<lparr>te_active := None\<rparr>)
           else if dur \<le> elapsed then
             Some (\<lparr>es_active = False, es_completed = True, es_fraction = Fin 1,
                    es_error_code = kExecOk\<rparr>, Some ref, e1\<lparr>te_active := None\<rparr>)
           else
             Some (\<lparr>es_active = True, es_completed = False, es_fraction = frac,
                    es_error_code = kExecOk\<rparr>, Some ref, e1) }))"

subsection \<open>Interpolation: end points and derivatives\<close>

definition cubic_r :: "real \<Rightarrow> real \<Rightarrow> real \<Rightarrow> real \<Rightarrow> real \<Rightarrow> real" where
  "cubic_r aq v0 bq v1 u = (2 * (u * u * u) - 3 * (u * u) + 1) * aq + (u * u * u - 2 * (u * u) + u) * v0
     + (- 2 * (u * u * u) + 3 * (u * u)) * bq + (u * u * u - u * u) * v1"

definition cubic_r' :: "real \<Rightarrow> real \<Rightarrow> real \<Rightarrow> real \<Rightarrow> real \<Rightarrow> real" where
  "cubic_r' aq v0 bq v1 u = (6 * (u * u) - 6 * u) * aq + (3 * (u * u) - 4 * u + 1) * v0
     + (- 6 * (u * u) + 6 * u) * bq + (3 * (u * u) - 2 * u) * v1"

definition quintic_r :: "real \<Rightarrow> real \<Rightarrow> real \<Rightarrow> real \<Rightarrow> real \<Rightarrow> real \<Rightarrow> real \<Rightarrow> real" where
  "quintic_r aq v0 a0 bq v1 a1 u = aq + v0 * u + (1/2) * a0 * (u * u)
     + (10 * (bq - aq) - 6 * v0 - 4 * v1 - (3/2) * a0 + (1/2) * a1) * (u * u * u)
     + (- 15 * (bq - aq) + 8 * v0 + 7 * v1 + (3/2) * a0 - a1) * (u * u * u * u)
     + (6 * (bq - aq) - 3 * v0 - 3 * v1 - (1/2) * a0 + (1/2) * a1) * (u * u * u * u * u)"

definition quintic_r' :: "real \<Rightarrow> real \<Rightarrow> real \<Rightarrow> real \<Rightarrow> real \<Rightarrow> real \<Rightarrow> real \<Rightarrow> real" where
  "quintic_r' aq v0 a0 bq v1 a1 u = v0 + a0 * u
     + 3 * (10 * (bq - aq) - 6 * v0 - 4 * v1 - (3/2) * a0 + (1/2) * a1) * (u * u)
     + 4 * (- 15 * (bq - aq) + 8 * v0 + 7 * v1 + (3/2) * a0 - a1) * (u * u * u)
     + 5 * (6 * (bq - aq) - 3 * v0 - 3 * v1 - (1/2) * a0 + (1/2) * a1) * (u * u * u * u)"

definition quintic_r'' :: "real \<Rightarrow> real \<Rightarrow> real \<Rightarrow> real \<Rightarrow> real \<Rightarrow> real \<Rightarrow> real \<Rightarrow> real" where
  "quintic_r'' aq v0 a0 bq v1 a1 u = a0
     + 6 * (10 * (bq - aq) - 6 * v0 - 4 * v1 - (3/2) * a0 + (1/2) * a1) * u
     + 12 * (- 15 * (bq - aq) + 8 * v0 + 7 * v1 + (3/2) * a0 - a1) * (u * u)
     + 20 * (6 * (bq - aq) - 3 * v0 - 3 * v1 - (1/2) * a0 + (1/2) * a1) * (u * u * u)"

lemma cubic_Fin:
  "cubic_q (Fin u) (Fin aq) (Fin v0) (Fin bq) (Fin v1) = Fin (cubic_r aq v0 bq v1 u)"
  "s \<noteq> 0 \<Longrightarrow> cubic_qd (Fin u) (Fin s) (Fin aq) (Fin v0) (Fin bq) (Fin v1) = Fin (cubic_r' aq v0 bq v1 u / s)"
  by (simp_all add: cubic_q_def cubic_qd_def Let_def cubic_r_def cubic_r'_def)

lemma quintic_Fin:
  "quintic_q (Fin u) (Fin aq) (Fin v0) (Fin a0) (Fin bq) (Fin v1) (Fin a1) = Fin (quintic_r aq v0 a0 bq v1 a1 u)"
  "s \<noteq> 0 \<Longrightarrow> quintic_qd (Fin u) (Fin s) (Fin aq) (Fin v0) (Fin a0) (Fin bq) (Fin v1) (Fin a1)
     = Fin (quintic_r' aq v0 a0 bq v1 a1 u / s)"
  "s \<noteq> 0 \<Longrightarrow> quintic_qdd (Fin u) (Fin s) (Fin aq) (Fin v0) (Fin a0) (Fin bq) (Fin v1) (Fin a1)
     = Fin (quintic_r'' aq v0 a0 bq v1 a1 u / (s * s))"
  by (simp_all add: quintic_q_def quintic_qd_def quintic_qdd_def quintic_c3_def quintic_c4_def
        quintic_c5_def Let_def quintic_r_def quintic_r'_def quintic_r''_def)

lemma cubic_deriv: "(cubic_r aq v0 bq v1 has_real_derivative cubic_r' aq v0 bq v1 u) (at u)"
  unfolding cubic_r_def [abs_def] cubic_r'_def
  by (auto intro!: derivative_eq_intros simp: algebra_simps)

lemma quintic_deriv:
  "(quintic_r aq v0 a0 bq v1 a1 has_real_derivative quintic_r' aq v0 a0 bq v1 a1 u) (at u)"
  unfolding quintic_r_def [abs_def] quintic_r'_def
  by (auto intro!: derivative_eq_intros simp: algebra_simps)

lemma quintic_deriv2:
  "(quintic_r' aq v0 a0 bq v1 a1 has_real_derivative quintic_r'' aq v0 a0 bq v1 a1 u) (at u)"
  unfolding quintic_r'_def [abs_def] quintic_r''_def
  by (auto intro!: derivative_eq_intros simp: algebra_simps)

text \<open>Reparametrising by the segment clock divides the derivative by the span.\<close>

lemma deriv_segment:
  assumes "\<And>u. (f has_real_derivative f' u) (at u)" and "s \<noteq> 0"
  shows "((\<lambda>t. f ((t - ta) / s)) has_real_derivative f' ((t - ta) / s) / s) (at t)"
proof -
  have "((\<lambda>t. (t - ta) / s) has_real_derivative 1 / s) (at t)"
    using assms(2) by (auto intro!: derivative_eq_intros)
  from DERIV_chain2 [OF assms(1) this] show ?thesis by simp
qed

definition finite_waypoint :: "joint_waypoint \<Rightarrow> bool" where
  "finite_waypoint w = (isfinite (wp_t_s w) \<and> vfinite (wp_q w) \<and> vfinite (wp_qd w) \<and> vfinite (wp_qdd w))"

lemma finite_waypointE:
  assumes "finite_waypoint w" and "i < 7"
  obtains t q qd qdd where "wp_t_s w = Fin t" "vnth (wp_q w) i = Fin q" "vnth (wp_qd w) i = Fin qd"
    "vnth (wp_qdd w) i = Fin qdd"
  using assms unfolding finite_waypoint_def by (metis isfinite_iff vfiniteD)

lemma interpolate_ends:
  assumes "finite_waypoint a" and "finite_waypoint b" and "wp_t_s a < wp_t_s b"
  shows "jt_q (interpolate hv ha a b (wp_t_s a) out) = wp_q a"
    and "jt_q (interpolate hv ha a b (wp_t_s b) out) = wp_q b"
proof -
  have "vnth (jt_q (interpolate hv ha a b (wp_t_s a) out)) i = vnth (wp_q a) i \<and>
        vnth (jt_q (interpolate hv ha a b (wp_t_s b) out)) i = vnth (wp_q b) i" if i: "i < 7" for i
  proof -
    obtain ta qa qda qdda where 1: "wp_t_s a = Fin ta" "vnth (wp_q a) i = Fin qa"
      "vnth (wp_qd a) i = Fin qda" "vnth (wp_qdd a) i = Fin qdda"
      using finite_waypointE [OF assms(1) i] by blast
    obtain tb qb qdb qddb where 2: "wp_t_s b = Fin tb" "vnth (wp_q b) i = Fin qb"
      "vnth (wp_qd b) i = Fin qdb" "vnth (wp_qdd b) i = Fin qddb"
      using finite_waypointE [OF assms(2) i] by blast
    show ?thesis
      using 1 2 i assms(3)
      by (simp add: interpolate_def Let_def lerp_q_def cubic_Fin quintic_Fin cubic_r_def quintic_r_def)
  qed
  then show "jt_q (interpolate hv ha a b (wp_t_s a) out) = wp_q a"
    and "jt_q (interpolate hv ha a b (wp_t_s b) out) = wp_q b"
    by (auto intro: vec7_eqI)
qed

lemma upper_bound_eqI:
  assumes "k < length p" and "t < wp_t_s (p ! k)" and "\<And>j. j < k \<Longrightarrow> \<not> t < wp_t_s (p ! j)"
  shows "upper_bound p t = k"
proof -
  have "takeWhile (\<lambda>w. \<not> t < wp_t_s w) p = take k p"
    by (rule takeWhile_eq_take_P_nth) (use assms in auto)
  then show ?thesis using assms(1) by (simp add: upper_bound_def)
qed

lemma valid_stamps_strict_mono:
  assumes v: "valid_timestamps tr" and "i < j" and "j < length (tr_points tr)"
  shows "wp_t_s (tr_points tr ! i) < wp_t_s (tr_points tr ! j)"
  using assms(2,3)
proof (induction j)
  case 0
  then show ?case by simp
next
  case (Suc j)
  have "wp_t_s (tr_points tr ! j) < wp_t_s (tr_points tr ! Suc j)"
    using valid_timestamps_increasing [OF v Suc.prems(2)] .
  then show ?case
    using Suc by (cases "i = j") (auto intro: dbl_less_trans)
qed

lemma dbl_less_asym: "x < y \<Longrightarrow> \<not> y < (x :: dbl)"
  by (cases x; cases y) auto

text \<open>Inside a segment the reference is that segment's polynomial.\<close>

lemma sample_target_segment:
  assumes v: "valid_timestamps tr" and k: "Suc k < length (tr_points tr)"
    and lo: "wp_t_s (tr_points tr ! k) \<le> t" and hi: "t < wp_t_s (tr_points tr ! Suc k)"
    and first: "wp_t_s (hd (tr_points tr)) < t"
  shows "\<exists>out. sample_target tr t = Some (interpolate (tr_has_velocities tr) (tr_has_accelerations tr)
           (tr_points tr ! k) (tr_points tr ! Suc k) t out)"
proof -
  let ?p = "tr_points tr"
  have "upper_bound ?p t = Suc k"
  proof (rule upper_bound_eqI [OF k hi])
    fix j assume "j < Suc k"
    then have "wp_t_s (?p ! j) \<le> wp_t_s (?p ! k)"
      using valid_stamps_strict_mono [OF v, of j k] k valid_timestamps_finite [OF v, of "?p ! k"]
      by (cases "j = k") (auto simp: dbl_less_imp_le less_eq_dbl_def)
    then have "wp_t_s (?p ! j) \<le> t" using lo dbl_le_trans by blast
    then show "\<not> t < wp_t_s (?p ! j)" using dbl_less_asym by (auto simp: less_eq_dbl_def)
  qed
  moreover have "\<not> wp_t_s (last ?p) \<le> t"
  proof
    assume l: "wp_t_s (last ?p) \<le> t"
    have ne: "?p \<noteq> []" using k by auto
    have "wp_t_s (?p ! Suc k) \<le> wp_t_s (last ?p)"
    proof (cases "Suc k = length ?p - 1")
      case True
      then show ?thesis
        using valid_timestamps_finite [OF v, of "last ?p"] ne
        by (auto simp: last_conv_nth less_eq_dbl_def)
    next
      case False
      then show ?thesis
        using valid_stamps_strict_mono [OF v, of "Suc k" "length ?p - 1"] k ne
        by (auto simp: last_conv_nth dbl_less_imp_le)
    qed
    with l hi show False
      by (metis dbl_le_trans dbl_less_asym dbl_less_irrefl less_eq_dbl_def)
  qed
  moreover have "\<not> t \<le> wp_t_s (hd ?p)" using first dbl_less_asym by (auto simp: less_eq_dbl_def)
  ultimately show ?thesis using k by (auto simp: sample_target_def Let_def)
qed

definition finite_traj :: "trajectory \<Rightarrow> bool" where
  "finite_traj tr = list_all finite_waypoint (tr_points tr)"

lemma finite_traj_nth: "finite_traj tr \<Longrightarrow> k < length (tr_points tr) \<Longrightarrow> finite_waypoint (tr_points tr ! k)"
  by (simp add: finite_traj_def list_all_length)

lemma finite_traj_hd_last:
  "finite_traj tr \<Longrightarrow> tr_points tr \<noteq> [] \<Longrightarrow> finite_waypoint (hd (tr_points tr)) \<and> finite_waypoint (last (tr_points tr))"
  by (simp add: finite_traj_def list_all_iff)

lemma interpolate_finite:
  assumes "finite_waypoint a" and "finite_waypoint b"
  shows "vfinite (jt_q (interpolate hv ha a b (Fin t) out))"
  unfolding vfinite_iff
proof (intro allI impI)
  fix i :: nat assume i: "i < 7"
  obtain ta qa qda qdda where 1: "wp_t_s a = Fin ta" "vnth (wp_q a) i = Fin qa"
    "vnth (wp_qd a) i = Fin qda" "vnth (wp_qdd a) i = Fin qdda"
    using finite_waypointE [OF assms(1) i] by blast
  obtain tb qb qdb qddb where 2: "wp_t_s b = Fin tb" "vnth (wp_q b) i = Fin qb"
    "vnth (wp_qd b) i = Fin qdb" "vnth (wp_qdd b) i = Fin qddb"
    using finite_waypointE [OF assms(2) i] by blast
  show "isfinite (vnth (jt_q (interpolate hv ha a b (Fin t) out)) i)"
    using 1 2 i by (simp add: interpolate_def Let_def lerp_q_def cubic_Fin quintic_Fin)
qed

lemma sample_target_finite:
  assumes f: "finite_traj tr" and s: "sample_target tr t = Some r" and "t \<noteq> NaN"
  shows "vfinite (jt_q r)"
proof (cases "tr_points tr = []")
  case True
  then show ?thesis using s by (auto simp: sample_target_def joint_target0_def split: if_splits)
next
  case ne: False
  let ?p = "tr_points tr"
  consider (pin) "t \<le> wp_t_s (hd ?p) \<or> wp_t_s (last ?p) \<le> t"
    | (seg) "\<not> t \<le> wp_t_s (hd ?p)" "\<not> wp_t_s (last ?p) \<le> t" by blast
  then show ?thesis
  proof cases
    case pin
    then show ?thesis
      using s ne finite_traj_hd_last [OF f ne]
      by (auto simp: sample_target_def Let_def finite_waypoint_def split: if_splits)
  next
    case seg
    have "isfinite t"
      using seg finite_traj_hd_last [OF f ne] \<open>t \<noteq> NaN\<close>
      by (cases t) (auto simp: finite_waypoint_def)
    then obtain x where x: "t = Fin x" by blast
    obtain out k where "r = interpolate (tr_has_velocities tr) (tr_has_accelerations tr) (?p ! (k - 1)) (?p ! k) t out"
      "k < length ?p"
      using s ne seg by (auto simp: sample_target_def Let_def split: if_splits)
    then show ?thesis using interpolate_finite x finite_traj_nth [OF f] by simp
  qed
qed

text \<open>
  Claim C35. Sampling a valid, finite trajectory at the stamp of any of its waypoints gives exactly
  that waypoint's joint positions, whichever of the three interpolation orders the trajectory
  selects: the polynomial segments meet at the waypoints.
\<close>

theorem sample_hits_waypoints:
  assumes v: "valid_timestamps tr" and f: "finite_traj tr" and k: "k < length (tr_points tr)"
  shows "sample tr (wp_t_s (tr_points tr ! k)) = Some (wp_q (tr_points tr ! k))"
proof -
  let ?p = "tr_points tr" and ?t = "wp_t_s (tr_points tr ! k)"
  have ne: "?p \<noteq> []" using k by auto
  have refl: "wp_t_s (?p ! j) \<le> wp_t_s (?p ! j)" if "j < length ?p" for j
    using finite_traj_nth [OF f that] by (auto simp: finite_waypoint_def less_eq_dbl_def)
  consider "k = 0" | "0 < k" "Suc k = length ?p" | "0 < k" "Suc k < length ?p"
    using k by linarith
  then show ?thesis
  proof cases
    case 1
    then show ?thesis using refl [OF k] ne by (simp add: sample_def sample_target_def Let_def hd_conv_nth)
  next
    case 2
    then have "last ?p = ?p ! k" using ne by (metis diff_Suc_1 last_conv_nth)
    moreover have "wp_t_s (hd ?p) < ?t"
      using valid_stamps_strict_mono [OF v 2(1) k] ne by (simp add: hd_conv_nth)
    ultimately show ?thesis
      using refl [OF k] ne dbl_less_asym by (auto simp: sample_def sample_target_def Let_def less_eq_dbl_def)
  next
    case 3
    have first: "wp_t_s (hd ?p) < ?t"
      using valid_stamps_strict_mono [OF v 3(1) k] ne by (simp add: hd_conv_nth)
    have lt: "?t < wp_t_s (?p ! Suc k)" using valid_timestamps_increasing [OF v 3(2)] .
    from sample_target_segment [OF v 3(2) refl [OF k] lt first]
    show ?thesis
      using interpolate_ends(1) [OF finite_traj_nth [OF f k] finite_traj_nth [OF f 3(2)] lt]
      by (auto simp: sample_def)
  qed
qed

definition demo_waypoint :: "real \<Rightarrow> real \<Rightarrow> joint_waypoint" where
  "demo_waypoint q t = \<lparr>wp_q = vconst (Fin q), wp_t_s = Fin t, wp_qd = vzero, wp_qdd = vzero\<rparr>"

definition demo_traj :: trajectory where
  "demo_traj = \<lparr>tr_points = [demo_waypoint 0 0, demo_waypoint 1 2, demo_waypoint 3 4],
     tr_has_velocities = True, tr_has_accelerations = True\<rparr>"

lemma demo_traj_ok: "valid_timestamps demo_traj" "finite_traj demo_traj" "length (tr_points demo_traj) = 3"
  by (simp_all add: demo_traj_def demo_waypoint_def valid_timestamps_def finite_traj_def
        finite_waypoint_def kMinSegmentSpanSec_def)

theorem sample_hits_waypoints_witness:
  "sample demo_traj (Fin 2) = Some (vconst (Fin 1))"
  using sample_hits_waypoints [OF demo_traj_ok(1,2), of 1] demo_traj_ok(3)
  by (simp add: demo_traj_def demo_waypoint_def)

text \<open>
  Between two finite waypoints with increasing stamps the velocity the executor feeds
  forward is the time derivative of the position it commands (cubic and quintic), and with
  accelerations the commanded acceleration is the derivative of that velocity.
\<close>

theorem interpolate_profile_is_derivative:
  assumes a: "finite_waypoint a" and b: "finite_waypoint b" and ab: "wp_t_s a < wp_t_s b" and i: "i < 7"
  shows "((\<lambda>s. dval (vnth (jt_q (interpolate True ha a b (Fin s) out)) i)) has_real_derivative
           dval (vnth (jt_qd (interpolate True ha a b (Fin t) out)) i)) (at t) \<and>
         (ha \<longrightarrow> ((\<lambda>s. dval (vnth (jt_qd (interpolate True ha a b (Fin s) out)) i)) has_real_derivative
           dval (vnth (jt_qdd (interpolate True ha a b (Fin t) out)) i)) (at t))"
proof -
  obtain ta qa qda qdda where 1: "wp_t_s a = Fin ta" "vnth (wp_q a) i = Fin qa"
    "vnth (wp_qd a) i = Fin qda" "vnth (wp_qdd a) i = Fin qdda"
    using finite_waypointE [OF a i] by blast
  obtain tb qb qdb qddb where 2: "wp_t_s b = Fin tb" "vnth (wp_q b) i = Fin qb"
    "vnth (wp_qd b) i = Fin qdb" "vnth (wp_qdd b) i = Fin qddb"
    using finite_waypointE [OF b i] by blast
  define s where "s = tb - ta"
  have s: "0 < s" "s \<noteq> 0" using ab 1 2 by (auto simp: s_def)
  define f where "f = quintic_r qa (qda * s) (qdda * s * s) qb (qdb * s) (qddb * s * s)"
  define f' where "f' = quintic_r' qa (qda * s) (qdda * s * s) qb (qdb * s) (qddb * s * s)"
  define f'' where "f'' = quintic_r'' qa (qda * s) (qdda * s * s) qb (qdb * s) (qddb * s * s)"
  define g where "g = cubic_r qa (qda * s) qb (qdb * s)"
  define g' where "g' = cubic_r' qa (qda * s) qb (qdb * s)"
  have F: "((\<lambda>t. f ((t - ta) / s)) has_real_derivative f' ((t - ta) / s) / s) (at t)" for t
    by (rule deriv_segment [OF _ s(2)]) (simp add: f_def f'_def quintic_deriv)
  have G: "((\<lambda>t. g ((t - ta) / s)) has_real_derivative g' ((t - ta) / s) / s) (at t)" for t
    by (rule deriv_segment [OF _ s(2)]) (simp add: g_def g'_def cubic_deriv)
  have F': "((\<lambda>t. f' ((t - ta) / s)) has_real_derivative f'' ((t - ta) / s) / s) (at t)" for t
    by (rule deriv_segment [OF _ s(2)]) (simp add: f'_def f''_def quintic_deriv2)
  have F'': "((\<lambda>t. f' ((t - ta) / s) / s) has_real_derivative f'' ((t - ta) / s) / (s * s)) (at t)" for t
    using DERIV_cdivide [OF F', of s t] by simp
  have eq: "vnth (jt_q (interpolate True ha a b (Fin x) out)) i
              = Fin (if ha then f ((x - ta) / s) else g ((x - ta) / s))"
    "vnth (jt_qd (interpolate True ha a b (Fin x) out)) i
              = Fin (if ha then f' ((x - ta) / s) / s else g' ((x - ta) / s) / s)" for x
    using 1 2 i s by (simp_all add: interpolate_def Let_def cubic_Fin quintic_Fin f_def f'_def g_def g'_def
        flip: s_def)
  have eq'': "ha \<Longrightarrow> vnth (jt_qdd (interpolate True ha a b (Fin x) out)) i = Fin (f'' ((x - ta) / s) / (s * s))" for x
    using 1 2 i s by (simp add: interpolate_def Let_def quintic_Fin f''_def flip: s_def)
  show ?thesis
    unfolding eq using eq'' F G F'' by simp
qed

theorem interpolate_profile_is_derivative_witness:
  "((\<lambda>s. dval (vnth (jt_q (interpolate True True (demo_waypoint 0 0) (demo_waypoint 1 2) (Fin s) joint_target0)) 3))
     has_real_derivative
     dval (vnth (jt_qd (interpolate True True (demo_waypoint 0 0) (demo_waypoint 1 2) (Fin 1) joint_target0)) 3)) (at 1)"
  using interpolate_profile_is_derivative [of "demo_waypoint 0 0" "demo_waypoint 1 2" 3 True joint_target0 1]
  by (simp add: demo_waypoint_def finite_waypoint_def)

subsection \<open>Accepting and refusing a goal\<close>

text \<open>
  \<open>submit\<close> accepts a goal exactly when the trajectory is non-empty with valid stamps, the
  speed scale lies in [0.01, 1], and no other goal is running unless the new one preempts it in the
  same control mode; an accepted goal starts from a stopped clock with its own tolerance and scale,
  and every refusal leaves the executor, the running goal included, exactly as it was.
\<close>

theorem submit_accepts_iff:
  "(fst (submit e tr mode p tol s) = SrAccepted \<longleftrightarrow>
      tr_points tr \<noteq> [] \<and> valid_timestamps tr \<and> kMinSpeedScale \<le> s \<and> s \<le> Fin 1 \<and>
      (is_active e \<longrightarrow> mode = te_mode e \<and> p = KLatestWins)) \<and>
   (fst (submit e tr mode p tol s) = SrAccepted \<longrightarrow>
      snd (submit e tr mode p tol s) = exec_start tr tol s (e\<lparr>te_mode := mode\<rparr>)) \<and>
   (fst (submit e tr mode p tol s) \<noteq> SrAccepted \<longrightarrow> snd (submit e tr mode p tol s) = e)"
  by (cases p) (auto simp: submit_def exec_start_def)

theorem submit_accepts_iff_witness:
  "submit (traj_exec_init (vconst True)) demo_traj KImpedance KQueue vzero (Fin (1/2)) =
     (SrAccepted, exec_start demo_traj vzero (Fin (1/2)) (traj_exec_init (vconst True)\<lparr>te_mode := KImpedance\<rparr>))"
proof -
  have c: "fst (submit (traj_exec_init (vconst True)) demo_traj KImpedance KQueue vzero (Fin (1/2))) = SrAccepted"
    using submit_accepts_iff [of "traj_exec_init (vconst True)" demo_traj KImpedance KQueue vzero "Fin (1/2)"]
      demo_traj_ok(1)
    by (simp add: demo_traj_def kMinSpeedScale_def is_active_def traj_exec_init_def)
  with submit_accepts_iff [of "traj_exec_init (vconst True)" demo_traj KImpedance KQueue vzero "Fin (1/2)"]
  show ?thesis by (metis prod.collapse)
qed

subsection \<open>The tick\<close>

text \<open>What holds of an executor at all times, whatever clock it is given.\<close>

definition exec_wf :: "traj_exec \<Rightarrow> bool" where
  "exec_wf e = (case te_active e of None \<Rightarrow> True
     | Some a \<Rightarrow> tr_points (ea_tr a) \<noteq> [] \<and> valid_timestamps (ea_tr a) \<and> Fin 0 \<le> ea_traj_t a)"

lemma exec_wf_init: "exec_wf (traj_exec_init c)"
  by (simp add: exec_wf_def traj_exec_init_def)

lemma exec_wf_submit: "exec_wf e \<Longrightarrow> exec_wf (snd (submit e tr mode p tol s))"
  by (simp add: submit_def exec_wf_def exec_start_def is_active_def)

lemma le_zero_not_NaN: "Fin 0 \<le> t \<Longrightarrow> t \<noteq> NaN"
  by auto

lemma start_clock_frame [simp]: "ea_tr (start_clock now a) = ea_tr a" "ea_started (start_clock now a)"
  by (simp_all add: start_clock_def)

lemma advance_clock_frame [simp]: "ea_tr (advance_clock now s a) = ea_tr a"
  "ea_started (advance_clock now s a) = ea_started a" "ea_last_now_s (advance_clock now s a) = now"
  by (simp_all add: advance_clock_def Let_def)

lemma advance_clock_nonneg:
  assumes "Fin 0 \<le> ea_traj_t a"
  shows "Fin 0 \<le> ea_traj_t (advance_clock now (effective_scale g ov) a)"
proof -
  obtain s where s: "effective_scale g ov = Fin s" "1 / 100 \<le> s"
    using effective_scale_bounds by blast
  have pos: "0 < s" using s(2) by simp
  show ?thesis
  proof (cases "Fin 0 < now - ea_last_now_s a")
    case True
    then show ?thesis using assms pos s(1)
      by (cases "now - ea_last_now_s a"; cases "ea_traj_t a")
        (auto simp: advance_clock_def Let_def)
  qed (use assms in \<open>simp add: advance_clock_def Let_def\<close>)
qed

lemma start_clock_nonneg: "Fin 0 \<le> ea_traj_t a \<Longrightarrow> Fin 0 \<le> ea_traj_t (start_clock now a)"
  by (simp add: start_clock_def)

lemma path_diverged_finite:
  assumes "vfinite q" and "vfinite r" and "\<forall>i \<in> set is. i < 7"
  shows "path_diverged c tol q r is \<noteq> None"
  using assms(3)
proof (induction "is")
  case (Cons i "is")
  then obtain x where "wrap_if (vnth c i) (vnth q i - vnth r i) = Some (Fin x)"
    using wrap_if_finite assms(1,2) by (metis dbl_minus_simps(1) isfinite_iff list.set_intros(1) vfiniteD)
  with Cons show ?case by auto
qed simp

text \<open>The tick of an active executor, in the pieces the proofs use.\<close>

definition ticked_active :: "traj_exec \<Rightarrow> dbl \<Rightarrow> dbl \<Rightarrow> exec_active \<Rightarrow> exec_active" where
  "ticked_active e now_s override_scale a0 =
     advance_clock now_s (effective_scale (te_scale e) override_scale) (start_clock now_s a0)"

lemma ticked_active_tr [simp]: "ea_tr (ticked_active e now ov a) = ea_tr a"
  by (simp add: ticked_active_def)

lemma ticked_active_nonneg: "Fin 0 \<le> ea_traj_t a \<Longrightarrow> Fin 0 \<le> ea_traj_t (ticked_active e now ov a)"
  by (simp add: ticked_active_def advance_clock_nonneg start_clock_nonneg)

lemma tick_idle: "te_active e = None \<Longrightarrow> tick e now q ov =
    Some (\<lparr>es_active = False, es_completed = False, es_fraction = Fin 0, es_error_code = kExecOk\<rparr>, None, e)"
  by (simp add: tick_def)

lemma tick_active_SomeD:
  assumes "te_active e = Some a" and "tick e now q ov = Some (st, r, e')"
  shows "\<exists>raw d. sample_target (ea_tr a) (ea_traj_t (ticked_active e now ov a)) = Some raw \<and>
     r = Some (scale_profile (effective_scale (te_scale e) ov) raw) \<and>
     path_diverged (te_continuous e) (te_path_tol e) q (jt_q raw) [0..<7] = Some d \<and>
     e' = e\<lparr>te_active := if d \<or> duration_s (ea_tr a) \<le> ea_traj_t (ticked_active e now ov a) then None
                        else Some (ticked_active e now ov a),
           te_applied := effective_scale (te_scale e) ov\<rparr> \<and>
     es_error_code st = (if d then kPathToleranceViolated else kExecOk) \<and>
     es_active st = (te_active e' \<noteq> None) \<and> es_completed st = (te_active e' = None)"
proof -
  let ?a = "ticked_active e now ov a" and ?s = "effective_scale (te_scale e) ov"
  note [simp] = ticked_active_def [symmetric]
  obtain raw where raw: "sample_target (ea_tr a) (ea_traj_t ?a) = Some raw"
    using assms by (cases "sample_target (ea_tr a) (ea_traj_t ?a)") (simp_all add: tick_def Let_def)
  obtain d where d: "path_diverged (te_continuous e) (te_path_tol e) q (jt_q raw) [0..<7] = Some d"
    using assms raw
    by (cases "path_diverged (te_continuous e) (te_path_tol e) q (jt_q raw) [0..<7]")
      (simp_all add: tick_def Let_def scale_profile_def)
  show ?thesis
    by (rule exI [of _ raw], rule exI [of _ d])
      (use assms raw d in \<open>cases d; cases "duration_s (ea_tr a) \<le> ea_traj_t ?a";
        simp add: tick_def Let_def scale_profile_def; clarsimp\<close>)
qed

lemma exec_wf_tick:
  assumes "exec_wf e" and "tick e now q ov = Some (st, r, e')"
  shows "exec_wf e'"
proof (cases "te_active e")
  case None
  with assms show ?thesis by (simp add: tick_idle)
next
  case (Some a)
  then show ?thesis
    using tick_active_SomeD [OF Some assms(2)] assms(1)
    by (auto simp: exec_wf_def ticked_active_nonneg split: if_splits)
qed

lemma exec_wf_duration:
  assumes "exec_wf e" and "te_active e = Some a"
  shows "\<exists>d. duration_s (ea_tr a) = Fin d"
  using assms valid_timestamps_finite [of "ea_tr a" "last (tr_points (ea_tr a))"]
  by (auto simp: exec_wf_def duration_s_def isfinite_iff)

lemma exec_wf_sample:
  assumes "exec_wf e" and "te_active e = Some a" and "Fin 0 \<le> t"
  shows "\<exists>raw. sample_target (ea_tr a) t = Some raw"
proof (rule sample_target_returns)
  show "t \<noteq> NaN" using assms(3) by (rule le_zero_not_NaN)
  show "\<forall>w \<in> set (tr_points (ea_tr a)). wp_t_s w \<noteq> NaN"
    using assms(1,2) valid_timestamps_finite [of "ea_tr a"] by (fastforce simp: exec_wf_def)
qed

text \<open>The states an executor can reach by submits and ticks.\<close>

inductive exec_reach :: "bool vec7 \<Rightarrow> traj_exec \<Rightarrow> bool" for contin where
  init: "exec_reach contin (traj_exec_init contin)"
| submit: "exec_reach contin e \<Longrightarrow> exec_reach contin (snd (submit e tr mode p tol s))"
| tick: "exec_reach contin e \<Longrightarrow> tick e now q ov = Some (st, r, e') \<Longrightarrow> exec_reach contin e'"

lemma exec_reach_wf: "exec_reach contin e \<Longrightarrow> exec_wf e"
  by (induction rule: exec_reach.induct) (auto intro: exec_wf_init exec_wf_submit exec_wf_tick)

text \<open>
  In every reachable state, with a finite measurement and a finite trajectory, a tick
  returns for every clock stamp and every speed override, NaN and infinities included: the sampler
  never reads past the last waypoint and never leaves a clock that does not run backwards.
\<close>

theorem tick_returns:
  assumes reach: "exec_reach contin e" and q: "vfinite q"
    and f: "\<And>a. te_active e = Some a \<Longrightarrow> finite_traj (ea_tr a)"
  shows "\<exists>st r e'. tick e now q ov = Some (st, r, e') \<and>
           (\<forall>a a'. te_active e = Some a \<longrightarrow> te_active e' = Some a' \<longrightarrow>
              ea_tr a' = ea_tr a \<and> Fin 0 \<le> ea_traj_t a')"
proof (cases "te_active e")
  case None
  then show ?thesis by (simp add: tick_idle)
next
  case (Some a)
  have wf: "exec_wf e" using reach by (rule exec_reach_wf)
  have nn: "Fin 0 \<le> ea_traj_t (ticked_active e now ov a)"
    using wf Some by (simp add: ticked_active_nonneg exec_wf_def)
  obtain raw where raw: "sample_target (ea_tr a) (ea_traj_t (ticked_active e now ov a)) = Some raw"
    using exec_wf_sample [OF wf Some nn] by blast
  have "vfinite (jt_q raw)" using sample_target_finite [OF f [OF Some] raw] le_zero_not_NaN [OF nn] .
  then obtain d where d: "path_diverged (te_continuous e) (te_path_tol e) q (jt_q raw) [0..<7] = Some d"
    using path_diverged_finite [OF q, of "jt_q raw" "[0..<7]"] by auto
  have "\<exists>x. tick e now q ov = Some x"
    using Some raw d by (cases d) (simp_all add: tick_def Let_def scale_profile_def ticked_active_def)
  then obtain st r e' where t: "tick e now q ov = Some (st, r, e')" by auto
  then show ?thesis using tick_active_SomeD [OF Some t] nn Some by (auto split: if_splits)
qed

definition demo_exec :: traj_exec where
  "demo_exec = snd (submit (traj_exec_init (vconst True)) demo_traj KPosition KQueue vzero (Fin 1))"

lemma demo_exec_reach: "exec_reach (vconst True) demo_exec"
  unfolding demo_exec_def by (intro exec_reach.submit exec_reach.init)

lemma demo_exec_eq: "demo_exec = exec_start demo_traj vzero (Fin 1) (traj_exec_init (vconst True))"
  using demo_traj_ok
  by (simp add: demo_exec_def submit_def kMinSpeedScale_def is_active_def traj_exec_init_def)
    (simp add: demo_traj_def)

lemma demo_exec_tr: "te_active demo_exec = Some a \<Longrightarrow> ea_tr a = demo_traj"
  by (auto simp: demo_exec_eq exec_start_def)

theorem tick_returns_witness: "\<exists>st r e'. tick demo_exec NaN vzero PInf = Some (st, r, e')"
proof -
  have "vfinite vzero" by simp
  moreover have "finite_traj (ea_tr a)" if "te_active demo_exec = Some a" for a
    using demo_exec_tr [OF that] demo_traj_ok(2) by simp
  ultimately show ?thesis using tick_returns [OF demo_exec_reach] by blast
qed

definition joint_err :: "bool vec7 \<Rightarrow> jointvec \<Rightarrow> jointvec \<Rightarrow> nat \<Rightarrow> dbl" where
  "joint_err contin q_meas q_desired i = the (wrap_if (vnth contin i) (vnth q_meas i - vnth q_desired i))"

lemma path_diverged_iff:
  assumes "path_diverged c tol q r is = Some d" and "vfinite q" and "vfinite r" and "\<forall>i \<in> set is. i < 7"
  shows "d \<longleftrightarrow> (\<exists>i \<in> set is. Fin 0 < vnth tol i \<and> vnth tol i < abs (joint_err c q r i))"
  using assms(1,4)
proof (induction "is")
  case (Cons i "is")
  then obtain x where "wrap_if (vnth c i) (vnth q i - vnth r i) = Some (Fin x)"
    using wrap_if_finite assms(2,3) by (metis dbl_minus_simps(1) isfinite_iff list.set_intros(1) vfiniteD)
  with Cons show ?case by (auto simp: joint_err_def split: if_splits)
qed simp

text \<open>
  Claim C16. The divergence guard: on finite values a tick of a running goal ends it with
  kPathToleranceViolated exactly when some joint with a positive tolerance is further from the
  commanded reference than its tolerance, the difference folded by whole turns on the continuous
  joints only; otherwise the goal ends exactly when the trajectory clock has reached its duration,
  and runs on if not.
\<close>

theorem tick_outcome:
  assumes reach: "exec_reach contin e" and act: "te_active e = Some a" and f: "finite_traj (ea_tr a)"
    and q: "vfinite q" and t: "tick e now q ov = Some (st, Some ref, e')"
  shows "(es_error_code st = kPathToleranceViolated \<longleftrightarrow>
            (\<exists>i < 7. Fin 0 < vnth (te_path_tol e) i \<and>
               vnth (te_path_tol e) i < abs (joint_err (te_continuous e) q (jt_q ref) i))) \<and>
         (es_error_code st = kExecOk \<longrightarrow>
            (te_active e' = None \<longleftrightarrow> duration_s (ea_tr a) \<le> ea_traj_t (ticked_active e now ov a)))"
proof -
  obtain raw d where r: "sample_target (ea_tr a) (ea_traj_t (ticked_active e now ov a)) = Some raw"
    "ref = scale_profile (effective_scale (te_scale e) ov) raw"
    "path_diverged (te_continuous e) (te_path_tol e) q (jt_q raw) [0..<7] = Some d"
    "es_error_code st = (if d then kPathToleranceViolated else kExecOk)"
    "te_active e' = (if d \<or> duration_s (ea_tr a) \<le> ea_traj_t (ticked_active e now ov a) then None
       else Some (ticked_active e now ov a))"
    using tick_active_SomeD [OF act t] by auto
  have jq: "jt_q ref = jt_q raw" by (simp add: r(2) scale_profile_def)
  have nn: "Fin 0 \<le> ea_traj_t (ticked_active e now ov a)"
    using exec_reach_wf [OF reach] act by (simp add: ticked_active_nonneg exec_wf_def)
  have "vfinite (jt_q raw)" using sample_target_finite [OF f r(1)] le_zero_not_NaN [OF nn] .
  then have d: "d \<longleftrightarrow> (\<exists>i < 7. Fin 0 < vnth (te_path_tol e) i \<and>
      vnth (te_path_tol e) i < abs (joint_err (te_continuous e) q (jt_q ref) i))"
    using path_diverged_iff [OF r(3) q] jq by (auto simp: Bex_def)
  then show ?thesis
    using r(4,5) by (auto simp: kPathToleranceViolated_def kExecOk_def split: if_splits)
qed

theorem tick_outcome_witness:
  "\<exists>st ref e'. tick demo_exec (Fin 5) vzero (Fin 1) = Some (st, Some ref, e') \<and> es_error_code st = kExecOk \<and> te_active e' \<noteq> None"
proof -
  have act: "te_active demo_exec = Some \<lparr>ea_tr = demo_traj, ea_traj_t = Fin 0, ea_last_now_s = Fin 0, ea_started = False\<rparr>"
    (is "_ = Some ?a") by (simp add: demo_exec_eq exec_start_def)
  have q: "vfinite vzero" by simp
  have f: "finite_traj (ea_tr ?a)" using demo_traj_ok by simp
  obtain st r e' where t: "tick demo_exec (Fin 5) vzero (Fin 1) = Some (st, r, e')"
    using tick_returns [OF demo_exec_reach q] f act by (metis option.inject)
  obtain ref where ref: "r = Some ref" using tick_active_SomeD [OF act t] by blast
  note T = tick_outcome [OF demo_exec_reach act f q t [unfolded ref]]
  have tol: "te_path_tol demo_exec = vzero" by (simp add: demo_exec_eq exec_start_def)
  then have ok: "es_error_code st = kExecOk"
    using T tick_active_SomeD [OF act t] by (auto split: if_splits)
  have "ea_traj_t (ticked_active demo_exec (Fin 5) (Fin 1) ?a) = Fin 0"
    by (simp add: ticked_active_def start_clock_def advance_clock_def)
  then have "te_active e' \<noteq> None"
    using T ok by (simp add: demo_traj_def duration_s_def demo_waypoint_def)
  then show ?thesis using t ref ok by blast
qed

subsection \<open>Completion\<close>

text \<open>A run of ticks, each with its clock stamp, measurement and override.\<close>

fun exec_run :: "traj_exec \<Rightarrow> (dbl \<times> jointvec \<times> dbl) list \<Rightarrow> traj_exec option" where
  "exec_run e [] = Some e"
| "exec_run e ((now, q, ov) # is) = do { (st, r, e') \<leftarrow> tick e now q ov; exec_run e' is }"

lemma exec_run_idle: "te_active e = None \<Longrightarrow> exec_run e is = Some e"
  by (induction "is") (auto simp: tick_idle)

text \<open>The clock has advanced by at least a hundredth of the wall time since the first tick.\<close>

definition exec_since :: "real \<Rightarrow> real \<Rightarrow> real \<Rightarrow> exec_active \<Rightarrow> bool" where
  "exec_since D t0 n a \<longleftrightarrow> ea_started a \<and> ea_last_now_s a = Fin n \<and> duration_s (ea_tr a) = Fin D \<and>
     (\<exists>x. ea_traj_t a = Fin x \<and> (n - t0) / 100 \<le> x)"

lemma advance_clock_since:
  assumes "exec_since D t0 n a"
  shows "exec_since D t0 n' (advance_clock (Fin n') (effective_scale g ov) a)"
proof -
  obtain s where s: "effective_scale g ov = Fin s" "1 / 100 \<le> s"
    using effective_scale_bounds by blast
  obtain x where x: "ea_traj_t a = Fin x" "(n - t0) / 100 \<le> x" "ea_last_now_s a = Fin n"
    using assms by (auto simp: exec_since_def)
  show ?thesis
  proof (cases "0 < n' - n")
    case True
    have "(n' - n) * (1 / 100) \<le> (n' - n) * s" using True s(2) by (intro mult_left_mono) auto
    then have "(n' - t0) / 100 \<le> x + (n' - n) * s" using x(2) by (simp add: field_simps)
    then show ?thesis using assms True s(1) x
      by (auto simp: exec_since_def advance_clock_def Let_def duration_s_def)
  next
    case False
    then have "(n' - t0) / 100 \<le> x" using x(2) by (simp add: field_simps)
    then show ?thesis using assms False s(1) x
      by (auto simp: exec_since_def advance_clock_def Let_def duration_s_def)
  qed
qed

lemma tick_since:
  assumes "te_active e = Some a" and "tick e (Fin n') q ov = Some (st, r, e')"
    and "exec_since D t0 n (start_clock (Fin n') a)"
  shows "te_active e' = None \<or> (\<exists>a'. te_active e' = Some a' \<and> exec_since D t0 n' a' \<and> \<not> Fin D \<le> ea_traj_t a')"
proof -
  have "exec_since D t0 n' (ticked_active e (Fin n') ov a)"
    unfolding ticked_active_def by (rule advance_clock_since [OF assms(3)])
  moreover have "duration_s (ea_tr a) = Fin D" using assms(3) by (simp add: exec_since_def)
  ultimately show ?thesis using tick_active_SomeD [OF assms(1,2)] by (auto split: if_splits)
qed

lemma exec_since_started [simp]: "exec_since D t0 n a \<Longrightarrow> start_clock now a = a"
  by (simp add: exec_since_def start_clock_def)

lemma exec_run_since:
  assumes "exec_run e (map (\<lambda>(t, q, ov). (Fin t, q, ov)) is) = Some e'"
    and "te_active e = Some a" and "exec_since D t0 n a" and "\<not> Fin D \<le> ea_traj_t a"
  shows "te_active e' = None \<or>
    (\<exists>a'. te_active e' = Some a' \<and> exec_since D t0 (last (n # map fst is)) a' \<and> \<not> Fin D \<le> ea_traj_t a')"
  using assms
proof (induction "is" arbitrary: e a n)
  case Nil
  then show ?case by simp
next
  case (Cons i "is")
  obtain t q ov where i: "i = (t, q, ov)" by (cases i) auto
  then obtain st r e1 where e1: "tick e (Fin t) q ov = Some (st, r, e1)"
    "exec_run e1 (map (\<lambda>(t, q, ov). (Fin t, q, ov)) is) = Some e'"
    using Cons.prems(1) by (auto simp: bind_eq_Some_conv)
  have "exec_since D t0 n (start_clock (Fin t) a)" using Cons.prems(3) by simp
  from tick_since [OF Cons.prems(2) e1(1) this] consider "te_active e1 = None"
    | a1 where "te_active e1 = Some a1" "exec_since D t0 t a1" "\<not> Fin D \<le> ea_traj_t a1" by metis
  then show ?case
  proof cases
    case 1
    then show ?thesis using e1(2) exec_run_idle by simp
  next
    case 2
    from Cons.IH [OF e1(2) 2] show ?thesis by (simp add: i)
  qed
qed

lemma exec_run_returns:
  assumes "exec_reach contin e" and "\<forall>a. te_active e = Some a \<longrightarrow> finite_traj (ea_tr a)"
    and "\<forall>(t, q, ov) \<in> set is. vfinite q"
  shows "\<exists>e'. exec_run e is = Some e'"
  using assms
proof (induction "is" arbitrary: e)
  case Nil
  then show ?case by simp
next
  case (Cons i "is")
  obtain t q ov where i: "i = (t, q, ov)" by (cases i) auto
  have q: "vfinite q" using Cons.prems(3) i by simp
  obtain st r e1 where e1: "tick e t q ov = Some (st, r, e1)"
    "\<forall>a a1. te_active e = Some a \<longrightarrow> te_active e1 = Some a1 \<longrightarrow> ea_tr a1 = ea_tr a"
    using tick_returns [OF Cons.prems(1) q, of t ov] Cons.prems(2) by blast
  have "\<forall>a1. te_active e1 = Some a1 \<longrightarrow> finite_traj (ea_tr a1)"
  proof (cases "te_active e")
    case None
    then show ?thesis using e1(1) by (simp add: tick_idle)
  next
    case (Some a)
    then show ?thesis using e1(2) Cons.prems(2) by metis
  qed
  then have "\<exists>e'. exec_run e1 is = Some e'"
    using Cons.IH [OF exec_reach.tick [OF Cons.prems(1) e1(1)]] Cons.prems(3) by auto
  then show ?case using i e1(1) by simp
qed

text \<open>
  Claim C33. Every accepted goal terminates: started at any tick and ticked with any finite clock
  stamps, measurements and any overrides (zero, NaN, infinite), the executor is idle again as soon
  as the wall time since the first tick reaches a hundred times the trajectory's duration; the floor
  kMinSpeedScale is what makes the bound.
\<close>

theorem goal_completes:
  assumes reach: "exec_reach contin e" and act: "te_active e = Some a" and new: "\<not> ea_started a"
    and f: "finite_traj (ea_tr a)" and D: "duration_s (ea_tr a) = Fin D"
    and q: "\<forall>(t, q, ov) \<in> set ((t0, q0, ov0) # is). vfinite q"
    and enough: "100 * D \<le> last (t0 # map fst is) - t0"
  shows "\<exists>e'. exec_run e (map (\<lambda>(t, q, ov). (Fin t, q, ov)) ((t0, q0, ov0) # is)) = Some e' \<and> te_active e' = None"
proof -
  let ?is = "map (\<lambda>(t, q, ov). (Fin t, q, ov)) ((t0, q0, ov0) # is)"
  have "\<forall>(t, q, ov) \<in> set ?is. vfinite q" using q by auto
  then obtain e' where run: "exec_run e ?is = Some e'"
    using exec_run_returns [OF reach, of ?is] act f by auto
  then obtain st r e1 where e1: "tick e (Fin t0) q0 ov0 = Some (st, r, e1)"
    "exec_run e1 (map (\<lambda>(t, q, ov). (Fin t, q, ov)) is) = Some e'"
    by (auto simp: bind_eq_Some_conv)
  have "exec_since D t0 t0 (start_clock (Fin t0) a)"
    using new D by (simp add: exec_since_def start_clock_def)
  from tick_since [OF act e1(1) this] consider "te_active e1 = None"
    | a1 where "te_active e1 = Some a1" "exec_since D t0 t0 a1" "\<not> Fin D \<le> ea_traj_t a1" by metis
  then have "te_active e' = None"
  proof cases
    case 1
    then show ?thesis using e1(2) exec_run_idle by simp
  next
    case 2
    from exec_run_since [OF e1(2) 2] show ?thesis
    proof
      assume "\<exists>a'. te_active e' = Some a' \<and> exec_since D t0 (last (t0 # map fst is)) a' \<and> \<not> Fin D \<le> ea_traj_t a'"
      then show ?thesis using enough by (auto simp: exec_since_def)
    qed
  qed
  with run show ?thesis by blast
qed

theorem goal_completes_witness:
  "\<exists>e'. exec_run demo_exec [(Fin 0, vzero, Fin 0), (Fin 150, vzero, NaN), (Fin 400, vzero, PInf)] = Some e' \<and> te_active e' = None"
proof -
  have act: "te_active demo_exec = Some \<lparr>ea_tr = demo_traj, ea_traj_t = Fin 0, ea_last_now_s = Fin 0, ea_started = False\<rparr>"
    by (simp add: demo_exec_eq exec_start_def)
  show ?thesis
    using goal_completes [OF demo_exec_reach act, of 4 0 vzero "Fin 0" "[(150, vzero, NaN), (400, vzero, PInf)]"]
      demo_traj_ok(2)
    by (simp add: demo_traj_def duration_s_def demo_waypoint_def)
qed

end
