(* ===== verification/Trajectory_Run.thy ===== *)
theory Trajectory_Run
  imports Command_Line Trajectory Position_Mode
begin

section \<open>trajectory\_run\<close>

text \<open>
  \<open>apps/trajectory_run.cpp\<close>: its options and checks, the plan it makes from the entry configuration, and
  the publisher thread, one tick at a time. The times at which the publisher wakes and what it then finds
  in the snapshot are its input.
\<close>

subsection \<open>Options\<close>

record traj_options = run_options +
  tj_duration_set :: bool
  tj_joint :: int
  tj_delta :: dbl
  tj_speed :: dbl
  tj_leash :: dbl
  tj_tick_hz :: dbl
  tj_path_tol :: dbl
  tj_no_guard :: bool
  tj_speed_scale :: dbl
  tj_scale_at_t :: dbl
  tj_scale_at_s :: dbl

definition traj_options0 :: traj_options where
  "traj_options0 = run_options.extend (run_options0 (Fin 0))
     \<lparr>tj_duration_set = False, tj_joint = -1, tj_delta = Fin 0, tj_speed = Fin (1 / 5), tj_leash = Fin (35 / 100),
      tj_tick_hz = Fin 250, tj_path_tol = Fin (1 / 5), tj_no_guard = False, tj_speed_scale = Fin 1,
      tj_scale_at_t = Fin (-1), tj_scale_at_s = Fin 1\<rparr>"

text \<open>\<open>--scale-at T:S\<close>.\<close>

definition scale_at_opt :: "library \<Rightarrow> traj_options opt" where
  "scale_at_opt lb = OptValue (\<lambda>v c.
     (case dropWhile (\<lambda>x. x \<noteq> CHR '':'') v of
        [] \<Rightarrow> Inl (Ended 2)
      | _ # s \<Rightarrow> (case (lb_stod lb (takeWhile (\<lambda>x. x \<noteq> CHR '':'') v), lb_stod lb s) of
                     (Some (t, _), Some (x, _)) \<Rightarrow> Inr (c\<lparr>tj_scale_at_t := t, tj_scale_at_s := x\<rparr>)
                   | _ \<Rightarrow> Inl Crashed)))"

definition tj_table :: "library \<Rightarrow> string \<Rightarrow> traj_options opt" where
  "tj_table lb a =
     (if a = ''--duration'' then num_opt lb (\<lambda>x c. c\<lparr>op_duration := x, tj_duration_set := True\<rparr>)
      else if a = ''--joint'' then int_opt lb (\<lambda>n c. c\<lparr>tj_joint := n\<rparr>)
      else if a = ''--delta'' then num_opt lb (\<lambda>x c. c\<lparr>tj_delta := x\<rparr>)
      else if a = ''--speed'' then num_opt lb (\<lambda>x c. c\<lparr>tj_speed := x\<rparr>)
      else if a = ''--leash'' then num_opt lb (\<lambda>x c. c\<lparr>tj_leash := x\<rparr>)
      else if a = ''--tick-rate'' then num_opt lb (\<lambda>x c. c\<lparr>tj_tick_hz := x\<rparr>)
      else if a = ''--path-tol'' then num_opt lb (\<lambda>x c. c\<lparr>tj_path_tol := x\<rparr>)
      else if a = ''--no-guard'' then OptFlag (\<lambda>c. c\<lparr>tj_no_guard := True\<rparr>)
      else if a = ''--speed-scale'' then num_opt lb (\<lambda>x c. c\<lparr>tj_speed_scale := x\<rparr>)
      else if a = ''--scale-at'' then scale_at_opt lb
      else shared_opt lb (model_names @ [''--dry-run'', ''--csv'']) a)"

definition bad_scale :: "dbl \<Rightarrow> bool" where
  "bad_scale s \<longleftrightarrow> \<not> isfinite s \<or> s < kMinSpeedScale \<or> Fin 1 < s"

definition tj_refused :: "traj_options \<Rightarrow> bool" where
  "tj_refused c \<longleftrightarrow> base_refused c \<or> 7 \<le> tj_joint c \<or> (tj_joint c < 0 \<and> tj_joint c \<noteq> -1) \<or>
     (tj_delta c \<noteq> Fin 0 \<and> tj_joint c < 0) \<or> tj_speed c \<le> Fin 0 \<or> (tj_duration_set c \<and> op_duration c \<le> Fin 0) \<or>
     (\<not> tj_no_guard c \<and> tj_path_tol c \<le> Fin 0) \<or> bad_scale (tj_speed_scale c) \<or>
     (Fin 0 \<le> tj_scale_at_t c \<and> bad_scale (tj_scale_at_s c))"

definition tj_conversation :: conversation where
  "tj_conversation = \<lparr>cv_dry_loop = False, cv_reads_entry = True, cv_stop_code = Some 0\<rparr>"

definition tj_start :: "library \<Rightarrow> string list \<Rightarrow> ended + (traj_options \<times> dynamics \<times> connection)" where
  "tj_start lb argv = start_program lb (tj_table lb) tj_refused traj_options0 argv"

definition tj_session :: "'t transport_ops \<Rightarrow> bool \<Rightarrow> (joint_feedback \<Rightarrow> 't \<Rightarrow> int option \<times> 't) \<Rightarrow> traj_options \<Rightarrow> 't \<Rightarrow> (ended \<times> 't) option" where
  "tj_session ops stopped run c = run_program ops tj_conversation 0 stopped run c"

subsection \<open>The plan\<close>

definition tj_target :: "traj_options \<Rightarrow> jointvec \<Rightarrow> jointvec" where
  "tj_target c q = (if 0 \<le> tj_joint c then vupd q (nat (tj_joint c)) (vnth q (nat (tj_joint c)) + tj_delta c) else q)"

definition tj_duration :: "traj_options \<Rightarrow> dbl" where
  "tj_duration c =
     (if tj_duration_set c then op_duration c
      else if tj_delta c \<noteq> Fin 0 then abs (tj_delta c) / (Fin (8 / 10) * tj_speed c) else Fin 4)"

definition tj_peak :: "traj_options \<Rightarrow> dbl" where
  "tj_peak c = (if Fin 0 < tj_duration c then abs (tj_delta c) / tj_duration c else Fin 0)"

definition tj_waypoint :: "jointvec \<Rightarrow> dbl \<Rightarrow> joint_waypoint" where
  "tj_waypoint q t = \<lparr>wp_q = q, wp_t_s = t, wp_qd = vzero, wp_qdd = vzero\<rparr>"

definition tj_trajectory :: "traj_options \<Rightarrow> jointvec \<Rightarrow> trajectory" where
  "tj_trajectory c q =
     \<lparr>tr_points = [tj_waypoint q (Fin 0), tj_waypoint (tj_target c q) (tj_duration c)], tr_has_velocities = False, tr_has_accelerations = False\<rparr>"

definition tj_params :: "traj_options \<Rightarrow> position_params" where
  "tj_params c = position_params0\<lparr>pp_max_ref_speed := vconst (tj_speed c), pp_max_following_error := tj_leash c\<rparr>"

subsection \<open>The publisher\<close>

record publisher =
  pb_exec :: traj_exec
  pb_q :: jointvec
  pb_slewed :: dbl
  pb_last_now :: dbl

definition tj_tol :: "traj_options \<Rightarrow> jointvec" where
  "tj_tol c = (if tj_no_guard c then vconst (Fin (-1)) else vconst (tj_path_tol c))"

text \<open>\<open>None\<close>: the trajectory was refused, the run stops.\<close>

definition pb_start :: "traj_options \<Rightarrow> jointvec \<Rightarrow> publisher option" where
  "pb_start c q =
     (let (r, e) = submit (traj_exec_init (vconst False)) (tj_trajectory c q) KPosition KLatestWins (tj_tol c) (tj_speed_scale c)
      in if r = SrAccepted then Some \<lparr>pb_exec = e, pb_q = q, pb_slewed = Fin 1, pb_last_now = Fin 0\<rparr> else None)"

definition pb_override :: "traj_options \<Rightarrow> dbl \<Rightarrow> dbl" where
  "pb_override c now = (if Fin 0 \<le> tj_scale_at_t c \<and> tj_scale_at_t c \<le> now then tj_scale_at_s c else Fin 1)"

definition pb_step :: "traj_options \<Rightarrow> dbl \<Rightarrow> joint_feedback option \<Rightarrow> publisher \<Rightarrow> (exec_status \<times> joint_target option \<times> publisher) option" where
  "pb_step c now seen p =
     (let q = (case seen of Some fb \<Rightarrow> fb_q fb | None \<Rightarrow> pb_q p);
          slewed = slew_scale (pb_slewed p) (pb_override c now) (now - pb_last_now p)
      in map_option (\<lambda>(st, r, e). (st, r, \<lparr>pb_exec = e, pb_q = q, pb_slewed = slewed, pb_last_now = now\<rparr>))
           (tick (pb_exec p) now q slewed))"

text \<open>What it publishes, wake-up by wake-up, until the executor completes.\<close>

fun pb_loop :: "traj_options \<Rightarrow> (dbl \<times> joint_feedback option) list \<Rightarrow> publisher \<Rightarrow> ((dbl \<times> joint_target) list \<times> publisher) option" where
  "pb_loop c [] p = Some ([], p)"
| "pb_loop c ((now, seen) # rest) p =
     do { (st, r, p1) \<leftarrow> pb_step c now seen p;
          (refs, p2) \<leftarrow> (if es_completed st then Some ([], p1) else pb_loop c rest p1);
          Some ((case r of Some ref \<Rightarrow> [(now, ref)] | None \<Rightarrow> []) @ refs, p2) }"


subsection \<open>What it publishes\<close>

definition moved :: "traj_options \<Rightarrow> real \<Rightarrow> nat \<Rightarrow> real" where
  "moved c d i = (if int i = tj_joint c then d else 0)"

lemma tj_target_nth:
  assumes "i < 7" "vfinite q" "tj_delta c = Fin d" "tj_joint c < 7"
  shows "vnth (tj_target c q) i = Fin (dval (vnth q i) + moved c d i)"
proof -
  obtain x where x: "vnth q i = Fin x" using assms(1,2) vfiniteD isfinite_iff by blast
  show ?thesis
  proof (cases "0 \<le> tj_joint c")
    case True
    then have "nat (tj_joint c) = i \<longleftrightarrow> int i = tj_joint c" by auto
    then show ?thesis using True assms x by (auto simp: tj_target_def moved_def)
  qed (use x in \<open>auto simp: tj_target_def moved_def\<close>)
qed

text \<open>How far along the segment the trajectory clock is.\<close>

definition along :: "real \<Rightarrow> real \<Rightarrow> real" where
  "along D x = min 1 (max 0 (x / D))"

lemma along_slow: "0 < D \<Longrightarrow> \<bar>along D y - along D x\<bar> \<le> \<bar>y - x\<bar> / D"
proof -
  assume D: "0 < D"
  have "\<bar>along D y - along D x\<bar> \<le> \<bar>y / D - x / D\<bar>" by (auto simp: along_def)
  also have "\<dots> = \<bar>y - x\<bar> / D" using D by (simp add: diff_divide_distrib [symmetric] abs_divide)
  finally show ?thesis .
qed

lemma sample_two_points:
  assumes "vfinite q" "tj_delta c = Fin d" "tj_joint c < 7" "tj_duration c = Fin D" "0 < D"
  shows "\<exists>ref. sample_target (tj_trajectory c q) (Fin x) = Some ref \<and>
     (\<forall>i < 7. vnth (jt_q ref) i = Fin (dval (vnth q i) + moved c d i * along D x))"
proof -
  let ?a = "tj_waypoint q (Fin 0)" and ?b = "tj_waypoint (tj_target c q) (tj_duration c)"
  have q: "vnth q i = Fin (dval (vnth q i))" if "i < 7" for i using assms(1) that by (metis vfiniteD isfinite_iff dval_Fin)
  note target = tj_target_nth [OF _ assms(1,2,3)]
  consider "x \<le> 0" | "D \<le> x" "0 < x" | "0 < x" "x < D" by linarith
  then show ?thesis
  proof cases
    case 1
    then have "along D x = 0" using assms(5) by (simp add: along_def divide_nonpos_pos)
    then show ?thesis using 1 q by (auto simp: sample_target_def tj_trajectory_def tj_waypoint_def)
  next
    case 2
    then have "along D x = 1" using assms(5) by (simp add: along_def)
    then show ?thesis using 2 target assms(4) by (auto simp: sample_target_def tj_trajectory_def tj_waypoint_def)
  next
    case 3
    then have al: "along D x = x / D" by (simp add: along_def)
    have ub: "upper_bound [?a, ?b] (Fin x) = 1" using 3 assms(4) by (simp add: upper_bound_def tj_waypoint_def)
    have "sample_target (tj_trajectory c q) (Fin x) = Some (interpolate False False ?a ?b (Fin x) joint_target0)"
      using 3 assms(4) ub by (simp add: sample_target_def tj_trajectory_def Let_def tj_waypoint_def)
    moreover have "vnth (jt_q (interpolate False False ?a ?b (Fin x) joint_target0)) i = Fin (dval (vnth q i) + moved c d i * along D x)"
      if i: "i < 7" for i
    proof -
      obtain y where y: "vnth q i = Fin y" using q [OF i] by blast
      show ?thesis using i assms(4,5) target [OF i] al
        by (simp add: interpolate_def Let_def tj_waypoint_def lerp_q_def vnth_vgen y)
    qed
    ultimately show ?thesis by blast
  qed
qed


lemma pb_start_SomeD:
  assumes "pb_start c q = Some p"
  shows "\<exists>D. tj_duration c = Fin D \<and> 0 < D" and "pb_slewed p = Fin 1" and "pb_last_now p = Fin 0"
    and "te_active (pb_exec p) = Some \<lparr>ea_tr = tj_trajectory c q, ea_traj_t = Fin 0, ea_last_now_s = Fin 0, ea_started = False\<rparr>"
    and "te_continuous (pb_exec p) = vconst False" "te_path_tol (pb_exec p) = tj_tol c"
proof -
  obtain r e where s: "submit (traj_exec_init (vconst False)) (tj_trajectory c q) KPosition KLatestWins (tj_tol c) (tj_speed_scale c) = (r, e)"
    by fastforce
  have r: "r = SrAccepted" and p: "p = \<lparr>pb_exec = e, pb_q = q, pb_slewed = Fin 1, pb_last_now = Fin 0\<rparr>"
    using assms s by (auto simp: pb_start_def split: if_splits)
  have "valid_timestamps (tj_trajectory c q)" "e = exec_start (tj_trajectory c q) (tj_tol c) (tj_speed_scale c) ((traj_exec_init (vconst False))\<lparr>te_mode := KPosition\<rparr>)"
    using s r by (auto simp: submit_def traj_exec_init_def is_active_def split: if_splits)
  then show "te_active (pb_exec p) = Some \<lparr>ea_tr = tj_trajectory c q, ea_traj_t = Fin 0, ea_last_now_s = Fin 0, ea_started = False\<rparr>"
    and "\<exists>D. tj_duration c = Fin D \<and> 0 < D"
    by (auto simp: p exec_start_def valid_timestamps_def tj_trajectory_def tj_waypoint_def kMinSegmentSpanSec_def isfinite_iff)
  show "pb_slewed p = Fin 1" "pb_last_now p = Fin 0" by (simp_all add: p)
  show "te_continuous (pb_exec p) = vconst False" "te_path_tol (pb_exec p) = tj_tol c"
    using s r by (auto simp: p submit_def exec_start_def traj_exec_init_def is_active_def split: if_splits)
qed

text \<open>A publisher under way: woken last at \<open>n\<close>, its trajectory clock at \<open>x\<close>.\<close>

definition going :: "traj_options \<Rightarrow> jointvec \<Rightarrow> real \<Rightarrow> real \<Rightarrow> publisher \<Rightarrow> bool" where
  "going c q n x p \<longleftrightarrow> (\<exists>a. te_active (pb_exec p) = Some a \<and> ea_tr a = tj_trajectory c q \<and> ea_started a \<and>
     ea_last_now_s a = Fin n \<and> ea_traj_t a = Fin x)"

definition ref_along :: "traj_options \<Rightarrow> jointvec \<Rightarrow> real \<Rightarrow> real \<Rightarrow> real \<Rightarrow> joint_target \<Rightarrow> bool" where
  "ref_along c q d D x ref \<longleftrightarrow> (\<forall>i < 7. vnth (jt_q ref) i = Fin (dval (vnth q i) + moved c d i * along D x))"

definition plan_ok :: "traj_options \<Rightarrow> jointvec \<Rightarrow> real \<Rightarrow> real \<Rightarrow> bool" where
  "plan_ok c q d D \<longleftrightarrow> vfinite q \<and> tj_delta c = Fin d \<and> tj_joint c < 7 \<and> tj_duration c = Fin D \<and> 0 < D"

lemma pb_step_active:
  assumes ok: "plan_ok c q d D" and "te_active (pb_exec p) = Some a" "ea_tr a = tj_trajectory c q" "pb_step c (Fin n) seen p = Some (st, r, p')"
    and x: "ea_traj_t (ticked_active (pb_exec p) (Fin n) (slew_scale (pb_slewed p) (pb_override c (Fin n)) (Fin n - pb_last_now p)) a) = Fin x"
  shows "\<exists>ref. r = Some ref \<and> ref_along c q d D x ref \<and> (es_completed st \<or> going c q n x p')"
proof -
  let ?ov = "slew_scale (pb_slewed p) (pb_override c (Fin n)) (Fin n - pb_last_now p)"
  note act = assms(2) and tr = assms(3)
  obtain e qm where t: "tick (pb_exec p) (Fin n) qm ?ov = Some (st, r, e)" and p': "pb_exec p' = e"
    using assms(4) by (auto simp: pb_step_def Let_def)
  obtain raw where raw: "sample_target (tj_trajectory c q) (Fin x) = Some raw"
    and r: "r = Some (scale_profile (effective_scale (te_scale (pb_exec p)) ?ov) raw)"
    and left: "te_active e = None \<or> te_active e = Some (ticked_active (pb_exec p) (Fin n) ?ov a)" and comp: "es_completed st = (te_active e = None)"
    using tick_active_SomeD [OF act t] x tr by (auto split: if_splits)
  have "ref_along c q d D x raw" using sample_two_points [of q c d D x] raw ok by (auto simp: ref_along_def plan_ok_def)
  moreover have "going c q n x p'" if "te_active e \<noteq> None"
    using that left tr x by (auto simp: going_def p' ticked_active_def)
  ultimately show ?thesis using r comp by (auto simp: ref_along_def scale_profile_def)
qed

lemma pb_step_going:
  assumes ok: "plan_ok c q d D" and "going c q n x p" "n \<le> n'" "pb_step c (Fin n') seen p = Some (st, r, p')"
  shows "\<exists>ref x'. r = Some ref \<and> x \<le> x' \<and> x' \<le> x + (n' - n) \<and> ref_along c q d D x' ref \<and> (es_completed st \<or> going c q n' x' p')"
proof -
  let ?ov = "slew_scale (pb_slewed p) (pb_override c (Fin n')) (Fin n' - pb_last_now p)"
  obtain a where a: "te_active (pb_exec p) = Some a" "ea_tr a = tj_trajectory c q" "ea_started a" "ea_last_now_s a = Fin n" "ea_traj_t a = Fin x"
    using assms(2) by (auto simp: going_def)
  obtain s where s: "effective_scale (te_scale (pb_exec p)) ?ov = Fin s" "1 / 100 \<le> s" "s \<le> 1" using effective_scale_bounds by blast
  define x' where "x' = (if n < n' then x + (n' - n) * s else x)"
  have x': "ea_traj_t (ticked_active (pb_exec p) (Fin n') ?ov a) = Fin x'"
    using a s(1) by (auto simp: ticked_active_def start_clock_def advance_clock_def Let_def x'_def)
  have "0 \<le> (n' - n) * s" "(n' - n) * s \<le> n' - n" using assms(3) s(2,3) by (simp_all add: mult_left_le)
  then have "x \<le> x'" "x' \<le> x + (n' - n)" using assms(3) by (auto simp: x'_def)
  then show ?thesis using pb_step_active [OF ok a(1,2) assms(4) x'] by blast
qed

text \<open>From one published reference to the next, no joint moves faster than \<open>d / D\<close>.\<close>

definition slow :: "traj_options \<Rightarrow> real \<Rightarrow> real \<Rightarrow> dbl \<times> joint_target \<Rightarrow> dbl \<times> joint_target \<Rightarrow> bool" where
  "slow c d D u w \<longleftrightarrow>
     (\<forall>i < 7. \<bar>dval (vnth (jt_q (snd w)) i) - dval (vnth (jt_q (snd u)) i)\<bar> \<le> \<bar>moved c d i\<bar> / D * (dval (fst w) - dval (fst u)))"

lemma ref_along_slow:
  assumes "0 < D" "ref_along c q d D x r" "ref_along c q d D x' r'" "x \<le> x'" "x' \<le> x + (n' - n)"
  shows "slow c d D (Fin n, r) (Fin n', r')"
  unfolding slow_def
proof (intro allI impI)
  fix i :: nat assume i: "i < 7"
  let ?m = "moved c d i"
  have "\<bar>?m * along D x' - ?m * along D x\<bar> = \<bar>?m\<bar> * \<bar>along D x' - along D x\<bar>"
    by (simp add: abs_mult [symmetric] right_diff_distrib)
  also have "\<dots> \<le> \<bar>?m\<bar> * (\<bar>x' - x\<bar> / D)" by (rule mult_left_mono [OF along_slow [OF assms(1)]]) simp
  also have "\<dots> \<le> \<bar>?m\<bar> * ((n' - n) / D)" using assms(1,4,5) by (intro mult_left_mono divide_right_mono) auto
  finally show "\<bar>dval (vnth (jt_q (snd (Fin n', r'))) i) - dval (vnth (jt_q (snd (Fin n, r))) i)\<bar> \<le> \<bar>?m\<bar> / D * (dval (fst (Fin n', r')) - dval (fst (Fin n, r)))"
    using assms(2,3) i by (simp add: ref_along_def)
qed

lemma pb_loop_slow:
  assumes ok: "plan_ok c q d D" and "going c q n x p" "ref_along c q d D x r" "sorted (n # map fst ts)"
    "pb_loop c (map (\<lambda>(t, s). (Fin t, s)) ts) p = Some (refs, p')"
  shows "successively (slow c d D) ((Fin n, r) # refs)"
  using assms(2-)
proof (induction ts arbitrary: n x p r refs)
  case (Cons u ts)
  obtain n' seen where u: "u = (n', seen)" by (cases u)
  from Cons.prems(4) obtain st out p1 rs where s: "pb_step c (Fin n') seen p = Some (st, out, p1)"
    and l: "(if es_completed st then Some ([], p1) else pb_loop c (map (\<lambda>(t, s). (Fin t, s)) ts) p1) = Some (rs, p')"
    and refs: "refs = (case out of Some ref \<Rightarrow> [(Fin n', ref)] | None \<Rightarrow> []) @ rs"
    by (auto simp: u bind_eq_Some_conv)
  have le: "n \<le> n'" "sorted (n' # map fst ts)" using Cons.prems(3) by (simp_all add: u)
  obtain ref x' where step: "out = Some ref" "x \<le> x'" "x' \<le> x + (n' - n)" "ref_along c q d D x' ref" "es_completed st \<or> going c q n' x' p1"
    using pb_step_going [OF ok Cons.prems(1) le(1) s] by blast
  have D: "0 < D" using ok by (simp add: plan_ok_def)
  have "successively (slow c d D) ((Fin n', ref) # rs)"
  proof (cases "es_completed st")
    case False
    then have "going c q n' x' p1" "pb_loop c (map (\<lambda>(t, s). (Fin t, s)) ts) p1 = Some (rs, p')" using step(5) l by simp_all
    then show ?thesis by (rule Cons.IH [OF _ step(4) le(2)])
  qed (use l in simp)
  then show ?case using ref_along_slow [OF D Cons.prems(2) step(4) step(2,3)] refs step(1) by simp
qed simp

text \<open>
  Claim C34. The arm is asked for no more than the plan prints. For every accepted command line with a
  finite displacement, from a finite entry configuration, whatever the publisher then reads and
  whenever it wakes: the first reference is the entry configuration; from one reference to the next
  only the chosen joint moves, at most with the peak velocity of the plan over the time between them,
  under every speed scale and override; and an automatically timed plan has its peak at no more than
  0.8 of \<open>--speed\<close>.
\<close>

theorem trajectory_run_slow:
  assumes acc: "\<not> tj_refused c" and d: "tj_delta c = Fin d" and q: "vfinite q" and p: "pb_start c q = Some p"
    and l: "sorted (map fst ts)" "pb_loop c (map (\<lambda>(t, s). (Fin t, s)) ts) p = Some (refs, p')"
  shows "\<exists>peak. tj_peak c = Fin peak \<and>
    (refs \<noteq> [] \<longrightarrow> (\<forall>i < 7. vnth (jt_q (snd (hd refs))) i = vnth q i)) \<and>
    successively (\<lambda>u w. \<forall>i < 7. \<bar>dval (vnth (jt_q (snd w)) i) - dval (vnth (jt_q (snd u)) i)\<bar>
        \<le> (if int i = tj_joint c then peak else 0) * (dval (fst w) - dval (fst u))) refs \<and>
    (\<not> tj_duration_set c \<longrightarrow> (\<forall>v. tj_speed c = Fin v \<longrightarrow> peak \<le> 8 / 10 * v))"
proof -
  obtain D where D: "tj_duration c = Fin D" "0 < D" using pb_start_SomeD(1) [OF p] by blast
  have j: "tj_joint c < 7" using acc by (simp add: tj_refused_def)
  have ok: "plan_ok c q d D" using d q D j by (simp add: plan_ok_def)
  have peak: "tj_peak c = Fin (\<bar>d\<bar> / D)" using d D by (simp add: tj_peak_def)
  have first: "\<exists>ref. hd refs = (Fin n, ref) \<and> ref_along c q d D 0 ref \<and> successively (slow c d D) refs" if "ts = (n, seen) # ts'" for n seen ts'
  proof -
    from l(2) that obtain st out p1 rs where s: "pb_step c (Fin n) seen p = Some (st, out, p1)"
      and r: "(if es_completed st then Some ([], p1) else pb_loop c (map (\<lambda>(t, s). (Fin t, s)) ts') p1) = Some (rs, p')"
      and refs: "refs = (case out of Some ref \<Rightarrow> [(Fin n, ref)] | None \<Rightarrow> []) @ rs"
      by (auto simp: bind_eq_Some_conv)
    have "\<exists>ref. out = Some ref \<and> ref_along c q d D 0 ref \<and> (es_completed st \<or> going c q n 0 p1)"
      by (rule pb_step_active [OF ok pb_start_SomeD(4) [OF p] _ s]) (simp_all add: ticked_active_def start_clock_def advance_clock_def)
    then obtain ref where ref: "out = Some ref" "ref_along c q d D 0 ref" "es_completed st \<or> going c q n 0 p1" by blast
    have "successively (slow c d D) ((Fin n, ref) # rs)"
    proof (cases "es_completed st")
      case False
      then show ?thesis using pb_loop_slow [OF ok _ ref(2)] ref(3) r l(1) that by simp
    qed (use r in simp)
    then show ?thesis using ref refs by auto
  qed
  have entry: "\<forall>i < 7. vnth (jt_q r) i = vnth q i" if "ref_along c q d D 0 r" for r
    using that q by (auto simp: ref_along_def along_def) (metis vfiniteD isfinite_iff dval_Fin)
  have slow: "successively (slow c d D) refs"
    by (cases ts) (use l(2) first in auto)
  have speed: "\<bar>d\<bar> / D \<le> 8 / 10 * v" if "\<not> tj_duration_set c" "tj_speed c = Fin v" for v
  proof (cases "d = 0")
    case False
    have v: "0 < v" using acc that(2) by (simp add: tj_refused_def)
    then have "D = \<bar>d\<bar> / (8 / 10 * v)" using D(1) d that False by (simp add: tj_duration_def)
    then have "\<bar>d\<bar> = 8 / 10 * v * D" using v by (simp add: field_simps)
    then show ?thesis using D(2) by simp
  qed (use acc that in \<open>simp add: tj_refused_def\<close>)
  have "refs \<noteq> [] \<longrightarrow> (\<forall>i < 7. vnth (jt_q (snd (hd refs))) i = vnth q i)"
  proof (cases ts)
    case (Cons a ts')
    then show ?thesis using first [of "fst a" "snd a" ts'] entry by auto
  qed (use l(2) in simp)
  moreover have "successively (\<lambda>u w. \<forall>i < 7. \<bar>dval (vnth (jt_q (snd w)) i) - dval (vnth (jt_q (snd u)) i)\<bar>
        \<le> (if int i = tj_joint c then \<bar>d\<bar> / D else 0) * (dval (fst w) - dval (fst u))) refs"
  proof -
    have m: "(if int i = tj_joint c then \<bar>d\<bar> / D else 0) = \<bar>moved c d i\<bar> / D" for i by (simp add: moved_def)
    show ?thesis using slow unfolding m slow_def [abs_def] .
  qed
  ultimately show ?thesis using peak speed by (intro exI [of _ "\<bar>d\<bar> / D"] conjI) simp_all
qed


text \<open>The publisher always returns: no wake-up time and no measured configuration makes it hang.\<close>

lemma tj_trajectory_finite: "plan_ok c q d D \<Longrightarrow> finite_traj (tj_trajectory c q)"
proof -
  assume ok: "plan_ok c q d D"
  then have "vfinite (tj_target c q)" using tj_target_nth [of _ q c d] by (auto simp: vfinite_def plan_ok_def list_all_iff)
  then show ?thesis using ok by (auto simp: finite_traj_def finite_waypoint_def tj_trajectory_def tj_waypoint_def plan_ok_def)
qed

lemma pb_loop_returns:
  assumes "exec_reach contin (pb_exec p)" "\<And>a. te_active (pb_exec p) = Some a \<Longrightarrow> ea_tr a = tr" "finite_traj tr"
    and "vfinite (pb_q p)" "\<And>now fb. (now, Some fb) \<in> set ts \<Longrightarrow> vfinite (fb_q fb)"
  shows "\<exists>refs p'. pb_loop c ts p = Some (refs, p')"
  using assms(1,2,4,5)
proof (induction ts arbitrary: p)
  case (Cons u ts)
  obtain now seen where u: "u = (now, seen)" by (cases u)
  let ?q = "case seen of Some fb \<Rightarrow> fb_q fb | None \<Rightarrow> pb_q p"
  let ?ov = "slew_scale (pb_slewed p) (pb_override c now) (now - pb_last_now p)"
  have q: "vfinite ?q" using Cons.prems(3,4) u by (auto split: option.split)
  obtain st r e where t: "tick (pb_exec p) now ?q ?ov = Some (st, r, e)"
    and k: "\<forall>a a'. te_active (pb_exec p) = Some a \<longrightarrow> te_active e = Some a' \<longrightarrow> ea_tr a' = ea_tr a"
    using tick_returns [OF Cons.prems(1) q] Cons.prems(2) assms(3) by blast
  let ?p = "\<lparr>pb_exec = e, pb_q = ?q, pb_slewed = ?ov, pb_last_now = now\<rparr>"
  have step: "pb_step c now seen p = Some (st, r, ?p)" using t by (simp add: pb_step_def Let_def)
  have same: "ea_tr a = tr" if "te_active e = Some a" for a
  proof (cases "te_active (pb_exec p)")
    case None
    then show ?thesis using t that by (simp add: tick_idle)
  next
    case (Some a0)
    then show ?thesis using k that Cons.prems(2) by metis
  qed
  have "\<exists>refs p'. pb_loop c ts ?p = Some (refs, p')"
    by (rule Cons.IH) (use exec_reach.tick [OF Cons.prems(1) t] same q Cons.prems(4) in auto)
  then show ?case using step by (auto simp: u)
qed simp

lemma pb_start_reach: "pb_start c q = Some p \<Longrightarrow> exec_reach (vconst False) (pb_exec p) \<and> pb_q p = q"
  using exec_reach.submit [OF exec_reach.init, of "vconst False"]
  by (auto simp: pb_start_def Let_def split: prod.splits if_splits) (metis snd_conv)+

definition demo_traj_options :: traj_options where
  "demo_traj_options = traj_options0\<lparr>op_urdf := ''arm.urdf'', op_ip := ''192.168.1.10'', tj_joint := 5, tj_delta := Fin (1 / 5)\<rparr>"

lemma demo_traj_options_ok:
  "\<not> tj_refused demo_traj_options" "tj_delta demo_traj_options = Fin (1 / 5)" "tj_duration demo_traj_options = Fin (5 / 4)"
  "\<exists>p. pb_start demo_traj_options vzero = Some p"
proof -
  let ?c = demo_traj_options
  show "\<not> tj_refused ?c"
    by (simp add: tj_refused_def demo_traj_options_def traj_options0_def run_options0_def run_options.defs base_refused_def pacing_of_def
        bad_scale_def kMinSpeedScale_def)
  show d: "tj_delta ?c = Fin (1 / 5)" by (simp add: demo_traj_options_def)
  show D: "tj_duration ?c = Fin (5 / 4)" by (simp add: tj_duration_def demo_traj_options_def traj_options0_def run_options.defs)
  show "\<exists>p. pb_start ?c vzero = Some p"
    by (simp add: pb_start_def submit_def tj_trajectory_def valid_timestamps_def tj_waypoint_def D kMinSegmentSpanSec_def is_active_def traj_exec_init_def Let_def)
      (simp add: demo_traj_options_def traj_options0_def run_options.defs kMinSpeedScale_def)
qed

theorem trajectory_run_slow_witness:
  "\<exists>refs p'. pb_loop demo_traj_options [(Fin 0, None), (Fin (1 / 2), None)] (the (pb_start demo_traj_options vzero)) = Some (refs, p') \<and>
     (refs \<noteq> [] \<longrightarrow> (\<forall>i < 7. vnth (jt_q (snd (hd refs))) i = Fin 0))"
proof -
  let ?c = demo_traj_options and ?ts = "[(0, None), (1 / 2, None)] :: (real \<times> joint_feedback option) list"
  obtain p where p: "pb_start ?c vzero = Some p" using demo_traj_options_ok(4) by blast
  have q: "vfinite vzero" by simp
  have ok: "plan_ok ?c vzero (1 / 5) (5 / 4)"
    using q demo_traj_options_ok by (simp add: plan_ok_def) (simp add: demo_traj_options_def)
  have r: "exec_reach (vconst False) (pb_exec p)" "pb_q p = vzero" using pb_start_reach [OF p] by simp_all
  obtain refs p' where l: "pb_loop ?c (map (\<lambda>(t, s). (Fin t, s)) ?ts) p = Some (refs, p')"
    using pb_loop_returns [OF r(1) _ tj_trajectory_finite [OF ok], of "map (\<lambda>(t, s). (Fin t, s)) ?ts" ?c] pb_start_SomeD(4) [OF p] r(2) q by auto
  have "sorted (map fst ?ts)" by simp
  from trajectory_run_slow [OF demo_traj_options_ok(1,2) q p this l] l p show ?thesis by auto
qed

text \<open>
  The executor is built without the continuous joints: its guard compares angles as they are, and a
  continuous joint that passes half a turn, whose measured angle then jumps by a whole one, is seen as
  having left the path although it is exactly on it.
\<close>

lemma wrapped_joint_seen_as_diverged:
  assumes p: "pb_start c q = Some p" and tol: "\<not> tj_no_guard c" "tj_path_tol c = Fin x" "0 < x" "x < 2 * pi_r"
    and q: "vfinite m" "vfinite r" and i: "i < 7" "vnth m i = Fin (dval (vnth r i) - 2 * pi_r)"
  shows "path_diverged (te_continuous (pb_exec p)) (te_path_tol (pb_exec p)) m r [0..<7] = Some True"
proof -
  have e: "te_continuous (pb_exec p) = vconst False" "te_path_tol (pb_exec p) = vconst (Fin x)"
    using pb_start_SomeD(5,6) [OF p] tol by (simp_all add: tj_tol_def)
  obtain d where d: "path_diverged (te_continuous (pb_exec p)) (te_path_tol (pb_exec p)) m r [0..<7] = Some d"
    using path_diverged_finite [OF q, of "[0..<7]"] by auto
  obtain y where y: "vnth r i = Fin y" using q(2) i(1) vfiniteD isfinite_iff by blast
  have "joint_err (vconst False) m r i = Fin (- (2 * pi_r))" using i y by (simp add: joint_err_def wrap_if_def)
  moreover have "d \<longleftrightarrow> (\<exists>i \<in> set [0..<7]. Fin 0 < vnth (tj_tol c) i \<and> vnth (tj_tol c) i < abs (joint_err (vconst False) m r i))"
    using path_diverged_iff [OF d q] pb_start_SomeD(5,6) [OF p] by simp
  ultimately have "d" using i(1) tol by (auto simp: tj_tol_def Bex_def)
  then show ?thesis using d by simp
qed

end
