(* ===== verification/Joint_Position_Check.thy ===== *)
theory Joint_Position_Check
  imports Command_Line Position_Mode
begin

section \<open>joint\_position\_check\<close>

text \<open>
  \<open>apps/joint_position_check.cpp\<close>: options and checks, the scripted sequence, and what the publisher
  thread hands to the mode. A waypoint's label is the data its text is printed from.
\<close>

subsection \<open>Options\<close>

record jpos_options = run_options +
  jp_duration_set :: bool
  jp_joint :: int
  jp_delta :: dbl
  jp_speed :: dbl
  jp_leash :: dbl
  jp_sequence :: bool
  jp_from_joint :: int

definition jpos_options0 :: jpos_options where
  "jpos_options0 = run_options.extend (run_options0 (Fin 5))
     \<lparr>jp_duration_set = False, jp_joint = -1, jp_delta = Fin 0, jp_speed = Fin (1 / 5), jp_leash = Fin (35 / 100),
      jp_sequence = False, jp_from_joint = 4\<rparr>"

definition jp_table :: "library \<Rightarrow> string \<Rightarrow> jpos_options opt" where
  "jp_table lb a =
     (if a = ''--duration'' then num_opt lb (\<lambda>x c. c\<lparr>op_duration := x, jp_duration_set := True\<rparr>)
      else if a = ''--sequence'' then OptFlag (\<lambda>c. c\<lparr>jp_sequence := True\<rparr>)
      else if a = ''--from-joint'' then int_opt lb (\<lambda>n c. c\<lparr>jp_from_joint := n\<rparr>)
      else if a = ''--joint'' then int_opt lb (\<lambda>n c. c\<lparr>jp_joint := n\<rparr>)
      else if a = ''--delta'' then num_opt lb (\<lambda>x c. c\<lparr>jp_delta := x\<rparr>)
      else if a = ''--speed'' then num_opt lb (\<lambda>x c. c\<lparr>jp_speed := x\<rparr>)
      else if a = ''--leash'' then num_opt lb (\<lambda>x c. c\<lparr>jp_leash := x\<rparr>)
      else shared_opt lb (model_names @ [''--dry-run'', ''--csv'']) a)"

definition jp_refused :: "jpos_options \<Rightarrow> bool" where
  "jp_refused c \<longleftrightarrow> base_refused c \<or> 7 \<le> jp_joint c \<or> (jp_joint c < 0 \<and> jp_joint c \<noteq> -1) \<or>
     (jp_joint c = -1 \<and> jp_delta c \<noteq> Fin 0 \<and> \<not> jp_sequence c) \<or> (jp_sequence c \<and> 0 \<le> jp_joint c) \<or>
     jp_from_joint c < 0 \<or> 7 \<le> jp_from_joint c"

text \<open>After the checks: a sequence needs some motion.\<close>

definition jp_effective :: "jpos_options \<Rightarrow> jpos_options" where
  "jp_effective c = (if jp_sequence c \<and> jp_delta c = Fin 0 then c\<lparr>jp_delta := Fin (1 / 5)\<rparr> else c)"

definition jp_conversation :: "jpos_options \<Rightarrow> conversation" where
  "jp_conversation c = \<lparr>cv_dry_loop = \<not> jp_sequence c, cv_reads_entry = True, cv_stop_code = None\<rparr>"

definition jp_start :: "library \<Rightarrow> string list \<Rightarrow> ended + (jpos_options \<times> dynamics \<times> connection)" where
  "jp_start lb argv = map_sum id (\<lambda>(c, dyn, t). (jp_effective c, dyn, t)) (start_program lb (jp_table lb) jp_refused jpos_options0 argv)"

definition jp_session :: "'t transport_ops \<Rightarrow> nat \<Rightarrow> bool \<Rightarrow> (joint_feedback \<Rightarrow> 't \<Rightarrow> int option \<times> 't) \<Rightarrow> jpos_options \<Rightarrow> 't \<Rightarrow> (ended \<times> 't) option" where
  "jp_session ops n stopped run c = run_program ops (jp_conversation c) n stopped run c"

definition jp_params :: "jpos_options \<Rightarrow> position_params" where
  "jp_params c = position_params0\<lparr>pp_max_ref_speed := vconst (jp_speed c), pp_max_following_error := jp_leash c\<rparr>"

subsection \<open>The sequence\<close>

datatype seq_label = SlSettle | SlMove nat dbl | SlBack nat | SlHome

record seq_waypoint =
  sw_label :: seq_label
  sw_q :: jointvec
  sw_settle_s :: dbl

definition seq_away :: "jointvec \<Rightarrow> dbl \<Rightarrow> jointvec \<Rightarrow> jointvec \<Rightarrow> nat \<Rightarrow> jointvec" where
  "seq_away home delta lo hi j =
     (let a = vnth home j + delta
      in vupd home j (if isfinite (vnth lo j) \<and> isfinite (vnth hi j) then sclamp a (vnth lo j) (vnth hi j) else a))"

definition seq_moves :: "jointvec \<Rightarrow> dbl \<Rightarrow> jointvec \<Rightarrow> jointvec \<Rightarrow> nat \<Rightarrow> seq_waypoint list" where
  "seq_moves home delta lo hi j =
     (let away = seq_away home delta lo hi j
      in [\<lparr>sw_label = SlMove j (vnth away j - vnth home j), sw_q = away, sw_settle_s = Fin (7 / 10)\<rparr>,
          \<lparr>sw_label = SlBack j, sw_q = home, sw_settle_s = Fin (7 / 10)\<rparr>])"

definition build_sequence :: "jointvec \<Rightarrow> int \<Rightarrow> dbl \<Rightarrow> dbl \<Rightarrow> jointvec \<Rightarrow> jointvec \<Rightarrow> seq_waypoint list" where
  "build_sequence home from_joint delta speed lo hi =
     (let travel = abs delta / smax (Fin (1 / 10 ^ 9)) speed;
          wps = [\<lparr>sw_label = SlSettle, sw_q = home, sw_settle_s = Fin 2\<rparr>] @
                concat (map (seq_moves home delta lo hi) (rev [nat from_joint..<7])) @
                [\<lparr>sw_label = SlHome, sw_q = home, sw_settle_s = Fin 2\<rparr>]
      in map (\<lambda>w. w\<lparr>sw_settle_s := sw_settle_s w + travel\<rparr>) wps)"

definition jp_total :: "seq_waypoint list \<Rightarrow> dbl" where
  "jp_total wps = foldl (\<lambda>t w. t + sw_settle_s w) (Fin 0) wps"

definition jp_target :: "jpos_options \<Rightarrow> jointvec \<Rightarrow> jointvec" where
  "jp_target c q =
     (if \<not> jp_sequence c \<and> 0 \<le> jp_joint c then vupd q (nat (jp_joint c)) (vnth q (nat (jp_joint c)) + jp_delta c) else q)"

text \<open>The watchdog's limit on the run; none when not positive.\<close>

definition jp_run_limit :: "jpos_options \<Rightarrow> seq_waypoint list \<Rightarrow> dbl" where
  "jp_run_limit c wps = (if jp_sequence c \<and> \<not> jp_duration_set c then jp_total wps + Fin 5 else op_duration c)"

subsection \<open>The publisher\<close>

text \<open>\<open>int(settle_s * 20.0)\<close>: slices of 50 ms. What has no \<open>int\<close> is the least one.\<close>

definition slices :: "dbl \<Rightarrow> int" where
  "slices s = (case s * Fin 20 of
       Fin x \<Rightarrow> let r = (if 0 \<le> x then \<lfloor>x\<rfloor> else \<lceil>x\<rceil>) in if - (2 ^ 31) \<le> r \<and> r < 2 ^ 31 then r else - (2 ^ 31)
     | _ \<Rightarrow> - (2 ^ 31))"

text \<open>
  \<open>n\<close> is how often the stop flag is still found clear. The result is the targets set and whether the
  sequence was completed (the publisher then sets the flag itself).
\<close>

fun publish_sequence :: "seq_waypoint list \<Rightarrow> nat \<Rightarrow> jointvec list \<times> bool" where
  "publish_sequence [] n = ([], True)"
| "publish_sequence (w # ws) 0 = ([], False)"
| "publish_sequence (w # ws) (Suc n) =
     (let k = nat (slices (sw_settle_s w))
      in if n < k then ([sw_q w], False)
         else (let (qs, done_all) = publish_sequence ws (n - k) in (sw_q w # qs, done_all)))"

definition jp_publish :: "jpos_options \<Rightarrow> jointvec \<Rightarrow> seq_waypoint list \<Rightarrow> nat \<Rightarrow> jointvec list \<times> bool" where
  "jp_publish c entry wps n =
     (if n = 0 then ([], False)
      else if \<not> jp_sequence c then ([jp_target c entry], False)
      else publish_sequence wps (n - 1))"

subsection \<open>One joint at a time\<close>

definition within_limits :: "jointvec \<Rightarrow> jointvec \<Rightarrow> jointvec \<Rightarrow> bool" where
  "within_limits lo hi q \<longleftrightarrow> (\<forall>i < 7. isfinite (vnth lo i) \<and> isfinite (vnth hi i) \<longrightarrow> vnth lo i \<le> vnth q i \<and> vnth q i \<le> vnth hi i)"

lemma seq_away_close:
  assumes "vfinite home" "within_limits lo hi home" "j < 7" "i < 7"
  shows "\<exists>x. vnth (seq_away home (Fin d) lo hi j) i = Fin x \<and> \<bar>x - dval (vnth home i)\<bar> \<le> (if i = j then \<bar>d\<bar> else 0)"
proof -
  obtain y where y: "vnth home j = Fin y" using assms(1,3) vfiniteD isfinite_iff by blast
  obtain z where z: "vnth home i = Fin z" using assms(1,4) vfiniteD isfinite_iff by blast
  show ?thesis
  proof (cases "i = j \<and> isfinite (vnth lo j) \<and> isfinite (vnth hi j)")
    case True
    then obtain a b where ab: "vnth lo j = Fin a" "vnth hi j = Fin b" by (auto simp: isfinite_iff)
    then have "a \<le> y" "y \<le> b" using assms(2,3) y by (force simp: within_limits_def)+
    then show ?thesis using True ab y assms(3) by (auto simp: seq_away_def Let_def)
  qed (use y z assms(3,4) in \<open>auto simp: seq_away_def Let_def\<close>)
qed

lemma seq_away_limits:
  assumes "vfinite home" "within_limits lo hi home" "j < 7"
  shows "within_limits lo hi (seq_away home (Fin d) lo hi j)"
proof -
  obtain y where y: "vnth home j = Fin y" using assms(1,3) vfiniteD isfinite_iff by blast
  have "vnth lo j \<le> sclamp (Fin (y + d)) (vnth lo j) (vnth hi j) \<and> sclamp (Fin (y + d)) (vnth lo j) (vnth hi j) \<le> vnth hi j"
    if "isfinite (vnth lo j)" "isfinite (vnth hi j)"
  proof (rule sclamp_bounds)
    have "vnth lo j \<le> Fin y" "Fin y \<le> vnth hi j" using that assms(2,3) y by (auto simp: within_limits_def)
    then show "vnth lo j \<le> vnth hi j" using that by (auto simp: isfinite_iff)
  qed simp
  then show ?thesis using assms(2,3) y by (auto simp: within_limits_def seq_away_def Let_def)
qed


text \<open>The shape of a sequence: home, then away and back joint by joint from the wrist, then home.\<close>

definition one_joint :: "jointvec \<Rightarrow> nat \<Rightarrow> real \<Rightarrow> jointvec \<Rightarrow> bool" where
  "one_joint home j b q \<longleftrightarrow> (\<forall>i < 7. \<exists>x. vnth q i = Fin x \<and> \<bar>x - dval (vnth home i)\<bar> \<le> (if i = j then b else 0))"

fun there_and_back :: "jointvec \<Rightarrow> real \<Rightarrow> nat list \<Rightarrow> jointvec list \<Rightarrow> bool" where
  "there_and_back home b [] qs \<longleftrightarrow> qs = [home]"
| "there_and_back home b (j # js) (q # q' # qs) \<longleftrightarrow> one_joint home j b q \<and> q' = home \<and> there_and_back home b js qs"
| "there_and_back home b (j # js) qs \<longleftrightarrow> False"

lemma sequence_moves:
  assumes "vfinite home" "within_limits lo hi home" "\<forall>j \<in> set js. j < 7"
  shows "there_and_back home \<bar>d\<bar> js (map sw_q (concat (map (seq_moves home (Fin d) lo hi) js)) @ [home])"
  using assms(3) seq_away_close [OF assms(1,2), of _ _ d]
  by (induction js) (auto simp: seq_moves_def Let_def one_joint_def)

text \<open>The time given to a waypoint is at least what the mode's speed needs for the way, plus the rest.\<close>

lemma sequence_time:
  assumes "w \<in> set (build_sequence home from_joint (Fin d) (Fin v) lo hi)" "1 / 10 ^ 9 \<le> v"
  shows "\<exists>s. sw_settle_s w = Fin s \<and> \<bar>d\<bar> / v + 7 / 10 \<le> s"
proof -
  have v: "max (1 / 1000000000) v = v" "v \<noteq> 0" using assms(2) by auto
  from assms(1) show ?thesis
    unfolding build_sequence_def Let_def set_map set_append set_concat
    by (auto simp: v seq_moves_def Let_def)
qed

text \<open>
  The scripted sequence does what it tells the operator to watch for. From a finite entry
  configuration within the finite joint limits, with any first joint the program accepts: the arm is
  first asked to stay where it is; then, from the wrist down to the first joint, one joint at a time is
  asked to go away from the start by at most \<open>--delta\<close>, every other joint staying exactly where it was,
  and is then asked back to exactly the start, where the sequence also ends; no waypoint leaves the
  joint limits; and each waypoint is given at least the time the motion needs at \<open>--speed\<close>.
\<close>

theorem sequence_one_joint_at_a_time:
  assumes "jp_sequence c" "jp_delta (jp_effective c) = Fin d" "jp_speed c = Fin v" "vfinite home" "within_limits lo hi home"
    and wps: "build_sequence home (jp_from_joint c) (jp_delta (jp_effective c)) (jp_speed c) lo hi = wps"
  shows "d \<noteq> 0 \<and> (\<exists>qs. map sw_q wps = home # qs \<and> there_and_back home \<bar>d\<bar> (rev [nat (jp_from_joint c)..<7]) qs) \<and>
    (\<forall>w \<in> set wps. within_limits lo hi (sw_q w)) \<and>
    (1 / 10 ^ 9 \<le> v \<longrightarrow> (\<forall>w \<in> set wps. \<exists>s. sw_settle_s w = Fin s \<and> \<bar>d\<bar> / v + 7 / 10 \<le> s))"
proof (intro conjI)
  let ?js = "rev [nat (jp_from_joint c)..<7]"
  have js: "\<forall>j \<in> set ?js. j < 7" by simp
  have qs: "map sw_q wps = home # map sw_q (concat (map (seq_moves home (Fin d) lo hi) ?js)) @ [home]"
    by (simp add: wps [symmetric] assms(2,3) build_sequence_def Let_def comp_def)
  show "d \<noteq> 0" using assms(1,2) by (auto simp: jp_effective_def split: if_splits)
  show "\<exists>qs. map sw_q wps = home # qs \<and> there_and_back home \<bar>d\<bar> ?js qs"
    by (rule exI, rule conjI, rule qs, rule sequence_moves [OF assms(4,5) js])
  have "within_limits lo hi q" if "q \<in> set (map sw_q wps)" for q
    using that assms(5) js seq_away_limits [OF assms(4,5), of _ d] unfolding qs by (auto simp: seq_moves_def Let_def)
  then show "\<forall>w \<in> set wps. within_limits lo hi (sw_q w)" by simp
  show "1 / 10 ^ 9 \<le> v \<longrightarrow> (\<forall>w \<in> set wps. \<exists>s. sw_settle_s w = Fin s \<and> \<bar>d\<bar> / v + 7 / 10 \<le> s)"
    using sequence_time unfolding wps [symmetric] assms(2,3) by blast
qed

theorem sequence_one_joint_at_a_time_witness:
  "\<exists>qs. map sw_q (build_sequence vzero 4 (Fin (1 / 5)) (Fin (1 / 5)) (vconst (Fin (-2))) (vconst (Fin (1 / 10)))) = vzero # qs \<and>
     there_and_back vzero (1 / 5) [6, 5, 4] qs"
proof -
  let ?c = "jpos_options0\<lparr>jp_sequence := True\<rparr>"
  have c: "jp_sequence ?c" "jp_delta (jp_effective ?c) = Fin (1 / 5)" "jp_speed ?c = Fin (1 / 5)" "jp_from_joint ?c = 4"
    by (simp_all add: jp_effective_def jpos_options0_def run_options.defs)
  have "vfinite vzero" "within_limits (vconst (Fin (-2))) (vconst (Fin (1 / 10))) vzero" by (simp_all add: within_limits_def)
  moreover have "rev [nat 4..<7] = [6, 5, 4]" by (simp add: upt_rec_numeral)
  ultimately show ?thesis using sequence_one_joint_at_a_time [OF c(1-3) _ _ refl, of vzero "vconst (Fin (-2))" "vconst (Fin (1 / 10))"] c by simp
qed

text \<open>The publisher sets a prefix of the sequence; when it is not stopped, all of it, and then ends the run.\<close>

lemma publish_prefix: "publish_sequence wps n = (qs, fin) \<Longrightarrow> \<exists>rest. map sw_q wps = qs @ rest \<and> (fin \<longrightarrow> rest = [])"
proof (induction wps n arbitrary: qs fin rule: publish_sequence.induct)
  case (3 w ws n)
  then show ?case by (fastforce simp: Let_def split: if_splits prod.splits)
qed auto

lemma publish_completes:
  "sum_list (map (\<lambda>w. 1 + nat (slices (sw_settle_s w))) wps) \<le> n \<Longrightarrow> publish_sequence wps n = (map sw_q wps, True)"
proof (induction wps n rule: publish_sequence.induct)
  case (3 w ws n)
  then have "publish_sequence ws (n - nat (slices (sw_settle_s w))) = (map sw_q ws, True)" by (intro "3.IH") auto
  then show ?case using "3.prems" by (simp add: Let_def)
qed simp_all

end
