(* ===== verification/Velocity_Probe.thy ===== *)
theory Velocity_Probe
  imports Command_Line Control_Modes
begin

section \<open>velocity\_probe\<close>

text \<open>
  \<open>apps/velocity_probe.cpp\<close>: options and checks, the control mode the program has of its own
  (\<open>ConstVelocityMode\<close>), and its verdict.
\<close>

subsection \<open>The trapezoid\<close>

text \<open>Up to 1 over \<open>r\<close>, down to 0 over the last \<open>r\<close> of \<open>D\<close>. Both velocity programs command its shape.\<close>

definition shape :: "real \<Rightarrow> real \<Rightarrow> real \<Rightarrow> real" where
  "shape D r t = max 0 (min 1 (min (t / r) ((D - t) / r)))"

lemma shape_bounds: "0 \<le> shape D r t" "shape D r t \<le> 1"
  by (auto simp: shape_def)

lemma shape_ends: "0 < r \<Longrightarrow> t \<le> 0 \<or> D \<le> t \<Longrightarrow> shape D r t = 0"
proof -
  assume "0 < r" "t \<le> 0 \<or> D \<le> t"
  then have "min (t / r) ((D - t) / r) \<le> 0" by (auto simp: min_le_iff_disj divide_nonpos_pos)
  then show ?thesis by (simp add: shape_def del: min_le_iff_disj)
qed

lemma lipschitz_max0_min1: "\<bar>max 0 (min 1 a) - max 0 (min 1 b)\<bar> \<le> \<bar>a - b\<bar>" for a b :: real
  by (auto simp: max_def min_def)

lemma lipschitz_min: "\<bar>a - a'\<bar> \<le> e \<Longrightarrow> \<bar>b - b'\<bar> \<le> e \<Longrightarrow> \<bar>min a b - min a' b'\<bar> \<le> e" for a b :: real
  by (auto simp: min_def)

text \<open>Never a step.\<close>

lemma shape_slow:
  assumes "0 < r"
  shows "\<bar>shape D r t' - shape D r t\<bar> \<le> \<bar>t' - t\<bar> / r"
proof -
  have "\<bar>t' / r - t / r\<bar> \<le> \<bar>t' - t\<bar> / r" using assms by (simp add: diff_divide_distrib [symmetric] abs_divide)
  moreover have "\<bar>(D - t') / r - (D - t) / r\<bar> \<le> \<bar>t' - t\<bar> / r"
    using assms by (simp add: diff_divide_distrib [symmetric] abs_divide abs_minus_commute)
  ultimately show ?thesis
    unfolding shape_def using lipschitz_max0_min1 lipschitz_min by (meson order_trans)
qed

subsection \<open>Options\<close>

record probe_options = run_options +
  pr_joint :: int
  pr_qd :: dbl
  pr_ramp :: dbl

definition probe_options0 :: probe_options where
  "probe_options0 = run_options.extend (run_options0 (Fin 2)) \<lparr>pr_joint = 6, pr_qd = Fin (5 / 100), pr_ramp = Fin (1 / 2)\<rparr>"

definition pr_table :: "library \<Rightarrow> string \<Rightarrow> probe_options opt" where
  "pr_table lb a =
     (if a = ''--joint'' then int_opt lb (\<lambda>n c. c\<lparr>pr_joint := n\<rparr>)
      else if a = ''--qd'' then num_opt lb (\<lambda>x c. c\<lparr>pr_qd := x\<rparr>)
      else if a = ''--ramp'' then num_opt lb (\<lambda>x c. c\<lparr>pr_ramp := x\<rparr>)
      else shared_opt lb (base_names @ [''--dry-run'', ''--duration'']) a)"

definition pr_refused :: "probe_options \<Rightarrow> bool" where
  "pr_refused c \<longleftrightarrow> pacing_of (op_pacing c) = None \<or> pr_joint c < 0 \<or> 7 \<le> pr_joint c \<or> Fin (3 / 10) < abs (pr_qd c) \<or>
     Fin 10 < op_duration c \<or> op_duration c < pr_ramp c * Fin 2"

text \<open>This program loads no model.\<close>

definition pr_start :: "library \<Rightarrow> string list \<Rightarrow> ended + (probe_options \<times> connection)" where
  "pr_start lb argv =
     (case parse_argv (pr_table lb) argv probe_options0 of Inl e \<Rightarrow> Inl e
      | Inr c \<Rightarrow> if pr_refused c then Inl (Ended 2)
                 else (case choose_transport c of Inl e \<Rightarrow> Inl e | Inr t \<Rightarrow> Inr (c, t)))"

definition pr_conversation :: conversation where
  "pr_conversation = \<lparr>cv_dry_loop = False, cv_reads_entry = True, cv_stop_code = None\<rparr>"

definition pr_session :: "'t transport_ops \<Rightarrow> bool \<Rightarrow> (joint_feedback \<Rightarrow> 't \<Rightarrow> int option \<times> 't) \<Rightarrow> probe_options \<Rightarrow> 't \<Rightarrow> (ended \<times> 't) option" where
  "pr_session ops stopped run c = run_program ops pr_conversation 0 stopped run c"

subsection \<open>The mode\<close>

record const_velocity =
  kv_joint :: nat
  kv_qd :: dbl
  kv_duration :: dbl
  kv_ramp :: dbl
  kv_t :: dbl
  kv_peak :: dbl
  kv_sum :: dbl
  kv_hold_cycles :: "64 word"
  kv_faulted :: bool
  kv_q_start :: jointvec
  kv_q_last :: jointvec

definition kv_init :: "nat \<Rightarrow> dbl \<Rightarrow> dbl \<Rightarrow> dbl \<Rightarrow> const_velocity" where
  "kv_init j qd dur ramp = \<lparr>kv_joint = j, kv_qd = qd, kv_duration = dur, kv_ramp = ramp, kv_t = Fin 0, kv_peak = Fin 0, kv_sum = Fin 0,
     kv_hold_cycles = 0, kv_faulted = False, kv_q_start = vzero, kv_q_last = vzero\<rparr>"

definition kv_on_enter :: "joint_feedback \<Rightarrow> const_velocity \<Rightarrow> const_velocity" where
  "kv_on_enter fb m = m\<lparr>kv_t := Fin 0, kv_q_start := fb_q fb, kv_peak := Fin 0, kv_sum := Fin 0, kv_hold_cycles := 0, kv_faulted := False\<rparr>"

definition kv_scale :: "dbl \<Rightarrow> dbl \<Rightarrow> dbl \<Rightarrow> dbl" where
  "kv_scale t dur ramp =
     (let s = (if t < ramp then (if Fin 0 < ramp then t / ramp else Fin 1)
               else if t < dur - ramp then Fin 1
               else if t < dur then (if Fin 0 < ramp then (dur - t) / ramp else Fin 1)
               else Fin 0)
      in if s < Fin 0 then Fin 0 else s)"

definition kv_track :: "dbl \<Rightarrow> const_velocity \<Rightarrow> const_velocity" where
  "kv_track v m =
     (if kv_ramp m \<le> kv_t m \<and> kv_t m < kv_duration m - kv_ramp m
      then m\<lparr>kv_sum := kv_sum m + v, kv_hold_cycles := kv_hold_cycles m + 1, kv_peak := (if abs (kv_peak m) < abs v then v else kv_peak m)\<rparr>
      else m)"

definition kv_compute :: "joint_feedback \<Rightarrow> dbl \<Rightarrow> joint_command \<Rightarrow> const_velocity \<Rightarrow> const_velocity \<times> joint_command" where
  "kv_compute fb dt out m0 =
     (let m = m0\<lparr>kv_t := kv_t m0 + dt, kv_faulted := kv_faulted m0 \<or> fb_fault fb\<rparr>;
          scale = kv_scale (kv_t m) (kv_duration m) (kv_ramp m);
          m1 = kv_track (vnth (fb_qd fb) (kv_joint m)) m
      in (m1\<lparr>kv_q_last := fb_q fb\<rparr>,
          out\<lparr>jc_mode := AmVelocity, jc_velocity := vupd vzero (kv_joint m) (kv_qd m * scale), jc_position := fb_q fb\<rparr>))"

definition kv_mean_hold_qd :: "const_velocity \<Rightarrow> dbl" where
  "kv_mean_hold_qd m = (if kv_hold_cycles m = 0 then Fin 0 else kv_sum m / Fin (real (unat (kv_hold_cycles m))))"

text \<open>It is a mode the executor can run.\<close>

definition probe_modes :: "(unit, const_velocity) control_modes" where
  "probe_modes = \<lparr>mo_required_modes = \<lambda>_. modes_fill AmVelocity, mo_on_enter = \<lambda>_. kv_on_enter,
     mo_compute = \<lambda>_ fb dt out m. Some (kv_compute fb dt out m), mo_on_exit = \<lambda>_ m. m\<rparr>"

interpretation probe: commanding_modes probe_modes
  by unfold_locales (auto simp: probe_modes_def kv_compute_def Let_def)

subsection \<open>The verdict\<close>

datatype probe_verdict = PvFaults | PvTracks | PvIgnores | PvPartial

definition pr_travel :: "probe_options \<Rightarrow> dbl" where
  "pr_travel c = abs (pr_qd c) * (op_duration c - pr_ramp c)"

definition pr_verdict :: "probe_options \<Rightarrow> const_velocity \<Rightarrow> probe_verdict" where
  "pr_verdict c m =
     (let j = nat (pr_joint c); moved = vnth (kv_q_last m) j - vnth (kv_q_start m) j
      in if kv_faulted m then PvFaults
         else if Fin (1 / 4) * abs (pr_qd c) < abs (kv_mean_hold_qd m) \<and> Fin (1 / 5) * pr_travel c < abs moved then PvTracks
         else if abs moved < Fin (5 / 100) * pr_travel c then PvIgnores
         else PvPartial)"

definition pr_mode :: "probe_options \<Rightarrow> const_velocity" where
  "pr_mode c = kv_init (nat (pr_joint c)) (pr_qd c) (op_duration c) (pr_ramp c)"

subsection \<open>What it commands\<close>

lemma kv_scale_shape:
  assumes "0 < r" "2 * r \<le> D"
  shows "kv_scale (Fin t) (Fin D) (Fin r) = Fin (shape D r t)"
proof -
  consider "t < 0" | "0 \<le> t" "t < r" | "r \<le> t" "t < D - r" | "D - r \<le> t" "r \<le> t" "t < D" | "D \<le> t" "r \<le> t" by linarith
  then show ?thesis
  proof cases
    case 2
    then have "t / r \<le> (D - t) / r" "t / r \<le> 1" "0 \<le> t / r" using assms by (simp_all add: divide_right_mono)
    moreover have "\<not> t / r < 0" using 2 assms by (simp add: divide_less_0_iff)
    ultimately show ?thesis using 2 assms by (auto simp: kv_scale_def shape_def min_def max_def)
  next
    case 3
    then have "1 \<le> t / r" "1 \<le> (D - t) / r" using assms by simp_all
    then show ?thesis using 3 assms by (simp add: kv_scale_def shape_def)
  next
    case 4
    then have "(D - t) / r \<le> t / r" "(D - t) / r \<le> 1" "0 \<le> (D - t) / r" using assms by (simp_all add: divide_right_mono)
    moreover have "\<not> (D - t) / r < 0" using 4 assms by (simp add: divide_less_0_iff)
    ultimately show ?thesis using 4 assms by (auto simp: kv_scale_def shape_def min_def max_def)
  qed (use assms in \<open>simp_all add: kv_scale_def shape_ends divide_neg_pos\<close>)
qed

lemma kv_compute_consts:
  assumes "kv_compute fb dt out m = (m', out')"
  shows "kv_joint m' = kv_joint m" "kv_qd m' = kv_qd m" "kv_duration m' = kv_duration m" "kv_ramp m' = kv_ramp m"
    "kv_t m' = kv_t m + dt" "jc_mode out' = AmVelocity"
    "jc_velocity out' = vupd vzero (kv_joint m) (kv_qd m * kv_scale (kv_t m + dt) (kv_duration m) (kv_ramp m))"
  using assms by (auto simp: kv_compute_def kv_track_def Let_def)

text \<open>The cycles of a run: the commands, each under the time since entry.\<close>

fun kv_run :: "(joint_feedback \<times> dbl) list \<Rightarrow> const_velocity \<Rightarrow> (dbl \<times> joint_command) list" where
  "kv_run [] m = []"
| "kv_run ((fb, dt) # cs) m = (let (m', out) = kv_compute fb dt joint_command0 m in (kv_t m', out) # kv_run cs m')"

lemma kv_run_commands:
  assumes "(t, out) \<in> set (kv_run cs m)"
  shows "jc_mode out = AmVelocity \<and> jc_velocity out = vupd vzero (kv_joint m) (kv_qd m * kv_scale t (kv_duration m) (kv_ramp m))"
  using assms
proof (induction cs arbitrary: m)
  case (Cons u cs)
  obtain fb dt where u: "u = (fb, dt)" by (cases u)
  obtain m' o1 where c: "kv_compute fb dt joint_command0 m = (m', o1)" by fastforce
  note k = kv_compute_consts [OF c]
  from Cons.prems consider "t = kv_t m'" "out = o1" | "(t, out) \<in> set (kv_run cs m')" by (auto simp: u c)
  then show ?case
  proof cases
    case 2
    then show ?thesis using Cons.IH [OF 2] k by simp
  qed (use k in simp)
qed simp


text \<open>
  What the velocity probe commands, cycle by cycle, for every accepted command line whose
  speed, duration and ramp are finite and whose ramp is positive: every actuator is commanded in
  velocity mode; every joint but the chosen one at exactly zero; the chosen one along a trapezoid over
  the time since entry, never faster than 0.3 rad/s, never stepping (its speed changes at most with
  \<open>qd / ramp\<close>), and zero once \<open>--duration\<close> is over.
\<close>

theorem probe_commands_trapezoid:
  assumes "\<not> pr_refused c" "pr_qd c = Fin v" "op_duration c = Fin D" "pr_ramp c = Fin r" "0 < r"
    and "(t, out) \<in> set (kv_run cs (kv_on_enter fb (pr_mode c)))" "t = Fin x"
  shows "jc_mode out = AmVelocity \<and> (\<forall>i < 7. int i \<noteq> pr_joint c \<longrightarrow> vnth (jc_velocity out) i = Fin 0) \<and>
    vnth (jc_velocity out) (nat (pr_joint c)) = Fin (v * shape D r x) \<and>
    \<bar>v * shape D r x\<bar> \<le> 3 / 10 \<and> (x \<le> 0 \<or> D \<le> x \<longrightarrow> v * shape D r x = 0) \<and>
    (\<forall>y. \<bar>v * shape D r y - v * shape D r x\<bar> \<le> \<bar>v\<bar> / r * \<bar>y - x\<bar>)"
proof (intro conjI)
  have j: "0 \<le> pr_joint c" "pr_joint c < 7" and v: "\<bar>v\<bar> \<le> 3 / 10" and r: "2 * r \<le> D"
    using assms(1-4) by (auto simp: pr_refused_def)
  have out: "jc_mode out = AmVelocity" "jc_velocity out = vupd vzero (nat (pr_joint c)) (Fin (v * shape D r x))"
    using kv_run_commands [OF assms(6)] kv_scale_shape [OF assms(5) r] assms(2-4,7) by (simp_all add: kv_on_enter_def pr_mode_def kv_init_def)
  show "jc_mode out = AmVelocity" by (rule out)
  show "\<forall>i < 7. int i \<noteq> pr_joint c \<longrightarrow> vnth (jc_velocity out) i = Fin 0" using j by (auto simp: out)
  show "vnth (jc_velocity out) (nat (pr_joint c)) = Fin (v * shape D r x)" using j by (simp add: out)
  have s: "0 \<le> shape D r x" "shape D r x \<le> 1" by (rule shape_bounds)+
  have "\<bar>v * shape D r x\<bar> \<le> \<bar>v\<bar> * 1" unfolding abs_mult using s by (intro mult_left_mono) auto
  then show "\<bar>v * shape D r x\<bar> \<le> 3 / 10" using v by simp
  show "x \<le> 0 \<or> D \<le> x \<longrightarrow> v * shape D r x = 0" using shape_ends [OF assms(5)] by simp
  show "\<forall>y. \<bar>v * shape D r y - v * shape D r x\<bar> \<le> \<bar>v\<bar> / r * \<bar>y - x\<bar>"
  proof
    fix y
    have "\<bar>v * shape D r y - v * shape D r x\<bar> = \<bar>v\<bar> * \<bar>shape D r y - shape D r x\<bar>" by (simp add: abs_mult [symmetric] right_diff_distrib)
    also have "\<dots> \<le> \<bar>v\<bar> * (\<bar>y - x\<bar> / r)" by (rule mult_left_mono [OF shape_slow [OF assms(5)]]) simp
    finally show "\<bar>v * shape D r y - v * shape D r x\<bar> \<le> \<bar>v\<bar> / r * \<bar>y - x\<bar>" by simp
  qed
qed

theorem probe_commands_trapezoid_witness:
  "\<exists>out. (Fin (1 / 4), out) \<in> set (kv_run [(joint_feedback0, Fin (1 / 4))] (kv_on_enter joint_feedback0 (pr_mode probe_options0))) \<and>
     vnth (jc_velocity out) 6 = Fin (5 / 100 * shape 2 (1 / 2) (1 / 4))"
proof -
  let ?c = probe_options0
  have c: "pr_qd ?c = Fin (5 / 100)" "op_duration ?c = Fin 2" "pr_ramp ?c = Fin (1 / 2)" "pr_joint ?c = 6"
    by (simp_all add: probe_options0_def run_options0_def run_options.defs)
  have ok: "\<not> pr_refused ?c" by (simp add: pr_refused_def c) (simp add: probe_options0_def run_options0_def run_options.defs pacing_of_def)
  obtain m' out where o: "kv_compute joint_feedback0 (Fin (1 / 4)) joint_command0 (kv_on_enter joint_feedback0 (pr_mode ?c)) = (m', out)" by fastforce
  have "kv_t m' = Fin (1 / 4)" using kv_compute_consts(5) [OF o] by (simp add: kv_on_enter_def)
  then have i: "(Fin (1 / 4), out) \<in> set (kv_run [(joint_feedback0, Fin (1 / 4))] (kv_on_enter joint_feedback0 (pr_mode ?c)))" by (simp add: o)
  have r: "0 < (1 / 2 :: real)" by simp
  from probe_commands_trapezoid [OF ok c(1-3) r i refl] i c(4) show ?thesis by auto
qed

text \<open>
  The checks let a negative ramp through. The command then steps to the full speed in the first cycle and
  goes on past \<open>--duration\<close>, by as much as the ramp is negative.
\<close>

lemma negative_ramp_steps:
  assumes "r < 0" "r \<le> x" "x < D - r"
  shows "kv_scale (Fin x) (Fin D) (Fin r) = Fin 1"
  using assms by (simp add: kv_scale_def)

lemma negative_ramp_accepted: "\<not> pr_refused (probe_options0\<lparr>pr_ramp := Fin (-1)\<rparr>)"
  by (simp add: pr_refused_def probe_options0_def run_options0_def run_options.defs pacing_of_def)

text \<open>So does a speed that is not a number, which is then commanded.\<close>

lemma NaN_speed_accepted: "\<not> pr_refused (probe_options0\<lparr>pr_qd := NaN\<rparr>)"
  by (simp add: pr_refused_def probe_options0_def run_options0_def run_options.defs pacing_of_def)

end
