(* ===== verification/Velocity_Hold_Check.thy ===== *)
theory Velocity_Hold_Check
  imports Velocity_Probe Velocity_Mode
begin

section \<open>velocity\_hold\_check\<close>

text \<open>
  \<open>apps/velocity_hold_check.cpp\<close>: options and checks, the loop that publishes velocities and samples the
  feedback, and the verdicts computed from the samples. A wake-up of the loop is the time it reads
  and what the snapshot then holds.
\<close>

subsection \<open>Options\<close>

record hold_options = run_options +
  vh_phase :: string
  vh_joint :: int
  vh_qd :: dbl
  vh_hold_s :: dbl
  vh_jog_s :: dbl
  vh_ramp_s :: dbl
  vh_timeout_s :: dbl
  vh_cmd_rate :: dbl

definition hold_options0 :: hold_options where
  "hold_options0 = run_options.extend (run_options0 (Fin 0))
     \<lparr>vh_phase = [], vh_joint = 6, vh_qd = Fin (5 / 100), vh_hold_s = Fin 10, vh_jog_s = Fin 2, vh_ramp_s = Fin (1 / 2),
      vh_timeout_s = Fin (1 / 5), vh_cmd_rate = Fin 100\<rparr>"

definition vh_table :: "library \<Rightarrow> string \<Rightarrow> hold_options opt" where
  "vh_table lb a =
     (if a = ''--phase'' then text_opt (\<lambda>v c. c\<lparr>vh_phase := v\<rparr>)
      else if a = ''--joint'' then int_opt lb (\<lambda>n c. c\<lparr>vh_joint := n\<rparr>)
      else if a = ''--qd'' then num_opt lb (\<lambda>x c. c\<lparr>vh_qd := x\<rparr>)
      else if a = ''--hold-s'' then num_opt lb (\<lambda>x c. c\<lparr>vh_hold_s := x\<rparr>)
      else if a = ''--jog-s'' then num_opt lb (\<lambda>x c. c\<lparr>vh_jog_s := x\<rparr>)
      else if a = ''--ramp'' then num_opt lb (\<lambda>x c. c\<lparr>vh_ramp_s := x\<rparr>)
      else if a = ''--timeout'' then num_opt lb (\<lambda>x c. c\<lparr>vh_timeout_s := x\<rparr>)
      else if a = ''--cmd-rate'' then num_opt lb (\<lambda>x c. c\<lparr>vh_cmd_rate := x\<rparr>)
      else shared_opt lb (model_names @ [''--dry-run'']) a)"

definition vh_jog_travel :: "hold_options \<Rightarrow> dbl" where
  "vh_jog_travel c = abs (vh_qd c) * (vh_jog_s c - vh_ramp_s c)"

definition vh_refused :: "hold_options \<Rightarrow> bool" where
  "vh_refused c \<longleftrightarrow> base_refused c \<or> (\<not> op_dry_run c \<and> vh_phase c \<notin> {''hold'', ''stale'', ''track''}) \<or>
     vh_joint c < 0 \<or> 7 \<le> vh_joint c \<or> Fin 1 < abs (vh_qd c) \<or> vh_hold_s c \<le> Fin 0 \<or> Fin 120 < vh_hold_s c \<or>
     vh_jog_s c \<le> Fin 0 \<or> Fin 5 < vh_jog_s c \<or> vh_ramp_s c < Fin 0 \<or> vh_jog_s c < vh_ramp_s c * Fin 2 \<or>
     vh_timeout_s c \<le> Fin 0 \<or> Fin 1 < vh_timeout_s c \<or> Fin (3 / 2) < vh_jog_travel c \<or>
     vh_cmd_rate c \<le> Fin 0 \<or> vh_timeout_s c \<le> Fin 1 / vh_cmd_rate c"

definition vh_conversation :: conversation where
  "vh_conversation = \<lparr>cv_dry_loop = False, cv_reads_entry = True, cv_stop_code = Some 1\<rparr>"

definition vh_start :: "library \<Rightarrow> string list \<Rightarrow> ended + (hold_options \<times> dynamics \<times> connection)" where
  "vh_start lb argv = start_program lb (vh_table lb) vh_refused hold_options0 argv"

definition vh_session :: "'t transport_ops \<Rightarrow> bool \<Rightarrow> (joint_feedback \<Rightarrow> 't \<Rightarrow> int option \<times> 't) \<Rightarrow> hold_options \<Rightarrow> 't \<Rightarrow> (ended \<times> 't) option" where
  "vh_session ops stopped run c = run_program ops vh_conversation 0 stopped run c"

subsection \<open>The loop\<close>

definition trapezoid :: "dbl \<Rightarrow> dbl \<Rightarrow> dbl \<Rightarrow> dbl \<Rightarrow> dbl" where
  "trapezoid t qd dur ramp =
     (if t < Fin 0 \<or> dur \<le> t then Fin 0
      else if ramp \<le> Fin 0 then qd
      else if t < ramp then qd * t / ramp
      else if t < dur - ramp then qd
      else qd * (dur - t) / ramp)"

definition ramp_then_flat :: "dbl \<Rightarrow> dbl \<Rightarrow> dbl \<Rightarrow> dbl" where
  "ramp_then_flat t qd ramp = (if ramp \<le> Fin 0 \<or> ramp \<le> t then qd else qd * t / ramp)"

record hold_sample =
  hs_t :: dbl
  hs_q :: jointvec
  hs_qd :: jointvec
  hs_cmd :: dbl

text \<open>The targets set and the samples taken. The wake-ups end when the stop flag is seen.\<close>

fun vh_loop :: "nat \<Rightarrow> dbl \<Rightarrow> bool \<Rightarrow> (dbl \<Rightarrow> dbl) \<Rightarrow> (dbl \<times> joint_feedback option) list \<Rightarrow> (dbl \<times> jointvec) list \<times> hold_sample list" where
  "vh_loop j dur silent target [] = ([], [])"
| "vh_loop j dur silent target ((t, seen) # rest) =
     (if t < dur
      then (let c = target t; (sets, samples) = vh_loop j dur silent target rest
            in ((if silent then [] else [(t, vupd vzero j c)]) @ sets,
                (case seen of Some fb \<Rightarrow> [\<lparr>hs_t = t, hs_q = fb_q fb, hs_qd = fb_qd fb, hs_cmd = (if silent then Fin 0 else c)\<rparr>] | None \<Rightarrow> []) @ samples))
      else ([], []))"

text \<open>What each phase commands, as a function of the time since the loop began.\<close>

definition vh_jog :: "hold_options \<Rightarrow> bool \<Rightarrow> dbl \<Rightarrow> dbl" where
  "vh_jog c back t = trapezoid t (if back then - vh_qd c else vh_qd c) (vh_jog_s c) (vh_ramp_s c)"

definition vh_cut :: "hold_options \<Rightarrow> dbl \<Rightarrow> dbl" where
  "vh_cut c t = ramp_then_flat t (vh_qd c) (vh_ramp_s c)"

subsection \<open>The verdicts\<close>

datatype hold_verdict = HvAborted | HvHolds | HvCreeps | HvFreezes | HvCoasts | HvInconclusive | HvTracks | HvLeashed | HvLags

definition wrap_delta :: "dbl \<Rightarrow> dbl \<Rightarrow> dbl option" where
  "wrap_delta a b = wrap_to_pi (a - b)"

text \<open>\<open>None\<close>: folding a difference does not return.\<close>

fun hold_peak :: "jointvec \<Rightarrow> jointvec \<Rightarrow> hold_sample list \<Rightarrow> jointvec option" where
  "hold_peak q0 peak [] = Some peak"
| "hold_peak q0 peak (x # xs) =
     do { d \<leftarrow> vgenM (\<lambda>i. wrap_delta (vnth (hs_q x) i) (vnth q0 i));
          hold_peak q0 (vgen (\<lambda>i. smax (vnth peak i) (abs (vnth d i)))) xs }"

definition max_coeff :: "jointvec \<Rightarrow> dbl" where
  "max_coeff v = foldl (\<lambda>m i. smax m (vnth v i)) (vnth v 0) [1..<7]"

definition verdict_hold :: "bool \<Rightarrow> hold_sample list \<Rightarrow> hold_verdict option" where
  "verdict_hold stopped s =
     (if length s \<le> 2 then Some HvAborted
      else do {
        let q0 = hs_q (hd s);
        peak \<leftarrow> hold_peak q0 vzero s;
        drift \<leftarrow> vgenM (\<lambda>i. wrap_delta (vnth (hs_q (last s)) i) (vnth q0 i));
        Some (if stopped then HvAborted else if max_coeff peak < Fin (5 / 1000) then HvHolds else HvCreeps) })"

definition verdict_stale :: "hold_options \<Rightarrow> bool \<Rightarrow> hold_sample list \<Rightarrow> hold_sample list \<Rightarrow> hold_verdict option" where
  "verdict_stale c stopped jog silent =
     (if jog = [] \<or> silent = [] then Some HvAborted
      else do {
        let j = nat (vh_joint c);
        moved_jog \<leftarrow> wrap_delta (vnth (hs_q (last jog)) j) (vnth (hs_q (hd jog)) j);
        after \<leftarrow> wrap_delta (vnth (hs_q (last silent)) j) (vnth (hs_q (last jog)) j);
        Some (if stopped then HvAborted
              else if abs moved_jog < Fin (1 / 5) * vh_jog_travel c then HvInconclusive
              else if abs after < Fin (2 / 100) then HvFreezes else HvCoasts) })"

definition flat_mean :: "hold_options \<Rightarrow> hold_sample list \<Rightarrow> dbl" where
  "flat_mean c s =
     (let flat = filter (\<lambda>x. vh_ramp_s c + Fin (1 / 10) \<le> hs_t x \<and> hs_t x < vh_jog_s c - vh_ramp_s c) s
      in if flat = [] then Fin 0
         else foldl (\<lambda>a x. a + vnth (hs_qd x) (nat (vh_joint c))) (Fin 0) flat / Fin (real (length flat)))"

text \<open>The integral of the command so far and the lead; from the second sample on.\<close>

fun lead_from :: "hold_options \<Rightarrow> dbl \<Rightarrow> hold_sample \<Rightarrow> dbl \<Rightarrow> dbl \<Rightarrow> hold_sample list \<Rightarrow> dbl option" where
  "lead_from c q0 prev integral lead [] = Some lead"
| "lead_from c q0 prev integral lead (x # xs) =
     do { let integral1 = integral + Fin (1 / 2) * (hs_cmd x + hs_cmd prev) * (hs_t x - hs_t prev);
          lead1 \<leftarrow> (if hs_t x < vh_jog_s c - vh_ramp_s c
                    then map_option (\<lambda>w. integral1 - w) (wrap_delta (vnth (hs_q x) (nat (vh_joint c))) q0) else Some lead);
          lead_from c q0 x integral1 lead1 xs }"

definition lead_at_flat_end :: "hold_options \<Rightarrow> hold_sample list \<Rightarrow> dbl option" where
  "lead_at_flat_end c s =
     (case s of [] \<Rightarrow> Some (Fin 0) | x # xs \<Rightarrow> lead_from c (vnth (hs_q x) (nat (vh_joint c))) x (Fin 0) (Fin 0) xs)"

definition verdict_track :: "hold_options \<Rightarrow> bool \<Rightarrow> hold_sample list \<Rightarrow> hold_sample list \<Rightarrow> hold_sample list \<Rightarrow> hold_verdict option" where
  "verdict_track c stopped out back settle =
     (if length out \<le> 2 \<or> length back \<le> 2 \<or> settle = [] then Some HvAborted
      else do {
        let m_out = flat_mean c out;
        let m_back = flat_mean c back;
        let j = nat (vh_joint c);
        lead_out \<leftarrow> lead_at_flat_end c out;
        lead_back \<leftarrow> lead_at_flat_end c back;
        moved_out \<leftarrow> wrap_delta (vnth (hs_q (last out)) j) (vnth (hs_q (hd out)) j);
        net_travel \<leftarrow> wrap_delta (vnth (hs_q (last settle)) j) (vnth (hs_q (hd out)) j);
        let ratio = smin (m_out / vh_qd c) (m_back / - vh_qd c);
        let lead = smax (abs lead_out) (abs lead_back);
        Some (if stopped then HvAborted
              else if Fin (9 / 10) < ratio \<and> lead < Fin (8 / 100) then HvTracks
              else if Fin (8 / 100) \<le> lead then HvLeashed else HvLags) })"

text \<open>
  A run of a phase, given the wake-ups of its loops: the velocity targets set, in order, the last one after
  the phase, and the verdict.
\<close>

type_synonym wake_ups = "(dbl \<times> joint_feedback option) list"

definition vh_run :: "hold_options \<Rightarrow> bool \<Rightarrow> wake_ups \<Rightarrow> wake_ups \<Rightarrow> wake_ups \<Rightarrow> jointvec list \<times> hold_verdict option" where
  "vh_run c stopped w1 w2 w3 =
     (let j = nat (vh_joint c); zero = (\<lambda>_. Fin 0);
          (sets, verdict) =
            (if vh_phase c = ''hold'' then
               (let (sets, s) = vh_loop j (vh_hold_s c) False zero w1 in (sets, verdict_hold stopped s))
             else if vh_phase c = ''stale'' then
               (let (sets, jog) = vh_loop j (vh_jog_s c) False (vh_cut c) w1;
                    (more, silent) = vh_loop j (vh_timeout_s c + Fin 1) True zero w2
                in (sets @ more, verdict_stale c stopped jog silent))
             else
               (let (sets1, out) = vh_loop j (vh_jog_s c) False (vh_jog c False) w1;
                    (sets2, back) = vh_loop j (vh_jog_s c) False (vh_jog c True) w2;
                    (sets3, settle) = vh_loop j (Fin (1 / 2)) False zero w3
                in (sets1 @ sets2 @ sets3, verdict_track c stopped out back settle)))
      in (map snd sets @ [vzero], verdict))"

subsection \<open>What it commands\<close>

lemma trapezoid_shape:
  assumes "0 < r" "2 * r \<le> D"
  shows "trapezoid (Fin t) (Fin v) (Fin D) (Fin r) = Fin (v * shape D r t)"
proof -
  consider "t < 0" | "0 \<le> t" "t < r" | "r \<le> t" "t < D - r" | "D - r \<le> t" "r \<le> t" "t < D" | "D \<le> t" "r \<le> t" using assms by linarith
  then show ?thesis
    using kv_scale_shape [OF assms, of t] assms
    by cases (auto simp: trapezoid_def kv_scale_def divide_less_0_iff shape_ends simp flip: times_divide_eq_right split: if_splits)
qed

lemma vh_loop_sets:
  "(t, v) \<in> set (fst (vh_loop j dur silent target ts)) \<Longrightarrow> \<not> silent \<and> t < dur \<and> t \<in> fst ` set ts \<and> v = vupd vzero j (target t)"
proof (induction ts)
  case (Cons u ts)
  then show ?case by (cases u) (auto simp: Let_def split: if_splits prod.splits)
qed simp

text \<open>The loop that is to be silent sets nothing, and the others set a target at every wake-up before the end.\<close>

lemma vh_loop_silent [simp]: "fst (vh_loop j dur True target ts) = []"
proof (induction ts)
  case (Cons u ts)
  then show ?case by (cases u) (auto simp: Let_def split: prod.split)
qed simp

lemma vh_loop_sets_all: "\<forall>(t, _) \<in> set ts. t < dur \<Longrightarrow> map fst (fst (vh_loop j dur False target ts)) = map fst ts"
proof (induction ts)
  case (Cons u ts)
  then show ?case by (cases u) (auto simp: Let_def split: prod.split)
qed simp


lemma trapezoid_bound:
  assumes "0 \<le> r" "2 * r \<le> D"
  shows "\<exists>x. trapezoid (Fin t) (Fin v) (Fin D) (Fin r) = Fin x \<and> \<bar>x\<bar> \<le> \<bar>v\<bar>"
proof (cases "r = 0")
  case False
  then have "trapezoid (Fin t) (Fin v) (Fin D) (Fin r) = Fin (v * shape D r t)" using assms by (intro trapezoid_shape) auto
  moreover have "\<bar>v\<bar> * \<bar>shape D r t\<bar> \<le> \<bar>v\<bar> * 1" using shape_bounds [of D r t] by (intro mult_left_mono) auto
  ultimately show ?thesis by (simp add: abs_mult)
qed (simp add: trapezoid_def)

lemma ramp_then_flat_bound:
  assumes "0 \<le> r" "0 \<le> t"
  shows "\<exists>x. ramp_then_flat (Fin t) (Fin v) (Fin r) = Fin x \<and> \<bar>x\<bar> \<le> \<bar>v\<bar>"
proof (cases "r \<le> 0 \<or> r \<le> t")
  case False
  then have "\<bar>v\<bar> * (t / r) \<le> \<bar>v\<bar> * 1" using assms by (intro mult_left_mono) auto
  then show ?thesis using False assms by (simp add: ramp_then_flat_def abs_mult)
qed (auto simp: ramp_then_flat_def)

definition one_joint_within :: "int \<Rightarrow> real \<Rightarrow> jointvec \<Rightarrow> bool" where
  "one_joint_within j b v \<longleftrightarrow> (\<forall>i < 7. \<exists>x. vnth v i = Fin x \<and> \<bar>x\<bar> \<le> (if int i = j then b else 0))"

lemma vh_loop_within:
  assumes "\<And>t. t \<in> fst ` set ts \<Longrightarrow> \<exists>x. target t = Fin x \<and> \<bar>x\<bar> \<le> b" "0 \<le> j" "0 \<le> b"
  shows "\<forall>(t, v) \<in> set (fst (vh_loop (nat j) dur silent target ts)). one_joint_within j b v"
proof clarify
  fix t v assume "(t, v) \<in> set (fst (vh_loop (nat j) dur silent target ts))"
  then have v: "t \<in> fst ` set ts" "v = vupd vzero (nat j) (target t)" using vh_loop_sets by blast+
  obtain x where "target t = Fin x" "\<bar>x\<bar> \<le> b" using assms(1) [OF v(1)] by blast
  then show "one_joint_within j b v" using assms(2,3) by (auto simp: one_joint_within_def v(2))
qed

text \<open>
  What the velocity hold check asks of the arm, for every accepted command line with finite
  speed, jog and ramp times, whatever it measures and whenever it wakes: every velocity target it sets
  is zero on every joint but the chosen one, and there no faster than \<open>--qd\<close>, which is at most 1 rad/s;
  the hold phase sets zeros only; the last target of every run is zero.
\<close>

theorem hold_check_bounded:
  assumes "\<not> vh_refused c" "vh_qd c = Fin v" "vh_jog_s c = Fin D" "vh_ramp_s c = Fin r"
    and t: "\<forall>t \<in> fst ` set (w1 @ w2 @ w3). \<exists>x. t = Fin x \<and> 0 \<le> x"
    and run: "vh_run c stopped w1 w2 w3 = (sets, verdict)"
  shows "(\<forall>s \<in> set sets. one_joint_within (vh_joint c) (if vh_phase c = ''hold'' then 0 else \<bar>v\<bar>) s) \<and> \<bar>v\<bar> \<le> 1 \<and> last sets = vzero"
proof -
  let ?j = "nat (vh_joint c)" and ?W = "one_joint_within (vh_joint c)"
  have j: "0 \<le> vh_joint c" and v: "\<bar>v\<bar> \<le> 1" and r: "0 \<le> r" "2 * r \<le> D"
    using assms(1-4) by (auto simp: vh_refused_def)
  have zero: "?W b vzero" if "0 \<le> b" for b using that by (auto simp: one_joint_within_def)
  have zeros: "\<forall>(t, s) \<in> set (fst (vh_loop ?j dur False (\<lambda>_. Fin 0) ts)). ?W b s" if "0 \<le> b" for dur ts b
    using that j by (intro vh_loop_within) auto
  have jog: "\<forall>(t, s) \<in> set (fst (vh_loop ?j dur False (vh_jog c bk) ts)). ?W \<bar>v\<bar> s" if "set ts \<subseteq> set (w1 @ w2 @ w3)" for dur bk ts
  proof (rule vh_loop_within)
    fix t0 assume "t0 \<in> fst ` set ts"
    then have "t0 \<in> fst ` set (w1 @ w2 @ w3)" using image_mono [OF that, of fst] by (rule rev_subsetD)
    then obtain x where x: "t0 = Fin x" using bspec [OF t] by metis
    show "\<exists>x. vh_jog c bk t0 = Fin x \<and> \<bar>x\<bar> \<le> \<bar>v\<bar>"
    proof (cases bk)
      case True
      then show ?thesis using trapezoid_bound [OF r, of x "- v"] by (simp add: vh_jog_def assms(2-4) x)
    next
      case False
      then show ?thesis using trapezoid_bound [OF r, of x v] by (simp add: vh_jog_def assms(2-4) x)
    qed
  qed (use j in auto)
  have cut: "\<forall>(t, s) \<in> set (fst (vh_loop ?j dur False (vh_cut c) w1)). ?W \<bar>v\<bar> s" for dur
  proof (rule vh_loop_within)
    fix t0 assume "t0 \<in> fst ` set w1"
    then have "t0 \<in> fst ` set (w1 @ w2 @ w3)" by auto
    then obtain x where x: "t0 = Fin x" "0 \<le> x" using bspec [OF t] by metis
    then show "\<exists>x. vh_cut c t0 = Fin x \<and> \<bar>x\<bar> \<le> \<bar>v\<bar>"
      using ramp_then_flat_bound [OF r(1) x(2), of v] by (simp add: vh_cut_def assms(2-4) x(1))
  qed (use j in auto)
  have part: "set w1 \<subseteq> set (w1 @ w2 @ w3)" "set w2 \<subseteq> set (w1 @ w2 @ w3)" by auto
  have in_loop: "\<forall>s \<in> snd ` set (fst l). ?W b s" if "\<forall>(t, s) \<in> set (fst l). ?W b s" for b and l :: "(dbl \<times> jointvec) list \<times> hold_sample list"
    using that by auto
  note jog1 = in_loop [OF jog [OF part(1), of "vh_jog_s c" False]] and jog2 = in_loop [OF jog [OF part(2), of "vh_jog_s c" True]]
    and hold = in_loop [OF zeros [of 0 "vh_hold_s c" w1]] and settle = in_loop [OF zeros [of "\<bar>v\<bar>" "Fin (1 / 2)" w3]]
    and cuts = in_loop [OF cut [of "vh_jog_s c"]]
  consider "vh_phase c = ''hold''" | "vh_phase c = ''stale''" | "vh_phase c \<noteq> ''hold''" "vh_phase c \<noteq> ''stale''" by blast
  then have "\<forall>s \<in> set sets. ?W (if vh_phase c = ''hold'' then 0 else \<bar>v\<bar>) s"
  proof cases
    case 1
    then have "sets = map snd (fst (vh_loop ?j (vh_hold_s c) False (\<lambda>_. Fin 0) w1)) @ [vzero]"
      using run by (auto simp: vh_run_def Let_def split: prod.splits)
    then show ?thesis using 1 hold zero by auto
  next
    case 2
    obtain silent where "vh_loop ?j (vh_timeout_s c + Fin 1) True (\<lambda>_. Fin 0) w2 = ([], silent)"
      by (metis vh_loop_silent prod.collapse)
    then have "sets = map snd (fst (vh_loop ?j (vh_jog_s c) False (vh_cut c) w1)) @ [vzero]"
      using run 2 by (auto simp: vh_run_def Let_def split: prod.splits)
    then show ?thesis using 2 cuts zero by auto
  next
    case 3
    then have "sets = map snd (fst (vh_loop ?j (vh_jog_s c) False (vh_jog c False) w1)) @
        map snd (fst (vh_loop ?j (vh_jog_s c) False (vh_jog c True) w2)) @ map snd (fst (vh_loop ?j (Fin (1 / 2)) False (\<lambda>_. Fin 0) w3)) @ [vzero]"
      using run by (auto simp: vh_run_def Let_def split: prod.splits)
    then show ?thesis using 3 jog1 jog2 settle zero by auto
  qed
  moreover have "last sets = vzero" using run by (auto simp: vh_run_def Let_def split: prod.splits)
  ultimately show ?thesis using v by blast
qed


theorem hold_check_bounded_witness:
  "\<exists>sets verdict. vh_run (hold_options0\<lparr>op_urdf := ''arm.urdf'', vh_phase := ''stale''\<rparr>) False [(Fin 0, None), (Fin 1, Some joint_feedback0)]
       [(Fin 0, Some joint_feedback0)] [] = (sets, verdict) \<and> last sets = vzero \<and>
     (\<forall>s \<in> set sets. one_joint_within 6 (5 / 100) s)"
proof -
  let ?c = "hold_options0\<lparr>op_urdf := ''arm.urdf'', vh_phase := ''stale''\<rparr>"
  have c: "vh_qd ?c = Fin (5 / 100)" "vh_jog_s ?c = Fin 2" "vh_ramp_s ?c = Fin (1 / 2)" "vh_joint ?c = 6" "vh_phase ?c = ''stale''"
    by (simp_all add: hold_options0_def run_options.defs)
  have ok: "\<not> vh_refused ?c"
    by (simp add: vh_refused_def base_refused_def vh_jog_travel_def c)
      (simp add: hold_options0_def run_options0_def run_options.defs pacing_of_def)
  obtain sets verdict where r: "vh_run ?c False [(Fin 0, None), (Fin 1, Some joint_feedback0)] [(Fin 0, Some joint_feedback0)] [] = (sets, verdict)"
    by fastforce
  from hold_check_bounded [OF ok c(1-3) _ r] r c show ?thesis by auto
qed

text \<open>
  The three checks of the times see to it that the flat part exists and the watchdog does not fire while
  the program publishes at its rate.
\<close>

lemma hold_check_times:
  assumes "\<not> vh_refused c" "vh_jog_s c = Fin D" "vh_ramp_s c = Fin r" "vh_timeout_s c = Fin w" "vh_cmd_rate c = Fin f"
  shows "0 \<le> r" "r \<le> D - r" "D \<le> 5" "0 < w" "w \<le> 1" "1 / f < w"
  using assms by (auto simp: vh_refused_def)

end
