(* ===== verification/Streaming.thy ===== *)
theory Streaming
  imports Trajectory
begin

section \<open>Value types of the interface and the streaming session\<close>

text \<open>
  The value types of \<open>interface/value_types.h\<close> (requests, setpoints, results, result codes) and
  \<open>StreamingSession\<close> (\<open>interface/streaming_session.h\<close> and \<open>.cpp\<close>): which pairs of setpoint kind
  and control mode are supported, \<open>open\<close>, \<open>close\<close>, \<open>admit\<close> and \<open>expired\<close>. Identifiers and
  tokens are the 128 bits of the 16-byte arrays, which are only copied and compared; \<open>Token{}\<close> is 0.
\<close>

type_synonym goal_id = "128 word"
type_synonym token = "128 word"

datatype arbitration_mode = ArbEnforced | ArbDisabled

datatype halt_reason = HrOwnershipRevoked | HrEmergencyStop | HrOperatorRequest
  | HrArmUnavailable | HrContact

datatype stream_close_cause = CcNone | CcClientRequest | CcDeadlineExpired | CcHalted
  | CcIkFault | CcContact

datatype setpoint_kind = SkJointPosition | SkEePose | SkJointVelocity | SkEeTwist | SkJointTorque

record impedance_gain_values =
  ig_kq :: jointvec
  ig_zeta :: dbl
  ig_torque_limit :: jointvec

datatype gains_profile = GpSessionDefault | GpSoft | GpMedium | GpStiff | GpCustom | GpUnknown nat

text \<open>
  \<open>GainsProfile\<close> is read off the wire as an integer: \<open>GpUnknown\<close> stands for a value outside the
  enumeration, which the code guards against (\<open>known_profile\<close>).
\<close>

record impedance_gains =
  ig_profile :: gains_profile
  ig_custom :: impedance_gain_values

definition impedance_gain_values0 :: impedance_gain_values where
  "impedance_gain_values0 = \<lparr>ig_kq = vzero, ig_zeta = Fin (1/2), ig_torque_limit = vzero\<rparr>"

definition impedance_gains0 :: impedance_gains where
  "impedance_gains0 = \<lparr>ig_profile = GpSessionDefault, ig_custom = impedance_gain_values0\<rparr>"

record stream_open_request =
  so_kind :: setpoint_kind
  so_control_mode :: control_mode_kind
  so_timeout_s :: dbl
  so_gains :: impedance_gains
  so_token :: token

record stream_open_result =
  sr_accepted :: bool
  sr_error_code :: int
  sr_message :: string

record trajectory_goal =
  tg_trajectory :: trajectory
  tg_path_tolerance :: jointvec
  tg_goal_tolerance :: jointvec
  tg_goal_time_tolerance_s :: dbl
  tg_speed_scale :: dbl
  tg_control_mode :: control_mode_kind
  tg_preemption :: preemption
  tg_gains :: impedance_gains
  tg_sender_id :: string
  tg_token :: token

record trajectory_feedback =
  tf_desired :: jointvec
  tf_actual :: jointvec
  tf_error :: jointvec
  tf_fraction_complete :: dbl

record trajectory_result =
  trr_error_code :: int
  trr_error_string :: string
  trr_final_error :: jointvec

record stream_status =
  ss_open :: bool
  ss_kind :: setpoint_kind
  ss_control_mode :: control_mode_kind
  ss_timeout_s :: dbl
  ss_rejected_count :: "64 word"

datatype goal_response = GrAccept | GrReject | GrRejectUnauthorized

datatype cancel_response = CrAccept | CrReject

definition kSuccessful :: int where "kSuccessful = 0"
definition kInvalidGoal :: int where "kInvalidGoal = - 1"
definition kGoalToleranceViolated :: int where "kGoalToleranceViolated = - 5"
definition kPreempted :: int where "kPreempted = - 6"
definition kNotAuthorized :: int where "kNotAuthorized = - 8"
definition kHalted :: int where "kHalted = - 9"
definition kStreamRejected :: int where "kStreamRejected = - 10"
definition kContactStop :: int where "kContactStop = - 11"

lemmas result_code_defs = kSuccessful_def kInvalidGoal_def kGoalToleranceViolated_def kPreempted_def
  kNotAuthorized_def kHalted_def kStreamRejected_def kContactStop_def kPathToleranceViolated_def kExecOk_def

subsection \<open>The session\<close>

definition pair_supported :: "setpoint_kind \<Rightarrow> control_mode_kind \<Rightarrow> bool" where
  "pair_supported k m = (case k of
       SkJointPosition \<Rightarrow> m = KPosition \<or> m = KImpedance
     | SkEePose \<Rightarrow> m = KImpedance \<or> m = KPosition
     | SkJointTorque \<Rightarrow> m = KTorque
     | SkJointVelocity \<Rightarrow> m = KVelocity \<or> m = KImpedance
     | SkEeTwist \<Rightarrow> m = KVelocity \<or> m = KImpedance)"

record streaming_session =
  st_open :: bool
  st_kind :: setpoint_kind
  st_mode :: control_mode_kind
  st_timeout_s :: dbl
  st_last_s :: dbl
  st_rejected :: "64 word"

definition streaming_session0 :: streaming_session where
  "streaming_session0 = \<lparr>st_open = False, st_kind = SkJointPosition, st_mode = KPosition,
     st_timeout_s = Fin (1/10), st_last_s = Fin 0, st_rejected = 0\<rparr>"

definition stream_refused :: "string \<Rightarrow> stream_open_result" where
  "stream_refused msg = \<lparr>sr_accepted = False, sr_error_code = kStreamRejected, sr_message = msg\<rparr>"

definition session_open :: "streaming_session \<Rightarrow> stream_open_request \<Rightarrow> dbl \<Rightarrow> stream_open_result \<times> streaming_session" where
  "session_open s r now_s =
     (if st_open s then (stream_refused ''a session is already open; close it first'', s)
      else if so_timeout_s r \<le> Fin 0
        then (stream_refused ''timeout_s must be > 0: an unbounded stream has no safe-stop'', s)
      else if \<not> pair_supported (so_kind r) (so_control_mode r)
        then (stream_refused ''unsupported (setpoint kind, control mode) pair'', s)
      else (\<lparr>sr_accepted = True, sr_error_code = 0, sr_message = []\<rparr>,
            s\<lparr>st_kind := so_kind r, st_mode := so_control_mode r, st_timeout_s := so_timeout_s r,
              st_last_s := now_s, st_open := True\<rparr>))"

definition session_close :: "streaming_session \<Rightarrow> streaming_session" where
  "session_close s = s\<lparr>st_open := False\<rparr>"

definition session_admit :: "streaming_session \<Rightarrow> setpoint_kind \<Rightarrow> dbl \<Rightarrow> bool \<times> streaming_session" where
  "session_admit s k now_s =
     (if \<not> st_open s \<or> k \<noteq> st_kind s then (False, s\<lparr>st_rejected := st_rejected s + 1\<rparr>)
      else (True, s\<lparr>st_last_s := now_s\<rparr>))"

definition session_expired :: "streaming_session \<Rightarrow> dbl \<Rightarrow> bool" where
  "session_expired s now_s = (if \<not> st_open s then False else st_timeout_s s < now_s - st_last_s s)"

lemmas session_defs = session_open_def session_close_def session_admit_def session_expired_def

text \<open>
  An open session always has a supported pair, and a timeout that is not zero or negative. A NaN
  timeout passes \<open>open\<close> (the comparison is false) and then never expires: the Supervisor's
  \<open>open_stream\<close> does not check it either.
\<close>

definition session_wf :: "streaming_session \<Rightarrow> bool" where
  "session_wf s \<longleftrightarrow> (st_open s \<longrightarrow> pair_supported (st_kind s) (st_mode s) \<and> \<not> st_timeout_s s \<le> Fin 0)"

lemma session_wf_init: "session_wf streaming_session0"
  by (simp add: session_wf_def streaming_session0_def)

lemma session_wf_open: "session_wf s \<Longrightarrow> session_wf (snd (session_open s r now))"
  by (simp add: session_wf_def session_open_def)

lemma session_wf_close: "session_wf (session_close s)"
  by (simp add: session_wf_def session_close_def)

lemma session_wf_admit: "session_wf s \<Longrightarrow> session_wf (snd (session_admit s k now))"
  by (simp add: session_wf_def session_admit_def)

lemma session_open_accepted_iff:
  "sr_accepted (fst (session_open s r now)) \<longleftrightarrow>
     \<not> st_open s \<and> \<not> so_timeout_s r \<le> Fin 0 \<and> pair_supported (so_kind r) (so_control_mode r)"
  by (simp add: session_open_def stream_refused_def)

lemma session_open_refused: "\<not> sr_accepted (fst (session_open s r now)) \<Longrightarrow> snd (session_open s r now) = s"
  by (simp add: session_open_def split: if_splits)

lemma session_admit_iff: "fst (session_admit s k now) \<longleftrightarrow> st_open s \<and> k = st_kind s"
  by (auto simp: session_admit_def)

lemma session_admit_frame [simp]:
  "st_open (snd (session_admit s k now)) = st_open s"
  "st_kind (snd (session_admit s k now)) = st_kind s"
  "st_mode (snd (session_admit s k now)) = st_mode s"
  "st_timeout_s (snd (session_admit s k now)) = st_timeout_s s"
  by (simp_all add: session_admit_def)

text \<open>A setpoint of another shape, however often it is sent, does not keep the session alive.\<close>

fun session_setpoints :: "streaming_session \<Rightarrow> (setpoint_kind \<times> dbl) list \<Rightarrow> streaming_session" where
  "session_setpoints s [] = s"
| "session_setpoints s ((k, now) # xs) = session_setpoints (snd (session_admit s k now)) xs"

definition accepted_times :: "setpoint_kind \<Rightarrow> (setpoint_kind \<times> dbl) list \<Rightarrow> dbl list" where
  "accepted_times k xs = map snd (filter (\<lambda>x. fst x = k) xs)"

lemma session_setpoints_open:
  assumes "st_open s"
  shows "st_open (session_setpoints s xs) \<and> st_timeout_s (session_setpoints s xs) = st_timeout_s s \<and>
    st_kind (session_setpoints s xs) = st_kind s \<and>
    st_last_s (session_setpoints s xs) = last (st_last_s s # accepted_times (st_kind s) xs)"
  using assms
proof (induction xs arbitrary: s)
  case Nil
  then show ?case by (simp add: accepted_times_def)
next
  case (Cons x xs)
  obtain k now where x: "x = (k, now)" by (cases x)
  show ?case
    using Cons.IH [of "snd (session_admit s k now)"] Cons.prems x
    by (auto simp: session_admit_def accepted_times_def)
qed

text \<open>
  The deadline of a streaming session: after an accepted open at a finite time and any
  sequence of setpoints, the session counts as expired exactly when more than its timeout has
  passed since the last setpoint of its own kind (or the open); setpoints of another kind never
  extend it.
\<close>

theorem session_deadline:
  assumes "sr_accepted (fst (session_open s r t0))"
  shows "session_expired (session_setpoints (snd (session_open s r t0)) xs) now \<longleftrightarrow>
           so_timeout_s r < now - last (t0 # accepted_times (so_kind r) xs)"
proof -
  let ?s = "snd (session_open s r t0)"
  have o: "st_open ?s" "st_timeout_s ?s = so_timeout_s r" "st_kind ?s = so_kind r" "st_last_s ?s = t0"
    using assms by (auto simp: session_open_def stream_refused_def split: if_splits)
  show ?thesis
    using session_setpoints_open [OF o(1), of xs] o by (simp add: session_expired_def)
qed

definition demo_open_request :: stream_open_request where
  "demo_open_request = \<lparr>so_kind = SkEePose, so_control_mode = KPosition, so_timeout_s = Fin (1/10),
     so_gains = impedance_gains0, so_token = 0\<rparr>"

theorem session_deadline_witness:
  "session_expired (session_setpoints (snd (session_open streaming_session0 demo_open_request (Fin 1)))
     [(SkEePose, Fin (11/10)), (SkJointTorque, Fin (12/10))]) (Fin (13/10))"
  using session_deadline [of streaming_session0 demo_open_request "Fin 1"
      "[(SkEePose, Fin (11/10)), (SkJointTorque, Fin (12/10))]" "Fin (13/10)"]
  by (simp add: session_open_def streaming_session0_def demo_open_request_def pair_supported_def accepted_times_def)

end
