(* ===== verification/Ports.thy ===== *)
theory Ports
  imports Streaming Contact_Monitor
begin

section \<open>The ports of the driver\<close>

text \<open>
  The remaining messages of \<open>interface/value_types.h\<close> and the driving ports of
  \<open>interface/ports.h\<close>. An abstract class with virtual methods is a record of functions over the
  state \<open>'d\<close> of whatever implements it: each field is one method, taking the request and the state
  to the reply and the new state. Of a message that prints numbers, only its leading literal text
  is kept.
\<close>

subsection \<open>Messages\<close>

record joint_setpoint =
  js_values :: jointvec
  js_token :: token

record pose_setpoint =
  ps_pose :: pose
  ps_token :: token

record twist_setpoint =
  ts_twist :: vector6
  ts_token :: token

record gripper_setpoint =
  gs_command :: gripper_command
  gs_token :: token

record gripper_state =
  gp_position :: dbl
  gp_effort :: dbl
  gp_current :: dbl
  gp_present :: bool
  gp_stamp_s :: dbl

record stream_close_request =
  sc_token :: token

record gains_request =
  gq_spec :: impedance_gains
  gq_token :: token

record gains_result =
  gt_accepted :: bool
  gt_message :: string

record speed_override_request =
  sov_scale :: dbl
  sov_sender_id :: string
  sov_token :: token

record speed_result =
  sp_accepted :: bool
  sp_message :: string

record contact_thresholds_result =
  cr_accepted :: bool
  cr_message :: string
  cr_profile :: contact_profile
  cr_theta :: jointvec

record contact_state =
  cst_enabled :: bool
  cst_profile :: contact_profile
  cst_status :: contact_status

record cancel_request =
  cq_id :: goal_id
  cq_token :: token

record arm_state =
  as_q :: jointvec
  as_qd :: jointvec
  as_tau :: jointvec
  as_ee_pose :: pose
  as_ee_twist :: vector6
  as_ee_wrench :: vector6
  as_fault :: bool
  as_stamp_s :: dbl
  as_speed_override :: dbl

record grant_result =
  gtr_accepted :: bool
  gtr_token :: token
  gtr_generation :: "64 word"
  gtr_message :: string

record arbitration_status =
  ast_mode :: arbitration_mode
  ast_estopped :: bool
  ast_owned :: bool
  ast_owner_id :: string
  ast_generation :: "64 word"
  ast_rejected_count :: "64 word"

subsection \<open>Ports\<close>

record 'd command_sink =
  csk_trajectory_goal :: "trajectory_goal \<Rightarrow> 'd \<Rightarrow> goal_response \<times> 'd"
  csk_trajectory_accepted :: "goal_id \<Rightarrow> trajectory_goal \<Rightarrow> 'd \<Rightarrow> 'd"
  csk_trajectory_cancel :: "cancel_request \<Rightarrow> 'd \<Rightarrow> cancel_response \<times> 'd"
  csk_set_gains :: "gains_request \<Rightarrow> 'd \<Rightarrow> gains_result \<times> 'd"
  csk_set_speed_override :: "speed_override_request \<Rightarrow> 'd \<Rightarrow> speed_result \<times> 'd"
  csk_query_state :: "'d \<Rightarrow> arm_state \<times> 'd"
  csk_set_contact_thresholds :: "contact_thresholds_request \<Rightarrow> 'd \<Rightarrow> contact_thresholds_result \<times> 'd"
  csk_query_contact :: "'d \<Rightarrow> contact_state \<times> 'd"
  csk_halt :: "halt_reason \<Rightarrow> 'd \<Rightarrow> 'd"

record 'd stream_sink =
  ssk_stream_open :: "stream_open_request \<Rightarrow> 'd \<Rightarrow> stream_open_result \<times> 'd"
  ssk_stream_close :: "stream_close_request \<Rightarrow> 'd \<Rightarrow> 'd"
  ssk_joint_position :: "joint_setpoint \<Rightarrow> 'd \<Rightarrow> 'd"
  ssk_joint_velocity :: "joint_setpoint \<Rightarrow> 'd \<Rightarrow> 'd"
  ssk_joint_torque :: "joint_setpoint \<Rightarrow> 'd \<Rightarrow> 'd"
  ssk_pose :: "pose_setpoint \<Rightarrow> 'd \<Rightarrow> 'd"
  ssk_twist :: "twist_setpoint \<Rightarrow> 'd \<Rightarrow> 'd"
  ssk_query_stream :: "'d \<Rightarrow> stream_status \<times> 'd"

record 'd gripper_sink =
  gsk_gripper_setpoint :: "gripper_setpoint \<Rightarrow> 'd \<Rightarrow> 'd"
  gsk_query_gripper :: "'d \<Rightarrow> gripper_state \<times> 'd"

text \<open>What all three have in common for the one object that is behind them (the Supervisor).\<close>

record 'd driver_sinks =
  ds_command :: "'d command_sink"
  ds_stream :: "'d stream_sink"
  ds_gripper :: "'d gripper_sink"

end
