(* ===== verification/Gains.thy ===== *)
theory Gains
  imports Streaming Impedance_Mode
begin

section \<open>Impedance gains: validation, profiles, resolution\<close>

text \<open>
  \<open>interface/gains.h\<close> and \<open>gains.cpp\<close>: the bounds check on custom gains, the named profiles, and
  the parameter set a command's gains specification stands for. A refusal's message is the datatype
  of the field refused (the text only adds the bounds); the exception of \<open>profile_params\<close> is a sum.
\<close>

definition kKqMin :: real where "kKqMin = 1"
definition kKqMax :: real where "kKqMax = 400"
definition kZetaMin :: real where "kZetaMin = 5 / 100"
definition kZetaMax :: real where "kZetaMax = 2"

definition kTorqueLimitFloor :: jointvec where
  "kTorqueLimitFloor = V7 (Fin (188/10)) (Fin (376/10)) (Fin (146/10)) (Fin (145/10)) (Fin (37/10)) (Fin (37/10)) (Fin (1/2))"

definition kTorqueLimitCeil :: jointvec where
  "kTorqueLimitCeil = V7 (Fin 39) (Fin 39) (Fin 39) (Fin 39) (Fin 9) (Fin 9) (Fin 9)"

datatype gains_error = GeZeta | GeKq nat | GeTorqueLimit nat | GeUnknownProfile | GeGainsInPositionGoal

definition outside :: "dbl \<Rightarrow> dbl \<Rightarrow> dbl \<Rightarrow> bool" where
  "outside x lo hi = (\<not> isfinite x \<or> x < lo \<or> hi < x)"

fun validate_joints :: "impedance_gain_values \<Rightarrow> nat list \<Rightarrow> gains_error option" where
  "validate_joints g [] = None"
| "validate_joints g (i # is) =
     (if outside (vnth (ig_kq g) i) (Fin kKqMin) (Fin kKqMax) then Some (GeKq i)
      else if outside (vnth (ig_torque_limit g) i) (vnth kTorqueLimitFloor i) (vnth kTorqueLimitCeil i)
        then Some (GeTorqueLimit i)
      else validate_joints g is)"

text \<open>\<open>None\<close> is the accepting result.\<close>

definition validate_custom :: "impedance_gain_values \<Rightarrow> gains_error option" where
  "validate_custom g =
     (if outside (ig_zeta g) (Fin kZetaMin) (Fin kZetaMax) then Some GeZeta
      else validate_joints g [0..<kNumJoints])"

datatype invalid_argument = NotANamedProfile

definition profile_params :: "gains_profile \<Rightarrow> invalid_argument + impedance_params" where
  "profile_params p = (case p of
       GpMedium \<Rightarrow> Inr impedance_params0
     | GpSoft \<Rightarrow> Inr (impedance_params0\<lparr>ip_Kq := V7 (Fin 40) (Fin 40) (Fin 40) (Fin 40) (Fin 15) (Fin 15) (Fin 15),
                     ip_zeta := Fin (4/10), ip_max_tracking_error := Fin (45/100)\<rparr>)
     | GpStiff \<Rightarrow> Inr (impedance_params0\<lparr>ip_Kq := V7 (Fin 160) (Fin 160) (Fin 160) (Fin 160) (Fin 60) (Fin 60) (Fin 60),
                     ip_zeta := Fin (7/10), ip_max_tracking_error := Fin (25/100)\<rparr>)
     | _ \<Rightarrow> Inl NotANamedProfile)"

definition known_profile :: "gains_profile \<Rightarrow> bool" where
  "known_profile p = (case p of GpUnknown _ \<Rightarrow> False | _ \<Rightarrow> True)"

definition overlay_profile_gains :: "impedance_params \<Rightarrow> impedance_params \<Rightarrow> impedance_params" where
  "overlay_profile_gains base profile =
     base\<lparr>ip_Kq := ip_Kq profile, ip_zeta := ip_zeta profile,
          ip_max_tracking_error := ip_max_tracking_error profile, ip_torque_limit := ip_torque_limit profile\<rparr>"

definition resolve_gains :: "impedance_gains \<Rightarrow> impedance_params \<Rightarrow> invalid_argument + impedance_params" where
  "resolve_gains s session_default =
     (case ig_profile s of
        GpSessionDefault \<Rightarrow> Inr session_default
      | GpCustom \<Rightarrow> Inr (session_default\<lparr>ip_Kq := ig_kq (ig_custom s), ip_zeta := ig_zeta (ig_custom s),
                                      ip_torque_limit := ig_torque_limit (ig_custom s)\<rparr>)
      | p \<Rightarrow> (case profile_params p of Inl e \<Rightarrow> Inl e
              | Inr jp \<Rightarrow> Inr (overlay_profile_gains session_default jp)))"

subsection \<open>What validation accepts\<close>

lemma validate_joints_None:
  "validate_joints g is = None \<longleftrightarrow> (\<forall>i \<in> set is. \<not> outside (vnth (ig_kq g) i) (Fin kKqMin) (Fin kKqMax) \<and>
     \<not> outside (vnth (ig_torque_limit g) i) (vnth kTorqueLimitFloor i) (vnth kTorqueLimitCeil i))"
  by (induction "is") auto

lemma not_outside_Fin: "\<not> outside x (Fin lo) (Fin hi) \<longleftrightarrow> (\<exists>v. x = Fin v \<and> lo \<le> v \<and> v \<le> hi)"
  by (cases x) (auto simp: outside_def)

lemma floor_ceil_Fin:
  "i < 7 \<Longrightarrow> vnth kTorqueLimitFloor i = Fin (dval (vnth kTorqueLimitFloor i)) \<and>
     vnth kTorqueLimitCeil i = Fin (dval (vnth kTorqueLimitCeil i)) \<and> 0 < dval (vnth kTorqueLimitFloor i)"
  by (erule less_7_cases) (simp_all add: kTorqueLimitFloor_def kTorqueLimitCeil_def)

text \<open>The floor as real numbers, and parameters whose clamp leaves that much room for gravity.\<close>

definition holds_floor :: "impedance_params \<Rightarrow> bool" where
  "holds_floor p \<longleftrightarrow> (\<forall>i < 7. \<exists>l. vnth (ip_torque_limit p) i = Fin l \<and> dval (vnth kTorqueLimitFloor i) \<le> l)"

lemma validate_custom_sound:
  assumes "validate_custom g = None"
  shows "(\<exists>z. ig_zeta g = Fin z \<and> kZetaMin \<le> z \<and> z \<le> kZetaMax) \<and>
    (\<forall>i < 7. (\<exists>k. vnth (ig_kq g) i = Fin k \<and> kKqMin \<le> k \<and> k \<le> kKqMax) \<and>
       (\<exists>l. vnth (ig_torque_limit g) i = Fin l \<and> dval (vnth kTorqueLimitFloor i) \<le> l \<and> l \<le> dval (vnth kTorqueLimitCeil i)))"
proof -
  have z: "\<not> outside (ig_zeta g) (Fin kZetaMin) (Fin kZetaMax)" and j: "validate_joints g [0..<7] = None"
    using assms by (simp_all add: validate_custom_def split: if_splits)
  have "(\<exists>k. vnth (ig_kq g) i = Fin k \<and> kKqMin \<le> k \<and> k \<le> kKqMax) \<and>
     (\<exists>l. vnth (ig_torque_limit g) i = Fin l \<and> dval (vnth kTorqueLimitFloor i) \<le> l \<and> l \<le> dval (vnth kTorqueLimitCeil i))"
    if i: "i < 7" for i
  proof -
    obtain f c where fc: "vnth kTorqueLimitFloor i = Fin f" "vnth kTorqueLimitCeil i = Fin c"
      using floor_ceil_Fin [OF i] by blast
    have "\<not> outside (vnth (ig_kq g) i) (Fin kKqMin) (Fin kKqMax)"
      "\<not> outside (vnth (ig_torque_limit g) i) (vnth kTorqueLimitFloor i) (vnth kTorqueLimitCeil i)"
      using j i by (simp_all add: validate_joints_None)
    then show ?thesis using fc by (simp add: not_outside_Fin)
  qed
  then show ?thesis using z by (simp add: not_outside_Fin)
qed

text \<open>A specification the accept-time checks let through.\<close>

definition spec_accepted :: "impedance_gains \<Rightarrow> bool" where
  "spec_accepted s \<longleftrightarrow> known_profile (ig_profile s) \<and> (ig_profile s = GpCustom \<longrightarrow> validate_custom (ig_custom s) = None)"

lemma profile_torque_limit:
  "profile_params p = Inr jp \<Longrightarrow> ip_torque_limit jp = default_torque_limit \<and> isfinite (ip_zeta jp) \<and>
     vfinite (ip_Kq jp) \<and> (\<exists>e. ip_max_tracking_error jp = Fin e \<and> 0 \<le> e)"
  by (auto simp: profile_params_def impedance_params0_def vfinite_iff split: gains_profile.splits elim!: less_7_cases
      intro: exI [of _ "35/100"] exI [of _ "45/100"] exI [of _ "25/100"])

lemma default_torque_limit_floor:
  "i < 7 \<Longrightarrow> \<exists>l. vnth default_torque_limit i = Fin l \<and> dval (vnth kTorqueLimitFloor i) \<le> l \<and> 0 \<le> l"
  by (erule less_7_cases) (simp_all add: default_torque_limit_def kTorqueLimitFloor_def)

text \<open>
  A gains specification that passes the accept-time checks always resolves, without an
  exception, to usable parameters: if the session default has usable gains and torque limits at or
  above the gravity floor, so has the result, and the fields a profile does not own (reference speed,
  ramp, timeout, IK) are the session default's.
\<close>

theorem accepted_gains_resolve:
  assumes s: "spec_accepted s" and d: "gains_ok d" "holds_floor d"
  shows "\<exists>jp. resolve_gains s d = Inr jp \<and> gains_ok jp \<and> holds_floor jp \<and>
    ip_max_ref_speed jp = ip_max_ref_speed d \<and> ip_gain_ramp_s jp = ip_gain_ramp_s d \<and>
    ip_cmd_timeout_s jp = ip_cmd_timeout_s d \<and> ip_ik jp = ip_ik d"
proof -
  consider (dflt) "ig_profile s = GpSessionDefault" | (custom) "ig_profile s = GpCustom"
    | (named) "\<exists>jp. profile_params (ig_profile s) = Inr jp \<and> resolve_gains s d = Inr (overlay_profile_gains d jp)"
    using s by (cases "ig_profile s") (auto simp: spec_accepted_def known_profile_def profile_params_def resolve_gains_def)
  then show ?thesis
  proof cases
    case dflt
    then show ?thesis using d by (simp add: resolve_gains_def)
  next
    case custom
    let ?g = "ig_custom s"
    have v: "validate_custom ?g = None" using s custom by (simp add: spec_accepted_def)
    note V = validate_custom_sound [OF v]
    have "isfinite (ig_zeta ?g)" "vfinite (ig_kq ?g)" using V by (auto simp: vfinite_iff isfinite_iff)
    moreover have "\<exists>l. vnth (ig_torque_limit ?g) i = Fin l \<and> dval (vnth kTorqueLimitFloor i) \<le> l \<and> 0 \<le> l" if "i < 7" for i
      using V that floor_ceil_Fin [OF that] by (meson less_eq_real_def order_trans)
    ultimately show ?thesis using custom d by (simp add: resolve_gains_def gains_ok_def holds_floor_def) meson
  next
    case named
    then obtain jp where jp: "profile_params (ig_profile s) = Inr jp" "resolve_gains s d = Inr (overlay_profile_gains d jp)" by blast
    show ?thesis
      using jp(2) profile_torque_limit [OF jp(1)] default_torque_limit_floor d(1)
      by (auto simp: overlay_profile_gains_def gains_ok_def holds_floor_def)
  qed
qed

definition custom_spec :: impedance_gains where
  "custom_spec = \<lparr>ig_profile = GpCustom, ig_custom = \<lparr>ig_kq = vconst (Fin 100), ig_zeta = Fin 1,
     ig_torque_limit = kTorqueLimitFloor\<rparr>\<rparr>"

lemma custom_spec_accepted: "spec_accepted custom_spec"
  by (auto simp: spec_accepted_def custom_spec_def known_profile_def validate_custom_def validate_joints_None outside_def
      kZetaMin_def kZetaMax_def kKqMin_def kKqMax_def kTorqueLimitFloor_def kTorqueLimitCeil_def elim!: less_7_cases)

lemma demo_holds_floor: "holds_floor (seed_impedance_limits demo_dynamics impedance_params0)"
  using default_torque_limit_floor
  by (auto simp: holds_floor_def seed_impedance_limits_def impedance_params0_def)

theorem accepted_gains_resolve_witness:
  "\<exists>jp. resolve_gains custom_spec (seed_impedance_limits demo_dynamics impedance_params0) = Inr jp \<and> holds_floor jp"
  using accepted_gains_resolve [OF custom_spec_accepted demo_gains_ok demo_holds_floor] by blast

end
