(* ===== verification/Seqlock.thy ===== *)
theory Seqlock
  imports Joint_Types
begin

section \<open>The sequence lock and the feedback tap\<close>

text \<open>
  \<open>Seqlock\<close> and \<open>FeedbackTap\<close> (\<open>feedback_tap.h\<close>): one writer, a reader that copies the value while it
  may be written and retries up to 16 times. The stored value is a list of cells that are copied one by
  one, and the two threads interleave at every access; a memory order weaker than interleaving is not
  modelled. The counter is the 32-bit word of the code.
\<close>

datatype 'a writer_pc = WIdle | WWriting "'a list" nat

datatype 'a reader_pc = RStart nat | RCopy nat "32 word" nat "'a list" | RCheck nat "32 word" "'a list"
  | RDone "'a list" | RFail

record 'a seqlock =
  sq_seq :: "32 word"
  sq_data :: "'a list"
  sq_writer :: "'a writer_pc"
  sq_reader :: "'a reader_pc"

definition kLoadAttempts :: nat where
  "kLoadAttempts = 16"

definition sq_init :: "'a list \<Rightarrow> 'a seqlock" where
  "sq_init v = \<lparr>sq_seq = 0, sq_data = v, sq_writer = WIdle, sq_reader = RStart 0\<rparr>"

text \<open>\<open>store\<close>: mark the write in progress, copy the cells, publish.\<close>

definition sq_store_begin :: "'a list \<Rightarrow> 'a seqlock \<Rightarrow> 'a seqlock" where
  "sq_store_begin v s = (case sq_writer s of
       WIdle \<Rightarrow> s\<lparr>sq_seq := sq_seq s + 1, sq_writer := WWriting v 0\<rparr> | _ \<Rightarrow> s)"

definition sq_store_step :: "'a seqlock \<Rightarrow> 'a seqlock" where
  "sq_store_step s = (case sq_writer s of
       WIdle \<Rightarrow> s
     | WWriting v k \<Rightarrow>
         if k < length v then s\<lparr>sq_data := (sq_data s)[k := v ! k], sq_writer := WWriting v (Suc k)\<rparr>
         else s\<lparr>sq_seq := sq_seq s + 1, sq_writer := WIdle\<rparr>)"

text \<open>\<open>load\<close>: read the counter, skip an odd one, copy the cells, compare the counter.\<close>

definition sq_load_step :: "'a seqlock \<Rightarrow> 'a seqlock" where
  "sq_load_step s = (case sq_reader s of
       RStart i \<Rightarrow>
         (if i < kLoadAttempts
          then if odd (uint (sq_seq s)) then s\<lparr>sq_reader := RStart (Suc i)\<rparr>
               else s\<lparr>sq_reader := RCopy i (sq_seq s) 0 []\<rparr>
          else s\<lparr>sq_reader := RFail\<rparr>)
     | RCopy i s1 k out \<Rightarrow>
         (if k < length (sq_data s) then s\<lparr>sq_reader := RCopy i s1 (Suc k) (out @ [sq_data s ! k])\<rparr>
          else s\<lparr>sq_reader := RCheck i s1 out\<rparr>)
     | RCheck i s1 out \<Rightarrow>
         (if sq_seq s = s1 then s\<lparr>sq_reader := RDone out\<rparr> else s\<lparr>sq_reader := RStart (Suc i)\<rparr>)
     | _ \<Rightarrow> s)"

definition sq_load_begin :: "'a seqlock \<Rightarrow> 'a seqlock" where
  "sq_load_begin s = (case sq_reader s of RDone _ \<Rightarrow> s\<lparr>sq_reader := RStart 0\<rparr> | RFail \<Rightarrow> s\<lparr>sq_reader := RStart 0\<rparr> | _ \<Rightarrow> s)"

text \<open>The counter seen from outside.\<close>

definition sq_version :: "'a seqlock \<Rightarrow> 32 word" where
  "sq_version s = sq_seq s"

text \<open>
  All interleavings, with a history: the values stored so far (the initial one first), how many of the
  stores are complete, and how many were complete when the reader's current attempt began.
\<close>

inductive sq_reach :: "nat \<Rightarrow> 'a seqlock \<Rightarrow> 'a list list \<Rightarrow> nat \<Rightarrow> nat \<Rightarrow> bool" for n where
  init: "length v = n \<Longrightarrow> sq_reach n (sq_init v) [v] 0 0"
| store_begin: "sq_reach n s h c c1 \<Longrightarrow> sq_writer s = WIdle \<Longrightarrow> length v = n \<Longrightarrow>
    sq_reach n (sq_store_begin v s) (h @ [v]) c c1"
| store_cell: "sq_reach n s h c c1 \<Longrightarrow> sq_writer s = WWriting v k \<Longrightarrow> k < length v \<Longrightarrow>
    sq_reach n (sq_store_step s) h c c1"
| store_end: "sq_reach n s h c c1 \<Longrightarrow> sq_writer s = WWriting v k \<Longrightarrow> \<not> k < length v \<Longrightarrow>
    sq_reach n (sq_store_step s) h (Suc c) c1"
| load_begin: "sq_reach n s h c c1 \<Longrightarrow> sq_reach n (sq_load_begin s) h c c1"
| load_attempt: "sq_reach n s h c c1 \<Longrightarrow> sq_reader s = RStart i \<Longrightarrow> sq_reach n (sq_load_step s) h c c"
| load_step: "sq_reach n s h c c1 \<Longrightarrow> (\<forall>i. sq_reader s \<noteq> RStart i) \<Longrightarrow>
    c - c1 < 2 ^ 30 \<Longrightarrow> sq_reach n (sq_load_step s) h c c1"

definition writing :: "'a seqlock \<Rightarrow> nat" where
  "writing s = (case sq_writer s of WIdle \<Rightarrow> 0 | WWriting v k \<Rightarrow> 1)"

text \<open>The writer's invariant.\<close>

definition sq_writer_ok :: "nat \<Rightarrow> 'a seqlock \<Rightarrow> 'a list list \<Rightarrow> nat \<Rightarrow> bool" where
  "sq_writer_ok n s h c \<longleftrightarrow> sq_seq s = of_nat (2 * c + writing s) \<and> length h = c + 1 + writing s \<and>
     length (sq_data s) = n \<and> (\<forall>v \<in> set h. length v = n) \<and>
     (case sq_writer s of
        WIdle \<Rightarrow> sq_data s = h ! c
      | WWriting v k \<Rightarrow> v = h ! Suc c \<and> k \<le> n \<and> take k (sq_data s) = take k v)"

text \<open>The reader's: while nothing was stored since its attempt began, its copy agrees with the value.\<close>

definition sq_reader_ok :: "'a seqlock \<Rightarrow> 'a list list \<Rightarrow> nat \<Rightarrow> nat \<Rightarrow> bool" where
  "sq_reader_ok s h c c1 \<longleftrightarrow> c1 \<le> c \<and>
     (case sq_reader s of
        RCopy i s1 k out \<Rightarrow> s1 = of_nat (2 * c1) \<and> k \<le> length (sq_data s) \<and>
          (c = c1 \<and> sq_writer s = WIdle \<longrightarrow> out = take k (sq_data s))
      | RCheck i s1 out \<Rightarrow> s1 = of_nat (2 * c1) \<and> (c = c1 \<and> sq_writer s = WIdle \<longrightarrow> out = sq_data s)
      | RDone out \<Rightarrow> c1 < length h \<and> out = h ! c1
      | _ \<Rightarrow> True)"

lemma seq_parity: "odd (uint (of_nat m :: 32 word)) = odd m"
proof -
  have "uint (of_nat m :: 32 word) = int (m mod 2 ^ 32)"
    by (simp add: unsigned_of_nat take_bit_eq_mod)
  moreover have "odd (m mod 2 ^ 32) = odd m" by (simp add: odd_iff_mod_2_eq_one mod_mod_cancel)
  ultimately show ?thesis by (metis even_of_nat)
qed

lemma seq_inj:
  assumes "(of_nat a :: 32 word) = of_nat b" and "b \<le> a" and "a - b < 2 ^ 32"
  shows "a = b"
proof -
  have "(of_nat (a - b) :: 32 word) = 0" using assms(1,2) by (simp add: of_nat_diff)
  then have "2 ^ 32 dvd a - b" by (simp add: word_of_nat_eq_0_iff)
  then show ?thesis using assms(2,3) by (auto dest: dvd_imp_le)
qed

lemma sq_writer_begin:
  assumes "sq_writer_ok n s h c" and "sq_writer s = WIdle" and "length v = n"
  shows "sq_writer_ok n (sq_store_begin v s) (h @ [v]) c"
  using assms by (auto simp: sq_writer_ok_def sq_store_begin_def writing_def nth_append)

lemma sq_writing:
  assumes "sq_writer_ok n s h c" and "sq_writer s = WWriting v k"
  shows "v = h ! Suc c" "k \<le> n" "take k (sq_data s) = take k v" "length (sq_data s) = n" "length v = n"
    "length h = Suc (Suc c)" "sq_seq s = of_nat (2 * c + 1)" "\<forall>v \<in> set h. length v = n"
proof -
  have *: "writing s = 1" using assms(2) by (simp add: writing_def)
  show v: "v = h ! Suc c" and "k \<le> n" and "take k (sq_data s) = take k v" and "length (sq_data s) = n"
    and l: "length h = Suc (Suc c)" and "sq_seq s = of_nat (2 * c + 1)" and all: "\<forall>v \<in> set h. length v = n"
    using assms(1) unfolding sq_writer_ok_def * assms(2) by simp_all
  show "length v = n" using v l all by (metis lessI nth_mem)
qed

lemma sq_writer_cell:
  assumes "sq_writer_ok n s h c" and "sq_writer s = WWriting v k" and "k < length v"
  shows "sq_writer_ok n (sq_store_step s) h c"
proof -
  note v = sq_writing [OF assms(1,2)]
  have "take (Suc k) ((sq_data s)[k := v ! k]) = take (Suc k) v"
    using v(3-5) assms(3) by (simp add: take_Suc_conv_app_nth)
  moreover have "sq_store_step s = s\<lparr>sq_data := (sq_data s)[k := v ! k], sq_writer := WWriting v (Suc k)\<rparr>"
    using assms(2,3) by (simp add: sq_store_step_def)
  ultimately show ?thesis using v assms(3) by (simp add: sq_writer_ok_def writing_def Suc_le_eq)
qed

lemma sq_writer_end:
  assumes "sq_writer_ok n s h c" and "sq_writer s = WWriting v k" and "\<not> k < length v"
  shows "sq_writer_ok n (sq_store_step s) h (Suc c)"
proof -
  note v = sq_writing [OF assms(1,2)]
  have k: "k = n" using v(2,5) assms(3) by simp
  have "sq_data s = v" using v(3,4,5) k by (metis order_refl take_all)
  moreover have "sq_seq s + 1 = of_nat (2 * Suc c)" "length h = Suc c + 1"
    using v(6,7) by simp_all
  moreover have "sq_store_step s = s\<lparr>sq_seq := sq_seq s + 1, sq_writer := WIdle\<rparr>"
    using assms(2,3) by (simp add: sq_store_step_def)
  ultimately show ?thesis using v by (simp add: sq_writer_ok_def writing_def)
qed

lemma sq_load_frame [simp]:
  "sq_seq (sq_load_step s) = sq_seq s" "sq_data (sq_load_step s) = sq_data s" "sq_writer (sq_load_step s) = sq_writer s"
  "sq_seq (sq_load_begin s) = sq_seq s" "sq_data (sq_load_begin s) = sq_data s" "sq_writer (sq_load_begin s) = sq_writer s"
  by (simp_all add: sq_load_step_def sq_load_begin_def split: reader_pc.splits)

lemma sq_writer_load [simp]:
  "sq_writer_ok n (sq_load_step s) h c = sq_writer_ok n s h c"
  "sq_writer_ok n (sq_load_begin s) h c = sq_writer_ok n s h c"
  by (cases "sq_writer s"; simp add: sq_writer_ok_def writing_def)+

lemma sq_reader_attempt:
  assumes "sq_writer_ok n s h c" and "sq_reader s = RStart i"
  shows "sq_reader_ok (sq_load_step s) h c c"
proof (cases "odd (uint (sq_seq s))")
  case False
  then have "even (2 * c + writing s)" using assms(1) seq_parity [of "2 * c + writing s"] by (simp add: sq_writer_ok_def)
  then have "writing s = 0" by (simp add: writing_def split: writer_pc.splits if_splits)
  then show ?thesis using assms False by (auto simp: sq_reader_ok_def sq_load_step_def sq_writer_ok_def)
qed (use assms in \<open>auto simp: sq_reader_ok_def sq_load_step_def\<close>)

lemma sq_reader_step:
  assumes w: "sq_writer_ok n s h c" and r: "sq_reader_ok s h c c1" and ns: "\<forall>i. sq_reader s \<noteq> RStart i"
    and b: "c - c1 < 2 ^ 30"
  shows "sq_reader_ok (sq_load_step s) h c c1"
proof (cases "sq_reader s")
  case (RCopy i s1 k out)
  then show ?thesis
    using r by (auto simp: sq_reader_ok_def sq_load_step_def take_Suc_conv_app_nth)
next
  case (RCheck i s1 out)
  have s1: "s1 = of_nat (2 * c1)" "c1 \<le> c" using r RCheck by (auto simp: sq_reader_ok_def)
  show ?thesis
  proof (cases "sq_seq s = s1")
    case True
    then have "(of_nat (2 * c + writing s) :: 32 word) = of_nat (2 * c1)"
      using w s1(1) by (simp only: sq_writer_ok_def)
    moreover have "writing s \<le> 1" by (simp add: writing_def split: writer_pc.splits)
    ultimately have "2 * c + writing s = 2 * c1" using seq_inj [of "2 * c + writing s" "2 * c1"] s1(2) b by auto
    moreover have "writing s = 0" using calculation \<open>writing s \<le> 1\<close> by presburger
    ultimately have "c = c1" "sq_writer s = WIdle" by (auto simp: writing_def split: writer_pc.splits)
    then show ?thesis using w r RCheck True by (auto simp: sq_reader_ok_def sq_load_step_def sq_writer_ok_def writing_def)
  next
    case False
    then show ?thesis using RCheck s1 by (auto simp: sq_reader_ok_def sq_load_step_def)
  qed
qed (use r ns in \<open>auto simp: sq_reader_ok_def sq_load_step_def\<close>)

lemma sq_invariant: "sq_reach n s h c c1 \<Longrightarrow> sq_writer_ok n s h c \<and> sq_reader_ok s h c c1"
proof (induction rule: sq_reach.induct)
  case (init v)
  then show ?case by (simp add: sq_init_def sq_writer_ok_def sq_reader_ok_def writing_def)
next
  case (store_begin s h c c1 v)
  have "sq_writer_ok n (sq_store_begin v s) (h @ [v]) c" using sq_writer_begin store_begin by blast
  moreover have "sq_reader_ok (sq_store_begin v s) (h @ [v]) c c1"
    using store_begin by (cases "sq_reader s") (simp_all add: sq_reader_ok_def sq_store_begin_def nth_append)
  ultimately show ?case ..
next
  case (store_cell s h c c1 v k)
  have "sq_writer_ok n (sq_store_step s) h c" using sq_writer_cell store_cell by blast
  moreover have "sq_reader_ok (sq_store_step s) h c c1"
    using store_cell by (cases "sq_reader s") (simp_all add: sq_reader_ok_def sq_store_step_def)
  ultimately show ?case ..
next
  case (store_end s h c c1 v k)
  have "sq_writer_ok n (sq_store_step s) h (Suc c)" using sq_writer_end store_end by blast
  moreover have "sq_reader_ok (sq_store_step s) h (Suc c) c1"
    using store_end by (cases "sq_reader s") (simp_all add: sq_reader_ok_def sq_store_step_def)
  ultimately show ?case ..
next
  case (load_begin s h c c1)
  have "sq_reader_ok (sq_load_begin s) h c c1"
    using load_begin by (cases "sq_reader s") (simp_all add: sq_reader_ok_def sq_load_begin_def)
  then show ?case using load_begin by simp
next
  case (load_attempt s h c c1 i)
  then show ?case using sq_reader_attempt [of n s h c i] by simp
next
  case (load_step s h c c1)
  then show ?case using sq_reader_step [of n s h c c1] by simp
qed

text \<open>
  Claim C38. No torn read: however writer and reader interleave, cell by cell, a load that returns true
  has copied exactly one stored value, and it is the last one whose store was complete when the
  successful attempt began (fewer than 2^30 stores per attempt, which the 32-bit counter needs).
\<close>

theorem seqlock_no_torn_read:
  assumes "sq_reach n s h c c1" and "sq_reader s = RDone out"
  shows "c1 < length h \<and> out = h ! c1"
  using sq_invariant [OF assms(1)] assms(2) by (simp add: sq_reader_ok_def)

text \<open>A reader that is overtaken by a store, retries, and returns the new value.\<close>

theorem seqlock_no_torn_read_witness:
  "\<exists>s h. sq_reach 2 (s :: nat seqlock) h 1 1 \<and> sq_reader s = RDone [8, 9] \<and> h ! 1 = [8, 9]"
proof -
  let ?s0 = "sq_init [1, 2 :: nat]" and ?h = "[[1, 2], [8, 9 :: nat]]"
  note defs = sq_init_def sq_load_step_def sq_store_begin_def sq_store_step_def kLoadAttempts_def
  let ?s1 = "sq_load_step (sq_load_step ?s0)"
  have 1: "sq_reach 2 ?s1 [[1, 2]] 0 0"
    by (rule sq_reach.load_step [OF sq_reach.load_attempt [OF sq_reach.init]]) (simp_all add: defs)
  let ?s2 = "sq_store_step (sq_store_begin [8, 9] ?s1)"
  have 2: "sq_reach 2 ?s2 ?h 0 0"
    using sq_reach.store_cell [OF sq_reach.store_begin [OF 1, of "[8, 9]"], of "[8, 9]" 0] by (simp add: defs)
  have 3: "sq_reach 2 (sq_load_step ?s2) ?h 0 0"
    by (rule sq_reach.load_step [OF 2]) (simp_all add: defs)
  have 4: "sq_reach 2 (sq_store_step (sq_store_step (sq_load_step ?s2))) ?h 1 0"
    using sq_reach.store_end [OF sq_reach.store_cell [OF 3, of "[8, 9]" 1], of "[8, 9]" 2] by (simp add: defs)
  let ?s4 = "sq_store_step (sq_store_step (sq_load_step ?s2))"
  have 5: "sq_reach 2 (sq_load_step (sq_load_step ?s4)) ?h 1 0"
    by (rule sq_reach.load_step [OF sq_reach.load_step [OF 4]]) (simp_all add: defs)
  let ?s5 = "sq_load_step (sq_load_step ?s4)"
  have 6: "sq_reach 2 (sq_load_step ?s5) ?h 1 1"
    by (rule sq_reach.load_attempt [OF 5, of 1]) (simp add: defs)
  have 7: "sq_reach 2 (sq_load_step (sq_load_step (sq_load_step (sq_load_step (sq_load_step ?s5))))) ?h 1 1" (is "sq_reach 2 ?s7 _ _ _")
    by (rule sq_reach.load_step [OF sq_reach.load_step [OF sq_reach.load_step [OF sq_reach.load_step [OF 6]]]])
      (simp_all add: defs)
  have r: "sq_reader ?s7 = RDone [8, 9]" by (simp add: defs)
  show ?thesis
    by (rule exI, rule exI, intro conjI, rule 7, rule r, rule sym, rule conjunct2 [OF seqlock_no_torn_read [OF 7 r]])
qed

subsection \<open>The feedback tap\<close>

text \<open>
  Sequentially a Seqlock is its last stored value and a counter; the tap stores every feedback the
  wrapped transport hands back.
\<close>

record 'a snapshot =
  sn_value :: 'a
  sn_version :: "32 word"

definition sn_store :: "'a \<Rightarrow> 'a snapshot \<Rightarrow> 'a snapshot" where
  "sn_store v s = s\<lparr>sn_value := v, sn_version := sn_version s + 2\<rparr>"

definition ft_exchange :: "('t \<Rightarrow> joint_command \<Rightarrow> joint_feedback \<times> 't) \<Rightarrow> 't \<Rightarrow> joint_feedback snapshot \<Rightarrow> joint_command \<Rightarrow>
    joint_feedback \<times> 't \<times> joint_feedback snapshot" where
  "ft_exchange inner t snap c = (let (fb, t') = inner t c in (fb, t', sn_store fb snap))"

definition ft_receive :: "('t \<Rightarrow> joint_feedback \<times> 't) \<Rightarrow> 't \<Rightarrow> joint_feedback snapshot \<Rightarrow>
    joint_feedback \<times> 't \<times> joint_feedback snapshot" where
  "ft_receive inner t snap = (let (fb, t') = inner t in (fb, t', sn_store fb snap))"

lemma ft_exchange_latest:
  "sn_value (snd (snd (ft_exchange inner t snap c))) = fst (ft_exchange inner t snap c)"
  by (simp add: ft_exchange_def sn_store_def split: prod.splits)

interpretation snap: latest_value "\<lambda>s v. sn_store v s" sn_value
  by unfold_locales (simp add: sn_store_def)

end
