(* ===== verification/Supervisor.thy ===== *)
theory Supervisor
  imports Ports Control_Modes Gains Gripper Seqlock
begin

section \<open>The Supervisor: state and entry points\<close>

text \<open>
  \<open>Supervisor\<close> (\<open>interface/supervisor.h\<close>, \<open>.cpp\<close>): everything between the driving ports and the
  control modes. This theory holds the state, the constructor and the handlers that the backend, the
  link and the operator call; \<open>Supervisor_Sampler\<close> holds the sampler and pump threads.

  The fields from \<open>sv_now\<close> on are not members: the clock (\<open>secs_since(t0_)\<close>), what a load of the
  feedback snapshot returns at this moment (\<open>None\<close>: a torn read) and its version, whether a load of the contact status
  is whole, and what the Supervisor has told its ports. The real-time side changes the first four, and
  the modes, at any moment. \<open>sv_requested\<close> is \<open>RtExecutor\<close>'s pending request.
\<close>

subsection \<open>State\<close>

record sup_const =
  sk_dyn :: dynamics
  sk_profiles :: contact_profiles
  sk_continuous :: "bool vec7"
  sk_q_lower :: jointvec
  sk_q_upper :: jointvec
  sk_v_max :: jointvec

record inbound =
  in_id :: goal_id
  in_goal :: trajectory_goal
  in_cancel :: bool
  in_halted :: bool
  in_why :: halt_reason

record supervisor =
  sv_const :: sup_const
  sv_modes :: driver_modes
  sv_requested :: "mode_id option"
  sv_grip :: "gripper_controller option"
  sv_contact :: "contact_monitor option"
  sv_contact_profile :: contact_profile
  sv_contact_theta :: jointvec
  sv_contact_status :: contact_status
  sv_contact_cleared :: bool
  sv_active_kind :: control_mode_kind
  sv_in_flight :: bool
  sv_speed_override :: dbl
  sv_speed_applied :: dbl
  sv_session_default :: impedance_params
  sv_session :: streaming_session
  sv_stream_open :: bool
  sv_close_cause :: stream_close_cause
  sv_hold_q :: jointvec
  sv_have_hold_q :: bool
  sv_q_ref :: jointvec
  sv_qd_cmd :: jointvec
  sv_twist_cmd :: vector6
  sv_inbox :: "inbound list"
  sv_halt_pending :: bool
  sv_halt_reason :: halt_reason
  sv_state :: arm_state
  sv_ready :: bool
  sv_now :: dbl
  sv_snap :: "joint_feedback option"
  sv_snap_version :: "32 word"
  sv_status_whole :: bool
  sv_settled :: "(goal_id \<times> trajectory_result) list"
  sv_feedback :: "(goal_id \<times> trajectory_feedback) list"
  sv_states :: "arm_state list"

definition trajectory_goal0 :: trajectory_goal where
  "trajectory_goal0 = \<lparr>tg_trajectory = \<lparr>tr_points = [], tr_has_velocities = False, tr_has_accelerations = False\<rparr>,
     tg_path_tolerance = vconst (Fin (- 1)), tg_goal_tolerance = vconst (Fin (- 1)), tg_goal_time_tolerance_s = Fin 0,
     tg_speed_scale = Fin 1, tg_control_mode = KPosition, tg_preemption = KLatestWins,
     tg_gains = impedance_gains0, tg_sender_id = [], tg_token = 0\<rparr>"

definition trajectory_result0 :: trajectory_result where
  "trajectory_result0 = \<lparr>trr_error_code = 0, trr_error_string = [], trr_final_error = vzero\<rparr>"

definition trajectory_feedback0 :: trajectory_feedback where
  "trajectory_feedback0 = \<lparr>tf_desired = vzero, tf_actual = vzero, tf_error = vzero, tf_fraction_complete = Fin 0\<rparr>"

definition arm_state0 :: arm_state where
  "arm_state0 = \<lparr>as_q = vzero, as_qd = vzero, as_tau = vzero, as_ee_pose = pose0, as_ee_twist = vconst6 (Fin 0),
     as_ee_wrench = vconst6 (Fin 0), as_fault = False, as_stamp_s = Fin 0, as_speed_override = Fin 1\<rparr>"

definition contact_state0 :: contact_state where
  "contact_state0 = \<lparr>cst_enabled = False, cst_profile = CpDefault, cst_status = contact_status0\<rparr>"

definition gripper_state0 :: gripper_state where
  "gripper_state0 = \<lparr>gp_position = Fin 0, gp_effort = Fin 0, gp_current = Fin 0, gp_present = False, gp_stamp_s = Fin 0\<rparr>"

subsection \<open>Reasons and codes\<close>

definition halt_reason_string :: "halt_reason \<Rightarrow> string" where
  "halt_reason_string r = (case r of
       HrOwnershipRevoked \<Rightarrow> ''halted: ownership revoked''
     | HrEmergencyStop \<Rightarrow> ''halted: emergency stop''
     | HrOperatorRequest \<Rightarrow> ''halted: operator request''
     | HrArmUnavailable \<Rightarrow> ''halted: arm fault or connection lost''
     | HrContact \<Rightarrow> ''halted: unexpected contact'')"

definition halt_result_code :: "halt_reason \<Rightarrow> int" where
  "halt_result_code r = (if r = HrContact then kContactStop else kHalted)"

definition kContactRefusal :: string where
  "kContactRefusal = ''stopped on unexpected contact; call /clear_faults''"

definition halt_result :: "halt_reason \<Rightarrow> trajectory_result" where
  "halt_result r = trajectory_result0\<lparr>trr_error_code := halt_result_code r, trr_error_string := halt_reason_string r\<rparr>"

definition sampled_q :: "bool \<Rightarrow> jointvec \<Rightarrow> jointvec \<Rightarrow> jointvec" where
  "sampled_q loaded fresh prev = (if loaded then fresh else prev)"

text \<open>A load of the snapshot into a fresh \<open>JointFeedback\<close>.\<close>

definition snap_load :: "supervisor \<Rightarrow> bool \<times> joint_feedback" where
  "snap_load s = (case sv_snap s of Some fb \<Rightarrow> (True, fb) | None \<Rightarrow> (False, joint_feedback0))"

definition contact_latched :: "supervisor \<Rightarrow> bool" where
  "contact_latched s = (case sv_contact s of None \<Rightarrow> False | Some m \<Rightarrow> cm_latched m)"

subsection \<open>The modes behind a kind\<close>

definition kind_mode :: "control_mode_kind \<Rightarrow> mode_id" where
  "kind_mode k = (case k of KPosition \<Rightarrow> MidPosition | KImpedance \<Rightarrow> MidImpedance | KVelocity \<Rightarrow> MidVelocity | KTorque \<Rightarrow> MidTorque)"

definition sink_for :: "control_mode_kind \<Rightarrow> mode_id option" where
  "sink_for k = (case k of KPosition \<Rightarrow> Some MidPosition | KImpedance \<Rightarrow> Some MidImpedance | KTorque \<Rightarrow> None | KVelocity \<Rightarrow> None)"

definition pose_sink_for :: "control_mode_kind \<Rightarrow> mode_id option" where
  "pose_sink_for k = (case k of KImpedance \<Rightarrow> Some MidImpedance | KPosition \<Rightarrow> Some MidPosition | KVelocity \<Rightarrow> None | KTorque \<Rightarrow> None)"

text \<open>The virtual calls through a \<open>JointTargetSink\<close> or \<open>PoseTargetSink\<close> that is one of the modes.\<close>

definition set_joint_target :: "mode_id \<Rightarrow> joint_target \<Rightarrow> driver_modes \<Rightarrow> driver_modes" where
  "set_joint_target i t m = (case i of
       MidPosition \<Rightarrow> m\<lparr>dm_position := pm_set_joint_target (dm_position m) t\<rparr>
     | MidImpedance \<Rightarrow> m\<lparr>dm_impedance := im_set_joint_target (dm_impedance m) t\<rparr>
     | _ \<Rightarrow> m)"

definition set_pose_target :: "mode_id \<Rightarrow> pose \<Rightarrow> driver_modes \<Rightarrow> driver_modes" where
  "set_pose_target i x m = (case i of
       MidPosition \<Rightarrow> m\<lparr>dm_position := pm_set_pose_target (dm_position m) x\<rparr>
     | MidImpedance \<Rightarrow> m\<lparr>dm_impedance := im_set_pose_target (dm_impedance m) x\<rparr>
     | _ \<Rightarrow> m)"

definition set_command_timeout :: "control_mode_kind \<Rightarrow> dbl \<Rightarrow> driver_modes \<Rightarrow> driver_modes" where
  "set_command_timeout k t m = (case k of
       KPosition \<Rightarrow> m\<lparr>dm_position := pm_set_command_timeout (dm_position m) t\<rparr>
     | KImpedance \<Rightarrow> m\<lparr>dm_impedance := im_set_command_timeout (dm_impedance m) t\<rparr>
     | KTorque \<Rightarrow> m\<lparr>dm_torque := tm_set_command_timeout (dm_torque m) t\<rparr>
     | KVelocity \<Rightarrow> m\<lparr>dm_velocity := vm_set_command_timeout (dm_velocity m) t\<rparr>)"

definition set_speed_scale :: "dbl \<Rightarrow> driver_modes \<Rightarrow> driver_modes" where
  "set_speed_scale sc m = m\<lparr>dm_position := pm_set_speed_scale (dm_position m) sc,
     dm_impedance := im_set_speed_scale (dm_impedance m) sc, dm_velocity := vm_set_speed_scale (dm_velocity m) sc\<rparr>"

definition on_modes :: "(driver_modes \<Rightarrow> driver_modes) \<Rightarrow> supervisor \<Rightarrow> supervisor" where
  "on_modes f s = s\<lparr>sv_modes := f (sv_modes s)\<rparr>"

definition request_mode :: "mode_id \<Rightarrow> supervisor \<Rightarrow> supervisor" where
  "request_mode i s = s\<lparr>sv_requested := Some i\<rparr>"

text \<open>\<open>active_mode_kind_.store(kPosition)\<close> with the request that goes with it.\<close>

definition line_up_position :: "supervisor \<Rightarrow> supervisor" where
  "line_up_position s = (request_mode MidPosition s)\<lparr>sv_active_kind := KPosition\<rparr>"

subsection \<open>Closing a stream, halting\<close>

text \<open>The hold a teardown latches: the measured joints, the last good ones, or the mode's reference.\<close>

definition teardown_hold :: "control_mode_kind \<Rightarrow> supervisor \<Rightarrow> jointvec" where
  "teardown_hold running s =
     (let (ok, fb) = snap_load s;
          fallback = (if \<not> ok \<and> \<not> sv_have_hold_q s
                      then (if running = KImpedance then im_q_d (dm_impedance (sv_modes s)) else pm_q_ref (dm_position (sv_modes s)))
                      else sv_hold_q s)
      in sampled_q ok (fb_q fb) fallback)"

definition latch_hold :: "control_mode_kind \<Rightarrow> supervisor \<Rightarrow> supervisor" where
  "latch_hold running s = (case sink_for running of
       None \<Rightarrow> s
     | Some sink \<Rightarrow> (let q = teardown_hold running s
                    in on_modes (set_joint_target sink (position_target q)) (s\<lparr>sv_hold_q := q, sv_have_hold_q := True\<rparr>)))"

definition close_stream :: "stream_close_cause \<Rightarrow> supervisor \<Rightarrow> supervisor" where
  "close_stream cause s =
     (if \<not> sv_stream_open s then s
      else let s1 = s\<lparr>sv_stream_open := False, sv_close_cause := cause, sv_session := session_close (sv_session s)\<rparr>;
               running = sv_active_kind s1;
               s2 = latch_hold running s1;
               s3 = (if running = KVelocity
                     then on_modes (\<lambda>m. m\<lparr>dm_velocity := vm_set_velocity_target (dm_velocity m) vzero\<rparr>) s2 else s2);
               s4 = on_modes (set_command_timeout running (Fin (- 1))) s3
           in on_modes (\<lambda>m. m\<lparr>dm_position := pm_clear_ik_fault (dm_position m)\<rparr>) s4)"

text \<open>What a halt does to the queue: cancels are dropped, goals are marked, once.\<close>

definition mark_halted :: "halt_reason \<Rightarrow> inbound \<Rightarrow> inbound" where
  "mark_halted r i = (if in_halted i then i else i\<lparr>in_halted := True, in_why := r\<rparr>)"

definition halt_inbox :: "halt_reason \<Rightarrow> inbound list \<Rightarrow> inbound list" where
  "halt_inbox r q = map (mark_halted r) (filter (\<lambda>i. \<not> in_cancel i) q)"

definition on_halt :: "halt_reason \<Rightarrow> supervisor \<Rightarrow> supervisor" where
  "on_halt r s =
     (let s1 = close_stream (if r = HrContact then CcContact else CcHalted) s;
          s2 = s1\<lparr>sv_grip := map_option gr_release (sv_grip s1)\<rparr>
      in s2\<lparr>sv_inbox := halt_inbox r (sv_inbox s2),
            sv_halt_reason := (if sv_halt_pending s2 \<and> sv_halt_reason s2 = HrContact then HrContact else r),
            sv_halt_pending := True\<rparr>)"

subsection \<open>Trajectory goals\<close>

definition on_trajectory_goal :: "trajectory_goal \<Rightarrow> supervisor \<Rightarrow> goal_response" where
  "on_trajectory_goal g s =
     (if \<not> sv_ready s then GrReject
      else if contact_latched s then GrReject
      else if sv_stream_open s then GrReject
      else if tr_points (tg_trajectory g) = [] then GrReject
      else if \<not> valid_timestamps (tg_trajectory g) then GrReject
      else if \<not> isfinite (tg_speed_scale g) \<or> tg_speed_scale g < kMinSpeedScale \<or> Fin 1 < tg_speed_scale g then GrReject
      else if tg_control_mode g = KVelocity \<or> tg_control_mode g = KTorque then GrReject
      else if \<not> known_profile (ig_profile (tg_gains g)) then GrReject
      else if tg_control_mode g = KPosition \<and> ig_profile (tg_gains g) \<noteq> GpSessionDefault then GrReject
      else if tg_control_mode g = KImpedance \<and> ig_profile (tg_gains g) = GpCustom \<and> validate_custom (ig_custom (tg_gains g)) \<noteq> None
        then GrReject
      else if sv_in_flight s \<and> tg_control_mode g \<noteq> sv_active_kind s then GrReject
      else GrAccept)"

definition on_trajectory_accepted :: "goal_id \<Rightarrow> trajectory_goal \<Rightarrow> supervisor \<Rightarrow> supervisor" where
  "on_trajectory_accepted i g s =
     (let entry = (if contact_latched s then \<lparr>in_id = i, in_goal = g, in_cancel = False, in_halted = True, in_why = HrContact\<rparr>
                   else if \<not> sv_ready s then \<lparr>in_id = i, in_goal = g, in_cancel = False, in_halted = True, in_why = HrArmUnavailable\<rparr>
                   else \<lparr>in_id = i, in_goal = g, in_cancel = False, in_halted = False, in_why = HrOwnershipRevoked\<rparr>)
      in s\<lparr>sv_inbox := sv_inbox s @ [entry]\<rparr>)"

definition on_trajectory_cancel :: "cancel_request \<Rightarrow> supervisor \<Rightarrow> cancel_response \<times> supervisor" where
  "on_trajectory_cancel c s =
     (CrAccept, s\<lparr>sv_inbox := sv_inbox s @ [\<lparr>in_id = cq_id c, in_goal = trajectory_goal0, in_cancel = True,
                                            in_halted = False, in_why = HrOwnershipRevoked\<rparr>]\<rparr>)"

subsection \<open>Link state\<close>

text \<open>
  A drop is two sections, because other threads run between them: clearing \<open>ready_\<close>, and the halt
  with the position request after it. \<open>drop_begin\<close> says whether the second is due.
\<close>

definition link_up :: "supervisor \<Rightarrow> supervisor" where
  "link_up s = s\<lparr>sv_ready := True\<rparr>"

definition drop_begin :: "supervisor \<Rightarrow> bool \<times> supervisor" where
  "drop_begin s = (sv_ready s, s\<lparr>sv_ready := False\<rparr>)"

definition drop_finish :: "supervisor \<Rightarrow> supervisor" where
  "drop_finish s = line_up_position (on_halt HrArmUnavailable s)"

definition on_link_state :: "bool \<Rightarrow> supervisor \<Rightarrow> supervisor" where
  "on_link_state running s =
     (if running then link_up s
      else let (was, s1) = drop_begin s in if \<not> was then s1 else drop_finish s1)"

subsection \<open>Gains and speed\<close>

text \<open>The leading text of a message; the rest prints the bounds.\<close>

definition gains_message :: "gains_error \<Rightarrow> string" where
  "gains_message e = (case e of
       GeZeta \<Rightarrow> ''zeta must be finite and in [''
     | GeKq _ \<Rightarrow> ''kq[''
     | GeTorqueLimit _ \<Rightarrow> ''torque_limit[''
     | GeUnknownProfile \<Rightarrow> ''unknown gains profile: expected soft, medium, stiff or custom''
     | GeGainsInPositionGoal \<Rightarrow> ''gains supplied for a non-impedance stream'')"

text \<open>\<open>Inl\<close> is the exception of \<open>resolve_gains\<close> leaving the call.\<close>

definition apply_impedance_gains :: "impedance_gains \<Rightarrow> supervisor \<Rightarrow> invalid_argument + supervisor" where
  "apply_impedance_gains g s = (case resolve_gains g (sv_session_default s) of
       Inl e \<Rightarrow> Inl e
     | Inr p \<Rightarrow> Inr (on_modes (\<lambda>m. m\<lparr>dm_impedance := im_set_gains (dm_impedance m) p\<rparr>) s))"

definition gains_refused :: "string \<Rightarrow> gains_result" where
  "gains_refused msg = \<lparr>gt_accepted = False, gt_message = msg\<rparr>"

definition set_session_default :: "impedance_gains \<Rightarrow> supervisor \<Rightarrow> invalid_argument + gains_result \<times> supervisor" where
  "set_session_default g s = (case resolve_gains g (sv_session_default s) of
       Inl e \<Rightarrow> Inl e
     | Inr p \<Rightarrow> Inr (\<lparr>gt_accepted = True, gt_message = []\<rparr>, s\<lparr>sv_session_default := p\<rparr>))"

definition on_set_gains :: "gains_request \<Rightarrow> supervisor \<Rightarrow> invalid_argument + gains_result \<times> supervisor" where
  "on_set_gains r s =
     (let g = gq_spec r in
      if \<not> known_profile (ig_profile g)
        then Inr (gains_refused ''unknown gains profile: expected soft, medium, stiff or custom'', s)
      else if ig_profile g = GpSessionDefault
        then Inr (gains_refused ''set_gains needs a named profile or custom gains'', s)
      else if ig_profile g = GpCustom
        then (case validate_custom (ig_custom g) of
                Some e \<Rightarrow> Inr (gains_refused (gains_message e), s)
              | None \<Rightarrow> set_session_default g s)
      else set_session_default g s)"

definition sup_set_speed_override :: "dbl \<Rightarrow> supervisor \<Rightarrow> speed_result \<times> supervisor" where
  "sup_set_speed_override x s =
     (if \<not> isfinite x then (\<lparr>sp_accepted = False, sp_message = ''speed override must be finite''\<rparr>, s)
      else if x < kMinSpeedScale \<or> Fin 1 < x then (\<lparr>sp_accepted = False, sp_message = ''speed override must be in [''\<rparr>, s)
      else (\<lparr>sp_accepted = True, sp_message = []\<rparr>, s\<lparr>sv_speed_override := x\<rparr>))"

definition on_set_speed_override :: "speed_override_request \<Rightarrow> supervisor \<Rightarrow> speed_result \<times> supervisor" where
  "on_set_speed_override r = sup_set_speed_override (sov_scale r)"

subsection \<open>Contact\<close>

definition contact_message :: "contact_error \<Rightarrow> string" where
  "contact_message e = (case e of
       CtCeiling _ \<Rightarrow> ''contact ceiling: ''
     | CtProfile n _ \<Rightarrow> ''contact profile '' @ n @ '': ''
     | CtThreshold _ \<Rightarrow> ''joint ''
     | CtUnknownProfile \<Rightarrow> ''unknown contact profile: expected default, sensitive, loose or custom'')"

definition on_set_contact_thresholds :: "contact_thresholds_request \<Rightarrow> supervisor \<Rightarrow> contact_thresholds_result \<times> supervisor" where
  "on_set_contact_thresholds r s =
     (case sv_contact s of
        None \<Rightarrow> (\<lparr>cr_accepted = False, cr_message = ''contact detection not available'', cr_profile = CpDefault, cr_theta = vzero\<rparr>, s)
      | Some m \<Rightarrow>
        (case resolve_contact r (sk_profiles (sv_const s)) of
           Inl e \<Rightarrow> (\<lparr>cr_accepted = False, cr_message = contact_message e,
                     cr_profile = sv_contact_profile s, cr_theta = sv_contact_theta s\<rparr>, s)
         | Inr theta \<Rightarrow> (\<lparr>cr_accepted = True, cr_message = [], cr_profile = ctr_profile r, cr_theta = theta\<rparr>,
                        s\<lparr>sv_contact := Some (cm_set_thresholds m theta), sv_contact_profile := ctr_profile r,
                          sv_contact_theta := theta\<rparr>)))"

definition on_query_contact :: "supervisor \<Rightarrow> contact_state \<times> supervisor" where
  "on_query_contact s =
     (case sv_contact s of
        None \<Rightarrow> (contact_state0, s)
      | Some m \<Rightarrow>
        (let st = (if sv_status_whole s then cm_pub m else sv_contact_status s)
         in (\<lparr>cst_enabled = True, cst_profile = sv_contact_profile s, cst_status = st\<rparr>, s\<lparr>sv_contact_status := st\<rparr>)))"

definition clear_contact :: "supervisor \<Rightarrow> bool \<times> supervisor" where
  "clear_contact s =
     (case sv_contact s of
        None \<Rightarrow> (False, s)
      | Some m \<Rightarrow>
        (if \<not> cm_latched m then (False, s)
         else let s1 = line_up_position (on_halt HrContact s)
              in (True, s1\<lparr>sv_contact := map_option cm_request_clear (sv_contact s1), sv_contact_cleared := True\<rparr>)))"

subsection \<open>Queries, the gripper\<close>

definition on_query_state :: "supervisor \<Rightarrow> arm_state" where
  "on_query_state s = sv_state s"

definition on_gripper_setpoint :: "gripper_setpoint \<Rightarrow> supervisor \<Rightarrow> supervisor" where
  "on_gripper_setpoint c s =
     (case sv_grip s of
        None \<Rightarrow> s
      | Some g \<Rightarrow> (if \<not> sv_ready s \<or> contact_latched s then s else s\<lparr>sv_grip := Some (gr_set_target g (gs_command c))\<rparr>))"

definition on_query_gripper :: "supervisor \<Rightarrow> gripper_state" where
  "on_query_gripper s =
     (case sv_grip s of
        None \<Rightarrow> gripper_state0
      | Some _ \<Rightarrow>
        (case sv_snap s of
           None \<Rightarrow> gripper_state0
         | Some fb \<Rightarrow> \<lparr>gp_position = gf_position (fb_gripper fb), gp_effort = gf_effort (fb_gripper fb),
             gp_current = gf_current (fb_gripper fb), gp_present = gf_present (fb_gripper fb), gp_stamp_s = sv_now s\<rparr>))"

definition on_query_stream :: "supervisor \<Rightarrow> stream_status" where
  "on_query_stream s = (let t = sv_session s in
     \<lparr>ss_open = st_open t, ss_kind = st_kind t, ss_control_mode = st_mode t, ss_timeout_s = st_timeout_s t,
       ss_rejected_count = st_rejected t\<rparr>)"

subsection \<open>Opening a stream\<close>

text \<open>
  \<open>on_stream_open\<close> sleeps for the mode to settle, without a lock, so it is two sections: up to the
  sleep (\<open>Some\<close> reply when it is refused there), and after it, under \<open>stream_mtx_\<close>.
\<close>

definition open_refusal :: "stream_open_request \<Rightarrow> supervisor \<Rightarrow> stream_open_result option" where
  "open_refusal r s =
     (let g = so_gains r in
      if \<not> sv_ready s then Some (stream_refused ''arm not ready'')
      else if contact_latched s then Some \<lparr>sr_accepted = False, sr_error_code = kContactStop, sr_message = kContactRefusal\<rparr>
      else if sv_in_flight s then Some (stream_refused ''a trajectory goal is in flight'')
      else if sv_stream_open s then Some (stream_refused ''a session is already open; close it first'')
      else if so_timeout_s r \<le> Fin 0 then Some (stream_refused ''timeout_s must be > 0: an unbounded stream has no safe-stop'')
      else if \<not> pair_supported (so_kind r) (so_control_mode r)
        then Some (stream_refused ''unsupported (setpoint kind, control mode) pair'')
      else if \<not> known_profile (ig_profile g)
        then Some (stream_refused ''unknown gains profile: expected session-default, soft, medium, stiff or custom'')
      else if so_control_mode r \<noteq> KImpedance \<and> ig_profile g \<noteq> GpSessionDefault
        then Some (stream_refused ''gains supplied for a non-impedance stream'')
      else if so_control_mode r = KImpedance \<and> ig_profile g = GpCustom
        then map_option (\<lambda>e. stream_refused (gains_message e)) (validate_custom (ig_custom g))
      else None)"

definition open_begin :: "stream_open_request \<Rightarrow> supervisor \<Rightarrow> stream_open_result option \<times> supervisor" where
  "open_begin r s =
     (case open_refusal r s of
        Some res \<Rightarrow> (Some res, s)
      | None \<Rightarrow>
        (let want = so_control_mode r
         in (None, if want \<noteq> sv_active_kind s then (request_mode (kind_mode want) s)\<lparr>sv_active_kind := want\<rparr> else s)))"

definition compliant_kind :: "setpoint_kind \<Rightarrow> bool" where
  "compliant_kind k = (k = SkJointVelocity \<or> k = SkEeTwist)"

definition seed_stream :: "stream_open_request \<Rightarrow> supervisor \<Rightarrow> supervisor" where
  "seed_stream r s =
     (if so_control_mode r = KImpedance \<and> compliant_kind (so_kind r)
      then let (ok, fb) = snap_load s
           in s\<lparr>sv_q_ref := (if ok then fb_q fb else im_q_d (dm_impedance (sv_modes s))),
                sv_qd_cmd := vzero, sv_twist_cmd := vconst6 (Fin 0)\<rparr>
      else s)"

definition open_finish :: "stream_open_request \<Rightarrow> supervisor \<Rightarrow> invalid_argument + stream_open_result \<times> supervisor" where
  "open_finish r s =
     (let want = so_control_mode r in
      if \<not> sv_ready s then Inr (stream_refused ''arm not ready'', line_up_position s)
      else if contact_latched s
        then Inr (\<lparr>sr_accepted = False, sr_error_code = kContactStop, sr_message = kContactRefusal\<rparr>, s)
      else if sv_active_kind s \<noteq> want
        then Inr (stream_refused ''the mode changed during the open; retry'', s)
      else let s1 = seed_stream r (on_modes (set_command_timeout want (so_timeout_s r)) s);
               (res, ss) = session_open (sv_session s1) r (sv_now s1);
               s2 = s1\<lparr>sv_session := ss\<rparr>
           in if \<not> sr_accepted res then Inr (res, on_modes (set_command_timeout want (Fin (- 1))) s2)
              else if want = KImpedance
                then (case apply_impedance_gains (so_gains r) s2 of
                        Inl e \<Rightarrow> Inl e
                      | Inr s3 \<Rightarrow> Inr (res, s3\<lparr>sv_stream_open := True\<rparr>))
              else Inr (res, s2\<lparr>sv_stream_open := True\<rparr>))"

text \<open>The call with nothing happening during its sleep.\<close>

definition on_stream_open :: "stream_open_request \<Rightarrow> supervisor \<Rightarrow> invalid_argument + stream_open_result \<times> supervisor" where
  "on_stream_open r s = (case open_begin r s of
       (Some res, s1) \<Rightarrow> Inr (res, s1)
     | (None, s1) \<Rightarrow> open_finish r s1)"

definition on_stream_close :: "stream_close_request \<Rightarrow> supervisor \<Rightarrow> supervisor" where
  "on_stream_close r s = close_stream CcClientRequest s"

subsection \<open>Setpoints\<close>

definition admit_setpoint :: "setpoint_kind \<Rightarrow> supervisor \<Rightarrow> bool \<times> supervisor" where
  "admit_setpoint k s = (let (ok, t) = session_admit (sv_session s) k (sv_now s) in (ok, s\<lparr>sv_session := t\<rparr>))"

definition on_setpoint_joint_position :: "joint_setpoint \<Rightarrow> supervisor \<Rightarrow> supervisor" where
  "on_setpoint_joint_position c s =
     (let (ok, s1) = admit_setpoint SkJointPosition s in
      if \<not> ok then s1
      else (case sink_for (st_mode (sv_session s1)) of
              None \<Rightarrow> s1
            | Some i \<Rightarrow> on_modes (set_joint_target i (position_target (js_values c))) s1))"

definition on_setpoint_pose :: "pose_setpoint \<Rightarrow> supervisor \<Rightarrow> supervisor" where
  "on_setpoint_pose c s =
     (let (ok, s1) = admit_setpoint SkEePose s in
      if \<not> ok then s1
      else (case pose_sink_for (st_mode (sv_session s1)) of
              None \<Rightarrow> s1
            | Some i \<Rightarrow> on_modes (set_pose_target i (ps_pose c)) s1))"

definition on_setpoint_joint_torque :: "joint_setpoint \<Rightarrow> supervisor \<Rightarrow> supervisor" where
  "on_setpoint_joint_torque c s =
     (let (ok, s1) = admit_setpoint SkJointTorque s in
      if \<not> ok then s1 else on_modes (\<lambda>m. m\<lparr>dm_torque := tm_set_torque (dm_torque m) (js_values c)\<rparr>) s1)"

definition on_setpoint_joint_velocity :: "joint_setpoint \<Rightarrow> supervisor \<Rightarrow> supervisor" where
  "on_setpoint_joint_velocity c s =
     (let (ok, s1) = admit_setpoint SkJointVelocity s in
      if \<not> ok then s1
      else if st_mode (sv_session s1) = KVelocity
        then on_modes (\<lambda>m. m\<lparr>dm_velocity := vm_set_velocity_target (dm_velocity m) (js_values c)\<rparr>) s1
      else if st_mode (sv_session s1) = KImpedance then s1\<lparr>sv_qd_cmd := js_values c\<rparr>
      else s1)"

definition on_setpoint_twist :: "twist_setpoint \<Rightarrow> supervisor \<Rightarrow> supervisor" where
  "on_setpoint_twist c s =
     (let (ok, s1) = admit_setpoint SkEeTwist s in
      if \<not> ok then s1
      else if st_mode (sv_session s1) = KVelocity
        then on_modes (\<lambda>m. m\<lparr>dm_velocity := vm_set_twist_target (dm_velocity m) (ts_twist c)\<rparr>) s1
      else if st_mode (sv_session s1) = KImpedance then s1\<lparr>sv_twist_cmd := ts_twist c\<rparr>
      else s1)"

subsection \<open>Construction\<close>

text \<open>Null pointers are absent options; \<open>exec\<close>, \<open>snap\<close>, \<open>stream\<close> and \<open>action\<close> only matter by being there.\<close>

record supervisor_deps =
  sd_pos :: "position_mode option"
  sd_imp :: "impedance_mode option"
  sd_tau :: "torque_mode option"
  sd_vel :: "velocity_mode option"
  sd_exec :: bool
  sd_snap :: bool
  sd_pump_dyn :: "dynamics option"
  sd_stream :: bool
  sd_action :: bool
  sd_grip :: "gripper_controller option"
  sd_contact :: "contact_monitor option"
  sd_contact_profiles :: contact_profiles

datatype deps_error = DeNull string | DeProfiles contact_error | DeCeiling | DeGains invalid_argument

definition vec_differs :: "jointvec \<Rightarrow> jointvec \<Rightarrow> bool" where
  "vec_differs v w = list_ex (\<lambda>i. \<not> deq (vnth v i) (vnth w i)) [0..<kNumJoints]"

definition contact_deps_error :: "supervisor_deps \<Rightarrow> deps_error option" where
  "contact_deps_error d = (case sd_contact d of
       None \<Rightarrow> None
     | Some m \<Rightarrow> (case validate_profiles (sd_contact_profiles d) of
                   Some e \<Rightarrow> Some (DeProfiles e)
                 | None \<Rightarrow> (if vec_differs (cps_ceiling (sd_contact_profiles d)) (cc_ceiling (cm_cfg m)) then Some DeCeiling else None)))"

definition first_null :: "supervisor_deps \<Rightarrow> string option" where
  "first_null d =
     (if sd_pos d = None then Some ''pos'' else if sd_imp d = None then Some ''imp''
      else if sd_tau d = None then Some ''tau'' else if sd_vel d = None then Some ''vel''
      else if \<not> sd_exec d then Some ''exec'' else if \<not> sd_snap d then Some ''snap''
      else if sd_pump_dyn d = None then Some ''pump_dyn'' else if \<not> sd_stream d then Some ''stream''
      else if \<not> sd_action d then Some ''action'' else None)"

definition sup_const_of :: "supervisor_deps \<Rightarrow> sup_const" where
  "sup_const_of d = (let dyn = the (sd_pump_dyn d) in
     \<lparr>sk_dyn = dyn, sk_profiles = sd_contact_profiles d,
       sk_continuous = continuous_joints (dyn_q_lower dyn) (dyn_q_upper dyn), sk_q_lower = dyn_q_lower dyn,
       sk_q_upper = dyn_q_upper dyn, sk_v_max = dyn_v_max dyn\<rparr>)"

text \<open>The float mode is not the Supervisor's; it stands beside the others in \<open>driver_modes\<close>.\<close>

definition supervisor_init :: "float_mode \<Rightarrow> supervisor_deps \<Rightarrow> deps_error + supervisor" where
  "supervisor_init fm d =
     (case first_null d of Some field \<Rightarrow> Inl (DeNull field)
      | None \<Rightarrow>
     (case contact_deps_error d of Some e \<Rightarrow> Inl e
      | None \<Rightarrow>
     (case profile_params GpMedium of Inl e \<Rightarrow> Inl (DeGains e)
      | Inr medium \<Rightarrow>
        (let theta = cps_normal (sd_contact_profiles d); imp = the (sd_imp d)
         in Inr \<lparr>sv_const = sup_const_of d,
              sv_modes = \<lparr>dm_position = the (sd_pos d), dm_velocity = the (sd_vel d), dm_torque = the (sd_tau d),
                          dm_impedance = imp, dm_float = fm\<rparr>,
              sv_requested = None, sv_grip = sd_grip d,
              sv_contact = map_option (\<lambda>m. cm_set_thresholds m theta) (sd_contact d),
              sv_contact_profile = CpDefault,
              sv_contact_theta = (if sd_contact d = None then vzero else theta),
              sv_contact_status = contact_status0, sv_contact_cleared = False,
              sv_active_kind = KPosition, sv_in_flight = False, sv_speed_override = Fin 1, sv_speed_applied = Fin 1,
              sv_session_default = overlay_profile_gains (im_get_params imp) medium,
              sv_session = streaming_session0, sv_stream_open = False, sv_close_cause = CcNone,
              sv_hold_q = vzero, sv_have_hold_q = False, sv_q_ref = vzero, sv_qd_cmd = vzero, sv_twist_cmd = vconst6 (Fin 0),
              sv_inbox = [], sv_halt_pending = False, sv_halt_reason = HrOwnershipRevoked, sv_state = arm_state0,
              sv_ready = True, sv_now = Fin 0, sv_snap = None, sv_snap_version = 0, sv_status_whole = True,
              sv_settled = [], sv_feedback = [], sv_states = []\<rparr>))))"

end
