(* ===== verification/Supervisor_Sampler.thy ===== *)
theory Supervisor_Sampler
  imports Supervisor
begin

section \<open>The Supervisor's threads\<close>

text \<open>
  \<open>Supervisor::sampler_loop\<close> and \<open>pump_loop\<close> (\<open>interface/supervisor.cpp\<close>) as functions of one step.
  The sampler's step ends wherever the code sleeps, leaves a locked section whose result it acts on
  later, or moves to its next numbered stage; between two steps any other thread may run. A step is
  \<open>None\<close> when it never returns (an infinite angle is folded), \<open>Some (Inl e)\<close> when an exception leaves
  the thread, which ends the process.
\<close>

subsection \<open>State\<close>

datatype sampler_pc =
    SmTop
  | SmHalt
  | SmDeadline
  | SmCompliant
  | SmDrain
  | SmRecheck inbound
  | SmSubmit inbound
  | SmTick

text \<open>The locals of the loop, and the members only it touches: \<open>traj_\<close>, the mode it is bound to, its kind.\<close>

record sampler =
  sm_pc :: sampler_pc
  sm_traj :: traj_exec
  sm_sink :: mode_id
  sm_bound_kind :: control_mode_kind
  sm_active_id :: goal_id
  sm_have_active :: bool
  sm_q_meas :: jointvec
  sm_have_q_meas :: bool
  sm_t0 :: dbl
  sm_last_tick :: dbl
  sm_tick_dt :: dbl
  sm_was_latched :: bool
  sm_speed :: dbl

type_synonym sampler_outcome = "(invalid_argument + sampler \<times> supervisor) option"

text \<open>\<open>start\<close> up to the threads, and the sampler as it enters its loop.\<close>

definition sup_start :: "supervisor \<Rightarrow> supervisor" where
  "sup_start s = (request_mode MidPosition s)\<lparr>sv_active_kind := KPosition, sv_now := Fin 0\<rparr>"

definition sampler_init :: "supervisor \<Rightarrow> sampler" where
  "sampler_init s = \<lparr>sm_pc = SmTop, sm_traj = traj_exec_init (sk_continuous (sv_const s)), sm_sink = MidPosition,
     sm_bound_kind = KPosition, sm_active_id = 0, sm_have_active = False, sm_q_meas = vzero, sm_have_q_meas = False,
     sm_t0 = sv_now s, sm_last_tick = sv_now s, sm_tick_dt = Fin 0, sm_was_latched = False, sm_speed = sv_speed_override s\<rparr>"

definition settle :: "goal_id \<Rightarrow> trajectory_result \<Rightarrow> supervisor \<Rightarrow> supervisor" where
  "settle i r s = s\<lparr>sv_settled := sv_settled s @ [(i, r)]\<rparr>"

definition publish_feedback :: "goal_id \<Rightarrow> trajectory_feedback \<Rightarrow> supervisor \<Rightarrow> supervisor" where
  "publish_feedback i f s = s\<lparr>sv_feedback := sv_feedback s @ [(i, f)]\<rparr>"

text \<open>\<open>traj_.emplace\<close> on the running mode's sink, or on the placeholder.\<close>

definition rebind :: "control_mode_kind \<Rightarrow> supervisor \<Rightarrow> sampler \<Rightarrow> sampler" where
  "rebind k s m = m\<lparr>sm_traj := traj_exec_init (sk_continuous (sv_const s)),
     sm_sink := (case sink_for k of Some i \<Rightarrow> i | None \<Rightarrow> MidPosition), sm_bound_kind := k\<rparr>"

subsection \<open>Stages 0 to 0d\<close>

definition sample_measured :: "supervisor \<Rightarrow> sampler \<Rightarrow> sampler" where
  "sample_measured s m = (let (ok, fb) = snap_load s
     in m\<lparr>sm_have_q_meas := (sm_have_q_meas m \<or> ok), sm_q_meas := sampled_q ok (fb_q fb) (sm_q_meas m)\<rparr>)"

definition sampler_top :: "sampler \<Rightarrow> supervisor \<Rightarrow> sampler \<times> supervisor" where
  "sampler_top m s =
     (let dt = sv_now s - sm_last_tick m;
          speed = slew_scale (sm_speed m) (sv_speed_override s) dt;
          s1 = on_modes (set_speed_scale speed) (s\<lparr>sv_speed_applied := speed\<rparr>);
          was = (if sv_contact_cleared s1 then False else sm_was_latched m);
          s2 = s1\<lparr>sv_contact_cleared := False\<rparr>;
          latched = contact_latched s2;
          s3 = (if latched \<and> \<not> was then on_halt HrContact s2 else s2)
      in (m\<lparr>sm_pc := SmHalt, sm_last_tick := sv_now s, sm_tick_dt := dt, sm_speed := speed, sm_was_latched := latched\<rparr>, s3))"

definition take_halt :: "sampler \<Rightarrow> supervisor \<Rightarrow> sampler \<times> supervisor" where
  "take_halt m s =
     (let hr = sv_halt_reason s;
          s1 = s\<lparr>sv_halt_pending := False\<rparr>;
          s2 = (if sm_have_active m then settle (sm_active_id m) (halt_result hr) s1 else s1);
          s3 = (if \<not> sv_ready s2 then line_up_position s2 else s2);
          k = sv_active_kind s3;
          m1 = (rebind k s3 m)\<lparr>sm_have_active := False\<rparr>;
          s4 = s3\<lparr>sv_in_flight := False\<rparr>;
          (ok, fb) = snap_load s4;
          q = sampled_q ok (fb_q fb) (sm_q_meas m1);
          s5 = (case sink_for k of None \<Rightarrow> s4 | Some i \<Rightarrow> on_modes (set_joint_target i (position_target q)) s4)
      in (m1\<lparr>sm_q_meas := q\<rparr>, s5))"

definition sampler_halt :: "sampler \<Rightarrow> supervisor \<Rightarrow> sampler \<times> supervisor" where
  "sampler_halt m s = (let (m1, s1) = (if sv_halt_pending s then take_halt m s else (m, s)) in (m1\<lparr>sm_pc := SmDeadline\<rparr>, s1))"

definition sampler_deadline :: "sampler \<Rightarrow> supervisor \<Rightarrow> sampler \<times> supervisor" where
  "sampler_deadline m s =
     (let s1 = (if sv_stream_open s \<and> session_expired (sv_session s) (sv_now s) then close_stream CcDeadlineExpired s else s);
          s2 = (if sv_stream_open s1 \<and> sv_active_kind s1 = KPosition \<and> pm_ik_faulted (dm_position (sv_modes s1))
                then close_stream CcIkFault s1 else s1)
      in (m\<lparr>sm_pc := SmCompliant\<rparr>, s2))"

definition compliant_session :: "supervisor \<Rightarrow> bool" where
  "compliant_session s = (sv_stream_open s \<and> st_mode (sv_session s) = KImpedance \<and> compliant_kind (st_kind (sv_session s)))"

definition stream_velocity :: "eigen \<Rightarrow> jointvec \<Rightarrow> supervisor \<Rightarrow> jointvec option" where
  "stream_velocity L q s =
     (if st_kind (sv_session s) = SkEeTwist
      then map_option fst (twist_dls_solve L (dyn_jacobian (sk_dyn (sv_const s)) q) q (sv_twist_cmd s)
                             twist_dls_params0 (sk_continuous (sv_const s)))
      else Some (sv_qd_cmd s))"

definition achieved_rate :: "bool vec7 \<Rightarrow> dbl \<Rightarrow> jointvec \<Rightarrow> jointvec \<Rightarrow> jointvec option" where
  "achieved_rate contin dt q_ref q_prev =
     (if Fin 0 < dt
      then vgenM (\<lambda>i. do { step \<leftarrow> wrap_if (vnth contin i) (vnth q_ref i - vnth q_prev i); Some (step / dt) })
      else Some vzero)"

definition compliant_tick :: "eigen \<Rightarrow> sampler \<Rightarrow> supervisor \<Rightarrow> supervisor option" where
  "compliant_tick L m s =
     (let c = sv_const s; q = sm_q_meas m in do {
        qd0 \<leftarrow> stream_velocity L q s;
        let qd = vscale (sm_speed m) (limit_joint_velocity (sk_v_max c) qd0);
        q_ref \<leftarrow> integrate_leashed_reference (sv_q_ref s) qd (sm_tick_dt m) q kVelocityRefMaxLead
                   (sk_continuous c) (sk_q_lower c) (sk_q_upper c);
        rate \<leftarrow> achieved_rate (sk_continuous c) (sm_tick_dt m) q_ref (sv_q_ref s);
        let t = joint_target0\<lparr>jt_q := q_ref, jt_qd := rate, jt_has_velocity := True\<rparr>;
        Some (on_modes (set_joint_target MidImpedance t) (s\<lparr>sv_q_ref := q_ref\<rparr>)) })"

definition sampler_compliant :: "eigen \<Rightarrow> sampler \<Rightarrow> supervisor \<Rightarrow> (sampler \<times> supervisor) option" where
  "sampler_compliant L m s =
     (if compliant_session s
      then let m1 = (sample_measured s m)\<lparr>sm_pc := SmDrain\<rparr>
           in if sm_have_q_meas m1 then map_option (Pair m1) (compliant_tick L m1 s) else Some (m1, s)
      else Some (m\<lparr>sm_pc := SmDrain\<rparr>, s))"
subsection \<open>Stage 1: the inbox\<close>

definition invalid_goal :: "string \<Rightarrow> trajectory_result" where
  "invalid_goal msg = trajectory_result0\<lparr>trr_error_code := kInvalidGoal, trr_error_string := msg\<rparr>"

definition preempted :: trajectory_result where
  "preempted = trajectory_result0\<lparr>trr_error_code := kPreempted\<rparr>"

definition drain_cancel :: "sampler \<Rightarrow> supervisor \<Rightarrow> sampler \<times> supervisor" where
  "drain_cancel m s =
     (let s1 = (if sm_have_active m then settle (sm_active_id m) preempted s else s)
      in ((rebind (sv_active_kind s1) s1 m)\<lparr>sm_have_active := False\<rparr>, s1\<lparr>sv_in_flight := False\<rparr>))"

text \<open>The checks a popped goal goes through, in order; the last one only when a mode switch is due.\<close>

definition needs_switch :: "sampler \<Rightarrow> supervisor \<Rightarrow> trajectory_goal \<Rightarrow> bool" where
  "needs_switch m s g = (tg_control_mode g \<noteq> sm_bound_kind m \<or> tg_control_mode g \<noteq> sv_active_kind s)"

definition drain_refusal :: "sampler \<Rightarrow> supervisor \<Rightarrow> inbound \<Rightarrow> trajectory_result option" where
  "drain_refusal m s i =
     (let g = in_goal i in
      if in_halted i then Some (halt_result (in_why i))
      else if sv_stream_open s then Some (invalid_goal ''a streaming session opened before this goal could start'')
      else if tg_control_mode g \<noteq> KPosition \<and> tg_control_mode g \<noteq> KImpedance
        then Some (invalid_goal ''trajectory execution supports position and impedance only'')
      else if tg_control_mode g = KImpedance \<and> (\<not> known_profile (ig_profile (tg_gains g)) \<or>
          ig_profile (tg_gains g) = GpCustom \<and> validate_custom (ig_custom (tg_gains g)) \<noteq> None)
        then Some (invalid_goal ''gains failed validation at execution'')
      else if sm_have_active m \<and> tg_preemption g = KQueue
        then Some (invalid_goal (''queueing is disabled: wait for the active goal to finish, preempt it with '' @
                                 ''LATEST_WINS, or send one goal through all waypoints''))
      else if \<not> valid_timestamps (tg_trajectory g)
        then Some (invalid_goal ''waypoint timestamps must be finite and at least kMinSegmentSpanSec (10 ns) apart'')
      else if needs_switch m s g \<and> sm_have_active m
        then Some (invalid_goal ''mode change while a trajectory is in flight'')
      else None)"

definition switch_for :: "control_mode_kind \<Rightarrow> sampler \<Rightarrow> supervisor \<Rightarrow> sampler \<times> supervisor" where
  "switch_for k m s = (let i = (if k = KImpedance then MidImpedance else MidPosition);
                           kind = (if k = KImpedance then KImpedance else KPosition)
     in (m\<lparr>sm_traj := traj_exec_init (sk_continuous (sv_const s)), sm_sink := i, sm_bound_kind := k\<rparr>,
         (request_mode i s)\<lparr>sv_active_kind := kind\<rparr>))"

text \<open>One turn of the drain loop, up to the mode settle.\<close>

definition sampler_drain :: "sampler \<Rightarrow> supervisor \<Rightarrow> sampler \<times> supervisor" where
  "sampler_drain m s =
     (case sv_inbox s of
        [] \<Rightarrow> (m\<lparr>sm_pc := SmTick\<rparr>, s)
      | i # rest \<Rightarrow>
        (let s1 = s\<lparr>sv_inbox := rest\<rparr> in
         if \<not> in_halted i \<and> in_cancel i then drain_cancel m s1
         else (case drain_refusal m s1 i of
                 Some r \<Rightarrow> (m, settle (in_id i) r s1)
               | None \<Rightarrow>
                 (let (m2, s2) = (if needs_switch m s1 (in_goal i) then switch_for (tg_control_mode (in_goal i)) m s1 else (m, s1))
                  in (m2\<lparr>sm_pc := SmRecheck i\<rparr>, s2)))))"

text \<open>After the settle: a halt that landed meanwhile settles the goal.\<close>

definition sampler_recheck :: "inbound \<Rightarrow> sampler \<Rightarrow> supervisor \<Rightarrow> sampler \<times> supervisor" where
  "sampler_recheck i m s =
     (if sv_halt_pending s then (m\<lparr>sm_pc := SmDrain\<rparr>, settle (in_id i) (halt_result (sv_halt_reason s)) s)
      else (m\<lparr>sm_pc := SmSubmit i\<rparr>, s))"

definition gains_for :: "trajectory_goal \<Rightarrow> supervisor \<Rightarrow> invalid_argument + supervisor" where
  "gains_for g s = (if tg_control_mode g = KImpedance then apply_impedance_gains (tg_gains g) s else Inr s)"

definition sampler_submit :: "inbound \<Rightarrow> sampler \<Rightarrow> supervisor \<Rightarrow> invalid_argument + sampler \<times> supervisor" where
  "sampler_submit i m s =
     (let g = in_goal i;
          (r, e) = submit (sm_traj m) (tg_trajectory g) (tg_control_mode g) (tg_preemption g) (tg_path_tolerance g) (tg_speed_scale g);
          m1 = m\<lparr>sm_traj := e, sm_pc := SmDrain\<rparr>
      in if r \<noteq> SrAccepted
         then Inr (m1, settle (in_id i) (invalid_goal (if r = SrRejectedSpeedScale
                 then ''speed_scale outside [kMinSpeedScale, 1.0]: refused, not clamped'' else ''rejected by executor'')) s)
         else (let s1 = (if sm_have_active m then settle (sm_active_id m) preempted s else s)
               in case gains_for g s1 of
                    Inl e \<Rightarrow> Inl e
                  | Inr s2 \<Rightarrow> Inr (m1\<lparr>sm_active_id := in_id i, sm_have_active := True\<rparr>,
                                  if sm_have_active m then s2 else s2\<lparr>sv_in_flight := True\<rparr>)))"

subsection \<open>Stage 2: the tick\<close>

definition tick_result :: "exec_status \<Rightarrow> trajectory_result" where
  "tick_result st = trajectory_result0\<lparr>trr_error_code :=
     (if es_error_code st = kPathToleranceViolated then kPathToleranceViolated else kSuccessful)\<rparr>"

definition sampler_tick :: "sampler \<Rightarrow> supervisor \<Rightarrow> (sampler \<times> supervisor) option" where
  "sampler_tick m s =
     (if is_active (sm_traj m)
      then let m1 = (sample_measured s m)\<lparr>sm_pc := SmTop\<rparr> in do {
        (st, ref, e) \<leftarrow> tick (sm_traj m) (sv_now s - sm_t0 m) (sm_q_meas m1) (sm_speed m);
        let s1 = (case ref of None \<Rightarrow> s | Some t \<Rightarrow> on_modes (set_joint_target (sm_sink m) t) s);
        let s2 = publish_feedback (sm_active_id m)
                   (trajectory_feedback0\<lparr>tf_actual := sm_q_meas m1, tf_fraction_complete := es_fraction st\<rparr>) s1;
        Some (if es_completed st \<and> sm_have_active m
              then (m1\<lparr>sm_traj := e, sm_have_active := False\<rparr>,
                    (settle (sm_active_id m) (tick_result st) s2)\<lparr>sv_in_flight := False\<rparr>)
              else (m1\<lparr>sm_traj := e\<rparr>, s2)) }
      else Some (m\<lparr>sm_pc := SmTop\<rparr>, s))"

subsection \<open>The loop\<close>

definition sampler_step :: "eigen \<Rightarrow> sampler \<Rightarrow> supervisor \<Rightarrow> sampler_outcome" where
  "sampler_step L m s = (case sm_pc m of
       SmTop \<Rightarrow> Some (Inr (sampler_top m s))
     | SmHalt \<Rightarrow> Some (Inr (sampler_halt m s))
     | SmDeadline \<Rightarrow> Some (Inr (sampler_deadline m s))
     | SmCompliant \<Rightarrow> map_option Inr (sampler_compliant L m s)
     | SmDrain \<Rightarrow> Some (Inr (sampler_drain m s))
     | SmRecheck i \<Rightarrow> Some (Inr (sampler_recheck i m s))
     | SmSubmit i \<Rightarrow> Some (sampler_submit i m s)
     | SmTick \<Rightarrow> map_option Inr (sampler_tick m s))"

subsection \<open>The pump\<close>

record pump =
  pu_published_version :: "32 word"
  pu_contact_version :: "32 word"
  pu_t0 :: dbl

definition pump_init :: "supervisor \<Rightarrow> pump" where
  "pump_init s = \<lparr>pu_published_version = 0, pu_contact_version = 0, pu_t0 = sv_now s\<rparr>"

text \<open>The residual of the observer, when it counts: whole, settled, and stored since the last iteration.\<close>

definition observed_residual :: "bool \<Rightarrow> supervisor \<Rightarrow> jointvec option" where
  "observed_residual contact_live s = (case sv_contact s of
       None \<Rightarrow> None
     | Some c \<Rightarrow> (if contact_live \<and> sv_status_whole s \<and> cs_settled (cm_pub c) then Some (cs_r (cm_pub c)) else None))"

definition kWrenchDamping :: dbl where
  "kWrenchDamping = Fin (5 / 100)"

definition pump_state :: "eigen \<Rightarrow> dbl \<Rightarrow> bool \<Rightarrow> joint_feedback \<Rightarrow> supervisor \<Rightarrow> arm_state" where
  "pump_state L t0 contact_live fb s =
     (let dyn = sk_dyn (sv_const s); J = dyn_jacobian dyn (fb_q fb)
      in \<lparr>as_q = fb_q fb, as_qd = fb_qd fb, as_tau = fb_tau fb, as_ee_pose = dyn_fk dyn (fb_q fb),
          as_ee_twist = jac_vec J (fb_qd fb),
          as_ee_wrench =
            (if fb_fault fb then vconst6 NaN
             else (case observed_residual contact_live s of
                     Some r \<Rightarrow> ee_wrench_from_residual L J r kWrenchDamping
                   | None \<Rightarrow> ee_wrench_from_residual L J (dyn_gravity dyn (fb_q fb) - fb_tau fb) kWrenchDamping)),
          as_fault = fb_fault fb, as_stamp_s = sv_now s - t0, as_speed_override = sv_speed_override s\<rparr>)"

definition pump_step :: "eigen \<Rightarrow> pump \<Rightarrow> supervisor \<Rightarrow> pump \<times> supervisor" where
  "pump_step L p s =
     (let cv = (case sv_contact s of None \<Rightarrow> 0 | Some c \<Rightarrow> cm_version c);
          contact_live = (cv \<noteq> pu_contact_version p);
          p1 = p\<lparr>pu_contact_version := cv\<rparr>
      in case sv_snap s of
           Some fb \<Rightarrow>
             (if sv_snap_version s \<noteq> pu_published_version p
              then let a = pump_state L (pu_t0 p) contact_live fb s
                   in (p1\<lparr>pu_published_version := sv_snap_version s\<rparr>, s\<lparr>sv_state := a, sv_states := sv_states s @ [a]\<rparr>)
              else (p1, s))
         | None \<Rightarrow> (p1, s))"

end
