(* ===== verification/Supervisor_Laws.thy ===== *)
theory Supervisor_Laws
  imports Supervisor_Sampler "HOL-Library.Multiset"
begin

section \<open>What the Supervisor's operations do\<close>

text \<open>
  Frames and laws of the handlers and of the sampler's stages, used by the proofs about their
  interleavings, and the functional properties of opening and closing a stream, of a halt and of the
  speed scale.
\<close>

subsection \<open>Frames\<close>

lemmas sup_updates = on_modes_def request_mode_def line_up_position_def settle_def publish_feedback_def

lemma on_modes_frame [simp]:
  "sv_const (on_modes f s) = sv_const s" "sv_modes (on_modes f s) = f (sv_modes s)" "sv_requested (on_modes f s) = sv_requested s"
  "sv_grip (on_modes f s) = sv_grip s" "sv_contact (on_modes f s) = sv_contact s" "sv_contact_cleared (on_modes f s) = sv_contact_cleared s"
  "sv_active_kind (on_modes f s) = sv_active_kind s" "sv_in_flight (on_modes f s) = sv_in_flight s"
  "sv_speed_override (on_modes f s) = sv_speed_override s" "sv_speed_applied (on_modes f s) = sv_speed_applied s"
  "sv_session_default (on_modes f s) = sv_session_default s"
  "sv_session (on_modes f s) = sv_session s" "sv_stream_open (on_modes f s) = sv_stream_open s" "sv_close_cause (on_modes f s) = sv_close_cause s"
  "sv_inbox (on_modes f s) = sv_inbox s" "sv_halt_pending (on_modes f s) = sv_halt_pending s"
  "sv_halt_reason (on_modes f s) = sv_halt_reason s" "sv_ready (on_modes f s) = sv_ready s" "sv_now (on_modes f s) = sv_now s"
  "sv_snap (on_modes f s) = sv_snap s" "sv_settled (on_modes f s) = sv_settled s" "sv_feedback (on_modes f s) = sv_feedback s"
  "sv_hold_q (on_modes f s) = sv_hold_q s" "sv_have_hold_q (on_modes f s) = sv_have_hold_q s"
  "contact_latched (on_modes f s) = contact_latched s"
  by (simp_all add: on_modes_def contact_latched_def)

lemma latch_hold_frame [simp]:
  "sv_const (latch_hold k s) = sv_const s" "sv_requested (latch_hold k s) = sv_requested s"
  "sv_grip (latch_hold k s) = sv_grip s" "sv_contact (latch_hold k s) = sv_contact s" "sv_contact_cleared (latch_hold k s) = sv_contact_cleared s"
  "sv_active_kind (latch_hold k s) = sv_active_kind s" "sv_in_flight (latch_hold k s) = sv_in_flight s"
  "sv_speed_override (latch_hold k s) = sv_speed_override s" "sv_speed_applied (latch_hold k s) = sv_speed_applied s"
  "sv_session_default (latch_hold k s) = sv_session_default s"
  "sv_session (latch_hold k s) = sv_session s" "sv_stream_open (latch_hold k s) = sv_stream_open s" "sv_close_cause (latch_hold k s) = sv_close_cause s"
  "sv_inbox (latch_hold k s) = sv_inbox s" "sv_halt_pending (latch_hold k s) = sv_halt_pending s"
  "sv_halt_reason (latch_hold k s) = sv_halt_reason s" "sv_ready (latch_hold k s) = sv_ready s" "sv_now (latch_hold k s) = sv_now s"
  "sv_snap (latch_hold k s) = sv_snap s" "sv_settled (latch_hold k s) = sv_settled s" "sv_feedback (latch_hold k s) = sv_feedback s"
  by (simp_all add: latch_hold_def Let_def split: option.splits)

lemma close_stream_frame [simp]:
  "sv_const (close_stream c s) = sv_const s" "sv_requested (close_stream c s) = sv_requested s"
  "sv_grip (close_stream c s) = sv_grip s" "sv_contact (close_stream c s) = sv_contact s" "sv_contact_cleared (close_stream c s) = sv_contact_cleared s"
  "sv_active_kind (close_stream c s) = sv_active_kind s" "sv_in_flight (close_stream c s) = sv_in_flight s"
  "sv_speed_override (close_stream c s) = sv_speed_override s" "sv_speed_applied (close_stream c s) = sv_speed_applied s"
  "sv_session_default (close_stream c s) = sv_session_default s"
  "\<not> sv_stream_open (close_stream c s)"
  "sv_inbox (close_stream c s) = sv_inbox s" "sv_halt_pending (close_stream c s) = sv_halt_pending s"
  "sv_halt_reason (close_stream c s) = sv_halt_reason s" "sv_ready (close_stream c s) = sv_ready s" "sv_now (close_stream c s) = sv_now s"
  "sv_snap (close_stream c s) = sv_snap s" "sv_settled (close_stream c s) = sv_settled s" "sv_feedback (close_stream c s) = sv_feedback s"
  "sv_session (close_stream c s) = (if sv_stream_open s then session_close (sv_session s) else sv_session s)"
  "contact_latched (close_stream c s) = contact_latched s"
  by (simp_all add: close_stream_def Let_def contact_latched_def)

lemma on_halt_frame [simp]:
  "sv_const (on_halt r s) = sv_const s" "sv_requested (on_halt r s) = sv_requested s"
  "sv_contact (on_halt r s) = sv_contact s" "sv_contact_cleared (on_halt r s) = sv_contact_cleared s"
  "sv_grip (on_halt r s) = map_option gr_release (sv_grip s)"
  "sv_active_kind (on_halt r s) = sv_active_kind s" "sv_in_flight (on_halt r s) = sv_in_flight s"
  "sv_speed_override (on_halt r s) = sv_speed_override s" "sv_speed_applied (on_halt r s) = sv_speed_applied s"
  "sv_session_default (on_halt r s) = sv_session_default s"
  "\<not> sv_stream_open (on_halt r s)"
  "sv_inbox (on_halt r s) = halt_inbox r (sv_inbox s)" "sv_halt_pending (on_halt r s)"
  "sv_halt_reason (on_halt r s) = (if sv_halt_pending s \<and> sv_halt_reason s = HrContact then HrContact else r)"
  "sv_ready (on_halt r s) = sv_ready s" "sv_now (on_halt r s) = sv_now s"
  "sv_snap (on_halt r s) = sv_snap s" "sv_settled (on_halt r s) = sv_settled s" "sv_feedback (on_halt r s) = sv_feedback s"
  "sv_session (on_halt r s) = (if sv_stream_open s then session_close (sv_session s) else sv_session s)"
  "contact_latched (on_halt r s) = contact_latched s"
  by (simp_all add: on_halt_def Let_def contact_latched_def)

lemma line_up_position_frame [simp]:
  "sv_const (line_up_position s) = sv_const s" "sv_modes (line_up_position s) = sv_modes s"
  "sv_requested (line_up_position s) = Some MidPosition" "sv_active_kind (line_up_position s) = KPosition"
  "sv_contact (line_up_position s) = sv_contact s" "sv_contact_cleared (line_up_position s) = sv_contact_cleared s"
  "sv_in_flight (line_up_position s) = sv_in_flight s" "sv_speed_override (line_up_position s) = sv_speed_override s"
  "sv_speed_applied (line_up_position s) = sv_speed_applied s" "sv_session_default (line_up_position s) = sv_session_default s"
  "sv_stream_open (line_up_position s) = sv_stream_open s" "sv_session (line_up_position s) = sv_session s"
  "sv_inbox (line_up_position s) = sv_inbox s" "sv_halt_pending (line_up_position s) = sv_halt_pending s"
  "sv_halt_reason (line_up_position s) = sv_halt_reason s" "sv_ready (line_up_position s) = sv_ready s"
  "sv_now (line_up_position s) = sv_now s" "sv_snap (line_up_position s) = sv_snap s" "sv_settled (line_up_position s) = sv_settled s"
  "sv_feedback (line_up_position s) = sv_feedback s" "sv_grip (line_up_position s) = sv_grip s"
  "contact_latched (line_up_position s) = contact_latched s"
  by (simp_all add: line_up_position_def request_mode_def contact_latched_def)

lemma settle_frame [simp]:
  "sv_const (settle i r s) = sv_const s" "sv_modes (settle i r s) = sv_modes s" "sv_requested (settle i r s) = sv_requested s"
  "sv_contact (settle i r s) = sv_contact s" "sv_active_kind (settle i r s) = sv_active_kind s"
  "sv_in_flight (settle i r s) = sv_in_flight s" "sv_speed_override (settle i r s) = sv_speed_override s"
  "sv_speed_applied (settle i r s) = sv_speed_applied s" "sv_session_default (settle i r s) = sv_session_default s"
  "sv_stream_open (settle i r s) = sv_stream_open s" "sv_session (settle i r s) = sv_session s"
  "sv_inbox (settle i r s) = sv_inbox s" "sv_halt_pending (settle i r s) = sv_halt_pending s"
  "sv_halt_reason (settle i r s) = sv_halt_reason s" "sv_ready (settle i r s) = sv_ready s" "sv_now (settle i r s) = sv_now s"
  "sv_snap (settle i r s) = sv_snap s" "sv_settled (settle i r s) = sv_settled s @ [(i, r)]"
  "contact_latched (settle i r s) = contact_latched s" "sv_grip (settle i r s) = sv_grip s"
  by (simp_all add: settle_def contact_latched_def)

lemma publish_feedback_frame [simp]:
  "sv_const (publish_feedback i f s) = sv_const s" "sv_modes (publish_feedback i f s) = sv_modes s"
  "sv_requested (publish_feedback i f s) = sv_requested s"
  "sv_contact (publish_feedback i f s) = sv_contact s" "sv_active_kind (publish_feedback i f s) = sv_active_kind s"
  "sv_in_flight (publish_feedback i f s) = sv_in_flight s" "sv_speed_override (publish_feedback i f s) = sv_speed_override s"
  "sv_speed_applied (publish_feedback i f s) = sv_speed_applied s" "sv_session_default (publish_feedback i f s) = sv_session_default s"
  "sv_stream_open (publish_feedback i f s) = sv_stream_open s" "sv_session (publish_feedback i f s) = sv_session s"
  "sv_inbox (publish_feedback i f s) = sv_inbox s" "sv_halt_pending (publish_feedback i f s) = sv_halt_pending s"
  "sv_halt_reason (publish_feedback i f s) = sv_halt_reason s" "sv_ready (publish_feedback i f s) = sv_ready s"
  "sv_now (publish_feedback i f s) = sv_now s" "sv_settled (publish_feedback i f s) = sv_settled s"
  "contact_latched (publish_feedback i f s) = contact_latched s" "sv_grip (publish_feedback i f s) = sv_grip s"
  by (simp_all add: publish_feedback_def contact_latched_def)

lemma rebind_frame [simp]:
  "sm_pc (rebind k s m) = sm_pc m" "sm_active_id (rebind k s m) = sm_active_id m" "sm_have_active (rebind k s m) = sm_have_active m"
  "sm_speed (rebind k s m) = sm_speed m" "sm_q_meas (rebind k s m) = sm_q_meas m" "sm_bound_kind (rebind k s m) = k"
  "\<not> is_active (sm_traj (rebind k s m))"
  by (simp_all add: rebind_def is_active_def traj_exec_init_def)

lemma sample_measured_frame [simp]:
  "sm_pc (sample_measured s m) = sm_pc m" "sm_traj (sample_measured s m) = sm_traj m" "sm_sink (sample_measured s m) = sm_sink m"
  "sm_active_id (sample_measured s m) = sm_active_id m" "sm_have_active (sample_measured s m) = sm_have_active m"
  "sm_speed (sample_measured s m) = sm_speed m" "sm_bound_kind (sample_measured s m) = sm_bound_kind m"
  by (simp_all add: sample_measured_def Let_def split: prod.splits)

lemma compliant_tick_frame:
  assumes "compliant_tick L m s = Some s'"
  shows "\<exists>q r. s' = on_modes (set_joint_target MidImpedance (joint_target0\<lparr>jt_q := q, jt_qd := r, jt_has_velocity := True\<rparr>))
                  (s\<lparr>sv_q_ref := q\<rparr>)"
  using assms by (auto simp: compliant_tick_def Let_def split: bind_splits)

lemma halt_inbox_halted: "i \<in> set (halt_inbox r q) \<Longrightarrow> in_halted i \<and> \<not> in_cancel i"
  by (auto simp: halt_inbox_def mark_halted_def)

lemma halt_inbox_ids: "map in_id (filter (\<lambda>i. \<not> in_cancel i) (halt_inbox r q)) = map in_id (filter (\<lambda>i. \<not> in_cancel i) q)"
  by (induction q) (auto simp: halt_inbox_def mark_halted_def)

subsection \<open>What the sampler owes\<close>

text \<open>The goals accepted and not settled yet: queued, popped, running.\<close>

definition goals_of :: "inbound list \<Rightarrow> goal_id multiset" where
  "goals_of q = mset (map in_id (filter (\<lambda>i. \<not> in_cancel i) q))"

definition popped :: "sampler \<Rightarrow> inbound option" where
  "popped m = (case sm_pc m of SmRecheck i \<Rightarrow> Some i | SmSubmit i \<Rightarrow> Some i | _ \<Rightarrow> None)"

definition owed :: "sampler \<Rightarrow> supervisor \<Rightarrow> goal_id multiset" where
  "owed m s = goals_of (sv_inbox s) + (case popped m of Some i \<Rightarrow> {#in_id i#} | None \<Rightarrow> {#})
     + (if sm_have_active m then {#sm_active_id m#} else {#})"

definition settled :: "supervisor \<Rightarrow> goal_id multiset" where
  "settled s = mset (map fst (sv_settled s))"

text \<open>A cancel is never marked halted.\<close>

definition inbox_ok :: "supervisor \<Rightarrow> bool" where
  "inbox_ok s = list_all (\<lambda>i. in_halted i \<longrightarrow> \<not> in_cancel i) (sv_inbox s)"

text \<open>The sampler's own bookkeeping: the executor runs exactly while a goal is active, and a popped goal has passed its checks.\<close>

definition goal_checked :: "inbound \<Rightarrow> bool" where
  "goal_checked i \<longleftrightarrow> \<not> in_cancel i \<and>
     (tg_control_mode (in_goal i) = KImpedance \<longrightarrow> spec_accepted (tg_gains (in_goal i)))"

definition sampler_ok :: "sampler \<Rightarrow> bool" where
  "sampler_ok m \<longleftrightarrow> sm_have_active m = is_active (sm_traj m) \<and> exec_wf (sm_traj m) \<and>
     (case popped m of Some i \<Rightarrow> goal_checked i | None \<Rightarrow> True)"

lemma goals_of_simps [simp]:
  "goals_of [] = {#}" "goals_of (i # q) = (if in_cancel i then goals_of q else {#in_id i#} + goals_of q)"
  "goals_of (p @ q) = goals_of p + goals_of q" "goals_of (halt_inbox r q) = goals_of q"
  using halt_inbox_ids [of r q] by (simp_all add: goals_of_def)

lemma popped_simps [simp]:
  "sm_pc m = SmTop \<Longrightarrow> popped m = None" "sm_pc m = SmHalt \<Longrightarrow> popped m = None" "sm_pc m = SmDeadline \<Longrightarrow> popped m = None"
  "sm_pc m = SmCompliant \<Longrightarrow> popped m = None" "sm_pc m = SmDrain \<Longrightarrow> popped m = None" "sm_pc m = SmTick \<Longrightarrow> popped m = None"
  "sm_pc m = SmRecheck i \<Longrightarrow> popped m = Some i" "sm_pc m = SmSubmit i \<Longrightarrow> popped m = Some i"
  by (simp_all add: popped_def)

lemma settled_frame [simp]:
  "settled (settle i r s) = settled s + {#i#}" "settled (on_modes f s) = settled s" "settled (close_stream c s) = settled s"
  "settled (on_halt h s) = settled s" "settled (line_up_position s) = settled s" "settled (publish_feedback j u s) = settled s"
  by (simp_all add: settled_def)

lemma settled_cong: "sv_settled s = sv_settled t \<Longrightarrow> settled s = settled t"
  by (simp add: settled_def)

lemma rebind_wf [simp]: "exec_wf (sm_traj (rebind k s m))"
  by (simp add: rebind_def exec_wf_init)

lemma init_idle [simp]: "\<not> is_active (traj_exec_init c)" "exec_wf (traj_exec_init c)"
  by (simp_all add: is_active_def traj_exec_init_def exec_wf_def)

lemma submit_active:
  "submit e tr mode p tol sc = (r, e') \<Longrightarrow> is_active e' = (r = SrAccepted \<or> is_active e)"
  by (auto simp: submit_def is_active_def exec_start_def split: if_splits)

lemma tick_completed:
  assumes "is_active e" and "tick e now q ov = Some (st, r, e')"
  shows "is_active e' = (\<not> es_completed st) \<and> r \<noteq> None"
proof -
  obtain a where "te_active e = Some a" using assms(1) by (auto simp: is_active_def)
  from tick_active_SomeD [OF this assms(2)] show ?thesis by (auto simp: is_active_def)
qed

text \<open>The invariant of the two together, and the balance of the goals.\<close>

definition sampler_inv :: "sampler \<Rightarrow> supervisor \<Rightarrow> bool" where
  "sampler_inv m s \<longleftrightarrow> sampler_ok m \<and> inbox_ok s \<and> sv_in_flight s = sm_have_active m \<and> sv_stream_open s = st_open (sv_session s)"

definition balance :: "sampler \<Rightarrow> supervisor \<Rightarrow> goal_id multiset" where
  "balance m s = owed m s + settled s"

definition kept :: "sampler \<Rightarrow> supervisor \<Rightarrow> sampler \<Rightarrow> supervisor \<Rightarrow> bool" where
  "kept m s m' s' \<longleftrightarrow> sampler_inv m' s' \<and> balance m' s' = balance m s"

lemma inbox_ok_halt [simp]: "inbox_ok (on_halt r s)"
  by (auto simp: inbox_ok_def list_all_iff dest: halt_inbox_halted)

lemma inbox_ok_cong: "sv_inbox s = sv_inbox t \<Longrightarrow> inbox_ok s = inbox_ok t"
  by (simp add: inbox_ok_def)

lemma inbox_ok_tail: "inbox_ok s \<Longrightarrow> sv_inbox s = i # q \<Longrightarrow> sv_inbox t = q \<Longrightarrow> inbox_ok t \<and> (in_halted i \<longrightarrow> \<not> in_cancel i)"
  by (simp add: inbox_ok_def)

lemma session_close_open [simp]: "\<not> st_open (session_close t)"
  by (simp add: session_close_def)

lemmas sup_inv_defs = kept_def sampler_inv_def sampler_ok_def balance_def owed_def inbox_ok_def settled_def

lemma kept_top:
  assumes "sampler_inv m s" and "sm_pc m = SmTop" and "sampler_top m s = (m', s')"
  shows "kept m s m' s'"
  using assms by (auto simp: sampler_top_def Let_def sup_inv_defs contact_latched_def list_all_iff dest: halt_inbox_halted split: if_splits)

lemma take_halt_frame:
  assumes "take_halt m s = (m', s')"
  shows "\<not> sm_have_active m' \<and> \<not> is_active (sm_traj m') \<and> exec_wf (sm_traj m') \<and> sm_pc m' = sm_pc m \<and>
    sv_inbox s' = sv_inbox s \<and> \<not> sv_in_flight s' \<and> sv_stream_open s' = sv_stream_open s \<and> sv_session s' = sv_session s \<and>
    \<not> sv_halt_pending s' \<and> settled s' = settled s + (if sm_have_active m then {#sm_active_id m#} else {#}) \<and>
    sv_speed_override s' = sv_speed_override s \<and> sv_speed_applied s' = sv_speed_applied s \<and> sm_speed m' = sm_speed m \<and>
    sv_grip s' = sv_grip s \<and> sv_session_default s' = sv_session_default s"
  using assms by (cases "sm_have_active m"; cases "sv_ready s")
    (auto simp: take_halt_def Let_def settled_def split: prod.splits option.splits)

lemma kept_halt:
  assumes "sampler_inv m s" and "sm_pc m = SmHalt" and "sampler_halt m s = (m', s')"
  shows "kept m s m' s'"
proof (cases "sv_halt_pending s")
  case True
  obtain m1 s1 where h: "take_halt m s = (m1, s1)" by fastforce
  with True assms(3) have "m' = m1\<lparr>sm_pc := SmDeadline\<rparr>" "s' = s1" by (simp_all add: sampler_halt_def)
  with assms(1,2) show ?thesis using take_halt_frame [OF h]
    by (simp add: kept_def sampler_inv_def sampler_ok_def balance_def owed_def inbox_ok_def)
next
  case False
  with assms show ?thesis by (auto simp: sampler_halt_def sup_inv_defs)
qed

lemma kept_deadline:
  assumes "sampler_inv m s" and "sm_pc m = SmDeadline" and "sampler_deadline m s = (m', s')"
  shows "kept m s m' s'"
  using assms by (auto simp: sampler_deadline_def Let_def sup_inv_defs split: if_splits)

lemma kept_compliant:
  assumes "sampler_inv m s" and "sm_pc m = SmCompliant" and "sampler_compliant L m s = Some (m', s')"
  shows "kept m s m' s'"
  using assms by (auto simp: sampler_compliant_def Let_def sup_inv_defs split: if_splits dest!: compliant_tick_frame)

lemma drain_refusal_None:
  assumes "drain_refusal m s i = None"
  shows "\<not> in_halted i \<and> \<not> sv_stream_open s \<and> (tg_control_mode (in_goal i) = KPosition \<or> tg_control_mode (in_goal i) = KImpedance) \<and>
    (tg_control_mode (in_goal i) = KImpedance \<longrightarrow> spec_accepted (tg_gains (in_goal i))) \<and>
    valid_timestamps (tg_trajectory (in_goal i)) \<and> (needs_switch m s (in_goal i) \<longrightarrow> \<not> sm_have_active m)"
  using assms by (auto simp: drain_refusal_def Let_def spec_accepted_def split: if_splits)

lemma kept_drain:
  assumes inv: "sampler_inv m s" and pc: "sm_pc m = SmDrain" and st: "sampler_drain m s = (m', s')"
  shows "kept m s m' s'"
proof (cases "sv_inbox s")
  case Nil
  with assms show ?thesis by (auto simp: sampler_drain_def sup_inv_defs)
next
  case (Cons i q)
  let ?s1 = "s\<lparr>sv_inbox := q\<rparr>"
  show ?thesis
  proof (cases "\<not> in_halted i \<and> in_cancel i")
    case True
    with Cons assms show ?thesis
      by (auto simp: sampler_drain_def drain_cancel_def Let_def sup_inv_defs split: if_splits)
  next
    case False
    with inv Cons have goal: "\<not> in_cancel i" by (auto simp: sampler_inv_def inbox_ok_def)
    show ?thesis
    proof (cases "drain_refusal m ?s1 i")
      case (Some r)
      with False Cons assms goal show ?thesis by (auto simp: sampler_drain_def Let_def sup_inv_defs)
    next
      case None
      have "\<not> sm_have_active m" if "needs_switch m ?s1 (in_goal i)" and "sm_have_active m"
        using drain_refusal_None [OF None] that by blast
      with None False Cons assms goal drain_refusal_None [OF None] show ?thesis
        by (auto simp: sampler_drain_def Let_def sup_inv_defs goal_checked_def switch_for_def request_mode_def split: if_splits)
    qed
  qed
qed

lemma kept_recheck:
  assumes "sampler_inv m s" and "sm_pc m = SmRecheck i" and "sampler_recheck i m s = (m', s')"
  shows "kept m s m' s'"
  using assms by (auto simp: sampler_recheck_def sup_inv_defs goal_checked_def split: if_splits)

lemma resolve_spec: "spec_accepted g \<Longrightarrow> \<exists>p. resolve_gains g d = Inr p"
  by (auto simp: spec_accepted_def known_profile_def resolve_gains_def profile_params_def split: gains_profile.splits)

lemma gains_for_checked: "goal_checked i \<Longrightarrow> \<exists>f. gains_for (in_goal i) s = Inr (on_modes f s)"
proof -
  assume i: "goal_checked i"
  have "gains_for (in_goal i) s = Inr (on_modes id s)" if "tg_control_mode (in_goal i) \<noteq> KImpedance"
    using that by (simp add: gains_for_def on_modes_def)
  moreover have "\<exists>f. gains_for (in_goal i) s = Inr (on_modes f s)" if "tg_control_mode (in_goal i) = KImpedance"
    using that i resolve_spec [of "tg_gains (in_goal i)" "sv_session_default s"]
    by (auto simp: gains_for_def goal_checked_def apply_impedance_gains_def)
  ultimately show ?thesis by blast
qed

lemma kept_submit:
  assumes inv: "sampler_inv m s" and pc: "sm_pc m = SmSubmit i" and st: "sampler_submit i m s = o'"
  shows "\<exists>m' s'. o' = Inr (m', s') \<and> kept m s m' s'"
proof -
  let ?g = "in_goal i"
  obtain r e where se: "submit (sm_traj m) (tg_trajectory ?g) (tg_control_mode ?g) (tg_preemption ?g)
      (tg_path_tolerance ?g) (tg_speed_scale ?g) = (r, e)" by fastforce
  have act: "is_active e = (r = SrAccepted \<or> is_active (sm_traj m))" using submit_active [OF se] .
  have wf: "exec_wf e" using exec_wf_submit [of "sm_traj m"] se inv by (metis sampler_inv_def sampler_ok_def snd_conv)
  have chk: "goal_checked i" using inv pc by (simp add: sampler_inv_def sampler_ok_def)
  show ?thesis
  proof (cases "r = SrAccepted")
    case True
    let ?s1 = "if sm_have_active m then settle (sm_active_id m) preempted s else s"
    obtain f where f: "gains_for ?g ?s1 = Inr (on_modes f ?s1)" using gains_for_checked [OF chk] by blast
    let ?m = "m\<lparr>sm_traj := e, sm_pc := SmDrain, sm_active_id := in_id i, sm_have_active := True\<rparr>"
    let ?s = "if sm_have_active m then on_modes f ?s1 else (on_modes f ?s1)\<lparr>sv_in_flight := True\<rparr>"
    have o: "o' = Inr (?m, ?s)" using st se True f by (simp add: sampler_submit_def Let_def)
    have "kept m s ?m ?s" using inv pc True act wf chk by (auto simp: sup_inv_defs goal_checked_def)
    with o show ?thesis by blast
  next
    case False
    let ?m = "m\<lparr>sm_traj := e, sm_pc := SmDrain\<rparr>"
    have "\<exists>x. o' = Inr (?m, settle (in_id i) x s)" using st se False by (auto simp: sampler_submit_def Let_def)
    then obtain x where o: "o' = Inr (?m, settle (in_id i) x s)" by blast
    have "kept m s ?m (settle (in_id i) x s)" using inv pc False act wf chk by (auto simp: sup_inv_defs goal_checked_def)
    with o show ?thesis by blast
  qed
qed

lemma kept_tick:
  assumes inv: "sampler_inv m s" and pc: "sm_pc m = SmTick" and st: "sampler_tick m s = Some (m', s')"
  shows "kept m s m' s'"
proof (cases "is_active (sm_traj m)")
  case False
  with assms show ?thesis by (auto simp: sampler_tick_def sup_inv_defs)
next
  case True
  let ?m1 = "sample_measured s m"
  obtain x ref e where t: "tick (sm_traj m) (sv_now s - sm_t0 m) (sm_q_meas ?m1) (sm_speed m) = Some (x, ref, e)"
    using st True by (auto simp: sampler_tick_def Let_def split: bind_splits)
  have c: "is_active e = (\<not> es_completed x)" "ref \<noteq> None" using tick_completed [OF True t] by simp_all
  have wf: "exec_wf e" using inv exec_wf_tick [OF _ t] by (simp add: sampler_inv_def sampler_ok_def)
  from st True t inv pc c wf show ?thesis
    by (auto simp: sampler_tick_def Let_def sup_inv_defs split: if_splits)
qed

lemma sampler_step_kept:
  assumes "sampler_inv m s" and "sampler_step L m s = Some o'"
  shows "\<exists>m' s'. o' = Inr (m', s') \<and> kept m s m' s'"
proof (cases "sm_pc m")
  case SmTop with assms show ?thesis using kept_top [OF assms(1) SmTop, of "fst (sampler_top m s)" "snd (sampler_top m s)"]
    by (auto simp: sampler_step_def intro: prod.collapse [symmetric])
next
  case SmHalt with assms show ?thesis using kept_halt [OF assms(1) SmHalt, of "fst (sampler_halt m s)" "snd (sampler_halt m s)"]
    by (auto simp: sampler_step_def intro: prod.collapse [symmetric])
next
  case SmDeadline with assms show ?thesis using kept_deadline [OF assms(1) SmDeadline, of "fst (sampler_deadline m s)" "snd (sampler_deadline m s)"]
    by (auto simp: sampler_step_def intro: prod.collapse [symmetric])
next
  case SmCompliant with assms show ?thesis using kept_compliant [OF assms(1)] by (auto simp: sampler_step_def)
next
  case SmDrain with assms show ?thesis using kept_drain [OF assms(1) SmDrain, of "fst (sampler_drain m s)" "snd (sampler_drain m s)"]
    by (auto simp: sampler_step_def intro: prod.collapse [symmetric])
next
  case (SmRecheck i) with assms show ?thesis
    using kept_recheck [OF assms(1) SmRecheck, of "fst (sampler_recheck i m s)" "snd (sampler_recheck i m s)"]
    by (auto simp: sampler_step_def intro: prod.collapse [symmetric])
next
  case (SmSubmit i) with assms show ?thesis using kept_submit [OF assms(1) SmSubmit] by (auto simp: sampler_step_def)
next
  case SmTick with assms show ?thesis using kept_tick [OF assms(1)] by (auto simp: sampler_step_def)
qed

end
