(* ===== verification/Arbiter.thy ===== *)
theory Arbiter
  imports Ports
begin

section \<open>The arbiter\<close>

text \<open>
  \<open>Arbiter\<close> (\<open>interface/arbiter.h\<close>, \<open>.cpp\<close>): who may command the arm. The state of the arbiter
  is a record, the sinks it decorates are the ports of \<open>Ports\<close> over a state \<open>'d\<close>. Token minting
  draws 64-bit words from the generator \<open>std::mt19937_64\<close>, a stream that is a parameter. The
  operations are first given as the sequential functions they are under the mutex \<open>m_\<close>; the second
  half splits them at the points where the code releases or does not hold the mutex and proves what
  an emergency stop guarantees under every interleaving.
\<close>

subsection \<open>State\<close>

record arbiter =
  ar_mode :: arbitration_mode
  ar_owned :: bool
  ar_estopped :: bool
  ar_token :: token
  ar_owner_id :: string
  ar_generation :: "64 word"
  ar_rejected :: "64 word"
  ar_drawn :: nat

definition arbiter_init :: "arbitration_mode \<Rightarrow> arbiter" where
  "arbiter_init mode = \<lparr>ar_mode = mode, ar_owned = False, ar_estopped = False, ar_token = 0,
     ar_owner_id = [], ar_generation = 0, ar_rejected = 0, ar_drawn = 0\<rparr>"

text \<open>The token's bytes are \<open>a\<close> then \<open>b\<close>, little-endian.\<close>

definition mint :: "(nat \<Rightarrow> 64 word) \<Rightarrow> arbiter \<Rightarrow> token \<times> arbiter" where
  "mint rng a = (word_cat (rng (ar_drawn a + 1)) (rng (ar_drawn a)), a\<lparr>ar_drawn := ar_drawn a + 2\<rparr>)"

definition admit :: "token \<Rightarrow> arbiter \<Rightarrow> bool" where
  "admit t a = (\<not> ar_estopped a \<and> (ar_mode a = ArbDisabled \<or> ar_owned a \<and> t = ar_token a))"

subsection \<open>Ownership\<close>

definition ar_status :: "arbiter \<Rightarrow> arbitration_status" where
  "ar_status a = \<lparr>ast_mode = ar_mode a, ast_estopped = ar_estopped a, ast_owned = ar_owned a,
     ast_owner_id = ar_owner_id a, ast_generation = ar_generation a, ast_rejected_count = ar_rejected a\<rparr>"

definition grant_refused :: "string \<Rightarrow> arbiter \<Rightarrow> grant_result" where
  "grant_refused msg a = \<lparr>gtr_accepted = False, gtr_token = 0, gtr_generation = ar_generation a, gtr_message = msg\<rparr>"

text \<open>The first locked section of \<open>grant\<close>: whether a live owner was dropped (\<open>need_halt\<close>).\<close>

definition grant_drop :: "arbiter \<Rightarrow> bool \<times> arbiter" where
  "grant_drop a = (if ar_owned a then (True, a\<lparr>ar_owned := False, ar_token := 0\<rparr>) else (False, a))"

definition choose_token :: "(nat \<Rightarrow> 64 word) \<Rightarrow> token option \<Rightarrow> arbiter \<Rightarrow> token \<times> arbiter" where
  "choose_token rng req a = (case req of Some t \<Rightarrow> (t, a) | None \<Rightarrow> mint rng a)"

text \<open>The second locked section: the assignment, behind a second look at the latch.\<close>

definition grant_assign :: "(nat \<Rightarrow> 64 word) \<Rightarrow> string \<Rightarrow> token option \<Rightarrow> arbiter \<Rightarrow> grant_result \<times> arbiter" where
  "grant_assign rng owner req a =
     (let (t, a1) = choose_token rng req a;
          a2 = a1\<lparr>ar_token := t, ar_owned := True, ar_owner_id := owner,
                  ar_generation := ar_generation a + 1\<rparr>
      in (\<lparr>gtr_accepted = True, gtr_token = t, gtr_generation = ar_generation a2, gtr_message = []\<rparr>, a2))"

definition grant_finish :: "(nat \<Rightarrow> 64 word) \<Rightarrow> string \<Rightarrow> token option \<Rightarrow> arbiter \<Rightarrow> grant_result \<times> arbiter" where
  "grant_finish rng owner req a =
     (if ar_estopped a then (grant_refused ''e-stopped'' a, a) else grant_assign rng owner req a)"

definition grant :: "(nat \<Rightarrow> 64 word) \<Rightarrow> 'd command_sink \<Rightarrow> string \<Rightarrow> token option \<Rightarrow> arbiter \<times> 'd
    \<Rightarrow> grant_result \<times> arbiter \<times> 'd" where
  "grant rng cs owner req = (\<lambda>(a, d).
     (if req = Some 0 then (grant_refused ''all-zero token'' a, a, d)
      else if ar_estopped a then (grant_refused ''e-stopped'' a, a, d)
      else let (need_halt, a1) = grant_drop a;
               d1 = (if need_halt then csk_halt cs HrOwnershipRevoked d else d);
               (r, a2) = grant_finish rng owner req a1
           in (r, a2, d1)))"

definition revoke_drop :: "arbiter \<Rightarrow> bool \<times> arbiter" where
  "revoke_drop a = (if ar_owned a then (True, a\<lparr>ar_owned := False, ar_token := 0, ar_owner_id := []\<rparr>) else (False, a))"

definition revoke :: "'d command_sink \<Rightarrow> arbiter \<times> 'd \<Rightarrow> arbiter \<times> 'd" where
  "revoke cs = (\<lambda>(a, d). let (need_halt, a1) = revoke_drop a
                          in (a1, if need_halt then csk_halt cs HrOwnershipRevoked d else d))"

definition estop_latch :: "arbiter \<Rightarrow> arbiter" where
  "estop_latch a = a\<lparr>ar_estopped := True\<rparr>"

definition estop_disown :: "arbiter \<Rightarrow> arbiter" where
  "estop_disown a = a\<lparr>ar_estopped := True, ar_owned := False, ar_token := 0, ar_owner_id := []\<rparr>"

definition estop :: "'d command_sink \<Rightarrow> arbiter \<times> 'd \<Rightarrow> arbiter \<times> 'd" where
  "estop cs = (\<lambda>(a, d).
     let a1 = estop_latch a; d1 = csk_halt cs HrEmergencyStop d; a2 = estop_disown a1
     in (a2, csk_halt cs HrEmergencyStop d1))"

definition estop_clear :: "arbiter \<Rightarrow> arbiter" where
  "estop_clear a = a\<lparr>ar_estopped := False\<rparr>"

subsection \<open>The gated commands\<close>

text \<open>
  Every gated handler has the shape of \<open>gated\<close>: under the mutex, refuse and count, or delegate. The
  refusal may look at the state behind the sink (a refused threshold request reports what is active).
\<close>

definition reject :: "arbiter \<Rightarrow> arbiter" where
  "reject a = a\<lparr>ar_rejected := ar_rejected a + 1\<rparr>"

definition gated :: "token \<Rightarrow> ('d \<Rightarrow> 'r \<times> 'd) \<Rightarrow> ('d \<Rightarrow> 'r \<times> 'd) \<Rightarrow> arbiter \<times> 'd \<Rightarrow> 'r \<times> arbiter \<times> 'd" where
  "gated t refuse deliver = (\<lambda>(a, d).
     (if \<not> admit t a then let (r, d') = refuse d in (r, reject a, d')
      else let (r, d') = deliver d in (r, a, d')))"

abbreviation silently :: "('d \<Rightarrow> 'd) \<Rightarrow> 'd \<Rightarrow> unit \<times> 'd" where
  "silently f \<equiv> (\<lambda>d. ((), f d))"

definition ar_on_trajectory_goal :: "'d command_sink \<Rightarrow> trajectory_goal \<Rightarrow> arbiter \<times> 'd \<Rightarrow> goal_response \<times> arbiter \<times> 'd" where
  "ar_on_trajectory_goal cs g = gated (tg_token g) (Pair GrRejectUnauthorized) (csk_trajectory_goal cs g)"

definition ar_on_trajectory_accepted :: "'d command_sink \<Rightarrow> goal_id \<Rightarrow> trajectory_goal \<Rightarrow> arbiter \<times> 'd \<Rightarrow> arbiter \<times> 'd" where
  "ar_on_trajectory_accepted cs i g = snd \<circ> gated (tg_token g) (Pair ()) (silently (csk_trajectory_accepted cs i g))"

definition ar_on_trajectory_cancel :: "'d command_sink \<Rightarrow> cancel_request \<Rightarrow> arbiter \<times> 'd \<Rightarrow> cancel_response \<times> arbiter \<times> 'd" where
  "ar_on_trajectory_cancel cs c = gated (cq_token c) (Pair CrReject) (csk_trajectory_cancel cs c)"

definition ar_on_set_gains :: "'d command_sink \<Rightarrow> gains_request \<Rightarrow> arbiter \<times> 'd \<Rightarrow> gains_result \<times> arbiter \<times> 'd" where
  "ar_on_set_gains cs r = gated (gq_token r) (Pair \<lparr>gt_accepted = False, gt_message = ''not authorized''\<rparr>) (csk_set_gains cs r)"

definition thresholds_unauthorized :: "'d command_sink \<Rightarrow> 'd \<Rightarrow> contact_thresholds_result \<times> 'd" where
  "thresholds_unauthorized cs d = (let (s, d') = csk_query_contact cs d in
     (\<lparr>cr_accepted = False, cr_message = ''not authorized'', cr_profile = cst_profile s,
       cr_theta = cs_theta (cst_status s)\<rparr>, d'))"

definition ar_on_set_contact_thresholds :: "'d command_sink \<Rightarrow> contact_thresholds_request \<Rightarrow> arbiter \<times> 'd
    \<Rightarrow> contact_thresholds_result \<times> arbiter \<times> 'd" where
  "ar_on_set_contact_thresholds cs r = gated (ctr_token r) (thresholds_unauthorized cs) (csk_set_contact_thresholds cs r)"

definition ar_on_stream_open :: "'d stream_sink \<Rightarrow> stream_open_request \<Rightarrow> arbiter \<times> 'd \<Rightarrow> stream_open_result \<times> arbiter \<times> 'd" where
  "ar_on_stream_open ss r = gated (so_token r)
     (Pair \<lparr>sr_accepted = False, sr_error_code = kNotAuthorized, sr_message = ''not authorized''\<rparr>) (ssk_stream_open ss r)"

definition ar_on_stream_close :: "'d stream_sink \<Rightarrow> stream_close_request \<Rightarrow> arbiter \<times> 'd \<Rightarrow> arbiter \<times> 'd" where
  "ar_on_stream_close ss r = snd \<circ> gated (sc_token r) (Pair ()) (silently (ssk_stream_close ss r))"

definition ar_on_setpoint_joint_position :: "'d stream_sink \<Rightarrow> joint_setpoint \<Rightarrow> arbiter \<times> 'd \<Rightarrow> arbiter \<times> 'd" where
  "ar_on_setpoint_joint_position ss s = snd \<circ> gated (js_token s) (Pair ()) (silently (ssk_joint_position ss s))"

definition ar_on_setpoint_joint_velocity :: "'d stream_sink \<Rightarrow> joint_setpoint \<Rightarrow> arbiter \<times> 'd \<Rightarrow> arbiter \<times> 'd" where
  "ar_on_setpoint_joint_velocity ss s = snd \<circ> gated (js_token s) (Pair ()) (silently (ssk_joint_velocity ss s))"

definition ar_on_setpoint_joint_torque :: "'d stream_sink \<Rightarrow> joint_setpoint \<Rightarrow> arbiter \<times> 'd \<Rightarrow> arbiter \<times> 'd" where
  "ar_on_setpoint_joint_torque ss s = snd \<circ> gated (js_token s) (Pair ()) (silently (ssk_joint_torque ss s))"

definition ar_on_setpoint_pose :: "'d stream_sink \<Rightarrow> pose_setpoint \<Rightarrow> arbiter \<times> 'd \<Rightarrow> arbiter \<times> 'd" where
  "ar_on_setpoint_pose ss s = snd \<circ> gated (ps_token s) (Pair ()) (silently (ssk_pose ss s))"

definition ar_on_setpoint_twist :: "'d stream_sink \<Rightarrow> twist_setpoint \<Rightarrow> arbiter \<times> 'd \<Rightarrow> arbiter \<times> 'd" where
  "ar_on_setpoint_twist ss s = snd \<circ> gated (ts_token s) (Pair ()) (silently (ssk_twist ss s))"

definition ar_on_gripper_setpoint :: "'d gripper_sink \<Rightarrow> gripper_setpoint \<Rightarrow> arbiter \<times> 'd \<Rightarrow> arbiter \<times> 'd" where
  "ar_on_gripper_setpoint gs s = snd \<circ> gated (gs_token s) (Pair ()) (silently (gsk_gripper_setpoint gs s))"

subsection \<open>The calls that are never gated\<close>

definition ungated :: "('d \<Rightarrow> 'r \<times> 'd) \<Rightarrow> arbiter \<times> 'd \<Rightarrow> 'r \<times> arbiter \<times> 'd" where
  "ungated f = (\<lambda>(a, d). let (r, d') = f d in (r, a, d'))"

definition ar_on_set_speed_override :: "'d command_sink \<Rightarrow> speed_override_request \<Rightarrow> arbiter \<times> 'd \<Rightarrow> speed_result \<times> arbiter \<times> 'd" where
  "ar_on_set_speed_override cs r = ungated (csk_set_speed_override cs r)"

definition ar_on_query_state :: "'d command_sink \<Rightarrow> arbiter \<times> 'd \<Rightarrow> arm_state \<times> arbiter \<times> 'd" where
  "ar_on_query_state cs = ungated (csk_query_state cs)"

definition ar_on_query_contact :: "'d command_sink \<Rightarrow> arbiter \<times> 'd \<Rightarrow> contact_state \<times> arbiter \<times> 'd" where
  "ar_on_query_contact cs = ungated (csk_query_contact cs)"

definition ar_on_query_stream :: "'d stream_sink \<Rightarrow> arbiter \<times> 'd \<Rightarrow> stream_status \<times> arbiter \<times> 'd" where
  "ar_on_query_stream ss = ungated (ssk_query_stream ss)"

definition ar_on_query_gripper :: "'d gripper_sink \<Rightarrow> arbiter \<times> 'd \<Rightarrow> gripper_state \<times> arbiter \<times> 'd" where
  "ar_on_query_gripper gs = ungated (gsk_query_gripper gs)"

definition ar_on_halt :: "'d command_sink \<Rightarrow> halt_reason \<Rightarrow> arbiter \<times> 'd \<Rightarrow> arbiter \<times> 'd" where
  "ar_on_halt cs r = (\<lambda>(a, d). (a, csk_halt cs r d))"

text \<open>The arbiter implements the ports it decorates.\<close>

definition arbiter_sinks :: "'d driver_sinks \<Rightarrow> (arbiter \<times> 'd) driver_sinks" where
  "arbiter_sinks k =
     (let cs = ds_command k; ss = ds_stream k; gs = ds_gripper k in
      \<lparr>ds_command = \<lparr>csk_trajectory_goal = ar_on_trajectory_goal cs,
                     csk_trajectory_accepted = ar_on_trajectory_accepted cs,
                     csk_trajectory_cancel = ar_on_trajectory_cancel cs,
                     csk_set_gains = ar_on_set_gains cs,
                     csk_set_speed_override = ar_on_set_speed_override cs,
                     csk_query_state = ar_on_query_state cs,
                     csk_set_contact_thresholds = ar_on_set_contact_thresholds cs,
                     csk_query_contact = ar_on_query_contact cs,
                     csk_halt = ar_on_halt cs\<rparr>,
       ds_stream = \<lparr>ssk_stream_open = ar_on_stream_open ss,
                    ssk_stream_close = ar_on_stream_close ss,
                    ssk_joint_position = ar_on_setpoint_joint_position ss,
                    ssk_joint_velocity = ar_on_setpoint_joint_velocity ss,
                    ssk_joint_torque = ar_on_setpoint_joint_torque ss,
                    ssk_pose = ar_on_setpoint_pose ss,
                    ssk_twist = ar_on_setpoint_twist ss,
                    ssk_query_stream = ar_on_query_stream ss\<rparr>,
       ds_gripper = \<lparr>gsk_gripper_setpoint = ar_on_gripper_setpoint gs,
                     gsk_query_gripper = ar_on_query_gripper gs\<rparr>\<rparr>)"

subsection \<open>One handler for all gated commands\<close>

datatype command =
    CmdGoal trajectory_goal
  | CmdAccepted goal_id trajectory_goal
  | CmdCancel cancel_request
  | CmdGains gains_request
  | CmdThresholds contact_thresholds_request
  | CmdOpen stream_open_request
  | CmdClose stream_close_request
  | CmdJointPosition joint_setpoint
  | CmdJointVelocity joint_setpoint
  | CmdJointTorque joint_setpoint
  | CmdPose pose_setpoint
  | CmdTwist twist_setpoint
  | CmdGripper gripper_setpoint

fun command_token :: "command \<Rightarrow> token" where
  "command_token (CmdGoal g) = tg_token g"
| "command_token (CmdAccepted i g) = tg_token g"
| "command_token (CmdCancel c) = cq_token c"
| "command_token (CmdGains r) = gq_token r"
| "command_token (CmdThresholds r) = ctr_token r"
| "command_token (CmdOpen r) = so_token r"
| "command_token (CmdClose r) = sc_token r"
| "command_token (CmdJointPosition s) = js_token s"
| "command_token (CmdJointVelocity s) = js_token s"
| "command_token (CmdJointTorque s) = js_token s"
| "command_token (CmdPose s) = ps_token s"
| "command_token (CmdTwist s) = ts_token s"
| "command_token (CmdGripper s) = gs_token s"

text \<open>A command sent to a set of sinks, its reply dropped.\<close>

fun deliver :: "'d driver_sinks \<Rightarrow> command \<Rightarrow> 'd \<Rightarrow> 'd" where
  "deliver k (CmdGoal g) d = snd (csk_trajectory_goal (ds_command k) g d)"
| "deliver k (CmdAccepted i g) d = csk_trajectory_accepted (ds_command k) i g d"
| "deliver k (CmdCancel c) d = snd (csk_trajectory_cancel (ds_command k) c d)"
| "deliver k (CmdGains r) d = snd (csk_set_gains (ds_command k) r d)"
| "deliver k (CmdThresholds r) d = snd (csk_set_contact_thresholds (ds_command k) r d)"
| "deliver k (CmdOpen r) d = snd (ssk_stream_open (ds_stream k) r d)"
| "deliver k (CmdClose r) d = ssk_stream_close (ds_stream k) r d"
| "deliver k (CmdJointPosition s) d = ssk_joint_position (ds_stream k) s d"
| "deliver k (CmdJointVelocity s) d = ssk_joint_velocity (ds_stream k) s d"
| "deliver k (CmdJointTorque s) d = ssk_joint_torque (ds_stream k) s d"
| "deliver k (CmdPose s) d = ssk_pose (ds_stream k) s d"
| "deliver k (CmdTwist s) d = ssk_twist (ds_stream k) s d"
| "deliver k (CmdGripper s) d = gsk_gripper_setpoint (ds_gripper k) s d"

text \<open>What refusing a command does behind the arbiter: nothing, or one query.\<close>

fun refuse_effect :: "'d driver_sinks \<Rightarrow> command \<Rightarrow> 'd \<Rightarrow> 'd" where
  "refuse_effect k (CmdThresholds r) d = snd (csk_query_contact (ds_command k) d)"
| "refuse_effect k c d = d"

lemma gated_admitted: "admit t a \<Longrightarrow> snd (gated t refuse del (a, d)) = (a, snd (del d))"
  by (simp add: gated_def split: prod.splits)

lemma gated_refused: "\<not> admit t a \<Longrightarrow> snd (gated t refuse del (a, d)) = (reject a, snd (refuse d))"
  by (simp add: gated_def split: prod.splits)

lemmas arbiter_handler_defs = ar_on_trajectory_goal_def ar_on_trajectory_accepted_def
  ar_on_trajectory_cancel_def ar_on_set_gains_def ar_on_set_contact_thresholds_def
  ar_on_stream_open_def ar_on_stream_close_def ar_on_setpoint_joint_position_def
  ar_on_setpoint_joint_velocity_def ar_on_setpoint_joint_torque_def ar_on_setpoint_pose_def
  ar_on_setpoint_twist_def ar_on_gripper_setpoint_def

lemma thresholds_unauthorized_effect:
  "snd (thresholds_unauthorized cs d) = snd (csk_query_contact cs d)"
  by (simp add: thresholds_unauthorized_def split: prod.splits)

lemma deliver_arbiter:
  "deliver (arbiter_sinks k) c (a, d) =
     (if admit (command_token c) a then (a, deliver k c d) else (reject a, refuse_effect k c d))"
  by (cases c) (simp_all add: arbiter_sinks_def Let_def arbiter_handler_defs gated_admitted gated_refused
      thresholds_unauthorized_effect)

text \<open>
  Claim C5. The gate: every one of the thirteen commands a client can send through the arbiter reaches
  the driver behind it exactly when the arbiter is not e-stopped and either arbitration is disabled or
  the command carries the token of the live grant; a refused command leaves the driver as it was (but
  for the contact query a refused threshold request makes), is counted, and changes neither the
  owner, the token nor the latch.
\<close>

theorem gate_admits_iff:
  "deliver (arbiter_sinks k) c (a, d) =
     (if \<not> ar_estopped a \<and> (ar_mode a = ArbDisabled \<or> ar_owned a \<and> command_token c = ar_token a)
      then (a, deliver k c d)
      else (a\<lparr>ar_rejected := ar_rejected a + 1\<rparr>, refuse_effect k c d))"
  by (simp only: deliver_arbiter admit_def reject_def)

end
