(* ===== verification/Arbiter_Concurrent.thy ===== *)
theory Arbiter_Concurrent
  imports Arbiter
begin

section \<open>The arbiter under concurrency\<close>

text \<open>
  The arbiter's operations as called by any number of threads (\<open>interface/arbiter.cpp\<close>). A step of
  \<open>arb_step\<close> is one section of a call between the points where the mutex \<open>m_\<close> is taken or released
  or where something outside it becomes visible: the latch of \<open>estop\<close>, which is stored before the
  mutex is asked for, the halts, which are delivered without it, and a delegated command, which
  holds it from its admission to its return: a delegated call that sleeps (opening a stream) makes the
  driver \<open>busy\<close> until it is over. The driver behind the arbiter moves on its own by the relation
  \<open>internal\<close>. A ghost bit records that an emergency stop has returned and no
  \<open>estop_clear\<close> came after it.
\<close>

datatype arb_pc =
    Idle
  | Admitted command
  | Delegated
  | GrantHalting string "token option"
  | GrantRelock string "token option"
  | GrantChecked string "token option"
  | RevokeHalting
  | EstopHalting
  | EstopWaiting
  | EstopFinal

record 'd conc =
  cn_arb :: arbiter
  cn_down :: 'd
  cn_lock :: "nat option"
  cn_pc :: "nat \<Rightarrow> arb_pc"
  cn_sealed :: bool

definition conc_init :: "arbitration_mode \<Rightarrow> 'd \<Rightarrow> 'd conc" where
  "conc_init mode d = \<lparr>cn_arb = arbiter_init mode, cn_down = d, cn_lock = None,
     cn_pc = (\<lambda>_. Idle), cn_sealed = False\<rparr>"

definition goto :: "nat \<Rightarrow> arb_pc \<Rightarrow> 'd conc \<Rightarrow> 'd conc" where
  "goto t p s = s\<lparr>cn_pc := (cn_pc s)(t := p)\<rparr>"

text \<open>Entering a locked section, leaving it.\<close>

definition lock_at :: "nat \<Rightarrow> arb_pc \<Rightarrow> 'd conc \<Rightarrow> 'd conc" where
  "lock_at t p s = (goto t p s)\<lparr>cn_lock := Some t\<rparr>"

definition unlock_at :: "nat \<Rightarrow> arb_pc \<Rightarrow> 'd conc \<Rightarrow> 'd conc" where
  "unlock_at t p s = (goto t p s)\<lparr>cn_lock := None\<rparr>"

inductive arb_step :: "(nat \<Rightarrow> 64 word) \<Rightarrow> 'd driver_sinks \<Rightarrow> ('d \<Rightarrow> bool) \<Rightarrow> ('d \<Rightarrow> 'd \<Rightarrow> bool) \<Rightarrow> 'd conc \<Rightarrow> 'd conc \<Rightarrow> bool"
  for rng k busy internal where
  cmd_admit: "\<lbrakk>cn_pc s t = Idle; cn_lock s = None; admit (command_token c) (cn_arb s)\<rbrakk>
    \<Longrightarrow> arb_step rng k busy internal s (lock_at t (Admitted c) s)"
| cmd_refuse: "\<lbrakk>cn_pc s t = Idle; cn_lock s = None; \<not> admit (command_token c) (cn_arb s)\<rbrakk>
    \<Longrightarrow> arb_step rng k busy internal s (s\<lparr>cn_arb := reject (cn_arb s), cn_down := refuse_effect k c (cn_down s)\<rparr>)"
| cmd_deliver: "cn_pc s t = Admitted c
    \<Longrightarrow> arb_step rng k busy internal s (goto t Delegated (s\<lparr>cn_down := deliver k c (cn_down s)\<rparr>))"
| cmd_return: "\<lbrakk>cn_pc s t = Delegated; \<not> busy (cn_down s)\<rbrakk>
    \<Longrightarrow> arb_step rng k busy internal s (unlock_at t Idle s)"
| grant_take: "\<lbrakk>cn_pc s t = Idle; cn_lock s = None; req \<noteq> Some 0; \<not> ar_estopped (cn_arb s);
      grant_drop (cn_arb s) = (need_halt, a)\<rbrakk>
    \<Longrightarrow> arb_step rng k busy internal s (goto t (if need_halt then GrantHalting w req else GrantRelock w req) (s\<lparr>cn_arb := a\<rparr>))"
| grant_halt: "cn_pc s t = GrantHalting w req
    \<Longrightarrow> arb_step rng k busy internal s (goto t (GrantRelock w req) (s\<lparr>cn_down := csk_halt (ds_command k) HrOwnershipRevoked (cn_down s)\<rparr>))"
| grant_raced: "\<lbrakk>cn_pc s t = GrantRelock w req; cn_lock s = None; ar_estopped (cn_arb s)\<rbrakk>
    \<Longrightarrow> arb_step rng k busy internal s (goto t Idle s)"
| grant_check: "\<lbrakk>cn_pc s t = GrantRelock w req; cn_lock s = None; \<not> ar_estopped (cn_arb s)\<rbrakk>
    \<Longrightarrow> arb_step rng k busy internal s (lock_at t (GrantChecked w req) s)"
| grant_set: "\<lbrakk>cn_pc s t = GrantChecked w req;
      grant_assign rng w req (cn_arb s) = (r, a)\<rbrakk>
    \<Longrightarrow> arb_step rng k busy internal s (unlock_at t Idle (s\<lparr>cn_arb := a\<rparr>))"
| revoke_take: "\<lbrakk>cn_pc s t = Idle; cn_lock s = None; revoke_drop (cn_arb s) = (need_halt, a)\<rbrakk>
    \<Longrightarrow> arb_step rng k busy internal s (goto t (if need_halt then RevokeHalting else Idle) (s\<lparr>cn_arb := a\<rparr>))"
| revoke_halt: "cn_pc s t = RevokeHalting
    \<Longrightarrow> arb_step rng k busy internal s (goto t Idle (s\<lparr>cn_down := csk_halt (ds_command k) HrOwnershipRevoked (cn_down s)\<rparr>))"
| estop_latch: "cn_pc s t = Idle
    \<Longrightarrow> arb_step rng k busy internal s (goto t EstopHalting (s\<lparr>cn_arb := estop_latch (cn_arb s)\<rparr>))"
| estop_halt: "cn_pc s t = EstopHalting
    \<Longrightarrow> arb_step rng k busy internal s (goto t EstopWaiting (s\<lparr>cn_down := csk_halt (ds_command k) HrEmergencyStop (cn_down s)\<rparr>))"
| estop_lock: "\<lbrakk>cn_pc s t = EstopWaiting; cn_lock s = None\<rbrakk>
    \<Longrightarrow> arb_step rng k busy internal s (lock_at t EstopFinal (s\<lparr>cn_arb := estop_disown (cn_arb s)\<rparr>))"
| estop_return: "cn_pc s t = EstopFinal
    \<Longrightarrow> arb_step rng k busy internal s (unlock_at t Idle (s\<lparr>cn_down := csk_halt (ds_command k) HrEmergencyStop (cn_down s), cn_sealed := True\<rparr>))"
| estop_clear: "\<lbrakk>cn_pc s t = Idle; cn_lock s = None\<rbrakk>
    \<Longrightarrow> arb_step rng k busy internal s (s\<lparr>cn_arb := estop_clear (cn_arb s), cn_sealed := False\<rparr>)"
| speed: "arb_step rng k busy internal s (s\<lparr>cn_down := snd (csk_set_speed_override (ds_command k) q (cn_down s))\<rparr>)"
| query_contact: "arb_step rng k busy internal s (s\<lparr>cn_down := snd (csk_query_contact (ds_command k) (cn_down s))\<rparr>)"
| halt: "arb_step rng k busy internal s (s\<lparr>cn_down := csk_halt (ds_command k) h (cn_down s)\<rparr>)"
| driver: "internal (cn_down s) d \<Longrightarrow> arb_step rng k busy internal s (s\<lparr>cn_down := d\<rparr>)"

inductive arb_reach :: "(nat \<Rightarrow> 64 word) \<Rightarrow> 'd driver_sinks \<Rightarrow> ('d \<Rightarrow> bool) \<Rightarrow> ('d \<Rightarrow> 'd \<Rightarrow> bool) \<Rightarrow> 'd conc \<Rightarrow> 'd conc \<Rightarrow> bool"
  for rng k busy internal s0 where
  here: "arb_reach rng k busy internal s0 s0"
| more: "\<lbrakk>arb_reach rng k busy internal s0 s; arb_step rng k busy internal s s'\<rbrakk> \<Longrightarrow> arb_reach rng k busy internal s0 s'"

text \<open>Who may hold the mutex.\<close>

definition holding :: "arb_pc \<Rightarrow> bool" where
  "holding p = (case p of Admitted _ \<Rightarrow> True | Delegated \<Rightarrow> True | GrantChecked _ _ \<Rightarrow> True | EstopFinal \<Rightarrow> True | _ \<Rightarrow> False)"

lemma holding_simps [simp]:
  "\<not> holding Idle" "holding (Admitted c)" "\<not> holding (GrantHalting w r)" "\<not> holding (GrantRelock w r)"
  "holding (GrantChecked w r)" "\<not> holding RevokeHalting" "\<not> holding EstopHalting"
  "\<not> holding EstopWaiting" "holding EstopFinal"
  "holding Delegated"
  by (simp_all add: holding_def)

definition exclusive :: "'d conc \<Rightarrow> bool" where
  "exclusive s = (\<forall>t. holding (cn_pc s t) \<longleftrightarrow> cn_lock s = Some t)"

lemma exclusive_free: "exclusive s \<Longrightarrow> cn_lock s = None \<Longrightarrow> \<not> holding (cn_pc s t)"
  by (simp add: exclusive_def)

lemma exclusive_other: "exclusive s \<Longrightarrow> holding (cn_pc s t) \<Longrightarrow> u \<noteq> t \<Longrightarrow> \<not> holding (cn_pc s u)"
  unfolding exclusive_def by (metis option.inject)

lemma exclusive_goto: "exclusive s \<Longrightarrow> \<not> holding (cn_pc s t) \<Longrightarrow> \<not> holding p \<Longrightarrow> exclusive (goto t p s)"
  by (auto simp: exclusive_def goto_def)

lemma exclusive_stay: "exclusive s \<Longrightarrow> holding (cn_pc s t) \<Longrightarrow> holding p \<Longrightarrow> exclusive (goto t p s)"
  by (auto simp: exclusive_def goto_def)

lemma exclusive_lock: "exclusive s \<Longrightarrow> cn_lock s = None \<Longrightarrow> holding p \<Longrightarrow> exclusive (lock_at t p s)"
  by (auto simp: exclusive_def goto_def lock_at_def)

lemma exclusive_unlock: "exclusive s \<Longrightarrow> holding (cn_pc s t) \<Longrightarrow> \<not> holding p \<Longrightarrow> exclusive (unlock_at t p s)"
  by (auto simp: exclusive_def goto_def unlock_at_def)

lemma exclusive_shared [simp]:
  "exclusive (s\<lparr>cn_arb := a\<rparr>) = exclusive s" "exclusive (s\<lparr>cn_down := d\<rparr>) = exclusive s"
  "exclusive (s\<lparr>cn_sealed := b\<rparr>) = exclusive s"
  by (simp_all add: exclusive_def)

lemma exclusive_step: "arb_step rng k busy internal s s' \<Longrightarrow> exclusive s \<Longrightarrow> exclusive s'"
  by (induction rule: arb_step.induct)
    (auto intro!: exclusive_lock exclusive_unlock intro: exclusive_stay exclusive_goto)

lemma exclusive_init: "exclusive (conc_init mode d)"
  by (simp add: exclusive_def conc_init_def)

lemma exclusive_reach: "arb_reach rng k busy internal s0 s \<Longrightarrow> exclusive s0 \<Longrightarrow> exclusive s"
  by (induction rule: arb_reach.induct) (auto dest: exclusive_step)

subsection \<open>What an emergency stop guarantees\<close>

text \<open>
  The contract the arbiter needs of the driver: a halt of a driver with no call in progress stops it,
  and neither its own threads nor the calls that are never gated (nor a refused command's query) start
  it again, or begin a call.
\<close>

locale halting_driver =
  fixes k :: "'d driver_sinks" and busy :: "'d \<Rightarrow> bool" and internal :: "'d \<Rightarrow> 'd \<Rightarrow> bool" and stopped :: "'d \<Rightarrow> bool"
  assumes stopped_free: "stopped d \<Longrightarrow> \<not> busy d"
    and halt_stops: "\<not> busy d \<Longrightarrow> stopped (csk_halt (ds_command k) h d)"
    and internal_stopped: "stopped d \<Longrightarrow> internal d d' \<Longrightarrow> stopped d'"
    and speed_stopped: "stopped d \<Longrightarrow> stopped (snd (csk_set_speed_override (ds_command k) q d))"
    and query_stopped: "stopped d \<Longrightarrow> stopped (snd (csk_query_contact (ds_command k) d))"
    and halt_free: "busy (csk_halt (ds_command k) h d) \<Longrightarrow> busy d"
    and internal_free: "internal d d' \<Longrightarrow> busy d' \<Longrightarrow> busy d"
    and speed_free: "busy (snd (csk_set_speed_override (ds_command k) q d)) \<Longrightarrow> busy d"
    and query_free: "busy (snd (csk_query_contact (ds_command k) d)) \<Longrightarrow> busy d"
begin

lemma refuse_stopped: "stopped d \<Longrightarrow> stopped (refuse_effect k c d)"
  by (cases c) (simp_all add: query_stopped)

lemma refuse_free: "busy (refuse_effect k c d) \<Longrightarrow> busy d"
  by (cases c) (auto dest: query_free)

definition sealed_ok :: "'d conc \<Rightarrow> bool" where
  "sealed_ok s = (cn_sealed s \<longrightarrow> ar_estopped (cn_arb s) \<and> \<not> ar_owned (cn_arb s) \<and> stopped (cn_down s) \<and>
     (\<forall>t c w q. cn_pc s t \<noteq> Admitted c \<and> cn_pc s t \<noteq> Delegated \<and> cn_pc s t \<noteq> GrantChecked w q))"

definition final_ok :: "'d conc \<Rightarrow> bool" where
  "final_ok s = (\<forall>t. cn_pc s t = EstopFinal \<longrightarrow> ar_estopped (cn_arb s) \<and> \<not> ar_owned (cn_arb s))"

text \<open>A call in progress belongs to the thread that delegated it.\<close>

definition busy_ok :: "'d conc \<Rightarrow> bool" where
  "busy_ok s = (busy (cn_down s) \<longrightarrow> (\<exists>t. cn_pc s t = Delegated))"

lemma busy_okI: "(\<And>t. cn_pc s t = Delegated \<Longrightarrow> cn_pc s' t = Delegated) \<Longrightarrow> (busy (cn_down s') \<Longrightarrow> busy (cn_down s))
    \<Longrightarrow> busy_ok s \<Longrightarrow> busy_ok s'"
  unfolding busy_ok_def by blast

lemma busy_step:
  assumes "arb_step rng k busy internal s s'" and "busy_ok s"
  shows "busy_ok s'"
  using assms(1)
proof cases
  case (cmd_deliver t c)
  then have "cn_pc s' t = Delegated" by (simp add: goto_def)
  then show ?thesis unfolding busy_ok_def by blast
next
  case (cmd_return t)
  then show ?thesis by (simp add: busy_ok_def unlock_at_def goto_def)
qed (auto intro!: busy_okI [OF _ _ assms(2)] simp: goto_def lock_at_def unlock_at_def
    dest: refuse_free halt_free internal_free speed_free query_free)

lemma final_step:
  assumes "arb_step rng k busy internal s s'" and "exclusive s" and "final_ok s"
  shows "final_ok s'"
  using assms(1)
proof cases
  case (grant_set t w req r a)
  from grant_set assms(2) have "\<And>u. u \<noteq> t \<Longrightarrow> \<not> holding (cn_pc s u)"
    using exclusive_other by (metis holding_simps(5))
  then have "\<And>u. u \<noteq> t \<Longrightarrow> cn_pc s u \<noteq> EstopFinal" by (metis holding_simps(9))
  with grant_set show ?thesis by (auto simp: final_ok_def unlock_at_def goto_def)
next
  case (estop_clear t)
  with assms(2) have "\<And>u. cn_pc s u \<noteq> EstopFinal" by (metis exclusive_free holding_simps(9))
  with estop_clear show ?thesis by (auto simp: final_ok_def)
qed (use assms(3) in \<open>auto simp: final_ok_def goto_def lock_at_def unlock_at_def reject_def grant_drop_def
      revoke_drop_def estop_latch_def estop_disown_def split: if_splits\<close>)

lemma sealed_step:
  assumes st: "arb_step rng k busy internal s s'" and ex: "exclusive s" and fin: "final_ok s" and ok: "sealed_ok s"
    and own: "busy_ok s"
  shows "sealed_ok s'"
  using st
proof cases
  case (estop_return t)
  from estop_return ex have "\<And>u. u \<noteq> t \<Longrightarrow> \<not> holding (cn_pc s u)"
    using exclusive_other by (metis holding_simps(9))
  then have free: "\<And>u c w q. u \<noteq> t \<Longrightarrow> cn_pc s u \<noteq> Admitted c \<and> cn_pc s u \<noteq> Delegated \<and> cn_pc s u \<noteq> GrantChecked w q"
    by (metis holding_simps(2,5,10))
  have "\<not> busy (cn_down s)" using own free estop_return unfolding busy_ok_def by (metis arb_pc.simps)
  with estop_return fin free show ?thesis
    by (auto simp: sealed_ok_def final_ok_def unlock_at_def goto_def halt_stops)
qed (use ok in \<open>auto simp: sealed_ok_def goto_def lock_at_def unlock_at_def admit_def reject_def refuse_stopped
      grant_drop_def revoke_drop_def estop_latch_def estop_disown_def halt_stops stopped_free speed_stopped query_stopped
      internal_stopped split: if_splits\<close>)

lemma seal_reach:
  assumes "arb_reach rng k busy internal (conc_init mode d) s" and "\<not> busy d"
  shows "exclusive s \<and> final_ok s \<and> sealed_ok s \<and> busy_ok s"
  using assms(1)
proof (induction rule: arb_reach.induct)
  case here
  show ?case using assms(2) by (simp add: exclusive_init final_ok_def sealed_ok_def busy_ok_def) (simp add: conc_init_def)
next
  case (more s s')
  then show ?case by (blast intro: exclusive_step final_step sealed_step busy_step)
qed

lemma estop_seals:
  assumes "arb_reach rng k busy internal (conc_init mode d) s" and "\<not> busy d" and "cn_sealed s"
  shows "ar_estopped (cn_arb s) \<and> \<not> ar_owned (cn_arb s) \<and> stopped (cn_down s) \<and> (\<forall>t c. cn_pc s t \<noteq> Admitted c \<and> cn_pc s t \<noteq> Delegated)"
  using seal_reach [OF assms(1,2)] assms(3) by (simp add: sealed_ok_def)

end

subsection \<open>Tokens\<close>

text \<open>The live token is the zero token exactly when there is no owner.\<close>

definition token_ok :: "arbiter \<Rightarrow> bool" where
  "token_ok a = (ar_owned a \<longleftrightarrow> ar_token a \<noteq> 0)"

definition mints_ok :: "(nat \<Rightarrow> 64 word) \<Rightarrow> bool" where
  "mints_ok rng = (\<forall>n. (word_cat (rng (n + 1)) (rng n) :: token) \<noteq> 0)"

definition pending_ok :: "'d conc \<Rightarrow> bool" where
  "pending_ok s = (\<forall>t w. cn_pc s t \<noteq> GrantHalting w (Some 0) \<and> cn_pc s t \<noteq> GrantRelock w (Some 0) \<and>
     cn_pc s t \<noteq> GrantChecked w (Some 0))"

lemma grant_assign_token_ok:
  assumes "mints_ok rng" and "req \<noteq> Some 0" and "grant_assign rng w req a = (r, a')"
  shows "token_ok a'"
  using assms by (auto simp: grant_assign_def choose_token_def mint_def mints_ok_def token_ok_def split: option.splits)

lemma token_step:
  assumes "arb_step rng k busy internal s s'" and m: "mints_ok rng" and p: "pending_ok s" and t: "token_ok (cn_arb s)"
  shows "pending_ok s' \<and> token_ok (cn_arb s')"
  using assms(1)
proof cases
  case (grant_set t w req r a)
  from grant_set p have "req \<noteq> Some 0" by (auto simp: pending_ok_def)
  from grant_assign_token_ok [OF m this grant_set(3)] grant_set p show ?thesis
    by (auto simp: pending_ok_def unlock_at_def goto_def)
qed (use p t in \<open>auto simp: pending_ok_def token_ok_def goto_def lock_at_def unlock_at_def reject_def
      grant_drop_def revoke_drop_def estop_latch_def estop_disown_def estop_clear_def split: if_splits\<close>)

lemma token_reach:
  assumes "arb_reach rng k busy internal (conc_init mode d) s" and m: "mints_ok rng"
  shows "pending_ok s \<and> token_ok (cn_arb s)"
  using assms(1)
proof (induction rule: arb_reach.induct)
  case here
  show ?case by (simp add: pending_ok_def token_ok_def conc_init_def arbiter_init_def)
next
  case (more s s')
  then show ?case using token_step m by blast
qed

lemma mode_step: "arb_step rng k busy internal s s' \<Longrightarrow> ar_mode (cn_arb s') = ar_mode (cn_arb s)"
  by (induction rule: arb_step.induct)
    (auto simp: goto_def lock_at_def unlock_at_def reject_def grant_drop_def revoke_drop_def estop_latch_def
      estop_disown_def estop_clear_def grant_assign_def choose_token_def mint_def split: if_splits option.splits)

lemma mode_reach: "arb_reach rng k busy internal s0 s \<Longrightarrow> ar_mode (cn_arb s) = ar_mode (cn_arb s0)"
  by (induction rule: arb_reach.induct) (auto dest: mode_step)

text \<open>One grant alone, from an unowned arbiter, as the three steps of its thread.\<close>

lemma grant_set_steps:
  assumes "cn_pc s t = GrantRelock w (Some tok)" and "cn_lock s = None" and "\<not> ar_estopped (cn_arb s)"
  shows "arb_step rng k busy internal s (lock_at t (GrantChecked w (Some tok)) s)"
    and "arb_step rng k busy internal (lock_at t (GrantChecked w (Some tok)) s)
      (unlock_at t Idle (s\<lparr>cn_arb := (cn_arb s)\<lparr>ar_token := tok, ar_owned := True, ar_owner_id := w,
         ar_generation := ar_generation (cn_arb s) + 1\<rparr>\<rparr>))"
proof -
  show "arb_step rng k busy internal s (lock_at t (GrantChecked w (Some tok)) s)"
    using assms by (rule arb_step.grant_check)
  let ?s = "lock_at t (GrantChecked w (Some tok)) s"
  let ?a = "(cn_arb s)\<lparr>ar_token := tok, ar_owned := True, ar_owner_id := w, ar_generation := ar_generation (cn_arb s) + 1\<rparr>"
  have "cn_pc ?s t = GrantChecked w (Some tok)" by (simp add: lock_at_def goto_def)
  moreover obtain r where "grant_assign rng w (Some tok) (cn_arb ?s) = (r, ?a)"
    by (simp add: grant_assign_def choose_token_def lock_at_def goto_def)
  ultimately have "arb_step rng k busy internal ?s (unlock_at t Idle (?s\<lparr>cn_arb := ?a\<rparr>))" by (rule arb_step.grant_set)
  then show "arb_step rng k busy internal ?s (unlock_at t Idle (s\<lparr>cn_arb := ?a\<rparr>))"
    by (simp add: lock_at_def unlock_at_def goto_def)
qed

lemma grant_take_free:
  assumes "cn_pc s t = Idle" "cn_lock s = None" "req \<noteq> Some 0" "\<not> ar_estopped (cn_arb s)" "\<not> ar_owned (cn_arb s)"
  shows "arb_step rng k busy internal s (goto t (GrantRelock w req) s)"
  using arb_step.grant_take [of s t req False "cn_arb s" rng k busy internal w] assms
  by (simp add: grant_drop_def goto_def)

lemma reach_step2:
  "arb_reach rng k busy internal s0 s \<Longrightarrow> arb_step rng k busy internal s s' \<Longrightarrow> arb_step rng k busy internal s' s''
     \<Longrightarrow> arb_reach rng k busy internal s0 s''"
  by (blast intro: arb_reach.more)

text \<open>
  Claim C6. Who may command, under every interleaving of grants, revocations, emergency stops, clears
  and commands: with arbitration enforced, and as long as minting does not draw 128 zero bits, a command
  without a token (the all-zero one) is never admitted, nothing is admitted while e-stopped, and at
  every moment at most one token is.
\<close>

theorem one_live_token:
  assumes "arb_reach rng k busy internal (conc_init ArbEnforced d) s" and "mints_ok rng" and "admit t (cn_arb s)"
  shows "t \<noteq> 0 \<and> \<not> ar_estopped (cn_arb s) \<and> (\<forall>u. admit u (cn_arb s) \<longleftrightarrow> u = t)"
proof -
  have "ar_mode (cn_arb s) = ArbEnforced"
    using mode_reach [OF assms(1)] by (simp add: conc_init_def arbiter_init_def)
  moreover have "token_ok (cn_arb s)" using token_reach [OF assms(1,2)] ..
  ultimately show ?thesis using assms(3) by (auto simp: admit_def token_ok_def)
qed

lemma one_live_token_witness:
  "\<exists>s :: unit conc. admit 7 (cn_arb s) \<and> (\<forall>u. admit u (cn_arb s) \<longleftrightarrow> u = (7::token))"
proof -
  let ?k = "undefined :: unit driver_sinks" and ?rng = "\<lambda>_. 1 :: 64 word"
  let ?s0 = "conc_init ArbEnforced () :: unit conc"
  let ?s1 = "goto 0 (GrantRelock ''a'' (Some 7)) ?s0"
  let ?s2 = "unlock_at 0 Idle (?s1\<lparr>cn_arb := (cn_arb ?s1)\<lparr>ar_token := 7, ar_owned := True, ar_owner_id := ''a'',
    ar_generation := ar_generation (cn_arb ?s1) + 1\<rparr>\<rparr>)"
  have p: "cn_pc ?s1 0 = GrantRelock ''a'' (Some 7)" "cn_lock ?s1 = None" "\<not> ar_estopped (cn_arb ?s1)"
    by (simp_all add: goto_def conc_init_def arbiter_init_def)
  have "arb_step ?rng ?k (\<lambda>_. False) (\<lambda>_ _. False) ?s0 ?s1"
    by (rule grant_take_free) (simp_all add: conc_init_def arbiter_init_def)
  then have "arb_reach ?rng ?k (\<lambda>_. False) (\<lambda>_ _. False) ?s0 ?s1" by (blast intro: arb_reach.intros)
  then have r: "arb_reach ?rng ?k (\<lambda>_. False) (\<lambda>_ _. False) ?s0 ?s2"
    by (rule reach_step2 [OF _ grant_set_steps(1) [OF p] grant_set_steps(2) [OF p]])
  have "mints_ok ?rng" unfolding mints_ok_def by (simp add: word_cat_eq)
  moreover have "admit 7 (cn_arb ?s2)"
    by (simp add: admit_def unlock_at_def goto_def conc_init_def arbiter_init_def)
  ultimately show ?thesis using one_live_token [OF r] by blast
qed

subsection \<open>Two grants at once\<close>

text \<open>
  Claim C32. A re-grant is not always revoke-then-halt: \<open>grant\<close> does not look at the ownership again
  after it has released the mutex, so of two concurrent grants of a free arm the second to finish
  replaces the first owner's token -- whose command has already reached the driver -- without any halt
  having been delivered.
\<close>

theorem concurrent_grants_swap_silently:
  fixes k :: "'d driver_sinks"
  shows "\<exists>s. arb_reach rng k (\<lambda>_. False) internal (conc_init ArbEnforced d) s \<and> (\<forall>t. cn_pc s t = Idle) \<and>
     ar_owned (cn_arb s) \<and> ar_token (cn_arb s) = 1 \<and> ar_generation (cn_arb s) = 2 \<and>
     cn_down s = csk_trajectory_accepted (ds_command k) i (g\<lparr>tg_token := 2\<rparr>) d"
proof -
  let ?step = "arb_step rng k (\<lambda>_. False) internal" and ?reach = "arb_reach rng k (\<lambda>_. False) internal (conc_init ArbEnforced d)"
  let ?c = "CmdAccepted i (g\<lparr>tg_token := 2\<rparr>)"
  define s1 where "s1 = goto 0 (GrantRelock ''a'' (Some 1)) (conc_init ArbEnforced d)"
  define s2 where "s2 = goto 1 (GrantRelock ''b'' (Some 2)) s1"
  define a2 where "a2 = (arbiter_init ArbEnforced)\<lparr>ar_token := 2, ar_owned := True, ar_owner_id := ''b'', ar_generation := 1\<rparr>"
  define s3 where "s3 = unlock_at 1 Idle (s2\<lparr>cn_arb := a2\<rparr>)"
  define s4 where "s4 = lock_at 1 (Admitted ?c) s3"
  define s4' where "s4' = goto 1 Delegated (s4\<lparr>cn_down := deliver k ?c (cn_down s4)\<rparr>)"
  define s5 where "s5 = unlock_at 1 Idle s4'"
  define s6 where "s6 = unlock_at 0 Idle (s5\<lparr>cn_arb := a2\<lparr>ar_token := 1, ar_owned := True, ar_owner_id := ''a'', ar_generation := 2\<rparr>\<rparr>)"
  note st = s1_def s2_def a2_def s3_def s4_def s4'_def s5_def s6_def goto_def lock_at_def unlock_at_def conc_init_def arbiter_init_def
  have "?step (conc_init ArbEnforced d) s1" unfolding s1_def by (rule grant_take_free) (simp_all add: st)
  then have r1: "?reach s1" by (blast intro: arb_reach.intros)
  have "?step s1 s2" unfolding s2_def by (rule grant_take_free) (simp_all add: st)
  with r1 have r2: "?reach s2" by (rule arb_reach.more)
  have p: "cn_pc s2 1 = GrantRelock ''b'' (Some 2)" "cn_lock s2 = None" "\<not> ar_estopped (cn_arb s2)"
    by (simp_all add: st)
  have "?reach (unlock_at 1 Idle (s2\<lparr>cn_arb := (cn_arb s2)\<lparr>ar_token := 2, ar_owned := True, ar_owner_id := ''b'',
      ar_generation := ar_generation (cn_arb s2) + 1\<rparr>\<rparr>))"
    by (rule reach_step2 [OF r2 grant_set_steps(1) [OF p] grant_set_steps(2) [OF p]])
  then have r3: "?reach s3" by (simp add: st)
  have "?step s3 s4" unfolding s4_def by (rule arb_step.cmd_admit) (simp_all add: st admit_def)
  moreover have "?step s4 s4'" unfolding s4'_def by (rule arb_step.cmd_deliver) (simp add: st)
  ultimately have "?reach s4'" using r3 by (blast intro: reach_step2)
  moreover have "?step s4' s5" unfolding s5_def by (rule arb_step.cmd_return) (simp_all add: st)
  ultimately have r5: "?reach s5" by (rule arb_reach.more)
  have q: "cn_pc s5 0 = GrantRelock ''a'' (Some 1)" "cn_lock s5 = None" "\<not> ar_estopped (cn_arb s5)"
    by (simp_all add: st)
  have "?reach (unlock_at 0 Idle (s5\<lparr>cn_arb := (cn_arb s5)\<lparr>ar_token := 1, ar_owned := True, ar_owner_id := ''a'',
      ar_generation := ar_generation (cn_arb s5) + 1\<rparr>\<rparr>))"
    by (rule reach_step2 [OF r5 grant_set_steps(1) [OF q] grant_set_steps(2) [OF q]])
  then have "?reach s6" by (simp add: st)
  moreover have "\<forall>t. cn_pc s6 t = Idle" by (simp add: st)
  moreover have "ar_owned (cn_arb s6) \<and> ar_token (cn_arb s6) = 1 \<and> ar_generation (cn_arb s6) = 2"
    by (simp add: st)
  moreover have "cn_down s6 = csk_trajectory_accepted (ds_command k) i (g\<lparr>tg_token := 2\<rparr>) d"
    by (simp add: st)
  ultimately show ?thesis by blast
qed

end
