(* ===== verification/Supervisor_Threads.thy ===== *)
theory Supervisor_Threads
  imports Supervisor_Laws Arbiter_Concurrent
begin

section \<open>The Supervisor under concurrency\<close>

text \<open>
  The Supervisor as the object its callers share: its ports as a \<open>driver_sinks\<close>, the sampler and pump
  threads, calls that are past their first section (stream opens in their settle sleep, link drops
  between clearing \<open>ready_\<close> and the halt), and the real-time side, which may change the modes, take the
  pending request, step the contact monitor and write the snapshot at any moment. \<open>dv_accepted\<close> is a
  ghost list of the goals handed over, \<open>dv_crashed\<close> says that an exception left a handler or a thread.
\<close>

subsection \<open>State and ports\<close>

record driver =
  dv_sup :: supervisor
  dv_sampler :: sampler
  dv_pump :: pump
  dv_opens :: "stream_open_request list"
  dv_drops :: nat
  dv_accepted :: "goal_id list"
  dv_crashed :: bool

definition driver_init :: "supervisor \<Rightarrow> driver" where
  "driver_init s = \<lparr>dv_sup = sup_start s, dv_sampler = sampler_init (sup_start s), dv_pump = pump_init (sup_start s),
     dv_opens = [], dv_drops = 0, dv_accepted = [], dv_crashed = False\<rparr>"

definition on_sup :: "(supervisor \<Rightarrow> supervisor) \<Rightarrow> driver \<Rightarrow> driver" where
  "on_sup f d = d\<lparr>dv_sup := f (dv_sup d)\<rparr>"

definition with_sup :: "(supervisor \<Rightarrow> 'r \<times> supervisor) \<Rightarrow> driver \<Rightarrow> 'r \<times> driver" where
  "with_sup f d = (let (r, s) = f (dv_sup d) in (r, d\<lparr>dv_sup := s\<rparr>))"

definition crash :: "driver \<Rightarrow> driver" where
  "crash d = d\<lparr>dv_crashed := True\<rparr>"

definition port_trajectory_accepted :: "goal_id \<Rightarrow> trajectory_goal \<Rightarrow> driver \<Rightarrow> driver" where
  "port_trajectory_accepted i g d = (on_sup (on_trajectory_accepted i g) d)\<lparr>dv_accepted := dv_accepted d @ [i]\<rparr>"

definition port_set_gains :: "gains_request \<Rightarrow> driver \<Rightarrow> gains_result \<times> driver" where
  "port_set_gains r d = (case on_set_gains r (dv_sup d) of
       Inl e \<Rightarrow> (gains_refused [], crash d)
     | Inr (res, s) \<Rightarrow> (res, d\<lparr>dv_sup := s\<rparr>))"

text \<open>
  A call of \<open>on_stream_open\<close> that gets past its first section stays in \<open>dv_opens\<close> until its second one
  runs; the reply given here for it is a placeholder nobody reads.
\<close>

definition port_stream_open :: "stream_open_request \<Rightarrow> driver \<Rightarrow> stream_open_result \<times> driver" where
  "port_stream_open r d = (case open_begin r (dv_sup d) of
       (Some res, s) \<Rightarrow> (res, d\<lparr>dv_sup := s\<rparr>)
     | (None, s) \<Rightarrow> (stream_refused [], d\<lparr>dv_sup := s, dv_opens := r # dv_opens d\<rparr>))"

definition driver_ports :: "driver driver_sinks" where
  "driver_ports =
     \<lparr>ds_command = \<lparr>csk_trajectory_goal = (\<lambda>g d. (on_trajectory_goal g (dv_sup d), d)),
                    csk_trajectory_accepted = port_trajectory_accepted,
                    csk_trajectory_cancel = (\<lambda>c. with_sup (on_trajectory_cancel c)),
                    csk_set_gains = port_set_gains,
                    csk_set_speed_override = (\<lambda>r. with_sup (on_set_speed_override r)),
                    csk_query_state = (\<lambda>d. (on_query_state (dv_sup d), d)),
                    csk_set_contact_thresholds = (\<lambda>r. with_sup (on_set_contact_thresholds r)),
                    csk_query_contact = with_sup on_query_contact,
                    csk_halt = (\<lambda>r. on_sup (on_halt r))\<rparr>,
      ds_stream = \<lparr>ssk_stream_open = port_stream_open,
                   ssk_stream_close = (\<lambda>r. on_sup (on_stream_close r)),
                   ssk_joint_position = (\<lambda>c. on_sup (on_setpoint_joint_position c)),
                   ssk_joint_velocity = (\<lambda>c. on_sup (on_setpoint_joint_velocity c)),
                   ssk_joint_torque = (\<lambda>c. on_sup (on_setpoint_joint_torque c)),
                   ssk_pose = (\<lambda>c. on_sup (on_setpoint_pose c)),
                   ssk_twist = (\<lambda>c. on_sup (on_setpoint_twist c)),
                   ssk_query_stream = (\<lambda>d. (on_query_stream (dv_sup d), d))\<rparr>,
      ds_gripper = \<lparr>gsk_gripper_setpoint = (\<lambda>c. on_sup (on_gripper_setpoint c)),
                    gsk_query_gripper = (\<lambda>d. (on_query_gripper (dv_sup d), d))\<rparr>\<rparr>"

subsection \<open>Steps\<close>

text \<open>What the real-time side may do to the shared state.\<close>

definition rt_change :: "supervisor \<Rightarrow> supervisor \<Rightarrow> bool" where
  "rt_change s s' \<longleftrightarrow> (\<exists>modes req con now snap ver whole.
     s' = s\<lparr>sv_modes := modes, sv_requested := req, sv_contact := con, sv_now := now, sv_snap := snap,
            sv_snap_version := ver, sv_status_whole := whole\<rparr> \<and> (con = None \<longleftrightarrow> sv_contact s = None))"

inductive internal_step :: "eigen \<Rightarrow> driver \<Rightarrow> driver \<Rightarrow> bool" for L where
  sampler: "sampler_step L (dv_sampler d) (dv_sup d) = Some (Inr (m, s))
    \<Longrightarrow> internal_step L d (d\<lparr>dv_sampler := m, dv_sup := s\<rparr>)"
| sampler_throws: "sampler_step L (dv_sampler d) (dv_sup d) = Some (Inl e) \<Longrightarrow> internal_step L d (crash d)"
| pump: "pump_step L (dv_pump d) (dv_sup d) = (p, s) \<Longrightarrow> internal_step L d (d\<lparr>dv_pump := p, dv_sup := s\<rparr>)"
| open_finish: "\<lbrakk>r \<in> set (dv_opens d); open_finish r (dv_sup d) = Inr (res, s)\<rbrakk>
    \<Longrightarrow> internal_step L d (d\<lparr>dv_sup := s, dv_opens := remove1 r (dv_opens d)\<rparr>)"
| open_throws: "\<lbrakk>r \<in> set (dv_opens d); open_finish r (dv_sup d) = Inl e\<rbrakk>
    \<Longrightarrow> internal_step L d (crash (d\<lparr>dv_opens := remove1 r (dv_opens d)\<rparr>))"
| link_up: "internal_step L d (on_sup link_up d)"
| drop_begin: "drop_begin (dv_sup d) = (was, s)
    \<Longrightarrow> internal_step L d (d\<lparr>dv_sup := s, dv_drops := (if was then dv_drops d + 1 else dv_drops d)\<rparr>)"
| drop_finish: "dv_drops d = Suc n \<Longrightarrow> internal_step L d ((on_sup drop_finish d)\<lparr>dv_drops := n\<rparr>)"
| clear: "internal_step L d (on_sup (snd \<circ> clear_contact) d)"
| rt: "rt_change (dv_sup d) s \<Longrightarrow> internal_step L d (d\<lparr>dv_sup := s\<rparr>)"

inductive sup_step :: "eigen \<Rightarrow> driver \<Rightarrow> driver \<Rightarrow> bool" for L where
  command: "sup_step L d (deliver driver_ports c d)"
| speed: "sup_step L d (snd (csk_set_speed_override (ds_command driver_ports) q d))"
| query_contact: "sup_step L d (snd (csk_query_contact (ds_command driver_ports) d))"
| halt: "sup_step L d (csk_halt (ds_command driver_ports) h d)"
| internal: "internal_step L d d' \<Longrightarrow> sup_step L d d'"

inductive sup_reach :: "eigen \<Rightarrow> driver \<Rightarrow> driver \<Rightarrow> bool" for L d0 where
  start: "sup_reach L d0 d0"
| more: "sup_reach L d0 d \<Longrightarrow> sup_step L d d' \<Longrightarrow> sup_reach L d0 d'"

subsection \<open>What every call keeps\<close>

text \<open>Calls that hand over no goal leave the balance and the mirror of the session as they are.\<close>

definition steady :: "supervisor \<Rightarrow> supervisor \<Rightarrow> bool" where
  "steady s s' \<longleftrightarrow> (inbox_ok s \<longrightarrow> inbox_ok s') \<and> goals_of (sv_inbox s') = goals_of (sv_inbox s) \<and> settled s' = settled s \<and>
     sv_in_flight s' = sv_in_flight s \<and> (sv_stream_open s = st_open (sv_session s) \<longrightarrow> sv_stream_open s' = st_open (sv_session s'))"

lemma steady_inv: "steady s s' \<Longrightarrow> sampler_inv m s \<Longrightarrow> kept m s m s'"
  by (simp add: steady_def kept_def sampler_inv_def balance_def owed_def)

lemma steadyI:
  assumes "sv_inbox s' = sv_inbox s" "sv_settled s' = sv_settled s" "sv_in_flight s' = sv_in_flight s"
    "sv_stream_open s' = sv_stream_open s" "st_open (sv_session s') = st_open (sv_session s)"
  shows "steady s s'"
  using assms by (simp add: steady_def inbox_ok_def settled_def)

lemma steady_refl: "steady s s"
  by (simp add: steady_def)

lemma steady_close: "steady s (close_stream c s)"
  by (simp add: steady_def inbox_ok_def)

lemma steady_stream_close: "steady s (on_stream_close r s)"
  unfolding on_stream_close_def by (rule steady_close)

lemma steady_halt: "steady s (on_halt r s)"
  by (simp add: steady_def)

lemma steady_line_up: "steady s s' \<Longrightarrow> steady s (line_up_position s')"
  by (simp add: steady_def inbox_ok_def)

lemma steady_cancel: "steady s (snd (on_trajectory_cancel c s))"
  by (simp add: steady_def on_trajectory_cancel_def inbox_ok_def settled_def)

lemma admit_setpoint_frame:
  assumes "admit_setpoint k s = (ok, s')"
  shows "\<exists>t. s' = s\<lparr>sv_session := t\<rparr> \<and> st_open t = st_open (sv_session s) \<and> st_mode t = st_mode (sv_session s) \<and>
    ok = (st_open (sv_session s) \<and> st_kind (sv_session s) = k)"
  using assms by (auto simp: admit_setpoint_def session_admit_def split: if_splits)

lemma steady_setpoints:
  "steady s (on_setpoint_joint_position c s)" "steady s (on_setpoint_pose p s)" "steady s (on_setpoint_joint_torque c s)"
  "steady s (on_setpoint_joint_velocity c s)" "steady s (on_setpoint_twist v s)"
  by (auto intro!: steadyI simp: on_setpoint_joint_position_def on_setpoint_pose_def on_setpoint_joint_torque_def
      on_setpoint_joint_velocity_def on_setpoint_twist_def dest!: admit_setpoint_frame split: prod.split option.split)

lemma steady_small:
  "steady s (snd (on_set_speed_override q s))" "steady s (snd (on_set_contact_thresholds t s))"
  "steady s (snd (on_query_contact s))" "steady s (on_gripper_setpoint g s)" "steady s (link_up s)"
  "steady s (snd (drop_begin s))"
  by (auto intro!: steadyI simp: on_set_speed_override_def sup_set_speed_override_def on_set_contact_thresholds_def
      on_query_contact_def on_gripper_setpoint_def link_up_def drop_begin_def Let_def split: option.split sum.split)

lemma steady_drop: "steady s (drop_finish s)"
  unfolding drop_finish_def by (intro steady_line_up steady_halt)

lemma steady_trans: "steady s t \<Longrightarrow> steady t u \<Longrightarrow> steady s u"
  by (simp add: steady_def)

lemma steady_clear: "steady s (snd (clear_contact s))"
proof (cases "sv_contact s")
  case (Some m)
  let ?s1 = "line_up_position (on_halt HrContact s)"
  have "steady ?s1 (?s1\<lparr>sv_contact := c, sv_contact_cleared := b\<rparr>)" for c b by (rule steadyI) simp_all
  then have "steady s (?s1\<lparr>sv_contact := c, sv_contact_cleared := b\<rparr>)" for c b
    using steady_trans steady_line_up [OF steady_halt] by blast
  with Some show ?thesis by (simp add: clear_contact_def Let_def steady_refl)
qed (simp add: clear_contact_def steady_refl)

lemma steady_rt: "rt_change s s' \<Longrightarrow> steady s s'"
  by (auto simp: rt_change_def intro!: steadyI)

lemma steady_pump: "pump_step L p s = (p', s') \<Longrightarrow> steady s s'"
  by (auto simp: pump_step_def Let_def intro!: steadyI split: option.splits if_splits)

lemma steady_open_begin: "open_begin r s = (res, s') \<Longrightarrow> steady s s'"
  by (auto simp: open_begin_def request_mode_def Let_def intro!: steadyI split: option.splits if_splits)

lemma on_set_gains_returns: "\<exists>res p. on_set_gains r s = Inr (res, s\<lparr>sv_session_default := p\<rparr>)"
proof -
  have none: "\<exists>p. s = s\<lparr>sv_session_default := p\<rparr>" by (rule exI [of _ "sv_session_default s"]) simp
  have some: "\<exists>p'. s\<lparr>sv_session_default := p\<rparr> = s\<lparr>sv_session_default := p'\<rparr>" for p by blast
  show ?thesis
    by (cases "ig_profile (gq_spec r)"; cases "validate_custom (ig_custom (gq_spec r))")
      (simp_all add: on_set_gains_def known_profile_def Let_def set_session_default_def resolve_gains_def profile_params_def none some)
qed

text \<open>A request that got past the first section of an open resolves its gains in the second.\<close>

definition open_checked :: "stream_open_request \<Rightarrow> bool" where
  "open_checked r \<longleftrightarrow> pair_supported (so_kind r) (so_control_mode r) \<and> \<not> so_timeout_s r \<le> Fin 0 \<and>
     (so_control_mode r = KImpedance \<longrightarrow> spec_accepted (so_gains r))"

lemma open_begin_checked: "open_begin r s = (None, s') \<Longrightarrow> open_checked r"
  by (auto simp: open_begin_def open_refusal_def open_checked_def spec_accepted_def Let_def split: option.splits if_splits)

lemma seed_stream_frame [simp]:
  "sv_session (seed_stream r s) = sv_session s" "sv_inbox (seed_stream r s) = sv_inbox s" "sv_settled (seed_stream r s) = sv_settled s"
  "sv_in_flight (seed_stream r s) = sv_in_flight s" "sv_stream_open (seed_stream r s) = sv_stream_open s"
  "sv_ready (seed_stream r s) = sv_ready s" "sv_contact (seed_stream r s) = sv_contact s" "sv_now (seed_stream r s) = sv_now s"
  "sv_active_kind (seed_stream r s) = sv_active_kind s" "sv_halt_pending (seed_stream r s) = sv_halt_pending s"
  "sv_modes (seed_stream r s) = sv_modes s" "sv_requested (seed_stream r s) = sv_requested s"
  "sv_speed_override (seed_stream r s) = sv_speed_override s" "sv_speed_applied (seed_stream r s) = sv_speed_applied s"
  by (simp_all add: seed_stream_def split: prod.split)

lemma apply_gains_returns:
  "spec_accepted g \<Longrightarrow> \<exists>p. apply_impedance_gains g s = Inr (on_modes (\<lambda>m. m\<lparr>dm_impedance := im_set_gains (dm_impedance m) p\<rparr>) s)"
  using resolve_spec [of g "sv_session_default s"] by (auto simp: apply_impedance_gains_def)

lemma session_open_result:
  "session_open t r now = (res, t') \<Longrightarrow> (sr_accepted res \<longrightarrow> st_open t') \<and> (\<not> sr_accepted res \<longrightarrow> t' = t)"
  by (auto simp: session_open_def stream_refused_def split: if_splits)

lemma open_finish_returns:
  assumes "open_checked r"
  shows "\<exists>res s'. open_finish r s = Inr (res, s') \<and> steady s s' \<and> sr_accepted res = (sv_stream_open s' \<and> sr_accepted res) \<and>
    sv_halt_pending s' = sv_halt_pending s \<and> sv_inbox s' = sv_inbox s \<and> sv_speed_override s' = sv_speed_override s \<and>
    sv_speed_applied s' = sv_speed_applied s"
proof (cases "\<not> sv_ready s \<or> contact_latched s \<or> sv_active_kind s \<noteq> so_control_mode r")
  case True
  have "steady s (line_up_position s)" using steady_line_up [OF steady_refl] .
  then show ?thesis using True by (auto simp: open_finish_def Let_def stream_refused_def steady_refl line_up_position_def request_mode_def)
next
  case False
  let ?s1 = "seed_stream r (on_modes (set_command_timeout (so_control_mode r) (so_timeout_s r)) s)"
  obtain res t where so: "session_open (sv_session ?s1) r (sv_now ?s1) = (res, t)" by fastforce
  note sor = session_open_result [OF so]
  let ?s2 = "?s1\<lparr>sv_session := t\<rparr>"
  have opened: "steady s (on_modes f ?s2\<lparr>sv_stream_open := True\<rparr>)" if "sr_accepted res" for f
    using sor that by (simp add: steady_def inbox_ok_def settled_def)
  have refused: "steady s (on_modes f ?s2)" if "\<not> sr_accepted res" for f
    using sor that by (intro steadyI) simp_all
  have "\<exists>p. so_control_mode r = KImpedance \<longrightarrow> apply_impedance_gains (so_gains r) ?s2 =
      Inr (on_modes (\<lambda>m. m\<lparr>dm_impedance := im_set_gains (dm_impedance m) p\<rparr>) ?s2)"
    using apply_gains_returns [of "so_gains r" ?s2] assms unfolding open_checked_def by blast
  then obtain p where p: "so_control_mode r = KImpedance \<longrightarrow> apply_impedance_gains (so_gains r) ?s2 =
      Inr (on_modes (\<lambda>m. m\<lparr>dm_impedance := im_set_gains (dm_impedance m) p\<rparr>) ?s2)" by blast
  consider "\<not> sr_accepted res" | "sr_accepted res" "so_control_mode r = KImpedance" | "sr_accepted res" "so_control_mode r \<noteq> KImpedance"
    by blast
  then show ?thesis
  proof cases
    case 1
    then show ?thesis using False so refused by (simp add: open_finish_def Let_def)
  next
    case 2
    then show ?thesis using False so p opened by (simp add: open_finish_def Let_def)
  next
    case 3
    have "on_modes id ?s2 = ?s2" by (simp add: on_modes_def)
    with 3 show ?thesis using False so opened [of id] by (simp add: open_finish_def Let_def)
  qed
qed

subsection \<open>Every accepted goal is settled once\<close>

definition driver_inv :: "driver \<Rightarrow> bool" where
  "driver_inv d \<longleftrightarrow> \<not> dv_crashed d \<and> sampler_inv (dv_sampler d) (dv_sup d) \<and> (\<forall>r \<in> set (dv_opens d). open_checked r) \<and>
     mset (dv_accepted d) = balance (dv_sampler d) (dv_sup d)"

lemma driver_inv_sup:
  assumes "driver_inv d" and "steady (dv_sup d) s"
  shows "driver_inv (d\<lparr>dv_sup := s\<rparr>)" "driver_inv (d\<lparr>dv_sup := s, dv_drops := n\<rparr>)" "driver_inv (d\<lparr>dv_sup := s, dv_pump := p\<rparr>)"
  using steady_inv [OF assms(2)] assms(1) by (auto simp: driver_inv_def kept_def)

lemma driver_inv_on_sup: "driver_inv d \<Longrightarrow> steady (dv_sup d) (f (dv_sup d)) \<Longrightarrow> driver_inv (on_sup f d)"
  unfolding on_sup_def by (rule driver_inv_sup)

lemma driver_inv_with_sup: "driver_inv d \<Longrightarrow> steady (dv_sup d) (snd (f (dv_sup d))) \<Longrightarrow> driver_inv (snd (with_sup f d))"
  unfolding with_sup_def by (auto split: prod.split intro: driver_inv_sup)

lemma driver_inv_accepted: "driver_inv d \<Longrightarrow> driver_inv (port_trajectory_accepted i g d)"
  by (auto simp: driver_inv_def port_trajectory_accepted_def on_sup_def on_trajectory_accepted_def Let_def sampler_inv_def
      balance_def owed_def settled_def inbox_ok_def)

lemma driver_inv_gains: "driver_inv d \<Longrightarrow> driver_inv (snd (port_set_gains r d))"
  using on_set_gains_returns [of r "dv_sup d"]
  by (auto simp: port_set_gains_def intro!: driver_inv_sup steadyI)

lemma driver_inv_open: "driver_inv d \<Longrightarrow> driver_inv (snd (port_stream_open r d))"
proof -
  assume inv: "driver_inv d"
  obtain res s where o: "open_begin r (dv_sup d) = (res, s)" by fastforce
  have "driver_inv (d\<lparr>dv_sup := s\<rparr>)" using driver_inv_sup(1) [OF inv steady_open_begin [OF o]] .
  then show ?thesis using o open_begin_checked [of r "dv_sup d" s]
    by (cases res) (auto simp: port_stream_open_def driver_inv_def)
qed

lemma driver_inv_command: "driver_inv d \<Longrightarrow> driver_inv (deliver driver_ports c d)"
  by (cases c) (auto simp: driver_ports_def
      intro: steady_stream_close driver_inv_on_sup driver_inv_with_sup driver_inv_accepted driver_inv_gains driver_inv_open
        steady_cancel steady_setpoints steady_small steady_close)

lemma driver_inv_internal:
  assumes "internal_step L d d'" and inv: "driver_inv d"
  shows "driver_inv d'"
  using assms(1)
proof cases
  case (sampler m s)
  then show ?thesis using sampler_step_kept [of "dv_sampler d" "dv_sup d" L "Inr (m, s)"] inv
    by (auto simp: driver_inv_def kept_def)
next
  case (sampler_throws e)
  then show ?thesis using sampler_step_kept [of "dv_sampler d" "dv_sup d" L "Inl e"] inv by (auto simp: driver_inv_def)
next
  case (pump p s)
  then show ?thesis using driver_inv_sup(3) [OF inv steady_pump] by (auto simp: driver_inv_def)
next
  case (open_finish r res s)
  have "open_checked r" using open_finish(2) inv by (auto simp: driver_inv_def)
  with open_finish have "steady (dv_sup d) s" using open_finish_returns [of r "dv_sup d"] by auto
  then show ?thesis using driver_inv_sup(1) [OF inv] open_finish(1)
    by (auto simp: driver_inv_def dest: set_remove1_subset [THEN subsetD])
next
  case (open_throws r e)
  have "open_checked r" using open_throws(2) inv by (auto simp: driver_inv_def)
  with open_throws show ?thesis using open_finish_returns [of r "dv_sup d"] by auto
next
  case (drop_begin was s)
  then show ?thesis using driver_inv_sup(2) [OF inv] steady_small(6) [of "dv_sup d"] by auto
next
  case (drop_finish n)
  then show ?thesis using driver_inv_sup(2) [OF inv steady_drop] by (simp add: on_sup_def)
next
  case link_up
  then show ?thesis using driver_inv_on_sup [OF inv, of link_up] steady_small(5) by simp
next
  case clear
  then show ?thesis using driver_inv_on_sup [OF inv, of "snd \<circ> clear_contact"] steady_clear [of "dv_sup d"] by simp
next
  case (rt s)
  then show ?thesis using driver_inv_sup(1) [OF inv steady_rt] by simp
qed

lemma driver_inv_step: "sup_step L d d' \<Longrightarrow> driver_inv d \<Longrightarrow> driver_inv d'"
proof (induction rule: sup_step.induct)
  case (speed q d)
  then show ?case by (simp add: driver_ports_def driver_inv_with_sup steady_small)
next
  case (query_contact d)
  then show ?case by (simp add: driver_ports_def driver_inv_with_sup steady_small)
next
  case (halt h d)
  then show ?case by (simp add: driver_ports_def driver_inv_on_sup steady_halt)
qed (auto intro: driver_inv_command driver_inv_internal)

text \<open>A Supervisor that has just been built, and the states its callers and threads reach from it.\<close>

definition fresh :: "supervisor \<Rightarrow> bool" where
  "fresh s \<longleftrightarrow> sv_inbox s = [] \<and> sv_settled s = [] \<and> \<not> sv_in_flight s \<and> \<not> sv_stream_open s \<and> \<not> st_open (sv_session s) \<and>
     \<not> sv_halt_pending s \<and> sv_ready s \<and> sv_speed_override s = Fin 1 \<and> sv_speed_applied s = Fin 1 \<and> sv_active_kind s = KPosition"

lemma supervisor_init_fresh: "supervisor_init fm d = Inr s \<Longrightarrow> fresh s"
  by (auto simp: supervisor_init_def fresh_def streaming_session0_def Let_def split: option.splits sum.splits)

lemma driver_inv_init: "fresh s \<Longrightarrow> driver_inv (driver_init s)"
  by (simp add: driver_inv_def driver_init_def fresh_def sampler_inv_def sampler_ok_def sampler_init_def inbox_ok_def
      balance_def owed_def settled_def sup_start_def request_mode_def)

lemma driver_inv_reach: "sup_reach L (driver_init s) d \<Longrightarrow> fresh s \<Longrightarrow> driver_inv d"
  by (induction rule: sup_reach.induct) (auto intro: driver_inv_init driver_inv_step)

end
