(* ===== verification/Supervisor_Estop.thy ===== *)
theory Supervisor_Estop
  imports Supervisor_Threads
begin

section \<open>Emergency stop, end to end\<close>

text \<open>
  The Supervisor provides the contract the arbiter needs of its driver (\<open>halting_driver\<close>): so once an
  emergency stop has returned, the arm stays stopped under every interleaving of clients, link, sampler
  and real-time thread, until it is cleared.
\<close>

subsection \<open>A stopped driver\<close>

definition driver_busy :: "driver \<Rightarrow> bool" where
  "driver_busy d = (dv_opens d \<noteq> [])"

text \<open>The sampler has nothing to run: no active goal, an idle executor, no goal in its hands.\<close>

definition resting :: "sampler \<Rightarrow> bool" where
  "resting m = (\<not> sm_have_active m \<and> \<not> is_active (sm_traj m) \<and> popped m = None)"

definition all_halted :: "supervisor \<Rightarrow> bool" where
  "all_halted s = list_all in_halted (sv_inbox s)"

definition grip_released :: "supervisor \<Rightarrow> bool" where
  "grip_released s = (case sv_grip s of None \<Rightarrow> True | Some g \<Rightarrow> \<not> gr_stamping g)"

definition halted_sup :: "sampler \<Rightarrow> supervisor \<Rightarrow> bool" where
  "halted_sup m s = (\<not> sv_stream_open s \<and> all_halted s \<and> grip_released s \<and> (sv_halt_pending s \<or> resting m))"

definition driver_stopped :: "driver \<Rightarrow> bool" where
  "driver_stopped d = (\<not> driver_busy d \<and> halted_sup (dv_sampler d) (dv_sup d))"

lemma all_halted_halt [simp]: "all_halted (on_halt r s)"
  by (auto simp: all_halted_def grip_released_def gr_release_def list_all_iff dest: halt_inbox_halted split: option.splits)

lemma grip_released_halt [simp]: "grip_released (on_halt r s)"
  by (simp add: grip_released_def gr_release_def split: option.split)

lemma grip_released_line_up [simp]: "grip_released (line_up_position s) = grip_released s"
  by (simp add: grip_released_def)

lemma halted_on_halt: "halted_sup m (on_halt r s)"
  by (simp add: halted_sup_def)

lemma all_halted_line_up [simp]: "all_halted (line_up_position s) = all_halted s"
  by (simp add: all_halted_def grip_released_def)

lemma popped_pc: "sm_pc m' = pc \<Longrightarrow> (\<And>i. pc \<noteq> SmRecheck i \<and> pc \<noteq> SmSubmit i) \<Longrightarrow> popped m' = None"
  by (auto simp: popped_def split: sampler_pc.splits)

lemma halted_top:
  assumes "halted_sup m s" and "sm_pc m = SmTop"
  shows "halted_sup (fst (sampler_top m s)) (snd (sampler_top m s))"
  using assms by (auto simp: sampler_top_def Let_def halted_sup_def resting_def all_halted_def grip_released_def gr_release_def dest: halt_inbox_halted
      simp: list_all_iff split: option.splits)

lemma halted_halt:
  assumes "halted_sup m s" and "sm_pc m = SmHalt"
  shows "halted_sup (fst (sampler_halt m s)) (snd (sampler_halt m s))"
proof (cases "sv_halt_pending s")
  case True
  obtain m1 s1 where h: "take_halt m s = (m1, s1)" by fastforce
  with True assms show ?thesis using take_halt_frame [OF h]
    by (simp add: sampler_halt_def halted_sup_def resting_def all_halted_def grip_released_def)
qed (use assms in \<open>simp add: sampler_halt_def halted_sup_def resting_def\<close>)

lemma halted_deadline:
  assumes "halted_sup m s" and "sm_pc m = SmDeadline"
  shows "halted_sup (fst (sampler_deadline m s)) (snd (sampler_deadline m s))"
  using assms by (simp add: sampler_deadline_def Let_def halted_sup_def resting_def grip_released_def)

lemma halted_drain:
  assumes "halted_sup m s" and "sm_pc m = SmDrain"
  shows "halted_sup (fst (sampler_drain m s)) (snd (sampler_drain m s))"
proof (cases "sv_inbox s")
  case (Cons i q)
  with assms have "in_halted i" by (simp add: halted_sup_def all_halted_def grip_released_def)
  then have "drain_refusal m (s\<lparr>sv_inbox := q\<rparr>) i = Some (halt_result (in_why i))" by (simp add: drain_refusal_def Let_def)
  with Cons assms \<open>in_halted i\<close> show ?thesis
    by (simp add: sampler_drain_def Let_def halted_sup_def resting_def all_halted_def grip_released_def)
qed (use assms in \<open>simp add: sampler_drain_def halted_sup_def resting_def\<close>)

lemma halted_submit:
  assumes "sv_halt_pending s" and "halted_sup m s" and "sampler_submit i m s = Inr (m', s')"
  shows "halted_sup m' s'"
  using assms by (auto simp: sampler_submit_def Let_def gains_for_def apply_impedance_gains_def halted_sup_def all_halted_def grip_released_def
      split: prod.splits if_splits sum.splits)

lemma halted_tick:
  assumes "halted_sup m s" and "sm_pc m = SmTick" and "sampler_tick m s = Some (m', s')"
  shows "halted_sup m' s'"
proof (cases "is_active (sm_traj m)")
  case False
  with assms show ?thesis by (auto simp: sampler_tick_def halted_sup_def resting_def grip_released_def)
next
  case True
  then have "sv_halt_pending s" using assms(1) by (simp add: halted_sup_def resting_def grip_released_def)
  with True assms show ?thesis
    by (auto simp: sampler_tick_def Let_def halted_sup_def all_halted_def grip_released_def split: bind_splits if_splits option.splits)
qed

lemma halted_sampler:
  assumes h: "halted_sup m s" and st: "sampler_step L m s = Some (Inr (m', s'))"
  shows "halted_sup m' s'"
proof (cases "sm_pc m")
  case SmTop with st halted_top [OF h] show ?thesis by (simp add: sampler_step_def)
next
  case SmHalt with st halted_halt [OF h] show ?thesis by (simp add: sampler_step_def)
next
  case SmDeadline with st halted_deadline [OF h] show ?thesis by (simp add: sampler_step_def)
next
  case SmCompliant
  with st h show ?thesis by (auto simp: sampler_step_def sampler_compliant_def compliant_session_def halted_sup_def resting_def grip_released_def)
next
  case SmDrain with st halted_drain [OF h] show ?thesis by (simp add: sampler_step_def)
next
  case (SmRecheck i)
  with st h show ?thesis
    by (auto simp: sampler_step_def sampler_recheck_def halted_sup_def resting_def all_halted_def grip_released_def split: if_splits)
next
  case (SmSubmit i)
  with h have "sv_halt_pending s" by (simp add: halted_sup_def resting_def grip_released_def)
  with SmSubmit st h show ?thesis by (auto simp: sampler_step_def intro: halted_submit)
next
  case SmTick with st halted_tick [OF h] show ?thesis by (auto simp: sampler_step_def)
qed

lemma stopped_sup:
  assumes "driver_stopped d" and "\<not> sv_stream_open s" and "all_halted s" and "grip_released s" and "sv_halt_pending (dv_sup d) \<longrightarrow> sv_halt_pending s"
  shows "driver_stopped (d\<lparr>dv_sup := s\<rparr>)"
  using assms by (auto simp: driver_stopped_def driver_busy_def halted_sup_def)

lemma stopped_parts: "driver_stopped d \<Longrightarrow> dv_opens d = [] \<and> \<not> sv_stream_open (dv_sup d) \<and> all_halted (dv_sup d) \<and> grip_released (dv_sup d)"
  by (simp add: driver_stopped_def driver_busy_def halted_sup_def)

lemma stopped_drops [simp]: "driver_stopped (d\<lparr>dv_drops := n\<rparr>) = driver_stopped d" "driver_stopped (d\<lparr>dv_pump := p\<rparr>) = driver_stopped d"
  "driver_stopped (crash d) = driver_stopped d"
  by (simp_all add: driver_stopped_def driver_busy_def crash_def)

lemma clear_contact_cases:
  "snd (clear_contact s) = s \<or> (\<exists>c b. snd (clear_contact s) = (line_up_position (on_halt HrContact s))\<lparr>sv_contact := c, sv_contact_cleared := b\<rparr>)"
  by (auto simp: clear_contact_def Let_def split: option.splits)

lemma pump_step_cases:
  "pump_step L p s = (p', s') \<Longrightarrow> s' = s \<or> (\<exists>a. s' = s\<lparr>sv_state := a, sv_states := sv_states s @ [a]\<rparr>)"
  by (auto simp: pump_step_def Let_def split: option.splits if_splits)

lemma stopped_internal:
  assumes st: "driver_stopped d" and "internal_step L d d'"
  shows "driver_stopped d'"
  using assms(2)
proof cases
  case (sampler m s)
  then show ?thesis using st halted_sampler by (auto simp: driver_stopped_def driver_busy_def)
next
  case (pump p s)
  then have "driver_stopped (d\<lparr>dv_sup := s\<rparr>)"
    using pump_step_cases [OF pump(2)] stopped_parts [OF st] by (intro stopped_sup [OF st]) (auto simp: all_halted_def grip_released_def)
  with pump show ?thesis by (simp add: driver_stopped_def driver_busy_def)
next
  case (drop_begin was s)
  then have "driver_stopped (d\<lparr>dv_sup := s\<rparr>)"
    using stopped_parts [OF st] by (intro stopped_sup [OF st]) (auto simp: drop_begin_def all_halted_def grip_released_def)
  with drop_begin show ?thesis by (simp add: driver_stopped_def driver_busy_def)
next
  case (drop_finish n)
  have "driver_stopped (on_sup Supervisor.drop_finish d)" unfolding on_sup_def
    using stopped_parts [OF st] by (intro stopped_sup [OF st]) (auto simp: drop_finish_def)
  with drop_finish show ?thesis by simp
next
  case link_up
  then show ?thesis unfolding on_sup_def
    using stopped_parts [OF st] by (auto intro!: stopped_sup [OF st] simp: link_up_def all_halted_def grip_released_def)
next
  case clear
  then show ?thesis unfolding on_sup_def
    using stopped_parts [OF st] clear_contact_cases [of "dv_sup d"]
    by (auto intro!: stopped_sup [OF st] simp: all_halted_def grip_released_def gr_release_def list_all_iff dest: halt_inbox_halted split: option.splits)
next
  case (rt s)
  then show ?thesis using stopped_parts [OF st] by (auto intro!: stopped_sup [OF st] simp: rt_change_def all_halted_def grip_released_def)
qed (use st stopped_parts [OF st] in auto)

lemma opens_mono: "internal_step L d d' \<Longrightarrow> dv_opens d = [] \<Longrightarrow> dv_opens d' = []"
  by (induction rule: internal_step.induct) (auto simp: on_sup_def crash_def)

lemma speed_frame:
  "dv_opens (snd (with_sup (on_set_speed_override q) d)) = dv_opens d"
  "driver_stopped d \<Longrightarrow> driver_stopped (snd (with_sup (on_set_speed_override q) d))"
  using stopped_parts [of d]
  by (auto simp: with_sup_def on_set_speed_override_def sup_set_speed_override_def all_halted_def grip_released_def split: prod.split intro!: stopped_sup)

lemma query_frame:
  "dv_opens (snd (with_sup on_query_contact d)) = dv_opens d"
  "driver_stopped d \<Longrightarrow> driver_stopped (snd (with_sup on_query_contact d))"
  using stopped_parts [of d]
  by (auto simp: with_sup_def on_query_contact_def all_halted_def grip_released_def Let_def split: prod.split option.split intro!: stopped_sup)

interpretation estop: halting_driver driver_ports driver_busy "internal_step L" driver_stopped for L
proof unfold_locales
  show "driver_stopped d \<Longrightarrow> \<not> driver_busy d" for d by (simp add: driver_stopped_def)
  show "\<not> driver_busy d \<Longrightarrow> driver_stopped (csk_halt (ds_command driver_ports) h d)" for d h
    by (simp add: driver_ports_def on_sup_def driver_stopped_def driver_busy_def halted_on_halt)
  show "driver_stopped d \<Longrightarrow> internal_step L d d' \<Longrightarrow> driver_stopped d'" for d d' by (rule stopped_internal)
  show "driver_stopped d \<Longrightarrow> driver_stopped (snd (csk_set_speed_override (ds_command driver_ports) q d))" for d q
    by (simp add: driver_ports_def speed_frame)
  show "driver_stopped d \<Longrightarrow> driver_stopped (snd (csk_query_contact (ds_command driver_ports) d))" for d
    by (simp add: driver_ports_def query_frame)
  show "driver_busy (csk_halt (ds_command driver_ports) h d) \<Longrightarrow> driver_busy d" for d h
    by (simp add: driver_ports_def on_sup_def driver_busy_def)
  show "internal_step L d d' \<Longrightarrow> driver_busy d' \<Longrightarrow> driver_busy d" for d d'
    using opens_mono by (auto simp: driver_busy_def)
  show "driver_busy (snd (csk_set_speed_override (ds_command driver_ports) q d)) \<Longrightarrow> driver_busy d" for d q
    by (simp add: driver_ports_def speed_frame driver_busy_def)
  show "driver_busy (snd (csk_query_contact (ds_command driver_ports) d)) \<Longrightarrow> driver_busy d" for d
    by (simp add: driver_ports_def query_frame driver_busy_def)
qed

end
