(* ===== verification/Supervisor_Safety.thy ===== *)
theory Supervisor_Safety
  imports Supervisor_Estop
begin

section \<open>What the Supervisor guarantees, and where it does not\<close>

subsection \<open>A small driver to apply the theorems to\<close>

definition demo_deps :: supervisor_deps where
  "demo_deps = \<lparr>sd_pos = Some (pm_init zero_dynamics position_params0), sd_imp = Some (im_init zero_dynamics impedance_params0),
     sd_tau = Some (tm_init zero_dynamics torque_params0), sd_vel = Some (vm_init zero_dynamics velocity_params0),
     sd_exec = True, sd_snap = True, sd_pump_dyn = Some zero_dynamics, sd_stream = True, sd_action = True,
     sd_grip = Some gr_init, sd_contact = None,
     sd_contact_profiles = \<lparr>cps_sensitive = vzero, cps_normal = vzero, cps_loose = vzero, cps_ceiling = vzero\<rparr>\<rparr>"

definition demo_float :: float_mode where
  "demo_float = projr (fm_init zero_dynamics float_params0)"

lemma supervisor_init_const: "supervisor_init fm d = Inr s \<Longrightarrow> sv_const s = sup_const_of d"
  by (auto simp: supervisor_init_def Let_def split: option.splits sum.splits)

lemma demo_init: "\<exists>s. supervisor_init demo_float demo_deps = Inr s"
  by (simp add: supervisor_init_def first_null_def contact_deps_error_def demo_deps_def profile_params_def Let_def)

definition demo_supervisor :: supervisor where
  "demo_supervisor = projr (supervisor_init demo_float demo_deps)"

lemma demo_supervisor: "supervisor_init demo_float demo_deps = Inr demo_supervisor"
  using demo_init by (auto simp: demo_supervisor_def)

subsection \<open>Settled exactly once\<close>

text \<open>
  Claim C1. Every goal handed to \<open>on_trajectory_accepted\<close> is answered exactly once: in every reachable
  state, whatever halts, cancels, preemptions, link drops, contact stops and stream opens came between,
  the accepted goals are the settled ones and those the Supervisor still owes (queued, in the sampler's
  hands, or running), each counted once.
\<close>

theorem goals_settled_once:
  assumes "supervisor_init fm deps = Inr s0" and "sup_reach L (driver_init s0) d"
  shows "mset (dv_accepted d) = settled (dv_sup d) + owed (dv_sampler d) (dv_sup d)"
  using driver_inv_reach [OF assms(2) supervisor_init_fresh [OF assms(1)]]
  by (simp add: driver_inv_def balance_def union_commute)

text \<open>
  Claim C11. No exception leaves a handler or the sampler thread: gains that do not resolve are refused
  before they get to \<open>resolve_gains\<close>, at both layers.
\<close>

theorem supervisor_never_throws:
  assumes "supervisor_init fm deps = Inr s0" and "sup_reach L (driver_init s0) d"
  shows "\<not> dv_crashed d \<and> sampler_step L (dv_sampler d) (dv_sup d) \<noteq> Some (Inl e) \<and>
    (\<exists>x. on_set_gains r (dv_sup d) = Inr x) \<and> (q \<in> set (dv_opens d) \<longrightarrow> (\<exists>x. open_finish q (dv_sup d) = Inr x))"
proof -
  have inv: "driver_inv d" by (rule driver_inv_reach [OF assms(2) supervisor_init_fresh [OF assms(1)]])
  then have "sampler_step L (dv_sampler d) (dv_sup d) \<noteq> Some (Inl e)"
    using sampler_step_kept [of "dv_sampler d" "dv_sup d" L "Inl e"] by (auto simp: driver_inv_def)
  moreover have "\<exists>x. on_set_gains r (dv_sup d) = Inr x" using on_set_gains_returns [of r "dv_sup d"] by blast
  moreover have "q \<in> set (dv_opens d) \<longrightarrow> (\<exists>x. open_finish q (dv_sup d) = Inr x)"
    using inv open_finish_returns [of q "dv_sup d"] by (auto simp: driver_inv_def)
  ultimately show ?thesis using inv by (simp add: driver_inv_def)
qed

subsection \<open>Emergency stop\<close>

text \<open>What a sampler step may write into the modes of a stopped driver once it has taken the halt.\<close>

lemma resting_writes:
  assumes "halted_sup m s" and "\<not> sv_halt_pending s" and "sampler_step L m s = Some (Inr (m', s'))"
  shows "\<exists>x. sv_modes s' = sv_modes s \<or> sv_modes s' = set_speed_scale x (sv_modes s)"
proof -
  have rest: "resting m" and closed: "\<not> sv_stream_open s" using assms(1,2) by (simp_all add: halted_sup_def)
  have close: "sv_modes (on_halt r t) = sv_modes t" if "\<not> sv_stream_open t" for r t
    using that by (simp add: on_halt_def Let_def close_stream_def)
  show ?thesis
  proof (cases "sm_pc m")
    case SmTop
    with assms(3) closed show ?thesis
      by (intro exI [of _ "slew_scale (sm_speed m) (sv_speed_override s) (sv_now s - sm_last_tick m)"])
        (auto simp: sampler_step_def sampler_top_def Let_def close)
  next
    case SmDrain
    have "in_halted (hd (sv_inbox s))" if "sv_inbox s \<noteq> []"
      using assms(1) that by (cases "sv_inbox s") (simp_all add: halted_sup_def all_halted_def)
    with SmDrain assms(3) show ?thesis
      by (auto simp: sampler_step_def sampler_drain_def Let_def drain_refusal_def split: list.splits)
  qed (use assms rest closed in \<open>auto simp: sampler_step_def sampler_halt_def sampler_deadline_def sampler_compliant_def
      compliant_session_def sampler_tick_def resting_def split: if_splits\<close>)
qed

text \<open>
  Claim C2. An emergency stop holds. After \<open>Arbiter::estop\<close> has returned, and until \<open>estop_clear\<close>,
  under every interleaving of any number of clients, the link, the operator's halts, the sampler and the
  real-time thread: nothing is admitted or half delegated, no stream is open or being opened, the gripper
  is not commanded, every queued goal is marked to be settled as halted, and the sampler either has
  the halt still to take or runs nothing; from then on its steps write no target into any mode.
\<close>

theorem estop_keeps_stopped:
  assumes "arb_reach rng driver_ports driver_busy (internal_step L) (conc_init mode (driver_init s0)) c" and "cn_sealed c"
  shows "ar_estopped (cn_arb c) \<and> \<not> ar_owned (cn_arb c) \<and> (\<forall>t x. cn_pc c t \<noteq> Admitted x \<and> cn_pc c t \<noteq> Delegated) \<and>
    (let d = cn_down c; s = dv_sup d; m = dv_sampler d in
       \<not> sv_stream_open s \<and> dv_opens d = [] \<and> grip_released s \<and> list_all in_halted (sv_inbox s) \<and>
       (sv_halt_pending s \<or> \<not> sm_have_active m \<and> \<not> is_active (sm_traj m)) \<and>
       (\<forall>m' s'. \<not> sv_halt_pending s \<longrightarrow> sampler_step L m s = Some (Inr (m', s')) \<longrightarrow>
          (\<exists>x. sv_modes s' = sv_modes s \<or> sv_modes s' = set_speed_scale x (sv_modes s))))"
proof -
  have "\<not> driver_busy (driver_init s0)" by (simp add: driver_busy_def driver_init_def)
  from estop.estop_seals [OF assms(1) this assms(2)] show ?thesis
    using resting_writes [of "dv_sampler (cn_down c)" "dv_sup (cn_down c)" L]
    by (auto simp: Let_def driver_stopped_def driver_busy_def halted_sup_def resting_def all_halted_def)
qed

text \<open>One emergency stop by thread 0, alone.\<close>

lemma estop_alone:
  fixes d :: 'd and k :: "'d driver_sinks"
  defines "h \<equiv> csk_halt (ds_command k) HrEmergencyStop"
  shows "\<exists>c. arb_reach rng k busy internal (conc_init mode d) c \<and> cn_sealed c \<and> cn_down c = h (h d)"
proof -
  let ?step = "arb_step rng k busy internal" and ?reach = "arb_reach rng k busy internal (conc_init mode d)"
  define c1 where "c1 = goto 0 EstopHalting ((conc_init mode d)\<lparr>cn_arb := estop_latch (arbiter_init mode)\<rparr>)"
  define c2 where "c2 = goto 0 EstopWaiting (c1\<lparr>cn_down := h d\<rparr>)"
  define c3 where "c3 = lock_at 0 EstopFinal (c2\<lparr>cn_arb := estop_disown (cn_arb c2)\<rparr>)"
  define c4 where "c4 = unlock_at 0 Idle (c3\<lparr>cn_down := h (h d), cn_sealed := True\<rparr>)"
  note st = c1_def c2_def c3_def c4_def goto_def lock_at_def unlock_at_def conc_init_def
  have 1: "?step (conc_init mode d) c1"
    using arb_step.estop_latch [of "conc_init mode d" 0 rng k busy internal] by (simp add: st)
  have 2: "?step c1 c2"
    using arb_step.estop_halt [of c1 0 rng k busy internal] by (simp add: st h_def)
  have 3: "?step c2 c3"
    using arb_step.estop_lock [of c2 0 rng k busy internal] by (simp add: st)
  have 4: "?step c3 c4"
    using arb_step.estop_return [of c3 0 rng k busy internal] by (simp add: st h_def)
  have "?reach c4"
    by (rule arb_reach.more [OF arb_reach.more [OF arb_reach.more [OF arb_reach.more [OF arb_reach.here 1] 2] 3] 4])
  moreover have "cn_sealed c4" "cn_down c4 = h (h d)" by (simp_all add: c4_def unlock_at_def goto_def)
  ultimately show ?thesis by blast
qed


lemma goals_settled_once_witness:
  "\<exists>d :: driver. dv_accepted d = [1] \<and> mset (dv_accepted d) = settled (dv_sup d) + owed (dv_sampler d) (dv_sup d)"
proof -
  let ?d0 = "driver_init demo_supervisor" and ?c = "CmdAccepted 1 trajectory_goal0"
  have r: "sup_reach undefined ?d0 (deliver driver_ports ?c ?d0)" by (blast intro: sup_reach.intros sup_step.command)
  have "dv_accepted (deliver driver_ports ?c ?d0) = [1]"
    by (simp add: driver_ports_def port_trajectory_accepted_def driver_init_def)
  then show ?thesis using goals_settled_once [OF demo_supervisor r] by blast
qed

lemma supervisor_never_throws_witness:
  "\<not> dv_crashed (driver_init demo_supervisor) \<and> sampler_step undefined (dv_sampler (driver_init demo_supervisor)) (dv_sup (driver_init demo_supervisor)) \<noteq> Some (Inl NotANamedProfile)"
  using supervisor_never_throws [OF demo_supervisor sup_reach.start, of undefined NotANamedProfile undefined undefined] by blast

lemma estop_keeps_stopped_witness:
  "\<exists>c :: driver conc. cn_sealed c \<and> ar_estopped (cn_arb c) \<and> \<not> sv_stream_open (dv_sup (cn_down c))"
proof -
  obtain c where c: "arb_reach (\<lambda>_. 1) driver_ports driver_busy (internal_step undefined) (conc_init ArbEnforced (driver_init demo_supervisor)) c"
    "cn_sealed c"
    using estop_alone [where rng = "\<lambda>_. 1" and k = driver_ports and busy = driver_busy and internal = "internal_step undefined"
        and mode = ArbEnforced and d = "driver_init demo_supervisor"] by blast
  then show ?thesis using estop_keeps_stopped [OF c] by (auto simp: Let_def)
qed

subsection \<open>A goal and a stream at once\<close>

text \<open>The sampler alone, step by step.\<close>

lemma sampler_reach:
  assumes "sup_reach L d0 d" and "sampler_step L (dv_sampler d) (dv_sup d) = Some (Inr (m, s))"
  shows "sup_reach L d0 (d\<lparr>dv_sampler := m, dv_sup := s\<rparr>)"
  using assms by (blast intro: sup_reach.more sup_step.internal internal_step.sampler)

text \<open>Where nothing is pending, the sampler gets from the top of its loop to its inbox and changes no goal, mode kind or stream.\<close>

definition calm :: "supervisor \<Rightarrow> bool" where
  "calm s \<longleftrightarrow> \<not> sv_stream_open s \<and> \<not> sv_halt_pending s \<and> sv_contact s = None \<and> sv_ready s"

definition same_goals :: "supervisor \<Rightarrow> supervisor \<Rightarrow> bool" where
  "same_goals s s' \<longleftrightarrow> sv_inbox s' = sv_inbox s \<and> sv_active_kind s' = sv_active_kind s \<and> sv_in_flight s' = sv_in_flight s \<and>
     sv_session s' = sv_session s \<and> sv_settled s' = sv_settled s \<and> sv_const s' = sv_const s \<and> sv_snap s' = sv_snap s"

lemma calm_to_drain:
  assumes r: "sup_reach L d0 d" and pc: "sm_pc (dv_sampler d) = SmTop" and calm: "calm (dv_sup d)"
  shows "\<exists>m s. sup_reach L d0 (d\<lparr>dv_sampler := m, dv_sup := s\<rparr>) \<and> sm_pc m = SmDrain \<and> calm s \<and> same_goals (dv_sup d) s \<and>
    sm_traj m = sm_traj (dv_sampler d) \<and> sm_bound_kind m = sm_bound_kind (dv_sampler d) \<and> sm_sink m = sm_sink (dv_sampler d) \<and>
    sm_have_active m = sm_have_active (dv_sampler d)"
proof -
  let ?m = "dv_sampler d" and ?s = "dv_sup d"
  obtain m1 s1 where top: "sampler_top ?m ?s = (m1, s1)" by fastforce
  then have 1: "sm_pc m1 = SmHalt" "calm s1" "same_goals ?s s1" "sm_traj m1 = sm_traj ?m" "sm_bound_kind m1 = sm_bound_kind ?m"
    "sm_sink m1 = sm_sink ?m" "sm_have_active m1 = sm_have_active ?m"
    using calm by (auto simp: sampler_top_def Let_def calm_def same_goals_def contact_latched_def)
  let ?m2 = "m1\<lparr>sm_pc := SmDeadline\<rparr>" and ?m3 = "m1\<lparr>sm_pc := SmCompliant\<rparr>" and ?m4 = "m1\<lparr>sm_pc := SmDrain\<rparr>"
  have "sup_reach L d0 (d\<lparr>dv_sampler := m1, dv_sup := s1\<rparr>)"
    using sampler_reach [OF r] top pc by (simp add: sampler_step_def)
  from sampler_reach [OF this] have "sup_reach L d0 (d\<lparr>dv_sampler := ?m2, dv_sup := s1\<rparr>)"
    using 1(1,2) by (simp add: sampler_step_def sampler_halt_def calm_def)
  from sampler_reach [OF this] have "sup_reach L d0 (d\<lparr>dv_sampler := ?m3, dv_sup := s1\<rparr>)"
    using 1(2) by (simp add: sampler_step_def sampler_deadline_def calm_def)
  from sampler_reach [OF this] have "sup_reach L d0 (d\<lparr>dv_sampler := ?m4, dv_sup := s1\<rparr>)"
    using 1(2) by (simp add: sampler_step_def sampler_compliant_def compliant_session_def calm_def)
  then show ?thesis using 1 by (intro exI [of _ ?m4] exI [of _ s1]) simp
qed

definition opened_session :: "stream_open_request \<Rightarrow> supervisor \<Rightarrow> streaming_session" where
  "opened_session r s = (sv_session s)\<lparr>st_kind := so_kind r, st_mode := so_control_mode r, st_timeout_s := so_timeout_s r,
     st_last_s := sv_now s, st_open := True\<rparr>"

lemma open_finish_accepts:
  assumes r: "open_checked r" and s: "sv_ready s" "\<not> contact_latched s" "sv_active_kind s = so_control_mode r" "\<not> st_open (sv_session s)"
  shows "\<exists>s'. open_finish r s = Inr (\<lparr>sr_accepted = True, sr_error_code = 0, sr_message = []\<rparr>, s') \<and> sv_stream_open s' \<and>
    sv_session s' = opened_session r s \<and> sv_active_kind s' = sv_active_kind s \<and> sv_inbox s' = sv_inbox s \<and>
    sv_halt_pending s' = sv_halt_pending s \<and> sv_in_flight s' = sv_in_flight s \<and> sv_requested s' = sv_requested s"
proof -
  let ?s1 = "seed_stream r (on_modes (set_command_timeout (so_control_mode r) (so_timeout_s r)) s)"
  let ?s2 = "?s1\<lparr>sv_session := opened_session r s\<rparr>"
  have so: "session_open (sv_session ?s1) r (sv_now ?s1) = (\<lparr>sr_accepted = True, sr_error_code = 0, sr_message = []\<rparr>, opened_session r s)"
    using r s(4) by (simp add: session_open_def opened_session_def open_checked_def)
  show ?thesis
  proof (cases "so_control_mode r = KImpedance")
    case True
    obtain p where "apply_impedance_gains (so_gains r) ?s2 = Inr (on_modes (\<lambda>m. m\<lparr>dm_impedance := im_set_gains (dm_impedance m) p\<rparr>) ?s2)"
      using apply_gains_returns [of "so_gains r" ?s2] r True unfolding open_checked_def by blast
    with True s so show ?thesis by (simp add: open_finish_def Let_def)
  next
    case False
    with s so show ?thesis by (simp add: open_finish_def Let_def)
  qed
qed

definition race_goal :: trajectory_goal where
  "race_goal = trajectory_goal0\<lparr>tg_trajectory := demo_traj, tg_control_mode := KImpedance\<rparr>"

definition race_open :: stream_open_request where
  "race_open = \<lparr>so_kind = SkJointPosition, so_control_mode = KImpedance, so_timeout_s = Fin (1/10),
     so_gains = impedance_gains0, so_token = 0\<rparr>"

lemma race_checked: "open_checked race_open" "spec_accepted impedance_gains0" "known_profile GpSessionDefault"
  by (simp_all add: open_checked_def race_open_def pair_supported_def spec_accepted_def impedance_gains0_def known_profile_def)

definition race_entry :: inbound where
  "race_entry = \<lparr>in_id = 1, in_goal = race_goal, in_cancel = False, in_halted = False, in_why = HrOwnershipRevoked\<rparr>"

text \<open>A Supervisor without a monitor, just started.\<close>

lemma started:
  assumes "supervisor_init fm deps = Inr s0" and "sd_contact deps = None"
  shows "calm (dv_sup (driver_init s0))" "sv_inbox (dv_sup (driver_init s0)) = []" "\<not> sv_in_flight (dv_sup (driver_init s0))"
    "sv_active_kind (dv_sup (driver_init s0)) = KPosition" "\<not> st_open (sv_session (dv_sup (driver_init s0)))"
    "sm_pc (dv_sampler (driver_init s0)) = SmTop" "\<not> sm_have_active (dv_sampler (driver_init s0))"
    "sm_bound_kind (dv_sampler (driver_init s0)) = KPosition" "dv_opens (driver_init s0) = []"
proof -
  have "sv_contact s0 = None" using assms by (auto simp: supervisor_init_def Let_def split: option.splits sum.splits)
  with supervisor_init_fresh [OF assms(1)] show "calm (dv_sup (driver_init s0))" "sv_inbox (dv_sup (driver_init s0)) = []"
    "\<not> sv_in_flight (dv_sup (driver_init s0))" "sv_active_kind (dv_sup (driver_init s0)) = KPosition"
    "\<not> st_open (sv_session (dv_sup (driver_init s0)))" "sm_pc (dv_sampler (driver_init s0)) = SmTop"
    "\<not> sm_have_active (dv_sampler (driver_init s0))" "sm_bound_kind (dv_sampler (driver_init s0)) = KPosition" "dv_opens (driver_init s0) = []"
    by (simp_all add: driver_init_def fresh_def calm_def sup_start_def request_mode_def sampler_init_def)
qed

text \<open>A goal queued on it reaches the drain loop with everything else as it was.\<close>

lemma queued_to_drain:
  assumes init: "supervisor_init fm deps = Inr s0" and con: "sd_contact deps = None"
  shows "\<exists>d. sup_reach L (driver_init s0) d \<and> dv_opens d = [] \<and> sm_pc (dv_sampler d) = SmDrain \<and> sm_bound_kind (dv_sampler d) = KPosition \<and>
    \<not> sm_have_active (dv_sampler d) \<and> calm (dv_sup d) \<and> sv_active_kind (dv_sup d) = KPosition \<and> \<not> sv_in_flight (dv_sup d) \<and>
    \<not> st_open (sv_session (dv_sup d)) \<and> sm_traj (dv_sampler d) = traj_exec_init (sk_continuous (sv_const s0)) \<and>
    sv_inbox (dv_sup d) = [\<lparr>in_id = i, in_goal = g, in_cancel = False, in_halted = False, in_why = HrOwnershipRevoked\<rparr>]"
proof -
  note d0 = started [OF init con]
  let ?d1 = "deliver driver_ports (CmdAccepted i g) (driver_init s0)"
  have r1: "sup_reach L (driver_init s0) ?d1" by (blast intro: sup_reach.intros sup_step.command)
  have d1: "dv_sup ?d1 = (dv_sup (driver_init s0))\<lparr>sv_inbox := [\<lparr>in_id = i, in_goal = g, in_cancel = False, in_halted = False,
      in_why = HrOwnershipRevoked\<rparr>]\<rparr>" "dv_sampler ?d1 = dv_sampler (driver_init s0)" "dv_opens ?d1 = []"
    using d0 by (simp_all add: driver_ports_def port_trajectory_accepted_def on_sup_def on_trajectory_accepted_def Let_def
        calm_def contact_latched_def)
  have "calm (dv_sup ?d1)" using d0(1) d1(1) by (simp add: calm_def)
  from calm_to_drain [OF r1 _ this] d0(6) d1(2) obtain m s where
    r2: "sup_reach L (driver_init s0) (?d1\<lparr>dv_sampler := m, dv_sup := s\<rparr>)" and m: "sm_pc m = SmDrain" "calm s" "same_goals (dv_sup ?d1) s"
    "sm_bound_kind m = sm_bound_kind (dv_sampler ?d1)" "sm_have_active m = sm_have_active (dv_sampler ?d1)" "sm_traj m = sm_traj (dv_sampler ?d1)" by auto
  have "sm_traj (dv_sampler ?d1) = traj_exec_init (sk_continuous (sv_const s0))"
    unfolding d1(2) by (simp add: driver_init_def sup_start_def request_mode_def sampler_init_def)
  then show ?thesis using r2 m d0 d1 by (intro exI [of _ "?d1\<lparr>dv_sampler := m, dv_sup := s\<rparr>"]) (simp add: same_goals_def)
qed

text \<open>It is in its mode settle; a stream in the mode it switched to is accepted; the settle ends.\<close>

lemma race_settling:
  assumes "supervisor_init fm deps = Inr s0" and "sd_contact deps = None"
  shows "\<exists>d. sup_reach L (driver_init s0) d \<and> dv_opens d = [] \<and> sm_pc (dv_sampler d) = SmRecheck race_entry \<and>
    \<not> sm_have_active (dv_sampler d) \<and> \<not> is_active (sm_traj (dv_sampler d)) \<and> sm_sink (dv_sampler d) = MidImpedance \<and>
    calm (dv_sup d) \<and> sv_active_kind (dv_sup d) = KImpedance \<and> \<not> sv_in_flight (dv_sup d) \<and> \<not> st_open (sv_session (dv_sup d)) \<and>
    sv_inbox (dv_sup d) = []"
proof -
  obtain d where d: "sup_reach L (driver_init s0) d" "dv_opens d = []" "sm_pc (dv_sampler d) = SmDrain" "sm_bound_kind (dv_sampler d) = KPosition"
    "\<not> sm_have_active (dv_sampler d)" "calm (dv_sup d)" "sv_active_kind (dv_sup d) = KPosition" "\<not> sv_in_flight (dv_sup d)"
    "\<not> st_open (sv_session (dv_sup d))" "sv_inbox (dv_sup d) = [race_entry]"
    using queued_to_drain [OF assms, of L 1 race_goal] by (auto simp: race_entry_def)
  define m where "m = (dv_sampler d)\<lparr>sm_traj := traj_exec_init (sk_continuous (sv_const (dv_sup d))), sm_sink := MidImpedance,
    sm_bound_kind := KImpedance, sm_pc := SmRecheck race_entry\<rparr>"
  define s where "s = (request_mode MidImpedance ((dv_sup d)\<lparr>sv_inbox := []\<rparr>))\<lparr>sv_active_kind := KImpedance\<rparr>"
  have "sampler_drain (dv_sampler d) (dv_sup d) = (m, s)"
    using d demo_traj_ok(1) by (simp add: sampler_drain_def drain_refusal_def Let_def calm_def race_entry_def race_goal_def
        trajectory_goal0_def needs_switch_def switch_for_def m_def s_def impedance_gains0_def known_profile_def request_mode_def)
  then have "sup_reach L (driver_init s0) (d\<lparr>dv_sampler := m, dv_sup := s\<rparr>)"
    using sampler_reach [OF d(1)] d(3) by (simp add: sampler_step_def)
  then show ?thesis using d
    by (intro exI [of _ "d\<lparr>dv_sampler := m, dv_sup := s\<rparr>"]) (simp add: m_def s_def calm_def request_mode_def)
qed

lemma race_opened:
  assumes "supervisor_init fm deps = Inr s0" and "sd_contact deps = None"
  shows "\<exists>d. sup_reach L (driver_init s0) d \<and> sm_pc (dv_sampler d) = SmRecheck race_entry \<and> \<not> sm_have_active (dv_sampler d) \<and>
    \<not> is_active (sm_traj (dv_sampler d)) \<and> sm_sink (dv_sampler d) = MidImpedance \<and> sv_stream_open (dv_sup d) \<and>
    st_mode (sv_session (dv_sup d)) = KImpedance \<and> st_kind (sv_session (dv_sup d)) = SkJointPosition \<and>
    sv_inbox (dv_sup d) = [] \<and> \<not> sv_halt_pending (dv_sup d)"
proof -
  obtain d where d: "sup_reach L (driver_init s0) d" "dv_opens d = []" "sm_pc (dv_sampler d) = SmRecheck race_entry" "\<not> sm_have_active (dv_sampler d)"
    "\<not> is_active (sm_traj (dv_sampler d))" "sm_sink (dv_sampler d) = MidImpedance"
    and c: "calm (dv_sup d)" "sv_active_kind (dv_sup d) = KImpedance" "\<not> sv_in_flight (dv_sup d)" "\<not> st_open (sv_session (dv_sup d))" "sv_inbox (dv_sup d) = []"
    using race_settling [OF assms] by blast
  let ?d1 = "d\<lparr>dv_opens := [race_open]\<rparr>"
  have "open_begin race_open (dv_sup d) = (None, dv_sup d)" using c
    by (simp add: open_begin_def open_refusal_def Let_def race_open_def pair_supported_def impedance_gains0_def known_profile_def calm_def contact_latched_def)
  then have "deliver driver_ports (CmdOpen race_open) d = ?d1" using d(2) by (simp add: driver_ports_def port_stream_open_def)
  with sup_step.command [of L d "CmdOpen race_open"] sup_reach.more [OF d(1)] have r: "sup_reach L (driver_init s0) ?d1" by simp
  obtain s where s: "open_finish race_open (dv_sup ?d1) = Inr (\<lparr>sr_accepted = True, sr_error_code = 0, sr_message = []\<rparr>, s)" "sv_stream_open s"
    "sv_session s = opened_session race_open (dv_sup d)" "sv_inbox s = []" "\<not> sv_halt_pending s"
    using open_finish_accepts [OF race_checked(1), of "dv_sup ?d1"] c by (auto simp: race_open_def calm_def contact_latched_def)
  have "internal_step L ?d1 (?d1\<lparr>dv_sup := s, dv_opens := remove1 race_open (dv_opens ?d1)\<rparr>)"
    by (rule internal_step.open_finish [OF _ s(1)]) simp
  with r have "sup_reach L (driver_init s0) (?d1\<lparr>dv_sup := s, dv_opens := remove1 race_open (dv_opens ?d1)\<rparr>)"
    by (blast intro: sup_reach.more sup_step.internal)
  then show ?thesis using d s by (intro exI [of _ "?d1\<lparr>dv_sup := s, dv_opens := remove1 race_open (dv_opens ?d1)\<rparr>"])
    (simp add: opened_session_def race_open_def)
qed

text \<open>
  Claim C29. A goal and a stream can both own the arm. \<open>in_flight_\<close> is set only when the executor has
  taken the goal, and the sampler looks at \<open>stream_open_\<close> before its mode settle, not after: an impedance
  goal accepted in position mode and a joint stream in impedance mode opened during that settle (250 ms)
  are both accepted, and the sampler then ticks the trajectory into the mode the stream writes.
\<close>

theorem goal_runs_beside_stream:
  assumes init: "supervisor_init fm deps = Inr s0" and con: "sd_contact deps = None"
  shows "on_trajectory_goal race_goal (dv_sup (driver_init s0)) = GrAccept \<and>
    (\<exists>d. sup_reach L (driver_init s0) d \<and> sv_stream_open (dv_sup d) \<and> st_mode (sv_session (dv_sup d)) = KImpedance \<and>
       st_kind (sv_session (dv_sup d)) = SkJointPosition \<and> sm_have_active (dv_sampler d) \<and> is_active (sm_traj (dv_sampler d)) \<and>
       sm_sink (dv_sampler d) = MidImpedance \<and> sm_pc (dv_sampler d) = SmDrain \<and> sv_inbox (dv_sup d) = [])"
proof
  show "on_trajectory_goal race_goal (dv_sup (driver_init s0)) = GrAccept"
    using started [OF init con] demo_traj_ok by (simp add: on_trajectory_goal_def race_goal_def trajectory_goal0_def calm_def
        contact_latched_def kMinSpeedScale_def impedance_gains0_def known_profile_def) (simp add: demo_traj_def)
  obtain d where d: "sup_reach L (driver_init s0) d" "sm_pc (dv_sampler d) = SmRecheck race_entry" "\<not> sm_have_active (dv_sampler d)"
    "\<not> is_active (sm_traj (dv_sampler d))" "sm_sink (dv_sampler d) = MidImpedance" "sv_stream_open (dv_sup d)"
    "st_mode (sv_session (dv_sup d)) = KImpedance" "st_kind (sv_session (dv_sup d)) = SkJointPosition"
    "sv_inbox (dv_sup d) = []" "\<not> sv_halt_pending (dv_sup d)" using race_opened [OF assms] by blast
  let ?m1 = "(dv_sampler d)\<lparr>sm_pc := SmSubmit race_entry\<rparr>"
  have r: "sup_reach L (driver_init s0) (d\<lparr>dv_sampler := ?m1, dv_sup := dv_sup d\<rparr>)"
    using sampler_reach [OF d(1)] d(2,10) by (simp add: sampler_step_def sampler_recheck_def)
  obtain f where f: "gains_for race_goal (dv_sup d) = Inr (on_modes f (dv_sup d))"
    using gains_for_checked [of race_entry "dv_sup d"] race_checked(2) by (auto simp: goal_checked_def race_entry_def race_goal_def trajectory_goal0_def)
  have "\<exists>e. submit (sm_traj (dv_sampler d)) demo_traj KImpedance KLatestWins (vconst (Fin (- 1))) (Fin 1) = (SrAccepted, e) \<and> is_active e"
    using d(4) demo_traj_ok by (simp add: submit_def kMinSpeedScale_def) (simp add: demo_traj_def is_active_def exec_start_def)
  then obtain e where e: "submit (sm_traj (dv_sampler d)) demo_traj KImpedance KLatestWins (vconst (Fin (- 1))) (Fin 1) = (SrAccepted, e)" "is_active e"
    by blast
  let ?m2 = "?m1\<lparr>sm_traj := e, sm_pc := SmDrain, sm_active_id := 1, sm_have_active := True\<rparr>"
  have "sampler_submit race_entry ?m1 (dv_sup d) = Inr (?m2, (on_modes f (dv_sup d))\<lparr>sv_in_flight := True\<rparr>)"
    using f e d(3) by (simp add: sampler_submit_def race_entry_def race_goal_def trajectory_goal0_def)
  then have "sup_reach L (driver_init s0) (d\<lparr>dv_sampler := ?m2, dv_sup := (on_modes f (dv_sup d))\<lparr>sv_in_flight := True\<rparr>\<rparr>)"
    using sampler_reach [OF r] by (simp add: sampler_step_def)
  then show "\<exists>d. sup_reach L (driver_init s0) d \<and> sv_stream_open (dv_sup d) \<and> st_mode (sv_session (dv_sup d)) = KImpedance \<and>
       st_kind (sv_session (dv_sup d)) = SkJointPosition \<and> sm_have_active (dv_sampler d) \<and> is_active (sm_traj (dv_sampler d)) \<and>
       sm_sink (dv_sampler d) = MidImpedance \<and> sm_pc (dv_sampler d) = SmDrain \<and> sv_inbox (dv_sup d) = []"
    using d e by (intro exI) (rule conjI, assumption, simp)
qed

lemma goal_runs_beside_stream_witness:
  "\<exists>d :: driver. sv_stream_open (dv_sup d) \<and> sm_have_active (dv_sampler d)"
  using goal_runs_beside_stream [OF demo_supervisor, of undefined] by (auto simp: demo_deps_def)

subsection \<open>A goal that stops the sampler\<close>

definition infinite_goal :: trajectory_goal where
  "infinite_goal = trajectory_goal0\<lparr>tg_trajectory := \<lparr>tr_points = [\<lparr>wp_q = vconst PInf, wp_t_s = Fin 0, wp_qd = vzero, wp_qdd = vzero\<rparr>],
     tr_has_velocities = False, tr_has_accelerations = False\<rparr>\<rparr>"

definition infinite_entry :: inbound where
  "infinite_entry = \<lparr>in_id = 1, in_goal = infinite_goal, in_cancel = False, in_halted = False, in_why = HrOwnershipRevoked\<rparr>"

lemma infinite_goal_valid: "valid_timestamps (tg_trajectory infinite_goal)" "tr_points (tg_trajectory infinite_goal) \<noteq> []"
  by (simp_all add: infinite_goal_def trajectory_goal0_def valid_timestamps_def)

lemma infinite_tick:
  assumes "vnth (te_continuous e) 0" and "vnth q 0 = Fin x"
  shows "tick (exec_start (tg_trajectory infinite_goal) tol sc e) now q ov = None"
proof -
  let ?a = "advance_clock now (effective_scale sc ov) (start_clock now \<lparr>ea_tr = tg_trajectory infinite_goal, ea_traj_t = Fin 0, ea_last_now_s = Fin 0, ea_started = False\<rparr>)"
  have t: "ea_traj_t ?a = Fin 0" by (cases now) (simp_all add: advance_clock_def start_clock_def Let_def)
  have s: "sample_target (tg_trajectory infinite_goal) (Fin 0) = Some (joint_target0\<lparr>jt_q := vconst PInf\<rparr>)"
    by (simp add: sample_target_def infinite_goal_def)
  have d: "path_diverged (te_continuous e) tol q (vconst PInf) [0..<7] = None"
    using assms by (simp add: upt_conv_Cons wrap_if_def del: upt_rec_numeral)
  show ?thesis using s d unfolding tick_def exec_start_def
    by (simp add: Let_def t scale_profile_def del: upt_rec_numeral)
qed

lemma infinite_running:
  assumes "supervisor_init fm deps = Inr s0" and "sd_contact deps = None"
  shows "\<exists>d tol sc e. sup_reach L (driver_init s0) d \<and> sm_pc (dv_sampler d) = SmTick \<and> sm_have_active (dv_sampler d) \<and>
    sm_traj (dv_sampler d) = exec_start (tg_trajectory infinite_goal) tol sc e \<and> te_continuous e = sk_continuous (sv_const s0)"
proof -
  obtain d where d: "sup_reach L (driver_init s0) d" "sm_pc (dv_sampler d) = SmDrain" "sm_bound_kind (dv_sampler d) = KPosition"
    "\<not> sm_have_active (dv_sampler d)" "calm (dv_sup d)" "sv_active_kind (dv_sup d) = KPosition" "sv_inbox (dv_sup d) = [infinite_entry]"
    "sm_traj (dv_sampler d) = traj_exec_init (sk_continuous (sv_const s0))"
    using queued_to_drain [OF assms, of L 1 infinite_goal] by (auto simp: infinite_entry_def)
  let ?s = "(dv_sup d)\<lparr>sv_inbox := []\<rparr>" and ?m = "dv_sampler d"
  have mode: "tg_control_mode infinite_goal = KPosition" "tg_speed_scale infinite_goal = Fin 1"
    by (simp_all add: infinite_goal_def trajectory_goal0_def)
  have "sampler_drain ?m (dv_sup d) = (?m\<lparr>sm_pc := SmRecheck infinite_entry\<rparr>, ?s)"
    using d mode infinite_goal_valid(1) by (simp add: sampler_drain_def drain_refusal_def Let_def calm_def infinite_entry_def needs_switch_def)
  then have "sup_reach L (driver_init s0) (d\<lparr>dv_sampler := ?m\<lparr>sm_pc := SmRecheck infinite_entry\<rparr>, dv_sup := ?s\<rparr>)"
    using sampler_reach [OF d(1)] d(2) by (simp add: sampler_step_def)
  from sampler_reach [OF this, of "?m\<lparr>sm_pc := SmSubmit infinite_entry\<rparr>" ?s]
  have r: "sup_reach L (driver_init s0) (d\<lparr>dv_sampler := ?m\<lparr>sm_pc := SmSubmit infinite_entry\<rparr>, dv_sup := ?s\<rparr>)"
    using d(5) by (simp add: sampler_step_def sampler_recheck_def calm_def)
  define e where "e = exec_start (tg_trajectory infinite_goal) (tg_path_tolerance infinite_goal) (Fin 1) ((sm_traj ?m)\<lparr>te_mode := KPosition\<rparr>)"
  have "submit (sm_traj ?m) (tg_trajectory infinite_goal) (tg_control_mode infinite_goal) (tg_preemption infinite_goal)
      (tg_path_tolerance infinite_goal) (tg_speed_scale infinite_goal) = (SrAccepted, e)"
    using infinite_goal_valid mode d(8) by (simp add: submit_def e_def kMinSpeedScale_def)
  then have "sampler_submit infinite_entry (?m\<lparr>sm_pc := SmSubmit infinite_entry\<rparr>) ?s =
      Inr (?m\<lparr>sm_traj := e, sm_pc := SmDrain, sm_active_id := 1, sm_have_active := True\<rparr>, ?s\<lparr>sv_in_flight := True\<rparr>)"
    using d(4) mode by (simp add: sampler_submit_def infinite_entry_def gains_for_def)
  then have "sup_reach L (driver_init s0) (d\<lparr>dv_sampler := ?m\<lparr>sm_traj := e, sm_pc := SmDrain, sm_active_id := 1, sm_have_active := True\<rparr>,
      dv_sup := ?s\<lparr>sv_in_flight := True\<rparr>\<rparr>)"
    using sampler_reach [OF r] by (simp add: sampler_step_def)
  from sampler_reach [OF this, of "?m\<lparr>sm_traj := e, sm_pc := SmTick, sm_active_id := 1, sm_have_active := True\<rparr>" "?s\<lparr>sv_in_flight := True\<rparr>"]
  have "sup_reach L (driver_init s0) (d\<lparr>dv_sampler := ?m\<lparr>sm_traj := e, sm_pc := SmTick, sm_active_id := 1, sm_have_active := True\<rparr>,
      dv_sup := ?s\<lparr>sv_in_flight := True\<rparr>\<rparr>)"
    by (simp add: sampler_step_def sampler_drain_def)
  moreover have "te_continuous ((sm_traj ?m)\<lparr>te_mode := KPosition\<rparr>) = sk_continuous (sv_const s0)" using d(8) by (simp add: traj_exec_init_def)
  moreover have "e = exec_start (tg_trajectory infinite_goal) (tg_path_tolerance infinite_goal) (Fin 1) ((sm_traj ?m)\<lparr>te_mode := KPosition\<rparr>)"
    by (simp add: e_def)
  ultimately show ?thesis by (intro exI conjI) (assumption, simp, simp, simp, assumption)
qed

text \<open>
  Claim C31. A goal can stop the sampler for good. \<open>on_trajectory_goal\<close> looks at a goal's time stamps and
  scale but not at its positions: one with an infinite waypoint is accepted and started, and the first
  tick, whatever the clock says and the arm measures, folds an infinite angle on a continuous joint
  (\<open>wrap_to_pi\<close>, a loop that subtracts a turn from infinity), which never returns; no halt, e-stop
  included, is taken by the sampler after that, and no goal is settled.
\<close>

theorem infinite_goal_stops_sampler:
  assumes init: "supervisor_init fm deps = Inr s0" and con: "sd_contact deps = None" and j: "vnth (sk_continuous (sv_const s0)) 0"
  shows "on_trajectory_goal infinite_goal (dv_sup (driver_init s0)) = GrAccept \<and>
    (\<exists>d. sup_reach L (driver_init s0) d \<and> sm_have_active (dv_sampler d) \<and>
       (\<forall>fb now. isfinite (vnth (fb_q fb) 0) \<longrightarrow>
          sampler_step L (dv_sampler d) (on_halt HrEmergencyStop ((dv_sup d)\<lparr>sv_snap := Some fb, sv_now := now\<rparr>)) = None))"
proof
  show "on_trajectory_goal infinite_goal (dv_sup (driver_init s0)) = GrAccept"
    using started [OF init con] infinite_goal_valid by (simp add: on_trajectory_goal_def calm_def contact_latched_def
        infinite_goal_def trajectory_goal0_def kMinSpeedScale_def impedance_gains0_def known_profile_def)
  obtain d tol sc e where d: "sup_reach L (driver_init s0) d" "sm_pc (dv_sampler d) = SmTick" "sm_have_active (dv_sampler d)"
    "sm_traj (dv_sampler d) = exec_start (tg_trajectory infinite_goal) tol sc e" "te_continuous e = sk_continuous (sv_const s0)"
    using infinite_running [OF init con] by blast
  have "sampler_step L (dv_sampler d) (on_halt HrEmergencyStop ((dv_sup d)\<lparr>sv_snap := Some fb, sv_now := now\<rparr>)) = None"
    if q: "isfinite (vnth (fb_q fb) 0)" for fb now
  proof -
    obtain x where "vnth (fb_q fb) 0 = Fin x" using q by (auto simp: isfinite_iff)
    moreover have "is_active (sm_traj (dv_sampler d))" unfolding d(4) by (simp add: is_active_def exec_start_def)
    ultimately show ?thesis using infinite_tick [of e "fb_q fb" x] d j
      by (simp add: sampler_step_def sampler_tick_def Let_def sample_measured_def snap_load_def sampled_q_def)
  qed
  with d show "\<exists>d. sup_reach L (driver_init s0) d \<and> sm_have_active (dv_sampler d) \<and>
       (\<forall>fb now. isfinite (vnth (fb_q fb) 0) \<longrightarrow>
          sampler_step L (dv_sampler d) (on_halt HrEmergencyStop ((dv_sup d)\<lparr>sv_snap := Some fb, sv_now := now\<rparr>)) = None)" by blast
qed

lemma infinite_goal_stops_sampler_witness:
  "\<exists>d :: driver. sampler_step undefined (dv_sampler d) (on_halt HrEmergencyStop ((dv_sup d)\<lparr>sv_snap := Some joint_feedback0, sv_now := Fin 7\<rparr>)) = None"
proof -
  have "sv_const demo_supervisor = sup_const_of demo_deps"
    by (rule supervisor_init_const [OF demo_supervisor])
  then have "vnth (sk_continuous (sv_const demo_supervisor)) 0"
    by (simp add: demo_deps_def sup_const_of_def Let_def zero_dynamics_def continuous_joints_def)
  moreover have "sd_contact demo_deps = None" by (simp add: demo_deps_def)
  moreover have "isfinite (vnth (fb_q joint_feedback0) 0)" by (simp add: joint_feedback0_def)
  ultimately show ?thesis using infinite_goal_stops_sampler [OF demo_supervisor, of undefined] by blast
qed

end
