(* ===== verification/Supervisor_Outcomes.thy ===== *)
theory Supervisor_Outcomes
  imports Supervisor_Safety
begin

section \<open>What the Supervisor's calls achieve\<close>

text \<open>
  The outcome of a halt (every goal is answered), of opening a stream, the bounds of the speed scale, and
  what accepted gains mean for the arm: it is held up.
\<close>

subsection \<open>A halt answers every goal\<close>

text \<open>The sampler running alone for some steps; \<open>None\<close> when one does not return.\<close>

fun sampler_run :: "eigen \<Rightarrow> nat \<Rightarrow> sampler \<times> supervisor \<Rightarrow> (sampler \<times> supervisor) option" where
  "sampler_run L 0 ms = Some ms"
| "sampler_run L (Suc n) ms = (case sampler_step L (fst ms) (snd ms) of
       Some (Inr ms') \<Rightarrow> sampler_run L n ms'
     | _ \<Rightarrow> None)"

lemma sampler_run_append:
  "sampler_run L (k + n) ms = Option.bind (sampler_run L k ms) (sampler_run L n)"
  by (induction k arbitrary: ms) (auto split: option.split sum.split)

lemma sampler_run_trans:
  "sampler_run L k ms = Some ms' \<Longrightarrow> sampler_run L n ms' = Some ms'' \<Longrightarrow> \<exists>j. sampler_run L j ms = Some ms''"
  using sampler_run_append [of L k n ms] by (intro exI [of _ "k + n"]) simp

lemma sampler_run_kept:
  "sampler_run L n (m, s) = Some (m', s') \<Longrightarrow> sampler_inv m s \<Longrightarrow> kept m s m' s'"
proof (induction n arbitrary: m s)
  case 0
  then show ?case by (simp add: kept_def)
next
  case (Suc n)
  then obtain m1 s1 where st: "sampler_step L m s = Some (Inr (m1, s1))" "sampler_run L n (m1, s1) = Some (m', s')"
    by (auto split: option.splits sum.splits)
  have "kept m s m1 s1" using sampler_step_kept [OF Suc.prems(2) st(1)] by auto
  with Suc.IH [OF st(2)] show ?case by (auto simp: kept_def)
qed

text \<open>Draining an inbox in which every goal is marked.\<close>

lemma drain_halted:
  assumes "list_all in_halted (sv_inbox s)" and "sm_pc m = SmDrain" and "resting m"
  shows "\<exists>n s'. sampler_run L n (m, s) = Some (m\<lparr>sm_pc := SmTop\<rparr>, s') \<and> sv_inbox s' = []"
  using assms
proof (induction "sv_inbox s" arbitrary: s)
  case Nil
  have "sampler_run L 2 (m, s) = Some (m\<lparr>sm_pc := SmTop\<rparr>, s)"
    using Nil by (simp add: numeral_2_eq_2 sampler_step_def sampler_drain_def sampler_tick_def resting_def)
  with Nil show ?case by metis
next
  case (Cons i q)
  have i: "in_halted i" "sv_inbox s = i # q" using Cons by (simp_all flip: Cons(2))
  then have "sampler_drain m s = (m, settle (in_id i) (halt_result (in_why i)) (s\<lparr>sv_inbox := q\<rparr>))" (is "_ = (m, ?s)")
    by (simp add: sampler_drain_def drain_refusal_def Let_def)
  then have one: "sampler_run L 1 (m, s) = Some (m, ?s)" using Cons.prems by (simp add: sampler_step_def)
  have "list_all in_halted (sv_inbox ?s)" using Cons.prems(1) i(2) by simp
  then obtain n s' where "sampler_run L n (m, ?s) = Some (m\<lparr>sm_pc := SmTop\<rparr>, s')" "sv_inbox s' = []"
    using Cons.hyps(1) [of ?s] Cons.prems(2,3) by auto
  with sampler_run_trans [OF one] show ?case by blast
qed

text \<open>From the top of the loop to the inbox, with a halt pending: it is taken on the way.\<close>

lemma all_halted_frame [simp]:
  "all_halted (on_modes f s) = all_halted s" "all_halted (s\<lparr>sv_contact_cleared := b\<rparr>) = all_halted s"
  "all_halted (s\<lparr>sv_speed_applied := x\<rparr>) = all_halted s"
  by (simp_all add: all_halted_def)

lemma halt_to_drain:
  assumes pc: "sm_pc m = SmTop" and closed: "\<not> sv_stream_open s" and pend: "sv_halt_pending s" and all: "all_halted s"
  shows "\<exists>m' s'. sampler_run L 4 (m, s) = Some (m', s') \<and> sm_pc m' = SmDrain \<and> resting m' \<and> all_halted s'"
proof -
  obtain m1 s1 where top: "sampler_top m s = (m1, s1)" by fastforce
  have 1: "sm_pc m1 = SmHalt" "\<not> sv_stream_open s1" "sv_halt_pending s1" "all_halted s1"
    using top closed pend all by (auto simp: sampler_top_def Let_def split: if_splits)
  obtain m2 s2 where take: "take_halt m1 s1 = (m2, s2)" by fastforce
  note t = take_halt_frame [OF take]
  let ?m = "m2\<lparr>sm_pc := SmDeadline\<rparr>"
  have halt: "sampler_halt m1 s1 = (?m, s2)" using take 1(3) by (simp add: sampler_halt_def)
  have rest: "sampler_run L 4 (m, s) = Some (m2\<lparr>sm_pc := SmDrain\<rparr>, s2)"
    using pc top 1 halt t by (simp add: eval_nat_numeral sampler_step_def sampler_deadline_def sampler_compliant_def compliant_session_def)
  moreover have "all_halted s2" using 1(4) t by (simp add: all_halted_def)
  moreover have "resting (m2\<lparr>sm_pc := SmDrain\<rparr>)" using t by (simp add: resting_def)
  ultimately show ?thesis by (intro exI [of _ "m2\<lparr>sm_pc := SmDrain\<rparr>"] exI [of _ s2]) simp
qed

text \<open>
  Claim C9. A halt answers everybody. From every reachable state in which the sampler is at the top of
  its loop, after \<open>on_halt\<close> the sampler alone comes back there in finitely many steps, none of which can
  fail to return, and then every goal ever accepted has its result: nothing is queued, nothing runs.
\<close>

theorem halt_answers_every_goal:
  assumes "supervisor_init fm deps = Inr s0" and "sup_reach L (driver_init s0) d" and "sm_pc (dv_sampler d) = SmTop"
  shows "\<exists>n m s. sampler_run L n (dv_sampler d, on_halt r (dv_sup d)) = Some (m, s) \<and> sm_pc m = SmTop \<and>
    sv_inbox s = [] \<and> \<not> sm_have_active m \<and> \<not> is_active (sm_traj m) \<and> settled s = mset (dv_accepted d)"
proof -
  have inv: "driver_inv d" by (rule driver_inv_reach [OF assms(2) supervisor_init_fresh [OF assms(1)]])
  let ?m = "dv_sampler d" and ?s = "on_halt r (dv_sup d)"
  obtain m1 s1 where a: "sampler_run L 4 (?m, ?s) = Some (m1, s1)" "sm_pc m1 = SmDrain" "resting m1" "all_halted s1"
    using halt_to_drain [of ?m ?s L] assms(3) by auto
  obtain n s2 where b: "sampler_run L n (m1, s1) = Some (m1\<lparr>sm_pc := SmTop\<rparr>, s2)" "sv_inbox s2 = []"
    using drain_halted [of s1 m1 L] a by (auto simp: all_halted_def)
  obtain k where k: "sampler_run L k (?m, ?s) = Some (m1\<lparr>sm_pc := SmTop\<rparr>, s2)" using sampler_run_trans [OF a(1) b(1)] by blast
  have "kept ?m (dv_sup d) ?m ?s" using inv steady_inv [OF steady_halt] by (simp add: driver_inv_def)
  then have "balance ?m ?s = mset (dv_accepted d)" "sampler_inv ?m ?s" using inv by (simp_all add: kept_def driver_inv_def)
  with sampler_run_kept [OF k] have "balance (m1\<lparr>sm_pc := SmTop\<rparr>) s2 = mset (dv_accepted d)" by (simp add: kept_def)
  then have "settled s2 = mset (dv_accepted d)" using a(3) b(2) by (simp add: balance_def owed_def resting_def)
  with k a(3) b(2) show ?thesis by (intro exI conjI) (assumption, simp_all add: resting_def)
qed

lemma halt_answers_every_goal_witness:
  "\<exists>n m s. sampler_run undefined n (dv_sampler (driver_init demo_supervisor), on_halt HrOperatorRequest (dv_sup (driver_init demo_supervisor))) = Some (m, s) \<and>
     settled s = {#}"
proof -
  have "sm_pc (dv_sampler (driver_init demo_supervisor)) = SmTop" "dv_accepted (driver_init demo_supervisor) = []"
    by (simp_all add: driver_init_def sampler_init_def)
  then show ?thesis using halt_answers_every_goal [OF demo_supervisor sup_reach.start, of undefined HrOperatorRequest]
    by (metis mset.simps(1))
qed

subsection \<open>Opening a stream\<close>

text \<open>Whether a request may open a stream now.\<close>

definition open_allowed :: "stream_open_request \<Rightarrow> supervisor \<Rightarrow> bool" where
  "open_allowed r s \<longleftrightarrow> sv_ready s \<and> \<not> contact_latched s \<and> \<not> sv_in_flight s \<and> \<not> sv_stream_open s \<and>
     \<not> so_timeout_s r \<le> Fin 0 \<and> pair_supported (so_kind r) (so_control_mode r) \<and> known_profile (ig_profile (so_gains r)) \<and>
     (if so_control_mode r = KImpedance then spec_accepted (so_gains r) else ig_profile (so_gains r) = GpSessionDefault)"

lemma open_refusal_iff: "open_refusal r s = None \<longleftrightarrow> open_allowed r s"
  by (auto simp: open_refusal_def open_allowed_def spec_accepted_def Let_def)

lemma open_accepts:
  assumes "open_allowed r s" and mirror: "sv_stream_open s = st_open (sv_session s)"
  shows "\<exists>res s'. on_stream_open r s = Inr (res, s') \<and> sr_accepted res \<and> sv_stream_open s' \<and> sv_session s' = opened_session r s \<and>
    sv_active_kind s' = so_control_mode r \<and>
    sv_requested s' = (if so_control_mode r = sv_active_kind s then sv_requested s else Some (kind_mode (so_control_mode r)))"
proof -
  let ?s1 = "if so_control_mode r \<noteq> sv_active_kind s
    then (request_mode (kind_mode (so_control_mode r)) s)\<lparr>sv_active_kind := so_control_mode r\<rparr> else s"
  have b: "open_begin r s = (None, ?s1)" using assms(1) by (simp add: open_begin_def open_refusal_iff [THEN iffD2] Let_def)
  have s1: "sv_ready ?s1" "\<not> contact_latched ?s1" "sv_active_kind ?s1 = so_control_mode r" "\<not> st_open (sv_session ?s1)"
    "opened_session r ?s1 = opened_session r s"
    "sv_requested ?s1 = (if so_control_mode r = sv_active_kind s then sv_requested s else Some (kind_mode (so_control_mode r)))"
    using assms mirror by (auto simp: open_allowed_def contact_latched_def request_mode_def opened_session_def)
  from open_finish_accepts [OF open_begin_checked [OF b] s1(1-4)] show ?thesis
    using b s1 by (auto simp: on_stream_open_def)
qed

lemma mirror_reach:
  assumes "supervisor_init fm deps = Inr s0" and "sup_reach L (driver_init s0) d"
  shows "sv_stream_open (dv_sup d) = st_open (sv_session (dv_sup d))"
  using driver_inv_reach [OF assms(2) supervisor_init_fresh [OF assms(1)]] by (simp add: driver_inv_def sampler_inv_def)

text \<open>
  Claim C26. What \<open>on_stream_open\<close> does when nothing else happens during its settle: it accepts exactly the
  requests that are allowed; then the session is open with the request's kind, mode and deadline, counted
  from now, the mode asked for is the running one and is requested from the executor if it was not; a
  refused request changes nothing at all.
\<close>

theorem stream_open_outcome:
  assumes "supervisor_init fm deps = Inr s0" and "sup_reach L (driver_init s0) d"
  shows "\<exists>res s'. on_stream_open r (dv_sup d) = Inr (res, s') \<and> (sr_accepted res \<longleftrightarrow> open_allowed r (dv_sup d)) \<and>
    (if sr_accepted res
     then sv_stream_open s' \<and> sv_session s' = opened_session r (dv_sup d) \<and> sv_active_kind s' = so_control_mode r \<and>
       sv_requested s' = (if so_control_mode r = sv_active_kind (dv_sup d) then sv_requested (dv_sup d) else Some (kind_mode (so_control_mode r)))
     else s' = dv_sup d)"
proof -
  let ?s = "dv_sup d"
  show ?thesis
  proof (cases "open_allowed r ?s")
    case False
    then obtain res where res: "open_refusal r ?s = Some res" using open_refusal_iff by fastforce
    then have "\<not> sr_accepted res" by (auto simp: open_refusal_def stream_refused_def Let_def split: if_splits)
    with res False show ?thesis by (simp add: on_stream_open_def open_begin_def)
  next
    case True
    from open_accepts [OF True mirror_reach [OF assms]] True show ?thesis by auto
  qed
qed

lemma stream_open_outcome_witness:
  "\<exists>res s'. on_stream_open race_open (dv_sup (driver_init demo_supervisor)) = Inr (res, s') \<and> sr_accepted res \<and> st_kind (sv_session s') = SkJointPosition"
proof -
  have "sd_contact demo_deps = None" by (simp add: demo_deps_def)
  note st = started [OF demo_supervisor this]
  then have "open_allowed race_open (dv_sup (driver_init demo_supervisor))"
    using race_checked by (simp add: open_allowed_def calm_def contact_latched_def race_open_def pair_supported_def impedance_gains0_def)
  then show ?thesis using stream_open_outcome [OF demo_supervisor sup_reach.start, where r = race_open]
    by (auto simp: opened_session_def race_open_def)
qed

subsection \<open>The speed scale and the session default\<close>

text \<open>The two values no thread of the Supervisor writes by itself.\<close>

lemma sampler_step_frame:
  assumes "sampler_step L m s = Some (Inr (m', s'))"
  shows "sv_session_default s' = sv_session_default s \<and> sv_speed_override s' = sv_speed_override s"
proof (cases "sm_pc m")
  case SmHalt
  obtain m1 s1 where h: "take_halt m s = (m1, s1)" by fastforce
  show ?thesis using assms SmHalt take_halt_frame [OF h] h by (auto simp: sampler_step_def sampler_halt_def split: if_splits)
next
  case SmCompliant
  with assms show ?thesis
    by (auto simp: sampler_step_def sampler_compliant_def Let_def split: if_splits dest!: compliant_tick_frame)
next
  case (SmSubmit i)
  with assms show ?thesis
    by (auto simp: sampler_step_def sampler_submit_def gains_for_def apply_impedance_gains_def Let_def split: prod.splits if_splits sum.splits)
next
  case SmTick
  with assms show ?thesis
    by (auto simp: sampler_step_def sampler_tick_def Let_def split: if_splits bind_splits option.splits)
qed (use assms in \<open>auto simp: sampler_step_def sampler_top_def sampler_deadline_def sampler_drain_def drain_cancel_def switch_for_def
    request_mode_def sampler_recheck_def Let_def split: if_splits list.splits option.splits\<close>)

definition scale_ok :: "dbl \<Rightarrow> bool" where
  "scale_ok x \<longleftrightarrow> (\<exists>v. x = Fin v \<and> 1 / 100 \<le> v \<and> v \<le> 1)"

lemma slew_scale_ok:
  assumes "scale_ok c" and "scale_ok t"
  shows "scale_ok (slew_scale c t dt)" "Fin 0 \<le> dt \<Longrightarrow> dt = Fin x \<Longrightarrow> \<bar>dval (slew_scale c t dt) - dval c\<bar> \<le> 2 * x"
proof -
  obtain u v where uv: "c = Fin u" "1 / 100 \<le> u" "u \<le> 1" "t = Fin v" "1 / 100 \<le> v" "v \<le> 1" using assms by (auto simp: scale_ok_def)
  show "scale_ok (slew_scale c t dt)" using uv
    by (cases dt) (auto simp: slew_scale_def Let_def kScaleSlewPerSec_def scale_ok_def)
  show "\<bar>dval (slew_scale c t dt) - dval c\<bar> \<le> 2 * x" if "Fin 0 \<le> dt" "dt = Fin x"
    using that uv slew_scale_cases [of x u v] by auto
qed

text \<open>How the speed values and the session default can change in one step of anybody.\<close>

definition tuned_by :: "supervisor \<Rightarrow> supervisor \<Rightarrow> bool" where
  "tuned_by s s' \<longleftrightarrow> sv_speed_applied s' = sv_speed_applied s \<and>
     (sv_speed_override s' = sv_speed_override s \<or> scale_ok (sv_speed_override s')) \<and>
     (sv_session_default s' = sv_session_default s \<or>
      (\<exists>g. spec_accepted g \<and> resolve_gains g (sv_session_default s) = Inr (sv_session_default s')))"

lemma tuned_same: "sv_speed_applied s' = sv_speed_applied s \<Longrightarrow> sv_speed_override s' = sv_speed_override s \<Longrightarrow>
    sv_session_default s' = sv_session_default s \<Longrightarrow> tuned_by s s'"
  by (simp add: tuned_by_def)

lemma tuned_override: "tuned_by s (snd (on_set_speed_override q s))"
proof -
  have "scale_ok x" if "isfinite x" "\<not> (x < kMinSpeedScale \<or> Fin 1 < x)" for x
    using that by (cases x) (auto simp: scale_ok_def kMinSpeedScale_def)
  then show ?thesis by (auto simp: tuned_by_def on_set_speed_override_def sup_set_speed_override_def)
qed

lemma tuned_refl: "tuned_by s s"
  by (rule tuned_same) simp_all

lemma tuned_default:
  assumes "spec_accepted g" and "set_session_default g s = Inr (res, s')"
  shows "tuned_by s s'"
proof -
  obtain p where "resolve_gains g (sv_session_default s) = Inr p" "s' = s\<lparr>sv_session_default := p\<rparr>"
    using assms(2) by (auto simp: set_session_default_def split: sum.splits)
  with assms(1) show ?thesis by (auto simp: tuned_by_def)
qed

lemma tuned_gains:
  assumes "on_set_gains r s = Inr (res, s')"
  shows "tuned_by s s'"
proof -
  have "s' = s \<or> spec_accepted (gq_spec r) \<and> set_session_default (gq_spec r) s = Inr (res, s')"
    using assms by (auto simp: on_set_gains_def Let_def spec_accepted_def split: if_splits option.splits)
  then show ?thesis using tuned_default tuned_refl by blast
qed

lemma tuned_setpoints:
  "tuned_by s (on_setpoint_joint_position c s)" "tuned_by s (on_setpoint_pose p s)" "tuned_by s (on_setpoint_joint_torque c s)"
  "tuned_by s (on_setpoint_joint_velocity c s)" "tuned_by s (on_setpoint_twist v s)"
  by (auto intro!: tuned_same simp: on_setpoint_joint_position_def on_setpoint_pose_def on_setpoint_joint_torque_def
      on_setpoint_joint_velocity_def on_setpoint_twist_def dest!: admit_setpoint_frame split: prod.split option.split)

lemma tuned_small:
  "tuned_by s (snd (on_set_contact_thresholds t s))" "tuned_by s (snd (on_query_contact s))" "tuned_by s (on_gripper_setpoint g s)"
  "tuned_by s (link_up s)" "tuned_by s (snd (drop_begin s))" "tuned_by s (drop_finish s)" "tuned_by s (close_stream cc s)"
  "tuned_by s (on_halt h s)" "tuned_by s (on_trajectory_accepted i gl s)" "tuned_by s (snd (on_trajectory_cancel cn s))"
  "tuned_by s (snd (clear_contact s))" "tuned_by s (on_stream_close sr s)"
  using clear_contact_cases [of s]
  by (auto intro!: tuned_same simp: on_set_contact_thresholds_def on_query_contact_def on_gripper_setpoint_def link_up_def
      drop_begin_def drop_finish_def Let_def on_trajectory_accepted_def on_trajectory_cancel_def on_stream_close_def split: option.split sum.split)

lemma tuned_open_begin: "open_begin r s = (res, s') \<Longrightarrow> tuned_by s s'"
  by (auto simp: open_begin_def request_mode_def Let_def intro!: tuned_same split: option.splits if_splits)

lemma tuned_open_finish: "open_finish r s = Inr (res, s') \<Longrightarrow> tuned_by s s'"
  by (auto simp: open_finish_def Let_def apply_impedance_gains_def seed_stream_def intro!: tuned_same
      split: if_splits prod.splits sum.splits)

lemma tuned_rt: "rt_change s s' \<Longrightarrow> tuned_by s s'"
  by (auto simp: rt_change_def intro!: tuned_same)

lemma tuned_pump: "pump_step L p s = (p', s') \<Longrightarrow> tuned_by s s'"
  using pump_step_cases [of L p s p' s'] by (auto intro!: tuned_same)

lemma tuned_replies:
  "on_trajectory_cancel cn s = (r, s') \<Longrightarrow> tuned_by s s'" "on_set_contact_thresholds t s = (r', s') \<Longrightarrow> tuned_by s s'"
  using tuned_small(10) [of s cn] tuned_small(1) [of s t] by simp_all

lemma tuned_command:
  "tuned_by (dv_sup d) (dv_sup (deliver driver_ports c d)) \<and> dv_sampler (deliver driver_ports c d) = dv_sampler d"
  by (cases c) (auto simp: driver_ports_def on_sup_def with_sup_def port_trajectory_accepted_def port_set_gains_def port_stream_open_def
      crash_def tuned_refl tuned_setpoints intro: tuned_gains tuned_open_begin tuned_small tuned_replies
      split: prod.split sum.split option.split)

lemma tuned_internal:
  assumes "internal_step L d d'"
  shows "tuned_by (dv_sup d) (dv_sup d') \<and> dv_sampler d' = dv_sampler d \<or>
    sampler_step L (dv_sampler d) (dv_sup d) = Some (Inr (dv_sampler d', dv_sup d'))"
  using assms
proof cases
  case (drop_begin was s)
  then show ?thesis using tuned_small(5) [of "dv_sup d"] by simp
next
  case clear
  then show ?thesis using tuned_small(11) [of "dv_sup d"] by (simp add: on_sup_def)
qed (auto simp: on_sup_def crash_def tuned_refl tuned_small intro: tuned_pump tuned_open_finish tuned_rt)

lemma tuned_step:
  assumes "sup_step L d d'"
  shows "tuned_by (dv_sup d) (dv_sup d') \<and> dv_sampler d' = dv_sampler d \<or>
    sampler_step L (dv_sampler d) (dv_sup d) = Some (Inr (dv_sampler d', dv_sup d'))"
  using assms
proof cases
  case (command c)
  then show ?thesis using tuned_command by simp
next
  case (speed q)
  then show ?thesis using tuned_override [of "dv_sup d" q]
    by (cases "on_set_speed_override q (dv_sup d)") (simp add: driver_ports_def with_sup_def)
next
  case query_contact
  then show ?thesis using tuned_small(2) [of "dv_sup d"]
    by (cases "on_query_contact (dv_sup d)") (simp add: driver_ports_def with_sup_def)
next
  case (halt h)
  then show ?thesis using tuned_small(8) by (simp add: driver_ports_def on_sup_def)
next
  case internal
  then show ?thesis by (rule tuned_internal)
qed

text \<open>The sampler's own speed moves only at the top of its loop.\<close>

lemma sampler_step_speed:
  assumes "sampler_step L m s = Some (Inr (m', s'))"
  shows "if sm_pc m = SmTop
    then sm_speed m' = slew_scale (sm_speed m) (sv_speed_override s) (sv_now s - sm_last_tick m) \<and> sv_speed_applied s' = sm_speed m'
    else sm_speed m' = sm_speed m \<and> sv_speed_applied s' = sv_speed_applied s"
proof (cases "sm_pc m")
  case SmHalt
  obtain m1 s1 where h: "take_halt m s = (m1, s1)" by fastforce
  show ?thesis using assms SmHalt take_halt_frame [OF h] h by (auto simp: sampler_step_def sampler_halt_def split: if_splits)
next
  case SmCompliant
  with assms show ?thesis
    by (auto simp: sampler_step_def sampler_compliant_def Let_def split: if_splits dest!: compliant_tick_frame)
next
  case (SmSubmit i)
  with assms show ?thesis
    by (auto simp: sampler_step_def sampler_submit_def gains_for_def apply_impedance_gains_def Let_def split: prod.splits if_splits sum.splits)
next
  case SmTick
  with assms show ?thesis
    by (auto simp: sampler_step_def sampler_tick_def Let_def split: if_splits bind_splits option.splits)
qed (use assms in \<open>auto simp: sampler_step_def sampler_top_def sampler_deadline_def sampler_drain_def drain_cancel_def switch_for_def
    request_mode_def sampler_recheck_def Let_def split: if_splits list.splits option.splits\<close>)

definition speed_ok :: "driver \<Rightarrow> bool" where
  "speed_ok d \<longleftrightarrow> scale_ok (sv_speed_override (dv_sup d)) \<and> scale_ok (sv_speed_applied (dv_sup d)) \<and> scale_ok (sm_speed (dv_sampler d))"

lemma speed_ok_step: "sup_step L d d' \<Longrightarrow> speed_ok d \<Longrightarrow> speed_ok d'"
proof -
  assume st: "sup_step L d d'" and ok: "speed_ok d"
  show "speed_ok d'"
  proof (cases "sampler_step L (dv_sampler d) (dv_sup d) = Some (Inr (dv_sampler d', dv_sup d'))")
    case True
    then show ?thesis using sampler_step_frame [OF True] sampler_step_speed [OF True] ok slew_scale_ok(1)
      by (simp add: speed_ok_def split: if_splits)
  next
    case False
    with tuned_step [OF st] have "tuned_by (dv_sup d) (dv_sup d') \<and> dv_sampler d' = dv_sampler d" by blast
    then show ?thesis using ok by (auto simp: speed_ok_def tuned_by_def)
  qed
qed

text \<open>
  The speed scale never leaves [0.01, 1]: in every reachable state the target, the scale in
  force and the sampler's copy lie there, whatever was asked for (NaN and infinities included); a step of
  the sampler puts a scale in force that is at most twice the elapsed time away x
\<close>

theorem speed_scale_bounded:
  assumes "supervisor_init fm deps = Inr s0" and "sup_reach L (driver_init s0) d"
  shows "scale_ok (sv_speed_override (dv_sup d)) \<and> scale_ok (sv_speed_applied (dv_sup d)) \<and> scale_ok (sm_speed (dv_sampler d)) \<and>
    (\<forall>m' s' dt. sm_pc (dv_sampler d) = SmTop \<longrightarrow> sampler_step L (dv_sampler d) (dv_sup d) = Some (Inr (m', s')) \<longrightarrow>
       sv_now (dv_sup d) - sm_last_tick (dv_sampler d) = Fin dt \<longrightarrow> 0 \<le> dt \<longrightarrow>
       \<bar>dval (sm_speed m') - dval (sm_speed (dv_sampler d))\<bar> \<le> 2 * dt \<and> sv_speed_applied s' = sm_speed m')"
proof -
  have ok: "speed_ok d" using assms(2)
  proof (induction rule: sup_reach.induct)
    case start
    have "scale_ok (Fin 1)" by (simp add: scale_ok_def)
    then show ?case using supervisor_init_fresh [OF assms(1)]
      by (simp add: speed_ok_def driver_init_def fresh_def sup_start_def sampler_init_def request_mode_def)
  next
    case (more d d')
    then show ?case using speed_ok_step by blast
  qed
  then show ?thesis using slew_scale_ok(2) by (auto simp: speed_ok_def dest!: sampler_step_speed)
qed

lemma speed_scale_bounded_witness:
  "scale_ok (sv_speed_override (dv_sup (snd (csk_set_speed_override (ds_command driver_ports)
     \<lparr>sov_scale = NaN, sov_sender_id = [], sov_token = 0\<rparr> (driver_init demo_supervisor)))))"
proof -
  have "sup_reach undefined (driver_init demo_supervisor) (snd (csk_set_speed_override (ds_command driver_ports)
     \<lparr>sov_scale = NaN, sov_sender_id = [], sov_token = 0\<rparr> (driver_init demo_supervisor)))"
    by (blast intro: sup_reach.intros sup_step.speed)
  from speed_scale_bounded [OF demo_supervisor this] show ?thesis by blast
qed

subsection \<open>Accepted gains hold the arm up\<close>

definition default_ok :: "supervisor \<Rightarrow> bool" where
  "default_ok s \<longleftrightarrow> gains_ok (sv_session_default s) \<and> holds_floor (sv_session_default s)"

lemma overlay_ok:
  assumes "gains_ok base" and "profile_params p = Inr jp"
  shows "gains_ok (overlay_profile_gains base jp) \<and> holds_floor (overlay_profile_gains base jp)"
  using assms(1) profile_torque_limit [OF assms(2)] default_torque_limit_floor
  by (auto simp: overlay_profile_gains_def gains_ok_def holds_floor_def)

lemma default_ok_init:
  assumes "supervisor_init fm deps = Inr s0" and "sd_imp deps = Some imp" and "gains_ok (im_get_params imp)"
  shows "default_ok s0"
  using assms(1) overlay_ok [OF assms(3)] assms(2)
  by (auto simp: supervisor_init_def Let_def default_ok_def split: option.splits sum.splits)

lemma default_ok_step:
  assumes "sup_step L d d'" and ok: "default_ok (dv_sup d)"
  shows "default_ok (dv_sup d')"
proof (cases "sampler_step L (dv_sampler d) (dv_sup d) = Some (Inr (dv_sampler d', dv_sup d'))")
  case True
  then show ?thesis using sampler_step_frame [OF True] ok by (simp add: default_ok_def)
next
  case False
  with tuned_step [OF assms(1)] have t: "tuned_by (dv_sup d) (dv_sup d')" by blast
  then consider "sv_session_default (dv_sup d') = sv_session_default (dv_sup d)"
    | g where "spec_accepted g" "resolve_gains g (sv_session_default (dv_sup d)) = Inr (sv_session_default (dv_sup d'))"
    by (auto simp: tuned_by_def)
  then show ?thesis
  proof cases
    case 1 then show ?thesis using ok by (simp add: default_ok_def)
  next
    case 2 then show ?thesis using ok accepted_gains_resolve [OF 2(1), of "sv_session_default (dv_sup d)"] by (auto simp: default_ok_def)
  qed
qed

lemma seed_impedance_ok: "gains_ok p \<Longrightarrow> holds_floor p \<Longrightarrow>
    gains_ok (seed_impedance_limits dyn p) \<and> holds_floor (seed_impedance_limits dyn p)"
  by (fastforce simp: gains_ok_def holds_floor_def seed_impedance_limits_def seed_vec_def)

text \<open>An arm at rest in a configuration whose gravity torque is finite and within the floor.\<close>

definition supportable :: "impedance_mode \<Rightarrow> joint_feedback \<Rightarrow> bool" where
  "supportable m fb \<longleftrightarrow> vfinite (fb_q fb) \<and> fb_qd fb = vzero \<and>
     (\<forall>i < 7. vnth (im_continuous m) i \<longrightarrow> in_pi (dval (vnth (fb_q fb) i))) \<and> model_finite_at (im_dyn m) (fb_q fb) \<and>
     (\<forall>i < 7. \<exists>t. vnth (dyn_gravity (im_dyn m) (fb_q fb)) i = Fin t \<and> \<bar>t\<bar> \<le> dval (vnth kTorqueLimitFloor i))"

text \<open>
  Claim C17. No accepted gains drop the arm. Whatever the Supervisor has been through, gains that pass the
  accept-time checks are applied without an exception, and an impedance mode that then holds (frozen, or
  not yet given a target) commands for an arm at rest exactly the gravity torque of its configuration,
  wherever that is within the pinned worst case: neither custom limits, nor any chain of set session
  defaults, gets between the arm and its weight.
\<close>

theorem accepted_gains_hold_arm:
  assumes init: "supervisor_init fm deps = Inr s0" and imp: "sd_imp deps = Some imp" "gains_ok (im_get_params imp)"
    and reach: "sup_reach L (driver_init s0) d" and g: "spec_accepted g"
  shows "\<exists>s'. apply_impedance_gains g (dv_sup d) = Inr s' \<and>
    (let m = dm_impedance (sv_modes s') in
     \<forall>fb dt sp el out. im_holding m fb (Fin dt) \<longrightarrow> supportable m fb \<longrightarrow> 0 \<le> dt \<longrightarrow> im_speed_scale m = Fin sp \<longrightarrow> 0 \<le> sp \<longrightarrow>
       im_ramp_elapsed m = Fin el \<longrightarrow>
       (\<exists>m'. im_compute E m fb (Fin dt) out = Some (m', out\<lparr>jc_mode := AmTorque,
          jc_torque := dyn_gravity (im_dyn m) (fb_q fb), jc_position := fb_q fb\<rparr>)))"
proof -
  have "default_ok (dv_sup d)" using reach
  proof (induction rule: sup_reach.induct)
    case start
    then show ?case using default_ok_init [OF init imp]
      by (simp add: default_ok_def driver_init_def sup_start_def request_mode_def)
  next
    case (more d d')
    then show ?case using default_ok_step by blast
  qed
  then obtain p where p: "resolve_gains g (sv_session_default (dv_sup d)) = Inr p" "gains_ok p" "holds_floor p"
    using accepted_gains_resolve [OF g] by (auto simp: default_ok_def)
  let ?m0 = "dm_impedance (sv_modes (dv_sup d))"
  let ?m = "im_set_gains ?m0 p" and ?s = "on_modes (\<lambda>m. m\<lparr>dm_impedance := im_set_gains (dm_impedance m) p\<rparr>) (dv_sup d)"
  have a: "apply_impedance_gains g (dv_sup d) = Inr ?s" using p(1) by (simp add: apply_impedance_gains_def)
  have params: "im_get_params ?m = seed_impedance_limits (im_dyn ?m0) p"
    by (simp add: im_set_gains_def im_get_params_def)
  have ok: "gains_ok (im_get_params ?m)" "holds_floor (im_get_params ?m)"
    unfolding params using seed_impedance_ok [OF p(2,3)] by simp_all
  have "\<exists>m'. im_compute E ?m fb (Fin dt) out = Some (m', out\<lparr>jc_mode := AmTorque,
          jc_torque := dyn_gravity (im_dyn ?m) (fb_q fb), jc_position := fb_q fb\<rparr>)"
    if h: "im_holding ?m fb (Fin dt)" and s: "supportable ?m fb" and dt: "0 \<le> dt" and sp: "im_speed_scale ?m = Fin sp" "0 \<le> sp"
      and el: "im_ramp_elapsed ?m = Fin el" for fb dt sp el out
  proof -
    have lim: "\<exists>t l. vnth (dyn_gravity (im_dyn ?m) (fb_q fb)) i = Fin t \<and> vnth (ip_torque_limit (im_get_params ?m)) i = Fin l \<and> \<bar>t\<bar> \<le> l"
      if "i < 7" for i
      using s ok(2) that unfolding supportable_def holds_floor_def by (meson order_trans)
    have "isfinite (im_ramp_elapsed ?m)" by (simp add: el)
    moreover from s have "vfinite (fb_q fb)" "fb_qd fb = vzero" "model_finite_at (im_dyn ?m) (fb_q fb)"
      "\<And>i. i < 7 \<Longrightarrow> vnth (im_continuous ?m) i \<Longrightarrow> in_pi (dval (vnth (fb_q fb) i))"
      by (simp_all add: supportable_def)
    ultimately show ?thesis using im_hold_gravity [OF h ok(1) sp dt, of E out] lim by blast
  qed
  moreover have "dm_impedance (sv_modes ?s) = ?m" by (simp add: on_modes_def)
  ultimately show ?thesis using a unfolding Let_def by (intro exI [of _ ?s]) simp
qed

theorem accepted_gains_hold_arm_witness:
  "\<exists>s'. apply_impedance_gains custom_spec (dv_sup (driver_init demo_supervisor)) = Inr s' \<and>
    (let m = dm_impedance (sv_modes s') in
     \<forall>fb dt sp el out. im_holding m fb (Fin dt) \<longrightarrow> supportable m fb \<longrightarrow> 0 \<le> dt \<longrightarrow> im_speed_scale m = Fin sp \<longrightarrow> 0 \<le> sp \<longrightarrow>
       im_ramp_elapsed m = Fin el \<longrightarrow>
       (\<exists>m'. im_compute demo_eigen m fb (Fin dt) out = Some (m', out\<lparr>jc_mode := AmTorque,
          jc_torque := dyn_gravity (im_dyn m) (fb_q fb), jc_position := fb_q fb\<rparr>)))"
proof -
  have "sd_imp demo_deps = Some (im_init zero_dynamics impedance_params0)" by (simp add: demo_deps_def)
  moreover have "gains_ok (im_get_params (im_init zero_dynamics impedance_params0))"
    using demo_gains_ok by (auto simp: gains_ok_def im_init_def im_get_params_def seed_impedance_limits_def Let_def
        seed_vec_def zero_dynamics_def impedance_params0_def)
  ultimately show ?thesis
    by (rule accepted_gains_hold_arm [OF demo_supervisor _ _ sup_reach.start custom_spec_accepted])
qed

end
