(* ===== verification/Stream_Check.thy ===== *)
theory Stream_Check
  imports Command_Line Supervisor_Outcomes
begin

section \<open>stream\_check and joint\_torque\_check\<close>

text \<open>
  \<open>apps/stream_check.cpp\<close>: options and checks, the request it opens its stream with, and the loop that
  streams, stays silent and resumes, beside the threads of the \<open>Supervisor\<close> it drives; and
  \<open>apps/joint_torque_check.cpp\<close>, which publishes a torque to the mode directly and then stops.
\<close>

subsection \<open>stream\_check: options\<close>

record stream_options = run_options +
  sc_kind_s :: string
  sc_mode_s :: string
  sc_joint :: int
  sc_delta :: dbl
  sc_tau :: dbl
  sc_stream_s :: dbl
  sc_stale_s :: dbl
  sc_resume_s :: dbl
  sc_cmd_rate :: dbl
  sc_timeout_s :: dbl

definition stream_options0 :: stream_options where
  "stream_options0 = run_options.extend (run_options0 (Fin 0))
     \<lparr>sc_kind_s = ''joint-position'', sc_mode_s = ''impedance'', sc_joint = 6, sc_delta = Fin (5 / 100), sc_tau = Fin 1,
      sc_stream_s = Fin 2, sc_stale_s = Fin 1, sc_resume_s = Fin 1, sc_cmd_rate = Fin 100, sc_timeout_s = Fin (1 / 10)\<rparr>"

definition sc_table :: "library \<Rightarrow> string \<Rightarrow> stream_options opt" where
  "sc_table lb a =
     (if a = ''--kind'' then text_opt (\<lambda>v c. c\<lparr>sc_kind_s := v\<rparr>)
      else if a = ''--mode'' then text_opt (\<lambda>v c. c\<lparr>sc_mode_s := v\<rparr>)
      else if a = ''--joint'' then int_opt lb (\<lambda>n c. c\<lparr>sc_joint := n\<rparr>)
      else if a = ''--delta'' then num_opt lb (\<lambda>x c. c\<lparr>sc_delta := x\<rparr>)
      else if a = ''--tau'' then num_opt lb (\<lambda>x c. c\<lparr>sc_tau := x\<rparr>)
      else if a = ''--stream-s'' then num_opt lb (\<lambda>x c. c\<lparr>sc_stream_s := x\<rparr>)
      else if a = ''--stale-s'' then num_opt lb (\<lambda>x c. c\<lparr>sc_stale_s := x\<rparr>)
      else if a = ''--resume-s'' then num_opt lb (\<lambda>x c. c\<lparr>sc_resume_s := x\<rparr>)
      else if a = ''--cmd-rate'' then num_opt lb (\<lambda>x c. c\<lparr>sc_cmd_rate := x\<rparr>)
      else if a = ''--timeout'' then num_opt lb (\<lambda>x c. c\<lparr>sc_timeout_s := x\<rparr>)
      else shared_opt lb (model_names @ [''--dry-run'']) a)"

definition sc_kind_of :: "string \<Rightarrow> setpoint_kind option" where
  "sc_kind_of s = (if s = ''joint-position'' then Some SkJointPosition else if s = ''pose'' then Some SkEePose
     else if s = ''joint-torque'' then Some SkJointTorque else None)"

definition sc_mode_of :: "string \<Rightarrow> control_mode_kind option" where
  "sc_mode_of s = (if s = ''position'' then Some KPosition else if s = ''impedance'' then Some KImpedance
     else if s = ''torque'' then Some KTorque else None)"

definition sc_kind :: "stream_options \<Rightarrow> setpoint_kind" where "sc_kind c = the (sc_kind_of (sc_kind_s c))"
definition sc_mode :: "stream_options \<Rightarrow> control_mode_kind" where "sc_mode c = the (sc_mode_of (sc_mode_s c))"

definition sc_refused :: "stream_options \<Rightarrow> bool" where
  "sc_refused c \<longleftrightarrow> base_refused c \<or> sc_kind_of (sc_kind_s c) = None \<or> sc_mode_of (sc_mode_s c) = None \<or>
     \<not> pair_supported (sc_kind c) (sc_mode c) \<or> sc_joint c < 0 \<or> 7 \<le> sc_joint c \<or> Fin (1 / 5) < abs (sc_delta c) \<or>
     sc_timeout_s c \<le> Fin 0 \<or>
     (sc_kind c = SkJointTorque \<and> Fin (1 / 2) * vnth (tp_torque_limit torque_params0) (nat (sc_joint c)) < abs (sc_tau c))"

definition sc_conversation :: conversation where
  "sc_conversation = \<lparr>cv_dry_loop = False, cv_reads_entry = True, cv_stop_code = None\<rparr>"

definition sc_start :: "library \<Rightarrow> string list \<Rightarrow> ended + (stream_options \<times> dynamics \<times> connection)" where
  "sc_start lb argv = start_program lb (sc_table lb) sc_refused stream_options0 argv"

definition sc_session :: "'t transport_ops \<Rightarrow> bool \<Rightarrow> (joint_feedback \<Rightarrow> 't \<Rightarrow> int option \<times> 't) \<Rightarrow> stream_options \<Rightarrow> 't \<Rightarrow> (ended \<times> 't) option" where
  "sc_session ops stopped run c = run_program ops sc_conversation 0 stopped run c"

subsection \<open>stream\_check: the stream\<close>

definition sc_request :: "stream_options \<Rightarrow> stream_open_request" where
  "sc_request c = \<lparr>so_kind = sc_kind c, so_control_mode = sc_mode c, so_timeout_s = sc_timeout_s c, so_gains = impedance_gains0, so_token = 0\<rparr>"

datatype stream_phase = ScStream | ScStale | ScResume | ScClose

definition phase_of :: "dbl \<Rightarrow> dbl \<Rightarrow> dbl \<Rightarrow> dbl \<Rightarrow> stream_phase" where
  "phase_of t stream_s stale_s resume_s =
     (if t < stream_s then ScStream else if t < stream_s + stale_s then ScStale
      else if t < stream_s + stale_s + resume_s then ScResume else ScClose)"

datatype streamed = StTorque joint_setpoint | StPose pose_setpoint | StPosition joint_setpoint

definition sc_moved :: "stream_options \<Rightarrow> jointvec \<Rightarrow> jointvec" where
  "sc_moved c entry = vupd entry (nat (sc_joint c)) (vnth entry (nat (sc_joint c)) + sc_delta c)"

definition sc_setpoint :: "stream_options \<Rightarrow> dynamics \<Rightarrow> jointvec \<Rightarrow> streamed" where
  "sc_setpoint c dyn entry =
     (case sc_kind c of
        SkJointTorque \<Rightarrow> StTorque \<lparr>js_values = vupd vzero (nat (sc_joint c)) (sc_tau c), js_token = 0\<rparr>
      | SkEePose \<Rightarrow> StPose \<lparr>ps_pose = dyn_fk dyn (sc_moved c entry), ps_token = 0\<rparr>
      | _ \<Rightarrow> StPosition \<lparr>js_values = sc_moved c entry, js_token = 0\<rparr>)"

definition sc_send :: "streamed \<Rightarrow> supervisor \<Rightarrow> supervisor" where
  "sc_send x s = (case x of StTorque sp \<Rightarrow> on_setpoint_joint_torque sp s | StPose sp \<Rightarrow> on_setpoint_pose sp s
     | StPosition sp \<Rightarrow> on_setpoint_joint_position sp s)"

text \<open>
  One turn of the loop, at the elapsed time \<open>el\<close>: \<open>None\<close> when the phases are over; otherwise a setpoint is
  sent, except in the silent phase and while the snapshot has nothing to read.
\<close>

definition sc_sends :: "stream_options \<Rightarrow> dbl \<Rightarrow> driver \<Rightarrow> bool" where
  "sc_sends c el d \<longleftrightarrow> phase_of el (sc_stream_s c) (sc_stale_s c) (sc_resume_s c) \<noteq> ScStale \<and> fst (snap_load (dv_sup d))"

definition sc_wake :: "stream_options \<Rightarrow> dynamics \<Rightarrow> jointvec \<Rightarrow> dbl \<Rightarrow> driver \<Rightarrow> driver option" where
  "sc_wake c dyn entry el d =
     (if sc_stream_s c + sc_stale_s c + sc_resume_s c \<le> el then None
      else Some (if sc_sends c el d then on_sup (sc_send (sc_setpoint c dyn entry)) d else d))"

text \<open>
  The loop beside the driver: from the state its stream was opened in, turns of the loop come between the
  steps of the Supervisor's threads and of the control loop, and time passes in the latter. The elapsed
  times of the turns are listed.
\<close>

inductive sc_run :: "eigen \<Rightarrow> stream_options \<Rightarrow> dynamics \<Rightarrow> jointvec \<Rightarrow> driver \<Rightarrow> dbl list \<Rightarrow> driver \<Rightarrow> bool" for L c dyn entry d0 where
  start: "sc_run L c dyn entry d0 [] d0"
| threads: "sc_run L c dyn entry d0 els d \<Longrightarrow> internal_step L d d' \<Longrightarrow> sc_run L c dyn entry d0 els d'"
| wake: "sc_run L c dyn entry d0 els d \<Longrightarrow> sc_wake c dyn entry el d = Some d' \<Longrightarrow> sc_run L c dyn entry d0 (els @ [el]) d'"

subsection \<open>joint\_torque\_check\<close>

record torque_options = run_options +
  jt_joint :: int
  jt_tau :: dbl
  jt_command_s :: dbl
  jt_observe_s :: dbl
  jt_cmd_rate :: dbl

definition torque_options0 :: torque_options where
  "torque_options0 = run_options.extend (run_options0 (Fin 0))
     \<lparr>jt_joint = 6, jt_tau = Fin 1, jt_command_s = Fin 2, jt_observe_s = Fin 1, jt_cmd_rate = Fin 100\<rparr>"

definition jt_table :: "library \<Rightarrow> string \<Rightarrow> torque_options opt" where
  "jt_table lb a =
     (if a = ''--joint'' then int_opt lb (\<lambda>n c. c\<lparr>jt_joint := n\<rparr>)
      else if a = ''--tau'' then num_opt lb (\<lambda>x c. c\<lparr>jt_tau := x\<rparr>)
      else if a = ''--command-s'' then num_opt lb (\<lambda>x c. c\<lparr>jt_command_s := x\<rparr>)
      else if a = ''--observe-s'' then num_opt lb (\<lambda>x c. c\<lparr>jt_observe_s := x\<rparr>)
      else if a = ''--cmd-rate'' then num_opt lb (\<lambda>x c. c\<lparr>jt_cmd_rate := x\<rparr>)
      else shared_opt lb (model_names @ [''--dry-run'']) a)"

definition jt_refused :: "torque_options \<Rightarrow> bool" where
  "jt_refused c \<longleftrightarrow> base_refused c \<or> jt_joint c < 0 \<or> 7 \<le> jt_joint c \<or>
     Fin (1 / 2) * vnth (tp_torque_limit torque_params0) (nat (jt_joint c)) < abs (jt_tau c)"

definition jt_conversation :: conversation where
  "jt_conversation = \<lparr>cv_dry_loop = False, cv_reads_entry = True, cv_stop_code = None\<rparr>"

definition jt_start :: "library \<Rightarrow> string list \<Rightarrow> ended + (torque_options \<times> dynamics \<times> connection)" where
  "jt_start lb argv = start_program lb (jt_table lb) jt_refused torque_options0 argv"

definition jt_session :: "'t transport_ops \<Rightarrow> bool \<Rightarrow> (joint_feedback \<Rightarrow> 't \<Rightarrow> int option \<times> 't) \<Rightarrow> torque_options \<Rightarrow> 't \<Rightarrow> (ended \<times> 't) option" where
  "jt_session ops stopped run c = run_program ops jt_conversation 0 stopped run c"

definition jt_torque :: "torque_options \<Rightarrow> jointvec" where
  "jt_torque c = vupd vzero (nat (jt_joint c)) (jt_tau c)"

fun jt_loop :: "torque_options \<Rightarrow> dbl list \<Rightarrow> (dbl \<times> jointvec) list" where
  "jt_loop c [] = []"
| "jt_loop c (el # rest) =
     (if jt_command_s c + jt_observe_s c \<le> el then []
      else (if el < jt_command_s c then [(el, jt_torque c)] else []) @ jt_loop c rest)"

subsection \<open>What stream\_check asks for\<close>

text \<open>The request is never refused for what it asks.\<close>

lemma sc_request_allowed:
  assumes "\<not> sc_refused c"
  shows "open_allowed (sc_request c) s \<longleftrightarrow> sv_ready s \<and> \<not> contact_latched s \<and> \<not> sv_in_flight s \<and> \<not> sv_stream_open s"
  using assms race_checked by (auto simp: open_allowed_def sc_request_def sc_refused_def impedance_gains0_def)

text \<open>
  What a setpoint of the program does: to an open session of its kind it restarts the deadline; a closed
  one counts it as rejected and passes nothing on to the modes.
\<close>

lemma sc_kind_cases: "\<not> sc_refused c \<Longrightarrow> sc_kind c \<in> {SkJointPosition, SkEePose, SkJointTorque}"
  by (auto simp: sc_refused_def sc_kind_def sc_kind_of_def split: if_splits)

lemma sc_send_admitted:
  assumes "st_open (sv_session s)" "st_kind (sv_session s) = sc_kind c" "\<not> sc_refused c"
  shows "sv_session (sc_send (sc_setpoint c dyn entry) s) = (sv_session s)\<lparr>st_last_s := sv_now s\<rparr>"
  using sc_kind_cases [OF assms(3)] assms(1,2)
  by (auto simp: sc_setpoint_def sc_send_def on_setpoint_joint_torque_def on_setpoint_pose_def on_setpoint_joint_position_def
        admit_setpoint_def session_admit_def on_modes_def split: option.split)

lemma sc_send_rejected:
  assumes "\<not> st_open (sv_session s)"
  shows "sc_send x s = s\<lparr>sv_session := (sv_session s)\<lparr>st_rejected := st_rejected (sv_session s) + 1\<rparr>\<rparr>"
  using assms by (cases x) (simp_all add: sc_send_def on_setpoint_joint_torque_def on_setpoint_pose_def on_setpoint_joint_position_def
        admit_setpoint_def session_admit_def)

lemma sc_send_mirror [simp]: "sv_stream_open (sc_send x s) = sv_stream_open s"
  by (auto simp: sc_send_def on_setpoint_joint_torque_def on_setpoint_pose_def on_setpoint_joint_position_def
        admit_setpoint_def on_modes_def split: streamed.split option.split prod.split)

subsection \<open>What the driver's threads do to the session\<close>

text \<open>They leave it as it is, or close it.\<close>

definition kept_or_closed :: "supervisor \<Rightarrow> supervisor \<Rightarrow> bool" where
  "kept_or_closed s s' \<longleftrightarrow>
     (sv_session s' = sv_session s \<and> sv_stream_open s' = sv_stream_open s) \<or>
     (sv_stream_open s \<and> sv_session s' = session_close (sv_session s) \<and> \<not> sv_stream_open s')"

lemma keptI: "sv_session s' = sv_session s \<Longrightarrow> sv_stream_open s' = sv_stream_open s \<Longrightarrow> kept_or_closed s s'"
  by (simp add: kept_or_closed_def)

lemma session_kept_cong: "kept_or_closed s t \<Longrightarrow> sv_session t' = sv_session t \<Longrightarrow> sv_stream_open t' = sv_stream_open t \<Longrightarrow> kept_or_closed s t'"
  by (simp add: kept_or_closed_def)

lemma session_kept_trans: "kept_or_closed s t \<Longrightarrow> kept_or_closed t u \<Longrightarrow> kept_or_closed s u"
  by (auto simp: kept_or_closed_def)

lemma session_kept_close: "kept_or_closed s (close_stream x s)"
  by (simp add: kept_or_closed_def)

lemma session_kept_halt: "kept_or_closed s (on_halt r s)"
  by (simp add: kept_or_closed_def)

lemma session_kept_top: "sampler_top m s = (m', s') \<Longrightarrow> kept_or_closed s s'"
  by (auto simp: sampler_top_def Let_def intro: keptI session_kept_cong [OF session_kept_halt] split: if_splits)

lemma session_kept_halt_stage: "sampler_halt m s = (m', s') \<Longrightarrow> kept_or_closed s s'"
  by (auto simp: sampler_halt_def take_halt_def Let_def line_up_position_def request_mode_def intro!: keptI split: if_splits prod.splits option.splits)

lemma session_kept_deadline_stage: "sampler_deadline m s = (m', s') \<Longrightarrow> kept_or_closed s s'"
  by (auto simp: sampler_deadline_def Let_def intro: keptI session_kept_close session_kept_trans [OF session_kept_close session_kept_close] split: if_splits)

lemma session_kept_compliant: "sampler_compliant L m s = Some (m', s') \<Longrightarrow> kept_or_closed s s'"
  by (auto simp: sampler_compliant_def compliant_tick_def Let_def intro!: keptI split: if_splits Option.bind_splits)

lemma session_kept_drain: "sampler_drain m s = (m', s') \<Longrightarrow> kept_or_closed s s'"
  by (auto simp: sampler_drain_def drain_cancel_def switch_for_def request_mode_def Let_def intro!: keptI
      split: list.splits if_splits option.splits)

lemma session_kept_recheck: "sampler_recheck i m s = (m', s') \<Longrightarrow> kept_or_closed s s'"
  by (auto simp: sampler_recheck_def intro!: keptI split: if_splits)

lemma gains_for_frame: "gains_for g s = Inr s' \<Longrightarrow> sv_session s' = sv_session s \<and> sv_stream_open s' = sv_stream_open s"
  by (auto simp: gains_for_def apply_impedance_gains_def split: if_splits sum.splits)

lemma session_kept_submit: "sampler_submit i m s = Inr (m', s') \<Longrightarrow> kept_or_closed s s'"
  by (auto simp: sampler_submit_def Let_def intro!: keptI dest: gains_for_frame split: prod.splits if_splits sum.splits)

lemma session_kept_tick: "sampler_tick m s = Some (m', s') \<Longrightarrow> kept_or_closed s s'"
  by (auto simp: sampler_tick_def publish_feedback_def Let_def intro!: keptI split: if_splits Option.bind_splits option.splits)

lemma session_kept_sampler: "sampler_step L m s = Some (Inr (m', s')) \<Longrightarrow> kept_or_closed s s'"
  by (cases "sm_pc m")
    (auto simp: sampler_step_def intro: session_kept_top session_kept_halt_stage session_kept_deadline_stage session_kept_compliant session_kept_drain session_kept_recheck session_kept_submit session_kept_tick)

lemma session_kept_clear: "kept_or_closed s (snd (clear_contact s))"
  by (auto simp: clear_contact_def line_up_position_def request_mode_def Let_def intro: keptI session_kept_cong [OF session_kept_halt] split: option.split)

lemma session_kept_internal:
  assumes "internal_step L d d'" and "dv_opens d = []"
  shows "kept_or_closed (dv_sup d) (dv_sup d') \<and> dv_opens d' = []"
  using assms(1)
proof cases
  case (sampler m s)
  then show ?thesis using session_kept_sampler assms(2) by simp
next
  case (pump p s)
  then show ?thesis using assms(2) by (auto simp: pump_step_def Let_def intro!: keptI split: option.splits if_splits)
next
  case (drop_finish n)
  have "kept_or_closed (dv_sup d) (Supervisor.drop_finish (dv_sup d))"
    unfolding drop_finish_def line_up_position_def request_mode_def by (rule session_kept_cong [OF session_kept_halt]) simp_all
  then show ?thesis using drop_finish assms(2) by (simp add: on_sup_def)
next
  case clear
  then show ?thesis using session_kept_clear assms(2) by (simp add: on_sup_def)
qed (use assms(2) in \<open>auto simp: crash_def on_sup_def link_up_def drop_begin_def rt_change_def intro: keptI\<close>)

text \<open>Half the clamp of a joint.\<close>

lemma half_limit: "i < 7 \<Longrightarrow> \<exists>l. vnth (tp_torque_limit torque_params0) i = Fin l \<and> 9 \<le> l"
  by (auto simp: torque_params0_def default_torque_limit_def less_Suc_eq numeral_eq_Suc vnth_def)

definition near_entry :: "stream_options \<Rightarrow> jointvec \<Rightarrow> jointvec \<Rightarrow> bool" where
  "near_entry c entry q \<longleftrightarrow> (\<forall>i < 7. \<bar>dval (vnth q i) - dval (vnth entry i)\<bar> \<le> (if int i = sc_joint c then 1 / 5 else 0))"

definition half_clamped :: "int \<Rightarrow> jointvec \<Rightarrow> bool" where
  "half_clamped j u \<longleftrightarrow> (\<forall>i < 7. \<exists>x l. vnth u i = Fin x \<and> vnth (tp_torque_limit torque_params0) i = Fin l \<and>
     \<bar>x\<bar> \<le> (if int i = j then l / 2 else 0))"

definition asks_little :: "stream_options \<Rightarrow> dynamics \<Rightarrow> jointvec \<Rightarrow> streamed \<Rightarrow> bool" where
  "asks_little c dyn entry x \<longleftrightarrow>
     (case x of StPosition sp \<Rightarrow> near_entry c entry (js_values sp)
      | StPose sp \<Rightarrow> \<exists>q. ps_pose sp = dyn_fk dyn q \<and> near_entry c entry q
      | StTorque sp \<Rightarrow> half_clamped (sc_joint c) (js_values sp))"

lemma half_clampedI:
  assumes "0 \<le> j" "j < 7" "u = Fin x" "\<not> Fin (1 / 2) * vnth (tp_torque_limit torque_params0) (nat j) < abs u"
  shows "half_clamped j (vupd vzero (nat j) u)"
  unfolding half_clamped_def
proof (intro allI impI)
  fix i :: nat assume "i < 7"
  then show "\<exists>x l. vnth (vupd vzero (nat j) u) i = Fin x \<and> vnth (tp_torque_limit torque_params0) i = Fin l \<and> \<bar>x\<bar> \<le> (if int i = j then l / 2 else 0)"
    using half_limit [of i] assms by auto
qed

text \<open>What the program asks for.\<close>

lemma sc_asks_little:
  assumes acc: "\<not> sc_refused c" and "sc_delta c = Fin d" "sc_tau c = Fin u" "vfinite entry"
  shows "asks_little c dyn entry (sc_setpoint c dyn entry)"
proof -
  have j: "0 \<le> sc_joint c" "nat (sc_joint c) < 7" and d: "\<bar>d\<bar> \<le> 1 / 5" using acc assms(2) by (auto simp: sc_refused_def)
  have "near_entry c entry (sc_moved c entry)"
  proof -
    obtain y where "vnth entry (nat (sc_joint c)) = Fin y" using assms(4) j(2) vfiniteD isfinite_iff by blast
    then show ?thesis using j d assms(2) by (auto simp: sc_moved_def near_entry_def)
  qed
  moreover have "half_clamped (sc_joint c) (vupd vzero (nat (sc_joint c)) (sc_tau c))" if "sc_kind c = SkJointTorque"
    using that j acc assms(3) by (intro half_clampedI) (auto simp: sc_refused_def)
  ultimately show ?thesis by (auto simp: sc_setpoint_def asks_little_def split: setpoint_kind.split)
qed

text \<open>What stays true beside the driver: nobody else opens, and the session is the program's, open or closed.\<close>

definition sc_inv :: "stream_options \<Rightarrow> driver \<Rightarrow> bool" where
  "sc_inv c d \<longleftrightarrow> dv_opens d = [] \<and> sv_stream_open (dv_sup d) = st_open (sv_session (dv_sup d)) \<and>
     st_kind (sv_session (dv_sup d)) = sc_kind c \<and> st_timeout_s (sv_session (dv_sup d)) = sc_timeout_s c"

lemma sc_inv_threads:
  assumes "internal_step L d d'" and "sc_inv c d"
  shows "sc_inv c d' \<and> (st_open (sv_session (dv_sup d')) \<longrightarrow> st_open (sv_session (dv_sup d)))"
  using session_kept_internal [OF assms(1)] assms(2) by (auto simp: sc_inv_def kept_or_closed_def session_close_def)

lemma sc_inv_wake:
  assumes "sc_wake c dyn entry el d = Some d'" and inv: "sc_inv c d" and acc: "\<not> sc_refused c"
  shows "sc_inv c d' \<and> (st_open (sv_session (dv_sup d')) \<longrightarrow> st_open (sv_session (dv_sup d)))"
proof (cases "sc_sends c el d")
  case True
  then have d': "d' = on_sup (sc_send (sc_setpoint c dyn entry)) d" using assms(1) by (auto simp: sc_wake_def split: if_splits)
  show ?thesis
  proof (cases "st_open (sv_session (dv_sup d))")
    case True
    then show ?thesis using sc_send_admitted [OF True _ acc, of dyn entry] inv by (auto simp: d' sc_inv_def on_sup_def)
  next
    case False
    then show ?thesis using inv by (simp add: d' sc_inv_def on_sup_def sc_send_rejected)
  qed
next
  case False
  then show ?thesis using assms(1) inv by (auto simp: sc_wake_def split: if_splits)
qed

lemma sc_run_inv:
  assumes "sc_run L c dyn entry d0 els d" and "sc_inv c d0" and "\<not> sc_refused c"
  shows "sc_inv c d \<and> (st_open (sv_session (dv_sup d)) \<longrightarrow> st_open (sv_session (dv_sup d0)))"
  using assms(1)
proof induction
  case (threads els d d')
  then show ?case using sc_inv_threads by blast
next
  case (wake els d el d')
  then show ?case using sc_inv_wake assms(3) by blast
qed (simp add: assms(2))

text \<open>One turn of the loop.\<close>

lemma sc_turn:
  assumes "sc_wake c dyn entry el d = Some d'" and "sc_inv c d" and acc: "\<not> sc_refused c"
  shows "if sc_sends c el d
     then \<not> (sc_stream_s c \<le> el \<and> el < sc_stream_s c + sc_stale_s c) \<and>
       (if st_open (sv_session (dv_sup d)) then sv_session (dv_sup d') = (sv_session (dv_sup d))\<lparr>st_last_s := sv_now (dv_sup d)\<rparr>
        else d' = d\<lparr>dv_sup := (dv_sup d)\<lparr>sv_session := (sv_session (dv_sup d))\<lparr>st_rejected := st_rejected (sv_session (dv_sup d)) + 1\<rparr>\<rparr>\<rparr>)
     else d' = d"
proof -
  have "\<not> (sc_stream_s c \<le> el \<and> el < sc_stream_s c + sc_stale_s c)" if "sc_sends c el d"
    using that by (cases el; cases "sc_stream_s c") (auto simp: sc_sends_def phase_of_def split: if_splits)
  then show ?thesis
    using assms(1,2) sc_send_admitted [OF _ _ acc, of "dv_sup d" dyn entry]
    by (auto simp: sc_wake_def sc_inv_def on_sup_def sc_send_rejected split: if_splits)
qed

lemma sc_deadline_closes:
  assumes "sc_inv c d" and "sm_pc (dv_sampler d) = SmDeadline" and "sc_timeout_s c < sv_now (dv_sup d) - st_last_s (sv_session (dv_sup d))"
    and "sampler_step L (dv_sampler d) (dv_sup d) = Some (Inr (m, s))"
  shows "\<not> st_open (sv_session s)"
proof (cases "st_open (sv_session (dv_sup d))")
  case True
  then have "session_expired (sv_session (dv_sup d)) (sv_now (dv_sup d))" "sv_stream_open (dv_sup d)"
    using assms(1,3) by (simp_all add: session_expired_def sc_inv_def)
  then show ?thesis using assms(2,4) by (auto simp: sampler_step_def sampler_deadline_def session_close_def Let_def split: if_splits)
next
  case False
  then show ?thesis using session_kept_sampler [OF assms(4)] by (auto simp: kept_or_closed_def session_close_def)
qed

text \<open>
  Claim C27. The stream check against the driver it checks. For every accepted command line with finite
  values, on any reachable driver that is ready, stopped, without a stream or another caller opening one:
  its request opens the stream, and it asks little -- a joint setpoint displaces only the chosen joint
  from the entry configuration, by at most 0.2 rad, a pose is that of such a configuration, a torque is
  zero but on the chosen joint, there at most half the clamp. Then its loop runs beside the driver's
  threads. At every moment: a turn in the silent phase sends nothing; a setpoint sent to the open session
  restarts its deadline, one sent after the session was closed is counted as rejected and changes nothing
  else; a closed session stays closed; and the sampler closes it on finding more than \<open>--timeout\<close> gone
  since the last setpoint. So once it has looked in a silent phase longer than that -- the default is ten
  times as long -- every setpoint of the resume phase is rejected.
\<close>

theorem stream_check_admitted:
  assumes acc: "\<not> sc_refused c" and fin: "sc_delta c = Fin d" "sc_tau c = Fin u" "vfinite entry"
    and init: "supervisor_init fm deps = Inr s0" and reach: "sup_reach L (driver_init s0) dr"
    and able: "sv_ready (dv_sup dr)" "\<not> contact_latched (dv_sup dr)" "\<not> sv_in_flight (dv_sup dr)" "\<not> sv_stream_open (dv_sup dr)"
    and alone: "dv_opens dr = []"
  shows "asks_little c dyn entry (sc_setpoint c dyn entry) \<and>
    (\<exists>res s'. on_stream_open (sc_request c) (dv_sup dr) = Inr (res, s') \<and> sr_accepted res \<and> st_open (sv_session s') \<and>
      (\<forall>els d. sc_run L c dyn entry (dr\<lparr>dv_sup := s'\<rparr>) els d \<longrightarrow>
        (let s = dv_sup d; t = sv_session s in
          (\<forall>el d'. sc_wake c dyn entry el d = Some d' \<longrightarrow>
             (if sc_sends c el d
              then \<not> (sc_stream_s c \<le> el \<and> el < sc_stream_s c + sc_stale_s c) \<and>
                (if st_open t then sv_session (dv_sup d') = t\<lparr>st_last_s := sv_now s\<rparr>
                 else d' = d\<lparr>dv_sup := s\<lparr>sv_session := t\<lparr>st_rejected := st_rejected t + 1\<rparr>\<rparr>\<rparr>)
              else d' = d)) \<and>
          (\<not> st_open t \<longrightarrow> (\<forall>els' d'. sc_run L c dyn entry d els' d' \<longrightarrow> \<not> st_open (sv_session (dv_sup d')))) \<and>
          (sm_pc (dv_sampler d) = SmDeadline \<and> sc_timeout_s c < sv_now s - st_last_s t \<longrightarrow>
             (\<forall>m s'. sampler_step L (dv_sampler d) s = Some (Inr (m, s')) \<longrightarrow> \<not> st_open (sv_session s'))))))"
proof -
  have "open_allowed (sc_request c) (dv_sup dr)" using sc_request_allowed [OF acc] able by simp
  from open_accepts [OF this mirror_reach [OF init reach]] obtain res s' where o: "on_stream_open (sc_request c) (dv_sup dr) = Inr (res, s')"
    "sr_accepted res" "sv_stream_open s'" "sv_session s' = opened_session (sc_request c) (dv_sup dr)" by blast
  have open': "st_open (sv_session s')" and inv0: "sc_inv c (dr\<lparr>dv_sup := s'\<rparr>)"
    using o(3,4) alone by (simp_all add: opened_session_def sc_request_def sc_inv_def)
  show ?thesis
  proof (intro conjI sc_asks_little [OF acc fin] exI [of _ res] exI [of _ s'] o(1,2) open', unfold Let_def, intro allI impI, goal_cases)
    case (1 els d)
    then have inv: "sc_inv c d" using sc_run_inv [OF _ inv0 acc] by blast
    show ?case using sc_turn [OF _ inv acc] sc_run_inv [OF _ inv acc] sc_deadline_closes [OF inv] by blast
  qed
qed

definition demo_stream_options :: stream_options where
  "demo_stream_options = stream_options0\<lparr>op_urdf := ''arm.urdf''\<rparr>"

theorem stream_check_admitted_witness:
  "asks_little demo_stream_options zero_dynamics vzero (sc_setpoint demo_stream_options zero_dynamics vzero) \<and>
   (\<exists>res s'. on_stream_open (sc_request demo_stream_options) (dv_sup (driver_init demo_supervisor)) = Inr (res, s') \<and>
      sr_accepted res \<and> st_open (sv_session s'))"
proof -
  let ?c = demo_stream_options
  have c: "sc_delta ?c = Fin (5 / 100)" "sc_tau ?c = Fin 1" "sc_joint ?c = 6"
    by (simp_all add: demo_stream_options_def stream_options0_def run_options.defs)
  have ok: "\<not> sc_refused ?c"
    by (simp add: sc_refused_def base_refused_def demo_stream_options_def stream_options0_def run_options0_def run_options.defs pacing_of_def
        sc_kind_def sc_mode_def sc_kind_of_def sc_mode_of_def pair_supported_def)
  have q: "vfinite vzero" by simp
  have "sd_contact demo_deps = None" by (simp add: demo_deps_def)
  note st = started [OF demo_supervisor this]
  then have able: "sv_ready (dv_sup (driver_init demo_supervisor))" "\<not> contact_latched (dv_sup (driver_init demo_supervisor))"
    "\<not> sv_in_flight (dv_sup (driver_init demo_supervisor))" "\<not> sv_stream_open (dv_sup (driver_init demo_supervisor))"
    "dv_opens (driver_init demo_supervisor) = []"
    by (simp_all add: calm_def contact_latched_def driver_init_def)
  from stream_check_admitted [OF ok c(1,2) q demo_supervisor sup_reach.start able, of zero_dynamics]
  show ?thesis by blast
qed

text \<open>The default silence is ten times the default timeout.\<close>

lemma default_silence_outlasts_timeout: "sc_stale_s stream_options0 = Fin 1 \<and> sc_timeout_s stream_options0 = Fin (1 / 10)"
  by (simp add: stream_options0_def run_options.defs)

text \<open>A displacement that is not a number passes the check and is streamed.\<close>

lemma NaN_delta_streamed:
  "\<not> sc_refused (demo_stream_options\<lparr>sc_delta := NaN\<rparr>)"
  "sc_setpoint (demo_stream_options\<lparr>sc_delta := NaN\<rparr>) dyn entry = StPosition sp \<Longrightarrow> vnth (js_values sp) 6 = NaN"
  by (auto simp: sc_refused_def base_refused_def demo_stream_options_def stream_options0_def run_options0_def run_options.defs pacing_of_def
      sc_kind_def sc_mode_def sc_kind_of_def sc_mode_of_def pair_supported_def sc_setpoint_def sc_moved_def)

text \<open>The program does not know a pair the driver supports.\<close>

lemma pose_with_position_accepted: "\<not> sc_refused (demo_stream_options\<lparr>sc_kind_s := ''pose'', sc_mode_s := ''position''\<rparr>)"
  by (simp add: sc_refused_def base_refused_def demo_stream_options_def stream_options0_def run_options0_def run_options.defs pacing_of_def
      sc_kind_def sc_mode_def sc_kind_of_def sc_mode_of_def pair_supported_def)

subsection \<open>What joint\_torque\_check publishes\<close>

text \<open>
  Every torque it sets is zero but on the chosen joint, where it is at most half the clamp; and none is set
  once \<open>--command-s\<close> is over, so that the mode's watchdog is what brings it back.
\<close>

theorem torque_check_half_clamped:
  assumes "\<not> jt_refused c" "jt_tau c = Fin u" "(el, t) \<in> set (jt_loop c ts)"
  shows "half_clamped (jt_joint c) t \<and> el < jt_command_s c"
proof -
  have "t = jt_torque c \<and> el < jt_command_s c" using assms(3) by (induction ts) (auto split: if_splits)
  moreover have "half_clamped (jt_joint c) (jt_torque c)"
    unfolding jt_torque_def using assms(1,2) by (intro half_clampedI) (auto simp: jt_refused_def)
  ultimately show ?thesis by simp
qed

end
