(* ===== verification/Telemetry_Output.thy ===== *)
theory Telemetry_Output
  imports Telemetry Text
begin

section \<open>Telemetry: draining, recording, dumping\<close>

text \<open>
  What the consumers of the telemetry do with the samples: the loop that drains the ring into the sink
  (every program under \<open>apps/\<close> runs it, a last time after the executor has stopped), the recording that
  \<open>TelemetrySink\<close> writes beside its histograms, and \<open>NanoHistogram::dump\<close>. The line for the console is left
  out: it is rounded by \<open>printf\<close>.
\<close>

subsection \<open>Draining\<close>

lemma ring_pop_shrinks: "ring_pop r = Some (s, r') \<Longrightarrow> ring_size r' < ring_size r"
proof -
  assume p: "ring_pop r = Some (s, r')"
  then have "rg_tail r \<noteq> rg_head r" and r': "r' = r\<lparr>rg_tail := rg_tail r + 1\<rparr>"
    by (auto simp: ring_pop_def Let_def split: if_splits)
  then have "ring_size r \<noteq> 0" by (simp add: ring_size_def unat_eq_0)
  then obtain m where "ring_size r = Suc m" by (cases "ring_size r") auto
  then show ?thesis using ring_size_Suc r' by simp
qed

text \<open>\<open>while (ring.pop(s)) sink.consume(s)\<close>, with no push meanwhile.\<close>

function drain_ring :: "sample_ring \<Rightarrow> telemetry_sink \<Rightarrow> sample_ring \<times> telemetry_sink" where
  "drain_ring r t = (case ring_pop r of None \<Rightarrow> (r, t) | Some (s, r1) \<Rightarrow> drain_ring r1 (sink_consume t s))"
  by pat_completeness auto

termination by (relation "measure (\<lambda>(r, t). ring_size r)") (auto dest: ring_pop_shrinks)

declare drain_ring.simps [simp del]

lemma drain_ring_contents:
  assumes "ring_ok r"
  shows "ring_contents (fst (drain_ring r t)) = [] \<and> snd (drain_ring r t) = foldl sink_consume t (ring_contents r)"
  using assms
proof (induction "ring_contents r" arbitrary: r t)
  case Nil
  then show ?case using ring_pop_empty [of r] by (simp add: drain_ring.simps)
next
  case (Cons x xs)
  obtain r1 where "ring_pop r = Some (x, r1)" "ring_ok r1" "ring_contents r1 = xs"
    using ring_pop_some [OF Cons.prems Cons.hyps(2) [symmetric]] by blast
  then show ?case using Cons.hyps(1) [of r1 "sink_consume t x"] Cons.hyps(2) [symmetric] by (simp add: drain_ring.simps [of r])
qed

lemma consumed_cycles: "ts_cycle (foldl sink_consume t xs) = foldl histogram_add (ts_cycle t) (map smp_cycle_ns xs)"
  by (induction xs arbitrary: t) (simp_all add: sink_consume_def)

lemma consumed_count: "ts_n (foldl sink_consume t xs) = ts_n t + of_nat (length xs)"
  by (induction xs arbitrary: t) (simp_all add: sink_consume_def)

text \<open>
  Claim C39. A program's report is made from every sample its ring accepted, in order: however the real-time
  loop's pushes and the drain thread's pops interleave, once the loop has stopped the final drain leaves
  the ring empty and the sink as if it had consumed exactly the accepted samples. The cycle-time
  histogram is theirs and the counter is their number (modulo the 64 bits of the counter). It terminates.
\<close>

theorem report_of_accepted_samples:
  assumes "n \<le> 2 ^ 62" and "ring_run ops (ring_init n) = (accepted, popped, r)"
  shows "let (r', sink) = drain_ring r (foldl sink_consume telemetry_sink0 popped)
     in ring_contents r' = [] \<and> sink = foldl sink_consume telemetry_sink0 accepted \<and>
        ts_cycle sink = histogram_of (map smp_cycle_ns accepted) \<and> ts_n sink = of_nat (length accepted)"
proof -
  have "ring_ok r \<and> ring_contents (ring_init n) @ accepted = popped @ ring_contents r"
    using ring.run_fifo [OF ring_init_ok(1) [OF assms(1)], of ops] assms(2) by (simp add: ring_run_def)
  then have ok: "ring_ok r" and acc: "accepted = popped @ ring_contents r" using ring_init_ok(2) [OF assms(1)] by auto
  have "snd (drain_ring r (foldl sink_consume telemetry_sink0 popped)) = foldl sink_consume telemetry_sink0 accepted"
    using drain_ring_contents [OF ok] acc by simp
  then show ?thesis
    using drain_ring_contents [OF ok] consumed_cycles [of telemetry_sink0 accepted] consumed_count [of telemetry_sink0 accepted]
    by (simp add: split_beta Let_def histogram_of_def) (simp add: telemetry_sink0_def)
qed

theorem report_of_accepted_samples_witness:
  "\<exists>accepted popped r. ring_run [Some cycle_sample0, None, Some (cycle_sample0\<lparr>smp_cycle_ns := 900\<rparr>)] (ring_init 3) = (accepted, popped, r) \<and>
     ts_cycle (snd (drain_ring r (foldl sink_consume telemetry_sink0 popped))) = histogram_of (map smp_cycle_ns accepted)"
proof -
  obtain accepted popped r where r: "ring_run [Some cycle_sample0, None, Some (cycle_sample0\<lparr>smp_cycle_ns := 900\<rparr>)] (ring_init 3) = (accepted, popped, r)"
    using prod_cases3 by blast
  from report_of_accepted_samples [OF _ this] r show ?thesis by (auto simp: Let_def split_beta)
qed

subsection \<open>The recording\<close>

record csv_sink =
  cs_sink :: telemetry_sink
  cs_csv :: "string option"

definition csv_header :: string where
  "csv_header = ''cycle_index,wake_jitter_ns,comm_ns,compute_ns,cycle_ns,flags'' @ [CHR 0x0A]"

definition csv_cells :: "cycle_sample \<Rightarrow> string list" where
  "csv_cells s = [dec_nat (unat (smp_cycle_index s)), dec_nat (unat (smp_wake_jitter_ns s)), dec_nat (unat (smp_comm_ns s)),
     dec_nat (unat (smp_compute_ns s)), dec_nat (unat (smp_cycle_ns s)), dec_nat (unat (smp_flags s))]"

definition csv_row :: "cycle_sample \<Rightarrow> string" where
  "csv_row s = separated_by (CHR '','') (csv_cells s) @ [CHR 0x0A]"

text \<open>\<open>opens\<close>: whether \<open>fopen\<close> succeeds; a file that does not open is silently not written.\<close>

definition sink_open :: "bool \<Rightarrow> string \<Rightarrow> csv_sink" where
  "sink_open opens path = \<lparr>cs_sink = telemetry_sink0, cs_csv = (if path \<noteq> [] \<and> opens then Some csv_header else None)\<rparr>"

definition csv_consume :: "csv_sink \<Rightarrow> cycle_sample \<Rightarrow> csv_sink" where
  "csv_consume c s = \<lparr>cs_sink = sink_consume (cs_sink c) s, cs_csv = map_option (\<lambda>f. f @ csv_row s) (cs_csv c)\<rparr>"

text \<open>Reading a row back.\<close>

definition read_sample :: "string \<Rightarrow> cycle_sample option" where
  "read_sample line =
     (case getlines (CHR '','') line of
        [a, b, c, d, e, f] \<Rightarrow> Some \<lparr>smp_cycle_index = of_nat (undec_nat a), smp_wake_jitter_ns = of_nat (undec_nat b),
          smp_comm_ns = of_nat (undec_nat c), smp_compute_ns = of_nat (undec_nat d), smp_cycle_ns = of_nat (undec_nat e),
          smp_flags = of_nat (undec_nat f)\<rparr>
      | _ \<Rightarrow> None)"

lemma dec_nat_plain: "c \<notin> set (dec_nat n)" if "(of_char c :: nat) < 48"
  using dec_nat_chars that by fastforce

lemma comma_newline_small: "(of_char (CHR '','') :: nat) < 48" "(of_char (CHR 0x0A) :: nat) < 48"
  by code_simp+

lemma separated_chars: "c \<in> set (separated_by sep ps) \<Longrightarrow> c = sep \<or> (\<exists>p \<in> set ps. c \<in> set p)"
  by (induction sep ps rule: separated_by.induct) auto

lemma read_csv_cells: "read_sample (separated_by (CHR '','') (csv_cells s)) = Some s"
proof -
  have "getlines (CHR '','') (separated_by (CHR '','') (csv_cells s)) = csv_cells s"
    using dec_nat_plain comma_newline_small by (subst getlines_separated) (auto simp: csv_cells_def)
  then show ?thesis by (cases s) (simp add: read_sample_def csv_cells_def)
qed

lemma csv_lines:
  "cs_csv (foldl csv_consume c xs) = map_option (\<lambda>f. f @ ended_by (CHR 0x0A) (map (\<lambda>s. separated_by (CHR '','') (csv_cells s)) xs)) (cs_csv c)"
proof (induction xs arbitrary: c)
  case Nil
  then show ?case by (cases "cs_csv c") (simp_all add: ended_by_def)
next
  case (Cons x xs)
  then show ?case by (cases "cs_csv c") (simp_all add: csv_consume_def csv_row_def ended_by_def)
qed

text \<open>
  The recording of a run reads back: the file is the header line and one line per consumed
  sample, and reading the cells of each line as decimal numbers gives the samples again, every field in
  its column and at full width, in order.
\<close>

theorem recording_reads_back:
  assumes "path \<noteq> []"
  shows "\<exists>content lines. cs_csv (foldl csv_consume (sink_open True path) samples) = Some content \<and>
     getlines (CHR 0x0A) content = butlast csv_header # lines \<and> map read_sample lines = map Some samples"
proof -
  let ?lines = "map (\<lambda>s. separated_by (CHR '','') (csv_cells s)) samples"
  have nl: "CHR 0x0A \<notin> set p" if "p \<in> set ?lines" for p
    using that separated_chars [of "CHR 0x0A" "CHR '',''"] dec_nat_plain [OF comma_newline_small(2)] by (fastforce simp: csv_cells_def)
  have h: "csv_header = butlast csv_header @ [CHR 0x0A]" "CHR 0x0A \<notin> set (butlast csv_header)" by (simp_all add: csv_header_def)
  have "getlines (CHR 0x0A) (csv_header @ ended_by (CHR 0x0A) ?lines) = butlast csv_header # getlines (CHR 0x0A) (ended_by (CHR 0x0A) ?lines)"
    using getlines_piece [OF h(2)] h(1) by (metis append.assoc append_Cons append_Nil)
  also have "getlines (CHR 0x0A) (ended_by (CHR 0x0A) ?lines) = ?lines" using nl by (intro getlines_ended) blast
  finally show ?thesis using assms
    by (intro exI [of _ "csv_header @ ended_by (CHR 0x0A) ?lines"] exI [of _ ?lines])
       (simp add: csv_lines sink_open_def read_csv_cells)
qed

theorem recording_reads_back_witness:
  "\<exists>content lines. cs_csv (foldl csv_consume (sink_open True ''/tmp/bench.csv'') [cycle_sample0\<lparr>smp_flags := 5\<rparr>]) = Some content \<and>
     getlines (CHR 0x0A) content = butlast csv_header # lines \<and> map read_sample lines = [Some (cycle_sample0\<lparr>smp_flags := 5\<rparr>)]"
  using recording_reads_back [of "''/tmp/bench.csv''" "[cycle_sample0\<lparr>smp_flags := 5\<rparr>]"] by simp

subsection \<open>The dump of a histogram\<close>

text \<open>
  The line buffer holds 63 characters; \<open>snprintf\<close> would cut a longer line. For bucket 63 the second shift
  would be by the width of the type, which is undefined.
\<close>

definition dump_cells :: "nat \<Rightarrow> 64 word \<Rightarrow> string list" where
  "dump_cells k n = [dec_nat (unat (push_bit k 1 :: 64 word)), dec_nat (unat (push_bit (k + 1) 1 :: 64 word)), dec_nat (unat n)]"

definition dump_line :: "nat \<Rightarrow> 64 word \<Rightarrow> string" where
  "dump_line k n = take 63 (separated_by (CHR '','') (dump_cells k n) @ [CHR 0x0A])"

definition dump_header :: string where
  "dump_header = ''lo,hi,count''"

definition histogram_dump :: "nano_histogram \<Rightarrow> string" where
  "histogram_dump h =
     foldl (\<lambda>out k. if nh_buckets h ! k = 0 then out else out @ dump_line k (nh_buckets h ! k)) (dump_header @ [CHR 0x0A]) [0..<64]"

lemma length_dec_nat: "n < 10 ^ m \<Longrightarrow> 0 < m \<Longrightarrow> length (dec_nat n) \<le> m"
proof (induction n arbitrary: m rule: dec_nat.induct)
  case (1 n)
  show ?case
  proof (cases "n < 10")
    case False
    then obtain j where j: "m = Suc j" "0 < j" using 1(2,3) by (cases m; cases "m - 1") auto
    then have "n div 10 < 10 ^ j" using 1(2) by (simp add: less_mult_imp_div_less mult.commute)
    then show ?thesis using 1(1) [OF False] False j by (subst dec_nat.simps) simp
  qed (use 1(3) in \<open>simp add: dec_nat.simps [of n]\<close>)
qed

lemma dec_word_length: "length (dec_nat (unat (w :: 64 word))) \<le> 20"
proof (rule length_dec_nat)
  show "unat w < 10 ^ 20" using unsigned_less [of w, where ?'a = nat] by simp
qed simp

lemma dump_line_whole: "dump_line k n = separated_by (CHR '','') (dump_cells k n) @ [CHR 0x0A]"
  using dec_word_length [of "push_bit k 1"] dec_word_length [of "push_bit (k + 1) 1"] dec_word_length [of n]
  by (simp add: dump_line_def dump_cells_def)

lemma histogram_dump_lines:
  "histogram_dump h = ended_by (CHR 0x0A) (dump_header #
     map (\<lambda>k. separated_by (CHR '','') (dump_cells k (nh_buckets h ! k))) (filter (\<lambda>k. nh_buckets h ! k \<noteq> 0) [0..<64]))"
proof -
  have "foldl (\<lambda>out k. if nh_buckets h ! k = 0 then out else out @ dump_line k (nh_buckets h ! k)) out ks =
      out @ ended_by (CHR 0x0A) (map (\<lambda>k. separated_by (CHR '','') (dump_cells k (nh_buckets h ! k))) (filter (\<lambda>k. nh_buckets h ! k \<noteq> 0) ks))"
    for out ks by (induction ks arbitrary: out) (simp_all add: ended_by_def dump_line_whole)
  then show ?thesis by (simp only: histogram_dump_def) (simp add: ended_by_def)
qed

lemma in_bucket_bound: "in_bucket xs k \<le> length xs"
  by (simp add: in_bucket_def)

lemma in_bucket_high: "32 \<le> k \<Longrightarrow> in_bucket xs k = 0"
  unfolding in_bucket_def using bucket_of_bounds(1) by (simp add: filter_empty_conv) (metis leD)

text \<open>
  The dump of a histogram lists its samples: one line for each power of two \<open>2^k\<close> that has
  samples, in order, with the bounds \<open>2^k\<close> and \<open>2^(k+1)\<close> and the number of the samples in between (those of
  0 ns counted with 1 ns). No line is cut by the 64-byte buffer, and no bucket is reached for which the
  upper bound would not fit.
\<close>

theorem dump_lists_samples:
  assumes "length xs < 2 ^ 64"
  shows "getlines (CHR 0x0A) (histogram_dump (histogram_of xs)) = dump_header #
     map (\<lambda>k. separated_by (CHR '','') [dec_nat (2 ^ k), dec_nat (2 ^ (k + 1)),
            dec_nat (length (filter (\<lambda>x. (if x = 0 then k = 0 else 2 ^ k \<le> unat x \<and> unat x < 2 ^ (k + 1))) xs))])
       (filter (\<lambda>k. \<exists>x \<in> set xs. (if x = 0 then k = 0 else 2 ^ k \<le> unat x \<and> unat x < 2 ^ (k + 1))) [0..<32])"
proof -
  let ?h = "histogram_of xs" and ?in = "\<lambda>k x. (if x = 0 then k = 0 else 2 ^ k \<le> unat x \<and> unat (x :: 32 word) < 2 ^ (k + 1))"
  have iff: "bucket_of x = k \<longleftrightarrow> ?in k x" for x k
  proof (cases "x = 0")
    case False
    have "j = k" if "2 ^ j \<le> unat x" "unat x < 2 ^ Suc j" "2 ^ k \<le> unat x" "unat x < 2 ^ Suc k" for j
      using that by (metis le_less_trans linorder_neqE_nat not_less_eq numeral_One one_less_numeral_iff power_strict_increasing_iff semiring_norm(76))
    then show ?thesis using bucket_of_bounds(2) [OF False] False by auto
  qed (auto simp: bucket_of_def)
  have count: "in_bucket xs k = length (filter (?in k) xs)" for k by (simp only: in_bucket_def iff)
  have b: "nh_buckets ?h ! k = of_nat (in_bucket xs k)" if "k < 64" for k using histogram_of_counts [of xs] that by simp
  have small: "in_bucket xs k < 2 ^ 64" for k using in_bucket_bound [of xs k] assms by simp
  have u: "unat (nh_buckets ?h ! k) = in_bucket xs k" if "k < 64" for k using b [OF that] small [of k] by (simp add: unat_of_nat)
  have ne: "nh_buckets ?h ! k \<noteq> 0 \<longleftrightarrow> in_bucket xs k \<noteq> 0" if "k < 64" for k using u [OF that] unat_eq_0 by metis
  have "filter (\<lambda>k. nh_buckets ?h ! k \<noteq> 0) [0..<64] = filter (\<lambda>k. in_bucket xs k \<noteq> 0) [0..<64]"
    by (rule filter_cong [OF refl]) (use ne in simp)
  also have "\<dots> = filter (\<lambda>k. in_bucket xs k \<noteq> 0) ([0..<32] @ [32..<64])" 
    by (rule arg_cong [of _ _ "filter (\<lambda>k. in_bucket xs k \<noteq> 0)"]) (use upt_add_eq_append [of 0 32 32] in \<open>simp del: upt_rec_numeral\<close>)
  also have "\<dots> = filter (\<lambda>k. in_bucket xs k \<noteq> 0) [0..<32]" by (simp only: filter_append) (simp add: filter_empty_conv in_bucket_high)
  also have "\<dots> = filter (\<lambda>k. \<exists>x \<in> set xs. ?in k x) [0..<32]" by (rule filter_cong [OF refl]) (simp add: count filter_empty_conv)
  finally have ks: "filter (\<lambda>k. nh_buckets ?h ! k \<noteq> 0) [0..<64] = filter (\<lambda>k. \<exists>x \<in> set xs. ?in k x) [0..<32]" .
  have pow: "unat (push_bit k 1 :: 64 word) = 2 ^ k" if "k < 64" for k
    using unat_of_nat_small [of "2 ^ k"] power_strict_increasing [OF that, of "2 :: nat"] by (simp add: push_bit_eq_mult)
  have cells: "dump_cells k (nh_buckets ?h ! k) = [dec_nat (2 ^ k), dec_nat (2 ^ (k + 1)), dec_nat (length (filter (?in k) xs))]"
    if "k < 32" for k using that pow [of k] pow [of "k + 1"] u [of k] count [of k] by (simp add: dump_cells_def)
  have nl: "CHR 0x0A \<notin> set p" if "p \<in> set (dump_header # map (\<lambda>k. separated_by (CHR '','') (dump_cells k (nh_buckets ?h ! k))) ks)" for p ks
    using that separated_chars [of "CHR 0x0A" "CHR '',''"] dec_nat_plain [OF comma_newline_small(2)]
    by (fastforce simp: dump_cells_def dump_header_def)
  have "getlines (CHR 0x0A) (histogram_dump ?h) = dump_header #
      map (\<lambda>k. separated_by (CHR '','') (dump_cells k (nh_buckets ?h ! k))) (filter (\<lambda>k. \<exists>x \<in> set xs. ?in k x) [0..<32])"
    unfolding histogram_dump_lines ks by (rule getlines_ended) (use nl in blast)
  also have "\<dots> = dump_header # map (\<lambda>k. separated_by (CHR '','') [dec_nat (2 ^ k), dec_nat (2 ^ (k + 1)), dec_nat (length (filter (?in k) xs))])
      (filter (\<lambda>k. \<exists>x \<in> set xs. ?in k x) [0..<32])"
    by (intro arg_cong [of _ _ "(#) dump_header"] map_cong refl) (use cells in simp)
  finally show ?thesis .
qed

theorem dump_lists_samples_witness:
  "getlines (CHR 0x0A) (histogram_dump (histogram_of [0, 5])) = [''lo,hi,count'', ''1,2,1'', ''4,8,1'']"
proof -
  have k: "[0..<32] = [0, 1, 2] @ [3..<32 :: nat]" using upt_add_eq_append [of 0 3 29] by (simp add: upt_rec)
  have no: "\<not> (2 ^ k \<le> (5 :: nat))" if "k \<in> set [3..<32]" for k :: nat
    using that power_increasing [of 3 k "2 :: nat"] by (simp del: upt_rec_numeral)
  have "filter (\<lambda>k. \<exists>x \<in> set [0, 5 :: 32 word]. (if x = 0 then k = 0 else 2 ^ k \<le> unat x \<and> unat x < 2 ^ (k + 1))) [0..<32] = [0, 2]"
    unfolding k filter_append using no by (simp add: filter_empty_conv)
  note f = this
  have d: "dec_nat 1 = ''1''" "dec_nat 2 = ''2''" "dec_nat 4 = ''4''" "dec_nat 8 = ''8''" by code_simp+
  have "length [0, 5 :: 32 word] < 2 ^ 64" by simp
  from dump_lists_samples [OF this, unfolded f] show ?thesis by (simp add: d d(1) [simplified One_nat_def] dump_header_def)
qed

end
