(* ===== verification/Benchmarks.thy ===== *)
theory Benchmarks
  imports Command_Line Velocity_Mode Torque_Mode Telemetry_Output
begin

section \<open>The benchmarks\<close>

text \<open>
  The four programs \<open>apps/benchmark_*.cpp\<close>: their options and checks, the parameters they give the mode
  they time, and what their target threads set. What they print of the measurements is left out. A
  wake-up of a thread is the time since it started.
\<close>

subsection \<open>The thread that ends the run\<close>

text \<open>
  \<open>--duration\<close> in whole nanoseconds; none when not positive. (A conversion that has no 64-bit value is
  taken as the least one.) The thread polls every 10 ms; the result is whether it sets the stop flag,
  which it may find set.
\<close>

definition run_deadline :: "dbl \<Rightarrow> int option" where
  "run_deadline duration_s =
     (if Fin 0 < duration_s
      then Some (case duration_s * Fin (10 ^ 9) of Fin x \<Rightarrow> if \<lfloor>x\<rfloor> < 2 ^ 63 then \<lfloor>x\<rfloor> else - (2 ^ 63) | _ \<Rightarrow> - (2 ^ 63))
      else None)"

fun deadline_watch :: "int \<Rightarrow> (int \<times> bool) list \<Rightarrow> bool" where
  "deadline_watch deadline [] = False"
| "deadline_watch deadline ((now, stopped) # rest) =
     (if stopped then False else if deadline \<le> now then True else deadline_watch deadline rest)"

lemma deadline_watch_iff: "deadline_watch d ts \<longleftrightarrow> list_ex (\<lambda>x. d \<le> fst x) (takeWhile (\<lambda>x. \<not> snd x) ts)"
  by (induction d ts rule: deadline_watch.induct) simp_all

subsection \<open>Gravity compensation\<close>

record grav_options = run_options +
  gc_scale :: dbl
  gc_damping :: dbl
  gc_limit_override :: jointvec
  gc_limit_set :: bool

definition grav_options0 :: grav_options where
  "grav_options0 = run_options.extend (run_options0 (Fin 10))
     \<lparr>gc_scale = Fin 1, gc_damping = Fin 0, gc_limit_override = vzero, gc_limit_set = False\<rparr>"

definition bench_names :: "string list" where
  "bench_names = model_names @ [''--duration'', ''--csv'']"

definition gc_table :: "library \<Rightarrow> string \<Rightarrow> grav_options opt" where
  "gc_table lb a =
     (if a = ''--scale'' then num_opt lb (\<lambda>x c. c\<lparr>gc_scale := x\<rparr>)
      else if a = ''--damping'' then num_opt lb (\<lambda>x c. c\<lparr>gc_damping := x\<rparr>)
      else if a = ''--torque-limit'' then vec_opt lb (\<lambda>v c. c\<lparr>gc_limit_override := v, gc_limit_set := True\<rparr>)
      else shared_opt lb (bench_names @ [''--dry-run'']) a)"

definition gc_start :: "library \<Rightarrow> string list \<Rightarrow> ended + (grav_options \<times> dynamics \<times> connection)" where
  "gc_start lb argv = start_program lb (gc_table lb) base_refused grav_options0 argv"

text \<open>The conversation of all four; two of them have no dry run.\<close>

definition bench_conversation :: conversation where
  "bench_conversation = \<lparr>cv_dry_loop = True, cv_reads_entry = False, cv_stop_code = None\<rparr>"

definition gc_session :: "'t transport_ops \<Rightarrow> nat \<Rightarrow> (joint_feedback \<Rightarrow> 't \<Rightarrow> int option \<times> 't) \<Rightarrow> grav_options \<Rightarrow> 't \<Rightarrow> (ended \<times> 't) option" where
  "gc_session ops n run c = run_program ops bench_conversation n False run c"

text \<open>The largest absolute residual the dry run shows.\<close>

definition gc_max_residual :: "jointvec \<Rightarrow> jointvec \<Rightarrow> dbl" where
  "gc_max_residual tau tau_g =
     foldl (\<lambda>m i. let res = vnth tau i - vnth tau_g i in if m < abs res then abs res else m) (Fin 0) [0..<7]"

definition gc_params :: "grav_options \<Rightarrow> torque_params" where
  "gc_params c =
     (let p = torque_params0\<lparr>tp_scale := gc_scale c, tp_damping := gc_damping c\<rparr>
      in if gc_limit_set c then p\<lparr>tp_torque_limit := gc_limit_override c\<rparr> else p)"

text \<open>The mode from its entry on: each cycle's feedback with the command computed for it.\<close>

fun gc_cycles :: "torque_mode \<Rightarrow> (joint_feedback \<times> dbl) list \<Rightarrow> (joint_feedback \<times> joint_command) list" where
  "gc_cycles m [] = []"
| "gc_cycles m ((fb, dt) # rest) = (let (m1, out) = tm_compute m fb dt joint_command0 in (fb, out) # gc_cycles m1 rest)"

definition gc_run :: "grav_options \<Rightarrow> dynamics \<Rightarrow> (joint_feedback \<times> dbl) list \<Rightarrow> (joint_feedback \<times> joint_command) list" where
  "gc_run c dyn cycles = gc_cycles (tm_on_enter (tm_init dyn (gc_params c))) cycles"

text \<open>Nobody sets a torque: the mode stays without a target, stale or not.\<close>

definition untargeted :: "torque_mode \<Rightarrow> bool" where
  "untargeted m \<longleftrightarrow> tm_target m = vzero \<and> tm_applied m = vzero \<and> wd_count (tm_wd m) = wd_last_seen (tm_wd m)"

lemma decay_zero [simp]: "decay_joint fr (Fin 0) (Fin 0) = Fin 0"
  by (cases fr) (auto simp: decay_joint_def Let_def)

lemma tm_apply_zero [simp]: "tm_apply p stale dt vzero vzero = vzero"
  by (auto simp: tm_apply_def Let_def intro!: vec7_eqI)

lemma plus_vzero [simp]: "v + vzero = (v :: jointvec)"
proof (rule vec7_eqI)
  fix i :: nat assume "i < 7"
  then show "vnth (v + vzero) i = vnth v i" by (cases "vnth v i") simp_all
qed

lemma untargeted_compute:
  assumes "untargeted m" and "tm_compute m fb dt out = (m1, out1)"
  shows "untargeted m1 \<and> tm_p m1 = tm_p m \<and> tm_dyn m1 = tm_dyn m \<and> jc_mode out1 = AmTorque \<and>
    jc_torque out1 = clamp_torque (tp_torque_limit (tm_p m))
      (vscale (tp_scale (tm_p m)) (dyn_gravity (tm_dyn m) (fb_q fb)) - vscale (tp_damping (tm_p m)) (fb_qd fb))"
proof -
  obtain stale wd where w: "wd_tick (tm_wd m) dt = (stale, wd)" by fastforce
  have "\<not> wd_fresh wd" "wd_count wd = wd_last_seen wd"
    using wd_tick_fresh [of "tm_wd m" dt] wd_tick_frame [of "tm_wd m" dt] assms(1) w by (auto simp: untargeted_def)
  then show ?thesis using assms w by (auto simp: tm_compute_def untargeted_def Let_def)
qed

lemma gc_cycles_commands:
  "untargeted m \<Longrightarrow> (fb, out) \<in> set (gc_cycles m cycles) \<Longrightarrow> jc_mode out = AmTorque \<and>
     jc_torque out = clamp_torque (tp_torque_limit (tm_p m))
       (vscale (tp_scale (tm_p m)) (dyn_gravity (tm_dyn m) (fb_q fb)) - vscale (tp_damping (tm_p m)) (fb_qd fb))"
proof (induction m cycles rule: gc_cycles.induct)
  case (2 m fb' dt rest)
  obtain m1 out1 where c: "tm_compute m fb' dt joint_command0 = (m1, out1)" by fastforce
  note u = untargeted_compute [OF 2(2) c]
  show ?case using 2(1) [OF c [symmetric] refl] 2(3) u c by auto
qed simp

lemma gc_limit_origin:
  assumes "gc_start lb argv = Inr (c, dyn, t)"
  shows "if ''--torque-limit'' \<in> set argv
    then tp_torque_limit (gc_params c) = default_torque_limit \<or> (\<exists>s \<in> set argv. parse_joint_vec (lb_stod lb) s = Some (tp_torque_limit (gc_params c)))
    else tp_torque_limit (gc_params c) = default_torque_limit"
proof -
  let ?P = "\<lambda>c :: grav_options. gc_limit_set c \<longrightarrow> ''--torque-limit'' \<in> set argv \<and>
      (\<exists>s \<in> set argv. parse_joint_vec (lb_stod lb) s = Some (gc_limit_override c))"
  have "keeps_on (set argv) ?P (gc_table lb a)" if "a \<in> set argv" for a
    using that unfolding gc_table_def shared_opt_def by (intro keeps_on_intros) auto
  moreover have "parse_argv (gc_table lb) argv grav_options0 = Inr c" using assms by (simp add: gc_start_def start_program_Inr_iff)
  moreover have "?P grav_options0" by (simp add: grav_options0_def run_options.defs)
  ultimately have "?P c" using parse_argv_keeps_on [of "set argv" ?P] by blast
  then show ?thesis by (auto simp: gc_params_def Let_def torque_params0_def)
qed

text \<open>
  Whatever its arguments, the gravity benchmark commands torque and nothing but the scaled
  gravity torque of the measured configuration less the damping term, clamped to the limit: nobody sets
  the mode a torque target, and the command is stale from the first timeout on, but the ramp from zero to
  zero adds nothing. The limit is the per-joint default of the mode unless \<open>--torque-limit\<close> is given, and then
  a vector that an argument names.
\<close>

theorem gravity_benchmark_commands:
  assumes "gc_start lb argv = Inr (c, dyn, t)" and "(fb, out) \<in> set (gc_run c dyn cycles)"
  shows "jc_mode out = AmTorque \<and>
    jc_torque out = clamp_torque (tp_torque_limit (gc_params c))
      (vscale (gc_scale c) (dyn_gravity dyn (fb_q fb)) - vscale (gc_damping c) (fb_qd fb)) \<and>
    (tp_torque_limit (gc_params c) = default_torque_limit \<or>
     ''--torque-limit'' \<in> set argv \<and> (\<exists>s \<in> set argv. parse_joint_vec (lb_stod lb) s = Some (tp_torque_limit (gc_params c))))"
proof -
  let ?m = "tm_on_enter (tm_init dyn (gc_params c))"
  have u: "untargeted ?m" by (simp add: untargeted_def tm_on_enter_def tm_init_def wd_defs watchdog0_def)
  have p: "tm_p ?m = gc_params c" "tm_dyn ?m = dyn" "tp_scale (gc_params c) = gc_scale c" "tp_damping (gc_params c) = gc_damping c"
    by (simp_all add: tm_on_enter_def tm_init_def gc_params_def Let_def)
  show ?thesis
    using gc_cycles_commands [OF u, of fb out cycles] assms(2) gc_limit_origin [OF assms(1)] by (auto simp: gc_run_def p split: if_splits)
qed

text \<open>A library for evaluation: the numbers it knows, and every model level and weightless.\<close>

definition demo_library :: library where
  "demo_library = \<lparr>lb_stod = (\<lambda>s. if s = ''20'' then Some (Fin 20, 2) else if s = ''0.5'' then Some (Fin (1 / 2), 3) else None),
     lb_stoi = (\<lambda>s. if s = ''3'' then Some 3 else None), lb_model = (\<lambda>_ _. Some zero_dynamics)\<rparr>"

theorem gravity_benchmark_commands_witness:
  "\<exists>c. gc_start demo_library [''--sim'', ''--urdf'', ''arm.urdf'', ''--damping'', ''0.5''] = Inr (c, zero_dynamics, ToSim) \<and>
     (\<forall>(fb, out) \<in> set (gc_run c zero_dynamics [(joint_feedback0, Fin (1 / 1000)), (joint_feedback0, Fin 1)]). jc_mode out = AmTorque)"
proof -
  let ?c = "grav_options0\<lparr>op_sim := True, op_urdf := ''arm.urdf'', gc_damping := Fin (1 / 2)\<rparr>"
  have s: "gc_start demo_library [''--sim'', ''--urdf'', ''arm.urdf'', ''--damping'', ''0.5''] = Inr (?c, zero_dynamics, ToSim)"
    by (simp add: gc_start_def start_program_def gc_table_def shared_opt_def bench_names_def model_names_def base_names_def num_opt_def
        text_opt_def demo_library_def base_refused_def pacing_of_def choose_transport_def grav_options0_def run_options0_def run_options.defs)
  then show ?thesis using gravity_benchmark_commands [OF s] by blast
qed

subsection \<open>Joint velocity\<close>

record bvel_options = run_options +
  bv_kind_s :: string
  bv_params :: velocity_params

definition bvel_options0 :: bvel_options where
  "bvel_options0 = run_options.extend (run_options0 (Fin 10)) \<lparr>bv_kind_s = ''joint'', bv_params = velocity_params0\<rparr>"

definition bv_table :: "library \<Rightarrow> string \<Rightarrow> bvel_options opt" where
  "bv_table lb a =
     (if a = ''--kind'' then text_opt (\<lambda>v c. c\<lparr>bv_kind_s := v\<rparr>)
      else if a = ''--dls-damping'' then num_opt lb (\<lambda>x c. c\<lparr>bv_params := (bv_params c)\<lparr>vp_dls_damping := x\<rparr>\<rparr>)
      else if a = ''--posture-gain'' then num_opt lb (\<lambda>x c. c\<lparr>bv_params := (bv_params c)\<lparr>vp_posture_gain := x\<rparr>\<rparr>)
      else shared_opt lb bench_names a)"

definition bv_refused :: "bvel_options \<Rightarrow> bool" where
  "bv_refused c \<longleftrightarrow> base_refused c \<or> bv_kind_s c \<notin> {''twist'', ''joint''}"

definition bv_start :: "library \<Rightarrow> string list \<Rightarrow> ended + (bvel_options \<times> dynamics \<times> connection)" where
  "bv_start lb argv = start_program lb (bv_table lb) bv_refused bvel_options0 argv"

text \<open>A wake-up of the setpoint thread, \<open>t\<close> seconds after its start.\<close>

definition bv_twist :: "real \<Rightarrow> vector6" where
  "bv_twist t = V6 (Fin (5 / 100 * cos (1 / 2 * t))) (Fin (5 / 100 * sin (1 / 2 * t))) (Fin 0) (Fin 0) (Fin 0) (Fin 0)"

definition bv_setpoint :: "bvel_options \<Rightarrow> real \<Rightarrow> velocity_mode \<Rightarrow> velocity_mode" where
  "bv_setpoint c t m =
     (if bv_kind_s c = ''twist'' then vm_set_twist_target m (bv_twist t) else vm_set_velocity_target m (vconst (Fin (5 / 100))))"

text \<open>The twist keeps its length of 0.05 m/s while it turns: it is never zero (nor of unit length).\<close>

lemma bv_twist_length: "\<exists>x y. bv_twist t = V6 (Fin x) (Fin y) (Fin 0) (Fin 0) (Fin 0) (Fin 0) \<and> x\<^sup>2 + y\<^sup>2 = (5 / 100)\<^sup>2"
proof -
  have "(5 / 100 * cos (1 / 2 * t))\<^sup>2 + (5 / 100 * sin (1 / 2 * t))\<^sup>2 = (5 / 100)\<^sup>2 * ((cos (1 / 2 * t))\<^sup>2 + (sin (1 / 2 * t))\<^sup>2)"
    by (simp only: power_mult_distrib distrib_left)
  also have "(cos (1 / 2 * t))\<^sup>2 + (sin (1 / 2 * t))\<^sup>2 = 1" by (rule sin_cos_squared_add2)
  finally show ?thesis
    unfolding bv_twist_def by (intro exI [of _ "5 / 100 * cos (1 / 2 * t)"] exI [of _ "5 / 100 * sin (1 / 2 * t)"]) simp
qed

subsection \<open>Joint impedance\<close>

record bjimp_options = run_options +
  bi_track :: bool
  bi_params :: impedance_params

definition bjimp_options0 :: bjimp_options where
  "bjimp_options0 = run_options.extend (run_options0 (Fin 10)) \<lparr>bi_track = False, bi_params = impedance_params0\<rparr>"

definition bi_table :: "library \<Rightarrow> string \<Rightarrow> bjimp_options opt" where
  "bi_table lb a =
     (if a = ''--track'' then OptFlag (\<lambda>c. c\<lparr>bi_track := True\<rparr>)
      else if a = ''--kq'' then num_opt lb (\<lambda>x c. c\<lparr>bi_params := (bi_params c)\<lparr>ip_Kq := vconst x\<rparr>\<rparr>)
      else if a = ''--zeta'' then num_opt lb (\<lambda>x c. c\<lparr>bi_params := (bi_params c)\<lparr>ip_zeta := x\<rparr>\<rparr>)
      else if a = ''--torque-limit'' then num_opt lb (\<lambda>x c. c\<lparr>bi_params := (bi_params c)\<lparr>ip_torque_limit := vconst x\<rparr>\<rparr>)
      else if a = ''--leash'' then num_opt lb (\<lambda>x c. c\<lparr>bi_params := (bi_params c)\<lparr>ip_max_tracking_error := x\<rparr>\<rparr>)
      else if a = ''--gain-ramp-s'' then num_opt lb (\<lambda>x c. c\<lparr>bi_params := (bi_params c)\<lparr>ip_gain_ramp_s := x\<rparr>\<rparr>)
      else shared_opt lb bench_names a)"

definition bi_start :: "library \<Rightarrow> string list \<Rightarrow> ended + (bjimp_options \<times> dynamics \<times> connection)" where
  "bi_start lb argv = start_program lb (bi_table lb) base_refused bjimp_options0 argv"

definition bi_amp :: real where "bi_amp = 3 / 10"
definition bi_w :: real where "bi_w = 2 * pi * (2 / 10)"

definition bi_target :: "real \<Rightarrow> joint_target" where
  "bi_target t =
     \<lparr>jt_q = vconst (Fin (bi_amp * sin (bi_w * t))), jt_qd = vconst (Fin (bi_amp * bi_w * cos (bi_w * t))),
      jt_qdd = vconst (Fin (- bi_amp * bi_w * bi_w * sin (bi_w * t))), jt_has_velocity = True, jt_has_acceleration = True\<rparr>"

text \<open>The target thread, when \<open>--track\<close> is given.\<close>

definition bi_tracked :: "bjimp_options \<Rightarrow> real list \<Rightarrow> impedance_mode \<Rightarrow> impedance_mode" where
  "bi_tracked c ts m = (if bi_track c then foldl (\<lambda>m t. im_set_joint_target m (bi_target t)) m ts else m)"

text \<open>
  The profile that \<open>--track\<close> publishes is consistent: at every time the velocity fed forward for
  each joint is the derivative of its position reference, and the acceleration that of the velocity; the
  reference stays within 0.3 rad of zero and its speed within \<open>0.12 \<pi>\<close> rad/s.
\<close>

theorem tracked_profile_consistent:
  assumes "i < 7"
  shows "((\<lambda>t. dval (vnth (jt_q (bi_target t)) i)) has_real_derivative dval (vnth (jt_qd (bi_target t)) i)) (at t) \<and>
    ((\<lambda>t. dval (vnth (jt_qd (bi_target t)) i)) has_real_derivative dval (vnth (jt_qdd (bi_target t)) i)) (at t) \<and>
    \<bar>dval (vnth (jt_q (bi_target t)) i)\<bar> \<le> 3 / 10 \<and> \<bar>dval (vnth (jt_qd (bi_target t)) i)\<bar> \<le> 12 / 100 * pi"
proof (intro conjI)
  have v: "dval (vnth (jt_q (bi_target t)) i) = bi_amp * sin (bi_w * t)" "dval (vnth (jt_qd (bi_target t)) i) = bi_amp * bi_w * cos (bi_w * t)"
    "dval (vnth (jt_qdd (bi_target t)) i) = - bi_amp * bi_w * bi_w * sin (bi_w * t)" for t
    using assms by (simp_all add: bi_target_def)
  show "((\<lambda>t. dval (vnth (jt_q (bi_target t)) i)) has_real_derivative dval (vnth (jt_qd (bi_target t)) i)) (at t)"
    unfolding v by (auto intro!: derivative_eq_intros)
  show "((\<lambda>t. dval (vnth (jt_qd (bi_target t)) i)) has_real_derivative dval (vnth (jt_qdd (bi_target t)) i)) (at t)"
    unfolding v by (auto intro!: derivative_eq_intros)
  show "\<bar>dval (vnth (jt_q (bi_target t)) i)\<bar> \<le> 3 / 10"
    using abs_sin_le_one [of "bi_w * t"] unfolding v by (simp add: bi_amp_def abs_mult)
  have w: "bi_amp * bi_w = 12 / 100 * pi" by (simp add: bi_amp_def bi_w_def)
  have "12 / 100 * pi * \<bar>cos (bi_w * t)\<bar> \<le> 12 / 100 * pi * 1"
    using abs_cos_le_one [of "bi_w * t"] by (intro mult_left_mono) simp_all
  then show "\<bar>dval (vnth (jt_qd (bi_target t)) i)\<bar> \<le> 12 / 100 * pi" unfolding v w by (simp add: abs_mult)
qed

theorem tracked_profile_consistent_witness:
  "((\<lambda>t. dval (vnth (jt_q (bi_target t)) 6)) has_real_derivative dval (vnth (jt_qd (bi_target 0)) 6)) (at 0)"
  using tracked_profile_consistent [of 6 0] by simp

subsection \<open>Cartesian impedance\<close>

record bcart_options = run_options +
  bc_params :: cart_params

definition bcart_options0 :: bcart_options where
  "bcart_options0 = run_options.extend (run_options0 (Fin 10)) \<lparr>bc_params = cart_params0\<rparr>"

definition cart_num :: "library \<Rightarrow> (dbl \<Rightarrow> cart_params \<Rightarrow> cart_params) \<Rightarrow> bcart_options opt" where
  "cart_num lb f = num_opt lb (\<lambda>x c. c\<lparr>bc_params := f x (bc_params c)\<rparr>)"

definition bc_table :: "library \<Rightarrow> string \<Rightarrow> bcart_options opt" where
  "bc_table lb a =
     (if a = ''--kx-trans'' then cart_num lb (\<lambda>x p. p\<lparr>cp_Kx := join33 (x, x, x) (tail3 (cp_Kx p))\<rparr>)
      else if a = ''--kx-rot'' then cart_num lb (\<lambda>x p. p\<lparr>cp_Kx := join33 (head3 (cp_Kx p)) (x, x, x)\<rparr>)
      else if a = ''--dx-trans'' then cart_num lb (\<lambda>x p. p\<lparr>cp_Dx := join33 (x, x, x) (tail3 (cp_Dx p))\<rparr>)
      else if a = ''--dx-rot'' then cart_num lb (\<lambda>x p. p\<lparr>cp_Dx := join33 (head3 (cp_Dx p)) (x, x, x)\<rparr>)
      else if a = ''--nullspace-kp'' then cart_num lb (\<lambda>x p. p\<lparr>cp_nullspace_kp := x\<rparr>)
      else if a = ''--nullspace-kd'' then cart_num lb (\<lambda>x p. p\<lparr>cp_nullspace_kd := x\<rparr>)
      else if a = ''--gain-ramp-s'' then cart_num lb (\<lambda>x p. p\<lparr>cp_gain_ramp_s := x\<rparr>)
      else if a = ''--pinv-damping'' then cart_num lb (\<lambda>x p. p\<lparr>cp_pinv_damping := x\<rparr>)
      else if a = ''--torque-limit'' then cart_num lb (\<lambda>x p. p\<lparr>cp_torque_limit := x\<rparr>)
      else if a = ''--no-nullspace'' then OptFlag (\<lambda>c. c\<lparr>bc_params := (bc_params c)\<lparr>cp_nullspace_on := False\<rparr>\<rparr>)
      else shared_opt lb (bench_names @ [''--dry-run'']) a)"

definition bc_start :: "library \<Rightarrow> string list \<Rightarrow> ended + (bcart_options \<times> dynamics \<times> connection)" where
  "bc_start lb argv = start_program lb (bc_table lb) base_refused bcart_options0 argv"

end
