(* ===== verification/Rt_Safety.thy ===== *)
theory Rt_Safety
  imports Rt_Executor
begin

section \<open>What a run of the executor guarantees\<close>

text \<open>
  The properties of \<open>Rt_Executor\<close>: when communication counts as lost, that a command always matches
  the actuator modes the arm is in, what a missed exchange leaves alone, and what the loop commands
  while a contact is latched.
\<close>

subsection \<open>Miss accounting\<close>

text \<open>
  A history of exchanges, newest first: \<open>True\<close> is a timeout. The link is down when the newest
  exchange timed out and either it ends a run of max_consecutive_misses timeouts, or
  max_window_misses of the last miss_window exchanges have timed out.
\<close>

definition link_down :: "executor_config \<Rightarrow> bool list \<Rightarrow> bool" where
  "link_down cfg r = (r \<noteq> [] \<and> hd r \<and>
     (ec_max_consecutive_misses cfg \<le> int (length (takeWhile id r)) \<or>
      ec_max_window_misses cfg \<le> int (length (filter id (take (nat (ec_miss_window cfg)) r)))))"

text \<open>The indices of the misses, oldest first.\<close>

fun miss_idx :: "bool list \<Rightarrow> nat list" where
  "miss_idx [] = []"
| "miss_idx (b # r) = miss_idx r @ (if b then [length r] else [])"

lemma length_miss_idx: "length (miss_idx r) = length (filter id r)"
  by (induction r) auto

lemma miss_idx_less: "i \<in> set (miss_idx r) \<Longrightarrow> i < length r"
  by (induction r) (auto split: if_splits)

lemma miss_idx_nth_less: "j < length (miss_idx r) \<Longrightarrow> miss_idx r ! j < length r"
  by (simp add: miss_idx_less)

text \<open>At least \<open>w\<close> misses among the newest \<open>m\<close>: the \<open>w\<close>-th newest is young enough.\<close>

lemma window_count:
  "w \<le> length (filter id (take m r)) \<longleftrightarrow>
     w \<le> length (miss_idx r) \<and> (w = 0 \<or> length r - miss_idx r ! (length (miss_idx r) - w) \<le> m)"
proof (induction r arbitrary: w m)
  case Nil
  then show ?case by auto
next
  case (Cons b r)
  have less: "\<And>j. j < length (miss_idx r) \<Longrightarrow> miss_idx r ! j < length r" by (rule miss_idx_nth_less)
  show ?case
  proof (cases m)
    case 0
    have "w \<noteq> 0 \<Longrightarrow> w \<le> length (miss_idx (b # r)) \<Longrightarrow>
        miss_idx (b # r) ! (length (miss_idx (b # r)) - w) < length (b # r)"
      by (rule miss_idx_nth_less) simp
    then have "w \<noteq> 0 \<Longrightarrow> w \<le> length (miss_idx (b # r)) \<Longrightarrow>
        \<not> length (b # r) - miss_idx (b # r) ! (length (miss_idx (b # r)) - w) \<le> m"
      using 0 by linarith
    with 0 show ?thesis by (cases "w = 0") (simp_all del: miss_idx.simps)
  next
    case (Suc m')
    show ?thesis
    proof (cases b)
      case False
      have "w \<noteq> 0 \<Longrightarrow> w \<le> length (miss_idx r) \<Longrightarrow> miss_idx r ! (length (miss_idx r) - w) < length r"
        by (rule less) simp
      with Suc False Cons.IH [of w m'] show ?thesis by (auto simp: Suc_diff_le)
    next
      case True
      show ?thesis
      proof (cases w)
        case (Suc w')
        have ge: "w' \<noteq> 0 \<Longrightarrow> w' \<le> length (miss_idx r) \<Longrightarrow> miss_idx r ! (length (miss_idx r) - w') < length r"
          by (rule less) simp
        have "Suc w' \<le> length (filter id (take m (b # r))) \<longleftrightarrow> w' \<le> length (filter id (take m' r))"
          using True \<open>m = Suc m'\<close> by simp
        also have "\<dots> \<longleftrightarrow> w' \<le> length (miss_idx r) \<and> (w' = 0 \<or> length r - miss_idx r ! (length (miss_idx r) - w') \<le> m')"
          by (rule Cons.IH)
        also have "\<dots> \<longleftrightarrow> Suc w' \<le> length (miss_idx (b # r)) \<and>
            length (b # r) - miss_idx (b # r) ! (length (miss_idx (b # r)) - Suc w') \<le> m"
          using True \<open>m = Suc m'\<close> ge by (cases "w' = 0") (auto simp: nth_append Suc_diff_le)
        finally show ?thesis unfolding Suc by (simp only: old.nat.distinct simp_thms)
      qed simp
    qed
  qed
qed

text \<open>The executor's counters describe the history.\<close>

definition accounts :: "executor_config \<Rightarrow> bool list \<Rightarrow> ('i, 'm) rt_state \<Rightarrow> bool" where
  "accounts cfg r s \<longleftrightarrow>
     rt_exchanges s = length r \<and> rt_misses s = int (length (takeWhile id r)) \<and>
     rt_total_misses s = length (miss_idx r) \<and> length (rt_miss_at s) = nat (ec_max_window_misses cfg) \<and>
     (\<forall>j < length (miss_idx r). length (miss_idx r) \<le> j + nat (ec_max_window_misses cfg) \<longrightarrow>
        rt_miss_at s ! (j mod nat (ec_max_window_misses cfg)) = miss_idx r ! j)"

lemma accounts_start: "executor_config_ok cfg \<Longrightarrow> accounts cfg [] (rt_start cfg s)"
  by (simp add: accounts_def rt_start_def)

lemma accounts_hit:
  "accounts cfg r s \<Longrightarrow> accounts cfg (False # r) (s\<lparr>rt_exchanges := rt_exchanges s + 1, rt_fb := fb, rt_misses := 0\<rparr>)"
  unfolding accounts_def by auto

lemma ring_other_slot:
  assumes "j < n" "n < j + (k::nat)"
  shows "j mod k \<noteq> n mod k"
proof
  assume "j mod k = n mod k"
  then have "n mod k = j mod k" ..
  then have "k dvd n - j" using assms(1) by (simp only: mod_eq_dvd_iff_nat less_imp_le_nat)
  moreover have "0 < n - j" "n - j < k" using assms by auto
  ultimately show False by (simp add: nat_dvd_not_less)
qed

lemma accounts_miss:
  fixes s :: "('i, 'm) rt_state"
  assumes a: "accounts cfg r s" and ok: "executor_config_ok cfg"
  defines "s1 \<equiv> s\<lparr>rt_exchanges := rt_exchanges s + 1, rt_misses := rt_misses s + 1\<rparr>"
  shows "accounts cfg (True # r) (note_miss (rt_exchanges s) s1)"
proof -
  let ?k = "nat (ec_max_window_misses cfg)" and ?t = "length (miss_idx r)"
  have k: "0 < ?k" using ok by (auto simp: executor_config_ok_def)
  have len: "length (rt_miss_at s) = ?k" using a by (simp add: accounts_def)
  have old: "\<forall>j < ?t. ?t \<le> j + ?k \<longrightarrow> rt_miss_at s ! (j mod ?k) = miss_idx r ! j"
    using a by (simp add: accounts_def)
  have "(rt_miss_at s)[?t mod ?k := length r] ! (j mod ?k) = (miss_idx r @ [length r]) ! j"
    if j: "j < Suc ?t" "Suc ?t \<le> j + ?k" for j
  proof (cases "j = ?t")
    case True
    then show ?thesis using k len by simp
  next
    case False
    with j have "j mod ?k \<noteq> ?t mod ?k" by (intro ring_other_slot) auto
    moreover have "j < ?t" "?t \<le> j + ?k" using False j by auto
    ultimately show ?thesis using old by (simp add: nth_append)
  qed
  then show ?thesis using a len by (simp add: accounts_def note_miss_def s1_def)
qed

lemma window_full_iff:
  assumes a: "accounts cfg (True # r) s" and ok: "executor_config_ok cfg"
  shows "window_full cfg (length r) s \<longleftrightarrow>
     ec_max_window_misses cfg \<le> int (length (filter id (take (nat (ec_miss_window cfg)) (True # r))))"
proof -
  let ?k = "nat (ec_max_window_misses cfg)" and ?L = "miss_idx (True # r)" and ?m = "nat (ec_miss_window cfg)"
  have k: "0 < ?k" "0 < ?m" using ok by (auto simp: executor_config_ok_def)
  have t: "rt_total_misses s = length ?L" "length (rt_miss_at s) = ?k" using a by (simp_all add: accounts_def)
  have "window_full cfg (length r) s \<longleftrightarrow> ?k \<le> length ?L \<and> length (True # r) - ?L ! (length ?L - ?k) \<le> ?m"
  proof (cases "?k \<le> length ?L")
    case True
    have "(length ?L - ?k) mod ?k = length ?L mod ?k" using True by (simp add: le_mod_geq)
    moreover have "\<forall>j < length ?L. length ?L \<le> j + ?k \<longrightarrow> rt_miss_at s ! (j mod ?k) = ?L ! j"
      using a unfolding accounts_def by blast
    then have "rt_miss_at s ! ((length ?L - ?k) mod ?k) = ?L ! (length ?L - ?k)"
      using True k by (simp del: miss_idx.simps) 
    ultimately have slot: "rt_miss_at s ! (length ?L mod ?k) = ?L ! (length ?L - ?k)" by simp
    have "?L ! (length ?L - ?k) < length (True # r)" using k by (intro miss_idx_nth_less) simp
    then have "int (length r - ?L ! (length ?L - ?k)) < ec_miss_window cfg \<longleftrightarrow>
        length (True # r) - ?L ! (length ?L - ?k) \<le> ?m"
      using k by (simp del: miss_idx.simps) linarith
    then show ?thesis using True slot t unfolding window_full_def by (simp del: miss_idx.simps)
  next
    case False
    then show ?thesis using t by (simp add: window_full_def)
  qed
  also have "\<dots> \<longleftrightarrow> ?k \<le> length (filter id (take ?m (True # r)))"
    using window_count [of ?k ?m "True # r"] k by simp
  also have "\<dots> \<longleftrightarrow> ec_max_window_misses cfg \<le> int (length (filter id (take ?m (True # r))))"
    by linarith
  finally show ?thesis .
qed

text \<open>The exchanges of a run, one after the other.\<close>

fun exchange_run :: "executor_config \<Rightarrow> exchange_outcome list \<Rightarrow> ('i, 'm) rt_state \<Rightarrow> exn + ('i, 'm) rt_state" where
  "exchange_run cfg [] s = Inr s"
| "exchange_run cfg (oc # ocs) s =
     (case exchange_ok cfg oc s of Inl e \<Rightarrow> Inl e | Inr (good, s') \<Rightarrow> exchange_run cfg ocs s')"

definition timed_out :: "exchange_outcome \<Rightarrow> bool" where
  "timed_out oc = (case oc of ExchangeTimeout _ \<Rightarrow> True | _ \<Rightarrow> False)"

definition answered :: "exchange_outcome \<Rightarrow> bool" where
  "answered oc = (case oc of ExchangeThrows _ \<Rightarrow> False | _ \<Rightarrow> True)"

lemma exchange_ok_accounts:
  assumes a: "accounts cfg r s" and ok: "executor_config_ok cfg" and an: "answered oc"
  shows "if link_down cfg (timed_out oc # r) then \<exists>why. exchange_ok cfg oc s = Inl (ExcCommsLost why)
         else \<exists>s'. exchange_ok cfg oc s = Inr (\<not> timed_out oc, s') \<and> accounts cfg (timed_out oc # r) s'"
proof (cases oc)
  case (ExchangeOk fb)
  have "accounts cfg (False # r) (s\<lparr>rt_exchanges := rt_exchanges s + 1, rt_fb := fb, rt_misses := 0\<rparr>)"
    using a by (rule accounts_hit)
  with ExchangeOk show ?thesis by (auto simp: exchange_ok_def timed_out_def link_down_def Let_def)
next
  case (ExchangeTimeout what)
  let ?s1 = "s\<lparr>rt_exchanges := rt_exchanges s + 1, rt_misses := rt_misses s + 1\<rparr>"
  let ?s2 = "note_miss (rt_exchanges s) ?s1"
  have acc: "accounts cfg (True # r) ?s2" using a ok by (rule accounts_miss)
  have win: "window_full cfg (rt_exchanges s) ?s2 \<longleftrightarrow>
      ec_max_window_misses cfg \<le> int (length (filter id (take (nat (ec_miss_window cfg)) (True # r))))"
    using window_full_iff [OF acc ok] a by (simp add: accounts_def)
  have mis: "rt_misses s + 1 = int (length (takeWhile id (True # r)))" using a by (simp add: accounts_def)
  have down: "link_down cfg (True # r) \<longleftrightarrow> window_full cfg (rt_exchanges s) ?s2 \<or> ec_max_consecutive_misses cfg \<le> rt_misses s + 1"
    by (subst win, subst mis) (auto simp only: link_down_def list.sel list.distinct)
  show ?thesis
  proof (cases "link_down cfg (True # r)")
    case True
    then show ?thesis using ExchangeTimeout down
      by (auto simp: exchange_ok_def timed_out_def Let_def comms_lost_def)
  next
    case False
    then show ?thesis using ExchangeTimeout down acc
      by (auto simp: exchange_ok_def timed_out_def Let_def)
  qed
next
  case (ExchangeThrows e)
  with an show ?thesis by (simp add: answered_def)
qed

lemma exchange_run_down:
  assumes "accounts cfg r s" and ok: "executor_config_ok cfg" and "\<forall>oc \<in> set ocs. answered oc"
  shows "(\<exists>s'. exchange_run cfg ocs s = Inr s') \<longleftrightarrow>
     (\<forall>n < length ocs. \<not> link_down cfg (rev (map timed_out (take (Suc n) ocs)) @ r))"
    and "exchange_run cfg ocs s = Inl e \<Longrightarrow> \<exists>why. e = ExcCommsLost why"
proof -
  have "((\<exists>s'. exchange_run cfg ocs s = Inr s') \<longleftrightarrow>
     (\<forall>n < length ocs. \<not> link_down cfg (rev (map timed_out (take (Suc n) ocs)) @ r))) \<and>
     (\<forall>e. exchange_run cfg ocs s = Inl e \<longrightarrow> (\<exists>why. e = ExcCommsLost why))"
    using assms(1,3)
  proof (induction ocs arbitrary: r s)
    case (Cons oc ocs)
    have all: "(\<forall>n < Suc (length ocs). P n) \<longleftrightarrow> P 0 \<and> (\<forall>n < length ocs. P (Suc n))" for P
      by (auto simp: less_Suc_eq_0_disj)
    from exchange_ok_accounts [OF Cons.prems(1) ok] Cons.prems(2)
    have one: "if link_down cfg (timed_out oc # r) then \<exists>why. exchange_ok cfg oc s = Inl (ExcCommsLost why)
         else \<exists>s'. exchange_ok cfg oc s = Inr (\<not> timed_out oc, s') \<and> accounts cfg (timed_out oc # r) s'"
      by simp
    show ?case
    proof (cases "link_down cfg (timed_out oc # r)")
      case True
      with one show ?thesis by (auto simp: all)
    next
      case False
      with one obtain s' where s': "exchange_ok cfg oc s = Inr (\<not> timed_out oc, s')" "accounts cfg (timed_out oc # r) s'"
        by auto
      from Cons.IH [OF s'(2)] Cons.prems(2) s'(1) False show ?thesis by (simp add: all)
    qed
  qed simp
  then show "(\<exists>s'. exchange_run cfg ocs s = Inr s') \<longleftrightarrow>
     (\<forall>n < length ocs. \<not> link_down cfg (rev (map timed_out (take (Suc n) ocs)) @ r))"
    and "exchange_run cfg ocs s = Inl e \<Longrightarrow> \<exists>why. e = ExcCommsLost why" by blast+
qed

text \<open>
  When communication is lost: over any sequence of exchanges that are answered or time out,
  the executor carries on exactly as long as no exchange completes a run of max_consecutive_misses
  timeouts or is the max_window_misses-th timeout among the last miss_window exchanges, and what it
  throws is CommsLost; the ring of miss indices decides the sliding window exactly, for every
  configuration its constructor accepts.
\<close>

theorem comms_lost_iff:
  assumes "executor_config_ok cfg" and "\<forall>oc \<in> set ocs. answered oc"
  shows "((\<exists>s'. exchange_run cfg ocs (rt_start cfg s) = Inr s') \<longleftrightarrow>
      (\<forall>n < length ocs. \<not> link_down cfg (rev (map timed_out (take (Suc n) ocs))))) \<and>
    (\<forall>e. exchange_run cfg ocs (rt_start cfg s) = Inl e \<longrightarrow> (\<exists>why. e = ExcCommsLost why))"
  using exchange_run_down [OF accounts_start [OF assms(1)] assms] by auto

lemma comms_lost_iff_witness:
  "\<forall>s :: (mode_id, driver_modes) rt_state. \<exists>s'. exchange_run executor_config0
     [ExchangeTimeout [], ExchangeOk joint_feedback0, ExchangeTimeout []] (rt_start executor_config0 s) = Inr s'"
proof
  fix s :: "(mode_id, driver_modes) rt_state"
  let ?ocs = "[ExchangeTimeout [], ExchangeOk joint_feedback0, ExchangeTimeout []]"
  have ok: "executor_config_ok executor_config0"
    by (simp add: executor_config_ok_def executor_config0_def kMaxConsecutiveTimeouts_def)
  have an: "\<forall>oc \<in> set ?ocs. answered oc" by (simp add: answered_def)
  have "\<not> link_down executor_config0 (rev (map timed_out (take (Suc n) ?ocs)))" if "n < length ?ocs" for n
  proof -
    from that have "n = 0 \<or> n = 1 \<or> n = 2" by auto
    then show ?thesis
      by (auto simp: timed_out_def link_down_def executor_config0_def kMaxConsecutiveTimeouts_def)
  qed
  then show "\<exists>s'. exchange_run executor_config0 ?ocs (rt_start executor_config0 s) = Inr s'"
    using comms_lost_iff [OF ok an, of s] by blast
qed

subsection \<open>What the parts of a cycle leave alone\<close>

lemma exchange_ok_frame:
  "exchange_ok cfg oc s = Inr (good, s') \<Longrightarrow>
     rt_requested s' = rt_requested s \<and> rt_contact s' = rt_contact s \<and> rt_modes s' = rt_modes s \<and>
     rt_active s' = rt_active s \<and> rt_cmd s' = rt_cmd s \<and> rt_actuators s' = rt_actuators s \<and>
     (\<not> good \<longrightarrow> rt_fb s' = rt_fb s)"
  by (cases oc) (auto simp: exchange_ok_def note_miss_def Let_def split: if_splits)

lemma check_fault_frame:
  "check_fault s = Inr s' \<Longrightarrow>
     rt_requested s' = rt_requested s \<and> rt_contact s' = rt_contact s \<and> rt_modes s' = rt_modes s \<and>
     rt_active s' = rt_active s \<and> rt_cmd s' = rt_cmd s \<and> rt_actuators s' = rt_actuators s \<and> rt_fb s' = rt_fb s"
  by (auto simp: check_fault_def Let_def split: if_splits)

lemma finish_cycle_frame [simp]:
  "rt_requested (finish_cycle cfg inp missed latched s) = rt_requested s"
  "rt_contact (finish_cycle cfg inp missed latched s) = rt_contact s"
  "rt_modes (finish_cycle cfg inp missed latched s) = rt_modes s"
  "rt_active (finish_cycle cfg inp missed latched s) = rt_active s"
  "rt_cmd (finish_cycle cfg inp missed latched s) = rt_cmd s"
  "rt_actuators (finish_cycle cfg inp missed latched s) = rt_actuators s"
  "rt_fb (finish_cycle cfg inp missed latched s) = rt_fb s"
  by (simp_all add: finish_cycle_def Let_def)

lemma monitor_latched_finish [simp]:
  "monitor_latched (finish_cycle cfg inp missed latched s) = monitor_latched s"
  by (simp add: monitor_latched_def)

lemma cycle_parts:
  assumes "rt_cycle cfg cm inp s = Some (Inr s')"
  obtains s1 good s2 where "adopt_mode cfg cm (ci_switch inp) s = Some (Inr s1)"
    "exchange_ok cfg (ci_exchange inp) s1 = Inr (good, s2)"
    "\<exists>s3. after_exchange cfg cm inp (\<not> good) s3 = Some s' \<and> rt_requested s3 = rt_requested s1 \<and>
       rt_contact s3 = rt_contact s1 \<and> rt_modes s3 = rt_modes s1 \<and> rt_active s3 = rt_active s1 \<and>
       rt_cmd s3 = rt_cmd s1 \<and> rt_actuators s3 = rt_actuators s1 \<and> (\<not> good \<longrightarrow> rt_fb s3 = rt_fb s1)"
proof -
  from assms obtain s1 good s2 s3 where
    1: "adopt_mode cfg cm (ci_switch inp) s = Some (Inr s1)"
    and 2: "exchange_ok cfg (ci_exchange inp) s1 = Inr (good, s2)"
    and 3: "(if ec_exit_on_fault cfg \<and> good then check_fault s2 else Inr s2) = Inr s3"
    and 4: "after_exchange cfg cm inp (\<not> good) s3 = Some s'"
    by (auto simp: rt_cycle_def split: option.splits sum.splits prod.splits)
  have "rt_requested s3 = rt_requested s1 \<and> rt_contact s3 = rt_contact s1 \<and> rt_modes s3 = rt_modes s1 \<and>
      rt_active s3 = rt_active s1 \<and> rt_cmd s3 = rt_cmd s1 \<and> rt_actuators s3 = rt_actuators s1 \<and>
      (\<not> good \<longrightarrow> rt_fb s3 = rt_fb s1)"
    using exchange_ok_frame [OF 2] 3 check_fault_frame [of s2 s3] by (auto split: if_splits)
  with 1 2 4 show ?thesis using that by blast
qed

lemma contact_step_frame:
  "contact_step dt missed s = (latched, s') \<Longrightarrow>
     rt_requested s' = rt_requested s \<and> map_option snd (rt_contact s') = map_option snd (rt_contact s) \<and>
     rt_modes s' = rt_modes s \<and> rt_active s' = rt_active s \<and> rt_cmd s' = rt_cmd s \<and>
     rt_actuators s' = rt_actuators s \<and> rt_fb s' = rt_fb s"
  by (auto simp: contact_step_def split: option.splits prod.splits)

lemma contact_switch_frame:
  "contact_switch cm latched missed s = (frozen, s') \<Longrightarrow>
     rt_requested s' = rt_requested s \<and> rt_contact s' = rt_contact s \<and> rt_actuators s' = rt_actuators s \<and>
     rt_fb s' = rt_fb s"
  by (auto simp: contact_switch_def freeze_def split: option.splits prod.splits if_splits)

lemma compute_active_frame:
  "compute_active cfg cm t1 missed frozen s = Some s' \<Longrightarrow>
     rt_requested s' = rt_requested s \<and> rt_contact s' = rt_contact s \<and> rt_actuators s' = rt_actuators s \<and>
     rt_active s' = rt_active s \<and> rt_fb s' = rt_fb s"
  by (auto simp: compute_active_def split: option.splits if_splits)

text \<open>A missed exchange changes neither the modes nor the command.\<close>

lemma after_miss:
  assumes "after_exchange cfg cm inp True s = Some s'"
  shows "rt_modes s' = rt_modes s \<and> rt_cmd s' = rt_cmd s \<and> rt_active s' = rt_active s \<and> rt_fb s' = rt_fb s"
  using assms contact_step_frame [of "seconds (ci_t1 inp - rt_last_read_ns s)" True "s\<lparr>rt_last_read_ns := ci_t1 inp\<rparr>"]
  by (auto simp: after_exchange_def contact_switch_def compute_active_def Let_def
      split: prod.splits option.splits)

lemma adopt_mode_frame:
  "adopt_mode cfg cm sw s = Some (Inr s') \<Longrightarrow> rt_fb s' = rt_fb s \<and> rt_misses s' = rt_misses s"
  by (auto simp: adopt_mode_def pending_mode_def switch_mode_def Let_def
      split: if_splits option.splits prod.splits switch_outcome.splits)

lemma after_exchange_misses: "after_exchange cfg cm inp missed s = Some s' \<Longrightarrow> rt_misses s' = rt_misses s"
  by (auto simp: after_exchange_def contact_step_def contact_switch_def compute_active_def freeze_def
      finish_cycle_def Let_def split: prod.splits option.splits if_splits)

lemma exchange_ok_misses: "exchange_ok cfg oc s = Inr (good, s') \<Longrightarrow> 0 \<le> rt_misses s \<Longrightarrow> 0 \<le> rt_misses s'"
  by (cases oc) (auto simp: exchange_ok_def note_miss_def Let_def split: if_splits)

lemma rt_seed_misses: "rt_seed cfg ocs s = Some (Inr s') \<Longrightarrow> 0 \<le> rt_misses s \<Longrightarrow> 0 \<le> rt_misses s'"
  by (induction ocs arbitrary: s) (auto split: sum.splits prod.splits if_splits dest: exchange_ok_misses)

lemma misses_nonneg: "rt_reach cfg cm s0 s \<Longrightarrow> 0 \<le> rt_misses s"
proof (induction rule: rt_reach.induct)
  case (seeded ocs s read now)
  then have "0 \<le> rt_misses s" by (rule rt_seed_misses) (simp add: rt_start_def)
  then show ?case by (simp add: rt_clock_def)
next
  case (cycled s inp s')
  then obtain s1 good s2 s3 where
    "adopt_mode cfg cm (ci_switch inp) s = Some (Inr s1)"
    "exchange_ok cfg (ci_exchange inp) s1 = Inr (good, s2)"
    "(if ec_exit_on_fault cfg \<and> good then check_fault s2 else Inr s2) = Inr s3"
    "after_exchange cfg cm inp (\<not> good) s3 = Some s'"
    by (auto simp: rt_cycle_def split: option.splits sum.splits prod.splits)
  then show ?case using cycled.IH adopt_mode_frame [of cfg cm "ci_switch inp" s s1]
      exchange_ok_misses [of cfg "ci_exchange inp" s1 good s2] after_exchange_misses [of cfg cm inp "\<not> good" s3 s']
    by (auto simp: check_fault_def Let_def split: if_splits)
qed (simp_all add: rt_request_mode_def)

lemma compute_active_missed [simp]: "compute_active cfg cm t1 True frozen s = Some s"
  by (simp add: compute_active_def split: option.split)

lemma after_miss_returns: "\<exists>s'. after_exchange cfg cm inp True s = Some s'"
  by (simp add: after_exchange_def Let_def split: prod.split)

text \<open>
  Claim C4. A missed exchange is survived without letting stale feedback into a mode: the cycle keeps the
  last good feedback, no mode computes, so the command goes out again unchanged, and the next cycle
  adopts no mode -- it sends that very command -- until an exchange has succeeded.
\<close>

theorem missed_exchange_resends:
  assumes r: "rt_reach cfg cm s0 s" and c: "rt_cycle cfg cm inp s = Some (Inr s')" and miss: "timed_out (ci_exchange inp)"
  shows "rt_fb s' = rt_fb s \<and>
    (\<exists>s1. adopt_mode cfg cm (ci_switch inp) s = Some (Inr s1) \<and>
       rt_cmd s' = rt_cmd s1 \<and> rt_modes s' = rt_modes s1 \<and> rt_active s' = rt_active s1) \<and>
    (\<forall>sw. adopt_mode cfg cm sw s' = Some (Inr s'))"
proof -
  from c obtain s1 good s2 s3 where
    1: "adopt_mode cfg cm (ci_switch inp) s = Some (Inr s1)"
    and 2: "exchange_ok cfg (ci_exchange inp) s1 = Inr (good, s2)"
    and 3: "(if ec_exit_on_fault cfg \<and> good then check_fault s2 else Inr s2) = Inr s3"
    and 4: "after_exchange cfg cm inp (\<not> good) s3 = Some s'"
    by (auto simp: rt_cycle_def split: option.splits sum.splits prod.splits)
  have good: "\<not> good" using 2 miss
    by (cases "ci_exchange inp") (auto simp: exchange_ok_def timed_out_def Let_def split: if_splits)
  with 3 4 have s3: "s3 = s2" and after: "after_exchange cfg cm inp True s2 = Some s'" by auto
  have s1: "rt_fb s1 = rt_fb s \<and> rt_misses s1 = rt_misses s" using 1 by (rule adopt_mode_frame)
  have "rt_misses s2 = rt_misses s1 + 1" using 2 good
    by (cases "ci_exchange inp") (auto simp: exchange_ok_def note_miss_def Let_def split: if_splits)
  moreover have "rt_misses s' = rt_misses s2" using after by (rule after_exchange_misses)
  ultimately have "rt_misses s' \<noteq> 0" using misses_nonneg [OF r] s1 by simp
  then have "\<forall>sw. adopt_mode cfg cm sw s' = Some (Inr s')" by (simp add: adopt_mode_def pending_mode_def)
  with 1 after_miss [OF after] exchange_ok_frame [OF 2] good s1 show ?thesis by auto
qed

text \<open>An executor of the five modes over a trivial model, its monitor latched with the torque mode to adopt.\<close>

definition demo_driver_modes :: driver_modes where
  "demo_driver_modes = \<lparr>dm_position = demo_position_mode, dm_velocity = demo_velocity_mode,
     dm_torque = tm_init zero_dynamics torque_params0, dm_impedance = demo_impedance_mode,
     dm_float = \<lparr>fm_dyn = zero_dynamics, fm_p = float_params0, fm_anchor = vzero\<rparr>\<rparr>"

definition demo_executor :: "(mode_id, driver_modes) rt_state" where
  "demo_executor = \<lparr>rt_requested = Some MidVelocity,
     rt_contact = Some (demo_monitor\<lparr>cm_latched := True\<rparr>, MidTorque), rt_modes = demo_driver_modes,
     rt_ring = ring_init 2, rt_active = None, rt_cmd = joint_command0, rt_fb = joint_feedback0, rt_misses = 0,
     rt_miss_at = [], rt_exchanges = 0, rt_total_misses = 0, rt_faulty = 0, rt_not_low_level = 0,
     rt_last_compute_ns = 0, rt_last_read_ns = 0, rt_boundary = 0, rt_cycle_index = 0, rt_actuators = None\<rparr>"

definition demo_input :: "exchange_outcome \<Rightarrow> cycle_input" where
  "demo_input oc = \<lparr>ci_switch = SwitchOk, ci_exchange = oc, ci_t0 = 0, ci_t1 = 0, ci_t2 = 0, ci_now = 0\<rparr>"

abbreviation demo_modes :: "(mode_id, driver_modes) control_modes" where
  "demo_modes \<equiv> driver_control_modes demo_eigen"

definition demo_seeded :: "(mode_id, driver_modes) rt_state" where
  "demo_seeded = rt_clock executor_config0 0 0 ((rt_start executor_config0 demo_executor)\<lparr>rt_exchanges := 1\<rparr>)"

lemma demo_seeded_reach: "rt_reach executor_config0 demo_modes demo_executor demo_seeded"
proof -
  have "rt_seed executor_config0 [ExchangeOk joint_feedback0] (rt_start executor_config0 demo_executor) =
      Some (Inr ((rt_start executor_config0 demo_executor)\<lparr>rt_exchanges := 1\<rparr>))"
    by (simp add: exchange_ok_def rt_start_def Let_def)
  then show ?thesis unfolding demo_seeded_def by (rule rt_reach.seeded)
qed

lemma demo_seeded_simps:
  "rt_misses demo_seeded = 0" "rt_active demo_seeded = None" "rt_requested demo_seeded = Some MidVelocity"
  "rt_modes demo_seeded = demo_driver_modes" "rt_cmd demo_seeded = joint_command0" "rt_fb demo_seeded = joint_feedback0"
  "rt_contact demo_seeded = Some (cm_on_run_start (demo_monitor\<lparr>cm_latched := True\<rparr>), MidTorque)"
  "rt_miss_at demo_seeded = replicate 5 0" "rt_total_misses demo_seeded = 0" "rt_faulty demo_seeded = 0"
  "rt_not_low_level demo_seeded = 0"
  by (simp_all add: demo_seeded_def rt_clock_def rt_start_def demo_executor_def executor_config0_def)

lemma demo_seeded_latched: "monitor_latched demo_seeded"
  by (simp add: monitor_latched_def demo_seeded_simps cm_on_run_start_def demo_monitor_def)

text \<open>The cycle that adopts the torque mode.\<close>

lemma demo_adopt:
  obtains s1 where "adopt_mode executor_config0 demo_modes SwitchOk demo_seeded = Some (Inr s1)"
    "rt_active s1 = Some MidTorque" "rt_misses s1 = 0" "rt_miss_at s1 = replicate 5 0" "rt_total_misses s1 = 0"
proof -
  obtain t c where tc: "tm_compute (tm_on_enter (tm_init zero_dynamics torque_params0)) (joint_feedback0\<lparr>fb_qd := vzero\<rparr>)
      (ec_dt_s executor_config0) joint_command0 = (t, c)" by fastforce
  have "pending_mode demo_seeded = (Some MidTorque, demo_seeded)"
    using demo_seeded_latched by (simp add: pending_mode_def demo_seeded_simps)
  then have "adopt_mode executor_config0 demo_modes SwitchOk demo_seeded = Some (Inr (demo_seeded
      \<lparr>rt_modes := demo_driver_modes\<lparr>dm_torque := t\<rparr>, rt_cmd := c, rt_active := Some MidTorque,
        rt_last_compute_ns := - 1, rt_actuators := Some tm_required_modes\<rparr>))"
    using tc by (simp add: adopt_mode_def switch_mode_def exit_active_def demo_seeded_simps driver_control_modes_def
        demo_driver_modes_def Let_def)
  then show ?thesis by (rule that) (simp_all add: demo_seeded_simps)
qed

lemma demo_missed_cycle:
  obtains s' where "rt_cycle executor_config0 demo_modes (demo_input (ExchangeTimeout [])) demo_seeded = Some (Inr s')"
proof -
  obtain s1 where s1: "adopt_mode executor_config0 demo_modes SwitchOk demo_seeded = Some (Inr s1)"
    "rt_misses s1 = 0" "rt_miss_at s1 = replicate 5 0" "rt_total_misses s1 = 0" by (rule demo_adopt) blast
  then obtain s2 where s2: "exchange_ok executor_config0 (ExchangeTimeout []) s1 = Inr (False, s2)"
    by (auto simp: exchange_ok_def note_miss_def window_full_def Let_def executor_config0_def kMaxConsecutiveTimeouts_def)
  obtain s' where "after_exchange executor_config0 demo_modes (demo_input (ExchangeTimeout [])) True s2 = Some s'"
    using after_miss_returns by blast
  with s1 s2 show ?thesis by (intro that) (simp add: rt_cycle_def demo_input_def executor_config0_def)
qed

lemma missed_exchange_resends_witness:
  "\<exists>s'. rt_cycle executor_config0 demo_modes (demo_input (ExchangeTimeout [])) demo_seeded = Some (Inr s') \<and>
     rt_fb s' = joint_feedback0 \<and> (\<forall>sw. adopt_mode executor_config0 demo_modes sw s' = Some (Inr s'))"
proof -
  obtain s' where c: "rt_cycle executor_config0 demo_modes (demo_input (ExchangeTimeout [])) demo_seeded = Some (Inr s')"
    by (rule demo_missed_cycle)
  moreover have "timed_out (ci_exchange (demo_input (ExchangeTimeout [])))" by (simp add: demo_input_def timed_out_def)
  ultimately show ?thesis
    using missed_exchange_resends [OF demo_seeded_reach c] by (auto simp: demo_seeded_simps)
qed

subsection \<open>The command matches the actuators\<close>

definition matched :: "('i, 'm) control_modes \<Rightarrow> ('i, 'm) rt_state \<Rightarrow> bool" where
  "matched cm s = (\<forall>i. rt_active s = Some i \<longrightarrow>
     rt_actuators s = Some (mo_required_modes cm i) \<and> mo_required_modes cm i = modes_fill (jc_mode (rt_cmd s)))"

lemma matched_cong:
  "matched cm s \<Longrightarrow> rt_active s' = rt_active s \<Longrightarrow> rt_cmd s' = rt_cmd s \<Longrightarrow> rt_actuators s' = rt_actuators s \<Longrightarrow> matched cm s'"
  by (simp add: matched_def)

lemma rt_seed_active: "rt_seed cfg ocs s = Some (Inr s') \<Longrightarrow> rt_active s' = rt_active s"
  by (induction ocs arbitrary: s) (auto split: sum.splits prod.splits if_splits dest: exchange_ok_frame)

context commanding_modes
begin

lemma matched_switch: "switch_mode cfg cm sw i s = Some (Inr s') \<Longrightarrow> matched cm s'"
  by (auto simp: switch_mode_def matched_def Let_def dest: compute_mode
      split: option.splits prod.splits switch_outcome.splits)

lemma matched_adopt:
  assumes "adopt_mode cfg cm sw s = Some (Inr s')" and "matched cm s"
  shows "matched cm s'"
  using assms by (auto simp: adopt_mode_def pending_mode_def Let_def dest: matched_switch
      split: if_splits option.splits intro: matched_cong)

lemma matched_contact_switch:
  assumes "contact_switch cm latched missed s = (frozen, s')" and "matched cm s"
  shows "matched cm s'"
  using assms by (auto simp: contact_switch_def freeze_def matched_def split: option.splits prod.splits if_splits)

lemma matched_compute:
  assumes "compute_active cfg cm t1 missed frozen s = Some s'" and "matched cm s"
  shows "matched cm s'"
  using assms by (auto simp: compute_active_def matched_def dest: compute_mode split: option.splits if_splits)

lemma matched_after:
  assumes "after_exchange cfg cm inp missed s = Some s'" and m: "matched cm s"
  shows "matched cm s'"
proof -
  let ?dt = "seconds (ci_t1 inp - rt_last_read_ns s)" and ?s = "s\<lparr>rt_last_read_ns := ci_t1 inp\<rparr>"
  obtain latched s1 where 1: "contact_step ?dt missed ?s = (latched, s1)" by fastforce
  obtain frozen s2 where 2: "contact_switch cm latched missed s1 = (frozen, s2)" by fastforce
  from assms(1) 1 2 obtain s3 where 3: "compute_active cfg cm (ci_t1 inp) missed frozen s2 = Some s3"
    and s': "s' = finish_cycle cfg inp missed latched s3"
    by (auto simp: after_exchange_def Let_def)
  have "matched cm s1" using m contact_step_frame [OF 1] by (auto intro: matched_cong)
  with 2 have "matched cm s2" by (rule matched_contact_switch)
  with 3 have "matched cm s3" by (rule matched_compute)
  then show ?thesis unfolding s' by (rule matched_cong) simp_all
qed

lemma matched_cycle:
  assumes "rt_cycle cfg cm inp s = Some (Inr s')" and m: "matched cm s"
  shows "matched cm s'"
  using assms(1)
proof (rule cycle_parts)
  fix s1 good s2
  assume 1: "adopt_mode cfg cm (ci_switch inp) s = Some (Inr s1)"
  assume "\<exists>s3. after_exchange cfg cm inp (\<not> good) s3 = Some s' \<and> rt_requested s3 = rt_requested s1 \<and>
       rt_contact s3 = rt_contact s1 \<and> rt_modes s3 = rt_modes s1 \<and> rt_active s3 = rt_active s1 \<and>
       rt_cmd s3 = rt_cmd s1 \<and> rt_actuators s3 = rt_actuators s1 \<and> (\<not> good \<longrightarrow> rt_fb s3 = rt_fb s1)"
  then obtain s3 where 3: "after_exchange cfg cm inp (\<not> good) s3 = Some s'" "rt_active s3 = rt_active s1"
      "rt_cmd s3 = rt_cmd s1" "rt_actuators s3 = rt_actuators s1" by blast
  from matched_adopt [OF 1 m] 3(2-) have "matched cm s3" by (rule matched_cong)
  with 3(1) show ?thesis by (rule matched_after)
qed

lemma matched_reach: "rt_reach cfg cm s0 s \<Longrightarrow> matched cm s"
proof (induction rule: rt_reach.induct)
  case (seeded ocs s read now)
  then have "rt_active s = None" using rt_seed_active [of cfg ocs "rt_start cfg s0" s] by (simp add: rt_start_def)
  then show ?case by (simp add: matched_def rt_clock_def)
next
  case (cycled s inp s')
  then show ?case by (blast intro: matched_cycle)
qed (auto simp: rt_request_mode_def intro: matched_cong)

end

text \<open>
  Claim C10. What a cycle sends fits the actuators: in every state a run can reach, whatever modes were
  requested and however exchanges, mode switches and contact trips fell, the command that goes into
  the next exchange -- after the boundary's mode adoption -- carries the actuator mode that all seven
  actuators were last switched to, and it is the one the active mode asks for.
\<close>

theorem command_fits_actuators:
  assumes "rt_reach cfg (driver_control_modes e) s0 s"
    and "adopt_mode cfg (driver_control_modes e) sw s = Some (Inr s1)" and "rt_active s1 = Some i"
  shows "rt_actuators s1 = Some (modes_fill (jc_mode (rt_cmd s1))) \<and> modes_fill (jc_mode (rt_cmd s1)) = dm_required_modes i"
  using modes.matched_adopt [OF assms(2) modes.matched_reach [OF assms(1)]] assms(3)
  by (simp add: matched_def driver_control_modes_def)

lemma command_fits_actuators_witness:
  "\<exists>s1. adopt_mode executor_config0 demo_modes SwitchOk demo_seeded = Some (Inr s1) \<and>
     rt_active s1 = Some MidTorque \<and> rt_actuators s1 = Some (modes_fill (jc_mode (rt_cmd s1)))"
proof -
  obtain s1 where s1: "adopt_mode executor_config0 demo_modes SwitchOk demo_seeded = Some (Inr s1)"
    "rt_active s1 = Some MidTorque" by (rule demo_adopt) blast
  with command_fits_actuators [OF demo_seeded_reach s1] show ?thesis by blast
qed

subsection \<open>The contact stop\<close>

lemma cm_step_reports_latch: "fst (cm_step m fb dt missed) = cm_latched (snd (cm_step m fb dt missed))"
  by (auto simp: cm_step_def Let_def cm_record_trip_def cm_set_phase_def cm_publish_def split: prod.split)

lemma contact_step_latched:
  assumes "contact_step dt missed s = (latched, s')" and "rt_contact s = Some (mon, oc)"
  shows "latched = monitor_latched s' \<and> (\<exists>mon'. rt_contact s' = Some (mon', oc))"
proof -
  obtain l mon' where m: "cm_step mon (rt_fb s) dt missed = (l, mon')" by fastforce
  then have "l = cm_latched mon'" using cm_step_reports_latch [of mon "rt_fb s" dt missed] by simp
  with m assms show ?thesis by (auto simp: contact_step_def monitor_latched_def)
qed

lemma contact_switch_active:
  assumes "contact_switch cm latched missed s = (frozen, s')" and "rt_contact s = Some (mon, oc)"
  shows "(rt_active s = Some oc \<longrightarrow> rt_active s' = Some oc \<and> \<not> frozen) \<and>
    (latched \<and> \<not> missed \<longrightarrow> (rt_active s' = Some oc \<and> \<not> frozen) \<or>
       (frozen \<and> rt_active s' \<noteq> Some oc \<and> jc_position (rt_cmd s') = fb_q (rt_fb s') \<and> jc_velocity (rt_cmd s') = vzero))"
  using assms by (auto simp: contact_switch_def freeze_def split: option.splits if_splits)

lemma compute_active_frozen: "compute_active cfg cm t1 missed True s = Some s' \<Longrightarrow> s' = s"
  by (auto simp: compute_active_def split: option.splits)

lemma compute_active_runs:
  "compute_active cfg cm t1 False False s = Some s' \<Longrightarrow> rt_active s = Some oc \<Longrightarrow>
     \<exists>dt c m. mo_compute cm oc (rt_fb s') dt c m = Some (rt_modes s', rt_cmd s')"
  by (rule exI [of _ "compute_dt cfg t1 s"], rule exI [of _ "rt_cmd s"], rule exI [of _ "rt_modes s"])
    (auto simp: compute_active_def)

text \<open>The contact part of a cycle, once the boundary and the exchange are done.\<close>

lemma after_exchange_contact:
  assumes "after_exchange cfg cm inp missed s = Some s'" and att: "rt_contact s = Some (mon, oc)"
  shows "(rt_active s = Some oc \<longrightarrow> rt_active s' = Some oc) \<and> rt_requested s' = rt_requested s \<and>
    (monitor_latched s' \<and> \<not> missed \<longrightarrow>
       (rt_active s' = Some oc \<and> (\<exists>dt c m. mo_compute cm oc (rt_fb s') dt c m = Some (rt_modes s', rt_cmd s'))) \<or>
       (rt_active s' \<noteq> Some oc \<and> jc_position (rt_cmd s') = fb_q (rt_fb s') \<and> jc_velocity (rt_cmd s') = vzero))"
proof -
  let ?dt = "seconds (ci_t1 inp - rt_last_read_ns s)" and ?s = "s\<lparr>rt_last_read_ns := ci_t1 inp\<rparr>"
  obtain latched s1 where 1: "contact_step ?dt missed ?s = (latched, s1)" by fastforce
  obtain frozen s2 where 2: "contact_switch cm latched missed s1 = (frozen, s2)" by fastforce
  from assms(1) 1 2 obtain s3 where 3: "compute_active cfg cm (ci_t1 inp) missed frozen s2 = Some s3"
    and s': "s' = finish_cycle cfg inp missed latched s3"
    by (auto simp: after_exchange_def Let_def)
  from contact_step_latched [OF 1, of mon oc] att obtain mon' where
    l: "latched = monitor_latched s1" and c1: "rt_contact s1 = Some (mon', oc)" by auto
  note f1 = contact_step_frame [OF 1] and f2 = contact_switch_frame [OF 2] and f3 = compute_active_frame [OF 3]
  note sw = contact_switch_active [OF 2 c1]
  have "monitor_latched s' = latched" using l f2 f3 by (simp add: s' monitor_latched_def)
  moreover have "rt_requested s' = rt_requested s" using f1 f2 f3 by (simp add: s')
  moreover have "rt_active s = Some oc \<longrightarrow> rt_active s' = Some oc" using sw f1 f3 by (simp add: s')
  moreover have "latched \<and> \<not> missed \<longrightarrow>
       (rt_active s' = Some oc \<and> (\<exists>dt c m. mo_compute cm oc (rt_fb s') dt c m = Some (rt_modes s', rt_cmd s'))) \<or>
       (rt_active s' \<noteq> Some oc \<and> jc_position (rt_cmd s') = fb_q (rt_fb s') \<and> jc_velocity (rt_cmd s') = vzero)"
  proof (cases frozen)
    case True
    with 3 have "s3 = s2" by (simp add: compute_active_frozen)
    with True sw show ?thesis by (auto simp: s')
  next
    case False
    with 3 compute_active_runs [of cfg cm "ci_t1 inp" s2 s3 oc] sw f3 show ?thesis by (auto simp: s')
  qed
  ultimately show ?thesis by simp
qed

lemma adopt_latched:
  assumes "adopt_mode cfg cm sw s = Some (Inr s1)" and "rt_contact s = Some (mon, oc)"
    and "monitor_latched s" and "rt_misses s = 0"
  shows "rt_active s1 = Some oc \<and> rt_requested s1 = rt_requested s"
  using assms by (auto simp: adopt_mode_def pending_mode_def switch_mode_def Let_def
      split: if_splits option.splits prod.splits switch_outcome.splits)

lemma adopt_contact: "adopt_mode cfg cm sw s = Some (Inr s1) \<Longrightarrow> rt_contact s1 = rt_contact s"
  by (auto simp: adopt_mode_def pending_mode_def switch_mode_def Let_def
      split: if_splits option.splits prod.splits switch_outcome.splits)

text \<open>A command that the mode \<open>i\<close> computed, from whatever it was given.\<close>

definition computed_by :: "('i, 'm) control_modes \<Rightarrow> 'i \<Rightarrow> joint_command \<Rightarrow> bool" where
  "computed_by cm i out \<longleftrightarrow> (\<exists>fb dt c m m'. mo_compute cm i fb dt c m = Some (m', out))"

lemma computed_byI: "mo_compute cm i fb dt c m = Some (m', out) \<Longrightarrow> computed_by cm i out"
  unfolding computed_by_def by blast

text \<open>The contact mode only ever finds its own command in the executor.\<close>

definition contact_owned :: "('i, 'm) control_modes \<Rightarrow> ('i, 'm) rt_state \<Rightarrow> bool" where
  "contact_owned cm s \<longleftrightarrow> (\<forall>mon oc. rt_contact s = Some (mon, oc) \<and> rt_active s = Some oc \<longrightarrow> computed_by cm oc (rt_cmd s))"

lemma adopt_first_command:
  assumes "adopt_mode cfg cm sw s = Some (Inr s1)" and "rt_active s1 = Some i"
  shows "if rt_active s = Some i then rt_cmd s1 = rt_cmd s
    else mo_compute cm i ((rt_fb s)\<lparr>fb_qd := vzero\<rparr>) (ec_dt_s cfg) (rt_cmd s) (mo_on_enter cm i (rt_fb s) (exit_active cm s))
      = Some (rt_modes s1, rt_cmd s1)"
proof -
  obtain req t where p: "pending_mode s = (req, t)" by fastforce
  have t: "rt_active t = rt_active s" "rt_cmd t = rt_cmd s" "rt_fb t = rt_fb s" "rt_modes t = rt_modes s"
    using p by (auto simp: pending_mode_def split: if_splits)
  then have "exit_active cm t = exit_active cm s" by (auto simp: exit_active_def split: option.split)
  with assms p t show ?thesis
    by (auto simp: adopt_mode_def switch_mode_def Let_def split: option.splits if_splits prod.splits switch_outcome.splits)
qed

lemma owned_adopt:
  assumes "adopt_mode cfg cm sw s = Some (Inr s1)" and "contact_owned cm s"
  shows "contact_owned cm s1"
  unfolding contact_owned_def
proof (intro allI impI, elim conjE)
  fix mon oc assume a: "rt_contact s1 = Some (mon, oc)" "rt_active s1 = Some oc"
  from adopt_first_command [OF assms(1) a(2)] assms(2) a(1) adopt_contact [OF assms(1)]
  show "computed_by cm oc (rt_cmd s1)"
    by (cases "rt_active s = Some oc") (auto simp: contact_owned_def intro: computed_byI)
qed

lemma owned_after:
  assumes "after_exchange cfg cm inp missed s = Some s'" and "contact_owned cm s"
  shows "contact_owned cm s'"
proof (cases "rt_contact s")
  case None
  let ?dt = "seconds (ci_t1 inp - rt_last_read_ns s)" and ?s = "s\<lparr>rt_last_read_ns := ci_t1 inp\<rparr>"
  have "contact_step ?dt missed ?s = (False, ?s)" "contact_switch cm False missed ?s = (False, ?s)"
    using None by (simp_all add: contact_step_def contact_switch_def)
  then obtain s3 where 3: "compute_active cfg cm (ci_t1 inp) missed False ?s = Some s3" "s' = finish_cycle cfg inp missed False s3"
    using assms(1) by (auto simp: after_exchange_def)
  then show ?thesis using compute_active_frame [OF 3(1)] None by (simp add: contact_owned_def)
next
  case (Some x)
  obtain mon oc where x: "x = (mon, oc)" by fastforce
  let ?dt = "seconds (ci_t1 inp - rt_last_read_ns s)" and ?s = "s\<lparr>rt_last_read_ns := ci_t1 inp\<rparr>"
  obtain latched s1 where 1: "contact_step ?dt missed ?s = (latched, s1)" by fastforce
  obtain frozen s2 where 2: "contact_switch cm latched missed s1 = (frozen, s2)" by fastforce
  from assms(1) 1 2 obtain s3 where 3: "compute_active cfg cm (ci_t1 inp) missed frozen s2 = Some s3"
    and s': "s' = finish_cycle cfg inp missed latched s3"
    by (auto simp: after_exchange_def Let_def)
  from contact_step_latched [OF 1, of mon oc] Some x obtain mon' where c1: "rt_contact s1 = Some (mon', oc)" by auto
  note f1 = contact_step_frame [OF 1] and f2 = contact_switch_frame [OF 2] and f3 = compute_active_frame [OF 3]
  have "computed_by cm oc (rt_cmd s3)" if a: "rt_active s3 = Some oc"
  proof (cases "missed \<or> frozen")
    case True
    have act: "rt_active s2 = Some oc" using a f3 by simp
    then have "\<not> frozen" using contact_switch_active [OF 2 c1] 2 c1
      by (auto simp: contact_switch_def freeze_def split: option.splits if_splits)
    then have m: "missed" using True by simp
    then have "s3 = s2" "s2 = s1" using 3 2 c1 by (auto simp: compute_active_def contact_switch_def split: option.splits if_splits)
    then show ?thesis using assms(2) Some x act f1 by (simp add: contact_owned_def)
  next
    case False
    then obtain dt c m where "mo_compute cm oc (rt_fb s3) dt c m = Some (rt_modes s3, rt_cmd s3)"
      using compute_active_runs [of cfg cm "ci_t1 inp" s2 s3 oc] 3 a f3 by auto
    then show ?thesis by (rule computed_byI)
  qed
  then show ?thesis using c1 f2 f3 by (auto simp: contact_owned_def s')
qed

lemma contact_owned_cong:
  "contact_owned cm s \<Longrightarrow> rt_active s' = rt_active s \<Longrightarrow> rt_cmd s' = rt_cmd s \<Longrightarrow>
     map_option snd (rt_contact s') = map_option snd (rt_contact s) \<Longrightarrow> contact_owned cm s'"
  by (cases "rt_contact s") (auto simp: contact_owned_def)

lemma owned_cycle:
  assumes "rt_cycle cfg cm inp s = Some (Inr s')" and m: "contact_owned cm s"
  shows "contact_owned cm s'"
  using assms(1)
proof (rule cycle_parts)
  fix s1 good s2
  assume 1: "adopt_mode cfg cm (ci_switch inp) s = Some (Inr s1)"
  assume "\<exists>s3. after_exchange cfg cm inp (\<not> good) s3 = Some s' \<and> rt_requested s3 = rt_requested s1 \<and>
       rt_contact s3 = rt_contact s1 \<and> rt_modes s3 = rt_modes s1 \<and> rt_active s3 = rt_active s1 \<and>
       rt_cmd s3 = rt_cmd s1 \<and> rt_actuators s3 = rt_actuators s1 \<and> (\<not> good \<longrightarrow> rt_fb s3 = rt_fb s1)"
  then obtain s3 where 3: "after_exchange cfg cm inp (\<not> good) s3 = Some s'" "rt_contact s3 = rt_contact s1"
    "rt_active s3 = rt_active s1" "rt_cmd s3 = rt_cmd s1" by blast
  from owned_adopt [OF 1 m] 3(2-) have "contact_owned cm s3" by (auto intro: contact_owned_cong)
  with 3(1) show ?thesis by (rule owned_after)
qed

lemma owned_reach: "rt_reach cfg cm s0 s \<Longrightarrow> contact_owned cm s"
proof (induction rule: rt_reach.induct)
  case (seeded ocs s read now)
  then have "rt_active s = None" using rt_seed_active [of cfg ocs "rt_start cfg s0" s] by (simp add: rt_start_def)
  then show ?case by (simp add: contact_owned_def rt_clock_def)
next
  case (cycled s inp s')
  then show ?case by (blast intro: owned_cycle)
qed (auto simp: rt_request_mode_def intro: contact_owned_cong)

text \<open>
  Claim C3. While a contact is latched the contact mode owns the arm. In every state a run can reach: a
  cycle that starts latched, after an answered exchange, sends a command that the contact mode computed,
  whatever mode was requested or active -- on the boundary that adopts it, its first command, computed on
  the feedback at rest; afterwards the one its last cycle computed --, ends with it active, and leaves
  the request pending; and a cycle that ends latched after an answered exchange either has computed its
  next command in that mode or has frozen it -- the measured position, no velocity -- for the next
  boundary to replace.
\<close>

theorem contact_mode_owns_arm:
  assumes r: "rt_reach cfg cm s0 s"
    and c: "rt_cycle cfg cm inp s = Some (Inr s')" and att: "rt_contact s = Some (mon, oc)"
    and ex: "ci_exchange inp = ExchangeOk fb"
  shows "(monitor_latched s \<and> rt_misses s = 0 \<longrightarrow>
       (\<exists>s1. adopt_mode cfg cm (ci_switch inp) s = Some (Inr s1) \<and> rt_active s1 = Some oc \<and> computed_by cm oc (rt_cmd s1) \<and>
          (if rt_active s = Some oc then rt_cmd s1 = rt_cmd s
           else mo_compute cm oc ((rt_fb s)\<lparr>fb_qd := vzero\<rparr>) (ec_dt_s cfg) (rt_cmd s) (mo_on_enter cm oc (rt_fb s) (exit_active cm s))
             = Some (rt_modes s1, rt_cmd s1))) \<and>
       rt_active s' = Some oc \<and> rt_requested s' = rt_requested s) \<and>
    (monitor_latched s' \<longrightarrow>
       (rt_active s' = Some oc \<and> (\<exists>dt c m. mo_compute cm oc (rt_fb s') dt c m = Some (rt_modes s', rt_cmd s'))) \<or>
       (rt_active s' \<noteq> Some oc \<and> jc_position (rt_cmd s') = fb_q (rt_fb s') \<and> jc_velocity (rt_cmd s') = vzero))"
  using c
proof (rule cycle_parts)
  fix s1 good s2
  assume 1: "adopt_mode cfg cm (ci_switch inp) s = Some (Inr s1)"
    and 2: "exchange_ok cfg (ci_exchange inp) s1 = Inr (good, s2)"
  assume "\<exists>s3. after_exchange cfg cm inp (\<not> good) s3 = Some s' \<and> rt_requested s3 = rt_requested s1 \<and>
       rt_contact s3 = rt_contact s1 \<and> rt_modes s3 = rt_modes s1 \<and> rt_active s3 = rt_active s1 \<and>
       rt_cmd s3 = rt_cmd s1 \<and> rt_actuators s3 = rt_actuators s1 \<and> (\<not> good \<longrightarrow> rt_fb s3 = rt_fb s1)"
  then obtain s3 where 3: "after_exchange cfg cm inp (\<not> good) s3 = Some s'" "rt_requested s3 = rt_requested s1"
    "rt_contact s3 = rt_contact s1" "rt_active s3 = rt_active s1" by blast
  have "good" using 2 ex by (simp add: exchange_ok_def Let_def)
  moreover have c1: "rt_contact s1 = Some (mon, oc)" using adopt_contact [OF 1] att by simp
  then have "rt_contact s3 = Some (mon, oc)" using 3(3) by simp
  note after_exchange_contact [OF 3(1) this]
  moreover have "computed_by cm oc (rt_cmd s1)" if "rt_active s1 = Some oc"
    using owned_adopt [OF 1 owned_reach [OF r]] c1 that by (simp add: contact_owned_def)
  ultimately show ?thesis using adopt_latched [OF 1 att] adopt_first_command [OF 1, of oc] 1 3 by auto
qed

lemma contact_mode_owns_arm_witness:
  "\<exists>s'. rt_cycle executor_config0 demo_modes (demo_input (ExchangeOk joint_feedback0)) demo_seeded = Some (Inr s') \<and>
     rt_active s' = Some MidTorque \<and> rt_requested s' = Some MidVelocity"
proof -
  let ?inp = "demo_input (ExchangeOk joint_feedback0)" and ?cfg = executor_config0
  obtain s1 where s1: "adopt_mode ?cfg demo_modes SwitchOk demo_seeded = Some (Inr s1)"
    "rt_active s1 = Some MidTorque" by (rule demo_adopt) blast
  then obtain s2 where s2: "exchange_ok ?cfg (ExchangeOk joint_feedback0) s1 = Inr (True, s2)" "rt_active s2 = Some MidTorque"
    by (auto simp: exchange_ok_def Let_def)
  obtain latched s3 where s3: "contact_step (seconds (ci_t1 ?inp - rt_last_read_ns s2)) False (s2\<lparr>rt_last_read_ns := ci_t1 ?inp\<rparr>) = (latched, s3)"
    by fastforce
  have c3: "\<exists>mon. rt_contact s3 = Some (mon, MidTorque)" "rt_active s3 = Some MidTorque"
    using contact_step_frame [OF s3] adopt_contact [OF s1(1)] exchange_ok_frame [OF s2(1)] s2(2)
    by (auto simp: demo_seeded_simps)
  then have sw: "contact_switch demo_modes latched False s3 = (False, s3)" by (auto simp: contact_switch_def)
  obtain s4 where "compute_active ?cfg demo_modes (ci_t1 ?inp) False False s3 = Some s4"
    using c3(2) by (cases "tm_compute (dm_torque (rt_modes s3)) (rt_fb s3) (compute_dt ?cfg (ci_t1 ?inp) s3) (rt_cmd s3)")
      (simp add: compute_active_def driver_control_modes_def)
  with s3 sw have "\<exists>s'. after_exchange ?cfg demo_modes ?inp False s2 = Some s'"
    by (simp add: after_exchange_def Let_def)
  with s1 s2 obtain s' where c: "rt_cycle ?cfg demo_modes ?inp demo_seeded = Some (Inr s')"
    by (auto simp: rt_cycle_def demo_input_def executor_config0_def)
  have ex: "ci_exchange ?inp = ExchangeOk joint_feedback0" by (simp add: demo_input_def)
  from contact_mode_owns_arm [OF demo_seeded_reach c demo_seeded_simps(7) ex] c demo_seeded_latched show ?thesis
    by (auto simp: demo_seeded_simps)
qed

end
