(* ===== verification/Spec2Isabelle.thy ===== *)
theory Spec2Isabelle
  imports Cartesian_Mode Sim_Transport Teleop_Main Link_Kortex Rt_System Contact_Replay Dynamics_Model
    Trajectory_Run Joint_Position_Check Velocity_Hold_Check Stream_Check Benchmarks Trajectory Streaming Position_Mode Velocity_Mode Torque_Mode Float_Mode Impedance_Mode
    Gains Contact_Monitor Gripper Seqlock Telemetry Rt_Safety Arm_Link Supervisor_Outcomes Kortex_Safety
begin

text \<open>
  Verification of the low-level driver of the Kinova Gen3 arm (\<open>kinova_lowlevel\<close>).

  \<^bold>\<open>The program.\<close> A backend (a ROS node, a socket server) calls the driving ports. The \<open>Arbiter\<close> admits
  the calls that carry the live token and forwards them to the \<open>Supervisor\<close>, which queues goals, opens
  streams, chooses the control mode, and runs two threads of its own: the sampler, which ticks the
  trajectory executor and integrates compliant streams, and the state pump. The \<open>RtExecutor\<close> runs the
  active control mode at 1 kHz over a \<open>Transport\<close>; \<open>ArmLink\<close> connects the transport, runs the
  executor, latches faults and reconnects. Values cross to the real-time thread through two-slot
  buffers, seqlocks and a ring.

  \<^bold>\<open>Where each part is modelled.\<close> Every definition is the function of the same or a prefixed name; the
  theory's own text names its files.
  \<^item> \<open>Prelude\<close>, \<open>Joint_Types\<close>: \<open>double\<close> as exact reals with both infinities and NaN and the IEEE
    comparisons, \<open>std::clamp\<close> and its relatives, the fixed-size vectors, \<open>wrap_to_pi\<close> (\<open>units.h\<close>), the
    two-slot publication buffer, the plain data of \<open>joint_types.h\<close> and \<open>gripper_types.h\<close>.
  \<^item> \<open>Watchdog\<close>, \<open>Velocity_Reference\<close>, \<open>Diff_Ik\<close>: \<open>command_watchdog.h\<close>, \<open>velocity_reference\<close>, \<open>diff_ik\<close>.
  \<^item> \<open>Position_Mode\<close>, \<open>Velocity_Mode\<close>, \<open>Torque_Mode\<close>, \<open>Impedance_Mode\<close>, \<open>Float_Mode\<close>, \<open>Gains\<close>: the control
    laws, each as its whole \<open>compute\<close>. \<open>Control_Modes\<close> gathers them under the interface the executor uses.
  \<^item> \<open>Contact_Monitor\<close>: momentum observer, debounce, latch. \<open>Gripper\<close>: the stamping decorator.
  \<^item> \<open>Seqlock\<close>, \<open>Telemetry\<close>: the lock-free snapshot and the sample ring with its histograms.
    \<open>Telemetry_Output\<close>: the loop that drains the ring, the CSV recording, the dump of a histogram.
  \<^item> \<open>Trajectory\<close>, \<open>Streaming\<close>, \<open>Ports\<close>, \<open>Arbiter\<close>, \<open>Arbiter_Concurrent\<close>: \<open>interface/\<close> below the Supervisor.
  \<^item> \<open>Rt_Executor\<close>, \<open>Rt_Safety\<close>, \<open>Arm_Link\<close>: one cycle and the run; the life cycle of the connection.
  \<^item> \<open>Supervisor\<close> (state, handlers), \<open>Supervisor_Sampler\<close> (the loops), \<open>Supervisor_Laws\<close> (what every
    operation keeps), \<open>Supervisor_Threads\<close> (the driver as a step relation), \<open>Supervisor_Estop\<close>,
    \<open>Supervisor_Safety\<close>, \<open>Supervisor_Outcomes\<close> (its properties).
  \<^item> \<open>Cartesian_Mode\<close>: the impedance law on the pose (\<open>cartesian_impedance_mode\<close>).
  \<^item> \<open>Kortex_Wire\<close>, \<open>Kortex_Transport\<close>, \<open>Kortex_Safety\<close>: the transport over the vendor SDK; \<open>Arm_Route\<close>: the check
    of the route before it connects. \<open>Kortex_Handover\<close>: which calls of the revert are still owed to the arm,
    read off the calls made. \<open>Link_Kortex\<close>: the loop of \<open>ArmLink\<close> over this transport, with what each
    call leaves in it. \<open>Sim_Transport\<close>: the simulated one.
  \<^item> \<open>Teleop_Protocol\<close>, \<open>Teleop_Server\<close>: the packets of the teleoperation socket and the format strings that
    document them, and the two threads of \<open>apps/teleop_socket_server.cpp\<close>, step by step; \<open>Teleop_Main\<close>: its options and its \<open>main\<close>.
  \<^item> \<open>Text\<close>, \<open>Rt_System\<close>, \<open>Contact_Replay\<close>: decimal numbers and line splitting; \<open>rt_system\<close>; the replay of
    recordings (\<open>contact_replay\<close> and its program).
  \<^item> \<open>Dynamics_Model\<close>: \<open>dynamics.cpp\<close>, the rigid-body model as \<open>Dynamics\<close> builds it and calls Pinocchio.
  \<^item> \<open>Command_Line\<close>: what the programs under \<open>apps/\<close> share, from the loop over the arguments to the way the
    arm is handed back. \<open>Trajectory_Run\<close>, \<open>Joint_Position_Check\<close>, \<open>Velocity_Probe\<close>, \<open>Velocity_Hold_Check\<close>,
    \<open>Stream_Check\<close> (with \<open>joint_torque_check\<close>) and \<open>Benchmarks\<close>: for each program its options, its checks,
    its conversation with the arm and what it commands.

  \<^bold>\<open>How the code is modelled.\<close> A class is a record, a method a function from its state to the new state. An
  exception is a value of a sum type; where the code throws after changing its state, the state is
  returned too. A loop that may not end (\<open>wrap_to_pi\<close> on an infinity) is \<open>partial_function (option)\<close>:
  \<open>None\<close> is a call that never returns, and it propagates to every caller. Threads are step relations
  over the state they share. A step of a sampler or of an arbiter call is the code between two points
  at which another thread can be seen to act: a locked section, an atomic access, a sleep. What the
  real-time thread does to the Supervisor's view (\<open>rt_change\<close>: the modes, the requested mode, the
  clock, the snapshot, the contact monitor) is left arbitrary, so the Supervisor's properties hold
  whatever it does. The executor takes from outside, as the input of a cycle, the outcome of the
  exchange and of the mode switch and the clock readings; what other threads publish to it changes
  between cycles, where the code reads each such value once per cycle.

  \<^bold>\<open>What is proved.\<close> For the Supervisor: each accepted goal is settled exactly once and by every halt,
  no handler throws, an e-stop keeps the arm stopped under every interleaving, what a stream open
  does, that accepted gains always hold the arm's weight. For the arbiter: exactly when a call is
  admitted, and that at most one token is live. For the executor and the link: when communication is
  lost, that a missed exchange resends, that a command fits the modes the actuators are in, that the
  contact mode keeps the arm once it has it, that a fault is held until it is cleared. For the
  transport: no joint is dropped during a mode switch, units and signs cancel, which failures are a
  missed exchange and what each leaves in the stored feedback. For the executor of trajectories: which goals are
  accepted, what a tick returns, that a goal completes, that the interpolant meets its waypoints and
  its rates are its derivatives. For the control laws: bounds on every command, holding against
  gravity, behaviour when the setpoints stop. For the lock-free structures: no torn read, and the ring
  refines a bounded queue. For the link over the transport: that no call reaches it out of order, that outside
  the executor's run every call of the revert owed to the arm has been made, and that an arm in fault is
  not moved. For teleoperation: the server reads and writes the documented formats; a control request is
  acknowledged, unless it is the shutdown, which need not be. For the replay: it tells the stop that the arm would have made. For the rigid-body model:
  its methods have no memory, and a joint is wrapped when it is continuous. For the programs: a dry run
  moves nothing, a program that ends with an exit code hands the arm back, the Supervisor accepts the stream of the
  stream check, and what becomes of its setpoints once it falls silent, a planned trajectory keeps to its speed. For the recordings: they read back, and the report is of
  every sample the ring accepted. Three properties prove defects: \<open>goal_runs_beside_stream\<close>,
  \<open>infinite_goal_stops_sampler\<close>, \<open>concurrent_grants_swap_silently\<close>; two include a case the comments of the
  code deny: \<open>control_acknowledged\<close> (a shutdown) and \<open>stream_check_admitted\<close> (the resume phase).

  \<^bold>\<open>Interfaces.\<close> \<open>latest_value\<close> (a value published by one writer), \<open>bounded_queue\<close> (the ring),
  \<open>commanding_modes\<close> (what the executor needs of a control mode), \<open>halting_driver\<close> (what the arbiter's
  e-stop needs of the driver behind it), \<open>read_only\<close> and \<open>handing_back\<close> (what the programs need of the
  transport when they only look at the arm, and when they end) are locales, each interpreted on the
  model's definitions.

  \<^bold>\<open>Parameters.\<close> The control laws take the rigid-body model as a record of functions, which
  \<open>Dynamics_Model\<close> builds over a record of what it calls of Pinocchio. The Eigen factorisations, the random
  generator, the conversions of text to numbers and the vendor SDK with the arm behind it are arguments
  too; what protobuf leaves in a message whose bytes do not parse is part of the arm's answer. No property assumes more of them than its statement says.

  \<^bold>\<open>Bounds and fuel.\<close> Machine counters are words where they wrap (the ring's 64-bit indices, the
  16-bit frame id, tokens of 128 bits); the rest are \<open>int\<close> or \<open>nat\<close>. The only fuel is the iteration
  count of the inverse kinematics, which is the code's own bound, and the number of sampler steps in
  \<open>halt_answers_every_goal\<close>, which is shown to exist.

  \<^bold>\<open>Not modelled.\<close> Rounding and overflow of \<open>double\<close> and \<open>float\<close>; the weak memory order within one atomic
  access; starting and joining threads, sleeping, sockets; printing, the console line of the telemetry
  included; numbers inside messages; what \<open>std::stod\<close> and \<open>std::stoi\<close> accept.
\<close>

end
